(* ===== verification/Sepol_Prelude.thy ===== *)
theory Sepol_Prelude
  imports Main "HOL-Library.Word"
begin

text \<open>
  Shared vocabulary of the development: the machine types of the C sources, the error codes
  of \<^verbatim>\<open>include/sepol/errcodes.h\<close>, the allocation budget that makes every
  \<^verbatim>\<open>malloc\<close> failure a branch of the model, and the word lemmas the components share.

  \<^item> C's unsigned integers keep their width (\<open>u8\<close>, \<open>u16\<close>, \<open>u32\<close>, \<open>u64\<close>).
    \<^verbatim>\<open>size_t\<close> is 64 bits wide (LP64), so sums of a 32-bit value and a small constant that C
    computes in \<^verbatim>\<open>size_t\<close> are written over \<open>nat\<close>.
  \<^item> A function that returns 0 or a negative code is a function into \<open>errcode + 'a\<close>.
    \<open>EFAIL\<close> is the bare -1 (\<^verbatim>\<open>SEPOL_ERR\<close>, \<^verbatim>\<open>STATUS_ERR\<close>); \<open>UNDEF\<close> marks a read through a
    null pointer or outside an array, which C leaves undefined.
  \<^item> \<open>mem\<close> is the number of allocations that still succeed. It is an oracle for the
    allocator: a call with budget \<open>k\<close> sees its \<open>(k+1)\<close>-th allocation fail.
\<close>

unbundle bit_operations_syntax

type_synonym u8 = "8 word"
type_synonym u16 = "16 word"
type_synonym u32 = "32 word"
type_synonym u64 = "64 word"

datatype errcode =
    ENOMEM
  | EEXIST
  | ENOENT
  | EINVAL
  | EOVERFLOW
  | EACCES
  | EPERM
  | EFAIL
  | UNDEF

type_synonym mem = nat

definition malloc :: "mem \<Rightarrow> mem option" where
  "malloc m = (case m of 0 \<Rightarrow> None | Suc k \<Rightarrow> Some k)"

lemma malloc_simps [simp]:
  "malloc 0 = None"
  "malloc (Suc m) = Some m"
  by (simp_all add: malloc_def)

lemma malloc_eq_Some [simp]: "malloc m = Some k \<longleftrightarrow> m = Suc k"
  by (cases m) auto

lemma malloc_eq_None [simp]: "malloc m = None \<longleftrightarrow> m = 0"
  by (cases m) auto

text \<open>Sequencing: an error ends the computation, the \<^verbatim>\<open>goto bad\<close> of the readers.\<close>

definition rbind :: "errcode + 'a \<Rightarrow> ('a \<Rightarrow> errcode + 'b) \<Rightarrow> errcode + 'b" where
  "rbind r f = (case r of Inl err \<Rightarrow> Inl err | Inr x \<Rightarrow> f x)"

lemma rbind_simps [simp]:
  "rbind (Inl err) f = Inl err"
  "rbind (Inr x) f = f x"
  by (simp_all add: rbind_def)

lemma rbind_eq_Inr: "rbind r f = Inr y \<longleftrightarrow> (\<exists>x. r = Inr x \<and> f x = Inr y)"
  by (cases r) auto

lemma rbind_eq_Inl: "rbind r f = Inl err \<longleftrightarrow> r = Inl err \<or> (\<exists>x. r = Inr x \<and> f x = Inl err)"
  by (cases r) auto

lemma rbind_cong [fundef_cong]:
  "r = r' \<Longrightarrow> (\<And>x. r' = Inr x \<Longrightarrow> f x = g x) \<Longrightarrow> rbind r f = rbind r' g"
  by (cases r') auto

text \<open>Array reads: an index outside the array, or a null entry, is undefined behaviour.\<close>

definition arr :: "'a list \<Rightarrow> nat \<Rightarrow> 'a option" where
  "arr xs i = (if i < length xs then Some (xs ! i) else None)"

definition ptr_arr :: "'a option list \<Rightarrow> nat \<Rightarrow> 'a option" where
  "ptr_arr xs i = (if i < length xs then xs ! i else None)"

lemma arr_eq_Some: "arr xs i = Some x \<longleftrightarrow> i < length xs \<and> xs ! i = x"
  by (auto simp: arr_def)

lemma arr_in_set: "arr xs i = Some x \<Longrightarrow> x \<in> set xs"
  by (auto simp: arr_def split: if_splits)

section \<open>Words\<close>

named_theorems word_facts "facts that move word comparisons to nat"

lemma possible_bit_word: "possible_bit TYPE('a::len word) n \<longleftrightarrow> n < LENGTH('a)"
  by (simp add: possible_bit_def bit_simps)

lemma unat_le_word [word_facts]: "(a :: 'a::len word) \<le> b \<longleftrightarrow> unat a \<le> unat b"
  by (rule word_le_nat_alt)

lemma unat_less_word [word_facts]: "(a :: 'a::len word) < b \<longleftrightarrow> unat a < unat b"
  by (rule word_less_nat_alt)

lemma unat_u32_bound: "unat (x :: u32) < 4294967296"
proof -
  have "unat x < 2 ^ LENGTH(32)" by (rule unsigned_less)
  then show ?thesis by simp
qed

lemma unat_inc_if_less:
  fixes b :: "'a::len word"
  assumes "b < c"
  shows "unat (b + 1) = Suc (unat b)"
proof -
  have "unat b < unat c" using assms by (simp add: word_facts)
  moreover have "unat c < 2 ^ LENGTH('a)" by (rule unsigned_less)
  ultimately have "unat b + unat (1 :: 'a word) < 2 ^ LENGTH('a)"
    unfolding unsigned_1 by linarith
  then have "unat (b + 1) = unat b + unat (1 :: 'a word)"
    by (simp only: unat_add_lem)
  then show ?thesis by simp
qed

lemma and_single_bit_eq_0:
  fixes w :: "'a::len word"
  assumes "k < LENGTH('a)"
  shows "w AND push_bit k 1 = 0 \<longleftrightarrow> \<not> bit w k"
  using assms by (simp add: bit_iff_and_push_bit_not_eq_0)

lemma bit_or_single [simp]:
  fixes w :: "'a::len word"
  assumes "k < LENGTH('a)"
  shows "bit (w OR 2 ^ k) j \<longleftrightarrow> bit w j \<or> j = k"
  using assms by (auto simp: bit_or_iff bit_exp_iff possible_bit_word)

lemma bit_andnot_single [simp]:
  fixes w :: "'a::len word"
  assumes "k < LENGTH('a)"
  shows "bit (w AND NOT (2 ^ k)) j \<longleftrightarrow> bit w j \<and> j \<noteq> k"
  using assms
  by (auto simp: bit_and_iff bit_not_iff bit_exp_iff possible_bit_word dest: bit_imp_le_length)

lemma exp_nonzero [simp]: "k < LENGTH('a) \<Longrightarrow> (2 ^ k :: 'a::len word) \<noteq> 0"
  using bit_or_single[of k "0 :: 'a word" k] by auto

lemma word_eq_0_iff_bits: "(w :: 'a::len word) = 0 \<longleftrightarrow> (\<forall>k. \<not> bit w k)"
  by (auto intro: bit_word_eqI)

lemma ex_bit_if_nonzero:
  fixes w :: "'a::len word"
  assumes "w \<noteq> 0"
  obtains k where "bit w k" "k < LENGTH('a)"
  using assms by (metis word_eq_0_iff_bits bit_imp_le_length)

lemma drop_bit_1_less: "drop_bit 1 w \<noteq> 0 \<Longrightarrow> unat (drop_bit 1 (w :: 'a::len word)) < unat w"
proof -
  assume nz: "drop_bit 1 w \<noteq> 0"
  have eq: "unat (drop_bit 1 w) = unat w div 2"
    by (subst unat_drop_bit_eq) (simp add: drop_bit_Suc)
  from nz have "unat (drop_bit 1 w) \<noteq> 0"
    by (metis unat_eq_zero)
  with eq show ?thesis by simp
qed

lemma drop_bit_1_less_self: "w \<noteq> 0 \<Longrightarrow> unat (drop_bit 1 (w :: 'a::len word)) < unat w"
  using drop_bit_1_less[of w] by (cases "drop_bit 1 w = 0") (auto simp: unat_gt_0)

end
