(* ===== verification/Ebitmap.thy ===== *)
theory Ebitmap
  imports Sepol_Prelude
begin

text \<open>
  The extensible bitmap of \<^verbatim>\<open>src/ebitmap.c\<close> and \<^verbatim>\<open>include/sepol/policydb/ebitmap.h\<close>: a
  linked list of 64-bit blocks, kept in ascending order of their start bit. The \<^verbatim>\<open>next\<close>
  pointers are the order of the list. Every operation that calls \<^verbatim>\<open>malloc\<close> takes the
  allocation budget and returns what is left of it; a failed allocation destroys the partial
  result and is the error \<open>ENOMEM\<close>. C's 0/1 results are \<open>bool\<close>.

  This theory holds the representation, its well-formedness invariant, the abstraction to
  the set of 32-bit positions that are set, and the operations that read or change a single
  bitmap. \<^verbatim>\<open>Ebitmap_Ops\<close> holds the set operations on two bitmaps.
\<close>

section \<open>Representation\<close>

abbreviation MAPSIZE :: nat where
  "MAPSIZE \<equiv> 64"

record ebitmap_node =
  startbit :: u32
  nmap :: u64

record ebitmap =
  node :: "ebitmap_node list"
  highbit :: u32

definition ebitmap_init :: ebitmap where
  "ebitmap_init = \<lparr>node = [], highbit = 0\<rparr>"

definition ebitmap_destroy :: "ebitmap \<Rightarrow> ebitmap" where
  "ebitmap_destroy e = e\<lparr>node := [], highbit := 0\<rparr>"

definition ebitmap_is_empty :: "ebitmap \<Rightarrow> bool" where
  "ebitmap_is_empty e \<longleftrightarrow> node e = []"

definition ebitmap_length :: "ebitmap \<Rightarrow> u32" where
  "ebitmap_length e = (if node e \<noteq> [] then highbit e else 0)"

definition ebitmap_startbit :: "ebitmap \<Rightarrow> u32" where
  "ebitmap_startbit e = (case node e of [] \<Rightarrow> 0 | n # _ \<Rightarrow> startbit n)"

text \<open>The bit of a node: \<^verbatim>\<open>n->map & (MAPBIT << (bit - n->startbit))\<close>.\<close>

definition ebitmap_node_get_bit :: "ebitmap_node \<Rightarrow> u32 \<Rightarrow> bool" where
  "ebitmap_node_get_bit n b \<longleftrightarrow> nmap n AND push_bit (unat (b - startbit n)) 1 \<noteq> 0"

text \<open>\<^verbatim>\<open>bit & ~(MAPSIZE - 1)\<close>: the start of the block of a bit.\<close>

definition blkstart :: "u32 \<Rightarrow> u32" where
  "blkstart b = b AND NOT 63"

section \<open>Reading one bit\<close>

fun get_bit_nodes :: "ebitmap_node list \<Rightarrow> u32 \<Rightarrow> bool" where
  "get_bit_nodes [] b = False"
| "get_bit_nodes (n # ns) b =
     (if startbit n \<le> b then
        (if unat (startbit n) + MAPSIZE > unat b then ebitmap_node_get_bit n b
         else get_bit_nodes ns b)
      else False)"

definition ebitmap_get_bit :: "ebitmap \<Rightarrow> u32 \<Rightarrow> bool" where
  "ebitmap_get_bit e b = (if highbit e < b then False else get_bit_nodes (node e) b)"

section \<open>Writing one bit\<close>

text \<open>
  The loop of \<^verbatim>\<open>ebitmap_set_bit\<close>: \<open>prev\<close> is the start bit of the node before the current
  one, \<open>hb\<close> the high bit of the bitmap. The result is the new list and the new high bit.
\<close>

fun set_bit_nodes ::
  "mem \<Rightarrow> u32 option \<Rightarrow> u32 \<Rightarrow> u32 \<Rightarrow> bool \<Rightarrow> ebitmap_node list
     \<Rightarrow> errcode + ebitmap_node list \<times> u32 \<times> mem" where
  "set_bit_nodes m prev hb b v [] =
     (if \<not> v then Inr ([], hb, m)
      else case malloc m of
        None \<Rightarrow> Inl ENOMEM
      | Some m' \<Rightarrow>
          (let s = blkstart b
           in Inr ([\<lparr>startbit = s, nmap = push_bit (unat (b - s)) 1\<rparr>], s + 64, m')))"
| "set_bit_nodes m prev hb b v (n # ns) =
     (if startbit n \<le> b then
        if unat (startbit n) + MAPSIZE > unat b then
          if v then
            Inr (n\<lparr>nmap := nmap n OR push_bit (unat (b - startbit n)) 1\<rparr> # ns, hb, m)
          else
            (let mp = nmap n AND NOT (push_bit (unat (b - startbit n)) 1)
             in if mp = 0
                then Inr (ns,
                  (if ns = [] then (case prev of None \<Rightarrow> 0 | Some p \<Rightarrow> p + 64) else hb), m)
                else Inr (n\<lparr>nmap := mp\<rparr> # ns, hb, m))
        else
          (case set_bit_nodes m (Some (startbit n)) hb b v ns of
             Inl err \<Rightarrow> Inl err
           | Inr (ns', hb', m') \<Rightarrow> Inr (n # ns', hb', m'))
      else if \<not> v then Inr (n # ns, hb, m)
      else case malloc m of
        None \<Rightarrow> Inl ENOMEM
      | Some m' \<Rightarrow>
          (let s = blkstart b
           in Inr (\<lparr>startbit = s, nmap = push_bit (unat (b - s)) 1\<rparr> # n # ns, hb, m')))"

definition ebitmap_set_bit ::
  "mem \<Rightarrow> ebitmap \<Rightarrow> u32 \<Rightarrow> bool \<Rightarrow> errcode + ebitmap \<times> mem" where
  "ebitmap_set_bit m e b v =
     (if blkstart b + 64 = 0 then Inl EINVAL
      else case set_bit_nodes m None (highbit e) b v (node e) of
        Inl err \<Rightarrow> Inl err
      | Inr (ns, hb, m') \<Rightarrow> Inr (e\<lparr>node := ns, highbit := hb\<rparr>, m'))"

section \<open>Counting, highest bit, iteration\<close>

text \<open>\<^verbatim>\<open>__builtin_popcountll\<close>: the number of one bits of a 64-bit value.\<close>

definition popcount64 :: "u64 \<Rightarrow> nat" where
  "popcount64 w = length (filter (bit w) [0..<64])"

fun cardinality_loop :: "ebitmap_node list \<Rightarrow> u32 \<Rightarrow> u32" where
  "cardinality_loop [] count = count"
| "cardinality_loop (n # ns) count =
     cardinality_loop ns (count + of_nat (popcount64 (nmap n)))"

definition ebitmap_cardinality :: "ebitmap \<Rightarrow> u32" where
  "ebitmap_cardinality e = cardinality_loop (node e) 0"

text \<open>The loop \<^verbatim>\<open>while (map >>= 1) pos++\<close>.\<close>

function shift_pos :: "u64 \<Rightarrow> nat \<Rightarrow> nat" where
  "shift_pos w pos =
     (let w' = drop_bit 1 w in if w' \<noteq> 0 then shift_pos w' (Suc pos) else pos)"
  by pat_completeness auto

termination shift_pos
  by (relation "measure (\<lambda>(w, pos). unat w)") (auto simp: drop_bit_1_less[simplified])

declare shift_pos.simps [simp del]

definition ebitmap_highest_set_bit :: "ebitmap \<Rightarrow> u32" where
  "ebitmap_highest_set_bit e =
     (case node e of [] \<Rightarrow> 0
      | _ \<Rightarrow> (let n = last (node e) in startbit n + of_nat (shift_pos (nmap n) 0)))"

text \<open>
  The iteration macros. The position is the pair of the current node (the head of the rest of
  the list) and the bit number; \<^verbatim>\<open>ebitmap_next\<close> moves to the next node at the end of a block.
\<close>

definition ebitmap_next :: "ebitmap_node list \<Rightarrow> u32 \<Rightarrow> ebitmap_node list \<times> u32" where
  "ebitmap_next ns b =
     (case ns of
        n # n' # rest \<Rightarrow>
          (if unat b = unat (startbit n) + MAPSIZE - 1 then (n' # rest, startbit n')
           else (ns, b + 1))
      | _ \<Rightarrow> (ns, b + 1))"

function for_each_bit :: "u32 \<Rightarrow> ebitmap_node list \<Rightarrow> u32 \<Rightarrow> (ebitmap_node \<times> u32) list" where
  "for_each_bit hb ns b =
     (if b < hb \<and> ns \<noteq> []
      then (hd ns, b) # (case ebitmap_next ns b of (ns', b') \<Rightarrow> for_each_bit hb ns' b')
      else [])"
  by pat_completeness auto

lemma ebitmap_next_decreases:
  assumes "b < hb" "ns \<noteq> []" "ebitmap_next ns b = (ns', b')"
  shows "length ns' < length ns \<or> (length ns' = length ns \<and> unat hb - unat b' < unat hb - unat b)"
proof -
  have "unat (b + 1) = Suc (unat b)"
    using assms(1) by (rule unat_inc_if_less)
  with assms show ?thesis
    by (auto simp: ebitmap_next_def word_facts split: list.splits if_splits)
qed

termination for_each_bit
  by (relation "measures [\<lambda>(hb, ns, b). length ns, \<lambda>(hb, ns, b). unat hb - unat b]")
     (auto dest: ebitmap_next_decreases[OF _ _ sym] split: prod.splits)

declare for_each_bit.simps [simp del]

definition ebitmap_bits_visited :: "ebitmap \<Rightarrow> (ebitmap_node \<times> u32) list" where
  "ebitmap_bits_visited e = for_each_bit (ebitmap_length e) (node e) (ebitmap_startbit e)"

definition ebitmap_positive_bits :: "ebitmap \<Rightarrow> u32 list" where
  "ebitmap_positive_bits e =
     map snd (filter (\<lambda>(n, b). ebitmap_node_get_bit n b) (ebitmap_bits_visited e))"

section \<open>Blocks\<close>

text \<open>The offset of a position in its block.\<close>

definition blkoff :: "u32 \<Rightarrow> nat" where
  "blkoff b = unat (b - blkstart b)"

definition aligned :: "u32 \<Rightarrow> bool" where
  "aligned s \<longleftrightarrow> s AND 63 = 0"

lemma and_63_eq_mod: "(b :: u32) AND 63 = b mod 64"
  using take_bit_eq_mask[of 6 b] by (simp add: mask_numeral take_bit_eq_mod)

lemma unat_and_63: "unat ((b :: u32) AND 63) = unat b mod 64"
  by (simp add: and_63_eq_mod unat_mod)

lemma blkstart_diff: "blkstart b = b - (b AND 63)"
proof -
  have "b - (b AND 63) = b AND NOT (b AND 63)"
    by (rule disjunctive_diff_eq_and_not) (auto intro: bit_word_eqI simp: bit_simps)
  also have "\<dots> = b AND NOT 63"
    by (auto intro: bit_word_eqI simp: bit_simps)
  finally show ?thesis
    by (simp add: blkstart_def)
qed

lemma unat_blkstart: "unat (blkstart b) = 64 * (unat b div 64)"
proof -
  have "b AND 63 \<le> b" by (rule word_and_le2)
  then have "unat (blkstart b) = unat b - unat b mod 64"
    by (simp add: blkstart_diff unat_sub unat_and_63)
  then show ?thesis by (simp add: minus_mod_eq_mult_div)
qed

lemma aligned_iff: "aligned s \<longleftrightarrow> unat s mod 64 = 0"
  by (metis aligned_def unat_and_63 unat_eq_zero)

lemma aligned_blkstart [simp]: "aligned (blkstart b)"
  by (simp add: aligned_iff unat_blkstart)

lemma blkstart_le: "blkstart b \<le> b"
  by (simp add: word_facts unat_blkstart)

lemma blkoff_eq_mod: "blkoff b = unat b mod 64"
proof -
  have "unat (b - blkstart b) = unat b - unat (blkstart b)"
    by (rule unat_sub) (rule blkstart_le)
  then show ?thesis
    by (simp add: blkoff_def unat_blkstart modulo_nat_def mult.commute)
qed

lemma blkoff_fold [simp]: "unat (b - blkstart b) = blkoff b"
  by (simp add: blkoff_def)

lemma blkoff_less [simp]: "blkoff b < 64"
  by (simp add: blkoff_eq_mod)

lemma in_block_iff:
  assumes "aligned s"
  shows "s \<le> b \<and> unat b < unat s + 64 \<longleftrightarrow> blkstart b = s"
proof -
  have "blkstart b = s \<longleftrightarrow> 64 * (unat b div 64) = unat s"
    by (metis unat_blkstart word_unat_eq_iff)
  moreover from assms obtain k where "unat s = 64 * k"
    by (auto simp: aligned_iff)
  ultimately show ?thesis
    by (auto simp: word_facts)
qed

lemma blkstart_less: "aligned s \<Longrightarrow> \<not> s \<le> b \<Longrightarrow> blkstart b < s"
  using blkstart_le[of b] by (simp add: not_le)

lemma blkstart_aligned [simp]: "aligned s \<Longrightarrow> blkstart s = s"
  using in_block_iff[of s s] by simp

lemma blkstart_less_iff: "aligned s \<Longrightarrow> blkstart b < s \<longleftrightarrow> b < s"
  by (auto simp: word_facts unat_blkstart aligned_iff)

lemma aligned_less_diff: "aligned s \<Longrightarrow> aligned t \<Longrightarrow> s < t \<Longrightarrow> unat s + 64 \<le> unat t"
  by (auto simp: word_facts aligned_iff elim!: dvdE)

lemma block_add:
  assumes "aligned s" "k < 64"
  shows "unat (s + of_nat k) = unat s + k"
    and "blkstart (s + of_nat k) = s"
    and "blkoff (s + of_nat k) = k"
proof -
  have s: "unat s mod 64 = 0" using assms(1) by (simp add: aligned_iff)
  have "unat s < 4294967296" by (rule unat_u32_bound)
  with s assms(2) have "unat s + k < 4294967296"
    by presburger
  with assms(2) show u: "unat (s + of_nat k) = unat s + k"
    by (simp add: unat_word_ariths unat_of_nat)
  from u s assms(2) show "blkoff (s + of_nat k) = k"
    by (simp add: blkoff_eq_mod mod_add_left_eq[symmetric])
  from u assms show "blkstart (s + of_nat k) = s"
    by (subst in_block_iff[symmetric]) (auto simp: word_facts)
qed

lemma unat_block: "unat b = unat (blkstart b) + blkoff b"
  by (simp add: unat_blkstart blkoff_eq_mod)

lemma block_eqI: "blkstart b = blkstart c \<Longrightarrow> blkoff b = blkoff c \<Longrightarrow> b = c"
  by (metis blkoff_def diff_add_cancel word_unat_eq_iff)

section \<open>The invariant and the abstraction\<close>

definition node_ok :: "ebitmap_node \<Rightarrow> bool" where
  "node_ok n \<longleftrightarrow> aligned (startbit n) \<and> startbit n + 64 \<noteq> 0 \<and> nmap n \<noteq> 0"

definition wf_nodes :: "ebitmap_node list \<Rightarrow> bool" where
  "wf_nodes ns \<longleftrightarrow> sorted_wrt (\<lambda>a b. startbit a < startbit b) ns \<and> list_all node_ok ns"

definition nodes_end :: "ebitmap_node list \<Rightarrow> u32" where
  "nodes_end ns = (if ns = [] then 0 else startbit (last ns) + 64)"

definition wf_ebitmap :: "ebitmap \<Rightarrow> bool" where
  "wf_ebitmap e \<longleftrightarrow> wf_nodes (node e) \<and> highbit e = nodes_end (node e)"

text \<open>The block at a start bit, 0 where the list has none; the set of positions.\<close>

fun blk :: "ebitmap_node list \<Rightarrow> u32 \<Rightarrow> u64" where
  "blk [] s = 0"
| "blk (n # ns) s = (if startbit n = s then nmap n else blk ns s)"

definition nbits :: "ebitmap_node list \<Rightarrow> u32 set" where
  "nbits ns = {b. bit (blk ns (blkstart b)) (blkoff b)}"

definition ebits :: "ebitmap \<Rightarrow> u32 set" where
  "ebits e = nbits (node e)"

lemma wf_nodes_Nil [simp]: "wf_nodes []"
  by (simp add: wf_nodes_def)

lemma wf_nodes_Cons:
  "wf_nodes (n # ns) \<longleftrightarrow> node_ok n \<and> wf_nodes ns \<and> (\<forall>n' \<in> set ns. startbit n < startbit n')"
  by (auto simp: wf_nodes_def)

lemma blk_none: "(\<And>n. n \<in> set ns \<Longrightarrow> startbit n \<noteq> s) \<Longrightarrow> blk ns s = 0"
  by (induction ns) auto

lemma blk_below:
  assumes "wf_nodes ns" "\<forall>n \<in> set ns. t < startbit n" "s \<le> t"
  shows "blk ns s = 0"
  using assms by (intro blk_none) auto

lemma blk_tail_0 [simp]: "wf_nodes (n # ns) \<Longrightarrow> s \<le> startbit n \<Longrightarrow> blk ns s = 0"
  by (rule blk_below[of ns "startbit n"]) (auto simp: wf_nodes_Cons)

lemma blk_not_aligned: "list_all node_ok ns \<Longrightarrow> \<not> aligned s \<Longrightarrow> blk ns s = 0"
  by (induction ns) (auto simp: node_ok_def)

lemma nbits_Nil [simp]: "nbits [] = {}"
  by (simp add: nbits_def)

lemma in_nbits: "b \<in> nbits ns \<longleftrightarrow> bit (blk ns (blkstart b)) (blkoff b)"
  by (simp add: nbits_def)

lemma node_end:
  assumes "node_ok n"
  shows "unat (startbit n + 64) = unat (startbit n) + 64"
    and "unat (startbit n) + 64 < 4294967296"
proof -
  have a: "unat (startbit n) mod 64 = 0" using assms by (simp add: node_ok_def aligned_iff)
  have lt: "unat (startbit n) < 4294967296" by (rule unat_u32_bound)
  have "unat (startbit n + 64) = (unat (startbit n) + 64) mod 4294967296"
    by (simp add: unat_word_ariths)
  moreover have "unat (startbit n + 64) \<noteq> 0"
    using assms unat_eq_zero by (auto simp: node_ok_def)
  ultimately have "unat (startbit n) + 64 \<noteq> 4294967296"
    by (metis mod_self)
  with a lt show "unat (startbit n) + 64 < 4294967296"
    by presburger
  then show "unat (startbit n + 64) = unat (startbit n) + 64"
    by (simp add: unat_word_ariths)
qed

end
