(* ===== verification/Ebitmap_Bits.thy ===== *)
theory Ebitmap_Bits
  imports Ebitmap
begin

text \<open>
  Correctness of the single-bitmap operations of \<^verbatim>\<open>src/ebitmap.c\<close> against the set of
  positions: reading, setting and clearing a bit, counting, the highest bit, and the order in
  which the iteration macros visit the bits.
\<close>

lemma blk_in_set: "wf_nodes ns \<Longrightarrow> n \<in> set ns \<Longrightarrow> blk ns (startbit n) = nmap n"
  by (induction ns) (auto simp: wf_nodes_Cons)

section \<open>Reading\<close>

lemma node_get_bit_in_block:
  assumes "startbit n = blkstart b"
  shows "ebitmap_node_get_bit n b \<longleftrightarrow> bit (nmap n) (blkoff b)"
  using assms and_single_bit_eq_0[of "blkoff b" "nmap n"]
  by (simp add: ebitmap_node_get_bit_def)

lemma get_bit_nodes_eq: "wf_nodes ns \<Longrightarrow> get_bit_nodes ns b \<longleftrightarrow> b \<in> nbits ns"
proof (induction ns)
  case Nil
  then show ?case by simp
next
  case (Cons n ns)
  then have al: "aligned (startbit n)" and wf: "wf_nodes ns"
    by (auto simp: wf_nodes_Cons node_ok_def)
  note in_block = in_block_iff[OF al, of b]
  show ?case
  proof (cases "startbit n = blkstart b")
    case True
    with in_block have "startbit n \<le> b" "unat b < unat (startbit n) + MAPSIZE" by auto
    with True show ?thesis by (simp add: in_nbits node_get_bit_in_block)
  next
    case False
    then have eq: "b \<in> nbits (n # ns) \<longleftrightarrow> b \<in> nbits ns" by (simp add: in_nbits)
    show ?thesis
    proof (cases "startbit n \<le> b")
      case True
      with False in_block show ?thesis by (auto simp: eq Cons.IH[OF wf])
    next
      case below: False
      have "blkstart b \<le> startbit n"
        using blkstart_less[OF al below] by simp
      with Cons.prems False below show ?thesis by (simp add: eq in_nbits)
    qed
  qed
qed

lemma wf_nodes_last: "wf_nodes ns \<Longrightarrow> n \<in> set ns \<Longrightarrow> startbit n \<le> startbit (last ns)"
  by (induction ns) (auto simp: wf_nodes_Cons order_less_imp_le)

lemma wf_nodes_node_ok: "wf_nodes ns \<Longrightarrow> n \<in> set ns \<Longrightarrow> node_ok n"
  by (auto simp: wf_nodes_def list_all_iff)

lemma nbits_below_end:
  assumes "wf_nodes ns" "b \<in> nbits ns"
  shows "b < nodes_end ns"
proof -
  from assms(2) obtain n where n: "n \<in> set ns" "startbit n = blkstart b"
    by (metis bit_0_eq bot_apply bot_bool_def blk_none in_nbits)
  have l: "node_ok (last ns)"
    using n assms(1) by (intro wf_nodes_node_ok[OF assms(1)] last_in_set) auto
  have "aligned (startbit n)" by (simp add: n)
  then have "unat b < unat (startbit n) + 64"
    using n in_block_iff[of "startbit n" b] by simp
  also have "\<dots> \<le> unat (startbit (last ns)) + 64"
    using wf_nodes_last[OF assms(1) n(1)] by (simp add: word_facts)
  finally have "unat b < unat (startbit (last ns) + 64)"
    by (simp add: node_end[OF l])
  with n(1) show ?thesis
    by (auto simp: nodes_end_def word_facts)
qed

lemma ebitmap_get_bit_iff: "wf_ebitmap e \<Longrightarrow> ebitmap_get_bit e b \<longleftrightarrow> b \<in> ebits e"
  by (auto simp: ebitmap_get_bit_def ebits_def wf_ebitmap_def get_bit_nodes_eq
      dest: nbits_below_end)

section \<open>Setting and clearing\<close>

definition put_bit :: "bool \<Rightarrow> nat \<Rightarrow> u64 \<Rightarrow> u64" where
  "put_bit v k w = (if v then w OR push_bit k 1 else w AND NOT (push_bit k 1))"

lemma bit_put_bit: "k < 64 \<Longrightarrow> bit (put_bit v k w) j \<longleftrightarrow> (if j = k then v else bit w j)"
  by (auto simp: put_bit_def)

lemma put_bit_0 [simp]: "put_bit True k 0 = 2 ^ k" "put_bit False k 0 = 0"
  by (simp_all add: put_bit_def)

definition tail_end :: "u32 option \<Rightarrow> ebitmap_node list \<Rightarrow> u32" where
  "tail_end prev ns =
     (if ns = [] then (case prev of None \<Rightarrow> 0 | Some p \<Rightarrow> p + 64) else startbit (last ns) + 64)"

lemma tail_end_Cons [simp]: "tail_end prev (n # ns) = tail_end (Some (startbit n)) ns"
  by (simp add: tail_end_def)

lemma nodes_end_tail_end: "nodes_end ns = tail_end None ns"
  by (simp add: nodes_end_def tail_end_def)

lemma set_bit_nodes_error:
  "set_bit_nodes m prev hb b v ns = Inl err \<Longrightarrow> err = ENOMEM \<and> m = 0 \<and> v"
  by (induction m prev hb b v ns rule: set_bit_nodes.induct)
     (auto simp: Let_def split: if_splits option.splits sum.splits)

definition set_bit_post ::
  "u32 option \<Rightarrow> u32 \<Rightarrow> bool \<Rightarrow> ebitmap_node list \<Rightarrow> ebitmap_node list \<Rightarrow> u32 \<Rightarrow> bool" where
  "set_bit_post prev b v ns ns' hb' \<longleftrightarrow>
     wf_nodes ns' \<and> hb' = tail_end prev ns' \<and>
     (\<forall>n' \<in> set ns'. startbit n' = blkstart b \<or> startbit n' \<in> startbit ` set ns) \<and>
     (\<forall>s. blk ns' s = (if s = blkstart b then put_bit v (blkoff b) (blk ns s) else blk ns s))"

lemma set_bit_post_fresh:
  assumes "wf_nodes ns" "blkstart b + 64 \<noteq> 0" "\<forall>n \<in> set ns. blkstart b < startbit n"
    and "hb' = tail_end (Some (blkstart b)) ns"
  shows "set_bit_post prev b True ns
           (\<lparr>startbit = blkstart b, nmap = 2 ^ blkoff b\<rparr> # ns) hb'"
  using assms blk_below[of ns "blkstart b" "blkstart b"] blkoff_less[of b]
  by (auto simp: set_bit_post_def wf_nodes_Cons node_ok_def simp del: blkoff_less)

lemma set_bit_post_absent:
  assumes "wf_nodes ns" "hb = tail_end prev ns" "blk ns (blkstart b) = 0"
  shows "set_bit_post prev b False ns ns hb"
  using assms by (auto simp: set_bit_post_def)

lemma set_bit_post_here:
  assumes "wf_nodes (n # ns)" "startbit n = blkstart b" "hb = tail_end prev (n # ns)"
    and "put_bit v (blkoff b) (nmap n) \<noteq> 0"
  shows "set_bit_post prev b v (n # ns)
           (n\<lparr>nmap := put_bit v (blkoff b) (nmap n)\<rparr> # ns) hb"
  using assms by (auto simp: set_bit_post_def wf_nodes_Cons node_ok_def)

lemma set_bit_post_drop:
  assumes "wf_nodes (n # ns)" "startbit n = blkstart b" "hb = tail_end prev (n # ns)"
    and "put_bit False (blkoff b) (nmap n) = 0"
  shows "set_bit_post prev b False (n # ns) ns
           (if ns = [] then (case prev of None \<Rightarrow> 0 | Some p \<Rightarrow> p + 64) else hb)"
  using assms blk_tail_0[OF assms(1), of "blkstart b"]
  by (auto simp: set_bit_post_def wf_nodes_Cons tail_end_def)

lemma set_bit_post_Cons:
  assumes "wf_nodes (n # ns)" "startbit n < blkstart b"
    and "set_bit_post (Some (startbit n)) b v ns ns' hb'"
  shows "set_bit_post prev b v (n # ns) (n # ns') hb'"
  using assms by (auto simp: set_bit_post_def wf_nodes_Cons)

lemma set_bit_nodes_sound:
  assumes "set_bit_nodes m prev hb b v ns = Inr (ns', hb', m')"
    and "wf_nodes ns" and "hb = tail_end prev ns" and "blkstart b + 64 \<noteq> 0"
  shows "set_bit_post prev b v ns ns' hb'"
  using assms
proof (induction m prev hb b v ns arbitrary: ns' hb' m' rule: set_bit_nodes.induct)
  case (1 m prev hb b v)
  then show ?case
    by (cases v) (auto simp: Let_def tail_end_def
        split: option.splits intro!: set_bit_post_fresh set_bit_post_absent)
next
  case (2 m prev hb b v n ns)
  from "2.prems" have al: "aligned (startbit n)" and wf: "wf_nodes ns" and nz: "nmap n \<noteq> 0"
    by (auto simp: wf_nodes_Cons node_ok_def)
  note in_block = in_block_iff[OF al, of b]
  consider (here) "startbit n = blkstart b" | (after) "startbit n < blkstart b"
    | (before) "blkstart b < startbit n"
    by fastforce
  then show ?case
  proof cases
    case here
    with in_block have guard: "startbit n \<le> b" "unat b < unat (startbit n) + MAPSIZE" by auto
    have put: "put_bit True (blkoff b) (nmap n) \<noteq> 0"
      by (metis bit_0_eq bit_put_bit blkoff_less bot_apply bot_bool_def)
    show ?thesis
      using "2.prems"(1) guard put
        set_bit_post_here[OF "2.prems"(2) here "2.prems"(3), of v]
        set_bit_post_drop[OF "2.prems"(2) here "2.prems"(3)]
      by (auto simp: here put_bit_def Let_def simp del: tail_end_Cons split: if_splits)
  next
    case after
    then have guard: "startbit n \<le> b" "\<not> unat b < unat (startbit n) + MAPSIZE"
      using in_block blkstart_le[of b] by auto
    with "2.prems"(1) obtain ns1 where
      rec: "set_bit_nodes m (Some (startbit n)) hb b v ns = Inr (ns1, hb', m')" "ns' = n # ns1"
      by (auto split: sum.splits prod.splits)
    with "2.IH"[OF guard(1) _ rec(1)] guard wf "2.prems" after show ?thesis
      by (auto intro: set_bit_post_Cons)
  next
    case before
    then have guard: "\<not> startbit n \<le> b" by (simp add: blkstart_less_iff[OF al] not_le)
    have lower: "\<forall>n' \<in> set (n # ns). blkstart b < startbit n'"
      using before "2.prems"(2) by (auto simp: wf_nodes_Cons)
    have absent: "blk (n # ns) (blkstart b) = 0"
      using lower by (intro blk_none) auto
    show ?thesis
      using "2.prems" guard lower absent
        set_bit_post_fresh[OF "2.prems"(2,4) lower, of hb prev]
        set_bit_post_absent[OF "2.prems"(2,3) absent]
      by (auto simp: Let_def
          split: if_splits option.splits)
  qed
qed

lemma ebitmap_set_bit_ok:
  assumes "wf_ebitmap e" "ebitmap_set_bit m e b v = Inr (e', m')"
  shows "wf_ebitmap e'" and "ebits e' = (if v then insert b (ebits e) else ebits e - {b})"
proof -
  from assms(2) obtain ns hb where
    sb: "set_bit_nodes m None (highbit e) b v (node e) = Inr (ns, hb, m')"
    and e': "e' = e\<lparr>node := ns, highbit := hb\<rparr>" and nov: "blkstart b + 64 \<noteq> 0"
    by (auto simp: ebitmap_set_bit_def split: if_splits sum.splits prod.splits)
  have post: "set_bit_post None b v (node e) ns hb"
    using assms(1) nov
    by (intro set_bit_nodes_sound[OF sb]) (auto simp: wf_ebitmap_def nodes_end_tail_end)
  then show "wf_ebitmap e'"
    by (simp add: e' wf_ebitmap_def set_bit_post_def nodes_end_tail_end)
  have "c \<in> nbits ns \<longleftrightarrow> (if c = b then v else c \<in> nbits (node e))" for c
    using post block_eqI[of b c]
    by (cases "blkstart c = blkstart b") (auto simp: set_bit_post_def in_nbits bit_put_bit)
  then show "ebits e' = (if v then insert b (ebits e) else ebits e - {b})"
    by (intro set_eqI) (simp add: ebits_def e')
qed

lemma ebitmap_set_bit_error:
  assumes "ebitmap_set_bit m e b v = Inl err"
  shows "(err = EINVAL \<and> blkstart b + 64 = 0) \<or> (err = ENOMEM \<and> m = 0 \<and> v)"
  using assms
  by (auto simp: ebitmap_set_bit_def split: if_splits sum.splits prod.splits
      dest!: set_bit_nodes_error)

lemma blkstart_overflow_iff: "blkstart b + 64 = 0 \<longleftrightarrow> 4294967232 \<le> unat b"
proof -
  have "blkstart b + 64 = 0 \<longleftrightarrow> unat (blkstart b + 64) = 0"
    by (simp add: unat_0_iff)
  also have "\<dots> \<longleftrightarrow> (64 * (unat b div 64) + 64) mod 4294967296 = 0"
    by (simp add: unat_word_ariths unat_blkstart)
  also have "\<dots> \<longleftrightarrow> unat b div 64 = 67108863"
  proof (cases "unat b div 64 = 67108863")
    case False
    moreover have "unat b div 64 < 67108864"
      using unat_u32_bound[of b] by (simp add: less_mult_imp_div_less)
    ultimately have "64 * (unat b div 64) + 64 < 4294967296" by linarith
    with False show ?thesis by simp
  qed simp
  also have "\<dots> \<longleftrightarrow> 4294967232 \<le> unat b"
    using unat_u32_bound[of b] by linarith
  finally show ?thesis .
qed

lemma ebitmap_set_bit_EINVAL:
  "4294967232 \<le> unat b \<Longrightarrow> ebitmap_set_bit m e b v = Inl EINVAL"
  by (simp add: ebitmap_set_bit_def blkstart_overflow_iff)

lemma wf_ebitmap_init [simp]: "wf_ebitmap ebitmap_init" "ebits ebitmap_init = {}"
  by (simp_all add: wf_ebitmap_def ebitmap_init_def nodes_end_def ebits_def)

section \<open>Iteration\<close>

definition node_positions :: "ebitmap_node \<Rightarrow> u32 list" where
  "node_positions n = map (\<lambda>j. startbit n + of_nat j) (filter (bit (nmap n)) [0..<64])"

lemma for_each_bit_step:
  assumes ok: "node_ok n" and k: "k < 64"
    and hb: "unat (startbit n) + 64 \<le> unat hb" and last: "ns = [] \<Longrightarrow> hb = startbit n + 64"
  shows "for_each_bit hb (n # ns) (startbit n + of_nat k) =
    map (\<lambda>j. (n, startbit n + of_nat j)) [k..<64] @
    (case ns of [] \<Rightarrow> [] | n' # _ \<Rightarrow> for_each_bit hb ns (startbit n'))"
  using k
proof (induction "63 - k" arbitrary: k)
  case 0
  then have k: "k = 63" by simp
  have al: "aligned (startbit n)" using ok by (simp add: node_ok_def)
  have u: "unat (startbit n + of_nat 63) = unat (startbit n) + 63"
    using al by (rule block_add) simp
  then have lt: "startbit n + of_nat 63 < hb" using hb by (simp add: word_facts)
  show ?case
  proof (cases ns)
    case Nil
    then have "startbit n + of_nat 63 + 1 = hb"
      by (simp add: last)
    with lt u show ?thesis
      by (simp add: Nil k for_each_bit.simps[of hb "[n]" "startbit n + 63"] ebitmap_next_def
          for_each_bit.simps[of hb "[n]" hb])
  next
    case (Cons n' rest)
    with lt u show ?thesis
      by (simp add: k for_each_bit.simps[of hb "n # n' # rest" "startbit n + 63"] ebitmap_next_def)
  qed
next
  case (Suc d)
  have al: "aligned (startbit n)" using ok by (simp add: node_ok_def)
  have u: "unat (startbit n + of_nat k) = unat (startbit n) + k"
    using al Suc.prems by (rule block_add)
  then have lt: "startbit n + of_nat k < hb" using hb Suc.prems by (simp add: word_facts)
  have k': "Suc k < 64" "d = 63 - Suc k" using Suc.hyps(2) by simp_all
  have next_eq: "ebitmap_next (n # ns) (startbit n + of_nat k) =
      (n # ns, startbit n + of_nat (Suc k))"
    using u k'(1) by (auto simp: ebitmap_next_def algebra_simps split: list.splits)
  have upt: "[k..<64] = k # [Suc k..<64]"
    using Suc.prems by (simp add: upt_conv_Cons)
  have "for_each_bit hb (n # ns) (startbit n + of_nat k) =
      (n, startbit n + of_nat k) # for_each_bit hb (n # ns) (startbit n + of_nat (Suc k))"
    using lt by (subst for_each_bit.simps) (simp add: next_eq)
  then show ?case
    using Suc.hyps(1)[OF k'(2) k'(1)] by (simp add: upt)
qed

lemma wf_nodes_end_le:
  assumes "wf_nodes (n # ns)"
  shows "unat (startbit n) + 64 \<le> unat (nodes_end (n # ns))"
proof -
  have "node_ok (last (n # ns))"
    using assms by (intro wf_nodes_node_ok[OF assms]) simp
  moreover have "startbit n \<le> startbit (last (n # ns))"
    by (rule wf_nodes_last[OF assms]) simp
  ultimately show ?thesis
    by (simp add: nodes_end_def node_end word_facts)
qed

lemma for_each_bit_all:
  assumes "wf_nodes (n # ns)"
  shows "for_each_bit (nodes_end (n # ns)) (n # ns) (startbit n) =
    concat (map (\<lambda>n. map (\<lambda>j. (n, startbit n + of_nat j)) [0..<64]) (n # ns))"
  using assms
proof (induction ns arbitrary: n)
  case Nil
  then show ?case
    using for_each_bit_step[of n 0 "nodes_end [n]" "[]"] wf_nodes_end_le[of n "[]"]
    by (simp add: nodes_end_def wf_nodes_Cons)
next
  case (Cons n' rest)
  have ok: "node_ok n" and wf: "wf_nodes (n' # rest)"
    using Cons.prems by (auto simp: wf_nodes_Cons)
  have e: "nodes_end (n # n' # rest) = nodes_end (n' # rest)"
    by (simp add: nodes_end_def)
  show ?case
    using for_each_bit_step[OF ok, of 0 "nodes_end (n # n' # rest)" "n' # rest"]
      wf_nodes_end_le[OF Cons.prems] Cons.IH[OF wf]
    by (simp add: e)
qed

lemma positive_bits_of_nodes:
  assumes "node_ok n"
  shows "map snd (filter (\<lambda>(n, b). ebitmap_node_get_bit n b)
           (map (\<lambda>j. (n, startbit n + of_nat j)) [0..<64])) = node_positions n"
proof -
  have "filter (\<lambda>j. ebitmap_node_get_bit n (startbit n + of_nat j)) [0..<64] =
      filter (bit (nmap n)) [0..<64]"
    using assms
    by (intro filter_cong) (auto simp: node_ok_def node_get_bit_in_block block_add)
  then show ?thesis
    by (simp add: node_positions_def filter_map comp_def)
qed

lemma ebitmap_positive_bits_eq:
  assumes "wf_ebitmap e"
  shows "ebitmap_positive_bits e = concat (map node_positions (node e))"
proof (cases "node e")
  case Nil
  then show ?thesis
    by (simp add: ebitmap_positive_bits_def ebitmap_bits_visited_def for_each_bit.simps)
next
  case (Cons n ns)
  have wf: "wf_nodes (n # ns)" and hb: "highbit e = nodes_end (n # ns)"
    using assms by (auto simp: wf_ebitmap_def Cons)
  have ok: "\<forall>x \<in> set (n # ns). node_ok x"
    using wf by (auto simp: wf_nodes_node_ok)
  have "ebitmap_positive_bits e = concat (map (\<lambda>n. map snd (filter (\<lambda>(n, b). ebitmap_node_get_bit n b)
           (map (\<lambda>j. (n, startbit n + of_nat j)) [0..<64]))) (n # ns))"
    using for_each_bit_all[OF wf]
    by (simp add: ebitmap_positive_bits_def ebitmap_bits_visited_def ebitmap_length_def
        ebitmap_startbit_def Cons hb filter_concat map_concat comp_def)
  also have "\<dots> = concat (map node_positions (n # ns))"
    using ok by (intro arg_cong[where f = concat] map_cong) (auto simp: positive_bits_of_nodes)
  finally show ?thesis by (simp add: Cons)
qed

lemma set_node_positions:
  assumes "node_ok n"
  shows "set (node_positions n) = {b. blkstart b = startbit n \<and> bit (nmap n) (blkoff b)}"
proof -
  have al: "aligned (startbit n)" using assms by (simp add: node_ok_def)
  have "b \<in> set (node_positions n)" if "blkstart b = startbit n" "bit (nmap n) (blkoff b)" for b
  proof -
    have "b = startbit n + of_nat (blkoff b)"
      by (rule block_eqI) (simp_all add: that(1) block_add[OF al])
    then show ?thesis
      unfolding node_positions_def set_map
      by (rule image_eqI) (simp add: that(2))
  qed
  moreover have "blkstart b = startbit n \<and> bit (nmap n) (blkoff b)"
    if "b \<in> set (node_positions n)" for b
    using that by (auto simp: node_positions_def block_add[OF al])
  ultimately show ?thesis by blast
qed

lemma in_nbits_iff_node:
  "wf_nodes ns \<Longrightarrow>
     b \<in> nbits ns \<longleftrightarrow> (\<exists>n \<in> set ns. blkstart b = startbit n \<and> bit (nmap n) (blkoff b))"
proof (induction ns)
  case (Cons n ns)
  then show ?case
    by (cases "startbit n = blkstart b") (auto simp: in_nbits wf_nodes_Cons)
qed simp

lemma set_positions: "wf_nodes ns \<Longrightarrow> set (concat (map node_positions ns)) = nbits ns"
  by (auto simp: in_nbits_iff_node set_node_positions wf_nodes_node_ok)

lemma sorted_node_positions:
  assumes "node_ok n"
  shows "sorted_wrt (<) (node_positions n)"
proof -
  have al: "aligned (startbit n)" using assms by (simp add: node_ok_def)
  have "sorted_wrt (<) (filter (bit (nmap n)) [0..<64])"
    by (intro sorted_wrt_filter) simp
  then show ?thesis
    unfolding node_positions_def sorted_wrt_map
    by (rule sorted_wrt_mono_rel[rotated]) (auto simp: word_facts block_add[OF al])
qed

lemma block_less:
  assumes "aligned (blkstart c)" "blkstart b < blkstart c"
  shows "b < c"
  using assms blkstart_le[of c] blkstart_less_iff[of "blkstart c" b] by simp

lemma sorted_positions: "wf_nodes ns \<Longrightarrow> sorted_wrt (<) (concat (map node_positions ns))"
proof (induction ns)
  case (Cons n ns)
  then have ok: "node_ok n" and wf: "wf_nodes ns"
    and lt: "\<forall>n' \<in> set ns. startbit n < startbit n'"
    by (auto simp: wf_nodes_Cons)
  have "b < c" if b: "b \<in> set (node_positions n)" and c: "c \<in> nbits ns" for b c
  proof -
    from b have "blkstart b = startbit n" by (simp add: set_node_positions[OF ok])
    moreover from c lt have "startbit n < blkstart c" by (auto simp: in_nbits_iff_node[OF wf])
    ultimately have "blkstart b < blkstart c" by simp
    then show ?thesis by (rule block_less[rotated]) simp
  qed
  then have "\<forall>b \<in> set (node_positions n). \<forall>c \<in> set (concat (map node_positions ns)). b < c"
    unfolding set_positions[OF wf] by blast
  then show ?case
    unfolding list.map concat.simps sorted_wrt_append
    using sorted_node_positions[OF ok] Cons.IH[OF wf] by blast
qed simp

text \<open>The loop macros visit exactly the set positions, each once, in ascending order.\<close>

lemma ebitmap_positive_bits_spec:
  assumes "wf_ebitmap e"
  shows "set (ebitmap_positive_bits e) = ebits e"
    and "sorted_wrt (<) (ebitmap_positive_bits e)"
  using assms
  by (simp_all only: ebitmap_positive_bits_eq wf_ebitmap_def set_positions sorted_positions ebits_def)

lemma sorted_less_distinct: "sorted_wrt (<) (xs :: 'a::order list) \<Longrightarrow> distinct xs"
  by (induction xs) auto

section \<open>Counting and the highest bit\<close>

lemma cardinality_loop_eq:
  "cardinality_loop ns c = c + of_nat (length (concat (map node_positions ns)))"
  by (induction ns arbitrary: c) (simp_all add: popcount64_def node_positions_def algebra_simps)

lemma card_ebits:
  "wf_ebitmap e \<Longrightarrow> length (ebitmap_positive_bits e) = card (ebits e)"
  by (metis distinct_card ebitmap_positive_bits_spec sorted_less_distinct)

lemma ebitmap_cardinality_of_nat:
  assumes "wf_ebitmap e"
  shows "ebitmap_cardinality e = of_nat (card (ebits e))"
  using card_ebits[OF assms]
  by (simp add: ebitmap_cardinality_def cardinality_loop_eq ebitmap_positive_bits_eq[OF assms])

lemma card_ebits_bound:
  assumes "wf_ebitmap e"
  shows "card (ebits e) < 4294967296"
proof -
  have "ebits e \<subseteq> {b. unat b < 4294967295}"
  proof
    fix b assume "b \<in> ebits e"
    then have "b < nodes_end (node e)"
      using assms nbits_below_end by (auto simp: ebits_def wf_ebitmap_def)
    then show "b \<in> {b. unat b < 4294967295}"
      using unat_u32_bound[of "nodes_end (node e)"] by (simp add: word_facts)
  qed
  moreover have "card {b :: u32. unat b < 4294967295} \<le> 4294967295"
  proof -
    have "inj_on unat {b :: u32. unat b < 4294967295}"
      by (auto simp: inj_on_def word_unat_eq_iff)
    moreover have "unat ` {b :: u32. unat b < 4294967295} \<subseteq> {..<4294967295}" by auto
    ultimately show ?thesis
      using card_inj_on_le[of unat "{b :: u32. unat b < 4294967295}" "{..<4294967295}"] by simp
  qed
  ultimately show ?thesis
    using card_mono[of "{b :: u32. unat b < 4294967295}" "ebits e"] by simp
qed

lemma unat_ebitmap_cardinality:
  "wf_ebitmap e \<Longrightarrow> unat (ebitmap_cardinality e) = card (ebits e)"
  using card_ebits_bound[of e] by (simp add: ebitmap_cardinality_of_nat unat_of_nat)

lemma drop_bit_1_eq_0: "drop_bit (Suc 0) (w :: u64) = 0 \<longleftrightarrow> (\<forall>j. bit w j \<longrightarrow> j = 0)"
proof -
  have "drop_bit (Suc 0) w = 0 \<longleftrightarrow> (\<forall>k. \<not> bit w (Suc k))"
    unfolding word_eq_0_iff_bits bit_drop_bit_eq by simp
  also have "\<dots> \<longleftrightarrow> (\<forall>j. bit w j \<longrightarrow> j = 0)"
    by (metis nat.distinct(1) not0_implies_Suc)
  finally show ?thesis .
qed

lemma shift_pos_top:
  "w \<noteq> 0 \<Longrightarrow> \<exists>j. bit w j \<and> shift_pos w pos = pos + j \<and> (\<forall>i. bit w i \<longrightarrow> i \<le> j)"
proof (induction w pos rule: shift_pos.induct)
  case (1 w pos)
  show ?case
  proof (cases "drop_bit 1 w = 0")
    case True
    then have top: "\<forall>i. bit w i \<longrightarrow> i = 0" by (simp add: drop_bit_1_eq_0)
    moreover obtain k where "bit w k" using "1.prems" word_eq_0_iff_bits by blast
    ultimately have "bit w 0" by auto
    with True top show ?thesis
      by (subst shift_pos.simps) auto
  next
    case False
    then obtain j where j: "bit (drop_bit 1 w) j" "shift_pos (drop_bit 1 w) (Suc pos) = Suc pos + j"
      "\<forall>i. bit (drop_bit 1 w) i \<longrightarrow> i \<le> j"
      using "1.IH"[of "drop_bit 1 w"] by auto
    have "i \<le> Suc j" if "bit w i" for i
      using that j(3) by (cases i) (auto simp: bit_drop_bit_eq)
    with j(1,2) False show ?thesis
      by (intro exI[of _ "Suc j"]) (subst shift_pos.simps, auto simp: bit_drop_bit_eq)
  qed
qed

lemma ebitmap_highest_set_bit_Max:
  assumes wf: "wf_ebitmap e" and ne: "ebits e \<noteq> {}"
  shows "ebitmap_highest_set_bit e \<in> ebits e"
    and "\<And>b. b \<in> ebits e \<Longrightarrow> b \<le> ebitmap_highest_set_bit e"
proof -
  have wfn: "wf_nodes (node e)" using wf by (simp add: wf_ebitmap_def)
  have nn: "node e \<noteq> []" using ne by (auto simp: ebits_def)
  define n where "n = last (node e)"
  have n: "n \<in> set (node e)" using nn by (simp add: n_def)
  have ok: "node_ok n" using wfn n by (rule wf_nodes_node_ok)
  then have al: "aligned (startbit n)" and nz: "nmap n \<noteq> 0" by (auto simp: node_ok_def)
  obtain j where j: "bit (nmap n) j" "shift_pos (nmap n) 0 = j" "\<forall>i. bit (nmap n) i \<longrightarrow> i \<le> j"
    using shift_pos_top[OF nz, of 0] by auto
  have j64: "j < 64" using bit_imp_le_length[OF j(1)] by simp
  have hi: "ebitmap_highest_set_bit e = startbit n + of_nat j"
    using nn j(2) by (cases "node e") (auto simp: ebitmap_highest_set_bit_def n_def Let_def)
  show "ebitmap_highest_set_bit e \<in> ebits e"
    unfolding ebits_def in_nbits_iff_node[OF wfn] hi
    using n j(1) block_add(2,3)[OF al j64] by auto
  fix b assume "b \<in> ebits e"
  then obtain n' where n': "n' \<in> set (node e)" "blkstart b = startbit n'" "bit (nmap n') (blkoff b)"
    using in_nbits_iff_node[OF wfn] by (auto simp: ebits_def)
  have le: "blkstart b \<le> startbit n"
    using wf_nodes_last[OF wfn n'(1)] n'(2) by (simp add: n_def)
  show "b \<le> ebitmap_highest_set_bit e"
  proof (cases "blkstart b = startbit n")
    case True
    then have "blk (node e) (startbit n) = nmap n'" "blk (node e) (startbit n) = nmap n"
      using blk_in_set[OF wfn n] blk_in_set[OF wfn n'(1)] n'(2) by auto
    with n' j have "blkoff b \<le> j" by auto
    then have "unat b \<le> unat (startbit n) + j"
      using unat_block[of b] by (simp add: True)
    then show ?thesis
      by (simp add: hi word_facts block_add(1)[OF al j64])
  next
    case False
    with le have "blkstart b < startbit n" by simp
    then have "b < startbit n" by (simp add: blkstart_less_iff[OF al])
    then show ?thesis
      by (simp add: hi word_facts block_add(1)[OF al j64])
  qed
qed

end
