(* ===== verification/Ebitmap_Ops.thy ===== *)
theory Ebitmap_Ops
  imports Ebitmap_Bits
begin

text \<open>
  The operations of \<^verbatim>\<open>src/ebitmap.c\<close> that combine or compare two bitmaps, each a loop over
  two sorted node lists. \<open>emit\<close> is the common tail of every loop that builds a result: allocate
  a node, append it, go on. A result node carries a fresh \<^verbatim>\<open>malloc\<close>, so the loops return
  \<open>ENOMEM\<close> when the budget runs out (C destroys the partial result first).
\<close>

definition emit ::
  "mem \<Rightarrow> ebitmap_node \<Rightarrow> (mem \<Rightarrow> errcode + ebitmap_node list \<times> mem)
     \<Rightarrow> errcode + ebitmap_node list \<times> mem" where
  "emit m n k =
     (case malloc m of
        None \<Rightarrow> Inl ENOMEM
      | Some m' \<Rightarrow>
          (case k m' of Inl err \<Rightarrow> Inl err | Inr (ns, m'') \<Rightarrow> Inr (n # ns, m'')))"

lemma emit_Inr [simp]:
  "emit m n k = Inr (ns, m') \<longleftrightarrow>
     (\<exists>m0 ns'. m = Suc m0 \<and> k m0 = Inr (ns', m') \<and> ns = n # ns')"
  by (auto simp: emit_def split: option.splits sum.splits)

lemma emit_Inl [simp]:
  "emit m n k = Inl err \<longleftrightarrow> (m = 0 \<and> err = ENOMEM) \<or> (\<exists>m0. m = Suc m0 \<and> k m0 = Inl err)"
  by (auto simp: emit_def split: option.splits sum.splits)

section \<open>Union, intersection, symmetric difference\<close>

fun or_nodes ::
  "mem \<Rightarrow> ebitmap_node list \<Rightarrow> ebitmap_node list \<Rightarrow> errcode + ebitmap_node list \<times> mem" where
  "or_nodes m (n1 # r1) (n2 # r2) =
     (if startbit n1 = startbit n2 then
        emit m \<lparr>startbit = startbit n1, nmap = nmap n1 OR nmap n2\<rparr> (\<lambda>m'. or_nodes m' r1 r2)
      else if startbit n1 < startbit n2 then
        emit m \<lparr>startbit = startbit n1, nmap = nmap n1\<rparr> (\<lambda>m'. or_nodes m' r1 (n2 # r2))
      else
        emit m \<lparr>startbit = startbit n2, nmap = nmap n2\<rparr> (\<lambda>m'. or_nodes m' (n1 # r1) r2))"
| "or_nodes m (n1 # r1) [] =
     emit m \<lparr>startbit = startbit n1, nmap = nmap n1\<rparr> (\<lambda>m'. or_nodes m' r1 [])"
| "or_nodes m [] (n2 # r2) =
     emit m \<lparr>startbit = startbit n2, nmap = nmap n2\<rparr> (\<lambda>m'. or_nodes m' [] r2)"
| "or_nodes m [] [] = Inr ([], m)"

definition ebitmap_or :: "mem \<Rightarrow> ebitmap \<Rightarrow> ebitmap \<Rightarrow> errcode + ebitmap \<times> mem" where
  "ebitmap_or m e1 e2 =
     (case or_nodes m (node e1) (node e2) of
        Inl err \<Rightarrow> Inl err
      | Inr (ns, m') \<Rightarrow>
          Inr (\<lparr>node = ns,
                highbit = (if highbit e1 > highbit e2 then highbit e1 else highbit e2)\<rparr>, m'))"

definition ebitmap_union :: "mem \<Rightarrow> ebitmap \<Rightarrow> ebitmap \<Rightarrow> errcode + ebitmap \<times> mem" where
  "ebitmap_union m dst e1 =
     (case ebitmap_or m dst e1 of
        Inl _ \<Rightarrow> Inl EFAIL
      | Inr (tmp, m') \<Rightarrow> Inr (dst\<lparr>node := node tmp, highbit := highbit tmp\<rparr>, m'))"

fun and_nodes ::
  "mem \<Rightarrow> ebitmap_node list \<Rightarrow> ebitmap_node list \<Rightarrow> errcode + ebitmap_node list \<times> mem" where
  "and_nodes m (n1 # r1) (n2 # r2) =
     (if startbit n1 = startbit n2 then
        if nmap n1 AND nmap n2 \<noteq> 0 then
          emit m \<lparr>startbit = startbit n1, nmap = nmap n1 AND nmap n2\<rparr> (\<lambda>m'. and_nodes m' r1 r2)
        else and_nodes m r1 r2
      else if startbit n1 > startbit n2 then and_nodes m (n1 # r1) r2
      else and_nodes m r1 (n2 # r2))"
| "and_nodes m [] n2s = Inr ([], m)"
| "and_nodes m n1s [] = Inr ([], m)"

text \<open>\<^verbatim>\<open>if (new) dst->highbit = new->startbit + MAPSIZE\<close>, where \<^verbatim>\<open>new\<close> is the last node.\<close>

definition with_end :: "errcode + ebitmap_node list \<times> mem \<Rightarrow> errcode + ebitmap \<times> mem" where
  "with_end r =
     (case r of
        Inl err \<Rightarrow> Inl err
      | Inr (ns, m') \<Rightarrow>
          Inr (\<lparr>node = ns, highbit = (if ns \<noteq> [] then startbit (last ns) + 64 else 0)\<rparr>, m'))"

definition ebitmap_and :: "mem \<Rightarrow> ebitmap \<Rightarrow> ebitmap \<Rightarrow> errcode + ebitmap \<times> mem" where
  "ebitmap_and m e1 e2 = with_end (and_nodes m (node e1) (node e2))"

definition emit_nonzero ::
  "mem \<Rightarrow> ebitmap_node \<Rightarrow> (mem \<Rightarrow> errcode + ebitmap_node list \<times> mem)
     \<Rightarrow> errcode + ebitmap_node list \<times> mem" where
  "emit_nonzero m n k = (if nmap n \<noteq> 0 then emit m n k else k m)"

fun xor_nodes ::
  "mem \<Rightarrow> ebitmap_node list \<Rightarrow> ebitmap_node list \<Rightarrow> errcode + ebitmap_node list \<times> mem" where
  "xor_nodes m (n1 # r1) (n2 # r2) =
     (if startbit n1 = startbit n2 then
        emit_nonzero m \<lparr>startbit = startbit n1, nmap = nmap n1 XOR nmap n2\<rparr>
          (\<lambda>m'. xor_nodes m' r1 r2)
      else if startbit n1 < startbit n2 then
        emit_nonzero m \<lparr>startbit = startbit n1, nmap = nmap n1\<rparr> (\<lambda>m'. xor_nodes m' r1 (n2 # r2))
      else
        emit_nonzero m \<lparr>startbit = startbit n2, nmap = nmap n2\<rparr> (\<lambda>m'. xor_nodes m' (n1 # r1) r2))"
| "xor_nodes m (n1 # r1) [] =
     emit_nonzero m \<lparr>startbit = startbit n1, nmap = nmap n1\<rparr> (\<lambda>m'. xor_nodes m' r1 [])"
| "xor_nodes m [] (n2 # r2) =
     emit_nonzero m \<lparr>startbit = startbit n2, nmap = nmap n2\<rparr> (\<lambda>m'. xor_nodes m' [] r2)"
| "xor_nodes m [] [] = Inr ([], m)"

definition ebitmap_xor :: "mem \<Rightarrow> ebitmap \<Rightarrow> ebitmap \<Rightarrow> errcode + ebitmap \<times> mem" where
  "ebitmap_xor m e1 e2 = with_end (xor_nodes m (node e1) (node e2))"

section \<open>Comparison\<close>

fun cmp_nodes :: "ebitmap_node list \<Rightarrow> ebitmap_node list \<Rightarrow> bool" where
  "cmp_nodes (n1 # r1) (n2 # r2) =
     (if startbit n1 = startbit n2 \<and> nmap n1 = nmap n2 then cmp_nodes r1 r2 else False)"
| "cmp_nodes [] [] = True"
| "cmp_nodes _ _ = False"

definition ebitmap_cmp :: "ebitmap \<Rightarrow> ebitmap \<Rightarrow> bool" where
  "ebitmap_cmp e1 e2 = (if highbit e1 \<noteq> highbit e2 then False else cmp_nodes (node e1) (node e2))"

fun contains_nodes :: "ebitmap_node list \<Rightarrow> ebitmap_node list \<Rightarrow> bool" where
  "contains_nodes (n1 # r1) (n2 # r2) =
     (if startbit n1 \<le> startbit n2 then
        if startbit n1 < startbit n2 then contains_nodes r1 (n2 # r2)
        else if nmap n1 AND nmap n2 \<noteq> nmap n2 then False
        else contains_nodes r1 r2
      else False)"
| "contains_nodes _ n2s = (n2s = [])"

definition ebitmap_contains :: "ebitmap \<Rightarrow> ebitmap \<Rightarrow> bool" where
  "ebitmap_contains e1 e2 =
     (if highbit e1 < highbit e2 then False else contains_nodes (node e1) (node e2))"

fun match_any_nodes :: "ebitmap_node list \<Rightarrow> ebitmap_node list \<Rightarrow> bool" where
  "match_any_nodes (n1 # r1) (n2 # r2) =
     (if startbit n1 < startbit n2 then match_any_nodes r1 (n2 # r2)
      else if startbit n2 < startbit n1 then match_any_nodes (n1 # r1) r2
      else if nmap n1 AND nmap n2 \<noteq> 0 then True
      else match_any_nodes r1 r2)"
| "match_any_nodes _ _ = False"

definition ebitmap_match_any :: "ebitmap \<Rightarrow> ebitmap \<Rightarrow> bool" where
  "ebitmap_match_any e1 e2 = match_any_nodes (node e1) (node e2)"

text \<open>\<^verbatim>\<open>int distance = ebitmap_cardinality(&tmp)\<close> reads the count as a signed integer.\<close>

definition ebitmap_hamming_distance :: "mem \<Rightarrow> ebitmap \<Rightarrow> ebitmap \<Rightarrow> errcode + int \<times> mem" where
  "ebitmap_hamming_distance m e1 e2 =
     (if ebitmap_cmp e1 e2 then Inr (0, m)
      else case ebitmap_xor m e1 e2 of
        Inl _ \<Rightarrow> Inl EFAIL
      | Inr (tmp, m') \<Rightarrow> Inr (sint (ebitmap_cardinality tmp), m'))"

section \<open>Copy\<close>

fun cpy_nodes :: "mem \<Rightarrow> ebitmap_node list \<Rightarrow> errcode + ebitmap_node list \<times> mem" where
  "cpy_nodes m [] = Inr ([], m)"
| "cpy_nodes m (n # ns) =
     emit m \<lparr>startbit = startbit n, nmap = nmap n\<rparr> (\<lambda>m'. cpy_nodes m' ns)"

definition ebitmap_cpy :: "mem \<Rightarrow> ebitmap \<Rightarrow> errcode + ebitmap \<times> mem" where
  "ebitmap_cpy m src =
     (case cpy_nodes m (node src) of
        Inl err \<Rightarrow> Inl err
      | Inr (ns, m') \<Rightarrow> Inr (\<lparr>node = ns, highbit = highbit src\<rparr>, m'))"

section \<open>Complement and difference\<close>

text \<open>
  The loop of \<^verbatim>\<open>ebitmap_not\<close>. \<open>cur\<close> is \<^verbatim>\<open>cur_startbit\<close>, which wraps around at \<open>2 ^ 32\<close>.
  Each round consumes a node of the source or allocates one, so the loop stops, if only with
  \<open>ENOMEM\<close>.
\<close>

definition not_block :: "ebitmap_node list \<Rightarrow> u32 \<Rightarrow> u32 \<Rightarrow> u64 \<times> ebitmap_node list" where
  "not_block ns cur maxbit =
     (let (mp, ns') =
        (case ns of
           n # r \<Rightarrow> (if startbit n = cur then (NOT (nmap n), r) else (NOT 0, ns))
         | [] \<Rightarrow> (NOT 0, ns))
      in (if unat (maxbit - cur) < MAPSIZE
          then mp AND (push_bit (unat (maxbit - cur)) 1 - 1) else mp, ns'))"

function not_loop ::
  "mem \<Rightarrow> ebitmap_node list \<Rightarrow> u32 \<Rightarrow> u32 \<Rightarrow> errcode + ebitmap_node list \<times> mem" where
  "not_loop m ns cur maxbit =
     (if cur < maxbit then
        (case not_block ns cur maxbit of (mp, ns') \<Rightarrow>
           if mp \<noteq> 0 then
             (case malloc m of
                None \<Rightarrow> Inl ENOMEM
              | Some m' \<Rightarrow>
                  (case not_loop m' ns' (cur + 64) maxbit of
                     Inl err \<Rightarrow> Inl err
                   | Inr (r, m'') \<Rightarrow> Inr (\<lparr>startbit = cur, nmap = mp\<rparr> # r, m'')))
           else not_loop m ns' (cur + 64) maxbit)
      else Inr ([], m))"
  by pat_completeness auto

lemma mask_minus_nonzero: "0 < k \<Longrightarrow> k < 64 \<Longrightarrow> (2 ^ k - 1 :: u64) \<noteq> 0"
proof -
  assume "0 < k" "k < 64"
  then have "bit (mask k :: u64) 0" by (simp add: bit_mask_iff)
  then show ?thesis by (auto simp: mask_eq_exp_minus_1)
qed

lemma not_block_zero:
  assumes "not_block ns cur maxbit = (0, ns')" "cur < maxbit"
  shows "length ns' < length ns"
proof (rule ccontr)
  assume "\<not> length ns' < length ns"
  with assms(1) have "(if unat (maxbit - cur) < MAPSIZE
      then NOT 0 AND (push_bit (unat (maxbit - cur)) 1 - 1) else NOT 0) = (0 :: u64)"
    by (auto simp: not_block_def Let_def split: list.splits if_splits)
  moreover have "0 < unat (maxbit - cur)"
    using assms(2) by (simp add: unat_gt_0)
  ultimately show False
    using mask_minus_nonzero[of "unat (maxbit - cur)"] by (auto split: if_splits)
qed

lemma not_block_length: "not_block ns cur maxbit = (mp, ns') \<Longrightarrow> length ns' \<le> length ns"
  by (auto simp: not_block_def Let_def split: list.splits if_splits)

termination not_loop
  by (relation "measure (\<lambda>(m, ns, cur, maxbit). m + length ns)")
     (auto dest: not_block_length not_block_zero[OF sym] not_block_length[OF sym])

declare not_loop.simps [simp del]

definition ebitmap_not :: "mem \<Rightarrow> ebitmap \<Rightarrow> u32 \<Rightarrow> errcode + ebitmap \<times> mem" where
  "ebitmap_not m e1 maxbit = with_end (not_loop m (node e1) 0 maxbit)"

definition ebitmap_andnot ::
  "mem \<Rightarrow> ebitmap \<Rightarrow> ebitmap \<Rightarrow> u32 \<Rightarrow> errcode + ebitmap \<times> mem" where
  "ebitmap_andnot m e1 e2 maxbit =
     (case ebitmap_not m e2 maxbit of
        Inl err \<Rightarrow> Inl err
      | Inr (e3, m') \<Rightarrow> ebitmap_and m' e1 e3)"

section \<open>Ranges\<close>

function init_range_loop ::
  "mem \<Rightarrow> u32 \<Rightarrow> u32 \<Rightarrow> u32 \<Rightarrow> u32 \<Rightarrow> u32 \<Rightarrow> errcode + ebitmap_node list \<times> mem" where
  "init_range_loop m minbit maxbit minstart maxstart s =
     (if s \<le> maxstart then
        (case malloc m of
           None \<Rightarrow> Inl ENOMEM
         | Some m' \<Rightarrow>
             (let mp =
                (if s \<noteq> minstart \<and> s \<noteq> maxstart then NOT 0
                 else if s \<noteq> maxstart then push_bit (unat (minbit - s)) (NOT 0)
                 else if s \<noteq> minstart then
                   drop_bit (MAPSIZE - (unat (maxbit - s) + 1)) (NOT 0)
                 else push_bit (unat (minbit - s))
                   (drop_bit (MAPSIZE - (unat (maxbit - minbit) + 1)) (NOT 0)))
              in case init_range_loop m' minbit maxbit minstart maxstart (s + 64) of
                   Inl err \<Rightarrow> Inl err
                 | Inr (ns, m'') \<Rightarrow> Inr (\<lparr>startbit = s, nmap = mp\<rparr> # ns, m'')))
      else Inr ([], m))"
  by pat_completeness auto
termination
  by (relation "measure (\<lambda>(m, _). m)") auto

declare init_range_loop.simps [simp del]

definition ebitmap_init_range :: "mem \<Rightarrow> u32 \<Rightarrow> u32 \<Rightarrow> errcode + ebitmap \<times> mem" where
  "ebitmap_init_range m minbit maxbit =
     (if minbit > maxbit then Inl EINVAL
      else if blkstart minbit + 64 = 0 \<or> blkstart maxbit + 64 = 0 then Inl EOVERFLOW
      else case init_range_loop m minbit maxbit (blkstart minbit) (blkstart maxbit)
                  (blkstart minbit) of
        Inl err \<Rightarrow> Inl err
      | Inr (ns, m') \<Rightarrow> Inr (\<lparr>node = ns, highbit = blkstart maxbit + 64\<rparr>, m'))"

end
