(* ===== verification/Ebitmap_Algebra.thy ===== *)
theory Ebitmap_Algebra
  imports Ebitmap_Ops
begin

text \<open>
  The operations of \<^verbatim>\<open>Ebitmap_Ops\<close> against the sets of positions their arguments denote: each
  keeps the invariant and computes the union, intersection, symmetric difference, complement
  or difference; \<open>ebitmap_cmp\<close> decides equality of the sets, \<open>ebitmap_contains\<close> inclusion,
  \<open>ebitmap_match_any\<close> overlap. The interface that the rest of the library relies on is the
  locale \<open>bitset\<close> at the end, interpreted on these operations.
\<close>

section \<open>Merging two sorted node lists\<close>

text \<open>What a merging loop with block operation \<open>f\<close> leaves: well-formed nodes, no new start
  bits, and \<open>f\<close> applied block by block.\<close>

definition op_post ::
  "(u64 \<Rightarrow> u64 \<Rightarrow> u64) \<Rightarrow> ebitmap_node list \<Rightarrow> ebitmap_node list \<Rightarrow> ebitmap_node list \<Rightarrow> bool" where
  "op_post f a b ns \<longleftrightarrow>
     wf_nodes ns \<and> startbit ` set ns \<subseteq> startbit ` set a \<union> startbit ` set b \<and>
     (\<forall>s. blk ns s = f (blk a s) (blk b s))"

lemma wf_nodes_new:
  assumes "aligned s" "s + 64 \<noteq> 0" "mp \<noteq> 0" "wf_nodes ns" "\<forall>n \<in> set ns. s < startbit n"
  shows "wf_nodes (\<lparr>startbit = s, nmap = mp\<rparr> # ns)"
  using assms by (simp add: wf_nodes_Cons node_ok_def)

lemma op_post_swap: "op_post (\<lambda>x y. f y x) b a ns \<Longrightarrow> op_post f a b ns"
  by (auto simp: op_post_def)

lemma op_post_above:
  assumes "op_post f a b ns" "\<forall>n \<in> set a. s < startbit n" "\<forall>n \<in> set b. s < startbit n"
  shows "\<forall>n \<in> set ns. s < startbit n"
  using assms by (force simp: op_post_def)

lemma blk_above: "wf_nodes ns \<Longrightarrow> \<forall>n \<in> set ns. s < startbit n \<Longrightarrow> blk ns s = 0"
  by (rule blk_below[of ns s s]) auto

lemma op_post_both:
  assumes "wf_nodes (n1 # r1)" "wf_nodes (n2 # r2)" "startbit n1 = s" "startbit n2 = s"
    and "op_post f r1 r2 ns" "f (nmap n1) (nmap n2) \<noteq> 0"
  shows "op_post f (n1 # r1) (n2 # r2)
           (\<lparr>startbit = s, nmap = f (nmap n1) (nmap n2)\<rparr> # ns)"
proof -
  have "\<forall>n \<in> set ns. startbit n1 < startbit n"
    using assms by (intro op_post_above[OF assms(5)]) (auto simp: wf_nodes_Cons)
  with assms show ?thesis
    by (auto simp: op_post_def wf_nodes_Cons node_ok_def)
qed

lemma op_post_both_0:
  assumes "wf_nodes (n1 # r1)" "wf_nodes (n2 # r2)" "startbit n1 = startbit n2"
    and "op_post f r1 r2 ns" "f (nmap n1) (nmap n2) = 0" "f 0 0 = 0"
  shows "op_post f (n1 # r1) (n2 # r2) ns"
proof -
  have "blk r1 (startbit n2) = 0" "blk r2 (startbit n2) = 0"
    using assms(1-3) by (auto intro!: blk_above simp: wf_nodes_Cons)
  with assms show ?thesis
    by (auto simp: op_post_def)
qed

lemma op_post_left:
  assumes "wf_nodes (n1 # r1)" "wf_nodes b" "\<forall>n \<in> set b. startbit n1 < startbit n"
    and "op_post f r1 b ns" "f (nmap n1) 0 \<noteq> 0"
  shows "op_post f (n1 # r1) b (\<lparr>startbit = startbit n1, nmap = f (nmap n1) 0\<rparr> # ns)"
proof -
  have "\<forall>n \<in> set ns. startbit n1 < startbit n"
    using assms by (intro op_post_above[OF assms(4)]) (auto simp: wf_nodes_Cons)
  moreover have "blk b (startbit n1) = 0"
    using assms(2,3) by (rule blk_above)
  ultimately show ?thesis
    using assms by (auto simp: op_post_def wf_nodes_Cons node_ok_def)
qed

lemma op_post_left_0:
  assumes "wf_nodes (n1 # r1)" "wf_nodes b" "\<forall>n \<in> set b. startbit n1 < startbit n"
    and "op_post f r1 b ns" "f (nmap n1) 0 = 0" "f 0 0 = 0"
  shows "op_post f (n1 # r1) b ns"
proof -
  have "blk b (startbit n1) = 0" "blk r1 (startbit n1) = 0"
    using assms(1-3) by (auto intro!: blk_above simp: wf_nodes_Cons)
  with assms show ?thesis
    by (auto simp: op_post_def)
qed

lemma op_post_right:
  assumes "wf_nodes (n2 # r2)" "wf_nodes a" "\<forall>n \<in> set a. startbit n2 < startbit n"
    and "op_post f a r2 ns" "f 0 (nmap n2) \<noteq> 0"
  shows "op_post f a (n2 # r2) (\<lparr>startbit = startbit n2, nmap = f 0 (nmap n2)\<rparr> # ns)"
proof -
  have "op_post (\<lambda>x y. f y x) r2 a ns" using assms(4) by (rule op_post_swap)
  then have "op_post (\<lambda>x y. f y x) (n2 # r2) a
      (\<lparr>startbit = startbit n2, nmap = f 0 (nmap n2)\<rparr> # ns)"
    using assms op_post_left[of n2 r2 a "\<lambda>x y. f y x" ns] by simp
  then show ?thesis by (rule op_post_swap)
qed

lemma op_post_right_0:
  assumes "wf_nodes (n2 # r2)" "wf_nodes a" "\<forall>n \<in> set a. startbit n2 < startbit n"
    and "op_post f a r2 ns" "f 0 (nmap n2) = 0" "f 0 0 = 0"
  shows "op_post f a (n2 # r2) ns"
proof -
  have "op_post (\<lambda>x y. f y x) r2 a ns" using assms(4) by (rule op_post_swap)
  then have "op_post (\<lambda>x y. f y x) (n2 # r2) a
      ns"
    using assms op_post_left_0[of n2 r2 a "\<lambda>x y. f y x" ns] by simp
  then show ?thesis by (rule op_post_swap)
qed

lemma op_post_Nil: "f 0 0 = 0 \<Longrightarrow> op_post f [] [] []"
  by (simp add: op_post_def)

lemma op_post_done:
  assumes "\<And>x. f x 0 = 0" "\<And>x. f 0 x = 0"
  shows "op_post f [] b []" "op_post f a [] []"
  using assms by (simp_all add: op_post_def)

lemma wf_nodes_headD: "wf_nodes (n # ns) \<Longrightarrow> nmap n \<noteq> 0" "wf_nodes (n # ns) \<Longrightarrow> wf_nodes ns"
  by (auto simp: wf_nodes_Cons node_ok_def)

lemma wf_nodes_head_less:
  "wf_nodes (n2 # r2) \<Longrightarrow> s < startbit n2 \<Longrightarrow> n \<in> set r2 \<Longrightarrow> s < startbit n"
  by (auto simp: wf_nodes_Cons)

lemma wf_nodes_above: "wf_nodes (n # ns) \<Longrightarrow> s < startbit n \<Longrightarrow> \<forall>n' \<in> set (n # ns). s < startbit n'"
  by (auto intro: wf_nodes_head_less)

lemmas op_post_lt = op_post_left[OF _ _ wf_nodes_above, of n1 r1 n2 r2 for n1 r1 n2 r2]
lemmas op_post_lt_0 = op_post_left_0[OF _ _ wf_nodes_above, of n1 r1 n2 r2 for n1 r1 n2 r2]
lemmas op_post_gt = op_post_right[OF _ _ wf_nodes_above, of n2 r2 n1 r1 for n1 r1 n2 r2]
lemmas op_post_gt_0 = op_post_right_0[OF _ _ wf_nodes_above, of n2 r2 n1 r1 for n1 r1 n2 r2]

lemma u32_trichotomy:
  fixes a b :: u32
  obtains (eq) "a = b" | (lt) "a < b" "a \<noteq> b" "\<not> b < a" | (gt) "b < a" "a \<noteq> b" "\<not> a < b"
  by (cases a b rule: linorder_cases) auto

lemma or_nonzero: "(x :: u64) \<noteq> 0 \<Longrightarrow> x OR y \<noteq> 0"
  by (auto simp: word_eq_0_iff_bits bit_or_iff)

lemma emit_nonzero_Inr:
  "emit_nonzero m n k = Inr (ns, m') \<longleftrightarrow>
     (if nmap n \<noteq> 0 then (\<exists>m0 ns'. m = Suc m0 \<and> k m0 = Inr (ns', m') \<and> ns = n # ns')
      else k m = Inr (ns, m'))"
  by (simp add: emit_nonzero_def)

lemma or_nodes_sound:
  "or_nodes m a b = Inr (ns, m') \<Longrightarrow> wf_nodes a \<Longrightarrow> wf_nodes b \<Longrightarrow> op_post (OR) a b ns"
proof (induction m a b arbitrary: ns m' rule: or_nodes.induct)
  case (1 m n1 r1 n2 r2)
  note heads = wf_nodes_headD[OF "1.prems"(2)] wf_nodes_headD[OF "1.prems"(3)]
  show ?case
  proof (cases "startbit n1" "startbit n2" rule: u32_trichotomy)
    case eq
    with "1.prems" "1.IH" heads show ?thesis
      by (auto intro!: op_post_both or_nonzero)
  next
    case lt
    with "1.prems" "1.IH" heads show ?thesis
      by (auto intro!: op_post_lt[where f = "(OR)", simplified])
  next
    case gt
    with "1.prems" "1.IH" heads show ?thesis
      by (auto intro!: op_post_gt[where f = "(OR)", simplified])
  qed
next
  case (2 m n1 r1)
  then show ?case
    using wf_nodes_headD[OF "2.prems"(2)]
    by (auto intro!: op_post_left[where f = "(OR)", simplified])
next
  case (3 m n2 r2)
  then show ?case
    using wf_nodes_headD[OF "3.prems"(3)]
    by (auto intro!: op_post_right[where f = "(OR)", simplified])
next
  case (4 m)
  then show ?case by (auto intro: op_post_Nil)
qed

lemma and_nodes_sound:
  "and_nodes m a b = Inr (ns, m') \<Longrightarrow> wf_nodes a \<Longrightarrow> wf_nodes b \<Longrightarrow> op_post (AND) a b ns"
proof (induction m a b arbitrary: ns m' rule: and_nodes.induct)
  case (1 m n1 r1 n2 r2)
  note heads = wf_nodes_headD[OF "1.prems"(2)] wf_nodes_headD[OF "1.prems"(3)]
  show ?case
  proof (cases "startbit n1" "startbit n2" rule: u32_trichotomy)
    case eq
    with "1.prems" "1.IH" heads show ?thesis
      by (cases "nmap n1 AND nmap n2 = 0") (auto intro: op_post_both op_post_both_0)
  next
    case lt
    with "1.prems" "1.IH" heads show ?thesis
      by (auto intro!: op_post_lt_0)
  next
    case gt
    with "1.prems" "1.IH" heads show ?thesis
      by (auto intro!: op_post_gt_0)
  qed
qed (auto simp: op_post_done)

lemma xor_nodes_sound:
  "xor_nodes m a b = Inr (ns, m') \<Longrightarrow> wf_nodes a \<Longrightarrow> wf_nodes b \<Longrightarrow> op_post (XOR) a b ns"
proof (induction m a b arbitrary: ns m' rule: xor_nodes.induct)
  case (1 m n1 r1 n2 r2)
  note heads = wf_nodes_headD[OF "1.prems"(2)] wf_nodes_headD[OF "1.prems"(3)]
  show ?case
  proof (cases "startbit n1" "startbit n2" rule: u32_trichotomy)
    case eq
    with "1.prems" "1.IH" heads show ?thesis
      by (auto simp: emit_nonzero_Inr intro: op_post_both op_post_both_0 split: if_splits)
  next
    case lt
    with "1.prems" "1.IH" heads show ?thesis
      by (auto simp: emit_nonzero_Inr
          intro!: op_post_lt[where f = "(XOR)", simplified])
  next
    case gt
    with "1.prems" "1.IH" heads show ?thesis
      by (auto simp: emit_nonzero_Inr
          intro!: op_post_gt[where f = "(XOR)", simplified])
  qed
next
  case (2 m n1 r1)
  then show ?case
    using wf_nodes_headD[OF "2.prems"(2)]
    by (auto simp: emit_nonzero_Inr intro!: op_post_left[where f = "(XOR)", simplified])
next
  case (3 m n2 r2)
  then show ?case
    using wf_nodes_headD[OF "3.prems"(3)]
    by (auto simp: emit_nonzero_Inr intro!: op_post_right[where f = "(XOR)", simplified])
next
  case (4 m)
  then show ?case by (auto intro: op_post_Nil)
qed

text \<open>Enough budget for the nodes of both lists is enough for every merge.\<close>

lemma or_nodes_error: "or_nodes m a b = Inl err \<Longrightarrow> err = ENOMEM \<and> m < length a + length b"
  by (induction m a b arbitrary: err rule: or_nodes.induct) (fastforce split: if_splits)+

lemma and_nodes_error: "and_nodes m a b = Inl err \<Longrightarrow> err = ENOMEM \<and> m < length a + length b"
  by (induction m a b arbitrary: err rule: and_nodes.induct) (fastforce split: if_splits)+

lemma xor_nodes_error: "xor_nodes m a b = Inl err \<Longrightarrow> err = ENOMEM \<and> m < length a + length b"
  by (induction m a b arbitrary: err rule: xor_nodes.induct)
     (fastforce simp: emit_nonzero_def split: if_splits)+

section \<open>Sets of positions\<close>

lemma op_post_bits:
  assumes "op_post f a b ns" "\<And>x y k. k < 64 \<Longrightarrow> bit (f x y) k \<longleftrightarrow> g (bit x k) (bit y k)"
  shows "nbits ns = {c. g (c \<in> nbits a) (c \<in> nbits b)}"
  using assms by (auto simp: op_post_def in_nbits)

lemma with_end_Inr:
  "with_end r = Inr (e, m') \<longleftrightarrow> (\<exists>ns. r = Inr (ns, m') \<and> e = \<lparr>node = ns, highbit = nodes_end ns\<rparr>)"
  by (auto simp: with_end_def nodes_end_def split: sum.splits)

lemma with_end_Inl [simp]: "with_end r = Inl err \<longleftrightarrow> r = Inl err"
  by (auto simp: with_end_def split: sum.splits)

lemma wf_ebitmap_make: "wf_nodes ns \<Longrightarrow> wf_ebitmap \<lparr>node = ns, highbit = nodes_end ns\<rparr>"
  by (simp add: wf_ebitmap_def)

lemma nodes_end_Max:
  assumes "wf_nodes ns" "\<forall>n \<in> set ns. startbit n \<le> s" "n \<in> set ns" "startbit n = s"
  shows "nodes_end ns = s + 64"
proof -
  have "last ns \<in> set ns" using assms(3) by (intro last_in_set) auto
  then have "startbit (last ns) = s"
    using assms wf_nodes_last[OF assms(1,3)] by (simp add: order_antisym)
  with assms(3) show ?thesis by (auto simp: nodes_end_def)
qed

lemma op_post_or_startbits:
  assumes "op_post (OR) a b ns" "wf_nodes a" "wf_nodes b"
  shows "startbit ` set ns = startbit ` set a \<union> startbit ` set b"
proof -
  have "startbit n \<in> startbit ` set ns" if "n \<in> set a \<union> set b" for n
  proof (rule ccontr)
    assume "startbit n \<notin> startbit ` set ns"
    then have "blk ns (startbit n) = 0" by (intro blk_none) (metis image_eqI)
    then have "blk a (startbit n) = 0" "blk b (startbit n) = 0"
      using assms(1) by (auto simp: op_post_def word_eq_0_iff_bits bit_or_iff)
    moreover from that have "blk a (startbit n) = nmap n \<or> blk b (startbit n) = nmap n"
      using blk_in_set[OF assms(2)] blk_in_set[OF assms(3)] by auto
    ultimately have "nmap n = 0" by auto
    with that show False
      using wf_nodes_node_ok[OF assms(2), of n] wf_nodes_node_ok[OF assms(3), of n]
      by (auto simp: node_ok_def)
  qed
  with assms(1) show ?thesis by (auto simp: op_post_def)
qed

lemma nodes_end_le_iff:
  assumes "wf_nodes a" "wf_nodes b" "a \<noteq> []" "b \<noteq> []"
  shows "nodes_end a \<le> nodes_end b \<longleftrightarrow> startbit (last a) \<le> startbit (last b)"
  using node_end(1)[OF wf_nodes_node_ok[OF assms(1)], of "last a"]
    node_end(1)[OF wf_nodes_node_ok[OF assms(2)], of "last b"] assms(3,4)
  by (simp add: nodes_end_def word_facts)

lemma nodes_end_or:
  assumes "op_post (OR) a b ns" "wf_nodes a" "wf_nodes b"
  shows "nodes_end ns = (if nodes_end a > nodes_end b then nodes_end a else nodes_end b)"
proof -
  have wf: "wf_nodes ns" using assms(1) by (simp add: op_post_def)
  note sb = op_post_or_startbits[OF assms]
  show ?thesis
  proof (cases "a = [] \<or> b = []")
    case True
    have "nodes_end ns = nodes_end c" if c: "c = a \<or> c = b" "set a \<union> set b = set c" for c
    proof (cases "c = []")
      case True
      with sb c show ?thesis by (auto simp: nodes_end_def)
    next
      case False
      have wfc: "wf_nodes c" using c(1) assms(2,3) by auto
      have eq: "startbit ` set ns = startbit ` set c" using sb c(2) by auto
      then obtain n where "n \<in> set ns" "startbit n = startbit (last c)"
        using False by (metis imageE image_eqI last_in_set)
      moreover have "\<forall>n \<in> set ns. startbit n \<le> startbit (last c)"
      proof
        fix n assume "n \<in> set ns"
        then obtain n' where "n' \<in> set c" "startbit n = startbit n'" using eq by (metis imageE image_eqI)
        then show "startbit n \<le> startbit (last c)" using wf_nodes_last[OF wfc] by simp
      qed
      ultimately have "nodes_end ns = startbit (last c) + 64"
        by (intro nodes_end_Max[OF wf])
      with False show ?thesis by (simp add: nodes_end_def)
    qed
    from this[of a] this[of b] True show ?thesis
      by (auto simp: nodes_end_def word_gt_0)
  next
    case False
    define l where "l = (if nodes_end a > nodes_end b then last a else last b)"
    have l: "l \<in> set a \<union> set b" using False by (auto simp: l_def)
    then obtain n where n: "n \<in> set ns" "startbit n = startbit l"
      using sb by (metis imageE image_Un image_eqI)
    have le: "startbit n' \<le> startbit l" if "n' \<in> set a \<union> set b" for n'
      using that wf_nodes_last[OF assms(2), of n'] wf_nodes_last[OF assms(3), of n']
        nodes_end_le_iff[OF assms(2,3)] False
      by (auto simp: l_def not_less not_le)
    have "\<forall>n \<in> set ns. startbit n \<le> startbit l"
    proof
      fix n assume "n \<in> set ns"
      then obtain n' where "n' \<in> set a \<union> set b" "startbit n = startbit n'"
        using sb by (metis imageE image_Un image_eqI)
      with le show "startbit n \<le> startbit l" by simp
    qed
    with n have "nodes_end ns = startbit l + 64"
      by (intro nodes_end_Max[OF wf])
    with False show ?thesis by (auto simp: l_def nodes_end_def)
  qed
qed

lemma ebitmap_or_ok:
  assumes "wf_ebitmap e1" "wf_ebitmap e2" "ebitmap_or m e1 e2 = Inr (e, m')"
  shows "wf_ebitmap e" and "ebits e = ebits e1 \<union> ebits e2"
proof -
  from assms(3) obtain ns where ns: "or_nodes m (node e1) (node e2) = Inr (ns, m')"
    and e: "e = \<lparr>node = ns,
      highbit = (if highbit e1 > highbit e2 then highbit e1 else highbit e2)\<rparr>"
    by (auto simp: ebitmap_or_def split: sum.splits)
  have wf: "wf_nodes (node e1)" "wf_nodes (node e2)"
    using assms(1,2) by (auto simp: wf_ebitmap_def)
  have post: "op_post (OR) (node e1) (node e2) ns"
    using ns wf by (rule or_nodes_sound)
  have "highbit e = nodes_end ns"
    using nodes_end_or[OF post wf] assms(1,2) by (simp add: e wf_ebitmap_def)
  with post show "wf_ebitmap e"
    by (simp add: e wf_ebitmap_def op_post_def)
  show "ebits e = ebits e1 \<union> ebits e2"
    using op_post_bits[OF post, of "(\<or>)"] by (auto simp: e ebits_def bit_or_iff)
qed

lemma ebitmap_union_ok:
  assumes "wf_ebitmap dst" "wf_ebitmap e1" "ebitmap_union m dst e1 = Inr (e, m')"
  shows "wf_ebitmap e" and "ebits e = ebits dst \<union> ebits e1"
  using assms ebitmap_or_ok[OF assms(1,2)]
  by (auto simp: ebitmap_union_def wf_ebitmap_def ebits_def split: sum.splits prod.splits)

lemma ebitmap_and_ok:
  assumes "wf_ebitmap e1" "wf_ebitmap e2" "ebitmap_and m e1 e2 = Inr (e, m')"
  shows "wf_ebitmap e" and "ebits e = ebits e1 \<inter> ebits e2"
proof -
  from assms obtain ns where e: "e = \<lparr>node = ns, highbit = nodes_end ns\<rparr>"
    and post: "op_post (AND) (node e1) (node e2) ns"
    by (auto simp: ebitmap_and_def with_end_Inr wf_ebitmap_def dest: and_nodes_sound)
  from post show "wf_ebitmap e" by (simp add: e wf_ebitmap_make op_post_def)
  show "ebits e = ebits e1 \<inter> ebits e2"
    using op_post_bits[OF post, of "(\<and>)"] by (auto simp: e ebits_def bit_and_iff)
qed

lemma ebitmap_xor_ok:
  assumes "wf_ebitmap e1" "wf_ebitmap e2" "ebitmap_xor m e1 e2 = Inr (e, m')"
  shows "wf_ebitmap e" and "ebits e = (ebits e1 - ebits e2) \<union> (ebits e2 - ebits e1)"
proof -
  from assms obtain ns where e: "e = \<lparr>node = ns, highbit = nodes_end ns\<rparr>"
    and post: "op_post (XOR) (node e1) (node e2) ns"
    by (auto simp: ebitmap_xor_def with_end_Inr wf_ebitmap_def dest: xor_nodes_sound)
  from post show "wf_ebitmap e" by (simp add: e wf_ebitmap_make op_post_def)
  show "ebits e = (ebits e1 - ebits e2) \<union> (ebits e2 - ebits e1)"
    using op_post_bits[OF post, of "(\<noteq>)"] by (auto simp: e ebits_def bit_xor_iff)
qed

lemma ebitmap_and_error:
  "ebitmap_and m e1 e2 = Inl err \<Longrightarrow> err = ENOMEM \<and> m < length (node e1) + length (node e2)"
  by (simp add: ebitmap_and_def and_nodes_error)

lemma ebitmap_or_error:
  "ebitmap_or m e1 e2 = Inl err \<Longrightarrow> err = ENOMEM \<and> m < length (node e1) + length (node e2)"
  by (auto simp: ebitmap_or_def dest: or_nodes_error split: sum.splits)

section \<open>Canonical form and comparison\<close>

lemma blk_head [simp]: "wf_nodes (n # ns) \<Longrightarrow> blk (n # ns) (startbit n) \<noteq> 0"
  by (simp add: wf_nodes_Cons node_ok_def)

lemma node_eqI: "startbit n = startbit n' \<Longrightarrow> nmap n = nmap n' \<Longrightarrow> n = (n' :: ebitmap_node)"
  by simp

lemma blk_determines_nodes:
  assumes "wf_nodes a" "wf_nodes b" "\<And>s. blk a s = blk b s"
  shows "a = b"
  using assms
proof (induction a arbitrary: b)
  case Nil
  show ?case
  proof (cases b)
    case (Cons n r)
    then show ?thesis
      using blk_head[of n r] Nil.prems(2) Nil.prems(3)[of "startbit n"] by (simp del: blk_head)
  qed simp
next
  case (Cons n r)
  have "blk b (startbit n) \<noteq> 0"
    using blk_head[OF Cons.prems(1)] by (simp only: Cons.prems(3)[of "startbit n"] not_False_eq_True)
  then obtain n' r' where b: "b = n' # r'"
    by (cases b) auto
  have wf: "wf_nodes r" "wf_nodes r'" "wf_nodes (n' # r')"
    using Cons.prems(1,2) by (auto simp: b wf_nodes_Cons)
  have sb: "startbit n = startbit n'"
  proof (cases "startbit n" "startbit n'" rule: u32_trichotomy)
    case lt
    then have "blk b (startbit n) = 0"
      using wf(3) by (auto simp: b intro!: blk_above intro: wf_nodes_head_less)
    then show ?thesis
      using Cons.prems(3)[of "startbit n"] blk_head[OF Cons.prems(1)] by simp
  next
    case gt
    then have "blk (n # r) (startbit n') = 0"
      using Cons.prems(1) by (auto intro!: blk_above intro: wf_nodes_head_less)
    then show ?thesis
      using Cons.prems(3)[of "startbit n'"] blk_head[OF wf(3)] by (simp add: b)
  qed
  then have "nmap n = nmap n'"
    using Cons.prems(3)[of "startbit n"] by (simp add: b)
  moreover have "blk r s = blk r' s" for s
  proof (cases "s = startbit n")
    case True
    then show ?thesis
      using Cons.prems(1) wf(3) by (simp add: sb)
  next
    case False
    then show ?thesis using Cons.prems(3)[of s] by (simp add: b sb)
  qed
  ultimately show ?case
    using Cons.IH[OF wf(1,2)] by (simp add: b sb)
qed

lemma bit_blk:
  assumes "wf_nodes ns"
  shows "bit (blk ns s) k \<longleftrightarrow> aligned s \<and> k < 64 \<and> s + of_nat k \<in> nbits ns"
proof (cases "aligned s \<and> k < 64")
  case True
  then show ?thesis by (simp add: in_nbits block_add)
next
  case False
  have ok: "list_all node_ok ns" using assms by (simp add: wf_nodes_def)
  have "\<not> bit (blk ns s) k"
  proof (cases "aligned s")
    case True
    with False show ?thesis by (auto dest: bit_imp_le_length)
  next
    case na: False
    then have "blk ns s = 0" using ok by (simp add: blk_not_aligned)
    then show ?thesis by simp
  qed
  with False show ?thesis by auto
qed

lemma nbits_subset_iff:
  assumes "wf_nodes a" "wf_nodes b"
  shows "nbits b \<subseteq> nbits a \<longleftrightarrow> (\<forall>s. blk a s AND blk b s = blk b s)"
proof
  assume "nbits b \<subseteq> nbits a"
  then show "\<forall>s. blk a s AND blk b s = blk b s"
    using assms by (auto intro!: bit_word_eqI simp: bit_and_iff bit_blk)
next
  assume h: "\<forall>s. blk a s AND blk b s = blk b s"
  show "nbits b \<subseteq> nbits a"
  proof
    fix c assume "c \<in> nbits b"
    then have "bit (blk a (blkstart c) AND blk b (blkstart c)) (blkoff c)"
      using h by (simp add: in_nbits)
    then show "c \<in> nbits a" by (simp add: in_nbits bit_and_iff)
  qed
qed

text \<open>A set has exactly one well-formed bitmap.\<close>

lemma ebits_inject:
  assumes "wf_ebitmap e1" "wf_ebitmap e2" "ebits e1 = ebits e2"
  shows "e1 = e2"
proof -
  have wf: "wf_nodes (node e1)" "wf_nodes (node e2)" using assms by (auto simp: wf_ebitmap_def)
  have "blk (node e1) s = blk (node e2) s" for s
    using assms(3) by (intro bit_word_eqI) (simp add: bit_blk[OF wf(1)] bit_blk[OF wf(2)] ebits_def)
  then have "node e1 = node e2" by (rule blk_determines_nodes[OF wf])
  then show ?thesis using assms(1,2) by (simp add: wf_ebitmap_def)
qed

lemma cmp_nodes_iff: "cmp_nodes a b \<longleftrightarrow> a = b"
  by (induction a b rule: cmp_nodes.induct) auto

lemma ebitmap_cmp_iff_eq: "ebitmap_cmp e1 e2 \<longleftrightarrow> e1 = e2"
  by (auto simp: ebitmap_cmp_def cmp_nodes_iff)

lemma ebitmap_cmp_iff:
  "wf_ebitmap e1 \<Longrightarrow> wf_ebitmap e2 \<Longrightarrow> ebitmap_cmp e1 e2 \<longleftrightarrow> ebits e1 = ebits e2"
  using ebits_inject[of e1 e2] by (auto simp: ebitmap_cmp_iff_eq)

lemma all_split_at:
  assumes "P z z" "f a = z" "g a = z"
  shows "(\<forall>s. P (if a = s then x else f s) (if a = s then y else g s)) \<longleftrightarrow>
           P x y \<and> (\<forall>s. P (f s) (g s))"
  using assms by (metis (full_types))

lemma and_nil_iff:
  assumes "wf_nodes b"
  shows "b = [] \<longleftrightarrow> (\<forall>s. blk [] s AND blk b s = blk b s)"
proof (cases b)
  case (Cons n r)
  then have "blk b (startbit n) \<noteq> 0" using assms blk_head by blast
  then have "blk [] (startbit n) AND blk b (startbit n) \<noteq> blk b (startbit n)" by simp
  with Cons show ?thesis by blast
qed simp

lemma contains_nodes_iff:
  "wf_nodes a \<Longrightarrow> wf_nodes b \<Longrightarrow>
     contains_nodes a b \<longleftrightarrow> (\<forall>s. blk a s AND blk b s = blk b s)"
proof (induction a b rule: contains_nodes.induct)
  case (1 n1 r1 n2 r2)
  note heads = wf_nodes_headD[OF "1.prems"(1)] wf_nodes_headD[OF "1.prems"(2)]
  show ?case
  proof (cases "startbit n1" "startbit n2" rule: u32_trichotomy)
    case eq
    have z: "blk r1 (startbit n2) = 0" "blk r2 (startbit n2) = 0"
      using blk_above[OF heads(2)] blk_above[OF heads(4)] "1.prems" eq
      by (simp_all add: wf_nodes_Cons)
    have "(\<forall>s. blk (n1 # r1) s AND blk (n2 # r2) s = blk (n2 # r2) s) \<longleftrightarrow>
        nmap n1 AND nmap n2 = nmap n2 \<and> (\<forall>s. blk r1 s AND blk r2 s = blk r2 s)"
      using all_split_at[where P = "\<lambda>v w. v AND w = w" and a = "startbit n2" and f = "blk r1"
          and g = "blk r2" and z = 0 and x = "nmap n1" and y = "nmap n2"] z
      by (simp add: eq)
    with eq "1.IH"(2) heads show ?thesis by auto
  next
    case lt
    have z: "blk (n2 # r2) (startbit n1) = 0" "blk r1 (startbit n1) = 0"
      using "1.prems" lt wf_nodes_above[OF "1.prems"(2) lt(1)] blk_above by simp_all
    have "(\<forall>s. blk (n1 # r1) s AND blk (n2 # r2) s = blk (n2 # r2) s) \<longleftrightarrow>
        (\<forall>s. blk r1 s AND blk (n2 # r2) s = blk (n2 # r2) s)"
      using z by (metis and_zero_eq blk.simps(2))
    with lt "1.IH"(1) heads "1.prems" show ?thesis by auto
  next
    case gt
    have z: "blk (n1 # r1) (startbit n2) = 0"
      using wf_nodes_above[OF "1.prems"(1) gt(1)] blk_above "1.prems"(1) by blast
    have "blk (n2 # r2) (startbit n2) \<noteq> 0"
      using "1.prems"(2) by (rule blk_head)
    then have "\<exists>s. blk (n1 # r1) s AND blk (n2 # r2) s \<noteq> blk (n2 # r2) s"
      using z by (intro exI[of _ "startbit n2"]) (simp del: blk.simps)
    with gt show ?thesis by auto
  qed
next
  case "2_1"
  then show ?case by (simp only: contains_nodes.simps and_nil_iff)
next
  case "2_2"
  then show ?case by simp
qed

lemma nodes_end_mono:
  assumes "wf_nodes a" "wf_nodes b" "nbits b \<subseteq> nbits a"
  shows "nodes_end b \<le> nodes_end a"
proof (cases "b = []")
  case False
  let ?n = "last b"
  have n: "?n \<in> set b" using False by simp
  then have ok: "node_ok ?n" using assms(2) by (rule wf_nodes_node_ok[rotated])
  then obtain k where k: "bit (nmap ?n) k" "k < 64"
    by (auto simp: node_ok_def elim: ex_bit_if_nonzero)
  then have "startbit ?n + of_nat k \<in> nbits b"
    using ok blk_in_set[OF assms(2) n] by (simp add: in_nbits block_add node_ok_def)
  with assms(3) have "startbit ?n + of_nat k \<in> nbits a" by auto
  then obtain n' where n': "n' \<in> set a" "startbit n' = startbit ?n"
    using ok k(2) by (auto simp: in_nbits_iff_node[OF assms(1)] block_add node_ok_def)
  then have ne: "a \<noteq> []" by auto
  from n' have "startbit ?n \<le> startbit (last a)"
    using wf_nodes_last[OF assms(1) n'(1)] by simp
  then show ?thesis using nodes_end_le_iff[OF assms(2,1) False ne] by simp
qed (simp add: nodes_end_def)

lemma ebitmap_contains_iff:
  assumes "wf_ebitmap e1" "wf_ebitmap e2"
  shows "ebitmap_contains e1 e2 \<longleftrightarrow> ebits e2 \<subseteq> ebits e1"
proof -
  have wf: "wf_nodes (node e1)" "wf_nodes (node e2)" using assms by (auto simp: wf_ebitmap_def)
  have "contains_nodes (node e1) (node e2) \<longleftrightarrow> ebits e2 \<subseteq> ebits e1"
    by (simp add: contains_nodes_iff[OF wf] nbits_subset_iff[OF wf] ebits_def)
  moreover have "ebits e2 \<subseteq> ebits e1 \<Longrightarrow> highbit e2 \<le> highbit e1"
    using nodes_end_mono[OF wf] assms by (simp add: ebits_def wf_ebitmap_def)
  ultimately show ?thesis by (auto simp: ebitmap_contains_def)
qed

lemma nbits_disjoint_iff:
  assumes "wf_nodes a" "wf_nodes b"
  shows "nbits a \<inter> nbits b = {} \<longleftrightarrow> (\<forall>s. blk a s AND blk b s = 0)"
proof
  assume "nbits a \<inter> nbits b = {}"
  then show "\<forall>s. blk a s AND blk b s = 0"
    using assms by (auto simp: word_eq_0_iff_bits bit_and_iff bit_blk)
next
  assume "\<forall>s. blk a s AND blk b s = 0"
  then have "\<not> (bit (blk a s) k \<and> bit (blk b s) k)" for s k
    by (metis bit_0_eq bit_and_iff bot_apply bot_bool_def)
  then show "nbits a \<inter> nbits b = {}" by (auto simp: in_nbits)
qed

lemma match_any_nodes_iff:
  "wf_nodes a \<Longrightarrow> wf_nodes b \<Longrightarrow>
     \<not> match_any_nodes a b \<longleftrightarrow> (\<forall>s. blk a s AND blk b s = 0)"
proof (induction a b rule: match_any_nodes.induct)
  case (1 n1 r1 n2 r2)
  note heads = wf_nodes_headD[OF "1.prems"(1)] wf_nodes_headD[OF "1.prems"(2)]
  show ?case
  proof (cases "startbit n1" "startbit n2" rule: u32_trichotomy)
    case eq
    have z: "blk r1 (startbit n2) = 0" "blk r2 (startbit n2) = 0"
      using blk_above[OF heads(2)] blk_above[OF heads(4)] "1.prems" eq
      by (simp_all add: wf_nodes_Cons)
    show ?thesis
      using all_split_at[where P = "\<lambda>v w. v AND w = 0" and a = "startbit n2" and f = "blk r1"
          and g = "blk r2" and z = 0 and x = "nmap n1" and y = "nmap n2"] z
        "1.IH"(3) heads eq
      by simp
  next
    case lt
    have z: "blk (n2 # r2) (startbit n1) = 0"
      using wf_nodes_above[OF "1.prems"(2) lt(1)] blk_above "1.prems"(2) by blast
    have "(\<forall>s. blk (n1 # r1) s AND blk (n2 # r2) s = 0) \<longleftrightarrow>
        (\<forall>s. blk r1 s AND blk (n2 # r2) s = 0)"
      using z by (metis and_zero_eq blk.simps(2))
    with lt "1.IH"(1) heads "1.prems" show ?thesis by simp
  next
    case gt
    have z: "blk (n1 # r1) (startbit n2) = 0"
      using wf_nodes_above[OF "1.prems"(1) gt(1)] blk_above "1.prems"(1) by blast
    have "(\<forall>s. blk (n1 # r1) s AND blk (n2 # r2) s = 0) \<longleftrightarrow>
        (\<forall>s. blk (n1 # r1) s AND blk r2 s = 0)"
      using z by (metis zero_and_eq blk.simps(2))
    with gt "1.IH"(2) heads "1.prems" show ?thesis by simp
  qed
qed simp_all

lemma ebitmap_match_any_iff:
  assumes "wf_ebitmap e1" "wf_ebitmap e2"
  shows "ebitmap_match_any e1 e2 \<longleftrightarrow> ebits e1 \<inter> ebits e2 \<noteq> {}"
proof -
  have wf: "wf_nodes (node e1)" "wf_nodes (node e2)" using assms by (auto simp: wf_ebitmap_def)
  show ?thesis
    using match_any_nodes_iff[OF wf] nbits_disjoint_iff[OF wf]
    by (auto simp: ebitmap_match_any_def ebits_def)
qed

end
