(* ===== verification/Ebitmap_Sets.thy ===== *)
theory Ebitmap_Sets
  imports Ebitmap_Algebra
begin

text \<open>
  Copy, Hamming distance, complement, difference and range construction of
  \<^verbatim>\<open>src/ebitmap.c\<close> against the sets of positions, and the interface \<open>bitset\<close> through which the
  MLS and context components use bitmaps.
\<close>

section \<open>Copy and distance\<close>

lemma cpy_nodes_Inr: "cpy_nodes m ns = Inr (ns', m') \<Longrightarrow> ns' = ns"
  by (induction m ns arbitrary: ns' m' rule: cpy_nodes.induct) auto

lemma cpy_nodes_enough: "length ns \<le> m \<Longrightarrow> cpy_nodes m ns = Inr (ns, m - length ns)"
proof (induction ns arbitrary: m)
  case (Cons n ns)
  then show ?case by (cases m) auto
qed simp

lemma cpy_nodes_error: "cpy_nodes m ns = Inl err \<Longrightarrow> err = ENOMEM"
  by (induction m ns rule: cpy_nodes.induct) auto

lemma ebitmap_cpy_ok: "ebitmap_cpy m e = Inr (e', m') \<Longrightarrow> e' = e"
  by (auto simp: ebitmap_cpy_def dest: cpy_nodes_Inr split: sum.splits prod.splits)

lemma ebitmap_cpy_enough:
  "length (node e) \<le> m \<Longrightarrow> ebitmap_cpy m e = Inr (e, m - length (node e))"
  by (simp add: ebitmap_cpy_def cpy_nodes_enough)

lemma ebitmap_cpy_error: "ebitmap_cpy m e = Inl err \<Longrightarrow> err = ENOMEM"
  by (auto simp: ebitmap_cpy_def dest: cpy_nodes_error split: sum.splits prod.splits)

lemma sint_if_small:
  fixes w :: u32
  assumes "uint w < 2147483648"
  shows "sint w = uint w"
proof -
  have "signed_take_bit 31 (uint w) = uint w"
  proof (rule signed_take_bit_int_eq_self)
    have "- (2 ^ 31) \<le> (0 :: int)" by simp
    also have "0 \<le> uint w" by simp
    finally show "- (2 ^ 31) \<le> uint w" .
  qed (use assms in simp)
  then show ?thesis by (simp add: sint_uint)
qed

lemma ebitmap_hamming_distance_ok:
  assumes "wf_ebitmap e1" "wf_ebitmap e2" "ebitmap_hamming_distance m e1 e2 = Inr (d, m')"
    and small: "card ((ebits e1 - ebits e2) \<union> (ebits e2 - ebits e1)) < 2147483648"
  shows "d = int (card ((ebits e1 - ebits e2) \<union> (ebits e2 - ebits e1)))"
proof (cases "ebitmap_cmp e1 e2")
  case True
  then have "e1 = e2" by (simp add: ebitmap_cmp_iff_eq)
  with True assms(3) show ?thesis by (simp add: ebitmap_hamming_distance_def)
next
  case False
  with assms(3) obtain e where e: "ebitmap_xor m e1 e2 = Inr (e, m')"
    and d: "d = sint (ebitmap_cardinality e)"
    by (auto simp: ebitmap_hamming_distance_def split: sum.splits)
  note x = ebitmap_xor_ok[OF assms(1,2) e]
  have "ebitmap_cardinality e = of_nat (card (ebits e))"
    by (rule ebitmap_cardinality_of_nat[OF x(1)])
  with small x(2) have u: "unat (ebitmap_cardinality e) < 2147483648"
    by (simp add: unat_of_nat)
  then have "uint (ebitmap_cardinality e) < 2147483648"
    unfolding uint_nat by linarith
  then have "sint (ebitmap_cardinality e) = uint (ebitmap_cardinality e)"
    by (rule sint_if_small)
  with x d unat_ebitmap_cardinality[OF x(1)] show ?thesis
    by (metis uint_nat)
qed

section \<open>Complement\<close>

lemma bit_mask_from:
  "k < 64 \<Longrightarrow> bit (mp AND (push_bit j 1 - 1) :: u64) k \<longleftrightarrow> bit mp k \<and> k < j"
  by (simp add: bit_and_iff bit_mask_iff possible_bit_word flip: mask_eq_exp_minus_1)

lemma bit_NOT_u64: "k < 64 \<Longrightarrow> bit (NOT w :: u64) k \<longleftrightarrow> \<not> bit w k"
  by (simp add: bit_not_iff possible_bit_word)

lemma not_block_spec:
  assumes "not_block ns cur maxbit = (mp, ns')" "cur < maxbit" "wf_nodes ns"
    and "\<forall>n \<in> set ns. cur \<le> startbit n"
  shows "wf_nodes ns'" and "\<forall>n \<in> set ns'. cur < startbit n"
    and "\<And>s. s \<noteq> cur \<Longrightarrow> blk ns' s = blk ns s"
    and "\<And>k. k < 64 \<Longrightarrow> bit mp k \<longleftrightarrow> \<not> bit (blk ns cur) k \<and> unat cur + k < unat maxbit"
proof -
  define mp0 where "mp0 = (case ns of n # r \<Rightarrow> if startbit n = cur then NOT (nmap n) else NOT 0
      | [] \<Rightarrow> NOT 0)"
  have mp: "mp = (if unat (maxbit - cur) < MAPSIZE
      then mp0 AND (push_bit (unat (maxbit - cur)) 1 - 1) else mp0)"
    and ns': "ns' = (case ns of n # r \<Rightarrow> if startbit n = cur then r else ns | [] \<Rightarrow> ns)"
    using assms(1) by (auto simp: not_block_def mp0_def Let_def split: list.splits if_splits)
  show "wf_nodes ns'" "\<And>s. s \<noteq> cur \<Longrightarrow> blk ns' s = blk ns s"
    using assms(3) by (auto simp: ns' wf_nodes_Cons split: list.splits)
  show "\<forall>n \<in> set ns'. cur < startbit n"
    using assms(3,4) by (auto simp: ns' wf_nodes_Cons intro: le_less_trans split: list.splits)
  fix k :: nat assume k: "k < 64"
  have "bit mp0 k \<longleftrightarrow> \<not> bit (blk ns cur) k"
  proof (cases ns)
    case (Cons n r)
    show ?thesis
    proof (cases "startbit n = cur")
      case False
      then have "cur < startbit n" using assms(4) Cons by auto
      then have "blk ns cur = 0" using assms(3) Cons wf_nodes_above blk_above by metis
      with Cons False k show ?thesis by (simp add: mp0_def possible_bit_word)
    qed (use Cons k in \<open>simp add: mp0_def bit_NOT_u64\<close>)
  qed (use k in \<open>simp add: mp0_def possible_bit_word\<close>)
  moreover have "unat (maxbit - cur) = unat maxbit - unat cur"
    using assms(2) by (simp add: unat_sub)
  ultimately show "bit mp k \<longleftrightarrow> \<not> bit (blk ns cur) k \<and> unat cur + k < unat maxbit"
    using k assms(2) bit_mask_from[OF k, of mp0 "unat (maxbit - cur)"] by (auto simp: mp)
qed

lemma in_nbits_Cons:
  "b \<in> nbits (n # ns) \<longleftrightarrow>
     (if startbit n = blkstart b then bit (nmap n) (blkoff b) else b \<in> nbits ns)"
  by (simp add: in_nbits)

definition not_post :: "u32 \<Rightarrow> u32 \<Rightarrow> ebitmap_node list \<Rightarrow> ebitmap_node list \<Rightarrow> bool" where
  "not_post cur maxbit ns out \<longleftrightarrow>
     wf_nodes out \<and> (\<forall>n \<in> set out. cur \<le> startbit n) \<and>
     (\<forall>b. b \<in> nbits out \<longleftrightarrow> cur \<le> b \<and> b < maxbit \<and> b \<notin> nbits ns)"

lemma aligned_step:
  assumes "aligned cur" "unat cur < 4294967232"
  shows "aligned (cur + 64)" "unat (cur + 64) = unat cur + 64" "cur + 64 \<noteq> 0"
proof -
  have "unat (cur + 64) = (unat cur + 64) mod 4294967296" by (simp add: unat_word_ariths)
  with assms(2) show u: "unat (cur + 64) = unat cur + 64" by simp
  with assms(1) show "aligned (cur + 64)" by (simp add: aligned_iff)
  from u show "cur + 64 \<noteq> 0" by (metis add_is_0 unat_0 zero_neq_numeral)
qed

lemma not_post_step:
  assumes blk: "not_block ns cur maxbit = (mp, ns')" and wf: "wf_nodes ns"
    and ge: "\<forall>n \<in> set ns. cur \<le> startbit n" and cur: "aligned cur" "cur < maxbit"
    and small: "unat maxbit \<le> 4294967232" and rest: "not_post (cur + 64) maxbit ns' out"
  shows "not_post cur maxbit ns (if mp = 0 then out else \<lparr>startbit = cur, nmap = mp\<rparr> # out)"
proof -
  note nb = not_block_spec[OF blk cur(2) wf ge]
  have "unat cur < 4294967232" using cur(2) small by (simp add: word_facts)
  note step = aligned_step[OF cur(1) this]
  have above: "\<forall>n \<in> set out. cur < startbit n"
    using rest step(2) by (force simp: not_post_def word_facts)
  let ?out = "if mp = 0 then out else \<lparr>startbit = cur, nmap = mp\<rparr> # out"
  have wf': "wf_nodes ?out"
    using rest above cur(1) step(3) by (auto simp: not_post_def wf_nodes_Cons node_ok_def)
  have mem: "b \<in> nbits ?out \<longleftrightarrow> cur \<le> b \<and> b < maxbit \<and> b \<notin> nbits ns" for b
  proof (cases "blkstart b = cur")
    case True
    have ub: "unat b = unat cur + blkoff b" using unat_block[of b] True by simp
    have "b \<notin> nbits out"
    proof -
      have "\<not> cur + 64 \<le> b" unfolding word_facts using ub step(2) blkoff_less[of b] by linarith
      then show ?thesis using rest by (simp add: not_post_def)
    qed
    then have "b \<in> nbits ?out \<longleftrightarrow> bit mp (blkoff b)"
      using True by (auto simp: in_nbits_Cons)
    also have "\<dots> \<longleftrightarrow> b \<notin> nbits ns \<and> b < maxbit"
      using nb(4)[of "blkoff b"] True ub by (simp add: in_nbits word_facts)
    finally show ?thesis using ub by (auto simp: word_facts)
  next
    case False
    have "b \<in> nbits ?out \<longleftrightarrow> b \<in> nbits out" using False by (auto simp: in_nbits_Cons)
    also have "\<dots> \<longleftrightarrow> cur + 64 \<le> b \<and> b < maxbit \<and> b \<notin> nbits ns"
      using rest nb(3)[OF False] by (simp add: not_post_def in_nbits)
    finally show ?thesis
      using False in_block_iff[OF cur(1), of b] step(2) by (auto simp: word_facts)
  qed
  show ?thesis
    using wf' mem above by (auto simp: not_post_def less_imp_le)
qed

lemma not_loop_sound:
  "not_loop m ns cur maxbit = Inr (out, m') \<Longrightarrow> wf_nodes ns \<Longrightarrow>
     \<forall>n \<in> set ns. cur \<le> startbit n \<Longrightarrow> aligned cur \<Longrightarrow> unat maxbit \<le> 4294967232 \<Longrightarrow>
     not_post cur maxbit ns out"
proof (induction m ns cur maxbit arbitrary: out m' rule: not_loop.induct)
  case (1 m ns cur maxbit)
  show ?case
  proof (cases "cur < maxbit")
    case False
    then show ?thesis
      using "1.prems"(1) by (subst (asm) not_loop.simps) (auto simp: not_post_def)
  next
    case True
    obtain mp ns' where blk: "not_block ns cur maxbit = (mp, ns')" by fastforce
    note nb = not_block_spec[OF blk True "1.prems"(2,3)]
    have "unat cur < 4294967232" using True "1.prems"(5) by (simp add: word_facts)
    note step = aligned_step[OF "1.prems"(4) this]
    have ge: "\<forall>n \<in> set ns'. cur + 64 \<le> startbit n"
    proof
      fix n assume n: "n \<in> set ns'"
      have "aligned (startbit n)" using wf_nodes_node_ok[OF nb(1) n] by (simp add: node_ok_def)
      then have "unat cur + 64 \<le> unat (startbit n)"
        using aligned_less_diff "1.prems"(4) nb(2) n by blast
      then show "cur + 64 \<le> startbit n" using step(2) by (simp add: word_facts)
    qed
    note here = not_post_step[OF blk "1.prems"(2,3,4) True "1.prems"(5)]
    show ?thesis
    proof (cases "mp = 0")
      case z: True
      have "not_loop m ns' (cur + 64) maxbit = Inr (out, m')"
        using "1.prems"(1) True blk z by (subst (asm) not_loop.simps) simp
      from "1.IH"(2)[OF True blk[symmetric] _ this nb(1) ge step(1) "1.prems"(5)] z
      show ?thesis using here[of out] by simp
    next
      case nz: False
      obtain m0 r where m: "m = Suc m0" and r: "not_loop m0 ns' (cur + 64) maxbit = Inr (r, m')"
        and out: "out = \<lparr>startbit = cur, nmap = mp\<rparr> # r"
        using "1.prems"(1) True blk nz
        by (subst (asm) not_loop.simps) (auto split: option.splits sum.splits)
      have "malloc m = Some m0" by (simp add: m)
      from "1.IH"(1)[OF True blk[symmetric] nz this r nb(1) ge step(1) "1.prems"(5)] nz
      show ?thesis using here[of r] by (simp add: out)
    qed
  qed
qed

lemma not_loop_error: "not_loop m ns cur maxbit = Inl err \<Longrightarrow> err = ENOMEM"
proof (induction m ns cur maxbit arbitrary: err rule: not_loop.induct)
  case (1 m ns cur maxbit)
  obtain mp ns' where blk: "not_block ns cur maxbit = (mp, ns')" by fastforce
  have less: "cur < maxbit"
    using "1.prems" by (subst (asm) not_loop.simps) (auto split: if_splits)
  show ?case
  proof (cases "mp = 0")
    case True
    then show ?thesis
      using "1.prems" "1.IH"(2)[OF less blk[symmetric], of err] less blk
      by (subst (asm) not_loop.simps) simp
  next
    case False
    then show ?thesis
      using "1.prems" "1.IH"(1)[OF less blk[symmetric]] less blk
      by (subst (asm) not_loop.simps) (auto split: option.splits sum.splits)
  qed
qed

text \<open>Above the last whole block, \<^verbatim>\<open>cur_startbit\<close> wraps to 0 before it reaches the bound.\<close>

lemma aligned_add_64: "aligned s \<Longrightarrow> aligned (s + 64)"
proof -
  assume "aligned s"
  moreover have "(unat s + 64) mod 4294967296 mod 64 = (unat s + 64) mod 64"
    by (rule mod_mod_cancel) simp
  ultimately show ?thesis by (simp add: aligned_iff unat_word_ariths)
qed

lemma not_loop_endless:
  "aligned cur \<Longrightarrow> 4294967232 < unat maxbit \<Longrightarrow> not_loop m ns cur maxbit = Inl ENOMEM"
proof (induction m ns cur maxbit rule: not_loop.induct)
  case (1 m ns cur maxbit)
  have "unat cur \<le> 4294967232"
    using "1.prems"(1) unat_u32_bound[of cur] by (auto simp: aligned_iff elim!: dvdE)
  then have less: "cur < maxbit" using "1.prems"(2) by (simp add: word_facts)
  note next_ok = aligned_add_64[OF "1.prems"(1)] "1.prems"(2)
  obtain mp ns' where blk: "not_block ns cur maxbit = (mp, ns')" by fastforce
  show ?case
    using "1.IH"(1)[OF less blk[symmetric] _ _ next_ok] "1.IH"(2)[OF less blk[symmetric] _ next_ok]
      less blk
    by (subst not_loop.simps) (auto split: option.splits)
qed

lemma ebitmap_not_ok:
  assumes "wf_ebitmap e1" "unat maxbit \<le> 4294967232" "ebitmap_not m e1 maxbit = Inr (e, m')"
  shows "wf_ebitmap e" and "ebits e = {b. b < maxbit \<and> b \<notin> ebits e1}"
proof -
  from assms(3) obtain ns where ns: "not_loop m (node e1) 0 maxbit = Inr (ns, m')"
    and e: "e = \<lparr>node = ns, highbit = nodes_end ns\<rparr>"
    by (auto simp: ebitmap_not_def with_end_Inr)
  have post: "not_post 0 maxbit (node e1) ns"
    by (rule not_loop_sound[OF ns]) (use assms in \<open>simp_all add: wf_ebitmap_def aligned_def\<close>)
  then show "wf_ebitmap e" by (simp add: e wf_ebitmap_make not_post_def)
  from post show "ebits e = {b. b < maxbit \<and> b \<notin> ebits e1}"
    by (auto simp: e ebits_def not_post_def)
qed

lemma ebitmap_not_endless:
  "4294967232 < unat maxbit \<Longrightarrow> ebitmap_not m e maxbit = Inl ENOMEM"
  by (simp add: ebitmap_not_def not_loop_endless aligned_def)

lemma ebitmap_andnot_ok:
  assumes "wf_ebitmap e1" "wf_ebitmap e2" "unat maxbit \<le> 4294967232"
    and "ebitmap_andnot m e1 e2 maxbit = Inr (e, m')"
  shows "wf_ebitmap e" and "ebits e = {b \<in> ebits e1. b < maxbit} - ebits e2"
proof -
  from assms(4) obtain e3 m3 where e3: "ebitmap_not m e2 maxbit = Inr (e3, m3)"
    and e: "ebitmap_and m3 e1 e3 = Inr (e, m')"
    by (auto simp: ebitmap_andnot_def split: sum.splits prod.splits)
  note n = ebitmap_not_ok[OF assms(2,3) e3]
  note a = ebitmap_and_ok[OF assms(1) n(1) e]
  show "wf_ebitmap e" by (rule a(1))
  show "ebits e = {b \<in> ebits e1. b < maxbit} - ebits e2" using a(2) n(2) by auto
qed

section \<open>Ranges\<close>

definition range_post :: "u32 \<Rightarrow> u32 \<Rightarrow> u32 \<Rightarrow> ebitmap_node list \<Rightarrow> bool" where
  "range_post s minbit maxbit out \<longleftrightarrow>
     wf_nodes out \<and> (\<forall>n \<in> set out. s \<le> startbit n) \<and>
     (s \<le> blkstart maxbit \<longrightarrow> out \<noteq> [] \<and> startbit (last out) = blkstart maxbit) \<and>
     (\<forall>b. b \<in> nbits out \<longleftrightarrow> s \<le> b \<and> minbit \<le> b \<and> b \<le> maxbit)"

definition range_block :: "u32 \<Rightarrow> u32 \<Rightarrow> u32 \<Rightarrow> u64" where
  "range_block minbit maxbit s =
     (if s \<noteq> blkstart minbit \<and> s \<noteq> blkstart maxbit then NOT 0
      else if s \<noteq> blkstart maxbit then push_bit (unat (minbit - s)) (NOT 0)
      else if s \<noteq> blkstart minbit then drop_bit (MAPSIZE - (unat (maxbit - s) + 1)) (NOT 0)
      else push_bit (unat (minbit - s))
        (drop_bit (MAPSIZE - (unat (maxbit - minbit) + 1)) (NOT 0)))"

lemma bit_drop_ones: "bit (drop_bit j (NOT 0) :: u64) k \<longleftrightarrow> j + k < 64"
proof -
  have "bit (drop_bit j w :: u64) k \<longleftrightarrow> bit w (j + k)" for w by (simp add: bit_drop_bit_eq)
  then show ?thesis by (simp only: bit_not_iff possible_bit_word) simp
qed

lemma bit_push_ones: "k < 64 \<Longrightarrow> bit (push_bit j w :: u64) k \<longleftrightarrow> j \<le> k \<and> bit w (k - j)"
  by (simp add: bit_push_bit_iff possible_bit_word)

lemma last_block_offset: "m < 64 \<Longrightarrow> 64 - (m + 1) + k < 64 \<longleftrightarrow> k \<le> (m :: nat)"
  by arith

lemma bit_range_block:
  assumes "aligned s" "blkstart minbit \<le> s" "s \<le> blkstart maxbit" "minbit \<le> maxbit" "k < 64"
  shows "bit (range_block minbit maxbit s) k \<longleftrightarrow>
    unat minbit \<le> unat s + k \<and> unat s + k \<le> unat maxbit"
proof -
  note un = unat_block[of minbit] unat_block[of maxbit]
  have lo: "unat minbit \<le> unat s" if "s \<noteq> blkstart minbit"
  proof -
    have "unat (blkstart minbit) + 64 \<le> unat s"
      by (rule aligned_less_diff) (use that assms(1,2) in auto)
    then show ?thesis using un(1) blkoff_less[of minbit] by linarith
  qed
  have hi: "unat s + 64 \<le> unat maxbit" if "s \<noteq> blkstart maxbit"
  proof -
    have "unat s + 64 \<le> unat (blkstart maxbit)"
      by (rule aligned_less_diff) (use that assms(1,3) in auto)
    then show ?thesis using un(2) by linarith
  qed
  have d: "unat (maxbit - minbit) = unat maxbit - unat minbit" using assms(4) by (simp add: unat_sub)
  have one: "bit (NOT 0 :: u64) j \<longleftrightarrow> j < 64" for j
    by (simp add: bit_not_iff possible_bit_word)
  have le: "unat minbit \<le> unat maxbit" using assms(4) by (simp add: word_facts)
  consider "s \<noteq> blkstart minbit" "s \<noteq> blkstart maxbit"
    | "s = blkstart minbit" "s \<noteq> blkstart maxbit"
    | "s \<noteq> blkstart minbit" "s = blkstart maxbit"
    | "s = blkstart minbit" "s = blkstart maxbit" by auto
  then show ?thesis
  proof cases
    case 1
    then show ?thesis using lo hi assms(5) one by (auto simp: range_block_def simp del: bit_minus_1_iff)
  next
    case 2
    then have "range_block minbit maxbit s = push_bit (blkoff minbit) (NOT 0)"
      by (simp add: range_block_def)
    then have "bit (range_block minbit maxbit s) k \<longleftrightarrow> blkoff minbit \<le> k"
      using assms(5) by (simp only: bit_push_ones one) linarith
    then show ?thesis using 2 hi[OF 2(2)] assms(5) un(1) by simp
  next
    case 3
    then have "range_block minbit maxbit s = drop_bit (64 - (blkoff maxbit + 1)) (NOT 0)"
      by (simp add: range_block_def)
    then have "bit (range_block minbit maxbit s) k \<longleftrightarrow> 64 - (blkoff maxbit + 1) + k < 64"
      by (simp only: bit_drop_ones)
    then have "bit (range_block minbit maxbit s) k \<longleftrightarrow> k \<le> blkoff maxbit"
      using last_block_offset[OF blkoff_less] by blast
    moreover have "unat maxbit = unat s + blkoff maxbit" using 3(2) un(2) by simp
    ultimately show ?thesis using lo[OF 3(1)] by linarith
  next
    case 4
    then have "range_block minbit maxbit s =
        push_bit (blkoff minbit) (drop_bit (64 - (unat (maxbit - minbit) + 1)) (NOT 0))"
      by (simp add: range_block_def)
    then have "bit (range_block minbit maxbit s) k \<longleftrightarrow>
        blkoff minbit \<le> k \<and> 64 - (unat (maxbit - minbit) + 1) + (k - blkoff minbit) < 64"
      using assms(5) by (simp only: bit_push_ones bit_drop_ones)
    moreover have u: "unat minbit = unat s + blkoff minbit" "unat maxbit = unat s + blkoff maxbit"
      using 4 un by simp_all
    moreover have "unat (maxbit - minbit) < 64"
      using u d blkoff_less[of maxbit] by linarith
    ultimately show ?thesis
      using last_block_offset[of "unat (maxbit - minbit)" "k - blkoff minbit"] d le by linarith
  qed
qed

lemma range_post_step:
  assumes s: "aligned s" "blkstart minbit \<le> s" "s \<le> blkstart maxbit" and le: "minbit \<le> maxbit"
    and max: "blkstart maxbit + 64 \<noteq> 0" and rest: "range_post (s + 64) minbit maxbit out"
  shows "range_post s minbit maxbit (\<lparr>startbit = s, nmap = range_block minbit maxbit s\<rparr> # out)"
proof -
  have "unat (blkstart maxbit) < 4294967232"
    using node_end(2)[of "\<lparr>startbit = blkstart maxbit, nmap = 1\<rparr>"] max by (simp add: node_ok_def)
  with s(3) have "unat s < 4294967232" by (simp add: word_facts)
  note step = aligned_step[OF s(1) this]
  let ?n = "\<lparr>startbit = s, nmap = range_block minbit maxbit s\<rparr>"
  note bits = bit_range_block[OF s le]
  note un = unat_block[of minbit] unat_block[of maxbit]
  have nz: "range_block minbit maxbit s \<noteq> 0"
  proof (cases "s = blkstart minbit")
    case True
    then have "bit (range_block minbit maxbit s) (blkoff minbit)"
      using un(1) le bits[of "blkoff minbit"] by (simp add: word_facts)
    then show ?thesis by auto
  next
    case False
    then have "unat (blkstart minbit) + 64 \<le> unat s"
      using s(1,2) aligned_less_diff[of "blkstart minbit" s] by simp
    then have "bit (range_block minbit maxbit s) 0"
      using bits[of 0] un s(3) blkoff_less[of minbit] by (simp add: word_facts del: blkoff_less)
    then show ?thesis by auto
  qed
  have above: "\<forall>n \<in> set out. s < startbit n"
    using rest step(2) by (force simp: range_post_def word_facts)
  have wf: "wf_nodes (?n # out)"
    using rest above s(1) step(3) nz by (auto simp: range_post_def wf_nodes_Cons node_ok_def)
  have mem: "b \<in> nbits (?n # out) \<longleftrightarrow> s \<le> b \<and> minbit \<le> b \<and> b \<le> maxbit" for b
  proof (cases "blkstart b = s")
    case True
    then show ?thesis
      using bits[of "blkoff b"] unat_block[of b] by (auto simp: in_nbits_Cons word_facts)
  next
    case False
    then have "b \<in> nbits (?n # out) \<longleftrightarrow> s + 64 \<le> b \<and> minbit \<le> b \<and> b \<le> maxbit"
      using rest by (simp add: in_nbits_Cons range_post_def)
    then show ?thesis
      using False in_block_iff[OF s(1), of b] step(2) by (auto simp: word_facts)
  qed
  have last: "startbit (last (?n # out)) = blkstart maxbit"
  proof (cases "s = blkstart maxbit")
    case True
    have "out = []"
    proof (rule ccontr)
      assume ne: "out \<noteq> []"
      then have n: "last out \<in> set out" by simp
      then have ok: "node_ok (last out)" and ge: "s + 64 \<le> startbit (last out)"
        using rest by (auto simp: range_post_def wf_nodes_node_ok)
      then obtain k where k: "bit (nmap (last out)) k" "k < 64"
        by (auto simp: node_ok_def elim: ex_bit_if_nonzero)
      then have "startbit (last out) + of_nat k \<in> nbits out"
        using ok n rest by (auto simp: in_nbits_iff_node range_post_def block_add node_ok_def)
      then have "startbit (last out) + of_nat k \<le> maxbit" using rest by (simp add: range_post_def)
      then have "unat (startbit (last out)) + k \<le> unat maxbit"
        using ok k(2) by (simp add: word_facts block_add node_ok_def)
      with ge step(2) un(2) True blkoff_less[of maxbit] show False
        by (simp add: word_facts del: blkoff_less)
    qed
    with True show ?thesis by simp
  next
    case False
    then have "unat s + 64 \<le> unat (blkstart maxbit)"
      using s(1,3) aligned_less_diff[of s "blkstart maxbit"] by simp
    then show ?thesis using rest step(2) by (simp add: range_post_def word_facts)
  qed
  show ?thesis
    using wf above mem last by (auto simp: range_post_def less_imp_le)
qed

lemma range_post_above:
  assumes "\<not> s \<le> blkstart maxbit" "aligned s" "blkstart maxbit + 64 \<noteq> 0"
  shows "range_post s minbit maxbit []"
proof -
  have "unat (blkstart maxbit) + 64 \<le> unat s"
    using assms(1,2) by (intro aligned_less_diff) auto
  then have "\<not> (s \<le> b \<and> b \<le> maxbit)" for b
    using unat_block[of maxbit] blkoff_less[of maxbit] by (auto simp: word_facts simp del: blkoff_less)
  with assms(1) show ?thesis by (auto simp: range_post_def)
qed

lemma init_range_loop_sound:
  "init_range_loop m minbit maxbit (blkstart minbit) (blkstart maxbit) s = Inr (out, m') \<Longrightarrow>
     aligned s \<Longrightarrow> blkstart minbit \<le> s \<Longrightarrow> s \<le> blkstart maxbit + 64 \<Longrightarrow> minbit \<le> maxbit \<Longrightarrow>
     blkstart maxbit + 64 \<noteq> 0 \<Longrightarrow> range_post s minbit maxbit out"
proof (induction m arbitrary: s out m')
  case 0
  show ?case
  proof (cases "s \<le> blkstart maxbit")
    case True
    then show ?thesis using "0.prems"(1) by (subst (asm) init_range_loop.simps) simp
  qed (use "0.prems" in \<open>simp add: init_range_loop.simps range_post_above\<close>)
next
  case (Suc m)
  show ?case
  proof (cases "s \<le> blkstart maxbit")
    case True
    then obtain r where r: "init_range_loop m minbit maxbit (blkstart minbit) (blkstart maxbit)
        (s + 64) = Inr (r, m')" and out: "out = \<lparr>startbit = s, nmap = range_block minbit maxbit s\<rparr> # r"
      using Suc.prems(1)
      by (subst (asm) init_range_loop.simps) (auto simp: range_block_def Let_def split: sum.splits)
    have max: "unat (blkstart maxbit) + 64 < 4294967296"
      "unat (blkstart maxbit + 64) = unat (blkstart maxbit) + 64"
      using node_end[of "\<lparr>startbit = blkstart maxbit, nmap = 1\<rparr>"] Suc.prems(6)
      by (simp_all add: node_ok_def)
    then have "unat s < 4294967232" using True by (simp add: word_facts)
    note step = aligned_step[OF Suc.prems(2) this]
    have "range_post (s + 64) minbit maxbit r"
      by (rule Suc.IH[OF r step(1) _ _ Suc.prems(5,6)])
        (use True Suc.prems(3) step(2) max in \<open>simp_all add: word_facts\<close>)
    then show ?thesis
      using range_post_step Suc.prems True by (simp add: out)
  qed (use Suc.prems in \<open>simp add: init_range_loop.simps range_post_above\<close>)
qed

lemma ebitmap_init_range_ok:
  assumes "ebitmap_init_range m minbit maxbit = Inr (e, m')"
  shows "wf_ebitmap e" and "ebits e = {minbit..maxbit}"
proof -
  have le: "minbit \<le> maxbit" and max: "blkstart maxbit + 64 \<noteq> 0"
    using assms by (auto simp: ebitmap_init_range_def split: if_splits)
  from assms obtain ns where ns: "init_range_loop m minbit maxbit (blkstart minbit)
      (blkstart maxbit) (blkstart minbit) = Inr (ns, m')"
    and e: "e = \<lparr>node = ns, highbit = blkstart maxbit + 64\<rparr>"
    by (auto simp: ebitmap_init_range_def split: if_splits sum.splits prod.splits)
  have start: "blkstart minbit \<le> blkstart maxbit"
    using le by (simp add: word_facts unat_blkstart div_le_mono)
  then have "blkstart minbit \<le> blkstart maxbit + 64"
    using node_end(1)[of "\<lparr>startbit = blkstart maxbit, nmap = 1\<rparr>"] max
    by (simp add: node_ok_def word_facts)
  then have post: "range_post (blkstart minbit) minbit maxbit ns"
    by (intro init_range_loop_sound[OF ns _ _ _ le max]) auto
  with start show "wf_ebitmap e"
    by (auto simp: e wf_ebitmap_def range_post_def nodes_end_def)
  have "blkstart minbit \<le> b" if "minbit \<le> b" for b
    using that blkstart_le[of minbit] by simp
  with post show "ebits e = {minbit..maxbit}"
    by (auto simp: e ebits_def range_post_def)
qed

section \<open>The interface\<close>

text \<open>
  What the other components rely on: a comparison, an inclusion test, an overlap test and a
  copy that agree with the sets their arguments denote. The MLS dominance relation is the
  inclusion test together with an order on sensitivities, so the laws below are what makes it
  a partial order.
\<close>

locale bitset =
  fixes inv :: "'b \<Rightarrow> bool"
    and bits :: "'b \<Rightarrow> u32 set"
    and get :: "'b \<Rightarrow> u32 \<Rightarrow> bool"
    and same :: "'b \<Rightarrow> 'b \<Rightarrow> bool"
    and includes_all :: "'b \<Rightarrow> 'b \<Rightarrow> bool"
    and overlaps :: "'b \<Rightarrow> 'b \<Rightarrow> bool"
  assumes get_iff: "inv a \<Longrightarrow> get a i \<longleftrightarrow> i \<in> bits a"
    and same_eq: "same a b \<longleftrightarrow> a = b"
    and same_iff: "inv a \<Longrightarrow> inv b \<Longrightarrow> same a b \<longleftrightarrow> bits a = bits b"
    and includes_iff: "inv a \<Longrightarrow> inv b \<Longrightarrow> includes_all a b \<longleftrightarrow> bits b \<subseteq> bits a"
    and overlaps_iff: "inv a \<Longrightarrow> inv b \<Longrightarrow> overlaps a b \<longleftrightarrow> bits a \<inter> bits b \<noteq> {}"
begin

lemma includes_refl: "inv a \<Longrightarrow> includes_all a a"
  by (simp add: includes_iff)

lemma includes_trans:
  "inv a \<Longrightarrow> inv b \<Longrightarrow> inv c \<Longrightarrow> includes_all a b \<Longrightarrow> includes_all b c \<Longrightarrow> includes_all a c"
  by (auto simp: includes_iff)

lemma includes_antisym:
  "inv a \<Longrightarrow> inv b \<Longrightarrow> includes_all a b \<Longrightarrow> includes_all b a \<Longrightarrow> a = b"
  by (auto simp: includes_iff same_iff simp flip: same_eq)

lemma includes_get:
  "inv a \<Longrightarrow> inv b \<Longrightarrow> includes_all a b \<longleftrightarrow> (\<forall>i. get b i \<longrightarrow> get a i)"
  by (auto simp: includes_iff get_iff)

lemma same_get: "inv a \<Longrightarrow> inv b \<Longrightarrow> same a b \<longleftrightarrow> (\<forall>i. get a i \<longleftrightarrow> get b i)"
  by (auto simp: same_iff get_iff)

end

interpretation eb: bitset wf_ebitmap ebits ebitmap_get_bit ebitmap_cmp ebitmap_contains
  ebitmap_match_any
  by unfold_locales
     (simp_all add: ebitmap_get_bit_iff ebitmap_cmp_iff_eq ebitmap_cmp_iff[unfolded ebitmap_cmp_iff_eq]
       ebitmap_contains_iff ebitmap_match_any_iff)

end
