(* ===== verification/Policy_File.thy ===== *)
theory Policy_File
  imports Sepol_Prelude
begin

text \<open>
  The policy "file" of \<^verbatim>\<open>include/sepol/policydb/policydb.h\<close> (\<^verbatim>\<open>struct policy_file\<close>) with
  \<^verbatim>\<open>next_entry\<close>, \<^verbatim>\<open>put_entry\<close> and \<^verbatim>\<open>str_read\<close> of \<^verbatim>\<open>src/services.c\<close>, the bounds check of
  \<^verbatim>\<open>src/private.h\<close>, and the little-endian encodings that the readers and writers use.

  \<open>inp\<close> holds the bytes that are still to be read, \<open>out\<close> the bytes written so far, \<open>plen\<close> the
  C field \<^verbatim>\<open>len\<close>: what is left of the buffer (memory) or the size counted so far (\<open>PF_LEN\<close>).
  For a stdio stream \<open>inp\<close> is the rest of the stream and \<open>plen\<close> the room that is left on the
  device.
\<close>

datatype pf_kind = PF_USE_MEMORY | PF_USE_STDIO | PF_LEN | PF_OTHER

record policy_file =
  ptype :: pf_kind
  inp :: "u8 list"
  out :: "u8 list"
  plen :: nat

definition next_entry :: "policy_file \<Rightarrow> nat \<Rightarrow> errcode + u8 list \<times> policy_file" where
  "next_entry fp bytes =
     (case ptype fp of
        PF_USE_STDIO \<Rightarrow>
          if 0 < bytes \<and> bytes \<le> length (inp fp)
          then Inr (take bytes (inp fp), fp\<lparr>inp := drop bytes (inp fp)\<rparr>)
          else Inl EFAIL
      | PF_USE_MEMORY \<Rightarrow>
          if bytes > plen fp then Inl EFAIL
          else Inr (take bytes (inp fp),
                    fp\<lparr>inp := drop bytes (inp fp), plen := plen fp - bytes\<rparr>)
      | _ \<Rightarrow> Inl EFAIL)"

text \<open>\<open>bs\<close> are the \<open>sz * n\<close> bytes at the pointer; the result counts the items written.\<close>

definition put_entry :: "u8 list \<Rightarrow> nat \<Rightarrow> nat \<Rightarrow> policy_file \<Rightarrow> nat \<times> policy_file" where
  "put_entry bs sz n fp =
     (if sz * n \<ge> 2 ^ 64 then (0, fp)
      else case ptype fp of
        PF_USE_STDIO \<Rightarrow>
          if sz * n = 0 \<or> sz * n > plen fp then (0, fp)
          else (n, fp\<lparr>out := out fp @ bs, plen := plen fp - sz * n\<rparr>)
      | PF_USE_MEMORY \<Rightarrow>
          if sz * n > plen fp then (0, fp)
          else (n, fp\<lparr>out := out fp @ bs, plen := plen fp - sz * n\<rparr>)
      | PF_LEN \<Rightarrow> (n, fp\<lparr>plen := plen fp + sz * n\<rparr>)
      | PF_OTHER \<Rightarrow> (0, fp))"

definition exceeds_available_bytes :: "policy_file \<Rightarrow> nat \<Rightarrow> nat \<Rightarrow> bool" where
  "exceeds_available_bytes fp x req_elem_size =
     (if ptype fp \<noteq> PF_USE_MEMORY then False
      else if x * req_elem_size \<ge> 2 ^ 64 then True
      else x * req_elem_size > plen fp)"

definition zero_or_saturated :: "'a::len word \<Rightarrow> bool" where
  "zero_or_saturated x \<longleftrightarrow> x = 0 \<or> x = - 1"

text \<open>\<^verbatim>\<open>str_read\<close>: \<open>len\<close> bytes and a terminating NUL in a fresh buffer.\<close>

definition str_read :: "mem \<Rightarrow> policy_file \<Rightarrow> u64 \<Rightarrow> errcode + u8 list \<times> policy_file \<times> mem" where
  "str_read m fp len =
     (if zero_or_saturated len \<or> exceeds_available_bytes fp (unat len) 1 then Inl EFAIL
      else case malloc m of
        None \<Rightarrow> Inl EFAIL
      | Some m' \<Rightarrow> rbind (next_entry fp (unat len)) (\<lambda>(bs, fp'). Inr (bs @ [0], fp', m')))"

section \<open>Little-endian encoding\<close>

fun le_dec_nat :: "u8 list \<Rightarrow> nat" where
  "le_dec_nat [] = 0"
| "le_dec_nat (b # bs) = unat b + 256 * le_dec_nat bs"

fun le_enc_nat :: "nat \<Rightarrow> nat \<Rightarrow> u8 list" where
  "le_enc_nat 0 x = []"
| "le_enc_nat (Suc k) x = of_nat (x mod 256) # le_enc_nat k (x div 256)"

definition le_to_cpu :: "u8 list \<Rightarrow> 'a::len word" where
  "le_to_cpu bs = of_nat (le_dec_nat bs)"

definition cpu_to_le16 :: "u16 \<Rightarrow> u8 list" where
  "cpu_to_le16 x = le_enc_nat 2 (unat x)"

definition cpu_to_le32 :: "u32 \<Rightarrow> u8 list" where
  "cpu_to_le32 x = le_enc_nat 4 (unat x)"

definition cpu_to_le64 :: "u64 \<Rightarrow> u8 list" where
  "cpu_to_le64 x = le_enc_nat 8 (unat x)"

text \<open>A \<^verbatim>\<open>next_entry\<close> of one or several integers.\<close>

definition next_u8 :: "policy_file \<Rightarrow> errcode + u8 \<times> policy_file" where
  "next_u8 fp = rbind (next_entry fp 1) (\<lambda>(bs, fp'). Inr (le_to_cpu bs, fp'))"

definition next_u32 :: "policy_file \<Rightarrow> errcode + u32 \<times> policy_file" where
  "next_u32 fp = rbind (next_entry fp 4) (\<lambda>(bs, fp'). Inr (le_to_cpu bs, fp'))"

definition next_u64 :: "policy_file \<Rightarrow> errcode + u64 \<times> policy_file" where
  "next_u64 fp = rbind (next_entry fp 8) (\<lambda>(bs, fp'). Inr (le_to_cpu bs, fp'))"

fun split_words :: "nat \<Rightarrow> nat \<Rightarrow> u8 list \<Rightarrow> 'a::len word list" where
  "split_words w 0 bs = []"
| "split_words w (Suc k) bs = le_to_cpu (take w bs) # split_words w k (drop w bs)"

definition next_u16s :: "policy_file \<Rightarrow> nat \<Rightarrow> errcode + u16 list \<times> policy_file" where
  "next_u16s fp k = rbind (next_entry fp (2 * k)) (\<lambda>(bs, fp'). Inr (split_words 2 k bs, fp'))"

definition next_u32s :: "policy_file \<Rightarrow> nat \<Rightarrow> errcode + u32 list \<times> policy_file" where
  "next_u32s fp k = rbind (next_entry fp (4 * k)) (\<lambda>(bs, fp'). Inr (split_words 4 k bs, fp'))"

lemma le_enc_length [simp]: "length (le_enc_nat k x) = k"
  by (induction k arbitrary: x) auto

lemma cpu_to_le_length [simp]:
  "length (cpu_to_le16 x) = 2" "length (cpu_to_le32 y) = 4" "length (cpu_to_le64 z) = 8"
  by (simp_all add: cpu_to_le16_def cpu_to_le32_def cpu_to_le64_def)

lemma le_dec_enc: "x < 256 ^ k \<Longrightarrow> le_dec_nat (le_enc_nat k x) = x"
proof (induction k arbitrary: x)
  case (Suc k)
  then have "x div 256 < 256 ^ k" by (simp add: less_mult_imp_div_less mult.commute)
  with Suc.IH have "le_dec_nat (le_enc_nat k (x div 256)) = x div 256" by blast
  moreover have "unat (of_nat (x mod 256) :: u8) = x mod 256" by (simp add: unat_of_nat)
  ultimately show ?case by simp
qed simp

lemma le_to_cpu_enc [simp]:
  "le_to_cpu (cpu_to_le16 x) = x" "le_to_cpu (cpu_to_le32 y) = y" "le_to_cpu (cpu_to_le64 z) = z"
proof -
  have "unat x < 256 ^ 2" "unat y < 256 ^ 4" "unat z < 256 ^ 8"
    using unsigned_less[of x] unsigned_less[of y] unsigned_less[of z] by simp_all
  then show "le_to_cpu (cpu_to_le16 x) = x" "le_to_cpu (cpu_to_le32 y) = y"
      "le_to_cpu (cpu_to_le64 z) = z"
    by (simp_all add: le_to_cpu_def cpu_to_le16_def cpu_to_le32_def cpu_to_le64_def le_dec_enc)
qed

section \<open>Memory files\<close>

text \<open>A memory file whose \<^verbatim>\<open>len\<close> is the size of its buffer.\<close>

definition mem_ok :: "policy_file \<Rightarrow> bool" where
  "mem_ok fp \<longleftrightarrow> ptype fp = PF_USE_MEMORY \<and> plen fp = length (inp fp)"

definition mem_file :: "u8 list \<Rightarrow> policy_file" where
  "mem_file bs = \<lparr>ptype = PF_USE_MEMORY, inp = bs, out = [], plen = length bs\<rparr>"

lemma mem_file_ok [simp]: "mem_ok (mem_file bs)"
  by (simp add: mem_ok_def mem_file_def)

lemma next_entry_mem:
  "n = length bs \<Longrightarrow> next_entry (mem_file (bs @ rest)) n = Inr (bs, mem_file rest)"
  by (simp add: next_entry_def mem_file_def)

lemma next_words_mem [simp]:
  "next_u32 (mem_file (cpu_to_le32 x @ rest)) = Inr (x, mem_file rest)"
  "next_u64 (mem_file (cpu_to_le64 y @ rest)) = Inr (y, mem_file rest)"
  by (simp_all add: next_u32_def next_u64_def next_entry_mem)

lemma next_entry_bound:
  "next_entry fp n = Inr (bs, fp') \<Longrightarrow> mem_ok fp \<Longrightarrow>
     mem_ok fp' \<and> length bs = n \<and> inp fp = bs @ inp fp'"
  by (auto simp: next_entry_def mem_ok_def split: if_splits)

lemma next_entry_truncated: "mem_ok fp \<Longrightarrow> length (inp fp) < n \<Longrightarrow> next_entry fp n = Inl EFAIL"
  by (simp add: next_entry_def mem_ok_def)

end
