(* ===== verification/Ebitmap_IO.thy ===== *)
theory Ebitmap_IO
  imports Ebitmap_Sets Policy_File
begin

text \<open>
  \<^verbatim>\<open>ebitmap_read\<close> (\<^verbatim>\<open>src/ebitmap.c\<close>) and \<^verbatim>\<open>ebitmap_write\<close> (\<^verbatim>\<open>src/write.c\<close>). What the reader
  accepts satisfies the bitmap invariant, whatever the bytes; what the writer emits for a
  well-formed bitmap reads back as the same bitmap.
\<close>

section \<open>Reading\<close>

text \<open>
  The node loop, with \<open>l\<close> the start bit of the last node read. The last node has to end at the
  high bit, which C tests after the loop.
\<close>

fun read_nodes ::
  "mem \<Rightarrow> u32 \<Rightarrow> u32 option \<Rightarrow> nat \<Rightarrow> policy_file
     \<Rightarrow> errcode + ebitmap_node list \<times> policy_file \<times> mem" where
  "read_nodes m hb l 0 fp =
     (case l of
        None \<Rightarrow> Inr ([], fp, m)
      | Some s \<Rightarrow> if unat s + MAPSIZE \<noteq> unat hb then Inl EINVAL else Inr ([], fp, m))"
| "read_nodes m hb l (Suc count) fp =
     rbind (next_u32 fp) (\<lambda>(sb, fp).
       case malloc m of
         None \<Rightarrow> Inl ENOMEM
       | Some m \<Rightarrow>
           if sb AND 63 \<noteq> 0 then Inl EINVAL
           else if unat sb > unat hb - MAPSIZE then Inl EINVAL
           else rbind (next_u64 fp) (\<lambda>(mp, fp).
             if mp = 0 then Inl EINVAL
             else if (case l of None \<Rightarrow> False | Some s \<Rightarrow> sb \<le> s) then Inl EINVAL
             else rbind (read_nodes m hb (Some sb) count fp) (\<lambda>(ns, fp, m).
               Inr (\<lparr>startbit = sb, nmap = mp\<rparr> # ns, fp, m))))"

text \<open>The header fields: map size, high bit, number of nodes.\<close>

definition read_header :: "policy_file \<Rightarrow> errcode + (u32 \<times> u32 \<times> u32) \<times> policy_file" where
  "read_header fp =
     rbind (next_entry fp 12) (\<lambda>(bs, fp).
       Inr ((le_to_cpu (take 4 bs), le_to_cpu (take 4 (drop 4 bs)), le_to_cpu (drop 8 bs)), fp))"

definition ebitmap_read :: "mem \<Rightarrow> policy_file \<Rightarrow> errcode + ebitmap \<times> policy_file \<times> mem" where
  "ebitmap_read m fp =
     rbind (read_header fp) (\<lambda>((mapsize, hb, count), fp).
       if unat mapsize \<noteq> MAPSIZE then Inl EINVAL
       else if hb = 0 then Inr (\<lparr>node = [], highbit = 0\<rparr>, fp, m)
       else if hb AND 63 \<noteq> 0 then Inl EINVAL
       else if hb \<noteq> 0 \<and> count = 0 then Inl EINVAL
       else rbind (read_nodes m hb None (unat count) fp) (\<lambda>(ns, fp, m).
         Inr (\<lparr>node = ns, highbit = hb\<rparr>, fp, m)))"

lemma read_nodes_ok:
  "read_nodes m hb l count fp = Inr (ns, fp', m') \<Longrightarrow> unat hb < 4294967296 \<Longrightarrow> 64 \<le> unat hb \<Longrightarrow>
     wf_nodes ns \<and> (\<forall>n \<in> set ns. case l of None \<Rightarrow> True | Some s \<Rightarrow> s < startbit n) \<and>
     length ns = count \<and>
     (ns = [] \<longrightarrow> (case l of None \<Rightarrow> True | Some s \<Rightarrow> unat s + 64 = unat hb)) \<and>
     (ns \<noteq> [] \<longrightarrow> unat (startbit (last ns)) + 64 = unat hb)"
proof (induction count arbitrary: m l fp ns m' fp')
  case 0
  then show ?case by (auto split: option.splits if_splits)
next
  case (Suc count)
  obtain m0 where m: "m = Suc m0"
    using Suc.prems(1) by (cases m) (auto simp: rbind_eq_Inr split: prod.splits)
  from Suc.prems(1) obtain sb fp1 m1 mp fp2 ns2 where
    sb: "sb AND 63 = 0" "unat sb \<le> unat hb - 64" "mp \<noteq> 0"
      "\<not> (case l of None \<Rightarrow> False | Some s \<Rightarrow> sb \<le> s)"
    and rest: "read_nodes m1 hb (Some sb) count fp2 = Inr (ns2, fp', m')"
    and ns: "ns = \<lparr>startbit = sb, nmap = mp\<rparr> # ns2"
    unfolding m by (auto simp: rbind_eq_Inr split: if_splits)
  from Suc.IH[OF rest Suc.prems(2,3)] have ih: "wf_nodes ns2" "\<forall>n \<in> set ns2. sb < startbit n"
    "length ns2 = count" "ns2 = [] \<Longrightarrow> unat sb + 64 = unat hb"
    "ns2 \<noteq> [] \<Longrightarrow> unat (startbit (last ns2)) + 64 = unat hb"
    by auto
  have "unat (sb + 64) = unat sb + 64"
    using sb(2) Suc.prems(2,3) by (simp add: unat_word_ariths)
  then have nz: "sb + 64 \<noteq> 0" by (metis add_is_0 unat_0 zero_neq_numeral)
  have above: "\<forall>n \<in> set ns. case l of None \<Rightarrow> True | Some s \<Rightarrow> s < startbit n"
    using sb(4) ih(2) by (auto simp: ns not_le split: option.splits intro: less_trans)
  show ?case
    using sb ih nz above by (auto simp: ns wf_nodes_Cons node_ok_def aligned_def split: option.splits)
qed

lemma ebitmap_read_wf:
  assumes "ebitmap_read m fp = Inr (e, fp', m')"
  shows "wf_ebitmap e"
proof -
  from assms obtain mapsize hb count fp1 where hd: "read_header fp = Inr ((mapsize, hb, count), fp1)"
    by (auto simp: ebitmap_read_def rbind_eq_Inr)
  show ?thesis
  proof (cases "hb = 0")
    case True
    with assms hd show ?thesis
      by (auto simp: ebitmap_read_def wf_ebitmap_def nodes_end_def split: if_splits)
  next
    case False
    from assms hd False obtain ns where al: "hb AND 63 = 0" and c: "count \<noteq> 0"
      and ns: "read_nodes m hb None (unat count) fp1 = Inr (ns, fp', m')"
      and e: "e = \<lparr>node = ns, highbit = hb\<rparr>"
      by (auto simp: ebitmap_read_def rbind_eq_Inr split: if_splits)
    have "aligned hb" using al by (simp add: aligned_def)
    then have "64 \<le> unat hb"
      using False unat_gt_0[of hb] unfolding aligned_iff by presburger
    from read_nodes_ok[OF ns unat_u32_bound this] have
      r: "wf_nodes ns" "length ns = unat count" "ns \<noteq> [] \<Longrightarrow> unat (startbit (last ns)) + 64 = unat hb"
      by auto
    from r(2) c have ne: "ns \<noteq> []" by (auto simp: unat_eq_zero)
    then have "unat (startbit (last ns) + 64) = unat (startbit (last ns)) + 64"
      using wf_nodes_node_ok[OF r(1), of "last ns"] node_end(1) by simp
    then have "hb = startbit (last ns) + 64"
      using r(3) ne by (simp add: word_unat_eq_iff)
    then show ?thesis using r(1) ne by (simp add: e wf_ebitmap_def nodes_end_def)
  qed
qed

section \<open>Writing\<close>

fun write_nodes :: "ebitmap_node list \<Rightarrow> policy_file \<Rightarrow> errcode + policy_file" where
  "write_nodes [] fp = Inr fp"
| "write_nodes (n # ns) fp =
     (case put_entry (cpu_to_le32 (startbit n)) 4 1 fp of
        (items, fp) \<Rightarrow>
          if items \<noteq> 1 then Inl EFAIL
          else (case put_entry (cpu_to_le64 (nmap n)) 8 1 fp of
            (items, fp) \<Rightarrow> if items \<noteq> 1 then Inl EFAIL else write_nodes ns fp))"

definition ebitmap_write :: "ebitmap \<Rightarrow> policy_file \<Rightarrow> errcode + policy_file" where
  "ebitmap_write e fp =
     (let count = of_nat (length (node e)) :: u32
      in case put_entry (cpu_to_le32 64 @ cpu_to_le32 (highbit e) @ cpu_to_le32 count) 4 3 fp of
        (items, fp) \<Rightarrow> if items \<noteq> 3 then Inl EFAIL else write_nodes (node e) fp)"

definition node_bytes :: "ebitmap_node \<Rightarrow> u8 list" where
  "node_bytes n = cpu_to_le32 (startbit n) @ cpu_to_le64 (nmap n)"

definition ebitmap_bytes :: "ebitmap \<Rightarrow> u8 list" where
  "ebitmap_bytes e =
     cpu_to_le32 64 @ cpu_to_le32 (highbit e) @ cpu_to_le32 (of_nat (length (node e))) @
     concat (map node_bytes (node e))"

lemma put_entry_mem:
  "ptype fp = PF_USE_MEMORY \<Longrightarrow> sz * n \<le> plen fp \<Longrightarrow> sz * n < 2 ^ 64 \<Longrightarrow>
     put_entry bs sz n fp = (n, fp\<lparr>out := out fp @ bs, plen := plen fp - sz * n\<rparr>)"
  by (simp add: put_entry_def)

lemma write_nodes_mem:
  "ptype fp = PF_USE_MEMORY \<Longrightarrow> 12 * length ns \<le> plen fp \<Longrightarrow>
     write_nodes ns fp =
       Inr (fp\<lparr>out := out fp @ concat (map node_bytes ns), plen := plen fp - 12 * length ns\<rparr>)"
  by (induction ns arbitrary: fp) (simp_all add: put_entry_mem node_bytes_def)

lemma ebitmap_write_mem:
  assumes "ptype fp = PF_USE_MEMORY" "length (ebitmap_bytes e) \<le> plen fp"
  shows "ebitmap_write e fp =
    Inr (fp\<lparr>out := out fp @ ebitmap_bytes e, plen := plen fp - length (ebitmap_bytes e)\<rparr>)"
proof -
  have "length (concat (map node_bytes ns)) = 12 * length ns" for ns
    by (induction ns) (simp_all add: node_bytes_def)
  then have len: "length (ebitmap_bytes e) = 12 + 12 * length (node e)"
    by (simp add: ebitmap_bytes_def)
  with assms show ?thesis
    by (simp add: ebitmap_write_def put_entry_mem write_nodes_mem Let_def)
       (simp add: ebitmap_bytes_def)
qed

section \<open>Round trip\<close>

lemma read_nodes_bytes:
  assumes "wf_nodes (p @ ns)" "unat hb < 4294967296" "p @ ns \<noteq> [] \<Longrightarrow> unat (startbit (last (p @ ns))) + 64 = unat hb"
    and "l = (if p = [] then None else Some (startbit (last p)))" "length ns \<le> m"
  shows "read_nodes m hb l (length ns) (mem_file (concat (map node_bytes ns) @ rest)) =
    Inr (ns, mem_file rest, m - length ns)"
  using assms
proof (induction ns arbitrary: p l m)
  case Nil
  then show ?case by (auto split: option.splits)
next
  case (Cons n ns)
  obtain m0 where m: "m = Suc m0" using Cons.prems(5) by (cases m) auto
  have wf: "wf_nodes (p @ n # ns)" using Cons.prems(1) .
  have ok: "node_ok n" using wf_nodes_node_ok[OF wf] by simp
  have al: "startbit n AND 63 = 0" and nz: "nmap n \<noteq> 0"
    using ok by (simp_all add: node_ok_def aligned_def)
  have "startbit n \<le> startbit (last (p @ n # ns))" by (rule wf_nodes_last[OF wf]) simp
  then have hb: "\<not> unat (startbit n) > unat hb - 64"
    using Cons.prems(3) by (simp add: word_facts)
  have prev: "\<not> (case l of None \<Rightarrow> False | Some s \<Rightarrow> startbit n \<le> s)"
  proof (cases "p = []")
    case False
    have "startbit (last p) < startbit n"
      using wf False by (auto simp: wf_nodes_def sorted_wrt_append)
    with False Cons.prems(4) show ?thesis by simp
  qed (use Cons.prems(4) in simp)
  have "read_nodes m0 hb (Some (startbit n)) (length ns)
      (mem_file (concat (map node_bytes ns) @ rest)) = Inr (ns, mem_file rest, m0 - length ns)"
    by (rule Cons.IH[of "p @ [n]"]) (use Cons.prems m in auto)
  with al nz hb prev m show ?case
    by (simp add: node_bytes_def[of n] del: not_less)
qed

lemma wf_length_bound:
  assumes "wf_nodes ns"
  shows "length ns < 4294967296"
proof -
  have "distinct (map startbit ns)"
    using assms by (auto simp: wf_nodes_def sorted_wrt_map intro!: sorted_less_distinct)
  then have "length ns = card (startbit ` set ns)" by (metis distinct_card length_map set_map)
  also have "\<dots> \<le> card (UNIV - {1 :: u32})"
  proof (rule card_mono)
    have "startbit n \<noteq> 1" if "n \<in> set ns" for n
    proof
      assume s: "startbit n = 1"
      have "aligned (startbit n)" using wf_nodes_node_ok[OF assms that] by (simp add: node_ok_def)
      then show False by (simp add: aligned_iff s)
    qed
    then show "startbit ` set ns \<subseteq> UNIV - {1}" by auto
  qed simp
  also have "\<dots> < 4294967296" by (simp add: card_Diff_subset card_word)
  finally show ?thesis .
qed

lemma ebitmap_roundtrip:
  assumes wf: "wf_ebitmap e" and m: "length (node e) \<le> m"
  shows "ebitmap_read m (mem_file (ebitmap_bytes e @ rest)) =
    Inr (e, mem_file rest, m - length (node e))"
proof -
  have wfn: "wf_nodes (node e)" and hb: "highbit e = nodes_end (node e)"
    using wf by (simp_all add: wf_ebitmap_def)
  let ?tail = "concat (map node_bytes (node e)) @ rest"
  let ?c = "of_nat (length (node e)) :: u32"
  have hd: "read_header (mem_file (ebitmap_bytes e @ rest)) =
      Inr ((64, highbit e, ?c), mem_file ?tail)"
  proof -
    have "next_entry (mem_file ((cpu_to_le32 64 @ cpu_to_le32 (highbit e) @ cpu_to_le32 ?c) @ ?tail))
        12 = Inr (cpu_to_le32 64 @ cpu_to_le32 (highbit e) @ cpu_to_le32 ?c, mem_file ?tail)"
      by (rule next_entry_mem) simp
    then show ?thesis by (simp add: read_header_def ebitmap_bytes_def)
  qed
  show ?thesis
  proof (cases "node e = []")
    case True
    then have "highbit e = 0" using hb by (simp add: nodes_end_def)
    then show ?thesis using True hd by (simp add: ebitmap_read_def)
  next
    case False
    have ok: "node_ok (last (node e))" using wf_nodes_node_ok[OF wfn] False by simp
    have end_eq: "unat (startbit (last (node e))) + 64 = unat (highbit e)"
      using node_end(1)[OF ok] hb False by (simp add: nodes_end_def)
    have "aligned (highbit e)"
      using aligned_add_64[of "startbit (last (node e))"] ok hb False
      by (simp add: node_ok_def nodes_end_def)
    then have al: "highbit e AND 63 = 0" by (simp add: aligned_def)
    have uc: "unat ?c = length (node e)" using wf_length_bound[OF wfn] by (simp add: unat_of_nat)
    then have c: "?c \<noteq> 0" using False by (metis length_0_conv unat_0)
    have nz: "highbit e \<noteq> 0" using end_eq by auto
    have "read_nodes m (highbit e) None (length (node e)) (mem_file ?tail) =
        Inr (node e, mem_file rest, m - length (node e))"
      by (rule read_nodes_bytes[of "[]"]) (use wfn end_eq m unat_u32_bound in auto)
    then show ?thesis using hd al c nz uc by (simp add: ebitmap_read_def)
  qed
qed

end
