(* ===== verification/Mls_Types.thy ===== *)
theory Mls_Types
  imports Ebitmap_IO
begin

text \<open>
  MLS levels, ranges and security contexts with the inline operations of
  \<^verbatim>\<open>include/sepol/policydb/mls_types.h\<close> and \<^verbatim>\<open>include/sepol/policydb/context.h\<close>. An operation
  that fills a destination structure returns it; on an error the callers destroy the
  destination, so its contents are not part of the result. The dominance relation is shown to
  be a partial order through the interface \<open>bitset\<close> of the bitmaps.
\<close>

section \<open>Levels and ranges\<close>

record mls_level =
  sens :: u32
  cat :: ebitmap

record mls_range =
  low :: mls_level
  high :: mls_level

text \<open>\<^verbatim>\<open>range->level[l]\<close>.\<close>

definition level :: "mls_range \<Rightarrow> nat \<Rightarrow> mls_level" where
  "level r l = (if l = 0 then low r else high r)"

definition set_level :: "mls_range \<Rightarrow> nat \<Rightarrow> mls_level \<Rightarrow> mls_range" where
  "set_level r l lev = (if l = 0 then r\<lparr>low := lev\<rparr> else r\<lparr>high := lev\<rparr>)"

definition mls_level_init :: mls_level where
  "mls_level_init = \<lparr>sens = 0, cat = ebitmap_init\<rparr>"

definition mls_level_destroy :: "mls_level \<Rightarrow> mls_level" where
  "mls_level_destroy lev = mls_level_init"

definition mls_level_cpy :: "mem \<Rightarrow> mls_level \<Rightarrow> errcode + mls_level \<times> mem" where
  "mls_level_cpy m src =
     (case ebitmap_cpy m (cat src) of
        Inl _ \<Rightarrow> Inl EFAIL
      | Inr (c, m') \<Rightarrow> Inr (\<lparr>sens = sens src, cat = c\<rparr>, m'))"

definition mls_level_eq :: "mls_level \<Rightarrow> mls_level \<Rightarrow> bool" where
  "mls_level_eq l1 l2 \<longleftrightarrow> sens l1 = sens l2 \<and> ebitmap_cmp (cat l1) (cat l2)"

definition mls_level_dom :: "mls_level \<Rightarrow> mls_level \<Rightarrow> bool" where
  "mls_level_dom l1 l2 \<longleftrightarrow> sens l1 \<ge> sens l2 \<and> ebitmap_contains (cat l1) (cat l2)"

definition mls_level_incomp :: "mls_level \<Rightarrow> mls_level \<Rightarrow> bool" where
  "mls_level_incomp l1 l2 \<longleftrightarrow> \<not> mls_level_dom l1 l2 \<and> \<not> mls_level_dom l2 l1"

definition mls_level_between :: "mls_level \<Rightarrow> mls_level \<Rightarrow> mls_level \<Rightarrow> bool" where
  "mls_level_between l1 l2 l3 \<longleftrightarrow> mls_level_dom l1 l2 \<and> mls_level_dom l3 l1"

definition mls_range_contains :: "mls_range \<Rightarrow> mls_range \<Rightarrow> bool" where
  "mls_range_contains r1 r2 \<longleftrightarrow>
     mls_level_dom (low r2) (low r1) \<and> mls_level_dom (high r1) (high r2)"

definition mls_range_init :: mls_range where
  "mls_range_init = \<lparr>low = mls_level_init, high = mls_level_init\<rparr>"

definition mls_range_destroy :: "mls_range \<Rightarrow> mls_range" where
  "mls_range_destroy r = \<lparr>low = mls_level_destroy (low r), high = mls_level_destroy (high r)\<rparr>"

definition mls_range_eq :: "mls_range \<Rightarrow> mls_range \<Rightarrow> bool" where
  "mls_range_eq r1 r2 \<longleftrightarrow> mls_level_eq (low r1) (low r2) \<and> mls_level_eq (high r1) (high r2)"

definition mls_range_cpy :: "mem \<Rightarrow> mls_range \<Rightarrow> errcode + mls_range \<times> mem" where
  "mls_range_cpy m src =
     (case mls_level_cpy m (low src) of
        Inl _ \<Rightarrow> Inl EFAIL
      | Inr (lo, m1) \<Rightarrow>
          (case mls_level_cpy m1 (high src) of
             Inl _ \<Rightarrow> Inl EFAIL
           | Inr (hi, m2) \<Rightarrow> Inr (\<lparr>low = lo, high = hi\<rparr>, m2)))"

definition mls_range_glblub :: "mem \<Rightarrow> mls_range \<Rightarrow> mls_range \<Rightarrow> errcode + mls_range \<times> mem" where
  "mls_range_glblub m r1 r2 =
     (if sens (high r1) < sens (low r2) \<or> sens (high r2) < sens (low r1) then Inl EINVAL
      else case ebitmap_and m (cat (low r1)) (cat (low r2)) of
        Inl _ \<Rightarrow> Inl EFAIL
      | Inr (c0, m1) \<Rightarrow>
          (case ebitmap_and m1 (cat (high r1)) (cat (high r2)) of
             Inl _ \<Rightarrow> Inl EFAIL
           | Inr (c1, m2) \<Rightarrow>
               Inr (\<lparr>low = \<lparr>sens = max (sens (low r1)) (sens (low r2)), cat = c0\<rparr>,
                     high = \<lparr>sens = min (sens (high r1)) (sens (high r2)), cat = c1\<rparr>\<rparr>, m2)))"

section \<open>Contexts\<close>

record context_struct =
  user :: u32
  role :: u32
  type :: u32
  range :: mls_range

definition context_init :: context_struct where
  "context_init = \<lparr>user = 0, role = 0, type = 0, range = mls_range_init\<rparr>"

definition mls_context_destroy :: "context_struct \<Rightarrow> context_struct" where
  "mls_context_destroy c = c\<lparr>range := mls_range_init\<rparr>"

definition context_destroy :: "context_struct \<Rightarrow> context_struct" where
  "context_destroy c = mls_context_destroy (c\<lparr>user := 0, role := 0, type := 0\<rparr>)"

definition mls_context_cpy ::
  "mem \<Rightarrow> context_struct \<Rightarrow> context_struct \<Rightarrow> errcode + context_struct \<times> mem" where
  "mls_context_cpy m dst src =
     (case mls_range_cpy m (range src) of
        Inl _ \<Rightarrow> Inl EFAIL
      | Inr (r, m') \<Rightarrow> Inr (dst\<lparr>range := r\<rparr>, m'))"

text \<open>Both levels of \<open>dst\<close> become the level \<open>lev\<close> of the source.\<close>

definition cpy_level_twice ::
  "mem \<Rightarrow> context_struct \<Rightarrow> mls_level \<Rightarrow> errcode + context_struct \<times> mem" where
  "cpy_level_twice m dst lev =
     rbind (ebitmap_cpy m (cat lev)) (\<lambda>(c0, m1).
     rbind (ebitmap_cpy m1 (cat lev)) (\<lambda>(c1, m2).
       Inr (dst\<lparr>range := \<lparr>low = \<lparr>sens = sens lev, cat = c0\<rparr>,
                          high = \<lparr>sens = sens lev, cat = c1\<rparr>\<rparr>\<rparr>, m2)))"

definition mls_context_cpy_low ::
  "mem \<Rightarrow> context_struct \<Rightarrow> context_struct \<Rightarrow> errcode + context_struct \<times> mem" where
  "mls_context_cpy_low m dst src = cpy_level_twice m dst (low (range src))"

definition mls_context_cpy_high ::
  "mem \<Rightarrow> context_struct \<Rightarrow> context_struct \<Rightarrow> errcode + context_struct \<times> mem" where
  "mls_context_cpy_high m dst src = cpy_level_twice m dst (high (range src))"

definition mls_context_glblub ::
  "mem \<Rightarrow> context_struct \<Rightarrow> context_struct \<Rightarrow> context_struct \<Rightarrow> errcode + context_struct \<times> mem" where
  "mls_context_glblub m dst c1 c2 =
     rbind (mls_range_glblub m (range c1) (range c2)) (\<lambda>(r, m'). Inr (dst\<lparr>range := r\<rparr>, m'))"

definition mls_context_cmp :: "context_struct \<Rightarrow> context_struct \<Rightarrow> bool" where
  "mls_context_cmp c1 c2 \<longleftrightarrow>
     mls_level_eq (low (range c1)) (low (range c2)) \<and>
     mls_level_eq (high (range c1)) (high (range c2))"

definition context_cpy :: "mem \<Rightarrow> context_struct \<Rightarrow> errcode + context_struct \<times> mem" where
  "context_cpy m src =
     mls_context_cpy m
       \<lparr>user = user src, role = role src, type = type src, range = mls_range_init\<rparr> src"

definition context_cmp :: "context_struct \<Rightarrow> context_struct \<Rightarrow> bool" where
  "context_cmp c1 c2 \<longleftrightarrow>
     user c1 = user c2 \<and> role c1 = role c2 \<and> type c1 = type c2 \<and> mls_context_cmp c1 c2"

section \<open>Well-formedness\<close>

definition wf_level :: "mls_level \<Rightarrow> bool" where
  "wf_level l \<longleftrightarrow> wf_ebitmap (cat l)"

definition wf_range :: "mls_range \<Rightarrow> bool" where
  "wf_range r \<longleftrightarrow> wf_level (low r) \<and> wf_level (high r)"

definition wf_context :: "context_struct \<Rightarrow> bool" where
  "wf_context c \<longleftrightarrow> wf_range (range c)"

text \<open>A valid range: the high level dominates the low one.\<close>

definition range_ok :: "mls_range \<Rightarrow> bool" where
  "range_ok r \<longleftrightarrow> wf_range r \<and> mls_level_dom (high r) (low r)"

lemma wf_level_init [simp]: "wf_level mls_level_init"
  by (simp add: wf_level_def mls_level_init_def)

lemma wf_range_init [simp]: "wf_range mls_range_init"
  by (simp add: wf_range_def mls_range_init_def)

lemma wf_context_init [simp]: "wf_context context_init"
  by (simp add: wf_context_def context_init_def)

section \<open>Dominance\<close>

lemma mls_level_eq_iff: "mls_level_eq l1 l2 \<longleftrightarrow> l1 = l2"
  by (cases l1; cases l2) (simp add: mls_level_eq_def eb.same_eq)

lemma mls_level_dom_refl: "wf_level l \<Longrightarrow> mls_level_dom l l"
  by (simp add: mls_level_dom_def wf_level_def eb.includes_refl)

lemma mls_level_dom_trans:
  "wf_level a \<Longrightarrow> wf_level b \<Longrightarrow> wf_level c \<Longrightarrow>
     mls_level_dom a b \<Longrightarrow> mls_level_dom b c \<Longrightarrow> mls_level_dom a c"
  using eb.includes_trans[of "cat a" "cat b" "cat c"]
  by (auto simp: mls_level_dom_def wf_level_def)

lemma mls_level_dom_antisym:
  "wf_level a \<Longrightarrow> wf_level b \<Longrightarrow> mls_level_dom a b \<Longrightarrow> mls_level_dom b a \<Longrightarrow> a = b"
  using eb.includes_antisym[of "cat a" "cat b"]
  by (cases a; cases b) (auto simp: mls_level_dom_def wf_level_def)

lemma mls_level_dom_iff:
  "wf_level a \<Longrightarrow> wf_level b \<Longrightarrow>
     mls_level_dom a b \<longleftrightarrow> sens b \<le> sens a \<and> ebits (cat b) \<subseteq> ebits (cat a)"
  by (simp add: mls_level_dom_def wf_level_def eb.includes_iff)

lemma mls_range_contains_trans:
  "wf_range r1 \<Longrightarrow> wf_range r2 \<Longrightarrow> wf_range r3 \<Longrightarrow>
     mls_range_contains r1 r2 \<Longrightarrow> mls_range_contains r2 r3 \<Longrightarrow> mls_range_contains r1 r3"
  by (auto simp: mls_range_contains_def wf_range_def intro: mls_level_dom_trans)

lemma mls_range_contains_between:
  "range_ok r1 \<Longrightarrow> range_ok r2 \<Longrightarrow> mls_range_contains r1 r2 \<Longrightarrow>
     mls_level_between (low r2) (low r1) (high r1) \<and> mls_level_between (high r2) (low r1) (high r1)"
  by (auto simp: range_ok_def wf_range_def mls_range_contains_def mls_level_between_def
      intro: mls_level_dom_trans)

lemma context_cmp_iff: "context_cmp c1 c2 \<longleftrightarrow> c1 = c2"
proof
  assume "context_cmp c1 c2"
  then show "c1 = c2"
    by (cases c1; cases c2; cases "range c1"; cases "range c2")
       (simp add: context_cmp_def mls_context_cmp_def mls_level_eq_iff)
qed (simp add: context_cmp_def mls_context_cmp_def mls_level_eq_iff)

section \<open>Copies\<close>

lemma mls_level_cpy_ok: "mls_level_cpy m l = Inr (l', m') \<Longrightarrow> l' = l"
  by (auto simp: mls_level_cpy_def dest: ebitmap_cpy_ok split: sum.splits)

lemma mls_range_cpy_ok: "mls_range_cpy m r = Inr (r', m') \<Longrightarrow> r' = r"
  by (auto simp: mls_range_cpy_def dest!: mls_level_cpy_ok split: sum.splits)

lemma mls_context_cpy_ok: "mls_context_cpy m d c = Inr (c', m') \<Longrightarrow> c' = d\<lparr>range := range c\<rparr>"
  by (auto simp: mls_context_cpy_def dest!: mls_range_cpy_ok split: sum.splits)

lemma context_cpy_ok: "context_cpy m c = Inr (c', m') \<Longrightarrow> c' = c"
  by (auto simp: context_cpy_def dest!: mls_context_cpy_ok)

lemma cpy_level_twice_ok:
  "cpy_level_twice m d lev = Inr (c, m') \<Longrightarrow> c = d\<lparr>range := \<lparr>low = lev, high = lev\<rparr>\<rparr>"
  by (auto simp: cpy_level_twice_def rbind_eq_Inr dest!: ebitmap_cpy_ok)

lemma cpy_level_twice_error: "cpy_level_twice m d lev = Inl err \<Longrightarrow> err = ENOMEM"
  by (auto simp: cpy_level_twice_def rbind_eq_Inl dest: ebitmap_cpy_error)

section \<open>Intersection of ranges\<close>

lemma mls_range_glblub_ok:
  assumes r: "range_ok r1" "range_ok r2" and g: "mls_range_glblub m r1 r2 = Inr (r, m')"
  shows "range_ok r"
    and "sens (low r) \<le> s \<and> s \<le> sens (high r) \<longleftrightarrow>
      (sens (low r1) \<le> s \<and> s \<le> sens (high r1)) \<and> (sens (low r2) \<le> s \<and> s \<le> sens (high r2))"
    and "ebits (cat (low r)) = ebits (cat (low r1)) \<inter> ebits (cat (low r2))"
    and "ebits (cat (high r)) = ebits (cat (high r1)) \<inter> ebits (cat (high r2))"
proof -
  from g obtain c0 m1 c1 where
    c0: "ebitmap_and m (cat (low r1)) (cat (low r2)) = Inr (c0, m1)"
    and c1: "ebitmap_and m1 (cat (high r1)) (cat (high r2)) = Inr (c1, m')"
    and rr: "r = \<lparr>low = \<lparr>sens = max (sens (low r1)) (sens (low r2)), cat = c0\<rparr>,
                  high = \<lparr>sens = min (sens (high r1)) (sens (high r2)), cat = c1\<rparr>\<rparr>"
    and dis: "\<not> sens (high r1) < sens (low r2)" "\<not> sens (high r2) < sens (low r1)"
    by (auto simp: mls_range_glblub_def split: if_splits sum.splits)
  have wf: "wf_ebitmap (cat (low r1))" "wf_ebitmap (cat (low r2))"
      "wf_ebitmap (cat (high r1))" "wf_ebitmap (cat (high r2))"
    using r by (auto simp: range_ok_def wf_range_def wf_level_def)
  note a0 = ebitmap_and_ok[OF wf(1,2) c0] and a1 = ebitmap_and_ok[OF wf(3,4) c1]
  have d: "sens (low r1) \<le> sens (high r1)" "ebits (cat (low r1)) \<subseteq> ebits (cat (high r1))"
      "sens (low r2) \<le> sens (high r2)" "ebits (cat (low r2)) \<subseteq> ebits (cat (high r2))"
    using r by (auto simp: range_ok_def wf_range_def mls_level_dom_iff)
  show "range_ok r"
    using a0 a1 d dis
    by (auto simp: rr range_ok_def wf_range_def wf_level_def mls_level_dom_def eb.includes_iff)
  show "sens (low r) \<le> s \<and> s \<le> sens (high r) \<longleftrightarrow>
      (sens (low r1) \<le> s \<and> s \<le> sens (high r1)) \<and> (sens (low r2) \<le> s \<and> s \<le> sens (high r2))"
    by (auto simp: rr)
  show "ebits (cat (low r)) = ebits (cat (low r1)) \<inter> ebits (cat (low r2))"
    and "ebits (cat (high r)) = ebits (cat (high r1)) \<inter> ebits (cat (high r2))"
    using a0 a1 by (simp_all add: rr)
qed

end
