(* ===== verification/Hashtab.thy ===== *)
theory Hashtab
  imports Sepol_Prelude "HOL-Library.Multiset"
begin

text \<open>
  The chained hash table of \<^verbatim>\<open>src/hashtab.c\<close>. The two function pointers of a table are
  arguments here: \<open>hv\<close> maps the current number of slots and a key to a slot, \<open>cmp\<close> is the
  three-way comparison that keeps every chain sorted. A table handle may be null (\<open>None\<close>).
  Reading a slot outside the table is unspecified, as it is in C; the invariant excludes it.

  The locale \<open>hashing\<close> states what a pair of callbacks has to provide; inside it the table is
  shown to be a finite map. \<^verbatim>\<open>Symtab\<close> interprets it with the callbacks of
  \<^verbatim>\<open>src/symtab.c\<close>.
\<close>

section \<open>Representation and operations\<close>

record ('k, 'd) hashtab_val =
  htable :: "('k \<times> 'd) list list"
  hsize :: u32
  nel :: u32

type_synonym ('k, 'd) hashtab = "('k, 'd) hashtab_val option"

definition hashtab_create :: "mem \<Rightarrow> u32 \<Rightarrow> ('k, 'd) hashtab \<times> mem" where
  "hashtab_create m sz =
     (case malloc m of
        None \<Rightarrow> (None, m)
      | Some m1 \<Rightarrow>
          (case malloc m1 of
             None \<Rightarrow> (None, m1)
           | Some m2 \<Rightarrow> (Some \<lparr>htable = replicate (unat sz) [], hsize = sz, nel = 0\<rparr>, m2)))"

text \<open>
  The doubling loop of \<^verbatim>\<open>hashtab_check_resize\<close>. Every round adds a trailing zero bit, so it
  takes at most 32 rounds whatever the size.
\<close>

definition doublings_to_0 :: "u32 \<Rightarrow> nat" where
  "doublings_to_0 s = (LEAST j. s * 2 ^ j = 0)"

lemma doublings_to_0_double:
  assumes "s * 2 \<noteq> (0 :: u32)"
  shows "doublings_to_0 (s * 2) < doublings_to_0 s"
proof -
  have "(2 :: u32) ^ 32 = 0" by simp
  then have z: "s * 2 ^ 32 = 0" by (simp only: mult_zero_right)
  have pos: "s * 2 ^ 0 \<noteq> 0" using assms by auto
  have "doublings_to_0 s = Suc (LEAST j. s * 2 ^ Suc j = 0)"
    unfolding doublings_to_0_def using Least_Suc[OF z pos] by simp
  moreover have "(LEAST j. s * 2 ^ Suc j = 0) = doublings_to_0 (s * 2)"
    by (simp add: doublings_to_0_def mult.assoc)
  ultimately show ?thesis by simp
qed

function grow_size :: "u32 \<Rightarrow> u32 \<Rightarrow> u32" where
  "grow_size n new_size =
     (if new_size \<le> n \<and> new_size * 2 \<noteq> 0 then grow_size n (new_size * 2) else new_size)"
  by pat_completeness auto
termination
  by (relation "measure (\<lambda>(n, s). doublings_to_0 s)") (auto simp: doublings_to_0_double)

declare grow_size.simps [simp del]

fun chain_insert :: "('k \<Rightarrow> 'k \<Rightarrow> int) \<Rightarrow> 'k \<Rightarrow> 'd \<Rightarrow> ('k \<times> 'd) list \<Rightarrow> ('k \<times> 'd) list" where
  "chain_insert cmp k d [] = [(k, d)]"
| "chain_insert cmp k d ((k', d') # r) =
     (if cmp k k' > 0 then (k', d') # chain_insert cmp k d r else (k, d) # (k', d') # r)"

fun move_chain ::
  "(u32 \<Rightarrow> 'k \<Rightarrow> u32) \<Rightarrow> ('k \<Rightarrow> 'k \<Rightarrow> int) \<Rightarrow> u32 \<Rightarrow> ('k \<times> 'd) list list
     \<Rightarrow> ('k \<times> 'd) list \<Rightarrow> ('k \<times> 'd) list list" where
  "move_chain hv cmp sz new [] = new"
| "move_chain hv cmp sz new ((k, d) # r) =
     (let i = unat (hv sz k)
      in move_chain hv cmp sz (new[i := chain_insert cmp k d (new ! i)]) r)"

definition hashtab_check_resize ::
  "(u32 \<Rightarrow> 'k \<Rightarrow> u32) \<Rightarrow> ('k \<Rightarrow> 'k \<Rightarrow> int) \<Rightarrow> mem \<Rightarrow> ('k, 'd) hashtab_val
     \<Rightarrow> ('k, 'd) hashtab_val \<times> mem" where
  "hashtab_check_resize hv cmp m h =
     (let new_size = grow_size (nel h) (hsize h)
      in if hsize h = new_size then (h, m)
         else case malloc m of
           None \<Rightarrow> (h, m)
         | Some m' \<Rightarrow>
             (h\<lparr>hsize := new_size,
                htable := foldl (move_chain hv cmp new_size) (replicate (unat new_size) [])
                            (take (unat (hsize h)) (htable h))\<rparr>, m'))"

fun chain_put ::
  "('k \<Rightarrow> 'k \<Rightarrow> int) \<Rightarrow> mem \<Rightarrow> 'k \<Rightarrow> 'd \<Rightarrow> ('k \<times> 'd) list
     \<Rightarrow> errcode + ('k \<times> 'd) list \<times> mem" where
  "chain_put cmp m k d [] =
     (case malloc m of None \<Rightarrow> Inl ENOMEM | Some m' \<Rightarrow> Inr ([(k, d)], m'))"
| "chain_put cmp m k d ((k', d') # r) =
     (if cmp k k' > 0 then
        (case chain_put cmp m k d r of
           Inl err \<Rightarrow> Inl err
         | Inr (r', m') \<Rightarrow> Inr ((k', d') # r', m'))
      else if cmp k k' = 0 then Inl EEXIST
      else case malloc m of
        None \<Rightarrow> Inl ENOMEM
      | Some m' \<Rightarrow> Inr ((k, d) # (k', d') # r, m'))"

text \<open>
  The result is the status (\<open>None\<close> for \<^verbatim>\<open>SEPOL_OK\<close>), the table and the budget: the table may
  have been resized before an error is found.
\<close>

definition hashtab_insert ::
  "(u32 \<Rightarrow> 'k \<Rightarrow> u32) \<Rightarrow> ('k \<Rightarrow> 'k \<Rightarrow> int) \<Rightarrow> mem \<Rightarrow> ('k, 'd) hashtab \<Rightarrow> 'k \<Rightarrow> 'd
     \<Rightarrow> errcode option \<times> ('k, 'd) hashtab \<times> mem" where
  "hashtab_insert hv cmp m h key datum =
     (case h of
        None \<Rightarrow> (Some ENOMEM, None, m)
      | Some h0 \<Rightarrow>
          if nel h0 = 0xFFFFFFFF then (Some ENOMEM, h, m)
          else
            (case hashtab_check_resize hv cmp m h0 of
               (h1, m1) \<Rightarrow>
                 (let hvalue = unat (hv (hsize h1) key)
                  in case chain_put cmp m1 key datum (htable h1 ! hvalue) of
                       Inl err \<Rightarrow> (Some err, Some h1, m1)
                     | Inr (c, m2) \<Rightarrow>
                         (None, Some (h1\<lparr>htable := (htable h1)[hvalue := c], nel := nel h1 + 1\<rparr>),
                          m2))))"

fun chain_remove ::
  "('k \<Rightarrow> 'k \<Rightarrow> int) \<Rightarrow> 'k \<Rightarrow> ('k \<times> 'd) list \<Rightarrow> (('k \<times> 'd) \<times> ('k \<times> 'd) list) option" where
  "chain_remove cmp k [] = None"
| "chain_remove cmp k ((k', d') # r) =
     (if cmp k k' > 0 then
        (case chain_remove cmp k r of
           None \<Rightarrow> None
         | Some (x, r') \<Rightarrow> Some (x, (k', d') # r'))
      else if cmp k k' = 0 then Some ((k', d'), r)
      else None)"

text \<open>Removal hands the removed key and datum to the caller's \<^verbatim>\<open>destroy\<close> callback.\<close>

definition hashtab_remove ::
  "(u32 \<Rightarrow> 'k \<Rightarrow> u32) \<Rightarrow> ('k \<Rightarrow> 'k \<Rightarrow> int) \<Rightarrow> ('k, 'd) hashtab \<Rightarrow> 'k
     \<Rightarrow> errcode + ('k \<times> 'd) \<times> ('k, 'd) hashtab" where
  "hashtab_remove hv cmp h key =
     (case h of
        None \<Rightarrow> Inl ENOENT
      | Some h0 \<Rightarrow>
          (let hvalue = unat (hv (hsize h0) key)
           in case chain_remove cmp key (htable h0 ! hvalue) of
                None \<Rightarrow> Inl ENOENT
              | Some (x, c) \<Rightarrow>
                  Inr (x, Some (h0\<lparr>htable := (htable h0)[hvalue := c], nel := nel h0 - 1\<rparr>))))"

fun chain_search :: "('k \<Rightarrow> 'k \<Rightarrow> int) \<Rightarrow> 'k \<Rightarrow> ('k \<times> 'd) list \<Rightarrow> 'd option" where
  "chain_search cmp k [] = None"
| "chain_search cmp k ((k', d') # r) =
     (if cmp k k' > 0 then chain_search cmp k r
      else if cmp k k' = 0 then Some d'
      else None)"

definition hashtab_search ::
  "(u32 \<Rightarrow> 'k \<Rightarrow> u32) \<Rightarrow> ('k \<Rightarrow> 'k \<Rightarrow> int) \<Rightarrow> ('k, 'd) hashtab \<Rightarrow> 'k \<Rightarrow> 'd option" where
  "hashtab_search hv cmp h key =
     (case h of
        None \<Rightarrow> None
      | Some h0 \<Rightarrow> chain_search cmp key (htable h0 ! unat (hv (hsize h0) key)))"

text \<open>
  \<^verbatim>\<open>hashtab_map\<close> with a callback that threads a state \<open>'s\<close> (its \<^verbatim>\<open>args\<close>) and stops the
  iteration with a non-zero status.
\<close>

fun map_chain :: "('k \<Rightarrow> 'd \<Rightarrow> 's \<Rightarrow> int \<times> 's) \<Rightarrow> ('k \<times> 'd) list \<Rightarrow> 's \<Rightarrow> int \<times> 's" where
  "map_chain apply [] s = (0, s)"
| "map_chain apply ((k, d) # r) s =
     (case apply k d s of (ret, s') \<Rightarrow> if ret \<noteq> 0 then (ret, s') else map_chain apply r s')"

fun map_slots :: "('k \<Rightarrow> 'd \<Rightarrow> 's \<Rightarrow> int \<times> 's) \<Rightarrow> ('k \<times> 'd) list list \<Rightarrow> 's \<Rightarrow> int \<times> 's" where
  "map_slots apply [] s = (0, s)"
| "map_slots apply (c # cs) s =
     (case map_chain apply c s of
        (ret, s') \<Rightarrow> if ret \<noteq> 0 then (ret, s') else map_slots apply cs s')"

definition hashtab_map ::
  "('k \<Rightarrow> 'd \<Rightarrow> 's \<Rightarrow> int \<times> 's) \<Rightarrow> ('k, 'd) hashtab \<Rightarrow> 's \<Rightarrow> int \<times> 's" where
  "hashtab_map apply h s =
     (case h of
        None \<Rightarrow> (0, s)
      | Some h0 \<Rightarrow> map_slots apply (take (unat (hsize h0)) (htable h0)) s)"

text \<open>The numbers that \<^verbatim>\<open>hashtab_hash_eval\<close> prints: slots used, longest chain, sum of squares.\<close>

fun chain_stats :: "('k \<times> 'd) list list \<Rightarrow> nat \<times> nat \<times> nat \<Rightarrow> nat \<times> nat \<times> nat" where
  "chain_stats [] s = s"
| "chain_stats (c # cs) (used, longest, squares) =
     chain_stats cs
       (if c \<noteq> [] then
          (used + 1, (if length c > longest then length c else longest),
           squares + length c * length c)
        else (used, longest, squares))"

definition hashtab_hash_eval :: "('k, 'd) hashtab_val \<Rightarrow> nat \<times> nat \<times> nat" where
  "hashtab_hash_eval h = chain_stats (take (unat (hsize h)) (htable h)) (0, 0, 0)"

text \<open>All entries in the order of the table.\<close>

definition entries :: "('k, 'd) hashtab_val \<Rightarrow> ('k \<times> 'd) list" where
  "entries h = concat (htable h)"

lemma map_chain_append:
  "map_chain f (xs @ ys) s =
     (case map_chain f xs s of (ret, s') \<Rightarrow> if ret \<noteq> 0 then (ret, s') else map_chain f ys s')"
  by (induction f xs s rule: map_chain.induct) (auto split: prod.splits)

lemma map_slots_concat: "map_slots f cs s = map_chain f (concat cs) s"
  by (induction f cs s rule: map_slots.induct) (auto simp: map_chain_append split: prod.splits)

text \<open>The entries that \<^verbatim>\<open>hashtab_map\<close> visits, in its order.\<close>

definition visited_entries :: "('k, 'd) hashtab_val option \<Rightarrow> ('k \<times> 'd) list" where
  "visited_entries h = (case h of None \<Rightarrow> [] | Some h \<Rightarrow> concat (take (unat (hsize h)) (htable h)))"

lemma hashtab_map_visited: "hashtab_map f h s = map_chain f (visited_entries h) s"
  by (cases h) (simp_all add: hashtab_map_def visited_entries_def map_slots_concat)

section \<open>The laws of the callbacks\<close>

locale hashing =
  fixes hv :: "u32 \<Rightarrow> 'k \<Rightarrow> u32"
    and cmp :: "'k \<Rightarrow> 'k \<Rightarrow> int"
    and valid_size :: "u32 \<Rightarrow> bool"
  assumes hv_less: "valid_size s \<Longrightarrow> hv s k < s"
    and valid_double: "valid_size s \<Longrightarrow> s * 2 \<noteq> 0 \<Longrightarrow> valid_size (s * 2)"
    and cmp_eq: "cmp a b = 0 \<longleftrightarrow> a = b"
    and cmp_swap: "0 < cmp a b \<longleftrightarrow> cmp b a < 0"
    and cmp_trans: "cmp a b < 0 \<Longrightarrow> cmp b c < 0 \<Longrightarrow> cmp a c < 0"
begin

definition chain_ok :: "('k \<times> 'd) list \<Rightarrow> bool" where
  "chain_ok c \<longleftrightarrow> sorted_wrt (\<lambda>a b. cmp (fst a) (fst b) < 0) c"

definition slots_ok :: "u32 \<Rightarrow> ('k \<times> 'd) list list \<Rightarrow> bool" where
  "slots_ok sz t \<longleftrightarrow> length t = unat sz \<and>
     (\<forall>i < length t. chain_ok (t ! i) \<and> (\<forall>(k, d) \<in> set (t ! i). unat (hv sz k) = i))"

definition wf :: "('k, 'd) hashtab_val \<Rightarrow> bool" where
  "wf h \<longleftrightarrow> valid_size (hsize h) \<and> slots_ok (hsize h) (htable h) \<and>
     unat (nel h) = length (entries h)"

definition lookup :: "('k, 'd) hashtab_val \<Rightarrow> 'k \<Rightarrow> 'd option" where
  "lookup h k = map_of (htable h ! unat (hv (hsize h) k)) k"

lemma hv_index: "valid_size s \<Longrightarrow> unat (hv s k) < unat s"
  using hv_less[of s k] by (simp add: word_facts)

lemma cmp_refl [simp]: "cmp k k = 0"
  by (simp add: cmp_eq)

lemma chain_ok_Nil [simp]: "chain_ok []"
  by (simp add: chain_ok_def)

lemma chain_ok_Cons:
  "chain_ok (x # c) \<longleftrightarrow> (\<forall>y \<in> set c. cmp (fst x) (fst y) < 0) \<and> chain_ok c"
  by (auto simp: chain_ok_def)

lemma cmp_less_irrefl: "cmp k k < 0 \<Longrightarrow> False"
  by simp

lemma cmp_less_neq: "cmp a b < 0 \<Longrightarrow> a \<noteq> b"
  by auto

lemma cmp_cases [case_names greater eq less]:
  assumes "0 < cmp a b \<Longrightarrow> cmp b a < 0 \<Longrightarrow> a \<noteq> b \<Longrightarrow> P" "a = b \<Longrightarrow> P"
    "cmp a b < 0 \<Longrightarrow> \<not> 0 < cmp a b \<Longrightarrow> cmp a b \<noteq> 0 \<Longrightarrow> a \<noteq> b \<Longrightarrow> P"
  shows P
proof -
  consider "0 < cmp a b" | "cmp a b = 0" | "cmp a b < 0" by linarith
  then show P
  proof cases
    case 1
    then show P using assms(1) cmp_swap[of a b] by fastforce
  next
    case 2
    then show P using assms(2) cmp_eq by simp
  next
    case 3
    then show P using assms(3) by fastforce
  qed
qed

lemma below_chain_None:
  assumes "chain_ok ((k', d') # r)" "cmp k k' < 0"
  shows "map_of ((k', d') # r) k = None" "\<forall>y \<in> set ((k', d') # r). cmp k (fst y) < 0"
proof -
  show below: "\<forall>y \<in> set ((k', d') # r). cmp k (fst y) < 0"
    using assms by (auto simp: chain_ok_Cons intro: cmp_trans)
  then have "k \<notin> fst ` set ((k', d') # r)"
    using cmp_less_irrefl by blast
  then show "map_of ((k', d') # r) k = None"
    by (simp only: map_of_eq_None_iff not_False_eq_True)
qed

lemma chain_search_map_of: "chain_ok c \<Longrightarrow> chain_search cmp k c = map_of c k"
proof (induction c)
  case (Cons x c)
  obtain k' d' where x: "x = (k', d')" by fastforce
  show ?case
  proof (cases rule: cmp_cases[of k k'])
    case less
    then show ?thesis using below_chain_None(1)[of k' d' c k] Cons.prems by (simp add: x)
  qed (use Cons in \<open>auto simp: x chain_ok_Cons dest: cmp_less_irrefl\<close>)
qed simp

lemma chain_ok_distinct: "chain_ok c \<Longrightarrow> distinct (map fst c)"
proof (induction c)
  case (Cons x c)
  then show ?case using cmp_less_irrefl by (auto simp: chain_ok_Cons)
qed simp

lemma chain_put_ok:
  "chain_put cmp m k d c = Inr (c', m') \<Longrightarrow> chain_ok c \<Longrightarrow>
     chain_ok c' \<and> mset c' = add_mset (k, d) (mset c) \<and> map_of c k = None"
proof (induction c arbitrary: c')
  case (Cons x c)
  obtain k' d' where x: "x = (k', d')" by fastforce
  show ?case
  proof (cases rule: cmp_cases[of k k'])
    case greater
    then obtain r where r: "chain_put cmp m k d c = Inr (r, m')" and c': "c' = x # r"
      using Cons.prems by (auto simp: x split: sum.splits)
    have ok: "chain_ok c" using Cons.prems by (simp add: chain_ok_Cons)
    note ih = Cons.IH[OF r ok]
    then have "set r = insert (k, d) (set c)" by (metis set_mset_add_mset_insert set_mset_mset)
    with ih greater Cons.prems show ?thesis
      by (auto simp: c' x chain_ok_Cons dest: cmp_less_irrefl)
  next
    case eq
    with Cons.prems show ?thesis by (simp add: x)
  next
    case less
    with Cons.prems below_chain_None[of k' d' c k] show ?thesis
      by (auto simp: x chain_ok_Cons[of "(k, d)"] split: option.splits)
  qed
qed (auto simp: chain_ok_Cons split: option.splits)

lemma chain_put_error:
  "chain_put cmp m k d c = Inl err \<Longrightarrow> chain_ok c \<Longrightarrow>
     (err = EEXIST \<and> map_of c k \<noteq> None) \<or> (err = ENOMEM \<and> m = 0 \<and> map_of c k = None)"
proof (induction c)
  case (Cons x c)
  obtain k' d' where x: "x = (k', d')" by fastforce
  show ?case
  proof (cases rule: cmp_cases[of k k'])
    case less
    then show ?thesis using below_chain_None(1)[of k' d' c k] Cons.prems
      by (auto simp: x split: option.splits)
  qed (use Cons in \<open>auto simp: x chain_ok_Cons dest: cmp_less_irrefl split: sum.splits\<close>)
qed (auto split: option.splits)

lemma chain_insert_ok:
  "chain_ok c \<Longrightarrow> k \<notin> fst ` set c \<Longrightarrow>
     chain_ok (chain_insert cmp k d c) \<and> mset (chain_insert cmp k d c) = add_mset (k, d) (mset c)"
proof (induction c)
  case (Cons x c)
  obtain k' d' where x: "x = (k', d')" by fastforce
  show ?case
  proof (cases rule: cmp_cases[of k k'])
    case greater
    have ih: "chain_ok (chain_insert cmp k d c)"
        "mset (chain_insert cmp k d c) = add_mset (k, d) (mset c)"
      using Cons by (auto simp: chain_ok_Cons)
    then have "set (chain_insert cmp k d c) = insert (k, d) (set c)"
      by (metis set_mset_add_mset_insert set_mset_mset)
    with ih greater Cons.prems show ?thesis by (auto simp: x chain_ok_Cons)
  next
    case eq
    with Cons.prems show ?thesis by (simp add: x)
  next
    case less
    with Cons.prems below_chain_None[of k' d' c k] show ?thesis
      by (auto simp: x chain_ok_Cons[of "(k, d)"])
  qed
qed (simp add: chain_ok_Cons)

lemma chain_remove_ok:
  "chain_remove cmp k c = Some (y, c') \<Longrightarrow> chain_ok c \<Longrightarrow>
     chain_ok c' \<and> fst y = k \<and> mset c = add_mset y (mset c')"
proof (induction c arbitrary: c')
  case (Cons x c)
  obtain k' d' where x: "x = (k', d')" by fastforce
  show ?case
  proof (cases rule: cmp_cases[of k k'])
    case greater
    then obtain r where r: "chain_remove cmp k c = Some (y, r)" and c': "c' = x # r"
      using Cons.prems by (auto simp: x split: option.splits)
    have ok: "chain_ok c" using Cons.prems by (simp add: chain_ok_Cons)
    note ih = Cons.IH[OF r ok]
    then have "set c = insert y (set r)" by (metis set_mset_add_mset_insert set_mset_mset)
    with ih Cons.prems show ?thesis by (auto simp: c' chain_ok_Cons)
  qed (use Cons.prems in \<open>auto simp: x chain_ok_Cons\<close>)
qed simp

lemma chain_remove_None:
  "chain_ok c \<Longrightarrow> chain_remove cmp k c = None \<longleftrightarrow> map_of c k = None"
proof (induction c)
  case (Cons x c)
  obtain k' d' where x: "x = (k', d')" by fastforce
  show ?case
  proof (cases rule: cmp_cases[of k k'])
    case less
    then show ?thesis using below_chain_None(1)[of k' d' c k] Cons.prems by (simp add: x)
  qed (use Cons in \<open>auto simp: x chain_ok_Cons dest: cmp_less_irrefl split: option.splits\<close>)
qed simp

text \<open>Slots: every entry sits in the slot of its key, so keys are unique across the table.\<close>

lemma slots_distinct_aux:
  assumes "\<forall>i < length t. chain_ok (t ! i) \<and> (\<forall>(k, d) \<in> set (t ! i). f k = i + off)"
  shows "distinct (map fst (concat t)) \<and> (\<forall>(k, d) \<in> set (concat t). off \<le> f k)"
  using assms
proof (induction t arbitrary: off)
  case (Cons c t)
  have hd: "chain_ok c" "\<forall>(k, d) \<in> set c. f k = off"
    using Cons.prems by (auto dest!: spec[of _ 0])
  have "\<forall>i < length t. chain_ok (t ! i) \<and> (\<forall>(k, d) \<in> set (t ! i). f k = i + Suc off)"
  proof (intro allI impI)
    fix i assume "i < length t"
    then show "chain_ok (t ! i) \<and> (\<forall>(k, d) \<in> set (t ! i). f k = i + Suc off)"
      using Cons.prems by (auto dest!: spec[of _ "Suc i"])
  qed
  from Cons.IH[OF this] hd chain_ok_distinct[OF hd(1)] show ?case by fastforce
qed simp

lemma slots_distinct: "slots_ok sz t \<Longrightarrow> distinct (map fst (concat t))"
  using slots_distinct_aux[of t "\<lambda>k. unat (hv sz k)" 0] by (simp add: slots_ok_def)

lemma slots_lookup:
  assumes "slots_ok sz t" "valid_size sz"
  shows "map_of (t ! unat (hv sz k)) k = Some d \<longleftrightarrow> (k, d) \<in> set (concat t)"
proof
  assume "map_of (t ! unat (hv sz k)) k = Some d"
  then have "(k, d) \<in> set (t ! unat (hv sz k))" by (rule map_of_SomeD)
  moreover have "unat (hv sz k) < length t" using assms hv_index by (simp add: slots_ok_def)
  ultimately show "(k, d) \<in> set (concat t)" by auto
next
  assume "(k, d) \<in> set (concat t)"
  then obtain c where "c \<in> set t" "(k, d) \<in> set c" by auto
  then obtain i where i: "i < length t" "(k, d) \<in> set (t ! i)" by (metis in_set_conv_nth)
  then have "unat (hv sz k) = i" "chain_ok (t ! i)" using assms(1) by (auto simp: slots_ok_def)
  with i chain_ok_distinct[of "t ! i"] show "map_of (t ! unat (hv sz k)) k = Some d"
    by (simp add: map_of_eq_Some_iff)
qed

lemma slots_chain: "slots_ok sz t \<Longrightarrow> valid_size sz \<Longrightarrow> chain_ok (t ! unat (hv sz k))"
  using hv_index by (simp add: slots_ok_def)

lemma mset_concat_update:
  "i < length t \<Longrightarrow> mset (concat (t[i := c])) + mset (t ! i) = mset (concat t) + mset c"
proof (induction t arbitrary: i)
  case (Cons a t)
  then show ?case by (cases i) (auto simp: ac_simps)
qed simp

lemma slots_update:
  assumes "slots_ok sz t" "chain_ok c" "\<forall>(k, d) \<in> set c. unat (hv sz k) = i"
  shows "slots_ok sz (t[i := c])"
proof -
  have "chain_ok (t[i := c] ! j) \<and> (\<forall>(k, d) \<in> set (t[i := c] ! j). unat (hv sz k) = j)"
    if "j < length t" for j
    using assms that by (cases "j = i") (simp_all add: slots_ok_def)
  then show ?thesis using assms(1) by (simp add: slots_ok_def)
qed

lemma move_chain_ok:
  assumes "slots_ok sz t" "valid_size sz" "distinct (map fst (c @ concat t))"
  shows "slots_ok sz (move_chain hv cmp sz t c) \<and>
    mset (concat (move_chain hv cmp sz t c)) = mset c + mset (concat t)"
  using assms
proof (induction c arbitrary: t)
  case (Cons x c)
  obtain k d where x: "x = (k, d)" by fastforce
  let ?i = "unat (hv sz k)" and ?c = "chain_insert cmp k d (t ! unat (hv sz k))"
  have i: "?i < length t" using Cons.prems hv_index by (simp add: slots_ok_def)
  then have sub: "set (t ! ?i) \<subseteq> set (concat t)" by (simp add: UN_upper)
  then have "k \<notin> fst ` set (t ! ?i)" using Cons.prems(3) by (auto simp: x)
  with slots_chain[OF Cons.prems(1,2)] have ins: "chain_ok ?c"
    "mset ?c = add_mset (k, d) (mset (t ! ?i))"
    using chain_insert_ok[of "t ! ?i" k d] by auto
  have set_c: "set ?c = insert (k, d) (set (t ! ?i))"
    using ins(2) by (metis set_mset_add_mset_insert set_mset_mset)
  have ok: "slots_ok sz (t[?i := ?c])"
    by (rule slots_update) (use Cons.prems(1) ins(1) set_c i in \<open>auto simp: slots_ok_def\<close>)
  have "mset (concat (t[?i := ?c])) = add_mset (k, d) (mset (concat t))"
    using mset_concat_update[OF i, of ?c] ins(2) by simp
  then have m: "mset (c @ concat (t[?i := ?c])) = mset ((x # c) @ concat t)" by (simp add: x)
  then have "distinct (map fst (c @ concat (t[?i := ?c])))"
    using Cons.prems(3) by (metis mset_eq_imp_distinct_iff mset_map)
  from Cons.IH[OF ok Cons.prems(2) this] m show ?case by (simp add: x Let_def)
qed simp

lemma move_all_eq: "foldl (move_chain hv cmp sz) t cs = move_chain hv cmp sz t (concat cs)"
proof -
  have app: "move_chain hv cmp sz t (a @ b) = move_chain hv cmp sz (move_chain hv cmp sz t a) b" for t a b
    by (induction a arbitrary: t) (auto simp: Let_def)
  show ?thesis by (induction cs arbitrary: t) (simp_all add: app)
qed

lemma grow_size_valid: "valid_size s \<Longrightarrow> valid_size (grow_size n s)"
proof (induction n s rule: grow_size.induct)
  case (1 n s)
  then show ?case using valid_double by (subst grow_size.simps) auto
qed

lemma wf_entries: "wf h \<Longrightarrow> lookup h k = Some d \<longleftrightarrow> (k, d) \<in> set (entries h)"
  using slots_lookup[of "hsize h" "htable h" k d] by (simp only: wf_def lookup_def entries_def)

lemma wf_same_entries:
  assumes "wf h" "wf h'" "mset (entries h') = mset (entries h)"
  shows "lookup h' = lookup h"
proof
  fix k
  have "set (entries h') = set (entries h)" using assms(3) by (rule mset_eq_setD)
  then have "lookup h' k = Some d \<longleftrightarrow> lookup h k = Some d" for d
    by (simp only: wf_entries[OF assms(1)] wf_entries[OF assms(2)])
  then show "lookup h' k = lookup h k" by (metis not_None_eq)
qed

lemma check_resize_ok:
  fixes h :: "('k, 'd) hashtab_val"
  assumes "wf h" "hashtab_check_resize hv cmp m h = (h', m')"
  shows "wf h'" "lookup h' = lookup h" "nel h' = nel h" "mset (entries h') = mset (entries h)"
    "hsize h' = hsize h \<or> hsize h' = grow_size (nel h) (hsize h)" "m = 0 \<Longrightarrow> m' = 0"
proof -
  let ?s = "grow_size (nel h) (hsize h)"
  have len: "take (unat (hsize h)) (htable h) = htable h"
    using assms(1) by (simp add: wf_def slots_ok_def)
  have v: "valid_size ?s" using assms(1) by (intro grow_size_valid) (simp add: wf_def)
  have empty: "slots_ok ?s (replicate (unat ?s) [])" by (simp add: slots_ok_def)
  have none: "concat (replicate (unat ?s) []) = ([] :: ('k \<times> 'd) list)"
    by (simp only: concat_replicate_trivial)
  have "distinct (map fst (concat (htable h)))"
    using assms(1) by (intro slots_distinct[of "hsize h"]) (simp add: wf_def)
  then have moved: "slots_ok ?s (move_chain hv cmp ?s (replicate (unat ?s) []) (concat (htable h)))"
    "mset (concat (move_chain hv cmp ?s (replicate (unat ?s) []) (concat (htable h)))) =
      mset (concat (htable h))"
    using move_chain_ok[OF empty v, of "concat (htable h)"] none by auto
  have len': "length (entries h') = length (entries h)" if "mset (entries h') = mset (entries h)"
    using that by (rule mset_eq_length)
  from assms(2) have "h' = h \<or> h' = h\<lparr>hsize := ?s, htable :=
      move_chain hv cmp ?s (replicate (unat ?s) []) (concat (htable h))\<rparr>"
    by (auto simp: hashtab_check_resize_def Let_def move_all_eq len split: if_splits option.splits)
  then show e: "mset (entries h') = mset (entries h)" and n: "nel h' = nel h"
    and w: "wf h'" and "hsize h' = hsize h \<or> hsize h' = ?s"
    using assms(1) moved v by (auto simp: wf_def entries_def dest: mset_eq_length)
  show "lookup h' = lookup h" by (rule wf_same_entries[OF assms(1) w e])
  show "m = 0 \<Longrightarrow> m' = 0"
    using assms(2) by (auto simp: hashtab_check_resize_def Let_def split: if_splits)
qed

text \<open>The operations as operations on a finite map.\<close>

lemma search_eq: "wf h \<Longrightarrow> hashtab_search hv cmp (Some h) k = lookup h k"
  using slots_chain[of "hsize h" "htable h" k]
  by (simp add: hashtab_search_def lookup_def wf_def chain_search_map_of)

lemma create_ok:
  assumes "hashtab_create m sz = (Some h, m')" "valid_size sz"
  shows "wf (h :: ('k, 'd) hashtab_val)" "lookup h = (\<lambda>_. None)"
proof -
  have h: "h = \<lparr>htable = replicate (unat sz) [], hsize = sz, nel = 0\<rparr>"
    using assms(1) by (auto simp: hashtab_create_def split: option.splits)
  show "wf h"
    using assms(2) by (simp add: h wf_def slots_ok_def entries_def concat_replicate_trivial)
  show "lookup h = (\<lambda>_. None)"
    using hv_index[OF assms(2)] by (simp add: h lookup_def fun_eq_iff)
qed

lemma lookup_of_entries:
  assumes "wf h" "wf h'" "set (entries h') = insert (k, d) (set (entries h))" "lookup h k = None"
  shows "lookup h' = (lookup h)(k \<mapsto> d)"
proof
  fix k'
  have "lookup h' k' = Some d' \<longleftrightarrow> ((lookup h)(k \<mapsto> d)) k' = Some d'" for d'
    using assms(3,4) wf_entries[OF assms(1), of k'] by (auto simp: wf_entries[OF assms(2)])
  then show "lookup h' k' = ((lookup h)(k \<mapsto> d)) k'" by (metis not_None_eq)
qed

lemma insert_cases:
  assumes wf: "wf h" and ins: "hashtab_insert hv cmp m (Some h) k d = (st, Some h', m')"
  shows "wf h'"
    and "st = None \<Longrightarrow> lookup h k = None \<and> lookup h' = (lookup h)(k \<mapsto> d)"
    and "st = Some err \<Longrightarrow> lookup h' = lookup h \<and>
      (err = EEXIST \<and> lookup h k \<noteq> None \<or> err = ENOMEM \<and> (m' = 0 \<or> nel h = 0xFFFFFFFF))"
proof -
  have "wf h' \<and> (st = None \<longrightarrow> lookup h k = None \<and> lookup h' = (lookup h)(k \<mapsto> d)) \<and>
    (\<forall>err. st = Some err \<longrightarrow> lookup h' = lookup h \<and>
      (err = EEXIST \<and> lookup h k \<noteq> None \<or> err = ENOMEM \<and> (m' = 0 \<or> nel h = 0xFFFFFFFF)))"
  proof (cases "nel h = 0xFFFFFFFF")
    case True
    with ins wf show ?thesis by (auto simp: hashtab_insert_def)
  next
    case False
    obtain h1 m1 where r: "hashtab_check_resize hv cmp m h = (h1, m1)" by fastforce
    note r1 = check_resize_ok[OF wf r]
    let ?i = "unat (hv (hsize h1) k)"
    have v: "valid_size (hsize h1)" and sl: "slots_ok (hsize h1) (htable h1)"
      and n1: "unat (nel h1) = length (entries h1)" using r1(1) by (simp_all add: wf_def)
    have ch: "chain_ok (htable h1 ! ?i)" using slots_chain[OF sl v] .
    have i: "?i < length (htable h1)" using sl v hv_index by (simp add: slots_ok_def)
    have lk: "map_of (htable h1 ! ?i) k = lookup h k" using r1(2) by (metis lookup_def)
    show ?thesis
    proof (cases "chain_put cmp m1 k d (htable h1 ! ?i)")
      case (Inl e)
      have "h' = h1" "st = Some e" "m' = m1"
        using ins False r Inl by (auto simp: hashtab_insert_def Let_def)
      with chain_put_error[OF Inl ch] r1 lk show ?thesis by auto
    next
      case (Inr c)
      obtain c' m2 where c: "c = (c', m2)" by fastforce
      have h': "h' = h1\<lparr>htable := (htable h1)[?i := c'], nel := nel h1 + 1\<rparr>" and st: "st = None"
        using ins False r Inr by (auto simp: hashtab_insert_def Let_def c)
      note put = chain_put_ok[OF Inr[unfolded c] ch]
      then have set_c: "set c' = insert (k, d) (set (htable h1 ! ?i))"
        by (metis set_mset_add_mset_insert set_mset_mset)
      have sl': "slots_ok (hsize h1) ((htable h1)[?i := c'])"
        by (rule slots_update[OF sl]) (use put set_c sl i in \<open>auto simp: slots_ok_def\<close>)
      have ms: "mset (entries h') = add_mset (k, d) (mset (entries h1))"
        using mset_concat_update[OF i, of c'] put by (simp add: h' entries_def)
      have "nel h1 < 0xFFFFFFFF"
        using False r1(3) unat_u32_bound[of "nel h1"]
        by (simp add: word_facts word_unat_eq_iff)
      then have "unat (nel h1 + 1) = Suc (unat (nel h1))" by (rule unat_inc_if_less)
      moreover have "length (entries h') = Suc (length (entries h1))"
        using ms by (metis size_add_mset size_mset)
      ultimately have w: "wf h'" using v sl' n1 by (simp add: h' wf_def)
      have "set (entries h') = insert (k, d) (set (entries h1))"
        using ms by (metis set_mset_add_mset_insert set_mset_mset)
      from lookup_of_entries[OF r1(1) w this] lk put r1(2) st w show ?thesis by auto
    qed
  qed
  then show "wf h'" "st = None \<Longrightarrow> lookup h k = None \<and> lookup h' = (lookup h)(k \<mapsto> d)"
    "st = Some err \<Longrightarrow> lookup h' = lookup h \<and>
      (err = EEXIST \<and> lookup h k \<noteq> None \<or> err = ENOMEM \<and> (m' = 0 \<or> nel h = 0xFFFFFFFF))"
    by auto
qed

lemma remove_ok:
  assumes wf: "wf h" and rm: "hashtab_remove hv cmp (Some h) k = Inr ((k', d), Some h')"
  shows "wf h'" and "k' = k" and "lookup h k = Some d" and "lookup h' = (lookup h)(k := None)"
proof -
  let ?i = "unat (hv (hsize h) k)"
  have v: "valid_size (hsize h)" and sl: "slots_ok (hsize h) (htable h)"
    and n: "unat (nel h) = length (entries h)" using wf by (simp_all add: wf_def)
  have ch: "chain_ok (htable h ! ?i)" using slots_chain[OF sl v] .
  have i: "?i < length (htable h)" using sl v hv_index by (simp add: slots_ok_def)
  from rm obtain c where c: "chain_remove cmp k (htable h ! ?i) = Some ((k', d), c)"
    and h': "h' = h\<lparr>htable := (htable h)[?i := c], nel := nel h - 1\<rparr>"
    by (auto simp: hashtab_remove_def Let_def split: option.splits)
  note cr = chain_remove_ok[OF c ch]
  then show k: "k' = k" by simp
  from cr have set_c: "set (htable h ! ?i) = insert (k', d) (set c)"
    by (metis set_mset_add_mset_insert set_mset_mset)
  have sl': "slots_ok (hsize h) ((htable h)[?i := c])"
    by (rule slots_update[OF sl]) (use cr set_c sl i in \<open>auto simp: slots_ok_def\<close>)
  have ms: "mset (entries h) = add_mset (k', d) (mset (entries h'))"
    using mset_concat_update[OF i, of c] cr by (simp add: h' entries_def)
  then have len: "length (entries h) = Suc (length (entries h'))"
    by (metis size_add_mset size_mset)
  then have "nel h \<noteq> 0" using n by auto
  then have "unat (nel h - 1) = unat (nel h) - 1" by (rule unat_minus_one)
  with v sl' n len show w: "wf h'" by (simp add: h' wf_def)
  have st: "set (entries h) = insert (k', d) (set (entries h'))"
    using ms by (metis set_mset_add_mset_insert set_mset_mset)
  then show ld: "lookup h k = Some d" using wf_entries[OF wf, of k d] k by simp
  have "distinct (map fst (entries h))" using slots_distinct[OF sl] by (simp add: entries_def)
  then have "distinct (map fst ((k', d) # entries h'))"
    using ms by (metis mset_eq_imp_distinct_iff mset.simps(2) mset_map)
  then have nk: "k \<notin> fst ` set (entries h')" using k by simp
  show "lookup h' = (lookup h)(k := None)"
  proof
    fix k2
    have "lookup h' k2 = Some d2 \<longleftrightarrow> ((lookup h)(k := None)) k2 = Some d2" for d2
      using wf_entries[OF wf, of k2 d2] wf_entries[OF w, of k2 d2] st nk k by (auto simp: image_iff)
    then show "lookup h' k2 = ((lookup h)(k := None)) k2" by (metis not_None_eq)
  qed
qed

lemma remove_error:
  assumes wf: "wf h" and rm: "hashtab_remove hv cmp (Some h) k = Inl err"
  shows "err = ENOENT" "lookup h k = None"
  using assms chain_remove_None[OF slots_chain, of "hsize h" "htable h" k]
  by (auto simp: hashtab_remove_def Let_def lookup_def wf_def split: option.splits)

lemma entries_distinct: "wf h \<Longrightarrow> distinct (map fst (entries h))"
  using slots_distinct[of "hsize h" "htable h"] by (simp add: wf_def entries_def)

lemma map_visits: "wf h \<Longrightarrow> hashtab_map f (Some h) s = map_chain f (entries h) s"
  by (simp add: hashtab_map_def map_slots_concat wf_def slots_ok_def entries_def)

end

end
