(* ===== verification/Symtab.thy ===== *)
theory Symtab
  imports Hashtab
begin

text \<open>
  The symbol tables of \<^verbatim>\<open>src/symtab.c\<close>: hash tables keyed by C strings (\<open>string\<close>, without the
  terminating NUL), with the string hash \<^verbatim>\<open>symhash\<close> and \<^verbatim>\<open>strcmp\<close>. The callbacks satisfy the
  laws of \<open>hashing\<close> for every table size that is a power of two, which is what the policy
  database creates its tables with.
\<close>

definition char_u32 :: "char \<Rightarrow> u32" where
  "char_u32 c = of_nat (of_char c)"

definition symhash_loop :: "string \<Rightarrow> u32 \<Rightarrow> u32" where
  "symhash_loop key hash = foldl (\<lambda>h c. (push_bit 5 h + h) XOR char_u32 c) hash key"

definition symhash :: "u32 \<Rightarrow> string \<Rightarrow> u32" where
  "symhash sz key = symhash_loop key 5381 AND (sz - 1)"

text \<open>\<^verbatim>\<open>strcmp\<close>: the difference of the first bytes that differ, the NUL counted as 0.\<close>

fun strcmp :: "string \<Rightarrow> string \<Rightarrow> int" where
  "strcmp [] [] = 0"
| "strcmp [] (b # bs) = -1"
| "strcmp (a # as) [] = 1"
| "strcmp (a # as) (b # bs) =
     (if a = b then strcmp as bs else of_char a - of_char b)"

definition symcmp :: "string \<Rightarrow> string \<Rightarrow> int" where
  "symcmp key1 key2 = strcmp key1 key2"

record 'd symtab =
  table :: "(string, 'd) hashtab"
  nprim :: u32

definition symtab_init :: "mem \<Rightarrow> u32 \<Rightarrow> errcode + 'd symtab \<times> mem" where
  "symtab_init m sz =
     (case hashtab_create m sz of
        (None, _) \<Rightarrow> Inl EFAIL
      | (Some h, m') \<Rightarrow> Inr (\<lparr>table = Some h, nprim = 0\<rparr>, m'))"

abbreviation sym_search :: "(string, 'd) hashtab \<Rightarrow> string \<Rightarrow> 'd option" where
  "sym_search \<equiv> hashtab_search symhash symcmp"

definition pow2_size :: "u32 \<Rightarrow> bool" where
  "pow2_size s \<longleftrightarrow> (\<exists>k < 32. s = 2 ^ k)"

lemma pow2_sizeI: "k < 32 \<Longrightarrow> pow2_size (2 ^ k)"
  by (auto simp: pow2_size_def)

lemma symhash_less: "pow2_size s \<Longrightarrow> symhash s key < s"
proof -
  assume "pow2_size s"
  then obtain k where k: "k < 32" "s = 2 ^ k" by (auto simp: pow2_size_def)
  have "symhash s key = take_bit k (symhash_loop key 5381)"
    by (simp add: symhash_def k(2) take_bit_eq_mask mask_eq_exp_minus_1)
  then have "unat (symhash s key) < 2 ^ k"
    by (simp add: unsigned_take_bit_eq)
  moreover have "unat s = 2 ^ k"
  proof -
    have "(2 :: nat) ^ k < 2 ^ 32" using k(1) by (rule power_strict_increasing) simp
    then have "unat (of_nat (2 ^ k) :: u32) = 2 ^ k" by (simp only: unat_of_nat) simp
    then show ?thesis by (simp add: k(2))
  qed
  ultimately show ?thesis by (simp add: word_facts)
qed

lemma pow2_size_double: "pow2_size s \<Longrightarrow> s * 2 \<noteq> 0 \<Longrightarrow> pow2_size (s * 2)"
proof -
  assume "pow2_size s" "s * 2 \<noteq> 0"
  then obtain k where k: "k < 32" "s = 2 ^ k" by (auto simp: pow2_size_def)
  then have e: "s * 2 = 2 ^ Suc k" by simp
  have "Suc k < 32"
  proof (rule ccontr)
    assume "\<not> Suc k < 32"
    then have "Suc k = 32" using k(1) by simp
    then have "s * 2 = 2 ^ 32" using e by (simp only:)
    then show False using \<open>s * 2 \<noteq> 0\<close> by simp
  qed
  with e show ?thesis unfolding pow2_size_def by blast
qed

lemma of_char_eq_int: "(of_char a :: int) = of_char b \<longleftrightarrow> a = b"
  by (rule of_char_eq_iff)

lemma strcmp_eq_0: "strcmp a b = 0 \<longleftrightarrow> a = b"
  by (induction a b rule: strcmp.induct) (auto simp: of_char_eq_int)

lemma strcmp_swap: "0 < strcmp a b \<longleftrightarrow> strcmp b a < 0"
  by (induction a b rule: strcmp.induct) auto

lemma strcmp_trans: "strcmp a b < 0 \<Longrightarrow> strcmp b c < 0 \<Longrightarrow> strcmp a c < 0"
proof (induction a b arbitrary: c rule: strcmp.induct)
  case (2 b bs)
  then show ?case by (cases c) auto
next
  case (4 a as b bs)
  then show ?case by (cases c) (auto split: if_splits)
qed auto

interpretation sym: hashing symhash symcmp pow2_size
  by unfold_locales
     (auto simp: symhash_less pow2_size_double symcmp_def strcmp_eq_0 strcmp_swap
       intro: strcmp_trans)

text \<open>A symbol table in use: a table exists and satisfies the hash table invariant.\<close>

definition wf_symtab :: "'d symtab \<Rightarrow> bool" where
  "wf_symtab s \<longleftrightarrow> (\<exists>h. table s = Some h \<and> sym.wf h)"

definition sym_map :: "'d symtab \<Rightarrow> string \<Rightarrow> 'd option" where
  "sym_map s = (case table s of None \<Rightarrow> Map.empty | Some h \<Rightarrow> sym.lookup h)"

lemma sym_search_eq: "wf_symtab s \<Longrightarrow> sym_search (table s) key = sym_map s key"
  by (auto simp: wf_symtab_def sym_map_def sym.search_eq)

lemma symtab_init_ok:
  assumes "symtab_init m sz = Inr (s, m')" "pow2_size sz"
  shows "wf_symtab s" "sym_map s = Map.empty" "nprim s = 0"
  using assms sym.create_ok[of m sz]
  by (auto simp: symtab_init_def wf_symtab_def sym_map_def split: prod.splits option.splits)

end
