(* ===== verification/Avtab.thy ===== *)
theory Avtab
  imports Policy_File
begin

text \<open>
  The access vector table of \<^verbatim>\<open>src/avtab.c\<close>: a hash table of rules keyed by source type,
  target type, class and rule kind. Chains are kept in ascending order of the first three
  fields; several nodes may share them, with different kinds or, for extended permissions and
  conditional rules, even with the same kind.

  A node pointer is the rest of the chain that starts at the node, so \<^verbatim>\<open>node->next\<close> is the tail
  and a null pointer the empty list. \<open>addr\<close> is the identity of a node (its number in the order
  of insertion): the conditional rule lists refer to the nodes of a table by it.
\<close>

section \<open>Representation\<close>

abbreviation (input) "AVTAB_ALLOWED \<equiv> 0x0001"
abbreviation (input) "AVTAB_AUDITALLOW \<equiv> 0x0002"
abbreviation (input) "AVTAB_AUDITDENY \<equiv> 0x0004"
abbreviation (input) "AVTAB_NEVERALLOW \<equiv> 0x0080"
abbreviation (input) "AVTAB_AV \<equiv> 0x0007"
abbreviation (input) "AVTAB_TRANSITION \<equiv> 0x0010"
abbreviation (input) "AVTAB_MEMBER \<equiv> 0x0020"
abbreviation (input) "AVTAB_CHANGE \<equiv> 0x0040"
abbreviation (input) "AVTAB_TYPE \<equiv> 0x0070"
abbreviation (input) "AVTAB_XPERMS_ALLOWED \<equiv> 0x0100"
abbreviation (input) "AVTAB_XPERMS_AUDITALLOW \<equiv> 0x0200"
abbreviation (input) "AVTAB_XPERMS_DONTAUDIT \<equiv> 0x0400"
abbreviation (input) "AVTAB_XPERMS_NEVERALLOW \<equiv> 0x0800"
abbreviation (input) "AVTAB_XPERMS \<equiv> 0x0700"
abbreviation (input) "AVTAB_ENABLED_OLD \<equiv> 0x80000000"
abbreviation (input) "AVTAB_ENABLED \<equiv> 0x8000"

record avtab_key =
  source_type :: u16
  target_type :: u16
  target_class :: u16
  specified :: u16

record avtab_extended_perms =
  xspecified :: u8
  driver :: u8
  perms :: "u32 list"

record avtab_datum =
  data :: u32
  xperms :: "avtab_extended_perms option"

record avtab_node =
  key :: avtab_key
  datum :: avtab_datum
  addr :: nat

record avtab =
  avtable :: "avtab_node list list option"
  avnel :: u32
  nslot :: u32
  avmask :: u32

section \<open>Hashing\<close>

text \<open>The macro \<^verbatim>\<open>mix\<close> and the function of \<^verbatim>\<open>MurmurHash3\<close>.\<close>

definition mix :: "u32 \<Rightarrow> u32 \<Rightarrow> u32" where
  "mix hash input =
     (let v = input * 0xcc9e2d51;
          v = push_bit 15 v OR drop_bit (32 - 15) v;
          v = v * 0x1b873593;
          hash = hash XOR v;
          hash = push_bit 13 hash OR drop_bit (32 - 13) hash
      in hash * 5 + 0xe6546b64)"

definition avtab_hash :: "avtab_key \<Rightarrow> u32 \<Rightarrow> u32" where
  "avtab_hash k msk =
     (let hash = mix (mix (mix 0 (ucast (target_class k))) (ucast (target_type k)))
                   (ucast (source_type k));
          hash = hash XOR drop_bit 16 hash;
          hash = hash * 0x85ebca6b;
          hash = hash XOR drop_bit 13 hash;
          hash = hash * 0xc2b2ae35;
          hash = hash XOR drop_bit 16 hash
      in hash AND msk)"

section \<open>Insertion\<close>

text \<open>\<^verbatim>\<open>specified & ~(AVTAB_ENABLED | AVTAB_ENABLED_OLD)\<close> on 16 bits.\<close>

definition rule_kind :: "u16 \<Rightarrow> u16" where
  "rule_kind s = s AND 0x7FFF"

definition same_triple :: "avtab_key \<Rightarrow> avtab_key \<Rightarrow> bool" where
  "same_triple k c \<longleftrightarrow> source_type k = source_type c \<and> target_type k = target_type c \<and>
     target_class k = target_class c"

text \<open>The three tests that end a scan: the key is before the node in the order of the chain.\<close>

definition key_before :: "avtab_key \<Rightarrow> avtab_key \<Rightarrow> bool" where
  "key_before k c \<longleftrightarrow>
     (if source_type k < source_type c then True
      else if source_type k = source_type c \<and> target_type k < target_type c then True
      else source_type k = source_type c \<and> target_type k = target_type c \<and>
           target_class k < target_class c)"

text \<open>
  The allocations of \<^verbatim>\<open>avtab_insert_node\<close>: the node, and a copy of the extended permissions
  (zeroed when the caller passes none).
\<close>

definition new_datum :: "mem \<Rightarrow> avtab_key \<Rightarrow> avtab_datum \<Rightarrow> (avtab_datum \<times> mem) option" where
  "new_datum m k d =
     (case malloc m of
        None \<Rightarrow> None
      | Some m1 \<Rightarrow>
          if specified k AND AVTAB_XPERMS \<noteq> 0 then
            (case malloc m1 of
               None \<Rightarrow> None
             | Some m2 \<Rightarrow>
                 Some (\<lparr>data = data d,
                        xperms = Some (case xperms d of
                          None \<Rightarrow> \<lparr>xspecified = 0, driver = 0, perms = replicate 8 0\<rparr>
                        | Some x \<Rightarrow> x)\<rparr>, m2))
          else Some (d, m1))"

definition next_addr :: "avtab_node list list \<Rightarrow> nat" where
  "next_addr t = length (concat t)"

text \<open>\<open>pre\<close> are the nodes up to \<^verbatim>\<open>prev\<close>, \<open>post\<close> the ones after it.\<close>

definition avtab_insert_node ::
  "mem \<Rightarrow> avtab \<Rightarrow> avtab_node list list \<Rightarrow> nat \<Rightarrow> avtab_node list \<Rightarrow> avtab_node list
     \<Rightarrow> avtab_key \<Rightarrow> avtab_datum \<Rightarrow> (avtab_node \<times> avtab \<times> mem) option" where
  "avtab_insert_node m h t hvalue pre post k d =
     (case new_datum m k d of
        None \<Rightarrow> None
      | Some (d', m') \<Rightarrow>
          (let n = \<lparr>key = k, datum = d', addr = next_addr t\<rparr>
           in Some (n, h\<lparr>avtable := Some (t[hvalue := pre @ n # post]), avnel := avnel h + 1\<rparr>, m')))"

text \<open>The scan of \<^verbatim>\<open>avtab_insert\<close>: where the new node goes, \<open>None\<close> for \<^verbatim>\<open>SEPOL_EEXIST\<close>.\<close>

fun insert_point ::
  "avtab_key \<Rightarrow> avtab_node list \<Rightarrow> (avtab_node list \<times> avtab_node list) option" where
  "insert_point k [] = Some ([], [])"
| "insert_point k (c # r) =
     (if same_triple k (key c) \<and> rule_kind (specified k) AND specified (key c) \<noteq> 0 then
        if rule_kind (specified k) AND AVTAB_XPERMS \<noteq> 0 then Some ([], c # r) else None
      else if key_before k (key c) then Some ([], c # r)
      else case insert_point k r of
        None \<Rightarrow> None
      | Some (pre, post) \<Rightarrow> Some (c # pre, post))"

definition avtab_insert ::
  "mem \<Rightarrow> avtab \<Rightarrow> avtab_key \<Rightarrow> avtab_datum \<Rightarrow> errcode + avtab \<times> mem" where
  "avtab_insert m h k d =
     (case avtable h of
        None \<Rightarrow> Inl ENOMEM
      | Some t \<Rightarrow>
          (let hvalue = unat (avtab_hash k (avmask h))
           in case insert_point k (t ! hvalue) of
                None \<Rightarrow> Inl EEXIST
              | Some (pre, post) \<Rightarrow>
                  (case avtab_insert_node m h t hvalue pre post k d of
                     None \<Rightarrow> Inl ENOMEM
                   | Some (_, h', m') \<Rightarrow> Inr (h', m'))))"

fun nonunique_point :: "avtab_key \<Rightarrow> avtab_node list \<Rightarrow> avtab_node list \<times> avtab_node list" where
  "nonunique_point k [] = ([], [])"
| "nonunique_point k (c # r) =
     (if same_triple k (key c) \<and> rule_kind (specified k) AND specified (key c) \<noteq> 0 then ([], c # r)
      else if key_before k (key c) then ([], c # r)
      else case nonunique_point k r of (pre, post) \<Rightarrow> (c # pre, post))"

definition avtab_insert_nonunique ::
  "mem \<Rightarrow> avtab \<Rightarrow> avtab_key \<Rightarrow> avtab_datum \<Rightarrow> (avtab_node \<times> avtab \<times> mem) option" where
  "avtab_insert_nonunique m h k d =
     (case avtable h of
        None \<Rightarrow> None
      | Some t \<Rightarrow>
          (let hvalue = unat (avtab_hash k (avmask h))
           in case nonunique_point k (t ! hvalue) of
                (pre, post) \<Rightarrow> avtab_insert_node m h t hvalue pre post k d))"

section \<open>Search\<close>

fun scan_chain :: "avtab_key \<Rightarrow> u16 \<Rightarrow> avtab_node list \<Rightarrow> avtab_node list" where
  "scan_chain k kind [] = []"
| "scan_chain k kind (c # r) =
     (if same_triple k (key c) \<and> kind AND specified (key c) \<noteq> 0 then c # r
      else if key_before k (key c) then []
      else scan_chain k kind r)"

definition avtab_search :: "avtab \<Rightarrow> avtab_key \<Rightarrow> avtab_datum option" where
  "avtab_search h k =
     (case avtable h of
        None \<Rightarrow> None
      | Some t \<Rightarrow>
          (case scan_chain k (rule_kind (specified k)) (t ! unat (avtab_hash k (avmask h))) of
             [] \<Rightarrow> None
           | c # _ \<Rightarrow> Some (datum c)))"

definition avtab_search_node :: "avtab \<Rightarrow> avtab_key \<Rightarrow> avtab_node list" where
  "avtab_search_node h k =
     (case avtable h of
        None \<Rightarrow> []
      | Some t \<Rightarrow> scan_chain k (rule_kind (specified k)) (t ! unat (avtab_hash k (avmask h))))"

definition avtab_search_node_next :: "avtab_node list \<Rightarrow> u16 \<Rightarrow> avtab_node list" where
  "avtab_search_node_next ptr spec =
     (case ptr of [] \<Rightarrow> [] | n # r \<Rightarrow> scan_chain (key n) (rule_kind spec) r)"

lemma scan_chain_length: "length (scan_chain k kind c) \<le> length c"
  by (induction k kind c rule: scan_chain.induct) auto

text \<open>
  The loop \<^verbatim>\<open>for (node = avtab_search_node(h, k); node; node = avtab_search_node_next(node,
  k->specified))\<close> that the users of the table run: the nodes it visits.
\<close>

function avtab_walk :: "u16 \<Rightarrow> avtab_node list \<Rightarrow> avtab_node list" where
  "avtab_walk spec [] = []"
| "avtab_walk spec (n # r) = n # avtab_walk spec (avtab_search_node_next (n # r) spec)"
  by pat_completeness auto
termination
  by (relation "measure (\<lambda>(_, c). length c)")
     (auto simp: avtab_search_node_next_def less_Suc_eq_le scan_chain_length)

section \<open>Creation, traversal, destruction\<close>

fun avmap_chain ::
  "(avtab_key \<Rightarrow> avtab_datum \<Rightarrow> 's \<Rightarrow> int \<times> 's) \<Rightarrow> avtab_node list \<Rightarrow> 's \<Rightarrow> int \<times> 's" where
  "avmap_chain apply [] s = (0, s)"
| "avmap_chain apply (c # r) s =
     (case apply (key c) (datum c) s of
        (ret, s') \<Rightarrow> if ret \<noteq> 0 then (ret, s') else avmap_chain apply r s')"

fun avmap_slots ::
  "(avtab_key \<Rightarrow> avtab_datum \<Rightarrow> 's \<Rightarrow> int \<times> 's) \<Rightarrow> avtab_node list list \<Rightarrow> 's \<Rightarrow> int \<times> 's" where
  "avmap_slots apply [] s = (0, s)"
| "avmap_slots apply (c # cs) s =
     (case avmap_chain apply c s of
        (ret, s') \<Rightarrow> if ret \<noteq> 0 then (ret, s') else avmap_slots apply cs s')"

definition avtab_map ::
  "avtab \<Rightarrow> (avtab_key \<Rightarrow> avtab_datum \<Rightarrow> 's \<Rightarrow> int \<times> 's) \<Rightarrow> 's \<Rightarrow> int \<times> 's" where
  "avtab_map h apply s =
     (case avtable h of
        None \<Rightarrow> (0, s)
      | Some t \<Rightarrow> avmap_slots apply (take (unat (nslot h)) t) s)"

definition avtab_init :: "avtab \<Rightarrow> avtab" where
  "avtab_init h = h\<lparr>avtable := None, avnel := 0\<rparr>"

definition avtab_destroy :: "avtab \<Rightarrow> avtab" where
  "avtab_destroy h =
     (case avtable h of
        None \<Rightarrow> h
      | Some t \<Rightarrow> h\<lparr>avtable := None, nslot := 0, avmask := 0\<rparr>)"

function width_of :: "u32 \<Rightarrow> nat \<Rightarrow> nat" where
  "width_of work shift = (if work \<noteq> 0 then width_of (drop_bit 1 work) (Suc shift) else shift)"
  by pat_completeness auto
termination
  by (relation "measure (\<lambda>(w, s). unat w)") (auto simp: drop_bit_1_less_self[simplified])

declare width_of.simps [simp del]

abbreviation (input) "MAX_AVTAB_HASH_BUCKETS \<equiv> 0x100000"

definition avtab_slots :: "u32 \<Rightarrow> u32" where
  "avtab_slots nrules =
     (let shift = width_of nrules 0;
          shift = (if shift > 2 then shift - 2 else shift);
          slots = push_bit shift 1
      in if slots > MAX_AVTAB_HASH_BUCKETS then MAX_AVTAB_HASH_BUCKETS else slots)"

definition avtab_alloc :: "mem \<Rightarrow> avtab \<Rightarrow> u32 \<Rightarrow> errcode + avtab \<times> mem" where
  "avtab_alloc m h nrules =
     (if nrules = 0 then Inr (h\<lparr>avnel := 0, nslot := 0, avmask := 0\<rparr>, m)
      else case malloc m of
        None \<Rightarrow> Inl EFAIL
      | Some m' \<Rightarrow>
          Inr (h\<lparr>avtable := Some (replicate (unat (avtab_slots nrules)) []), avnel := 0,
                 nslot := avtab_slots nrules, avmask := avtab_slots nrules - 1\<rparr>, m'))"

section \<open>Reading\<close>

abbreviation (input) "POLICYDB_VERSION_AVTAB \<equiv> 20"
abbreviation (input) "POLICYDB_VERSION_XPERMS_IOCTL \<equiv> 30"

definition spec_order :: "u16 list" where
  "spec_order = [AVTAB_ALLOWED, AVTAB_AUDITDENY, AVTAB_AUDITALLOW, AVTAB_TRANSITION,
     AVTAB_CHANGE, AVTAB_MEMBER, AVTAB_XPERMS_ALLOWED, AVTAB_XPERMS_AUDITALLOW,
     AVTAB_XPERMS_DONTAUDIT]"

text \<open>
  \<open>insertf\<close> is the caller's callback; its state \<open>'s\<close> holds the table and whatever its last
  argument points to.
\<close>

fun read_old_specs ::
  "(avtab_key \<Rightarrow> avtab_datum \<Rightarrow> 's \<Rightarrow> errcode + 's) \<Rightarrow> u16 list \<Rightarrow> u32 \<Rightarrow> u16 \<Rightarrow> u32 list
     \<Rightarrow> nat \<Rightarrow> avtab_key \<Rightarrow> 's \<Rightarrow> errcode + nat \<times> 's" where
  "read_old_specs insertf [] val enabled buf items k s = Inr (items, s)"
| "read_old_specs insertf (sp # sps) val enabled buf items k s =
     (if val AND ucast sp \<noteq> 0 then
        if items \<ge> length buf then Inl EFAIL
        else rbind (insertf (k\<lparr>specified := sp OR enabled\<rparr>)
                       \<lparr>data = buf ! items, xperms = None\<rparr> s)
               (read_old_specs insertf sps val enabled buf (Suc items) k)
      else read_old_specs insertf sps val enabled buf items k s)"

definition avtab_read_item_old ::
  "policy_file \<Rightarrow> (avtab_key \<Rightarrow> avtab_datum \<Rightarrow> 's \<Rightarrow> errcode + 's) \<Rightarrow> 's
     \<Rightarrow> errcode + policy_file \<times> 's" where
  "avtab_read_item_old fp insertf s =
     rbind (next_u32 fp) (\<lambda>(items2, fp).
       if items2 < 5 \<or> items2 > 8 then Inl EFAIL
       else rbind (next_u32s fp (unat items2)) (\<lambda>(buf, fp).
         if ucast (ucast (buf ! 0) :: u16) \<noteq> buf ! 0 then Inl EFAIL
         else if ucast (ucast (buf ! 1) :: u16) \<noteq> buf ! 1 then Inl EFAIL
         else if ucast (ucast (buf ! 2) :: u16) \<noteq> buf ! 2 then Inl EFAIL
         else
           (let val = buf ! 3;
                enabled = (if val AND AVTAB_ENABLED_OLD \<noteq> 0 then AVTAB_ENABLED else 0)
            in if val AND (AVTAB_AV OR AVTAB_TYPE) = 0 then Inl EFAIL
               else if val AND AVTAB_AV \<noteq> 0 \<and> val AND AVTAB_TYPE \<noteq> 0 then Inl EFAIL
               else rbind (read_old_specs insertf spec_order val enabled buf 4
                        \<lparr>source_type = ucast (buf ! 0), target_type = ucast (buf ! 1),
                         target_class = ucast (buf ! 2), specified = 0\<rparr> s)
                      (\<lambda>(items, s). if items \<noteq> unat items2 then Inl EFAIL else Inr (fp, s)))))"

definition popcount16 :: "u16 \<Rightarrow> nat" where
  "popcount16 w = length (filter (bit w) [0..<16])"

definition avtab_read_item ::
  "policy_file \<Rightarrow> u32 \<Rightarrow> (avtab_key \<Rightarrow> avtab_datum \<Rightarrow> 's \<Rightarrow> errcode + 's) \<Rightarrow> 's
     \<Rightarrow> errcode + policy_file \<times> 's" where
  "avtab_read_item fp vers insertf s =
     (if vers < POLICYDB_VERSION_AVTAB then avtab_read_item_old fp insertf s
      else rbind (next_u16s fp 4) (\<lambda>(buf16, fp).
        let k = \<lparr>source_type = buf16 ! 0, target_type = buf16 ! 1, target_class = buf16 ! 2,
                 specified = buf16 ! 3\<rparr>
        in if specified k AND NOT (AVTAB_AV OR AVTAB_TYPE OR AVTAB_XPERMS OR AVTAB_ENABLED) \<noteq> 0
           then Inl EFAIL
           else if popcount16 (specified k AND NOT AVTAB_ENABLED) \<noteq> 1 then Inl EFAIL
           else if vers < POLICYDB_VERSION_XPERMS_IOCTL \<and> specified k AND AVTAB_XPERMS \<noteq> 0
           then Inl EFAIL
           else if specified k AND AVTAB_XPERMS \<noteq> 0 then
             rbind (next_u8 fp) (\<lambda>(xs, fp).
             rbind (next_u8 fp) (\<lambda>(dr, fp).
             rbind (next_u32s fp 8) (\<lambda>(ps, fp).
             rbind (insertf k \<lparr>data = 0,
                 xperms = Some \<lparr>xspecified = xs, driver = dr, perms = ps\<rparr>\<rparr> s)
               (\<lambda>s. Inr (fp, s)))))
           else
             rbind (next_u32 fp) (\<lambda>(x, fp).
             rbind (insertf k \<lparr>data = x, xperms = None\<rparr> s) (\<lambda>s. Inr (fp, s)))))"

definition avtab_insertf :: "avtab_key \<Rightarrow> avtab_datum \<Rightarrow> avtab \<times> mem \<Rightarrow> errcode + avtab \<times> mem" where
  "avtab_insertf k d s = (case s of (a, m) \<Rightarrow> avtab_insert m a k d)"

fun read_items ::
  "nat \<Rightarrow> policy_file \<Rightarrow> u32 \<Rightarrow> avtab \<times> mem \<Rightarrow> errcode + policy_file \<times> avtab \<times> mem" where
  "read_items 0 fp vers s = Inr (fp, s)"
| "read_items (Suc n) fp vers s =
     rbind (avtab_read_item fp vers avtab_insertf s) (\<lambda>(fp, s). read_items n fp vers s)"

text \<open>Every failure destroys the table and is -1.\<close>

definition avtab_read ::
  "mem \<Rightarrow> avtab \<Rightarrow> policy_file \<Rightarrow> u32 \<Rightarrow> errcode + avtab \<times> policy_file \<times> mem" where
  "avtab_read m a fp vers =
     (case rbind (next_u32 fp) (\<lambda>(n, fp).
        if zero_or_saturated n \<or> exceeds_available_bytes fp (unat n) 12 then Inl EFAIL
        else rbind (avtab_alloc m a n) (read_items (unat n) fp vers)) of
        Inl _ \<Rightarrow> Inl EFAIL
      | Inr (fp, a, m) \<Rightarrow> Inr (a, fp, m))"

end
