(* ===== verification/Avtab_Props.thy ===== *)
theory Avtab_Props
  imports Avtab "HOL-Library.Multiset" "HOL-Library.Product_Lexorder"
begin

text \<open>
  Correctness of the access vector table: the chain order, what the searches find, what the
  insertions keep, and that every table the reader accepts satisfies the invariant.
\<close>

section \<open>The order of a chain\<close>

definition triple :: "avtab_key \<Rightarrow> u16 \<times> u16 \<times> u16" where
  "triple k = (source_type k, target_type k, target_class k)"

lemma key_before_triple: "key_before a b \<longleftrightarrow> triple a < triple b"
  by (auto simp: key_before_def triple_def less_prod_simp)

lemma same_triple_iff: "same_triple a b \<longleftrightarrow> triple a = triple b"
  by (simp add: same_triple_def triple_def)

lemmas triple_simps = key_before_triple same_triple_iff

lemma same_triple_sym: "same_triple a b \<longleftrightarrow> same_triple b a"
  by (auto simp: triple_simps)

lemma key_before_irrefl [simp]: "\<not> key_before k k"
  by (simp add: triple_simps)

lemma key_before_asym: "key_before a b \<Longrightarrow> \<not> key_before b a"
  by (simp add: triple_simps)

lemma key_before_same_left: "same_triple a b \<Longrightarrow> key_before a c \<longleftrightarrow> key_before b c"
  by (simp add: triple_simps)

lemma key_before_same_right: "same_triple a b \<Longrightarrow> key_before c a \<longleftrightarrow> key_before c b"
  by (simp add: triple_simps)

lemma not_before_trans: "\<not> key_before b a \<Longrightarrow> \<not> key_before c b \<Longrightarrow> \<not> key_before c a"
  by (simp add: triple_simps)

definition chain_sorted :: "avtab_node list \<Rightarrow> bool" where
  "chain_sorted c \<longleftrightarrow> sorted_wrt (\<lambda>a b. \<not> key_before (key b) (key a)) c"

lemma chain_sorted_Nil [simp]: "chain_sorted []"
  by (simp add: chain_sorted_def)

lemma chain_sorted_Cons:
  "chain_sorted (a # c) \<longleftrightarrow> (\<forall>b \<in> set c. \<not> key_before (key b) (key a)) \<and> chain_sorted c"
  by (simp add: chain_sorted_def)

section \<open>Search\<close>

text \<open>A rule answers a key if the triples agree and the kinds overlap.\<close>

definition answers :: "avtab_key \<Rightarrow> avtab_node \<Rightarrow> bool" where
  "answers k n \<longleftrightarrow> same_triple k (key n) \<and> rule_kind (specified k) AND specified (key n) \<noteq> 0"

lemma before_sorted_no_triple:
  "chain_sorted (c # r) \<Longrightarrow> key_before k (key c) \<Longrightarrow> n \<in> set (c # r) \<Longrightarrow> \<not> same_triple k (key n)"
  by (auto simp: chain_sorted_Cons triple_simps)

lemma scan_chain_filter:
  "chain_sorted c \<Longrightarrow> scan_chain k kind c =
     dropWhile (\<lambda>n. \<not> (same_triple k (key n) \<and> kind AND specified (key n) \<noteq> 0)) c"
proof (induction c)
  case (Cons a c)
  show ?case
  proof (cases "key_before k (key a)")
    case True
    then have "\<forall>n \<in> set (a # c). \<not> same_triple k (key n)"
      using before_sorted_no_triple Cons.prems by blast
    then have "dropWhile (\<lambda>n. \<not> (same_triple k (key n) \<and> kind AND specified (key n) \<noteq> 0)) (a # c) = []"
      unfolding dropWhile_eq_Nil_conv by blast
    moreover have "\<not> same_triple k (key a)"
      using \<open>\<forall>n \<in> set (a # c). \<not> same_triple k (key n)\<close> by simp
    ultimately show ?thesis using True by (simp only: scan_chain.simps if_False if_True simp_thms)
  next
    case False
    with Cons show ?thesis by (auto simp: chain_sorted_Cons)
  qed
qed simp

lemma chain_sorted_suffix: "chain_sorted (p @ c) \<Longrightarrow> chain_sorted c"
  by (simp add: chain_sorted_def sorted_wrt_append)

lemma dropWhile_Cons_split:
  "dropWhile P c = n # r \<Longrightarrow> \<exists>p. c = p @ n # r \<and> (\<forall>x \<in> set p. P x) \<and> \<not> P n"
  by (metis dropWhile_eq_Cons_conv set_takeWhileD takeWhile_dropWhile_id)

lemma walk_filter:
  assumes "chain_sorted c"
  shows "avtab_walk (specified k) (scan_chain k (rule_kind (specified k)) c) =
    filter (answers k) c"
  using assms
proof (induction "length c" arbitrary: c rule: less_induct)
  case less
  let ?P = "\<lambda>n. \<not> (same_triple k (key n) \<and> rule_kind (specified k) AND specified (key n) \<noteq> 0)"
  have eq: "scan_chain k (rule_kind (specified k)) c = dropWhile ?P c"
    using less.prems by (rule scan_chain_filter)
  show ?case
  proof (cases "dropWhile ?P c")
    case Nil
    then have "filter (answers k) c = []"
      by (auto simp: dropWhile_eq_Nil_conv answers_def filter_empty_conv)
    with Nil eq show ?thesis by (simp only: avtab_walk.simps)
  next
    case (Cons n r)
    from dropWhile_Cons_split[OF this] obtain p where p: "c = p @ n # r"
      "\<forall>x \<in> set p. ?P x" "\<not> ?P n" by blast
    have sr: "chain_sorted r"
      using less.prems chain_sorted_suffix[of "p @ [n]" r] by (simp add: p(1))
    have same: "same_triple k (key n)" using p(3) by simp
    have "scan_chain (key n) kind r = scan_chain k kind r" for kind
      using scan_chain_filter[OF sr] same
      by (simp add: same_triple_def)
    then have "avtab_walk (specified k) (n # r) =
        n # avtab_walk (specified k) (scan_chain k (rule_kind (specified k)) r)"
      by (simp add: avtab_search_node_next_def)
    also have "\<dots> = n # filter (answers k) r"
      using less.hyps[OF _ sr] p(1) by simp
    also have "\<dots> = filter (answers k) c"
      using p(2,3) by (auto simp: p(1) answers_def filter_empty_conv)
    finally show ?thesis by (simp only: eq Cons)
  qed
qed

section \<open>The invariant of a table\<close>

definition av_slots_ok :: "u32 \<Rightarrow> avtab_node list list \<Rightarrow> bool" where
  "av_slots_ok msk t \<longleftrightarrow> (\<forall>i < length t. chain_sorted (t ! i) \<and>
     (\<forall>n \<in> set (t ! i). unat (avtab_hash (key n) msk) = i))"

definition wf_avtab :: "avtab \<Rightarrow> bool" where
  "wf_avtab h \<longleftrightarrow>
     (case avtable h of
        None \<Rightarrow> True
      | Some t \<Rightarrow> length t = unat (nslot h) \<and> (\<exists>k \<le> 20. nslot h = 2 ^ k) \<and>
          avmask h = nslot h - 1 \<and> av_slots_ok (avmask h) t \<and>
          avnel h = of_nat (length (concat t)))"

lemma wf_avtab_slots: "wf_avtab h \<Longrightarrow> avtable h = Some t \<Longrightarrow> av_slots_ok (avmask h) t"
proof -
  assume wf: "wf_avtab h" and t: "avtable h = Some t"
  have "case Some t of None \<Rightarrow> True | Some t \<Rightarrow> av_slots_ok (avmask h) t"
    using wf unfolding wf_avtab_def t option.case by (elim conjE)
  then show ?thesis by simp
qed

text \<open>The nodes of a table, in the order of a traversal.\<close>

definition av_nodes :: "avtab \<Rightarrow> avtab_node list" where
  "av_nodes h = (case avtable h of None \<Rightarrow> [] | Some t \<Rightarrow> concat t)"

lemma unat_pow2_u32: "k < 32 \<Longrightarrow> unat (2 ^ k :: u32) = 2 ^ k"
proof -
  assume "k < 32"
  then have "(2 :: nat) ^ k < 2 ^ 32" by (rule power_strict_increasing) simp
  then have "unat (of_nat (2 ^ k) :: u32) = 2 ^ k" by (simp only: unat_of_nat) simp
  then show ?thesis by simp
qed

lemma and_mask_less: "k < 32 \<Longrightarrow> unat (x AND (2 ^ k - 1) :: u32) < 2 ^ k"
proof -
  assume "k < 32"
  have "x AND (2 ^ k - 1) = take_bit k x" by (simp add: take_bit_eq_mask mask_eq_exp_minus_1)
  then show ?thesis by (simp add: unsigned_take_bit_eq)
qed

lemma avtab_hash_index:
  assumes "wf_avtab h" "avtable h = Some t"
  shows "unat (avtab_hash k (avmask h)) < length t"
proof -
  from assms obtain j where j: "j \<le> 20" "nslot h = 2 ^ j" "avmask h = 2 ^ j - 1"
    "length t = unat (nslot h)" by (auto simp: wf_avtab_def)
  then have "length t = 2 ^ j" using unat_pow2_u32[of j] by simp
  then show ?thesis using j and_mask_less[of j] by (simp add: avtab_hash_def Let_def)
qed

lemma avtab_hash_same_triple: "same_triple k k' \<Longrightarrow> avtab_hash k msk = avtab_hash k' msk"
  by (simp add: same_triple_def avtab_hash_def)

lemma avtab_hash_specified [simp]: "avtab_hash (k\<lparr>specified := s\<rparr>) msk = avtab_hash k msk"
  by (simp add: avtab_hash_def)

lemma slots_answer:
  assumes "av_slots_ok msk t" "unat (avtab_hash k msk) < length t"
  shows "n \<in> set (t ! unat (avtab_hash k msk)) \<and> answers k n \<longleftrightarrow>
    n \<in> set (concat t) \<and> answers k n"
proof
  assume r: "n \<in> set (concat t) \<and> answers k n"
  then obtain c where "c \<in> set t" "n \<in> set c" by auto
  then obtain i where i: "i < length t" "n \<in> set (t ! i)" by (metis in_set_conv_nth)
  then have "unat (avtab_hash (key n) msk) = i" using assms(1) by (auto simp: av_slots_ok_def)
  moreover have "avtab_hash (key n) msk = avtab_hash k msk"
    using r by (auto simp: answers_def intro: avtab_hash_same_triple same_triple_sym[THEN iffD1])
  ultimately show "n \<in> set (t ! unat (avtab_hash k msk)) \<and> answers k n" using i r by simp
qed (use assms(2) in auto)

lemma avtab_walk_nodes:
  assumes "wf_avtab h"
  shows "set (avtab_walk (specified k) (avtab_search_node h k)) =
    {n \<in> set (av_nodes h). answers k n}"
proof (cases "avtable h")
  case None
  then show ?thesis by (simp add: avtab_search_node_def av_nodes_def)
next
  case (Some t)
  have i: "unat (avtab_hash k (avmask h)) < length t" by (rule avtab_hash_index[OF assms Some])
  have ok: "av_slots_ok (avmask h) t" by (rule wf_avtab_slots[OF assms Some])
  then have "chain_sorted (t ! unat (avtab_hash k (avmask h)))" using i by (simp add: av_slots_ok_def)
  then have "avtab_walk (specified k) (avtab_search_node h k) =
      filter (answers k) (t ! unat (avtab_hash k (avmask h)))"
    using walk_filter by (simp add: avtab_search_node_def Some)
  then show ?thesis using slots_answer[OF ok i] by (auto simp: av_nodes_def Some)
qed

lemma avtab_search_node_Nil:
  assumes "wf_avtab h"
  shows "avtab_search_node h k = [] \<longleftrightarrow> (\<forall>n \<in> set (av_nodes h). \<not> answers k n)"
proof -
  have "avtab_search_node h k = [] \<longleftrightarrow> avtab_walk (specified k) (avtab_search_node h k) = []"
    by (cases "avtab_search_node h k") simp_all
  also have "\<dots> \<longleftrightarrow> {n \<in> set (av_nodes h). answers k n} = {}"
    using avtab_walk_nodes[OF assms, of k] by (metis set_empty)
  finally show ?thesis by auto
qed

lemma avtab_search_eq:
  "avtab_search h k = (case avtab_search_node h k of [] \<Rightarrow> None | n # _ \<Rightarrow> Some (datum n))"
  by (simp add: avtab_search_def avtab_search_node_def split: option.splits)

lemma avtab_search_sound:
  assumes "wf_avtab h" "avtab_search h k = Some d"
  shows "\<exists>n \<in> set (av_nodes h). answers k n \<and> datum n = d"
proof -
  from assms(2) obtain n r where n: "avtab_search_node h k = n # r" "datum n = d"
    by (auto simp: avtab_search_eq split: list.splits)
  then have "n \<in> set (avtab_walk (specified k) (avtab_search_node h k))" by simp
  with n(2) show ?thesis using avtab_walk_nodes[OF assms(1)] by auto
qed

lemma avtab_search_None:
  "wf_avtab h \<Longrightarrow> avtab_search h k = None \<longleftrightarrow> (\<forall>n \<in> set (av_nodes h). \<not> answers k n)"
  by (simp add: avtab_search_eq avtab_search_node_Nil[symmetric] split: list.splits)

section \<open>Insertion\<close>

lemma insert_point_ok:
  "insert_point k c = Some (pre, post) \<Longrightarrow> chain_sorted c \<Longrightarrow>
     c = pre @ post \<and> (\<forall>n \<in> set pre. \<not> key_before k (key n)) \<and>
     (\<forall>n \<in> set post. \<not> key_before (key n) k) \<and>
     (rule_kind (specified k) AND AVTAB_XPERMS = 0 \<longrightarrow> (\<forall>n \<in> set c. \<not> answers k n))"
proof (induction c arbitrary: pre)
  case (Cons a c)
  show ?case
  proof (cases "key_before k (key a)")
    case True
    then have none: "\<not> same_triple k (key n)" "key_before k (key n)" if "n \<in> set (a # c)" for n
    proof -
      show "\<not> same_triple k (key n)" using before_sorted_no_triple[OF Cons.prems(2) True that] .
      have "\<not> key_before (key n) (key a)" using that Cons.prems(2) by (auto simp: chain_sorted_Cons)
      then show "key_before k (key n)"
        using True not_before_trans[of "key n" "key a" k] by blast
    qed
    then have "pre = []" "post = a # c" using True Cons.prems(1) by auto
    then show ?thesis using none key_before_asym by (fastforce simp: answers_def)
  next
    case False
    show ?thesis
    proof (cases "answers k a")
      case True
      then have st: "same_triple k (key a)" by (simp add: answers_def)
      then have "pre = []" "post = a # c" "rule_kind (specified k) AND AVTAB_XPERMS \<noteq> 0"
        using True Cons.prems(1) by (auto simp: answers_def split: if_splits)
      moreover have "\<not> key_before (key n) k" if "n \<in> set (a # c)" for n
        using that Cons.prems(2) key_before_same_right[OF st]
        by (auto simp: chain_sorted_Cons)
      ultimately show ?thesis by auto
    next
      case no: False
      then obtain pre' where r: "insert_point k c = Some (pre', post)" and pre: "pre = a # pre'"
        using Cons.prems(1) False by (auto simp: answers_def split: option.splits)
      have "chain_sorted c" using Cons.prems(2) by (simp add: chain_sorted_Cons)
      from Cons.IH[OF r this] show ?thesis using False no by (auto simp: pre)
    qed
  qed
qed simp

lemma insert_point_None:
  "insert_point k c = None \<Longrightarrow> \<exists>n \<in> set c. answers k n"
  by (induction k c rule: insert_point.induct) (auto simp: answers_def split: if_splits option.splits)

lemma nonunique_point_ok:
  "nonunique_point k c = (pre, post) \<Longrightarrow> chain_sorted c \<Longrightarrow>
     c = pre @ post \<and> (\<forall>n \<in> set pre. \<not> key_before k (key n)) \<and>
     (\<forall>n \<in> set post. \<not> key_before (key n) k)"
proof (induction c arbitrary: pre)
  case (Cons a c)
  show ?case
  proof (cases "answers k a \<or> key_before k (key a)")
    case True
    then have e: "pre = []" "post = a # c"
      using Cons.prems(1) by (auto simp: answers_def split: if_splits)
    have "\<not> key_before (key n) k" if "n \<in> set (a # c)" for n
    proof -
      have "\<not> key_before (key a) k"
        using True key_before_asym key_before_same_right[of k "key a"] by (auto simp: answers_def)
      moreover have "\<not> key_before (key n) (key a)"
        using that Cons.prems(2) by (auto simp: chain_sorted_Cons)
      ultimately show ?thesis using not_before_trans by blast
    qed
    with e show ?thesis by auto
  next
    case False
    then obtain pre' where r: "nonunique_point k c = (pre', post)" and pre: "pre = a # pre'"
      using Cons.prems(1) by (auto simp: answers_def split: prod.splits)
    have "chain_sorted c" using Cons.prems(2) by (simp add: chain_sorted_Cons)
    from Cons.IH[OF r this] show ?thesis using False by (auto simp: pre)
  qed
qed simp

lemma chain_sorted_insert:
  assumes "chain_sorted (pre @ post)" "\<forall>n \<in> set pre. \<not> key_before k (key n)"
    "\<forall>n \<in> set post. \<not> key_before (key n) k" "key n0 = k"
  shows "chain_sorted (pre @ n0 # post)"
  using assms by (auto simp: chain_sorted_def sorted_wrt_append)

lemma mset_concat_insert:
  "i < length t \<Longrightarrow> t ! i = pre @ post \<Longrightarrow>
     mset (concat (t[i := pre @ n # post])) = add_mset n (mset (concat t))"
proof (induction t arbitrary: i)
  case (Cons a t)
  then show ?case by (cases i) auto
qed simp

text \<open>What \<^verbatim>\<open>avtab_insert_node\<close> keeps of the datum: all of it, extended permissions included.\<close>

definition stored_datum :: "avtab_key \<Rightarrow> avtab_datum \<Rightarrow> avtab_datum" where
  "stored_datum k d =
     (if specified k AND AVTAB_XPERMS = 0 then d
      else d\<lparr>xperms := Some (case xperms d of
             None \<Rightarrow> \<lparr>xspecified = 0, driver = 0, perms = replicate 8 0\<rparr> | Some x \<Rightarrow> x)\<rparr>)"

lemma stored_datum_data [simp]: "data (stored_datum k d) = data d"
  by (simp add: stored_datum_def)

lemma new_datum_stored: "new_datum m k d = Some (d', m') \<Longrightarrow> d' = stored_datum k d"
  by (auto simp: new_datum_def stored_datum_def split: option.splits if_splits)

lemma insert_point_first:
  "insert_point k c = Some (pre, post) \<Longrightarrow> \<forall>n \<in> set pre. \<not> answers k n \<and> \<not> key_before k (key n)"
  by (induction c arbitrary: pre) (auto simp: answers_def split: if_splits option.splits)

lemma scan_chain_first:
  "\<forall>n \<in> set pre. \<not> answers k n \<and> \<not> key_before k (key n) \<Longrightarrow> answers k n \<Longrightarrow>
     scan_chain k (rule_kind (specified k)) (pre @ n # post) = n # post"
  by (induction pre) (auto simp: answers_def)

lemma insert_node_ok:
  assumes wf: "wf_avtab h" and t: "avtable h = Some t"
    and pp: "t ! unat (avtab_hash k (avmask h)) = pre @ post"
    and ord: "\<forall>n \<in> set pre. \<not> key_before k (key n)" "\<forall>n \<in> set post. \<not> key_before (key n) k"
    and ins: "avtab_insert_node m h t (unat (avtab_hash k (avmask h))) pre post k d = Some (n, h', m')"
  shows "wf_avtab h'" and "mset (av_nodes h') = add_mset n (mset (av_nodes h))" and "key n = k"
    and "datum n = stored_datum k d"
    and "avtable h' = Some (t[unat (avtab_hash k (avmask h)) := pre @ n # post])" and "avmask h' = avmask h"
proof -
  let ?i = "unat (avtab_hash k (avmask h))"
  have i: "?i < length t" by (rule avtab_hash_index[OF wf t])
  from ins obtain d' where d': "new_datum m k d = Some (d', m')"
    and n: "n = \<lparr>key = k, datum = d', addr = next_addr t\<rparr>"
    and h': "h' = h\<lparr>avtable := Some (t[?i := pre @ n # post]), avnel := avnel h + 1\<rparr>"
    by (auto simp: avtab_insert_node_def Let_def split: option.splits)
  show kn: "key n = k" by (simp add: n)
  show "datum n = stored_datum k d" using new_datum_stored[OF d'] by (simp add: n)
  show "avtable h' = Some (t[?i := pre @ n # post])" "avmask h' = avmask h" by (simp_all add: h')
  have ms: "mset (concat (t[?i := pre @ n # post])) = add_mset n (mset (concat t))"
    by (rule mset_concat_insert[OF i pp])
  then show "mset (av_nodes h') = add_mset n (mset (av_nodes h))"
    by (simp add: h' av_nodes_def t)
  have len: "length (concat (t[?i := pre @ n # post])) = Suc (length (concat t))"
    using ms by (metis size_add_mset size_mset)
  have ok: "av_slots_ok (avmask h) t" by (rule wf_avtab_slots[OF wf t])
  have "av_slots_ok (avmask h) (t[?i := pre @ n # post])"
    unfolding av_slots_ok_def
  proof (intro allI impI)
    fix j assume j: "j < length (t[?i := pre @ n # post])"
    show "chain_sorted (t[?i := pre @ n # post] ! j) \<and>
        (\<forall>x \<in> set (t[?i := pre @ n # post] ! j). unat (avtab_hash (key x) (avmask h)) = j)"
    proof (cases "j = ?i")
      case True
      have "chain_sorted (pre @ post)" "\<forall>x \<in> set (pre @ post). unat (avtab_hash (key x) (avmask h)) = ?i"
        using ok i unfolding av_slots_ok_def pp[symmetric] by auto
      then show ?thesis using chain_sorted_insert[OF _ ord kn] i kn True by auto
    qed (use j ok in \<open>auto simp: av_slots_ok_def\<close>)
  qed
  with wf t len show "wf_avtab h'" by (simp add: wf_avtab_def h')
qed

lemma avtab_insert_cases:
  assumes wf: "wf_avtab h" and ins: "avtab_insert m h k d = Inr (h', m')"
  shows "wf_avtab h'"
    and "\<exists>n. key n = k \<and> datum n = stored_datum k d \<and>
      mset (av_nodes h') = add_mset n (mset (av_nodes h))"
    and "rule_kind (specified k) \<noteq> 0 \<Longrightarrow> avtab_search h' k = Some (stored_datum k d)"
    and "rule_kind (specified k) AND AVTAB_XPERMS = 0 \<Longrightarrow> avtab_search h k = None"
proof -
  from ins obtain t pre post n where t: "avtable h = Some t"
    and p: "insert_point k (t ! unat (avtab_hash k (avmask h))) = Some (pre, post)"
    and n: "avtab_insert_node m h t (unat (avtab_hash k (avmask h))) pre post k d = Some (n, h', m')"
    by (auto simp: avtab_insert_def Let_def split: option.splits)
  have i: "unat (avtab_hash k (avmask h)) < length t" by (rule avtab_hash_index[OF wf t])
  have ok: "av_slots_ok (avmask h) t" by (rule wf_avtab_slots[OF wf t])
  then have so: "chain_sorted (t ! unat (avtab_hash k (avmask h)))" using i by (simp add: av_slots_ok_def)
  note ip = insert_point_ok[OF p so]
  then have pp: "t ! unat (avtab_hash k (avmask h)) = pre @ post"
    "\<forall>n \<in> set pre. \<not> key_before k (key n)" "\<forall>n \<in> set post. \<not> key_before (key n) k" by blast+
  note r = insert_node_ok[OF wf t pp n]
  show "wf_avtab h'" by (rule r(1))
  show "\<exists>n. key n = k \<and> datum n = stored_datum k d \<and>
      mset (av_nodes h') = add_mset n (mset (av_nodes h))" using r(2-4) by blast
  {
    assume "rule_kind (specified k) \<noteq> 0"
    then have "rule_kind (specified k) AND specified k \<noteq> 0"
      by (simp add: rule_kind_def and.assoc and.commute)
    then have "answers k n" using r(3) by (simp add: answers_def same_triple_def)
    then have "scan_chain k (rule_kind (specified k)) (pre @ n # post) = n # post"
      using insert_point_first[OF p] by (intro scan_chain_first)
    then show "avtab_search h' k = Some (stored_datum k d)" using r(4-6) i by (simp add: avtab_search_def)
  }
  assume "rule_kind (specified k) AND AVTAB_XPERMS = 0"
  then have "\<forall>x \<in> set (t ! unat (avtab_hash k (avmask h))). \<not> answers k x" using ip by blast
  then show "avtab_search h k = None"
    using avtab_search_None[OF wf] slots_answer[OF ok i] by (auto simp: av_nodes_def t)
qed

lemma avtab_insert_error:
  assumes wf: "wf_avtab h" and ins: "avtab_insert m h k d = Inl err"
  shows "(err = EEXIST \<and> avtab_search h k \<noteq> None) \<or>
    (err = ENOMEM \<and> (avtable h = None \<or> m < 2))"
proof (cases "avtable h")
  case None
  with ins show ?thesis by (simp add: avtab_insert_def)
next
  case (Some t)
  let ?c = "t ! unat (avtab_hash k (avmask h))"
  have i: "unat (avtab_hash k (avmask h)) < length t" by (rule avtab_hash_index[OF wf Some])
  show ?thesis
  proof (cases "insert_point k ?c")
    case None
    with ins Some have "err = EEXIST" by (simp add: avtab_insert_def Let_def)
    moreover obtain n where "n \<in> set ?c" "answers k n" using insert_point_None[OF None] by blast
    moreover have "set ?c \<subseteq> set (av_nodes h)" using i by (simp add: av_nodes_def Some UN_upper)
    ultimately show ?thesis using avtab_search_None[OF wf, of k] by auto
  next
    case p: (Some p)
    with ins Some show ?thesis
      by (auto simp: avtab_insert_def Let_def avtab_insert_node_def new_datum_def
          split: option.splits if_splits prod.splits)
  qed
qed

lemma avtab_insert_nonunique_ok:
  assumes wf: "wf_avtab h" and ins: "avtab_insert_nonunique m h k d = Some (n, h', m')"
  shows "wf_avtab h'" and "mset (av_nodes h') = add_mset n (mset (av_nodes h))" and "key n = k"
proof -
  from ins obtain t pre post where t: "avtable h = Some t"
    and p: "nonunique_point k (t ! unat (avtab_hash k (avmask h))) = (pre, post)"
    and n: "avtab_insert_node m h t (unat (avtab_hash k (avmask h))) pre post k d = Some (n, h', m')"
    by (auto simp: avtab_insert_nonunique_def Let_def split: option.splits prod.splits)
  have i: "unat (avtab_hash k (avmask h)) < length t" by (rule avtab_hash_index[OF wf t])
  have "av_slots_ok (avmask h) t" by (rule wf_avtab_slots[OF wf t])
  then have so: "chain_sorted (t ! unat (avtab_hash k (avmask h)))" using i by (simp add: av_slots_ok_def)
  note ip = nonunique_point_ok[OF p so]
  from ip insert_node_ok[OF wf t _ _ _ n]
  show "wf_avtab h'" "mset (av_nodes h') = add_mset n (mset (av_nodes h))" "key n = k" by blast+
qed

lemma avtab_insert_answers:
  assumes "mset (av_nodes h') = add_mset n (mset (av_nodes h))"
  shows "set (av_nodes h') = insert n (set (av_nodes h))"
  using assms by (metis set_mset_add_mset_insert set_mset_mset)

section \<open>Uniqueness of rules\<close>

text \<open>
  In a table built by \<open>avtab_insert\<close> alone a key with a kind that is not an extended permission
  is answered by at most one node of that kind.
\<close>

definition plain_unique :: "avtab_node list \<Rightarrow> bool" where
  "plain_unique ns \<longleftrightarrow>
     (\<forall>k :: avtab_key. rule_kind (specified k) AND AVTAB_XPERMS = 0 \<longrightarrow>
        (\<exists>b < 16. specified k = 2 ^ b) \<longrightarrow> length (filter (answers k) ns) \<le> 1)"

definition one_sort :: "avtab_key \<Rightarrow> bool" where
  "one_sort k \<longleftrightarrow> rule_kind (specified k) AND AVTAB_XPERMS = 0 \<or>
     rule_kind (specified k) AND NOT AVTAB_XPERMS = 0"

lemma rule_kind_take_bit: "rule_kind s = take_bit 15 s"
proof -
  have "(0x7FFF :: u16) = mask 15" by (simp add: mask_eq_exp_minus_1)
  then show ?thesis by (simp only: rule_kind_def take_bit_eq_mask)
qed

lemma bit_rule_kind: "bit (rule_kind s) b \<longleftrightarrow> b < 15 \<and> bit s b"
  by (simp add: rule_kind_take_bit bit_take_bit_iff)

lemma answers_iff_bit:
  "answers k n \<longleftrightarrow>
     same_triple k (key n) \<and> (\<exists>b < 15. bit (specified k) b \<and> bit (specified (key n)) b)"
proof -
  have "rule_kind (specified k) AND specified (key n) \<noteq> 0 \<longleftrightarrow>
      (\<exists>b. bit (rule_kind (specified k) AND specified (key n)) b)"
    by (simp add: word_eq_0_iff_bits)
  then show ?thesis by (auto simp: answers_def bit_and_iff bit_rule_kind)
qed

lemma new_node_unique:
  assumes new: "one_sort k0" "key n0 = k0"
    and none: "rule_kind (specified k0) AND AVTAB_XPERMS = 0 \<Longrightarrow> \<not> answers k0 n"
    and k: "specified k = 2 ^ b" "b < 16" "rule_kind (specified k) AND AVTAB_XPERMS = 0"
    and both: "answers k n0" "answers k n"
  shows False
proof -
  have bits: "bit (specified k) j \<longleftrightarrow> j = b" for j
    using k(2) by (auto simp: k(1) bit_exp_iff possible_bit_word)
  have st: "same_triple k k0" "same_triple k (key n)"
    and b: "b < 15" "bit (specified k0) b" "bit (specified (key n)) b"
    using both new(2) by (auto simp: answers_iff_bit bits)
  have st': "same_triple k0 (key n)" using st by (simp add: same_triple_def)
  show False
  proof (cases "rule_kind (specified k0) AND AVTAB_XPERMS = 0")
    case True
    have "answers k0 n" using st' b by (auto simp: answers_iff_bit)
    then show False using none True by blast
  next
    case False
    then have "rule_kind (specified k0) AND NOT AVTAB_XPERMS = 0"
      using new(1) unfolding one_sort_def by blast
    then have "\<not> bit (rule_kind (specified k0) AND NOT AVTAB_XPERMS) b" by (simp only: bit_0_eq bot_apply) simp
    then have "bit (0x0700 :: u16) b"
      using b k(2) unfolding bit_and_iff bit_not_iff bit_rule_kind possible_bit_word by auto
    then have "bit (rule_kind (specified k) AND AVTAB_XPERMS) b"
      using b bits[of b] unfolding bit_and_iff bit_rule_kind by blast
    then show False unfolding k(3) by simp
  qed
qed

lemma avtab_insert_unique:
  assumes wf: "wf_avtab h" and u: "plain_unique (av_nodes h)" and one: "one_sort k0"
    and ins: "avtab_insert m h k0 d = Inr (h', m')"
  shows "plain_unique (av_nodes h')"
  unfolding plain_unique_def
proof (intro allI impI)
  fix k :: avtab_key assume np: "rule_kind (specified k) AND AVTAB_XPERMS = 0"
    and ex: "\<exists>b < 16. specified k = 2 ^ b"
  then obtain b where b: "b < 16" "specified k = 2 ^ b" by blast
  obtain n0 where n0: "key n0 = k0" "mset (av_nodes h') = add_mset n0 (mset (av_nodes h))"
    using avtab_insert_cases(2)[OF wf ins] by blast
  have none: "\<not> answers k0 n" if "rule_kind (specified k0) AND AVTAB_XPERMS = 0" "n \<in> set (av_nodes h)" for n
    using avtab_insert_cases(4)[OF wf ins that(1)] avtab_search_None[OF wf] that(2) by blast
  have len: "length (filter (answers k) ns) = size (filter_mset (answers k) (mset ns))" for ns
    by (metis mset_filter size_mset)
  have old: "length (filter (answers k) (av_nodes h)) \<le> 1"
    using u np ex unfolding plain_unique_def by blast
  show "length (filter (answers k) (av_nodes h')) \<le> 1"
  proof (cases "answers k n0")
    case False
    then show ?thesis using old by (simp add: len n0(2))
  next
    case True
    have "\<not> answers k n" if "n \<in> set (av_nodes h)" for n
      using new_node_unique[OF one n0(1) none b(2,1) np True] that by blast
    then have "filter (answers k) (av_nodes h) = []" by (simp add: filter_empty_conv)
    then have "size (filter_mset (answers k) (mset (av_nodes h))) = 0" using len[of "av_nodes h"] by simp
    then show ?thesis using True by (simp add: len n0(2))
  qed
qed

section \<open>Creation and reading\<close>

lemma width_of_le: "unat w < 2 ^ j \<Longrightarrow> width_of w s \<le> s + j"
proof (induction j arbitrary: w s)
  case 0
  then have "w = 0" by (simp add: unat_eq_zero)
  then show ?case by (simp add: width_of.simps)
next
  case (Suc j)
  show ?case
  proof (cases "w = 0")
    case True
    then show ?thesis by (simp add: width_of.simps)
  next
    case False
    have "unat (drop_bit 1 w) = unat w div 2"
      by (subst unat_drop_bit_eq) (simp add: drop_bit_Suc)
    then have "unat (drop_bit 1 w) < 2 ^ j" using Suc.prems by auto
    from Suc.IH[OF this, of "Suc s"] show ?thesis using False by (subst width_of.simps) simp
  qed
qed

lemma avtab_slots_pow2: "\<exists>k \<le> 20. avtab_slots n = 2 ^ k"
proof -
  have "unat n < 2 ^ 32" using unat_u32_bound[of n] by simp
  then have w: "width_of n 0 \<le> 32" using width_of_le[of n 32 0] by simp
  define k where "k = (let s = width_of n 0 in if s > 2 then s - 2 else s)"
  have k32: "k < 32" using w unfolding k_def Let_def by auto
  have k: "avtab_slots n = (if push_bit k 1 > (0x100000 :: u32) then 0x100000 else push_bit k 1)"
    by (simp add: avtab_slots_def k_def Let_def)
  show ?thesis
  proof (cases "push_bit k 1 > (0x100000 :: u32)")
    case True
    then have "avtab_slots n = 2 ^ 20" using k by simp
    then show ?thesis by blast
  next
    case False
    have "k \<le> 20"
    proof (rule ccontr)
      assume "\<not> k \<le> 20"
      then have "21 \<le> k" by simp
      then have "(2 :: nat) ^ 21 \<le> 2 ^ k" by (rule power_increasing) simp
      then show False using False unat_pow2_u32[OF k32] by (simp add: word_facts)
    qed
    then show ?thesis using k False by auto
  qed
qed

lemma avtab_alloc_ok:
  assumes "avtab_alloc m h n = Inr (h', m')" "n \<noteq> 0"
  shows "wf_avtab h'" "av_nodes h' = []"
proof -
  from assms have h': "h' = h\<lparr>avtable := Some (replicate (unat (avtab_slots n)) []), avnel := 0,
      nslot := avtab_slots n, avmask := avtab_slots n - 1\<rparr>"
    by (auto simp: avtab_alloc_def split: option.splits)
  show "av_nodes h' = []" by (simp add: h' av_nodes_def concat_replicate_trivial)
  show "wf_avtab h'"
    using avtab_slots_pow2[of n]
    by (simp add: h' wf_avtab_def av_slots_ok_def concat_replicate_trivial)
qed

text \<open>An invariant of the callback's state that every insertion keeps holds after a read.\<close>

lemma read_old_specs_inv:
  assumes "\<And>k d s s'. I s \<Longrightarrow> insertf k d s = Inr s' \<Longrightarrow> I s'"
  shows "read_old_specs insertf sps val enabled buf items k s = Inr (items', s') \<Longrightarrow> I s \<Longrightarrow> I s'"
proof (induction sps arbitrary: items s)
  case (Cons sp sps)
  then show ?case by (auto simp: rbind_eq_Inr split: if_splits dest: assms)
qed simp

lemma avtab_read_item_inv:
  assumes inv: "\<And>k d s s'. I s \<Longrightarrow> insertf k d s = Inr s' \<Longrightarrow> I s'"
    and "avtab_read_item fp vers insertf s = Inr (fp', s')" "I s"
  shows "I s'"
proof -
  have old: "I s1'" if "read_old_specs insertf sps val en buf i k s1 = Inr (i', s1')" "I s1"
    for sps val en buf i k s1 i' s1'
    by (rule read_old_specs_inv[where I = I and insertf = insertf]) (use inv that in blast)+
  show ?thesis
    using assms(2,3)
    by (auto simp: avtab_read_item_def avtab_read_item_old_def rbind_eq_Inr Let_def
        split: if_splits dest: inv old)
qed

lemma read_items_wf:
  "read_items n fp vers s = Inr (fp', h', m') \<Longrightarrow> wf_avtab (fst s) \<Longrightarrow> wf_avtab h'"
proof (induction n arbitrary: fp s)
  case (Suc n)
  then obtain fp1 s1 where r: "avtab_read_item fp vers avtab_insertf s = Inr (fp1, s1)"
    and rest: "read_items n fp1 vers s1 = Inr (fp', h', m')" by (auto simp: rbind_eq_Inr)
  have "wf_avtab (fst s1)"
    by (rule avtab_read_item_inv[OF _ r, where I = "\<lambda>s. wf_avtab (fst s)"])
       (use Suc.prems(2) in \<open>auto simp: avtab_insertf_def dest: avtab_insert_cases(1)\<close>)
  then show ?case using Suc.IH[OF rest] by simp
qed auto

lemma avtab_read_wf:
  assumes "avtab_read m a fp vers = Inr (h, fp', m')"
  shows "wf_avtab h"
proof -
  from assms obtain n fp1 s where n: "n \<noteq> 0" and al: "avtab_alloc m a n = Inr s"
    and r: "read_items (unat n) fp1 vers s = Inr (fp', h, m')"
    by (auto simp: avtab_read_def rbind_eq_Inr zero_or_saturated_def split: sum.splits if_splits)
  have "wf_avtab (fst s)" using avtab_alloc_ok(1)[of m a n "fst s" "snd s"] al n by simp
  with r show ?thesis by (rule read_items_wf)
qed

section \<open>The interface to rule searches\<close>

text \<open>
  The users of a table accumulate decisions over the rules that a search visits. What they need
  is that the search visits exactly the rules that answer the key, in whatever order.
\<close>

locale rule_index =
  fixes inv :: "'h \<Rightarrow> bool"
    and rules :: "'h \<Rightarrow> 'n set"
    and answer :: "'k \<Rightarrow> 'n \<Rightarrow> bool"
    and visit :: "'h \<Rightarrow> 'k \<Rightarrow> 'n list"
  assumes visit_set: "inv h \<Longrightarrow> set (visit h k) = {n \<in> rules h. answer k n}"
begin

lemma collect_or:
  fixes val :: "'n \<Rightarrow> 'a::len word"
  assumes "inv h"
  shows "bit (fold (\<lambda>n a. if sel n then a OR val n else a) (visit h k) a0) i \<longleftrightarrow>
    bit a0 i \<or> (\<exists>n \<in> rules h. answer k n \<and> sel n \<and> bit (val n) i)"
proof -
  have "bit (fold (\<lambda>n a. if sel n then a OR val n else a) ns a0) i \<longleftrightarrow>
      bit a0 i \<or> (\<exists>n \<in> set ns. sel n \<and> bit (val n) i)" for ns
    by (induction ns arbitrary: a0) (auto simp: bit_or_iff)
  then show ?thesis using visit_set[OF assms, of k] by auto
qed

lemma collect_and:
  fixes val :: "'n \<Rightarrow> 'a::len word"
  assumes "inv h"
  shows "bit (fold (\<lambda>n a. if sel n then a AND val n else a) (visit h k) a0) i \<longleftrightarrow>
    bit a0 i \<and> (\<forall>n \<in> rules h. answer k n \<and> sel n \<longrightarrow> bit (val n) i)"
proof -
  have "bit (fold (\<lambda>n a. if sel n then a AND val n else a) ns a0) i \<longleftrightarrow>
      bit a0 i \<and> (\<forall>n \<in> set ns. sel n \<longrightarrow> bit (val n) i)" for ns
    by (induction ns arbitrary: a0) (auto simp: bit_and_iff)
  then show ?thesis using visit_set[OF assms, of k] by auto
qed

lemma visit_none: "inv h \<Longrightarrow> visit h k = [] \<longleftrightarrow> (\<forall>n \<in> rules h. \<not> answer k n)"
  using visit_set[of h k] by (metis (mono_tags, lifting) empty_Collect_eq set_empty)

end

definition avtab_visit :: "avtab \<Rightarrow> avtab_key \<Rightarrow> avtab_node list" where
  "avtab_visit h k = avtab_walk (specified k) (avtab_search_node h k)"

interpretation rules: rule_index wf_avtab "\<lambda>h. set (av_nodes h)" answers avtab_visit
  by unfold_locales (simp add: avtab_visit_def avtab_walk_nodes)

end
