(* ===== verification/Policydb.thy ===== *)
theory Policydb
  imports Mls_Types Symtab Avtab_Props
begin

text \<open>
  The data of the policy database: the datums of \<^verbatim>\<open>include/sepol/policydb/policydb.h\<close>, the
  constraints of \<^verbatim>\<open>constraint.h\<close>, the conditionals of \<^verbatim>\<open>conditional.h\<close>, and the fields of
  \<^verbatim>\<open>struct policydb\<close> that the modelled operations use. Arrays of pointers
  (\<^verbatim>\<open>*_val_to_name\<close>, \<^verbatim>\<open>*_val_to_struct\<close>) are lists of optional entries, read with \<open>ptr_arr\<close>.

  Pointers that two structures share are treated by who writes through them. Datums reached
  through \<^verbatim>\<open>*_val_to_struct\<close> are only read by the modelled code, except the booleans: their
  state lives in \<open>bool_val_to_struct\<close>. The rule lists of a conditional point into
  \<open>te_cond_avtab\<close>, whose nodes they change, so they hold node addresses. The module form of
  a policy (rules over sets of types, optional blocks, scopes) is part of the data; a null array
  is the empty list.
\<close>

section \<open>Semantic levels\<close>

record mls_semantic_cat =
  scat_low :: u32
  scat_high :: u32

record mls_semantic_level =
  ssens :: u32
  scat :: "mls_semantic_cat list"

record mls_semantic_range =
  slow :: mls_semantic_level
  shigh :: mls_semantic_level

section \<open>Constraints\<close>

record type_set =
  ts_types :: ebitmap
  negset :: ebitmap
  ts_flags :: u32

record role_set =
  rs_roles :: ebitmap
  rs_flags :: u32

record constraint_expr =
  cexpr_type :: u32
  attr :: u32
  cop :: u32
  names :: ebitmap
  type_names :: "type_set option"

record constraint_node =
  permissions :: u32
  cexpr :: "constraint_expr list"

section \<open>Datums\<close>

record perm_datum =
  perm_value :: u32

record common_datum =
  common_value :: u32
  common_permissions :: "perm_datum symtab"

record class_datum =
  class_value :: u32
  comkey :: "string option"
  comdatum :: "common_datum option"
  class_permissions :: "perm_datum symtab"
  constraints :: "constraint_node list"
  validatetrans :: "constraint_node list"
  default_user :: u8
  default_role :: u8
  default_type :: u8
  default_range :: u8

record role_datum =
  role_value :: u32
  dominates :: ebitmap
  role_types :: type_set
  role_cache :: ebitmap
  role_bounds :: u32
  role_flavor :: u32
  role_roles :: ebitmap

record role_trans =
  rt_role :: u32
  rt_type :: u32
  rt_tclass :: u32
  new_role :: u32

record role_allow =
  ra_role :: u32
  ra_new_role :: u32

record type_datum =
  type_value :: u32
  primary :: u32
  type_flavor :: u32
  type_types :: ebitmap
  type_flags :: u32
  bounds :: u32

record user_datum =
  user_value :: u32
  user_roles :: role_set
  user_range :: mls_semantic_range
  dfltlevel :: mls_semantic_level
  user_cache :: ebitmap
  exp_range :: mls_range
  exp_dfltlevel :: mls_level
  user_bounds :: u32

record level_datum =
  lev :: mls_level
  lev_isalias :: u8
  notdefined :: u8

record cat_datum =
  cat_value :: u32
  cat_isalias :: u8

record range_trans =
  rtr_source_type :: u32
  rtr_target_type :: u32
  rtr_target_class :: u32

record cond_bool_datum =
  bool_value :: u32
  bool_state :: int
  bool_flags :: u32

section \<open>File name transitions\<close>

record filename_trans_key =
  ftk_ttype :: u32
  ftk_tclass :: u32
  ftk_name :: string

record filename_trans_datum =
  ftd_stypes :: ebitmap
  ftd_otype :: u32

section \<open>Rules of modules\<close>

record class_perm_node =
  cp_tclass :: u32
  cp_data :: u32

record av_extended_perms =
  avx_specified :: u8
  avx_driver :: u8
  avx_perms :: "u32 list"

record avrule =
  avr_specified :: u32
  avr_flags :: u32
  avr_stypes :: type_set
  avr_ttypes :: type_set
  avr_perms :: "class_perm_node list"
  avr_xperms :: "av_extended_perms option"
  avr_line :: u64
  avr_source_filename :: "string option"
  avr_source_line :: u64

record role_trans_rule =
  rtu_roles :: role_set
  rtu_types :: type_set
  rtu_classes :: ebitmap
  rtu_new_role :: u32

record role_allow_rule =
  rau_roles :: role_set
  rau_new_roles :: role_set

record filename_trans_rule =
  ftr_flags :: u32
  ftr_stypes :: type_set
  ftr_ttypes :: type_set
  ftr_tclass :: u32
  ftr_name :: string
  ftr_otype :: u32

record range_trans_rule =
  rgr_stypes :: type_set
  rgr_ttypes :: type_set
  rgr_tclasses :: ebitmap
  rgr_trange :: mls_semantic_range

section \<open>Object contexts\<close>

text \<open>\<open>ONull\<close> is the union as \<^verbatim>\<open>calloc\<close> leaves it: its name is a null pointer.\<close>

datatype ocontext_u =
    ONull
  | OName string
  | OPort u8 u16 u16
  | ONode u32 u32
  | ONode6 "u32 list" "u32 list"
  | OIbpkey u64 u16 u16
  | OIbendport string u8
  | OPirq u16
  | OIoport u32 u32
  | OIomem u64 u64
  | ODevice u32

record ocontext =
  ou :: ocontext_u
  ov :: u32
  context0 :: context_struct
  context1 :: context_struct
  sid0 :: u32
  sid1 :: u32

record genfs =
  fstype :: string
  gen_head :: "ocontext list"

section \<open>Conditionals\<close>

abbreviation (input) "COND_EXPR_MAXDEPTH \<equiv> 10"
abbreviation (input) "COND_MAX_BOOLS \<equiv> 5"

abbreviation (input) "COND_BOOL \<equiv> 1"
abbreviation (input) "COND_NOT \<equiv> 2"
abbreviation (input) "COND_OR \<equiv> 3"
abbreviation (input) "COND_AND \<equiv> 4"
abbreviation (input) "COND_XOR \<equiv> 5"
abbreviation (input) "COND_EQ \<equiv> 6"
abbreviation (input) "COND_NEQ \<equiv> 7"
abbreviation (input) "COND_LAST \<equiv> 7"

record cond_expr =
  expr_type :: u32
  boolean :: u32

text \<open>A rule list holds the addresses of nodes of \<open>te_cond_avtab\<close>.\<close>

type_synonym cond_av_list = "nat list"

record cond_node =
  cur_state :: int
  expr :: "cond_expr list"
  true_list :: cond_av_list
  false_list :: cond_av_list
  nbools :: u32
  bool_ids :: "u32 list"
  expr_pre_comp :: u32
  cond_flags :: u32
  avtrue_list :: "avrule list"
  avfalse_list :: "avrule list"

section \<open>Scopes and blocks of modules\<close>

text \<open>One bitmap or symbol table for each of the eight kinds of symbols, in the order of \<^verbatim>\<open>SYM_*\<close>.\<close>

record scope_index =
  sc_commons :: ebitmap
  sc_classes :: ebitmap
  sc_roles :: ebitmap
  sc_types :: ebitmap
  sc_users :: ebitmap
  sc_bools :: ebitmap
  sc_sens :: ebitmap
  sc_cats :: ebitmap
  class_perms_map :: "ebitmap list"
  class_perms_len :: u32

record avrule_decl =
  decl_id :: u32
  decl_enabled :: u32
  decl_cond_list :: "cond_node list"
  decl_avrules :: "avrule list"
  decl_role_tr_rules :: "role_trans_rule list"
  decl_role_allow_rules :: "role_allow_rule list"
  decl_range_tr_rules :: "range_trans_rule list"
  decl_required :: scope_index
  decl_declared :: scope_index
  decl_filename_trans_rules :: "filename_trans_rule list"
  decl_commons :: "common_datum symtab"
  decl_classes :: "class_datum symtab"
  decl_roles :: "role_datum symtab"
  decl_types :: "type_datum symtab"
  decl_users :: "user_datum symtab"
  decl_bools :: "cond_bool_datum symtab"
  decl_levels :: "level_datum symtab"
  decl_cats :: "cat_datum symtab"
  decl_module_name :: "string option"

text \<open>\<^verbatim>\<open>enabled\<close> points to a branch: it is its position.\<close>

record avrule_block =
  branch_list :: "avrule_decl list"
  block_enabled :: "nat option"
  block_flags :: u32

record scope_datum =
  scope_kind :: u32
  decl_ids :: "u32 list"

section \<open>The database\<close>

abbreviation (input) "OBJECT_R_VAL \<equiv> 1"

abbreviation (input) "POLICY_KERN \<equiv> 0"
abbreviation (input) "POLICY_BASE \<equiv> 1"
abbreviation (input) "POLICY_MOD \<equiv> 2"

abbreviation (input) "SEPOL_TARGET_SELINUX \<equiv> 0"
abbreviation (input) "SEPOL_TARGET_XEN \<equiv> 1"

record policydb =
  policy_type :: u32
  pol_name :: "string option"
  pol_version :: "string option"
  target_platform :: int
  unsupported_format :: int
  mls :: bool
  p_commons :: "common_datum symtab"
  p_classes :: "class_datum symtab"
  p_roles :: "role_datum symtab"
  p_types :: "type_datum symtab"
  p_users :: "user_datum symtab"
  p_bools :: "cond_bool_datum symtab"
  p_levels :: "level_datum symtab"
  p_cats :: "cat_datum symtab"
  p_common_val_to_name :: "string option list"
  p_class_val_to_name :: "string option list"
  p_role_val_to_name :: "string option list"
  p_type_val_to_name :: "string option list"
  p_user_val_to_name :: "string option list"
  p_bool_val_to_name :: "string option list"
  p_sens_val_to_name :: "string option list"
  p_cat_val_to_name :: "string option list"
  class_val_to_struct :: "class_datum option list"
  role_val_to_struct :: "role_datum option list"
  user_val_to_struct :: "user_datum option list"
  type_val_to_struct :: "type_datum option list"
  bool_val_to_struct :: "cond_bool_datum option list"
  sym_scope :: "scope_datum symtab list"
  global_blocks :: "avrule_block list"
  decl_val_to_struct :: "avrule_decl option list"
  te_avtab :: avtab
  te_cond_avtab :: avtab
  cond_list :: "cond_node list"
  role_tr :: "role_trans list"
  role_allows :: "role_allow list"
  ocon_isid :: "ocontext list"
  ocon_fs :: "ocontext list"
  ocon_port :: "ocontext list"
  ocon_netif :: "ocontext list"
  ocon_node :: "ocontext list"
  ocon_fsuse :: "ocontext list"
  ocon_node6 :: "ocontext list"
  ocon_ibpkey :: "ocontext list"
  ocon_ibendport :: "ocontext list"
  genfs_list :: "genfs list"
  range_tr :: "(range_trans, mls_range) hashtab"
  filename_trans :: "(filename_trans_key, filename_trans_datum list) hashtab"
  filename_trans_count :: u32
  type_attr_map :: "ebitmap list"
  attr_type_map :: "ebitmap list"
  policycaps :: ebitmap
  permissive_map :: ebitmap
  policyvers :: u32
  handle_unknown :: u32
  process_class :: u16
  dir_class :: u16
  process_trans :: u32
  process_trans_dyntrans :: u32

section \<open>The range transition table\<close>

definition rangetr_hash :: "u32 \<Rightarrow> range_trans \<Rightarrow> u32" where
  "rangetr_hash sz k =
     (rtr_source_type k + push_bit 3 (rtr_target_type k) + push_bit 5 (rtr_target_class k))
       AND (sz - 1)"

definition spaceship_cmp :: "u32 \<Rightarrow> u32 \<Rightarrow> int" where
  "spaceship_cmp a b = (if a > b then 1 else 0) - (if a < b then 1 else 0)"

definition rangetr_cmp :: "range_trans \<Rightarrow> range_trans \<Rightarrow> int" where
  "rangetr_cmp key1 key2 =
     (let v = spaceship_cmp (rtr_source_type key1) (rtr_source_type key2)
      in if v \<noteq> 0 then v
         else let v = spaceship_cmp (rtr_target_type key1) (rtr_target_type key2)
              in if v \<noteq> 0 then v
                 else spaceship_cmp (rtr_target_class key1) (rtr_target_class key2))"

abbreviation rangetr_search :: "(range_trans, mls_range) hashtab \<Rightarrow> range_trans \<Rightarrow> mls_range option"
  where "rangetr_search \<equiv> hashtab_search rangetr_hash rangetr_cmp"

lemma and_size_less: "pow2_size s \<Longrightarrow> x AND (s - 1) < s"
proof -
  assume "pow2_size s"
  then obtain k where k: "k < 32" "s = 2 ^ k" by (auto simp: pow2_size_def)
  then show ?thesis using and_mask_less[of k x] unat_pow2_u32[of k] by (simp add: word_facts)
qed

lemma spaceship_facts:
  "spaceship_cmp a b = 0 \<longleftrightarrow> a = b" "0 < spaceship_cmp a b \<longleftrightarrow> b < a" "spaceship_cmp a b < 0 \<longleftrightarrow> a < b"
  by (auto simp: spaceship_cmp_def)

lemma rangetr_cmp_less:
  "rangetr_cmp a b < 0 \<longleftrightarrow>
     (rtr_source_type a, rtr_target_type a, rtr_target_class a) <
     (rtr_source_type b, rtr_target_type b, rtr_target_class b)"
  by (auto simp: rangetr_cmp_def Let_def spaceship_facts less_prod_simp)

lemma rangetr_cmp_greater:
  "0 < rangetr_cmp a b \<longleftrightarrow>
     (rtr_source_type b, rtr_target_type b, rtr_target_class b) <
     (rtr_source_type a, rtr_target_type a, rtr_target_class a)"
  by (auto simp: rangetr_cmp_def Let_def spaceship_facts less_prod_simp)

lemma rangetr_cmp_eq: "rangetr_cmp a b = 0 \<longleftrightarrow> a = b"
  by (cases a; cases b) (auto simp: rangetr_cmp_def Let_def spaceship_facts)

interpretation rtr: hashing rangetr_hash rangetr_cmp pow2_size
proof unfold_locales
  fix s k
  show "pow2_size s \<Longrightarrow> rangetr_hash s k < s"
    by (simp add: rangetr_hash_def and_size_less)
  show "pow2_size s \<Longrightarrow> s * 2 \<noteq> 0 \<Longrightarrow> pow2_size (s * 2)" by (rule pow2_size_double)
next
  fix a b c
  show "rangetr_cmp a b = 0 \<longleftrightarrow> a = b" by (rule rangetr_cmp_eq)
  show "0 < rangetr_cmp a b \<longleftrightarrow> rangetr_cmp b a < 0"
    by (simp add: rangetr_cmp_less rangetr_cmp_greater)
  show "rangetr_cmp a b < 0 \<Longrightarrow> rangetr_cmp b c < 0 \<Longrightarrow> rangetr_cmp a c < 0"
    unfolding rangetr_cmp_less by (rule less_trans)
qed

end
