(* ===== verification/Codec.thy ===== *)
theory Codec
  imports Ebitmap_IO
begin

text \<open>
  What a pair of a writer (\<^verbatim>\<open>src/write.c\<close>) and a reader (\<^verbatim>\<open>src/policydb.c\<close>) of the binary policy
  promises, as the locale \<open>codec\<close>: on values that satisfy \<open>ok\<close> the writer appends the bytes of
  the value and the reader takes exactly these bytes and gives the value back. The counted
  lists of the format inherit the contract from their elements. \<open>put_u32s\<close> and \<open>put_u8\<close> stand
  for \<^verbatim>\<open>put_entry(buf, ...)\<close> with the comparison of the items, the loops for
  \<^verbatim>\<open>for (i = 0; i < nel; i++)\<close> over the elements.
\<close>

definition put_items :: "u8 list \<Rightarrow> nat \<Rightarrow> nat \<Rightarrow> policy_file \<Rightarrow> errcode + policy_file" where
  "put_items bs sz n fp = (case put_entry bs sz n fp of (items, fp) \<Rightarrow> if items \<noteq> n then Inl EFAIL else Inr fp)"

definition put_u32s :: "u32 list \<Rightarrow> policy_file \<Rightarrow> errcode + policy_file" where
  "put_u32s buf fp = put_items (concat (map cpu_to_le32 buf)) 4 (length buf) fp"

definition put_u8 :: "u8 \<Rightarrow> policy_file \<Rightarrow> errcode + policy_file" where
  "put_u8 b fp = put_items [b] 1 1 fp"

definition as_fail :: "errcode + 'a \<Rightarrow> errcode + 'a" where
  "as_fail r = (case r of Inl UNDEF \<Rightarrow> Inl UNDEF | Inl _ \<Rightarrow> Inl EFAIL | Inr x \<Rightarrow> Inr x)"

lemma as_fail_Inr [simp]: "as_fail (Inr x) = Inr x" "as_fail r = Inr x \<longleftrightarrow> r = Inr x"
  by (auto simp: as_fail_def split: sum.splits errcode.splits)

fun write_all :: "('a \<Rightarrow> policy_file \<Rightarrow> errcode + policy_file) \<Rightarrow> 'a list \<Rightarrow> policy_file \<Rightarrow> errcode + policy_file" where
  "write_all wr [] fp = Inr fp"
| "write_all wr (x # xs) fp = rbind (wr x fp) (\<lambda>fp. write_all wr xs fp)"

lemma write_all_cong [fundef_cong]:
  "xs = ys \<Longrightarrow> fp = fp' \<Longrightarrow> (\<And>x fp. x \<in> set ys \<Longrightarrow> wr x fp = wr' x fp) \<Longrightarrow>
     write_all wr xs fp = write_all wr' ys fp'"
proof (induction xs arbitrary: ys fp fp')
  case (Cons x xs)
  then have "wr x fp' = wr' x fp'" "write_all wr xs q = write_all wr' xs q" for q by auto
  then have "write_all wr xs = write_all wr' xs" by auto
  with \<open>wr x fp' = wr' x fp'\<close> show ?case using Cons.prems by auto
qed simp

fun read_many ::
  "(mem \<Rightarrow> policy_file \<Rightarrow> errcode + 'a \<times> policy_file \<times> mem) \<Rightarrow> nat \<Rightarrow> mem \<Rightarrow> policy_file
     \<Rightarrow> errcode + 'a list \<times> policy_file \<times> mem" where
  "read_many rd 0 m fp = Inr ([], fp, m)"
| "read_many rd (Suc n) m fp =
     rbind (rd m fp) (\<lambda>(x, fp, m). rbind (read_many rd n m fp) (\<lambda>(xs, fp, m). Inr (x # xs, fp, m)))"

section \<open>Primitive items on memory files\<close>

abbreviation appended :: "u8 list \<Rightarrow> policy_file \<Rightarrow> policy_file" where
  "appended bs fp \<equiv> fp\<lparr>out := out fp @ bs, plen := plen fp - length bs\<rparr>"

definition room :: "nat \<Rightarrow> policy_file \<Rightarrow> bool" where
  "room n fp \<longleftrightarrow> ptype fp = PF_USE_MEMORY \<and> n \<le> plen fp \<and> n < 2 ^ 64"

lemma roomI: "ptype fp = PF_USE_MEMORY \<Longrightarrow> n \<le> plen fp \<Longrightarrow> n < 2 ^ 64 \<Longrightarrow> room n fp"
  by (simp add: room_def)

lemma room_less: "room (a + b) fp \<Longrightarrow> room a fp"
  by (simp add: room_def)

lemma room_after: "room (length bs + b) fp \<Longrightarrow> room b (appended bs fp)"
  by (auto simp: room_def)

lemma appended_twice: "appended b (appended a fp) = appended (a @ b) fp"
  by simp

lemma put_items_room: "room (sz * n) fp \<Longrightarrow> length bs = sz * n \<Longrightarrow> put_items bs sz n fp = Inr (appended bs fp)"
  by (simp add: put_items_def room_def put_entry_mem)

lemma concat_le32_length [simp]: "length (concat (map cpu_to_le32 xs)) = 4 * length xs"
  by (induction xs) simp_all

lemma put_u32s_room:
  "room (4 * length buf) fp \<Longrightarrow> put_u32s buf fp = Inr (appended (concat (map cpu_to_le32 buf)) fp)"
  unfolding put_u32s_def by (rule put_items_room) simp_all

lemma put_u8_room: "room 1 fp \<Longrightarrow> put_u8 b fp = Inr (appended [b] fp)"
  unfolding put_u8_def by (rule put_items_room) simp_all

lemma split_words_le32:
  "k = length xs \<Longrightarrow> split_words 4 k (concat (map cpu_to_le32 xs)) = xs"
  by (induction xs arbitrary: k) simp_all

lemma next_u32s_bytes:
  "k = length xs \<Longrightarrow> next_u32s (mem_file (concat (map cpu_to_le32 xs) @ rest)) k = Inr (xs, mem_file rest)"
  by (simp add: next_u32s_def next_entry_mem split_words_le32)

lemma next_u8_bytes: "next_u8 (mem_file (b # rest)) = Inr (b, mem_file rest)"
  using next_entry_mem[of 1 "[b]" rest] by (simp add: next_u8_def le_to_cpu_def)

text \<open>The form in which the readers ask for one, two or three words.\<close>

lemma next_u32s_123 [simp]:
  "next_u32s (mem_file (cpu_to_le32 x @ rest)) (Suc 0) = Inr ([x], mem_file rest)"
  "next_u32s (mem_file (cpu_to_le32 x @ cpu_to_le32 y @ rest)) 2 = Inr ([x, y], mem_file rest)"
  "next_u32s (mem_file (cpu_to_le32 x @ cpu_to_le32 y @ cpu_to_le32 z @ rest)) 3 = Inr ([x, y, z], mem_file rest)"
  using next_u32s_bytes[of 1 "[x]" rest] next_u32s_bytes[of 2 "[x, y]" rest]
    next_u32s_bytes[of 3 "[x, y, z]" rest]
  by simp_all

section \<open>The contract of a writer and a reader\<close>

locale codec =
  fixes wr :: "'a \<Rightarrow> policy_file \<Rightarrow> errcode + policy_file"
    and rd :: "mem \<Rightarrow> policy_file \<Rightarrow> errcode + 'a \<times> policy_file \<times> mem"
    and bytes :: "'a \<Rightarrow> u8 list"
    and ok :: "'a \<Rightarrow> bool"
    and cost :: "'a \<Rightarrow> nat"
  assumes wr_bytes: "ok x \<Longrightarrow> room (length (bytes x)) fp \<Longrightarrow> wr x fp = Inr (appended (bytes x) fp)"
    and rd_bytes: "ok x \<Longrightarrow> cost x \<le> m \<Longrightarrow> rd m (mem_file (bytes x @ rest)) = Inr (x, mem_file rest, m - cost x)"
begin

lemma write_all_bytes:
  "\<forall>x \<in> set xs. ok x \<Longrightarrow> room (length (concat (map bytes xs))) fp \<Longrightarrow>
     write_all wr xs fp = Inr (appended (concat (map bytes xs)) fp)"
proof (induction xs arbitrary: fp)
  case (Cons x xs)
  have r: "room (length (bytes x) + length (concat (map bytes xs))) fp" using Cons.prems(2) by simp
  have "wr x fp = Inr (appended (bytes x) fp)"
    by (rule wr_bytes[OF _ room_less[OF r]]) (use Cons.prems(1) in simp)
  moreover have "write_all wr xs (appended (bytes x) fp) =
      Inr (appended (concat (map bytes xs)) (appended (bytes x) fp))"
    by (rule Cons.IH[OF _ room_after[OF r]]) (use Cons.prems(1) in simp)
  ultimately show ?case by simp
qed simp

lemma read_many_bytes:
  "\<forall>x \<in> set xs. ok x \<Longrightarrow> sum_list (map cost xs) \<le> m \<Longrightarrow>
     read_many rd (length xs) m (mem_file (concat (map bytes xs) @ rest)) =
       Inr (xs, mem_file rest, m - sum_list (map cost xs))"
proof (induction xs arbitrary: m)
  case (Cons x xs)
  then have "rd m (mem_file (bytes x @ concat (map bytes xs) @ rest)) =
      Inr (x, mem_file (concat (map bytes xs) @ rest), m - cost x)"
    by (auto intro: rd_bytes)
  with Cons show ?case by simp
qed simp

text \<open>A value written to a memory file that is large enough and read back.\<close>

lemma roundtrip:
  assumes "ok x" "room (length (bytes x)) fp" "out fp = []" "cost x \<le> m"
  shows "\<exists>fp'. wr x fp = Inr fp' \<and> rd m (mem_file (out fp')) = Inr (x, mem_file [], m - cost x)"
  using wr_bytes[OF assms(1,2)] rd_bytes[OF assms(1,4), of "[]"] assms(3) by simp

lemma counted:
  assumes n: "\<And>xs. cnt xs = (of_nat (length xs) :: u32)"
  shows "codec (\<lambda>xs fp. rbind (put_u32s [cnt xs] fp) (\<lambda>fp. write_all wr xs fp))
    (\<lambda>m fp. rbind (next_u32s fp (Suc 0)) (\<lambda>(b, fp). read_many rd (unat (b ! 0)) m fp))
    (\<lambda>xs. cpu_to_le32 (of_nat (length xs)) @ concat (map bytes xs))
    (\<lambda>xs. length xs < 2 ^ 32 \<and> (\<forall>x \<in> set xs. ok x)) (\<lambda>xs. sum_list (map cost xs))"
proof (unfold_locales, goal_cases)
  case (1 xs fp)
  then have "room (4 + length (concat (map bytes xs))) fp" by simp
  then have r: "room (4 * length [cnt xs]) fp" "room (length (concat (map bytes xs))) (appended (cpu_to_le32 (cnt xs)) fp)"
    using room_less[of 4] room_after[of "cpu_to_le32 (cnt xs)"] by simp_all
  then show ?case
    using 1 write_all_bytes[OF _ r(2)] put_u32s_room[OF r(1)] by (simp add: n)
next
  case (2 xs m rest)
  then have "unat (of_nat (length xs) :: u32) = length xs" by (simp add: unat_of_nat)
  then show ?case using 2 read_many_bytes[of xs m rest] by simp
qed

end

interpretation ebm: codec ebitmap_write ebitmap_read ebitmap_bytes wf_ebitmap "\<lambda>e. length (node e)"
proof (unfold_locales, goal_cases)
  case (1 x fp)
  then show ?case by (intro ebitmap_write_mem) (simp_all add: room_def)
next
  case (2 x m rest)
  then show ?case by (rule ebitmap_roundtrip)
qed

end
