(* ===== verification/Rule_IO.thy ===== *)
theory Rule_IO
  imports Policydb Codec
begin

text \<open>
  Reading and writing of sets of roles and types and of the access vector rules of modules:
  \<^verbatim>\<open>role_set_read\<close>, \<^verbatim>\<open>type_set_read\<close>, \<^verbatim>\<open>avrule_read\<close> and \<^verbatim>\<open>avrule_read_list\<close> of
  \<^verbatim>\<open>src/policydb.c\<close> and their writers in \<^verbatim>\<open>src/write.c\<close>, each pair an instance of the contract
  \<open>codec\<close>. The line numbers and file name of a rule are not written.
\<close>

abbreviation (input) "RULE_SELF \<equiv> 1"
abbreviation (input) "RULE_NOTSELF \<equiv> 2"
abbreviation (input) "AVRULE_TYPE \<equiv> 0x70"
abbreviation (input) "AVRULE_XPERMS \<equiv> 0x0f00"
abbreviation (input) "MOD_POLICYDB_VERSION_XPERMS_IOCTL \<equiv> 18"
abbreviation (input) "MOD_POLICYDB_VERSION_SELF_TYPETRANS \<equiv> 21"
abbreviation (input) "MOD_POLICYDB_VERSION_COND_XPERMS \<equiv> 22"
abbreviation (input) "POLICYDB_VERSION_COND_XPERMS \<equiv> 34"

definition type_set_init :: type_set where
  "type_set_init = \<lparr>ts_types = ebitmap_init, negset = ebitmap_init, ts_flags = 0\<rparr>"

definition role_set_init :: role_set where
  "role_set_init = \<lparr>rs_roles = ebitmap_init, rs_flags = 0\<rparr>"

definition class_perm_node_init :: class_perm_node where
  "class_perm_node_init = \<lparr>cp_tclass = 0, cp_data = 0\<rparr>"

definition avrule_init :: avrule where
  "avrule_init =
     \<lparr>avr_specified = 0, avr_flags = 0, avr_stypes = type_set_init, avr_ttypes = type_set_init,
      avr_perms = [], avr_xperms = None, avr_line = 0, avr_source_filename = None, avr_source_line = 0\<rparr>"

definition policydb_has_cond_xperms_feature :: "policydb \<Rightarrow> bool" where
  "policydb_has_cond_xperms_feature p \<longleftrightarrow>
     (policy_type p = POLICY_KERN \<and> policyvers p \<ge> POLICYDB_VERSION_COND_XPERMS) \<or>
     (policy_type p \<noteq> POLICY_KERN \<and> policyvers p \<ge> MOD_POLICYDB_VERSION_COND_XPERMS)"

section \<open>Sets\<close>

definition role_set_read :: "mem \<Rightarrow> policy_file \<Rightarrow> errcode + role_set \<times> policy_file \<times> mem" where
  "role_set_read m fp =
     as_fail (rbind (ebitmap_read m fp) (\<lambda>(r, fp, m).
       rbind (next_u32s fp 1) (\<lambda>(buf, fp). Inr (\<lparr>rs_roles = r, rs_flags = buf ! 0\<rparr>, fp, m))))"

definition type_set_read :: "mem \<Rightarrow> policy_file \<Rightarrow> errcode + type_set \<times> policy_file \<times> mem" where
  "type_set_read m fp =
     as_fail (rbind (ebitmap_read m fp) (\<lambda>(t, fp, m).
       rbind (ebitmap_read m fp) (\<lambda>(ng, fp, m).
       rbind (next_u32s fp 1) (\<lambda>(buf, fp).
         Inr (\<lparr>ts_types = t, negset = ng, ts_flags = buf ! 0\<rparr>, fp, m)))))"

definition role_set_write :: "role_set \<Rightarrow> policy_file \<Rightarrow> errcode + policy_file" where
  "role_set_write x fp = rbind (ebitmap_write (rs_roles x) fp) (\<lambda>fp. put_u32s [rs_flags x] fp)"

definition type_set_write :: "type_set \<Rightarrow> policy_file \<Rightarrow> errcode + policy_file" where
  "type_set_write x fp =
     rbind (ebitmap_write (ts_types x) fp) (\<lambda>fp.
     rbind (ebitmap_write (negset x) fp) (\<lambda>fp. put_u32s [ts_flags x] fp))"

section \<open>Rules\<close>

definition class_perm_read :: "mem \<Rightarrow> policy_file \<Rightarrow> errcode + class_perm_node \<times> policy_file \<times> mem" where
  "class_perm_read m fp =
     (case malloc m of
        None \<Rightarrow> Inl EFAIL
      | Some m \<Rightarrow>
          rbind (next_u32s fp 2) (\<lambda>(buf, fp).
            Inr (class_perm_node_init\<lparr>cp_tclass := buf ! 0, cp_data := buf ! 1\<rparr>, fp, m)))"

definition avrule_xperms_read ::
  "mem \<Rightarrow> policydb \<Rightarrow> policy_file \<Rightarrow> errcode + av_extended_perms option \<times> policy_file \<times> mem" where
  "avrule_xperms_read m p fp =
     (if policyvers p < MOD_POLICYDB_VERSION_XPERMS_IOCTL then Inl EFAIL
      else if target_platform p \<noteq> SEPOL_TARGET_SELINUX then Inl EFAIL
      else case malloc m of
        None \<Rightarrow> Inl EFAIL
      | Some m \<Rightarrow>
          rbind (next_u8 fp) (\<lambda>(s, fp).
          rbind (next_u8 fp) (\<lambda>(d, fp).
          rbind (next_u32s fp 8) (\<lambda>(buf32, fp).
            Inr (Some \<lparr>avx_specified = s, avx_driver = d, avx_perms = buf32\<rparr>, fp, m)))))"

definition avrule_read :: "policydb \<Rightarrow> mem \<Rightarrow> policy_file \<Rightarrow> errcode + avrule \<times> policy_file \<times> mem" where
  "avrule_read p m fp =
     (case malloc m of
        None \<Rightarrow> Inl EFAIL
      | Some m \<Rightarrow>
          rbind (next_u32s fp 2) (\<lambda>(buf, fp).
          rbind (type_set_read m fp) (\<lambda>(st, fp, m).
          rbind (type_set_read m fp) (\<lambda>(tt, fp, m).
          rbind (next_u32s fp 1) (\<lambda>(len, fp).
          rbind (read_many class_perm_read (unat (len ! 0)) m fp) (\<lambda>(pms, fp, m).
          rbind (if buf ! 0 AND AVRULE_XPERMS \<noteq> 0 then avrule_xperms_read m p fp
                 else Inr (None, fp, m)) (\<lambda>(xp, fp, m).
            Inr (avrule_init\<lparr>avr_specified := buf ! 0, avr_flags := buf ! 1, avr_stypes := st,
                   avr_ttypes := tt, avr_perms := pms, avr_xperms := xp\<rparr>, fp, m))))))))"

definition avrule_read_list ::
  "policydb \<Rightarrow> mem \<Rightarrow> policy_file \<Rightarrow> errcode + avrule list \<times> policy_file \<times> mem" where
  "avrule_read_list p m fp =
     rbind (next_u32s fp 1) (\<lambda>(len, fp). read_many (avrule_read p) (unat (len ! 0)) m fp)"

definition class_perm_write :: "class_perm_node \<Rightarrow> policy_file \<Rightarrow> errcode + policy_file" where
  "class_perm_write c fp = put_u32s [cp_tclass c, cp_data c] fp"

text \<open>A rule of an extended kind without permissions is a null pointer.\<close>

definition avrule_xperms_write :: "policydb \<Rightarrow> avrule \<Rightarrow> bool \<Rightarrow> policy_file \<Rightarrow> errcode + policy_file" where
  "avrule_xperms_write p r conditional fp =
     (if policyvers p < MOD_POLICYDB_VERSION_XPERMS_IOCTL then Inl EFAIL
      else if conditional \<and> \<not> policydb_has_cond_xperms_feature p then Inl EFAIL
      else if target_platform p \<noteq> SEPOL_TARGET_SELINUX then Inl EFAIL
      else case avr_xperms r of
        None \<Rightarrow> Inl UNDEF
      | Some x \<Rightarrow>
          rbind (put_u8 (avx_specified x) fp) (\<lambda>fp.
          rbind (put_u8 (avx_driver x) fp) (\<lambda>fp. put_u32s (avx_perms x) fp)))"

definition avrule_write :: "policydb \<Rightarrow> bool \<Rightarrow> avrule \<Rightarrow> policy_file \<Rightarrow> errcode + policy_file" where
  "avrule_write p conditional r fp =
     (if policyvers p < MOD_POLICYDB_VERSION_SELF_TYPETRANS \<and> avr_specified r AND AVRULE_TYPE \<noteq> 0 \<and>
         avr_flags r AND RULE_SELF \<noteq> 0 then Inl EFAIL
      else
        rbind (put_u32s [avr_specified r, avr_flags r] fp) (\<lambda>fp.
        rbind (type_set_write (avr_stypes r) fp) (\<lambda>fp.
        rbind (type_set_write (avr_ttypes r) fp) (\<lambda>fp.
        rbind (put_u32s [of_nat (length (avr_perms r))] fp) (\<lambda>fp.
        rbind (write_all class_perm_write (avr_perms r) fp) (\<lambda>fp.
          if avr_specified r AND AVRULE_XPERMS \<noteq> 0 then avrule_xperms_write p r conditional fp
          else Inr fp))))))"

definition avrule_write_list :: "policydb \<Rightarrow> avrule list \<Rightarrow> policy_file \<Rightarrow> bool \<Rightarrow> errcode + policy_file" where
  "avrule_write_list p rs fp conditional =
     rbind (put_u32s [of_nat (length rs)] fp) (\<lambda>fp. write_all (avrule_write p conditional) rs fp)"

end
