(* ===== verification/Conditional.thy ===== *)
theory Conditional
  imports Rule_IO
begin

text \<open>
  The conditional policy of \<^verbatim>\<open>src/conditional.c\<close>: evaluation of boolean expressions in reverse
  polish notation on a stack of ten integers, their normal form and precomputed truth table,
  the rule lists that an expression enables and disables, reading from a policy file, and the
  contribution of the enabled rules to an access decision.

  The integer stack is a list with its top first, so \<^verbatim>\<open>s[0]\<close> is its last element and \<^verbatim>\<open>sp\<close>
  its length minus one. \<open>Inl UNDEF\<close> marks a boolean number without an entry in
  \<open>bool_val_to_struct\<close>, which C dereferences. Rule lists hold node addresses.
\<close>

section \<open>Ordering the rule lists\<close>

text \<open>
  The loop of \<^verbatim>\<open>cond_optimize\<close>: \<open>seen\<close> is the list from \<^verbatim>\<open>top\<close> to \<^verbatim>\<open>p\<close>, so \<^verbatim>\<open>top != cur\<close> is
  \<open>seen \<noteq> []\<close>. \<open>spec\<close> gives the \<^verbatim>\<open>specified\<close> field of a node.
\<close>

fun cond_optimize_loop :: "(nat \<Rightarrow> u16) \<Rightarrow> cond_av_list \<Rightarrow> cond_av_list \<Rightarrow> cond_av_list" where
  "cond_optimize_loop spec seen [] = seen"
| "cond_optimize_loop spec seen (c # cs) =
     (if spec c AND AVTAB_TYPE \<noteq> 0 \<and> seen \<noteq> [] then cond_optimize_loop spec (c # seen) cs
      else cond_optimize_loop spec (seen @ [c]) cs)"

definition cond_optimize :: "(nat \<Rightarrow> u16) \<Rightarrow> cond_av_list \<Rightarrow> cond_av_list" where
  "cond_optimize spec l = cond_optimize_loop spec [] l"

definition cond_optimize_lists :: "(nat \<Rightarrow> u16) \<Rightarrow> cond_node list \<Rightarrow> cond_node list" where
  "cond_optimize_lists spec cl =
     map (\<lambda>n. n\<lparr>true_list := cond_optimize spec (true_list n),
               false_list := cond_optimize spec (false_list n)\<rparr>) cl"

section \<open>Comparing expressions\<close>

definition bool_present :: "u32 \<Rightarrow> u32 list \<Rightarrow> u32 \<Rightarrow> bool" where
  "bool_present target bools num_bools =
     (if num_bools > COND_MAX_BOOLS then False else target \<in> set (take (unat num_bools) bools))"

definition same_bools :: "cond_node \<Rightarrow> cond_node \<Rightarrow> bool" where
  "same_bools a b =
     (if nbools a \<noteq> nbools b then False
      else list_all (\<lambda>i. bool_present (bool_ids a ! i) (bool_ids b) (nbools a))
             [0..<unat (nbools a)])"

fun same_expr :: "cond_expr list \<Rightarrow> cond_expr list \<Rightarrow> bool" where
  "same_expr [] [] = True"
| "same_expr (a # as) (b # bs) =
     (if expr_type a \<noteq> expr_type b then False
      else if expr_type a = COND_BOOL \<and> boolean a \<noteq> boolean b then False
      else same_expr as bs)"
| "same_expr _ _ = False"

text \<open>The arguments may be null.\<close>

definition cond_expr_equal :: "cond_node option \<Rightarrow> cond_node option \<Rightarrow> bool" where
  "cond_expr_equal a b =
     (case (a, b) of
        (Some a, Some b) \<Rightarrow>
          if nbools a \<noteq> nbools b then False
          else if nbools a \<le> COND_MAX_BOOLS \<and> nbools b \<le> COND_MAX_BOOLS then
            (if \<not> same_bools a b then False else expr_pre_comp a = expr_pre_comp b)
          else same_expr (expr a) (expr b)
      | _ \<Rightarrow> False)"

section \<open>Evaluation\<close>

fun cond_eval ::
  "cond_bool_datum option list \<Rightarrow> cond_expr list \<Rightarrow> int list \<Rightarrow> errcode + int" where
  "cond_eval bools [] s = Inr (if s = [] then -1 else last s)"
| "cond_eval bools (cur # es) s =
     (if expr_type cur = COND_BOOL then
        (if length s = COND_EXPR_MAXDEPTH then Inr (-1)
         else case ptr_arr bools (unat (boolean cur - 1)) of
           None \<Rightarrow> Inl UNDEF
         | Some b \<Rightarrow> cond_eval bools es (bool_state b # s))
      else if expr_type cur = COND_NOT then
        (case s of a # r \<Rightarrow> cond_eval bools es ((if a = 0 then 1 else 0) # r) | _ \<Rightarrow> Inr (-1))
      else if expr_type cur = COND_OR then
        (case s of b # a # r \<Rightarrow> cond_eval bools es ((a OR b) # r) | _ \<Rightarrow> Inr (-1))
      else if expr_type cur = COND_AND then
        (case s of b # a # r \<Rightarrow> cond_eval bools es ((a AND b) # r) | _ \<Rightarrow> Inr (-1))
      else if expr_type cur = COND_XOR then
        (case s of b # a # r \<Rightarrow> cond_eval bools es ((a XOR b) # r) | _ \<Rightarrow> Inr (-1))
      else if expr_type cur = COND_EQ then
        (case s of b # a # r \<Rightarrow> cond_eval bools es ((if a = b then 1 else 0) # r) | _ \<Rightarrow> Inr (-1))
      else if expr_type cur = COND_NEQ then
        (case s of b # a # r \<Rightarrow> cond_eval bools es ((if a \<noteq> b then 1 else 0) # r) | _ \<Rightarrow> Inr (-1))
      else Inr (-1))"

definition cond_evaluate_expr :: "policydb \<Rightarrow> cond_expr list \<Rightarrow> errcode + int" where
  "cond_evaluate_expr p e = cond_eval (bool_val_to_struct p) e []"

section \<open>Nodes\<close>

text \<open>\<^verbatim>\<open>cond_copy_expr\<close>: \<open>None\<close> when an allocation fails; the empty expression is the null pointer.\<close>

fun cond_copy_expr :: "mem \<Rightarrow> cond_expr list \<Rightarrow> (cond_expr list \<times> mem) option" where
  "cond_copy_expr m [] = Some ([], m)"
| "cond_copy_expr m (e # es) =
     (case malloc m of
        None \<Rightarrow> None
      | Some m' \<Rightarrow>
          (case cond_copy_expr m' es of
             None \<Rightarrow> None
           | Some (r, m'') \<Rightarrow>
               Some (\<lparr>expr_type = expr_type e, boolean = boolean e\<rparr> # r, m'')))"

definition cond_node_zero :: cond_node where
  "cond_node_zero =
     \<lparr>cur_state = 0, expr = [], true_list = [], false_list = [], nbools = 0,
      bool_ids = replicate 5 0, expr_pre_comp = 0, cond_flags = 0,
      avtrue_list = [], avfalse_list = []\<rparr>"

definition cond_node_create ::
  "mem \<Rightarrow> policydb \<Rightarrow> cond_node option \<Rightarrow> errcode + cond_node \<times> mem" where
  "cond_node_create m p nd =
     (case malloc m of
        None \<Rightarrow> Inl ENOMEM
      | Some m1 \<Rightarrow>
          (case nd of
             None \<Rightarrow> Inr (cond_node_zero, m1)
           | Some n \<Rightarrow>
               (case cond_copy_expr m1 (expr n) of
                  None \<Rightarrow> Inl ENOMEM
                | Some ([], _) \<Rightarrow> Inl ENOMEM
                | Some (e, m2) \<Rightarrow>
                    rbind (cond_evaluate_expr p e) (\<lambda>st.
                      let k = (if nbools n < COND_MAX_BOOLS then unat (nbools n) else 5)
                      in Inr (cond_node_zero\<lparr>expr := e, cur_state := st, nbools := nbools n,
                           bool_ids := take k (bool_ids n) @ replicate (5 - k) 0,
                           expr_pre_comp := expr_pre_comp n, cond_flags := cond_flags n\<rparr>, m2)))))"

text \<open>The position of the first node of the haystack with an equal expression.\<close>

fun find_equal :: "cond_node \<Rightarrow> cond_node list \<Rightarrow> nat \<Rightarrow> nat option" where
  "find_equal needle [] i = None"
| "find_equal needle (h # hs) i =
     (if cond_expr_equal (Some needle) (Some h) then Some i else find_equal needle hs (Suc i))"

definition cond_node_find ::
  "mem \<Rightarrow> policydb \<Rightarrow> cond_node \<Rightarrow> cond_node list \<Rightarrow> errcode + (nat + cond_node) \<times> mem" where
  "cond_node_find m p needle haystack =
     (case find_equal needle haystack 0 of
        Some i \<Rightarrow> Inr (Inl i, m)
      | None \<Rightarrow> rbind (cond_node_create m p (Some needle)) (\<lambda>(n, m'). Inr (Inr n, m')))"

definition cond_node_search ::
  "mem \<Rightarrow> policydb \<Rightarrow> cond_node list \<Rightarrow> cond_node \<Rightarrow> errcode + (nat + cond_node) \<times> policydb \<times> mem" where
  "cond_node_search m p list cn =
     rbind (cond_node_find m p cn list) (\<lambda>(r, m').
       case r of
         Inl i \<Rightarrow> Inr (Inl i, p, m')
       | Inr n \<Rightarrow> Inr (Inr n, p\<lparr>cond_list := n # cond_list p\<rparr>, m'))"

section \<open>Switching rules\<close>

definition map_nodes :: "(avtab_node \<Rightarrow> avtab_node) \<Rightarrow> avtab \<Rightarrow> avtab" where
  "map_nodes f h = h\<lparr>avtable := map_option (map (map f)) (avtable h)\<rparr>"

text \<open>\<^verbatim>\<open>cur->node->key.specified |= AVTAB_ENABLED\<close>, or its complement.\<close>

definition switch_node :: "bool \<Rightarrow> nat \<Rightarrow> avtab \<Rightarrow> avtab" where
  "switch_node on a h =
     map_nodes (\<lambda>n. if addr n = a
        then n\<lparr>key := (key n)\<lparr>specified :=
               (if on then specified (key n) OR AVTAB_ENABLED
                else specified (key n) AND NOT AVTAB_ENABLED)\<rparr>\<rparr>
        else n) h"

fun switch_list :: "bool \<Rightarrow> cond_av_list \<Rightarrow> avtab \<Rightarrow> avtab" where
  "switch_list on [] h = h"
| "switch_list on (a # l) h = switch_list on l (switch_node on a h)"

definition evaluate_cond_node :: "policydb \<Rightarrow> cond_node \<Rightarrow> errcode + policydb \<times> cond_node" where
  "evaluate_cond_node p n =
     rbind (cond_evaluate_expr p (expr n)) (\<lambda>new_state.
       if new_state \<noteq> cur_state n then
         (let h = switch_list (\<not> new_state \<le> 0) (true_list n) (te_cond_avtab p);
              h = switch_list (\<not> new_state \<noteq> 0) (false_list n) h
          in Inr (p\<lparr>te_cond_avtab := h\<rparr>, n\<lparr>cur_state := new_state\<rparr>))
       else Inr (p, n))"

fun evaluate_cond_list :: "policydb \<Rightarrow> cond_node list \<Rightarrow> errcode + policydb \<times> cond_node list" where
  "evaluate_cond_list p [] = Inr (p, [])"
| "evaluate_cond_list p (n # ns) =
     rbind (evaluate_cond_node p n) (\<lambda>(p1, n').
     rbind (evaluate_cond_list p1 ns) (\<lambda>(p2, ns'). Inr (p2, n' # ns')))"

definition evaluate_conds :: "policydb \<Rightarrow> errcode + policydb" where
  "evaluate_conds p =
     rbind (evaluate_cond_list p (cond_list p)) (\<lambda>(p', ns). Inr (p'\<lparr>cond_list := ns\<rparr>))"

section \<open>Normal form\<close>

fun collect_bools :: "cond_expr list \<Rightarrow> u32 list \<Rightarrow> u32 \<Rightarrow> u32 list \<times> u32" where
  "collect_bools [] ids num = (ids, num)"
| "collect_bools (e # es) ids num =
     (if expr_type e = COND_BOOL \<and> \<not> bool_present (boolean e) ids num then
        (if num < COND_MAX_BOOLS then collect_bools es (ids[unat num := boolean e]) (num + 1)
         else collect_bools es ids (num + 1))
      else collect_bools es ids num)"

text \<open>\<^verbatim>\<open>p->bool_val_to_struct[bid - 1]->state = v\<close>.\<close>

definition set_bool_state ::
  "cond_bool_datum option list \<Rightarrow> u32 \<Rightarrow> int \<Rightarrow> cond_bool_datum option list" where
  "set_bool_state bools bid v =
     (let i = unat (bid - 1)
      in case ptr_arr bools i of
           None \<Rightarrow> bools
         | Some b \<Rightarrow> bools[i := Some (b\<lparr>bool_state := v\<rparr>)])"

definition set_bools ::
  "cond_bool_datum option list \<Rightarrow> (u32 \<times> int) list \<Rightarrow> cond_bool_datum option list" where
  "set_bools bools ivs = foldl (\<lambda>bs (bid, v). set_bool_state bs bid v) bools ivs"

definition test_values :: "u32 list \<Rightarrow> nat \<Rightarrow> (u32 \<times> int) list" where
  "test_values ids test = zip ids (map (\<lambda>j. if bit test j then 1 else 0) [0..<length ids])"

text \<open>
  The loop over all assignments with the table of results so far. When an evaluation fails, the
  table and the booleans stay as they are at that point.
\<close>

fun precompute ::
  "cond_expr list \<Rightarrow> u32 list \<Rightarrow> nat list \<Rightarrow> cond_bool_datum option list \<Rightarrow> u32
     \<Rightarrow> (errcode \<times> u32 \<times> cond_bool_datum option list) + u32 \<times> cond_bool_datum option list" where
  "precompute e ids [] bools pre = Inr (pre, bools)"
| "precompute e ids (t # ts) bools pre =
     (let bools = set_bools bools (test_values ids t)
      in case cond_eval bools e [] of
           Inl err \<Rightarrow> Inl (err, pre, bools)
         | Inr k \<Rightarrow>
             if k = -1 then Inl (EFAIL, pre, bools)
             else precompute e ids ts bools (if k \<noteq> 0 then pre OR push_bit t 1 else pre))"

text \<open>
  The case \<^verbatim>\<open>!expr\<close>: the trailing negation is dropped and both pairs of lists (the nodes
  of a kernel policy and the rules of a module) are swapped. The empty
  expression is a null pointer that C dereferences.
\<close>

definition strip_not :: "cond_node \<Rightarrow> errcode + cond_node" where
  "strip_not cn =
     (if expr cn = [] then Inl UNDEF
      else if expr_type (last (expr cn)) = COND_NOT then
        (if butlast (expr cn) = [] then Inl EFAIL
         else Inr (cn\<lparr>expr := butlast (expr cn), true_list := false_list cn,
                       false_list := true_list cn, avtrue_list := avfalse_list cn,
                       avfalse_list := avtrue_list cn\<rparr>))
      else Inr cn)"

text \<open>
  The truth table for at most \<^verbatim>\<open>COND_MAX_BOOLS\<close> booleans. The result is the status (\<open>None\<close> is
  success), the database and the node: both are changed in place.
\<close>

definition cond_precompute ::
  "policydb \<Rightarrow> cond_node \<Rightarrow> errcode option \<times> policydb \<times> cond_node" where
  "cond_precompute p cn =
     (let used = take (unat (nbools cn)) (bool_ids cn);
          bools = bool_val_to_struct p
      in if list_ex (\<lambda>i. ptr_arr bools (unat (i - 1)) = None) used then (Some UNDEF, p, cn)
         else
           (let orig = map (\<lambda>i. bool_state (the (ptr_arr bools (unat (i - 1))))) used
            in case precompute (expr cn) used [0..<2 ^ unat (nbools cn)] bools 0 of
                 Inl (err, pre, bs) \<Rightarrow>
                   (Some err, p\<lparr>bool_val_to_struct := bs\<rparr>, cn\<lparr>expr_pre_comp := pre\<rparr>)
               | Inr (pre, bs) \<Rightarrow>
                   (None, p\<lparr>bool_val_to_struct := set_bools bs (zip used orig)\<rparr>,
                    cn\<lparr>expr_pre_comp := pre\<rparr>)))"

definition cond_normalize_expr ::
  "policydb \<Rightarrow> cond_node \<Rightarrow> errcode option \<times> policydb \<times> cond_node" where
  "cond_normalize_expr p cn =
     (let cn = cn\<lparr>nbools := 0, bool_ids := replicate 5 0, expr_pre_comp := 0\<rparr>
      in case strip_not cn of
           Inl err \<Rightarrow> (Some err, p, cn)
         | Inr cn \<Rightarrow>
             (case collect_bools (expr cn) (bool_ids cn) 0 of
                (ids, num) \<Rightarrow>
                  (let cn = cn\<lparr>bool_ids := ids, nbools := num\<rparr>
                   in if num \<le> COND_MAX_BOOLS then cond_precompute p cn else (None, p, cn))))"

section \<open>Boolean indexes\<close>

definition cond_policydb_init :: "policydb \<Rightarrow> policydb" where
  "cond_policydb_init p =
     p\<lparr>bool_val_to_struct := [], cond_list := [], te_cond_avtab := avtab_init (te_cond_avtab p)\<rparr>"

definition cond_policydb_destroy :: "policydb \<Rightarrow> policydb" where
  "cond_policydb_destroy p =
     p\<lparr>bool_val_to_struct := [], cond_list := [], te_cond_avtab := avtab_destroy (te_cond_avtab p)\<rparr>"

definition cond_init_bool_indexes :: "mem \<Rightarrow> policydb \<Rightarrow> errcode + policydb \<times> mem" where
  "cond_init_bool_indexes m p =
     (case malloc m of
        None \<Rightarrow> Inl EFAIL
      | Some m' \<Rightarrow>
          Inr (p\<lparr>bool_val_to_struct := replicate (unat (nprim (p_bools p))) None\<rparr>, m'))"

definition cond_index_bool :: "string \<Rightarrow> cond_bool_datum \<Rightarrow> policydb \<Rightarrow> errcode + policydb" where
  "cond_index_bool k b p =
     (let i = unat (bool_value b - 1)
      in if bool_value b = 0 \<or> bool_value b > nprim (p_bools p) then Inl EINVAL
         else if p_bool_val_to_name p ! i \<noteq> None then Inl EINVAL
         else Inr (p\<lparr>p_bool_val_to_name := (p_bool_val_to_name p)[i := Some k],
                     bool_val_to_struct := (bool_val_to_struct p)[i := Some b]\<rparr>))"

definition bool_isvalid :: "cond_bool_datum \<Rightarrow> bool" where
  "bool_isvalid b = (if \<not> (bool_state b = 0 \<or> bool_state b = 1) then False else True)"

section \<open>Reading\<close>

abbreviation (input) "MOD_POLICYDB_VERSION_TUNABLE_SEP \<equiv> 14"

text \<open>The string in a buffer: its bytes up to the first NUL.\<close>

definition c_string :: "u8 list \<Rightarrow> string" where
  "c_string bs = map (\<lambda>b. char_of (unat b)) (takeWhile (\<lambda>b. b \<noteq> 0) bs)"

text \<open>\<^verbatim>\<open>cond_read_bool\<close> inserts into the table \<open>h\<close>; every failure is -1.\<close>

definition cond_read_bool ::
  "mem \<Rightarrow> policydb \<Rightarrow> (string, cond_bool_datum) hashtab \<Rightarrow> policy_file
     \<Rightarrow> errcode + (string, cond_bool_datum) hashtab \<times> policy_file \<times> mem" where
  "cond_read_bool m p h fp =
     (case malloc m of
        None \<Rightarrow> Inl EFAIL
      | Some m \<Rightarrow>
          rbind (next_u32s fp 3) (\<lambda>(buf, fp).
            let b = \<lparr>bool_value = buf ! 0, bool_state = sint (buf ! 1), bool_flags = 0\<rparr>
            in if \<not> bool_isvalid b then Inl EFAIL
               else rbind (str_read m fp (ucast (buf ! 2))) (\<lambda>(bytes, fp, m).
               rbind (if policy_type p \<noteq> POLICY_KERN \<and>
                         policyvers p \<ge> MOD_POLICYDB_VERSION_TUNABLE_SEP
                      then rbind (next_u32 fp) (\<lambda>(x, fp). Inr (b\<lparr>bool_flags := x\<rparr>, fp))
                      else Inr (b, fp)) (\<lambda>(b, fp).
                 case hashtab_insert symhash symcmp m h (c_string bytes) b of
                   (Some _, _, _) \<Rightarrow> Inl EFAIL
                 | (None, h', m) \<Rightarrow> Inr (h', fp, m)))))"

text \<open>
  The insertion callback. Its state: the database, the list built so far, the budget.
  \<open>other\<close> is the true list while the false list is read, and empty (the null pointer) otherwise.
\<close>

definition cond_insertf ::
  "cond_av_list \<Rightarrow> avtab_key \<Rightarrow> avtab_datum \<Rightarrow> policydb \<times> cond_av_list \<times> mem
     \<Rightarrow> errcode + policydb \<times> cond_av_list \<times> mem" where
  "cond_insertf other k d st =
     (case st of (p, head, m) \<Rightarrow>
        let ins =
          (case avtab_insert_nonunique m (te_cond_avtab p) k d of
             None \<Rightarrow> Inl EFAIL
           | Some (n, h, m1) \<Rightarrow>
               (case malloc m1 of
                  None \<Rightarrow> Inl EFAIL
                | Some m2 \<Rightarrow> Inr (p\<lparr>te_cond_avtab := h\<rparr>, head @ [addr n], m2)))
        in if specified k AND AVTAB_TYPE \<noteq> 0 then
             (if avtab_search (te_avtab p) k \<noteq> None then Inl EFAIL
              else if other \<noteq> [] then
                (case avtab_search_node (te_cond_avtab p) k of
                   [] \<Rightarrow> ins
                 | n # r \<Rightarrow>
                     if avtab_search_node_next (n # r) (specified k) \<noteq> [] then Inl EFAIL
                     else if addr n \<notin> set other then Inl EFAIL
                     else ins)
              else if avtab_search (te_cond_avtab p) k \<noteq> None then Inl EFAIL
              else ins)
           else ins)"

fun read_av_items ::
  "nat \<Rightarrow> policy_file \<Rightarrow> cond_av_list \<Rightarrow> policydb \<times> cond_av_list \<times> mem
     \<Rightarrow> errcode + policy_file \<times> policydb \<times> cond_av_list \<times> mem" where
  "read_av_items 0 fp other st = Inr (fp, st)"
| "read_av_items (Suc n) fp other st =
     rbind (avtab_read_item fp (policyvers (fst st)) (cond_insertf other) st)
       (\<lambda>(fp, st). read_av_items n fp other st)"

definition cond_read_av_list ::
  "mem \<Rightarrow> policydb \<Rightarrow> policy_file \<Rightarrow> cond_av_list
     \<Rightarrow> errcode + policy_file \<times> policydb \<times> cond_av_list \<times> mem" where
  "cond_read_av_list m p fp other =
     rbind (next_u32 fp) (\<lambda>(len, fp).
       if len = 0 then Inr (fp, p, [], m)
       else read_av_items (unat len) fp other (p, [], m))"

definition expr_isvalid :: "policydb \<Rightarrow> cond_expr \<Rightarrow> bool" where
  "expr_isvalid p e =
     (if expr_type e \<le> 0 \<or> expr_type e > COND_LAST then False
      else if boolean e > nprim (p_bools p) then False
      else True)"

fun read_expr ::
  "mem \<Rightarrow> policydb \<Rightarrow> nat \<Rightarrow> policy_file \<Rightarrow> errcode + cond_expr list \<times> policy_file \<times> mem" where
  "read_expr m p 0 fp = Inr ([], fp, m)"
| "read_expr m p (Suc n) fp =
     rbind (next_u32s fp 2) (\<lambda>(buf, fp).
       case malloc m of
         None \<Rightarrow> Inl EFAIL
       | Some m \<Rightarrow>
           (let e = \<lparr>expr_type = buf ! 0, boolean = buf ! 1\<rparr>
            in if \<not> expr_isvalid p e then Inl EFAIL
               else rbind (read_expr m p n fp) (\<lambda>(es, fp, m). Inr (e # es, fp, m))))"

text \<open>A module holds its rules as lists of \<^verbatim>\<open>avrule_t\<close> instead of tables.\<close>

definition cond_read_node ::
  "mem \<Rightarrow> policydb \<Rightarrow> policy_file \<Rightarrow> errcode + cond_node \<times> policydb \<times> policy_file \<times> mem" where
  "cond_read_node m p fp =
     rbind (next_u32 fp) (\<lambda>(st, fp).
     rbind (next_u32 fp) (\<lambda>(len, fp).
     rbind (read_expr m p (unat len) fp) (\<lambda>(es, fp, m).
     rbind (if policy_type p = POLICY_KERN then
              rbind (cond_read_av_list m p fp []) (\<lambda>(fp, p, tl, m).
              rbind (cond_read_av_list m p fp tl) (\<lambda>(fp, p, fl, m). 
              Inr (tl, fl, [], [], p, fp, m)))
            else rbind (avrule_read_list p m fp) (\<lambda>(ts, fp, m).
              rbind (avrule_read_list p m fp) (\<lambda>(fs, fp, m). Inr ([], [], ts, fs, p, fp, m))))
       (\<lambda>(tl, fl, ts, fs, p, fp, m).
     rbind (if policy_type p \<noteq> POLICY_KERN \<and> policyvers p \<ge> MOD_POLICYDB_VERSION_TUNABLE_SEP
            then next_u32 fp else Inr (0, fp)) (\<lambda>(flags, fp).
       Inr (cond_node_zero\<lparr>cur_state := sint st, expr := es, true_list := tl, false_list := fl,
              avtrue_list := ts, avfalse_list := fs, cond_flags := flags\<rparr>, p, fp, m))))))"

fun read_nodes_list ::
  "nat \<Rightarrow> mem \<Rightarrow> policydb \<Rightarrow> policy_file \<Rightarrow> errcode + cond_node list \<times> policydb \<times> policy_file \<times> mem" where
  "read_nodes_list 0 m p fp = Inr ([], p, fp, m)"
| "read_nodes_list (Suc n) m p fp =
     (case malloc m of
        None \<Rightarrow> Inl EFAIL
      | Some m \<Rightarrow>
          rbind (cond_read_node m p fp) (\<lambda>(nd, p, fp, m).
          rbind (read_nodes_list n m p fp) (\<lambda>(ns, p, fp, m). Inr (nd # ns, p, fp, m))))"

definition cond_read_list ::
  "mem \<Rightarrow> policydb \<Rightarrow> policy_file \<Rightarrow> errcode + cond_node list \<times> policydb \<times> policy_file \<times> mem" where
  "cond_read_list m p fp =
     rbind (next_u32 fp) (\<lambda>(len, fp).
     rbind (avtab_alloc m (te_cond_avtab p) (avnel (te_avtab p))) (\<lambda>(h, m).
       read_nodes_list (unat len) m (p\<lparr>te_cond_avtab := h\<rparr>) fp))"

section \<open>Access decisions\<close>

record av_decision =
  allowed :: u32
  decided :: u32
  auditallow :: u32
  auditdeny :: u32
  seqno :: u32

definition cond_av_step :: "avtab_node \<Rightarrow> av_decision \<Rightarrow> av_decision" where
  "cond_av_step n avd =
     (let s = specified (key n);
          avd = (if s AND (AVTAB_ALLOWED OR AVTAB_ENABLED) = AVTAB_ALLOWED OR AVTAB_ENABLED
                 then avd\<lparr>allowed := allowed avd OR data (datum n)\<rparr> else avd);
          avd = (if s AND (AVTAB_AUDITDENY OR AVTAB_ENABLED) = AVTAB_AUDITDENY OR AVTAB_ENABLED
                 then avd\<lparr>auditdeny := auditdeny avd AND data (datum n)\<rparr> else avd)
      in (if s AND (AVTAB_AUDITALLOW OR AVTAB_ENABLED) = AVTAB_AUDITALLOW OR AVTAB_ENABLED
          then avd\<lparr>auditallow := auditallow avd OR data (datum n)\<rparr> else avd))"

definition cond_compute_av :: "avtab \<Rightarrow> avtab_key \<Rightarrow> av_decision \<Rightarrow> av_decision" where
  "cond_compute_av ctab k avd = fold cond_av_step (avtab_walk (specified k) (avtab_search_node ctab k)) avd"

text \<open>\<open>nodes\<close> resolves the addresses of the list.\<close>

fun cond_av_list_search ::
  "(nat \<Rightarrow> avtab_node) \<Rightarrow> avtab_key \<Rightarrow> cond_av_list \<Rightarrow> avtab_datum option" where
  "cond_av_list_search nodes k [] = None"
| "cond_av_list_search nodes k (a # l) =
     (if same_triple (key (nodes a)) k then Some (datum (nodes a))
      else cond_av_list_search nodes k l)"

end
