(* ===== verification/Conditional_Props.thy ===== *)
theory Conditional_Props
  imports Conditional
begin

text \<open>
  Correctness of the conditional policy: the stack evaluator against boolean terms, the normal
  form and its truth table, the switching of rules, and which conditional rules contribute to
  an access decision.
\<close>

section \<open>Expressions as terms\<close>

datatype bop = BOr | BAnd | BXor | BEq | BNeq

datatype bexp = BVar u32 | BNot bexp | BBin bop bexp bexp

fun bop_code :: "bop \<Rightarrow> u32" where
  "bop_code BOr = COND_OR"
| "bop_code BAnd = COND_AND"
| "bop_code BXor = COND_XOR"
| "bop_code BEq = COND_EQ"
| "bop_code BNeq = COND_NEQ"

fun bop_val :: "bop \<Rightarrow> bool \<Rightarrow> bool \<Rightarrow> bool" where
  "bop_val BOr a b \<longleftrightarrow> a \<or> b"
| "bop_val BAnd a b \<longleftrightarrow> a \<and> b"
| "bop_val BXor a b \<longleftrightarrow> a \<noteq> b"
| "bop_val BEq a b \<longleftrightarrow> a = b"
| "bop_val BNeq a b \<longleftrightarrow> a \<noteq> b"

text \<open>Reverse polish notation, and the stack slots that its evaluation takes.\<close>

fun rpn :: "bexp \<Rightarrow> cond_expr list" where
  "rpn (BVar i) = [\<lparr>expr_type = COND_BOOL, boolean = i\<rparr>]"
| "rpn (BNot e) = rpn e @ [\<lparr>expr_type = COND_NOT, boolean = 0\<rparr>]"
| "rpn (BBin f a b) = rpn a @ rpn b @ [\<lparr>expr_type = bop_code f, boolean = 0\<rparr>]"

fun slots :: "bexp \<Rightarrow> nat" where
  "slots (BVar i) = 1"
| "slots (BNot e) = slots e"
| "slots (BBin f a b) = max (slots a) (slots b + 1)"

definition bool_of :: "cond_bool_datum option list \<Rightarrow> u32 \<Rightarrow> bool" where
  "bool_of bools i \<longleftrightarrow>
     (case ptr_arr bools (unat (i - 1)) of None \<Rightarrow> False | Some b \<Rightarrow> bool_state b = 1)"

fun bval :: "cond_bool_datum option list \<Rightarrow> bexp \<Rightarrow> bool" where
  "bval bools (BVar i) \<longleftrightarrow> bool_of bools i"
| "bval bools (BNot e) \<longleftrightarrow> \<not> bval bools e"
| "bval bools (BBin f a b) \<longleftrightarrow> bop_val f (bval bools a) (bval bools b)"

fun bvars :: "bexp \<Rightarrow> u32 set" where
  "bvars (BVar i) = {i}"
| "bvars (BNot e) = bvars e"
| "bvars (BBin f a b) = bvars a \<union> bvars b"

text \<open>Every boolean the expression names exists and is 0 or 1.\<close>

definition bools_ok :: "cond_bool_datum option list \<Rightarrow> u32 set \<Rightarrow> bool" where
  "bools_ok bools ids \<longleftrightarrow>
     (\<forall>i \<in> ids. \<exists>b. ptr_arr bools (unat (i - 1)) = Some b \<and> bool_state b \<in> {0, 1})"

lemma bop_int:
  "(of_bool a OR of_bool b :: int) = of_bool (a \<or> b)"
  "(of_bool a AND of_bool b :: int) = of_bool (a \<and> b)"
  "(of_bool a XOR of_bool b :: int) = of_bool (a \<noteq> b)"
  by (cases a; cases b; simp)+

lemma cond_eval_rpn:
  "bools_ok bools (bvars e) \<Longrightarrow> length s \<le> 10 \<Longrightarrow>
     cond_eval bools (rpn e @ es) s =
       (if length s + slots e \<le> 10 then cond_eval bools es (of_bool (bval bools e) # s)
        else Inr (-1))"
proof (induction e arbitrary: s es)
  case (BVar i)
  then obtain b where b: "ptr_arr bools (unat (i - 1)) = Some b" "bool_state b \<in> {0, 1}"
    by (auto simp: bools_ok_def)
  then have "bool_state b = of_bool (bool_of bools i)" by (auto simp: bool_of_def)
  with b BVar.prems(2) show ?case by auto
next
  case (BNot e)
  then show ?case by (cases "bval bools e") simp_all
next
  case (BBin f a b)
  have ok: "bools_ok bools (bvars a)" "bools_ok bools (bvars b)"
    using BBin.prems(1) by (auto simp: bools_ok_def)
  show ?case
  proof (cases "length s + slots a \<le> 10")
    case False
    then have "\<not> length s + slots (BBin f a b) \<le> 10" by (auto simp: max_def)
    then show ?thesis using False BBin.IH(1)[OF ok(1) BBin.prems(2)] by (simp del: slots.simps)
  next
    case True
    have "0 < slots a" by (induction a) auto
    with True have len: "length (of_bool (bval bools a) # s) \<le> 10" by simp
    show ?thesis
      using BBin.IH(1)[OF ok(1) BBin.prems(2)] BBin.IH(2)[OF ok(2) len] True
      by (cases f) (auto simp: bop_int of_bool_eq_iff)
  qed
qed

lemma cond_evaluate_rpn:
  assumes "bools_ok (bool_val_to_struct p) (bvars e)"
  shows "cond_evaluate_expr p (rpn e) =
    Inr (if slots e \<le> 10 then of_bool (bval (bool_val_to_struct p) e) else -1)"
  using cond_eval_rpn[OF assms, of "[]" "[]"] by (simp add: cond_evaluate_expr_def)

text \<open>Whatever the expression, the result is -1, 0 or 1 and the stack stays in its array.\<close>

definition state_ok :: "cond_bool_datum option list \<Rightarrow> bool" where
  "state_ok bools \<longleftrightarrow> (\<forall>b. Some b \<in> set bools \<longrightarrow> bool_state b \<in> {0, 1})"

lemma ptr_arr_in_set: "ptr_arr xs i = Some x \<Longrightarrow> Some x \<in> set xs"
  by (auto simp: ptr_arr_def split: if_splits) (metis nth_mem)

definition three_valued :: "int \<Rightarrow> bool" where
  "three_valued k \<longleftrightarrow> k \<in> {-1, 0, 1}"

definition bit_stack :: "int list \<Rightarrow> bool" where
  "bit_stack s \<longleftrightarrow> set s \<subseteq> {0, 1}"

lemma bit_stack_simps [simp]:
  "bit_stack []" "bit_stack (a # s) \<longleftrightarrow> (a = 0 \<or> a = 1) \<and> bit_stack s"
  by (auto simp: bit_stack_def)

lemma cond_eval_range_aux:
  "cond_eval bools es s = Inr k \<Longrightarrow> state_ok bools \<Longrightarrow> bit_stack s \<Longrightarrow> three_valued k"
proof (induction es arbitrary: s)
  case Nil
  show ?case
  proof (cases "s = []")
    case True
    with Nil show ?thesis by (simp add: three_valued_def)
  next
    case False
    then have "last s \<in> {0, 1}" using Nil.prems(3) last_in_set by (fastforce simp: bit_stack_def)
    with False Nil.prems(1) show ?thesis by (auto simp: three_valued_def)
  qed
next
  case (Cons cur es)
  note ih = Cons.IH[OF _ Cons.prems(2)]
  have m1: "three_valued (-1)" by (simp add: three_valued_def)
  have st: "bool_state b = 0 \<or> bool_state b = 1" if "ptr_arr bools i = Some b" for i b
    using Cons.prems(2) ptr_arr_in_set[OF that] by (auto simp: state_ok_def)
  show ?case
    using Cons.prems(1,3) m1
    by (auto split: if_splits option.splits list.splits intro: ih dest!: st)
qed

lemma cond_eval_range:
  assumes "cond_evaluate_expr p e = Inr k" "state_ok (bool_val_to_struct p)"
  shows "k \<in> {-1, 0, 1}"
  using cond_eval_range_aux[of "bool_val_to_struct p" e "[]" k] assms
  by (simp add: cond_evaluate_expr_def three_valued_def)

section \<open>The order of the rule lists\<close>

lemma cond_optimize_loop_eq:
  "seen \<noteq> [] \<Longrightarrow> cond_optimize_loop spec seen l =
     rev (filter (\<lambda>a. spec a AND AVTAB_TYPE \<noteq> 0) l) @ seen @
     filter (\<lambda>a. spec a AND AVTAB_TYPE = 0) l"
  by (induction l arbitrary: seen) auto

lemma cond_optimize_eq:
  "cond_optimize spec l =
     rev (filter (\<lambda>a. spec a AND AVTAB_TYPE \<noteq> 0) l) @ filter (\<lambda>a. spec a AND AVTAB_TYPE = 0) l"
  by (cases l) (auto simp: cond_optimize_def cond_optimize_loop_eq)

section \<open>The normal form\<close>

text \<open>Two arrays of booleans that agree but for the states of the given ones.\<close>

definition agree_but ::
  "u32 list \<Rightarrow> cond_bool_datum option list \<Rightarrow> cond_bool_datum option list \<Rightarrow> bool" where
  "agree_but ids as bs \<longleftrightarrow> length as = length bs \<and>
     (\<forall>j < length bs. map_option (bool_state_update (\<lambda>_. 0)) (as ! j) =
        map_option (bool_state_update (\<lambda>_. 0)) (bs ! j) \<and>
        (j \<notin> (\<lambda>i. unat (i - 1)) ` set ids \<longrightarrow> as ! j = bs ! j))"

lemma agree_but_refl [simp]: "agree_but ids bs bs"
  by (simp add: agree_but_def)

lemma agree_but_Nil: "agree_but [] as bs \<Longrightarrow> as = bs"
  by (auto simp: agree_but_def intro: nth_equalityI)

lemma set_bool_state_nth:
  assumes "j < length bools"
  shows "set_bool_state bools i v ! j =
    (if j = unat (i - 1) then map_option (bool_state_update (\<lambda>_. v)) (bools ! j) else bools ! j)"
  using assms by (auto simp: set_bool_state_def Let_def ptr_arr_def split: option.splits)

lemma length_set_bool_state [simp]: "length (set_bool_state bools i v) = length bools"
  by (simp add: set_bool_state_def Let_def split: option.splits)

lemma agree_but_set:
  assumes "agree_but ids as bs" "i \<in> set ids"
  shows "agree_but ids (set_bool_state as i v) bs"
proof -
  have len: "length as = length bs" using assms(1) by (simp add: agree_but_def)
  have strip: "map_option (bool_state_update (\<lambda>_. 0)) (map_option (bool_state_update (\<lambda>_. v)) x) =
      map_option (bool_state_update (\<lambda>_. 0)) x" for x :: "cond_bool_datum option"
    by (cases x) simp_all
  show ?thesis
    using assms len by (auto simp: agree_but_def set_bool_state_nth strip)
qed

lemma agree_but_set_bools:
  "agree_but ids as bs \<Longrightarrow> fst ` set ivs \<subseteq> set ids \<Longrightarrow> agree_but ids (set_bools as ivs) bs"
proof (induction ivs arbitrary: as)
  case (Cons x ivs)
  obtain i v where x: "x = (i, v)" by fastforce
  have "agree_but ids (set_bool_state as i v) bs"
    using Cons.prems by (intro agree_but_set) (auto simp: x)
  with Cons show ?case by (simp add: x set_bools_def)
qed (simp add: set_bools_def)

lemma restore_bools:
  assumes "agree_but ids as bs" "\<forall>i \<in> set ids. \<exists>b. ptr_arr bs (unat (i - 1)) = Some b"
  shows "set_bools as (zip ids (map (\<lambda>i. bool_state (the (ptr_arr bs (unat (i - 1))))) ids)) = bs"
  using assms
proof (induction ids arbitrary: as)
  case Nil
  then show ?case by (simp add: set_bools_def agree_but_Nil)
next
  case (Cons i ids)
  let ?j = "unat (i - 1)"
  obtain b where b: "ptr_arr bs ?j = Some b" using Cons.prems(2) by auto
  then have jb: "?j < length bs" "bs ! ?j = Some b" by (auto simp: ptr_arr_def split: if_splits)
  have len: "length as = length bs" using Cons.prems(1) by (simp add: agree_but_def)
  have "map_option (bool_state_update (\<lambda>_. 0)) (as ! ?j) = Some (b\<lparr>bool_state := 0\<rparr>)"
    using Cons.prems(1) jb by (auto simp: agree_but_def)
  then obtain a where a: "as ! ?j = Some a" "a\<lparr>bool_state := 0\<rparr> = b\<lparr>bool_state := 0\<rparr>" by auto
  then have ab: "a\<lparr>bool_state := bool_state b\<rparr> = b" by (cases a; cases b) simp
  have "agree_but ids (set_bool_state as i (bool_state b)) bs"
    using Cons.prems(1) jb len a ab
    by (auto simp: agree_but_def set_bool_state_nth)
  from Cons.IH[OF this] Cons.prems(2) b show ?case by (simp add: set_bools_def)
qed

text \<open>The booleans under an assignment \<open>t\<close>; a second assignment overwrites the first.\<close>

definition assign :: "cond_bool_datum option list \<Rightarrow> u32 list \<Rightarrow> nat \<Rightarrow> cond_bool_datum option list" where
  "assign bools ids t = set_bools bools (test_values ids t)"

lemma set_bools_append: "set_bools bs (xs @ ys) = set_bools (set_bools bs xs) ys"
  by (simp add: set_bools_def)

lemma set_bool_state_twice:
  "set_bool_state (set_bool_state bs i v) i w = set_bool_state bs i w"
  by (rule nth_equalityI) (simp_all add: set_bool_state_nth option.map_comp comp_def)

lemma bool_upd_eq:
  "bool_state_update (\<lambda>_. 0) a = bool_state_update (\<lambda>_. 0) b \<Longrightarrow>
     bool_state_update (\<lambda>_. v) a = bool_state_update (\<lambda>_. v) (b :: cond_bool_datum)"
  by (cases a; cases b) simp

lemma map_state_eq:
  fixes x y :: "cond_bool_datum option"
  assumes "map_option (bool_state_update (\<lambda>_. 0)) x = map_option (bool_state_update (\<lambda>_. 0)) y"
  shows "map_option (bool_state_update (\<lambda>_. v)) x = map_option (bool_state_update (\<lambda>_. v)) y"
proof (cases x)
  case None
  with assms show ?thesis by simp
next
  case (Some a)
  with assms obtain b where "y = Some b" by (cases y) auto
  with Some assms bool_upd_eq[of a b v] show ?thesis by simp
qed

lemma set_bools_agree:
  assumes "agree_but ids as bs" "length vs = length ids"
  shows "set_bools as (zip ids vs) = set_bools bs (zip ids vs)"
  using assms
proof (induction ids arbitrary: as bs vs)
  case Nil
  then show ?case by (simp add: set_bools_def agree_but_Nil)
next
  case (Cons i ids)
  then obtain v vs' where vs: "vs = v # vs'" by (cases vs) auto
  have len: "length as = length bs" using Cons.prems(1) by (simp add: agree_but_def)
  have "agree_but ids (set_bool_state as i v) (set_bool_state bs i v)"
    unfolding agree_but_def
  proof (intro conjI allI impI)
    fix j assume "j < length (set_bool_state bs i v)"
    then have j: "j < length as" "j < length bs" using len by simp_all
    have s0: "map_option (bool_state_update (\<lambda>_. 0)) (as ! j) = map_option (bool_state_update (\<lambda>_. 0)) (bs ! j)"
      and out: "j \<notin> (\<lambda>i. unat (i - 1)) ` set (i # ids) \<Longrightarrow> as ! j = bs ! j"
      using Cons.prems(1) j by (auto simp: agree_but_def)
    have sv: "map_option (bool_state_update (\<lambda>_. v)) (as ! j) = map_option (bool_state_update (\<lambda>_. v)) (bs ! j)"
      by (rule map_state_eq[OF s0])
    show "map_option (bool_state_update (\<lambda>_. 0)) (set_bool_state as i v ! j) =
        map_option (bool_state_update (\<lambda>_. 0)) (set_bool_state bs i v ! j)"
      using s0 sv by (simp only: set_bool_state_nth[OF j(1)] set_bool_state_nth[OF j(2)] split: if_split) simp
    show "set_bool_state as i v ! j = set_bool_state bs i v ! j"
      if "j \<notin> (\<lambda>i. unat (i - 1)) ` set ids"
      using that sv out by (simp only: set_bool_state_nth[OF j(1)] set_bool_state_nth[OF j(2)] split: if_split) simp
  qed (simp add: len)
  then have "set_bools (set_bool_state as i v) (zip ids vs') =
      set_bools (set_bool_state bs i v) (zip ids vs')"
    by (rule Cons.IH) (use Cons.prems(2) vs in simp)
  then show ?case by (simp add: vs set_bools_def)
qed

lemma assign_agree: "agree_but ids as bs \<Longrightarrow> assign as ids t = assign bs ids t"
  by (simp add: assign_def test_values_def set_bools_agree)

lemma agree_but_assign: "agree_but ids as bs \<Longrightarrow> agree_but ids (assign as ids t) bs"
  by (auto simp: assign_def test_values_def intro!: agree_but_set_bools dest: set_zip_leftD)

lemma precompute_ok:
  "precompute e ids ts as pre = Inr (pre', bs') \<Longrightarrow> agree_but ids as bs \<Longrightarrow>
     (\<forall>t \<in> set ts. t < 32) \<Longrightarrow>
     agree_but ids bs' bs \<and>
     (\<forall>t < 32. bit pre' t \<longleftrightarrow> bit pre t \<or>
        (t \<in> set ts \<and> (\<exists>k. cond_eval (assign bs ids t) e [] = Inr k \<and> k \<noteq> 0)))"
proof (induction ts arbitrary: as pre)
  case (Cons t ts)
  have eq: "assign as ids t = assign bs ids t" by (rule assign_agree[OF Cons.prems(2)])
  have ag: "agree_but ids (assign bs ids t) bs" by (rule agree_but_assign) simp
  from Cons.prems(1) obtain k where k: "cond_eval (assign bs ids t) e [] = Inr k" "k \<noteq> -1"
    and r: "precompute e ids ts (assign bs ids t) (if k \<noteq> 0 then pre OR push_bit t 1 else pre)
      = Inr (pre', bs')"
    using eq by (auto simp: Let_def assign_def[symmetric] split: sum.splits if_splits)
  have t: "t < 32" using Cons.prems(3) by simp
  from Cons.IH[OF r ag] Cons.prems(3) k t show ?case by auto
qed auto

lemma cond_precompute_ok:
  assumes "cond_precompute p cn = (None, p', cn')" "unat (nbools cn) \<le> 5"
  shows "p' = p" and "\<exists>pre. cn' = cn\<lparr>expr_pre_comp := pre\<rparr>"
    and "t < 2 ^ unat (nbools cn) \<Longrightarrow>
      bit (expr_pre_comp cn') t \<longleftrightarrow>
        (\<exists>k. cond_eval (assign (bool_val_to_struct p) (take (unat (nbools cn)) (bool_ids cn)) t)
               (expr cn) [] = Inr k \<and> k \<noteq> 0)"
proof -
  let ?used = "take (unat (nbools cn)) (bool_ids cn)"
  let ?bools = "bool_val_to_struct p"
  have here: "\<forall>i \<in> set ?used. \<exists>b. ptr_arr ?bools (unat (i - 1)) = Some b"
    using assms(1) by (auto simp: cond_precompute_def Let_def list_ex_iff split: if_splits)
  from assms(1) obtain pre bs where
    pre: "precompute (expr cn) ?used [0..<2 ^ unat (nbools cn)] ?bools 0 = Inr (pre, bs)"
    and p': "p' = p\<lparr>bool_val_to_struct := set_bools bs (zip ?used
       (map (\<lambda>i. bool_state (the (ptr_arr ?bools (unat (i - 1))))) ?used))\<rparr>"
    and cn': "cn' = cn\<lparr>expr_pre_comp := pre\<rparr>"
    by (auto simp: cond_precompute_def Let_def split: if_splits sum.splits prod.splits)
  have "(2 :: nat) ^ unat (nbools cn) \<le> 2 ^ 5" using assms(2) by (rule power_increasing) simp
  then have lt: "\<forall>t \<in> set [0..<2 ^ unat (nbools cn)]. t < 32" by auto
  note r = precompute_ok[OF pre agree_but_refl lt]
  then have "set_bools bs (zip ?used
      (map (\<lambda>i. bool_state (the (ptr_arr ?bools (unat (i - 1))))) ?used)) = ?bools"
    by (intro restore_bools[OF _ here]) simp
  then show "p' = p" by (simp add: p')
  show "\<exists>pre. cn' = cn\<lparr>expr_pre_comp := pre\<rparr>" using cn' by blast
  show "t < 2 ^ unat (nbools cn) \<Longrightarrow>
      bit (expr_pre_comp cn') t \<longleftrightarrow>
        (\<exists>k. cond_eval (assign ?bools ?used t) (expr cn) [] = Inr k \<and> k \<noteq> 0)"
    using r lt by (auto simp: cn')
qed

lemma cond_normalize_ok:
  assumes n: "cond_normalize_expr p cn = (None, p', cn')"
  shows "p' = p"
    and "expr cn' = (if expr_type (last (expr cn)) = COND_NOT then butlast (expr cn) else expr cn)"
    and "(true_list cn', false_list cn') =
      (if expr_type (last (expr cn)) = COND_NOT then (false_list cn, true_list cn)
       else (true_list cn, false_list cn))"
    and "(avtrue_list cn', avfalse_list cn') =
      (if expr_type (last (expr cn)) = COND_NOT then (avfalse_list cn, avtrue_list cn)
       else (avtrue_list cn, avfalse_list cn))"
    and "nbools cn' \<le> 5 \<Longrightarrow> t < 2 ^ unat (nbools cn') \<Longrightarrow>
      bit (expr_pre_comp cn') t \<longleftrightarrow>
        (\<exists>k. cond_eval (assign (bool_val_to_struct p) (take (unat (nbools cn')) (bool_ids cn')) t)
               (expr cn') [] = Inr k \<and> k \<noteq> 0)"
proof -
  let ?neg = "expr_type (last (expr cn)) = COND_NOT"
  let ?c0 = "cn\<lparr>nbools := 0, bool_ids := replicate 5 0, expr_pre_comp := 0\<rparr>"
  from n obtain c1 where s: "strip_not ?c0 = Inr c1"
    by (auto simp: cond_normalize_expr_def Let_def split: sum.splits)
  then have c1: "expr c1 = (if ?neg then butlast (expr cn) else expr cn)"
      "(true_list c1, false_list c1) =
        (if ?neg then (false_list cn, true_list cn) else (true_list cn, false_list cn))"
      "(avtrue_list c1, avfalse_list c1) =
        (if ?neg then (avfalse_list cn, avtrue_list cn) else (avtrue_list cn, avfalse_list cn))"
    by (auto simp: strip_not_def split: if_splits)
  obtain ids num where col: "collect_bools (expr c1) (bool_ids c1) 0 = (ids, num)" by fastforce
  let ?c2 = "c1\<lparr>bool_ids := ids, nbools := num\<rparr>"
  have res: "(if num \<le> 5 then cond_precompute p ?c2 else (None, p, ?c2)) = (None, p', cn')"
    using n s col by (simp add: cond_normalize_expr_def Let_def split: sum.splits)
  have "p' = p \<and> (\<exists>pre. cn' = ?c2\<lparr>expr_pre_comp := pre\<rparr>) \<and>
    (num \<le> 5 \<longrightarrow> t < 2 ^ unat num \<longrightarrow> (bit (expr_pre_comp cn') t \<longleftrightarrow>
        (\<exists>k. cond_eval (assign (bool_val_to_struct p) (take (unat num) ids) t)
               (expr c1) [] = Inr k \<and> k \<noteq> 0)))"
  proof (cases "num \<le> 5")
    case True
    then have le: "unat (nbools ?c2) \<le> 5" by (simp add: word_facts)
    have pc: "cond_precompute p ?c2 = (None, p', cn')" using res True by simp
    show ?thesis
      using cond_precompute_ok(1,2)[OF pc le] cond_precompute_ok(3)[OF pc le, of t] by simp
  next
    case False
    with res have "cn' = ?c2" "p' = p" by auto
    then show ?thesis using False by (auto intro!: exI[of _ "expr_pre_comp ?c2"])
  qed
  then show "p' = p"
    and "expr cn' = (if ?neg then butlast (expr cn) else expr cn)"
    and "(true_list cn', false_list cn') =
      (if ?neg then (false_list cn, true_list cn) else (true_list cn, false_list cn))"
    and "(avtrue_list cn', avfalse_list cn') =
      (if ?neg then (avfalse_list cn, avtrue_list cn) else (avtrue_list cn, avfalse_list cn))"
    and "nbools cn' \<le> 5 \<Longrightarrow> t < 2 ^ unat (nbools cn') \<Longrightarrow>
      bit (expr_pre_comp cn') t \<longleftrightarrow>
        (\<exists>k. cond_eval (assign (bool_val_to_struct p) (take (unat (nbools cn')) (bool_ids cn')) t)
               (expr cn') [] = Inr k \<and> k \<noteq> 0)"
    using c1 by auto
qed

section \<open>Switching rules\<close>

lemma av_nodes_map: "av_nodes (map_nodes f h) = map f (av_nodes h)"
  by (simp add: av_nodes_def map_nodes_def map_concat split: option.splits)

lemma switch_list_map:
  "switch_list on l h =
     map_nodes (\<lambda>n. if addr n \<in> set l
        then n\<lparr>key := (key n)\<lparr>specified :=
               (if on then specified (key n) OR AVTAB_ENABLED
                else specified (key n) AND NOT AVTAB_ENABLED)\<rparr>\<rparr>
        else n) h"
proof (induction l arbitrary: h)
  case Nil
  show ?case by (cases h) (simp add: map_nodes_def option.map_ident)
next
  case (Cons a l)
  have idem: "(x AND NOT e) AND NOT e = x AND NOT e" "(x OR e) OR e = x OR e" for x e :: u16
    by (simp_all add: and.assoc or.assoc)
  show ?case
    unfolding switch_list.simps Cons.IH
    by (cases h)
       (auto simp: map_nodes_def switch_node_def option.map_comp comp_def idem
         intro!: option.map_cong0)
qed

definition enabled :: "avtab_node \<Rightarrow> bool" where
  "enabled n \<longleftrightarrow> specified (key n) AND AVTAB_ENABLED \<noteq> 0"

lemma enabled_bits:
  "(s AND - 32769) AND 32768 = (0 :: u16)" "(s AND - 32769) AND 32767 = s AND (32767 :: u16)"
  "(s OR 32768) AND 32768 = (32768 :: u16)" "(s OR 32768) AND 32767 = s AND (32767 :: u16)"
  by (simp_all add: and.assoc bit.conj_disj_distrib2)

lemma enabled_switch:
  "enabled (n\<lparr>key := (key n)\<lparr>specified := specified (key n) OR AVTAB_ENABLED\<rparr>\<rparr>)"
  "\<not> enabled (n\<lparr>key := (key n)\<lparr>specified := specified (key n) AND NOT AVTAB_ENABLED\<rparr>\<rparr>)"
  by (simp_all add: enabled_def enabled_bits)

text \<open>What the switching of a list does to a node; nothing but the enabled flag changes.\<close>

definition switched :: "bool \<Rightarrow> nat set \<Rightarrow> avtab_node \<Rightarrow> avtab_node" where
  "switched on A n =
     (if addr n \<in> A
      then n\<lparr>key := (key n)\<lparr>specified :=
             (if on then specified (key n) OR AVTAB_ENABLED
              else specified (key n) AND NOT AVTAB_ENABLED)\<rparr>\<rparr>
      else n)"

lemma switched_simps [simp]:
  "addr (switched on A n) = addr n" "datum (switched on A n) = datum n"
  "triple (key (switched on A n)) = triple (key n)"
  "rule_kind (specified (key (switched on A n))) = rule_kind (specified (key n))"
proof -
  show "addr (switched on A n) = addr n" "datum (switched on A n) = datum n"
    "triple (key (switched on A n)) = triple (key n)"
    by (simp_all add: switched_def triple_def)
  show "rule_kind (specified (key (switched on A n))) = rule_kind (specified (key n))"
    by (simp add: switched_def rule_kind_def enabled_bits)
qed

lemma enabled_switched: "addr n \<in> A \<Longrightarrow> enabled (switched on A n) \<longleftrightarrow> on"
  using enabled_switch[of n] by (simp add: switched_def)

lemma enabled_switched_other: "addr n \<notin> A \<Longrightarrow> switched on A n = n"
  by (simp add: switched_def)

lemma switch_list_nodes: "av_nodes (switch_list on l h) = map (switched on (set l)) (av_nodes h)"
  by (simp add: switch_list_map av_nodes_map switched_def)

lemma av_slots_ok_map:
  assumes ok: "av_slots_ok msk t" and f: "\<And>n. triple (key (f n)) = triple (key n)"
  shows "av_slots_ok msk (map (map f) t)"
  unfolding av_slots_ok_def
proof (intro allI impI)
  fix i assume "i < length (map (map f) t)"
  then have i: "i < length t" by simp
  then have "chain_sorted (t ! i)" and h: "\<forall>n \<in> set (t ! i). unat (avtab_hash (key n) msk) = i"
    using ok by (auto simp: av_slots_ok_def)
  then have "chain_sorted (map f (t ! i))"
    by (simp add: chain_sorted_def sorted_wrt_map key_before_triple f)
  moreover have "avtab_hash (key (f n)) msk = avtab_hash (key n) msk" for n
    by (rule avtab_hash_same_triple) (simp add: same_triple_iff f)
  ultimately show "chain_sorted (map (map f) t ! i) \<and>
      (\<forall>n \<in> set (map (map f) t ! i). unat (avtab_hash (key n) msk) = i)"
    using h i by simp
qed

lemma wf_avtab_map_nodes:
  assumes wf: "wf_avtab h" and f: "\<And>n. triple (key (f n)) = triple (key n)"
  shows "wf_avtab (map_nodes f h)"
proof (cases "avtable h")
  case None
  then show ?thesis by (simp add: wf_avtab_def map_nodes_def)
next
  case (Some t)
  have "length (concat (map (map f) t)) = length (concat t)" by (simp add: length_concat comp_def)
  moreover have "av_slots_ok (avmask h) (map (map f) t)"
    by (rule av_slots_ok_map[where f = f, OF wf_avtab_slots[OF wf Some] f])
  ultimately show ?thesis
    using wf Some by (simp add: wf_avtab_def map_nodes_def del: length_concat)
qed

lemma switch_list_wf: "wf_avtab h \<Longrightarrow> wf_avtab (switch_list on l h)"
  unfolding switch_list_map by (rule wf_avtab_map_nodes) (auto simp: triple_def)

lemma evaluate_cond_node_cases:
  assumes "evaluate_cond_node p n = Inr (p', n')"
  obtains k where "cond_evaluate_expr p (expr n) = Inr k" "k = cur_state n" "p' = p" "n' = n"
  | k where "cond_evaluate_expr p (expr n) = Inr k" "k \<noteq> cur_state n" "n' = n\<lparr>cur_state := k\<rparr>"
    "p' = p\<lparr>te_cond_avtab := switch_list (\<not> k \<noteq> 0) (false_list n)
         (switch_list (\<not> k \<le> 0) (true_list n) (te_cond_avtab p))\<rparr>"
proof -
  from assms obtain k where k: "cond_evaluate_expr p (expr n) = Inr k"
    by (auto simp: evaluate_cond_node_def rbind_eq_Inr)
  show ?thesis
  proof (cases "k = cur_state n")
    case True
    then have "p' = p" "n' = n" using assms by (simp_all add: evaluate_cond_node_def k)
    then show ?thesis using that(1) k True by simp
  next
    case False
    then have "p' = p\<lparr>te_cond_avtab := switch_list (\<not> k \<noteq> 0) (false_list n)
        (switch_list (\<not> k \<le> 0) (true_list n) (te_cond_avtab p))\<rparr>" "n' = n\<lparr>cur_state := k\<rparr>"
      using assms by (simp_all add: evaluate_cond_node_def k Let_def)
    then show ?thesis using that(2) k False by blast
  qed
qed

text \<open>What the evaluation of a conditional does to the nodes of the table.\<close>

definition cond_switched :: "cond_node \<Rightarrow> int \<Rightarrow> avtab_node \<Rightarrow> avtab_node" where
  "cond_switched n k =
     switched (\<not> k \<noteq> 0) (set (false_list n)) \<circ> switched (\<not> k \<le> 0) (set (true_list n))"

lemma cond_switched_simps [simp]:
  "addr (cond_switched n k x) = addr x" "datum (cond_switched n k x) = datum x"
  "triple (key (cond_switched n k x)) = triple (key x)"
  "rule_kind (specified (key (cond_switched n k x))) = rule_kind (specified (key x))"
  by (simp_all add: cond_switched_def)

lemma cond_switched_other:
  "addr x \<notin> set (true_list n) \<Longrightarrow> addr x \<notin> set (false_list n) \<Longrightarrow> cond_switched n k x = x"
  by (simp add: cond_switched_def enabled_switched_other)

lemma cond_switched_false:
  "addr x \<in> set (false_list n) \<Longrightarrow> enabled (cond_switched n k x) \<longleftrightarrow> k = 0"
  by (simp add: cond_switched_def enabled_switched)

lemma cond_switched_true:
  "addr x \<in> set (true_list n) \<Longrightarrow> addr x \<notin> set (false_list n) \<Longrightarrow>
    enabled (cond_switched n k x) \<longleftrightarrow> 0 < k"
  by (simp add: cond_switched_def enabled_switched enabled_switched_other not_le)

lemma evaluate_cond_node_state:
  assumes "evaluate_cond_node p n = Inr (p', n')"
  shows "cond_evaluate_expr p (expr n) = Inr (cur_state n')"
    and "n' = n\<lparr>cur_state := cur_state n'\<rparr>" and "p' = p\<lparr>te_cond_avtab := te_cond_avtab p'\<rparr>"
  by (rule evaluate_cond_node_cases[OF assms]; simp)+

lemma evaluate_cond_node_wf:
  assumes "evaluate_cond_node p n = Inr (p', n')" "wf_avtab (te_cond_avtab p)"
  shows "wf_avtab (te_cond_avtab p')"
  by (rule evaluate_cond_node_cases[OF assms(1)]) (simp_all add: assms(2) switch_list_wf)

lemma evaluate_cond_node_nodes:
  assumes "evaluate_cond_node p n = Inr (p', n')"
  shows "cur_state n' = cur_state n \<Longrightarrow> p' = p"
    and "cur_state n' \<noteq> cur_state n \<Longrightarrow>
      av_nodes (te_cond_avtab p') = map (cond_switched n (cur_state n')) (av_nodes (te_cond_avtab p))"
proof -
  show "cur_state n' = cur_state n \<Longrightarrow> p' = p"
    by (rule evaluate_cond_node_cases[OF assms]) simp_all
  assume ne: "cur_state n' \<noteq> cur_state n"
  show "av_nodes (te_cond_avtab p') = map (cond_switched n (cur_state n')) (av_nodes (te_cond_avtab p))"
    by (rule evaluate_cond_node_cases[OF assms]) (use ne in \<open>simp_all add: switch_list_nodes cond_switched_def\<close>)
qed

section \<open>Access decisions\<close>

text \<open>The rules of a kind that are switched on.\<close>

definition active :: "u16 \<Rightarrow> avtab_node \<Rightarrow> bool" where
  "active kind n \<longleftrightarrow> specified (key n) AND (kind OR AVTAB_ENABLED) = kind OR AVTAB_ENABLED"

lemma fold_cond_av:
  "allowed (fold cond_av_step ns avd) =
     fold (\<lambda>n a. if active AVTAB_ALLOWED n then a OR data (datum n) else a) ns (allowed avd)"
  "auditdeny (fold cond_av_step ns avd) =
     fold (\<lambda>n a. if active AVTAB_AUDITDENY n then a AND data (datum n) else a) ns (auditdeny avd)"
  "auditallow (fold cond_av_step ns avd) =
     fold (\<lambda>n a. if active AVTAB_AUDITALLOW n then a OR data (datum n) else a) ns (auditallow avd)"
  by (induction ns arbitrary: avd) (simp_all add: cond_av_step_def active_def Let_def)

lemma fold_cond_av_other:
  "decided (fold cond_av_step ns avd) = decided avd" "seqno (fold cond_av_step ns avd) = seqno avd"
  by (induction ns arbitrary: avd) (simp_all add: cond_av_step_def Let_def)

lemma cond_compute_av_allowed:
  assumes "wf_avtab h"
  shows "bit (allowed (cond_compute_av h k avd)) i \<longleftrightarrow> bit (allowed avd) i \<or>
    (\<exists>n \<in> set (av_nodes h). answers k n \<and> active AVTAB_ALLOWED n \<and> bit (data (datum n)) i)"
  unfolding cond_compute_av_def fold_cond_av
  using rules.collect_or[OF assms, of "active AVTAB_ALLOWED" "\<lambda>n. data (datum n)" k "allowed avd" i]
  by (simp add: avtab_visit_def)

lemma cond_compute_av_auditdeny:
  assumes "wf_avtab h"
  shows "bit (auditdeny (cond_compute_av h k avd)) i \<longleftrightarrow> bit (auditdeny avd) i \<and>
    (\<forall>n \<in> set (av_nodes h). answers k n \<and> active AVTAB_AUDITDENY n \<longrightarrow> bit (data (datum n)) i)"
  unfolding cond_compute_av_def fold_cond_av
  using rules.collect_and[OF assms, of "active AVTAB_AUDITDENY" "\<lambda>n. data (datum n)" k "auditdeny avd" i]
  by (simp add: avtab_visit_def)

section \<open>Two expressions that compare equal\<close>

text \<open>\<open>A && !B\<close> and \<open>B && !A\<close> over the booleans 1 and 2.\<close>

definition and_not_node :: "u32 \<Rightarrow> u32 \<Rightarrow> cond_node" where
  "and_not_node a b =
     cond_node_zero\<lparr>expr := [\<lparr>expr_type = COND_BOOL, boolean = a\<rparr>, \<lparr>expr_type = COND_BOOL, boolean = b\<rparr>,
        \<lparr>expr_type = COND_NOT, boolean = 0\<rparr>, \<lparr>expr_type = COND_AND, boolean = 0\<rparr>]\<rparr>"

definition two_bools :: "int \<Rightarrow> int \<Rightarrow> policydb \<Rightarrow> policydb" where
  "two_bools a b p =
     p\<lparr>bool_val_to_struct := [Some \<lparr>bool_value = 1, bool_state = a, bool_flags = 0\<rparr>,
        Some \<lparr>bool_value = 2, bool_state = b, bool_flags = 0\<rparr>]\<rparr>"

lemmas cond_run_simps = cond_normalize_expr_def strip_not_def Let_def bool_present_def
  cond_precompute_def ptr_arr_def arr_def upt_rec test_values_def set_bools_def set_bool_state_def
  cond_evaluate_expr_def

lemma cond_run_numerals:
  "replicate 5 (0 :: u32) = [0, 0, 0, 0, 0]" "[0..<4] = [0, 1, 2, 3]" "[0..<2] = [0, 1]"
  by (simp_all add: eval_nat_numeral)

lemma and_not_normal:
  "cond_normalize_expr (two_bools 1 0 p) (and_not_node 1 2) =
     (None, two_bools 1 0 p, (and_not_node 1 2)\<lparr>nbools := 2, bool_ids := [1, 2, 0, 0, 0], expr_pre_comp := 2\<rparr>)"
  "cond_normalize_expr (two_bools 1 0 p) (and_not_node 2 1) =
     (None, two_bools 1 0 p, (and_not_node 2 1)\<lparr>nbools := 2, bool_ids := [2, 1, 0, 0, 0], expr_pre_comp := 2\<rparr>)"
  by (simp_all add: cond_run_simps cond_run_numerals two_bools_def and_not_node_def cond_node_zero_def bit_iff_odd)

lemma and_not_values:
  "cond_evaluate_expr (two_bools 1 0 p) (expr (and_not_node 1 2)) = Inr 1"
  "cond_evaluate_expr (two_bools 1 0 p) (expr (and_not_node 2 1)) = Inr 0"
  by (simp_all add: cond_run_simps two_bools_def and_not_node_def)

text \<open>\<open>!A\<close> with two rules of the table and one rule of a module.\<close>

definition not_node :: "u32 \<Rightarrow> nat list \<Rightarrow> nat list \<Rightarrow> avrule list \<Rightarrow> avrule list \<Rightarrow> cond_node" where
  "not_node a ts fs mts mfs =
     cond_node_zero\<lparr>expr := [\<lparr>expr_type = COND_BOOL, boolean = a\<rparr>, \<lparr>expr_type = COND_NOT, boolean = 0\<rparr>],
       true_list := ts, false_list := fs, avtrue_list := mts, avfalse_list := mfs\<rparr>"

lemma not_normal:
  "cond_normalize_expr (two_bools a b p) (not_node 1 ts fs mts mfs) =
     (None, two_bools a b p, (not_node 1 fs ts mfs mts)\<lparr>expr := [\<lparr>expr_type = COND_BOOL, boolean = 1\<rparr>],
        nbools := 1, bool_ids := [1, 0, 0, 0, 0], expr_pre_comp := 2\<rparr>)"
  by (simp add: cond_run_simps cond_run_numerals two_bools_def not_node_def cond_node_zero_def bit_iff_odd)

end
