(* ===== verification/Mls.thy ===== *)
theory Mls
  imports Conditional_Props
begin

text \<open>
  The MLS policy of \<^verbatim>\<open>src/mls.c\<close>: printing and parsing of MLS ranges, validity of a context's
  range, the range of a new context and the conversion between policies.

  A C string is a \<open>string\<close> without NUL; the delimiter at its end is \<open>NUL\<close>. The functions that
  write into a caller's buffer return the characters they write. \<open>Inl UNDEF\<close> marks a read of a
  missing name and a write outside the buffer. Every failure of the parser is the bare -1.
  The arrays \<^verbatim>\<open>p_*_val_to_name\<close> and \<^verbatim>\<open>*_val_to_struct\<close> have \<^verbatim>\<open>nprim\<close> entries; a null entry and an
  entry behind the end are not told apart where the code tests for null.
\<close>

abbreviation (input) "NUL \<equiv> CHR 0x00"

section \<open>Printing\<close>

definition name_of :: "string option list \<Rightarrow> u32 \<Rightarrow> errcode + string" where
  "name_of nms i = (case ptr_arr nms (unat i) of None \<Rightarrow> Inl UNDEF | Some s \<Rightarrow> Inr s)"

text \<open>
  The loop over the visited bits of a category set, with the counter \<^verbatim>\<open>range\<close> (\<open>rng\<close>). The list
  \<open>vs\<close> is what \<^verbatim>\<open>ebitmap_for_each_bit\<close> visits; \<open>fin\<close> is the value of \<^verbatim>\<open>i\<close> after the loop.
\<close>

fun cats_len ::
  "string option list \<Rightarrow> u32 \<Rightarrow> (ebitmap_node \<times> u32) list \<Rightarrow> nat \<Rightarrow> u32 \<Rightarrow> errcode + u32" where
  "cats_len nms fin [] rng len =
     (if rng > 1 then rbind (name_of nms (fin - 1)) (\<lambda>s. Inr (len + of_nat (length s) + 1))
      else Inr len)"
| "cats_len nms fin ((n, i) # vs) rng len =
     (if ebitmap_node_get_bit n i then
        (if rng \<noteq> 0 then cats_len nms fin vs (Suc rng) len
         else rbind (name_of nms i) (\<lambda>s. cats_len nms fin vs (Suc rng) (len + (of_nat (length s) + 1))))
      else if rng > 1 then
        rbind (name_of nms (i - 1)) (\<lambda>s. cats_len nms fin vs 0 (len + (of_nat (length s) + 1)))
      else cats_len nms fin vs 0 len)"

definition mls_compute_context_len :: "policydb \<Rightarrow> context_struct \<Rightarrow> errcode + u32" where
  "mls_compute_context_len p c =
     (let lo = low (range c); hi = high (range c) in
      if \<not> mls p then Inr 0
      else rbind (name_of (p_sens_val_to_name p) (sens lo - 1)) (\<lambda>s.
        rbind (cats_len (p_cat_val_to_name p) (ebitmap_length (cat lo))
                 (ebitmap_bits_visited (cat lo)) 0 (1 + of_nat (length s))) (\<lambda>len.
        if mls_level_eq lo hi then Inr len
        else rbind (name_of (p_sens_val_to_name p) (sens hi - 1)) (\<lambda>s.
          cats_len (p_cat_val_to_name p) (ebitmap_length (cat hi))
            (ebitmap_bits_visited (cat hi)) 0 (len + 1 + of_nat (length s))))))"

definition range_sep :: "nat \<Rightarrow> char" where
  "range_sep rng = (if rng > 2 then CHR ''.'' else CHR '','')"

fun cats_string ::
  "string option list \<Rightarrow> u32 \<Rightarrow> (ebitmap_node \<times> u32) list \<Rightarrow> nat \<Rightarrow> bool \<Rightarrow> errcode + string" where
  "cats_string nms fin [] rng wrote =
     (if rng > 1 then rbind (name_of nms (fin - 1)) (\<lambda>s. Inr (range_sep rng # s)) else Inr [])"
| "cats_string nms fin ((n, i) # vs) rng wrote =
     (if ebitmap_node_get_bit n i then
        (if rng \<noteq> 0 then cats_string nms fin vs (Suc rng) wrote
         else rbind (name_of nms i) (\<lambda>s.
           rbind (cats_string nms fin vs (Suc rng) True) (\<lambda>r.
             Inr ((if \<not> wrote then CHR '':'' else CHR '','') # s @ r))))
      else if rng > 1 then
        rbind (name_of nms (i - 1)) (\<lambda>s.
          rbind (cats_string nms fin vs 0 wrote) (\<lambda>r. Inr (range_sep rng # s @ r)))
      else cats_string nms fin vs 0 wrote)"

definition level_string :: "policydb \<Rightarrow> mls_level \<Rightarrow> errcode + string" where
  "level_string p l =
     rbind (name_of (p_sens_val_to_name p) (sens l - 1)) (\<lambda>s.
     rbind (cats_string (p_cat_val_to_name p) (ebitmap_length (cat l))
              (ebitmap_bits_visited (cat l)) 0 False) (\<lambda>cs. Inr (s @ cs)))"

definition mls_sid_to_context :: "policydb \<Rightarrow> context_struct \<Rightarrow> errcode + string" where
  "mls_sid_to_context p c =
     (if \<not> mls p then Inr []
      else rbind (level_string p (low (range c))) (\<lambda>s0.
        if mls_level_eq (low (range c)) (high (range c)) then Inr (CHR '':'' # s0)
        else rbind (level_string p (high (range c))) (\<lambda>s1.
          Inr (CHR '':'' # s0 @ CHR ''-'' # s1))))"

text \<open>
  \<^verbatim>\<open>ptr -= len - 1\<close> must lead back to the start of the buffer of \<^verbatim>\<open>len\<close> bytes; a negative
  length is a \<^verbatim>\<open>malloc\<close> that fails. Without MLS nothing is written and the copy reads behind the
  buffer of one byte.
\<close>

definition mls_to_string :: "mem \<Rightarrow> policydb \<Rightarrow> context_struct \<Rightarrow> errcode + string \<times> mem" where
  "mls_to_string m p c =
     rbind (mls_compute_context_len p c) (\<lambda>l.
       let len = sint l + 1 in
       if len < 0 then Inl EFAIL
       else case malloc m of
         None \<Rightarrow> Inl EFAIL
       | Some m1 \<Rightarrow>
           (case malloc m1 of
              None \<Rightarrow> Inl EFAIL
            | Some m2 \<Rightarrow>
                rbind (mls_sid_to_context p c) (\<lambda>s.
                  if s = [] \<or> int (length s) \<noteq> len - 1 then Inl UNDEF
                  else Inr (tl s, m2))))"

section \<open>Parsing\<close>

text \<open>
  The loop \<^verbatim>\<open>while (*p && *p != ...) p++; delim = *p; if (delim != 0) *p++ = 0\<close>: the token, the
  delimiter and the rest of the string.
\<close>

definition token :: "char list \<Rightarrow> string \<Rightarrow> string \<times> char \<times> string" where
  "token stops s =
     (case dropWhile (\<lambda>c. c \<notin> set stops) s of
        [] \<Rightarrow> (s, NUL, [])
      | d # rest \<Rightarrow> (takeWhile (\<lambda>c. c \<notin> set stops) s, d, rest))"

function set_cats :: "mem \<Rightarrow> ebitmap \<Rightarrow> u32 \<Rightarrow> u32 \<Rightarrow> errcode + ebitmap \<times> mem" where
  "set_cats m c i hi =
     (if i < hi then
        (case ebitmap_set_bit m c i True of
           Inl _ \<Rightarrow> Inl EFAIL
         | Inr (c', m') \<Rightarrow> set_cats m' c' (i + 1) hi)
      else Inr (c, m))"
  by pat_completeness auto

termination set_cats
  by (relation "measure (\<lambda>(m, c, i, hi). unat hi - unat i)")
     (auto simp: unat_inc_if_less word_facts)

declare set_cats.simps [simp del]

definition set_category :: "mem \<Rightarrow> policydb \<Rightarrow> string \<Rightarrow> ebitmap \<Rightarrow> errcode + ebitmap \<times> mem" where
  "set_category m p tok c =
     (case token ''.'' tok of (nam, delim, rng) \<Rightarrow>
        (case sym_search (table (p_cats p)) nam of
           None \<Rightarrow> Inl EFAIL
         | Some catdatum \<Rightarrow>
             (case ebitmap_set_bit m c (cat_value catdatum - 1) True of
                Inl _ \<Rightarrow> Inl EFAIL
              | Inr (c1, m1) \<Rightarrow>
                  if delim = CHR ''.'' then
                    (case sym_search (table (p_cats p)) rng of
                       None \<Rightarrow> Inl EFAIL
                     | Some rngdatum \<Rightarrow>
                         if cat_value catdatum \<ge> cat_value rngdatum then Inl EFAIL
                         else set_cats m1 c1 (cat_value catdatum) (cat_value rngdatum))
                  else Inr (c1, m1))))"

lemma token_shorter: "token stops s = (tok, d, rest) \<Longrightarrow> d \<noteq> NUL \<Longrightarrow> length rest < length s"
proof -
  assume t: "token stops s = (tok, d, rest)" "d \<noteq> NUL"
  then obtain c where "dropWhile (\<lambda>c. c \<notin> set stops) s = c # rest"
    by (auto simp: token_def split: list.splits)
  moreover have "length (dropWhile (\<lambda>c. c \<notin> set stops) s) \<le> length s"
    by (rule length_dropWhile_le)
  ultimately show ?thesis by simp
qed

function parse_cats ::
  "mem \<Rightarrow> policydb \<Rightarrow> string \<Rightarrow> ebitmap \<Rightarrow> errcode + ebitmap \<times> char \<times> string \<times> mem" where
  "parse_cats m p s c =
     (case token '',-'' s of (tok, delim, rest) \<Rightarrow>
        rbind (set_category m p tok c) (\<lambda>(c', m').
          if delim = CHR '','' then parse_cats m' p rest c' else Inr (c', delim, rest, m')))"
  by pat_completeness auto

termination parse_cats
  by (relation "measure (\<lambda>(m, p, s, c). length s)") (auto dest: token_shorter[OF sym])

declare parse_cats.simps [simp del]

text \<open>One round of the loop over the levels, with the token and delimiter of the sensitivity.\<close>

definition parse_level ::
  "mem \<Rightarrow> policydb \<Rightarrow> string \<times> char \<times> string \<Rightarrow> mls_level \<Rightarrow> errcode + mls_level \<times> char \<times> string \<times> mem" where
  "parse_level m p t l =
     (case t of (tok, delim, rest) \<Rightarrow>
        (case sym_search (table (p_levels p)) tok of
           None \<Rightarrow> Inl EFAIL
         | Some levdatum \<Rightarrow>
             (let l1 = l\<lparr>sens := sens (lev levdatum)\<rparr> in
              if delim = CHR '':'' then
                rbind (parse_cats m p rest (cat l1)) (\<lambda>(c, d, r, m'). Inr (l1\<lparr>cat := c\<rparr>, d, r, m'))
              else Inr (l1, delim, rest, m))))"

definition mls_context_to_sid ::
  "mem \<Rightarrow> policydb \<Rightarrow> char \<Rightarrow> string \<Rightarrow> context_struct \<Rightarrow> errcode + context_struct \<times> mem" where
  "mls_context_to_sid m p oldc s c =
     (if \<not> mls p then Inr (c, m)
      else if oldc = NUL then Inl EFAIL
      else rbind (parse_level m p (token '':-'' s) (low (range c))) (\<lambda>(lo, delim, rest, m1).
        if delim = CHR ''-'' then
          rbind (parse_level m1 p (token '':'' rest) (high (range c))) (\<lambda>(hi, _, _, m2).
            Inr (c\<lparr>range := \<lparr>low = lo, high = hi\<rparr>\<rparr>, m2))
        else (case mls_level_cpy m1 lo of
                Inl _ \<Rightarrow> Inl EFAIL
              | Inr (hi, m2) \<Rightarrow> Inr (c\<lparr>range := \<lparr>low = lo, high = hi\<rparr>\<rparr>, m2))))"

definition mls_from_string ::
  "mem \<Rightarrow> policydb \<Rightarrow> string \<Rightarrow> context_struct \<Rightarrow> errcode + context_struct \<times> mem" where
  "mls_from_string m p s c =
     (case malloc m of
        None \<Rightarrow> Inl EFAIL
      | Some m' \<Rightarrow>
          (case mls_context_to_sid m' p (CHR ''$'') s c of
             Inl _ \<Rightarrow> Inl EFAIL
           | Inr r \<Rightarrow> Inr r))"

definition sepol_mls_contains :: "mem \<Rightarrow> policydb \<Rightarrow> string \<Rightarrow> string \<Rightarrow> errcode + bool \<times> mem" where
  "sepol_mls_contains m p mls1 mls2 =
     (case m of
        Suc (Suc m') \<Rightarrow>
          rbind (mls_from_string m' p mls1 context_init) (\<lambda>(ctx1, m1).
          rbind (mls_from_string m1 p mls2 context_init) (\<lambda>(ctx2, m2).
            Inr (mls_range_contains (range ctx1) (range ctx2), m2)))
      | _ \<Rightarrow> Inl EFAIL)"

definition sepol_mls_check :: "mem \<Rightarrow> policydb \<Rightarrow> string \<Rightarrow> errcode + mem" where
  "sepol_mls_check m p s =
     (case malloc m of
        None \<Rightarrow> Inl EFAIL
      | Some m' \<Rightarrow> rbind (mls_from_string m' p s context_init) (\<lambda>(c, m''). Inr m''))"

section \<open>Validity\<close>

definition level_isvalid :: "policydb \<Rightarrow> mls_level \<Rightarrow> bool" where
  "level_isvalid p l =
     (if sens l = 0 \<or> sens l > nprim (p_levels p) then False
      else case ptr_arr (p_sens_val_to_name p) (unat (sens l - 1)) of
        None \<Rightarrow> False
      | Some nam \<Rightarrow>
          (case sym_search (table (p_levels p)) nam of
             None \<Rightarrow> False
           | Some levdatum \<Rightarrow>
               list_all (\<lambda>i. \<not> i > nprim (p_cats p) \<and> ebitmap_get_bit (cat (lev levdatum)) i)
                 (ebitmap_positive_bits (cat l))))"

definition mls_context_isvalid :: "policydb \<Rightarrow> context_struct \<Rightarrow> bool" where
  "mls_context_isvalid p c =
     (if \<not> mls p then True
      else if \<not> mls_level_dom (high (range c)) (low (range c)) then False
      else if \<not> level_isvalid p (low (range c)) then False
      else if \<not> level_isvalid p (high (range c)) then False
      else if role c = OBJECT_R_VAL then True
      else if user c = 0 \<or> user c > nprim (p_users p) then False
      else case ptr_arr (user_val_to_struct p) (unat (user c - 1)) of
        None \<Rightarrow> False
      | Some usrdatum \<Rightarrow> mls_range_contains (exp_range usrdatum) (range c))"

section \<open>New ranges\<close>

definition mls_copy_context ::
  "mem \<Rightarrow> context_struct \<Rightarrow> context_struct \<Rightarrow> errcode + context_struct \<times> mem" where
  "mls_copy_context m dst src =
     rbind (ebitmap_cpy m (cat (low (range src)))) (\<lambda>(c0, m1).
     rbind (ebitmap_cpy m1 (cat (high (range src)))) (\<lambda>(c1, m2).
       Inr (dst\<lparr>range := \<lparr>low = \<lparr>sens = sens (low (range src)), cat = c0\<rparr>,
                          high = \<lparr>sens = sens (high (range src)), cat = c1\<rparr>\<rparr>\<rparr>, m2)))"

definition mls_scopy_context ::
  "mem \<Rightarrow> context_struct \<Rightarrow> context_struct \<Rightarrow> errcode + context_struct \<times> mem" where
  "mls_scopy_context m dst src =
     rbind (ebitmap_cpy m (cat (low (range src)))) (\<lambda>(c0, m1).
     rbind (ebitmap_cpy m1 (cat (low (range src)))) (\<lambda>(c1, m2).
       Inr (dst\<lparr>range := \<lparr>low = \<lparr>sens = sens (low (range src)), cat = c0\<rparr>,
                          high = \<lparr>sens = sens (low (range src)), cat = c1\<rparr>\<rparr>\<rparr>, m2)))"

definition mls_range_set ::
  "mem \<Rightarrow> context_struct \<Rightarrow> mls_range \<Rightarrow> errcode + context_struct \<times> mem" where
  "mls_range_set m c r =
     rbind (ebitmap_cpy m (cat (low r))) (\<lambda>(c0, m1).
     rbind (ebitmap_cpy m1 (cat (high r))) (\<lambda>(c1, m2).
       Inr (c\<lparr>range := \<lparr>low = \<lparr>sens = sens (low r), cat = c0\<rparr>,
                        high = \<lparr>sens = sens (high r), cat = c1\<rparr>\<rparr>\<rparr>, m2)))"

definition mls_setup_user_range ::
  "context_struct \<Rightarrow> user_datum \<Rightarrow> context_struct \<Rightarrow> bool \<Rightarrow> errcode + context_struct" where
  "mls_setup_user_range fromcon usr usercon is_mls =
     (if \<not> is_mls then Inr usercon
      else
        (let fromcon_sen = low (range fromcon); fromcon_clr = high (range fromcon);
             user_low = low (exp_range usr); user_clr = high (exp_range usr);
             user_def = exp_dfltlevel usr
         in rbind
              (if mls_level_between user_def fromcon_sen fromcon_clr then Inr user_def
               else if mls_level_between fromcon_sen user_def user_clr then Inr fromcon_sen
               else if mls_level_between fromcon_clr user_low user_def then Inr user_low
               else Inl EINVAL) (\<lambda>usercon_sen.
            rbind
              (if mls_level_dom user_clr fromcon_clr then Inr fromcon_clr
               else if mls_level_dom fromcon_clr user_clr then Inr user_clr
               else Inl EINVAL) (\<lambda>usercon_clr.
            Inr (usercon\<lparr>range := \<lparr>low = usercon_sen, high = usercon_clr\<rparr>\<rparr>)))))"

abbreviation (input) "DEFAULT_SOURCE \<equiv> 1"
abbreviation (input) "DEFAULT_TARGET \<equiv> 2"
abbreviation (input) "DEFAULT_SOURCE_LOW \<equiv> 1"
abbreviation (input) "DEFAULT_SOURCE_HIGH \<equiv> 2"
abbreviation (input) "DEFAULT_SOURCE_LOW_HIGH \<equiv> 3"
abbreviation (input) "DEFAULT_TARGET_LOW \<equiv> 4"
abbreviation (input) "DEFAULT_TARGET_HIGH \<equiv> 5"
abbreviation (input) "DEFAULT_TARGET_LOW_HIGH \<equiv> 6"
abbreviation (input) "DEFAULT_GLBLUB \<equiv> 7"

text \<open>The class datum of a class number, null for 0 and for numbers out of range.\<close>

definition class_of :: "policydb \<Rightarrow> u16 \<Rightarrow> class_datum option" where
  "class_of p tclass =
     (if tclass \<noteq> 0 \<and> ucast tclass \<le> nprim (p_classes p)
      then ptr_arr (class_val_to_struct p) (unat tclass - 1) else None)"

text \<open>The code that the cases \<^verbatim>\<open>AVTAB_TRANSITION\<close>, falling through, and \<^verbatim>\<open>AVTAB_CHANGE\<close> share.\<close>

definition mls_change_sid ::
  "mem \<Rightarrow> policydb \<Rightarrow> context_struct \<Rightarrow> u16 \<Rightarrow> context_struct \<Rightarrow> errcode + context_struct \<times> mem" where
  "mls_change_sid m p scontext tclass newcontext =
     (if tclass = process_class p then mls_copy_context m newcontext scontext
      else mls_scopy_context m newcontext scontext)"

definition mls_compute_sid ::
  "mem \<Rightarrow> policydb \<Rightarrow> context_struct \<Rightarrow> context_struct \<Rightarrow> u16 \<Rightarrow> u32 \<Rightarrow> context_struct
     \<Rightarrow> errcode + context_struct \<times> mem" where
  "mls_compute_sid m p scontext tcontext tclass spec newcontext =
     (if \<not> mls p then Inr (newcontext, m)
      else if spec = AVTAB_TRANSITION then
        (case rangetr_search (range_tr p)
           \<lparr>rtr_source_type = type scontext, rtr_target_type = type tcontext,
            rtr_target_class = ucast tclass\<rparr> of
           Some r \<Rightarrow> mls_range_set m newcontext r
         | None \<Rightarrow>
             (let default = (case class_of p tclass of None \<Rightarrow> 0 | Some cl \<Rightarrow> default_range cl) in
              if default = DEFAULT_SOURCE_LOW then mls_context_cpy_low m newcontext scontext
              else if default = DEFAULT_SOURCE_HIGH then mls_context_cpy_high m newcontext scontext
              else if default = DEFAULT_SOURCE_LOW_HIGH then mls_context_cpy m newcontext scontext
              else if default = DEFAULT_TARGET_LOW then mls_context_cpy_low m newcontext tcontext
              else if default = DEFAULT_TARGET_HIGH then mls_context_cpy_high m newcontext tcontext
              else if default = DEFAULT_TARGET_LOW_HIGH then mls_context_cpy m newcontext tcontext
              else if default = DEFAULT_GLBLUB then mls_context_glblub m newcontext scontext tcontext
              else mls_change_sid m p scontext tclass newcontext))
      else if spec = AVTAB_CHANGE then mls_change_sid m p scontext tclass newcontext
      else if spec = AVTAB_MEMBER then mls_context_cpy_low m newcontext scontext
      else Inl EINVAL)"

section \<open>Conversion between policies\<close>

fun convert_cats ::
  "mem \<Rightarrow> policydb \<Rightarrow> policydb \<Rightarrow> u32 list \<Rightarrow> ebitmap \<Rightarrow> errcode + ebitmap \<times> mem" where
  "convert_cats m oldp newp [] c = Inr (c, m)"
| "convert_cats m oldp newp (i # is) c =
     rbind (name_of (p_cat_val_to_name oldp) i) (\<lambda>nam.
       case sym_search (table (p_cats newp)) nam of
         None \<Rightarrow> Inl EINVAL
       | Some catdatum \<Rightarrow>
           rbind (ebitmap_set_bit m c (cat_value catdatum - 1) True) (\<lambda>(c', m').
             convert_cats m' oldp newp is c'))"

definition convert_level ::
  "mem \<Rightarrow> policydb \<Rightarrow> policydb \<Rightarrow> mls_level \<Rightarrow> errcode + mls_level \<times> mem" where
  "convert_level m oldp newp l =
     rbind (name_of (p_sens_val_to_name oldp) (sens l - 1)) (\<lambda>nam.
       case sym_search (table (p_levels newp)) nam of
         None \<Rightarrow> Inl EINVAL
       | Some levdatum \<Rightarrow>
           rbind (convert_cats m oldp newp (ebitmap_positive_bits (cat l)) ebitmap_init) (\<lambda>(c, m').
             Inr (\<lparr>sens = sens (lev levdatum), cat = c\<rparr>, m')))"

definition mls_convert_context ::
  "mem \<Rightarrow> policydb \<Rightarrow> policydb \<Rightarrow> context_struct \<Rightarrow> errcode + context_struct \<times> mem" where
  "mls_convert_context m oldp newp c =
     (if \<not> mls oldp then Inr (c, m)
      else rbind (convert_level m oldp newp (low (range c))) (\<lambda>(lo, m1).
        rbind (convert_level m1 oldp newp (high (range c))) (\<lambda>(hi, m2).
          Inr (c\<lparr>range := \<lparr>low = lo, high = hi\<rparr>\<rparr>, m2))))"

section \<open>Semantic levels\<close>

definition mls_semantic_level_init :: mls_semantic_level where
  "mls_semantic_level_init = \<lparr>ssens = 0, scat = []\<rparr>"

fun semantic_cats_cpy :: "mem \<Rightarrow> mls_semantic_cat list \<Rightarrow> errcode + mls_semantic_cat list \<times> mem" where
  "semantic_cats_cpy m [] = Inr ([], m)"
| "semantic_cats_cpy m (c # cs) =
     (case malloc m of
        None \<Rightarrow> Inl EFAIL
      | Some m' \<Rightarrow>
          rbind (semantic_cats_cpy m' cs) (\<lambda>(r, m'').
            Inr (\<lparr>scat_low = scat_low c, scat_high = scat_high c\<rparr> # r, m'')))"

definition mls_semantic_level_cpy ::
  "mem \<Rightarrow> mls_semantic_level \<Rightarrow> errcode + mls_semantic_level \<times> mem" where
  "mls_semantic_level_cpy m src =
     rbind (semantic_cats_cpy m (scat src)) (\<lambda>(cs, m'). Inr (\<lparr>ssens = ssens src, scat = cs\<rparr>, m'))"

definition mls_semantic_range_init :: mls_semantic_range where
  "mls_semantic_range_init = \<lparr>slow = mls_semantic_level_init, shigh = mls_semantic_level_init\<rparr>"

definition mls_semantic_range_cpy ::
  "mem \<Rightarrow> mls_semantic_range \<Rightarrow> errcode + mls_semantic_range \<times> mem" where
  "mls_semantic_range_cpy m src =
     (case mls_semantic_level_cpy m (slow src) of
        Inl _ \<Rightarrow> Inl EFAIL
      | Inr (lo, m1) \<Rightarrow>
          (case mls_semantic_level_cpy m1 (shigh src) of
             Inl _ \<Rightarrow> Inl EFAIL
           | Inr (hi, m2) \<Rightarrow> Inr (\<lparr>slow = lo, shigh = hi\<rparr>, m2)))"

end
