(* ===== verification/Context.thy ===== *)
theory Context
  imports Mls Policy_File
begin

text \<open>
  Security contexts of \<^verbatim>\<open>src/context.c\<close> and the context records of \<^verbatim>\<open>src/context_record.c\<close>:
  validity of a context in a policy, and the conversions between the binary form, the record
  of four strings and the string \<open>user:role:type[:mls]\<close>.

  A null string is \<open>None\<close>; \<open>Inl UNDEF\<close> marks its use where C dereferences it.
\<close>

section \<open>Records\<close>

record sepol_context =
  con_user :: "string option"
  con_role :: "string option"
  con_type :: "string option"
  con_mls :: "string option"

text \<open>\<^verbatim>\<open>strdup\<close> of a string that is not null.\<close>

definition strdup :: "mem \<Rightarrow> string \<Rightarrow> (string \<times> mem) option" where
  "strdup m s = (case malloc m of None \<Rightarrow> None | Some m' \<Rightarrow> Some (s, m'))"

definition sepol_context_set_user ::
  "mem \<Rightarrow> sepol_context \<Rightarrow> string \<Rightarrow> errcode + sepol_context \<times> mem" where
  "sepol_context_set_user m con s =
     (case strdup m s of None \<Rightarrow> Inl EFAIL | Some (t, m') \<Rightarrow> Inr (con\<lparr>con_user := Some t\<rparr>, m'))"

definition sepol_context_set_role ::
  "mem \<Rightarrow> sepol_context \<Rightarrow> string \<Rightarrow> errcode + sepol_context \<times> mem" where
  "sepol_context_set_role m con s =
     (case strdup m s of None \<Rightarrow> Inl EFAIL | Some (t, m') \<Rightarrow> Inr (con\<lparr>con_role := Some t\<rparr>, m'))"

definition sepol_context_set_type ::
  "mem \<Rightarrow> sepol_context \<Rightarrow> string \<Rightarrow> errcode + sepol_context \<times> mem" where
  "sepol_context_set_type m con s =
     (case strdup m s of None \<Rightarrow> Inl EFAIL | Some (t, m') \<Rightarrow> Inr (con\<lparr>con_type := Some t\<rparr>, m'))"

definition sepol_context_set_mls ::
  "mem \<Rightarrow> sepol_context \<Rightarrow> string \<Rightarrow> errcode + sepol_context \<times> mem" where
  "sepol_context_set_mls m con s =
     (case strdup m s of None \<Rightarrow> Inl EFAIL | Some (t, m') \<Rightarrow> Inr (con\<lparr>con_mls := Some t\<rparr>, m'))"

definition sepol_context_create :: "mem \<Rightarrow> errcode + sepol_context \<times> mem" where
  "sepol_context_create m =
     (case malloc m of
        None \<Rightarrow> Inl EFAIL
      | Some m' \<Rightarrow> Inr (\<lparr>con_user = None, con_role = None, con_type = None, con_mls = None\<rparr>, m'))"

definition clone_field :: "mem \<Rightarrow> string option \<Rightarrow> errcode + string option \<times> mem" where
  "clone_field m f =
     (case f of
        None \<Rightarrow> Inl UNDEF
      | Some s \<Rightarrow> (case strdup m s of None \<Rightarrow> Inl EFAIL | Some (t, m') \<Rightarrow> Inr (Some t, m')))"

definition sepol_context_clone ::
  "mem \<Rightarrow> sepol_context option \<Rightarrow> errcode + sepol_context option \<times> mem" where
  "sepol_context_clone m con =
     (case con of
        None \<Rightarrow> Inr (None, m)
      | Some con \<Rightarrow>
          rbind (sepol_context_create m) (\<lambda>(new_con, m0).
          rbind (clone_field m0 (con_user con)) (\<lambda>(u, m1).
          rbind (clone_field m1 (con_role con)) (\<lambda>(r, m2).
          rbind (clone_field m2 (con_type con)) (\<lambda>(t, m3).
          rbind (if con_mls con = None then Inr (None, m3) else clone_field m3 (con_mls con)) (\<lambda>(l, m4).
            Inr (Some (new_con\<lparr>con_user := u, con_role := r, con_type := t, con_mls := l\<rparr>), m4)))))))"

text \<open>\<^verbatim>\<open>high = strchr(low, ':')\<close>: the strings before and after the first colon.\<close>

definition split_colon :: "string \<Rightarrow> (string \<times> string) option" where
  "split_colon s =
     (case dropWhile (\<lambda>c. c \<noteq> CHR '':'') s of
        [] \<Rightarrow> None
      | _ # rest \<Rightarrow> Some (takeWhile (\<lambda>c. c \<noteq> CHR '':'') s, rest))"

definition sepol_context_from_string ::
  "mem \<Rightarrow> string \<Rightarrow> errcode + sepol_context option \<times> mem" where
  "sepol_context_from_string m str =
     (if str = ''<<none>>'' then Inr (None, m)
      else rbind (sepol_context_create m) (\<lambda>(con, m0).
        case strdup m0 str of
          None \<Rightarrow> Inl EFAIL
        | Some (tmp, m1) \<Rightarrow>
            (case split_colon tmp of
               None \<Rightarrow> Inl EFAIL
             | Some (u, rest) \<Rightarrow>
                 rbind (sepol_context_set_user m1 con u) (\<lambda>(con, m2).
                   case split_colon rest of
                     None \<Rightarrow> Inl EFAIL
                   | Some (r, rest) \<Rightarrow>
                       rbind (sepol_context_set_role m2 con r) (\<lambda>(con, m3).
                         case split_colon rest of
                           None \<Rightarrow>
                             rbind (sepol_context_set_type m3 con rest) (\<lambda>(con, m4). Inr (Some con, m4))
                         | Some (t, rest) \<Rightarrow>
                             rbind (sepol_context_set_type m3 con t) (\<lambda>(con, m4).
                             rbind (sepol_context_set_mls m4 con rest) (\<lambda>(con, m5).
                               Inr (Some con, m5))))))))"

text \<open>
  \<^verbatim>\<open>snprintf\<close> returns the length of the output as an \<^verbatim>\<open>int\<close>, negative when it does not fit.
\<close>

definition sepol_context_to_string :: "mem \<Rightarrow> sepol_context \<Rightarrow> errcode + string \<times> mem" where
  "sepol_context_to_string m con =
     (case (con_user con, con_role con, con_type con) of
        (Some u, Some r, Some t) \<Rightarrow>
          (let s = u @ CHR '':'' # r @ CHR '':'' # t @
                 (case con_mls con of None \<Rightarrow> [] | Some l \<Rightarrow> CHR '':'' # l)
           in if length s + 1 \<ge> 2 ^ 64 then Inl EFAIL
              else case malloc m of
                None \<Rightarrow> Inl EFAIL
              | Some m' \<Rightarrow> if length s > 2147483647 then Inl EFAIL else Inr (s, m'))
      | _ \<Rightarrow> Inl UNDEF)"

abbreviation (input) "TYPE_ATTRIB \<equiv> 1"

section \<open>Validity\<close>

definition context_is_valid :: "policydb \<Rightarrow> context_struct \<Rightarrow> bool" where
  "context_is_valid p c =
     (if role c = 0 \<or> role c > nprim (p_roles p) then False
      else if user c = 0 \<or> user c > nprim (p_users p) then False
      else if type c = 0 \<or> type c > nprim (p_types p) then False
      else if role c \<noteq> OBJECT_R_VAL \<and>
        (case ptr_arr (role_val_to_struct p) (unat (role c - 1)) of
           None \<Rightarrow> True
         | Some rd \<Rightarrow> \<not> ebitmap_get_bit (role_cache rd) (type c - 1)) then False
      else if role c \<noteq> OBJECT_R_VAL \<and>
        (case ptr_arr (user_val_to_struct p) (unat (user c - 1)) of
           None \<Rightarrow> True
         | Some usrdatum \<Rightarrow> \<not> ebitmap_get_bit (user_cache usrdatum) (role c - 1)) then False
      else if \<not> mls_context_isvalid p c then False
      else True)"

section \<open>Conversions\<close>

text \<open>
  The string and the size of its buffer. \<^verbatim>\<open>mls_compute_context_len\<close> is an \<^verbatim>\<open>int\<close> that is added
  to a \<^verbatim>\<open>size_t\<close>; a string that does not fit into the buffer is \<open>Inl UNDEF\<close>.
\<close>

definition context_to_string ::
  "mem \<Rightarrow> policydb \<Rightarrow> context_struct \<Rightarrow> errcode + string \<times> int \<times> mem" where
  "context_to_string m p c =
     rbind (name_of (p_user_val_to_name p) (user c - 1)) (\<lambda>u.
     rbind (name_of (p_role_val_to_name p) (role c - 1)) (\<lambda>r.
     rbind (name_of (p_type_val_to_name p) (type c - 1)) (\<lambda>t.
     rbind (mls_compute_context_len p c) (\<lambda>l.
       let scontext_len =
         int (length u) + 1 + (int (length r) + 1) + int (length t) + sint l + 1
       in if scontext_len < 0 then Inl EFAIL
          else case malloc m of
            None \<Rightarrow> Inl EFAIL
          | Some m' \<Rightarrow>
              rbind (mls_sid_to_context p c) (\<lambda>ms.
                let s = u @ CHR '':'' # r @ CHR '':'' # t @ ms
                in if int (length s) + 1 > scontext_len then Inl UNDEF
                   else Inr (s, scontext_len, m'))))))"

definition context_from_record ::
  "mem \<Rightarrow> policydb \<Rightarrow> sepol_context option \<Rightarrow> errcode + context_struct \<times> mem" where
  "context_from_record m p rec =
     (case rec of
        None \<Rightarrow> Inl UNDEF
      | Some rec \<Rightarrow>
          (case (con_user rec, con_role rec, con_type rec) of
             (Some u, Some r, Some t) \<Rightarrow>
               if m < 4 then Inl EFAIL
               else
                 (let m1 = m - 4; c = context_init in
                  case sym_search (table (p_users p)) u of
                    None \<Rightarrow> Inl EFAIL
                  | Some usrdatum \<Rightarrow>
                      (case sym_search (table (p_roles p)) r of
                         None \<Rightarrow> Inl EFAIL
                       | Some roldatum \<Rightarrow>
                           (case sym_search (table (p_types p)) t of
                              None \<Rightarrow> Inl EFAIL
                            | Some typdatum \<Rightarrow>
                                if type_flavor typdatum = TYPE_ATTRIB then Inl EFAIL
                                else
                                  (let c = c\<lparr>user := user_value usrdatum, role := role_value roldatum,
                                             type := type_value typdatum\<rparr> in
                                   if con_mls rec \<noteq> None \<and> \<not> mls p then Inl EFAIL
                                   else if con_mls rec = None \<and> mls p then Inl EFAIL
                                   else
                                     rbind (case con_mls rec of
                                              None \<Rightarrow> Inr (c, m1)
                                            | Some l \<Rightarrow> mls_from_string m1 p l c) (\<lambda>(c, m2).
                                       if \<not> context_is_valid p c then Inl EFAIL
                                       else Inr (c, m2))))))
           | _ \<Rightarrow> Inl UNDEF))"

definition context_to_record ::
  "mem \<Rightarrow> policydb \<Rightarrow> context_struct \<Rightarrow> errcode + sepol_context \<times> mem" where
  "context_to_record m p c =
     rbind (sepol_context_create m) (\<lambda>(rec, m0).
     rbind (name_of (p_user_val_to_name p) (user c - 1)) (\<lambda>u.
     rbind (sepol_context_set_user m0 rec u) (\<lambda>(rec, m1).
     rbind (name_of (p_role_val_to_name p) (role c - 1)) (\<lambda>r.
     rbind (sepol_context_set_role m1 rec r) (\<lambda>(rec, m2).
     rbind (name_of (p_type_val_to_name p) (type c - 1)) (\<lambda>t.
     rbind (sepol_context_set_type m2 rec t) (\<lambda>(rec, m3).
       if mls p then
         rbind (mls_to_string m3 p c) (\<lambda>(l, m4). sepol_context_set_mls m4 rec l)
       else Inr (rec, m3))))))))"

text \<open>
  \<open>buf\<close> is the memory from \<^verbatim>\<open>con_str\<close> on; the copy of \<^verbatim>\<open>con_str_len\<close> bytes ends at its first NUL.
\<close>

definition context_from_string ::
  "mem \<Rightarrow> policydb \<Rightarrow> string \<Rightarrow> u64 \<Rightarrow> errcode + context_struct \<times> mem" where
  "context_from_string m p buf con_str_len =
     (if zero_or_saturated con_str_len then Inl EFAIL
      else case malloc m of
        None \<Rightarrow> Inl EFAIL
      | Some m1 \<Rightarrow>
          if length buf < unat con_str_len then Inl UNDEF
          else
            rbind (sepol_context_from_string m1 (takeWhile (\<lambda>c. c \<noteq> NUL) (take (unat con_str_len) buf)))
              (\<lambda>(rec, m2). context_from_record m2 p rec))"

definition sepol_context_check ::
  "mem \<Rightarrow> policydb \<Rightarrow> sepol_context option \<Rightarrow> errcode + mem" where
  "sepol_context_check m p con = rbind (context_from_record m p con) (\<lambda>(c, m'). Inr m')"

end
