(* ===== verification/Sidtab.thy ===== *)
theory Sidtab
  imports Context
begin

text \<open>
  The table of security identifiers of \<^verbatim>\<open>src/sidtab.c\<close>: 128 chains, each ascending by SID.
  A chain is a list of nodes; \<^verbatim>\<open>s->htable\<close> is \<open>None\<close> when it is null. Every lookup is shown to
  be the map of the nodes, every operation keeps the invariant \<open>wf_sidtab\<close>, and the allocation
  of SIDs is the interface \<open>sid_store\<close> that the security server relies on.
\<close>

section \<open>Data and operations\<close>

record sidtab_node =
  sid :: u32
  con :: context_struct

record sidtab =
  sid_htable :: "sidtab_node list list option"
  sid_nel :: u32
  next_sid :: u32
  shutdown :: bool

abbreviation (input) "SIDTAB_SIZE \<equiv> 128"
abbreviation (input) "SECINITSID_UNLABELED \<equiv> 3"

definition sidtab_hash :: "u32 \<Rightarrow> nat" where
  "sidtab_hash s = unat (s AND 127)"

definition sepol_sidtab_init :: "mem \<Rightarrow> errcode + sidtab \<times> mem" where
  "sepol_sidtab_init m =
     (case malloc m of
        None \<Rightarrow> Inl ENOMEM
      | Some m' \<Rightarrow> Inr (\<lparr>sid_htable = Some (replicate SIDTAB_SIZE []), sid_nel = 0, next_sid = 1,
                         shutdown = False\<rparr>, m'))"

text \<open>The chain behind the nodes with a smaller SID, and those nodes.\<close>

definition sid_before :: "u32 \<Rightarrow> sidtab_node list \<Rightarrow> sidtab_node list" where
  "sid_before s c = takeWhile (\<lambda>n. s > sid n) c"

definition sid_from :: "u32 \<Rightarrow> sidtab_node list \<Rightarrow> sidtab_node list" where
  "sid_from s c = dropWhile (\<lambda>n. s > sid n) c"

definition sepol_sidtab_insert ::
  "mem \<Rightarrow> sidtab \<Rightarrow> u32 \<Rightarrow> context_struct \<Rightarrow> errcode + sidtab \<times> mem" where
  "sepol_sidtab_insert m s i c =
     (case sid_htable s of
        None \<Rightarrow> Inl ENOMEM
      | Some t \<Rightarrow>
          (let hvalue = sidtab_hash i; chain = t ! hvalue in
           if (case sid_from i chain of [] \<Rightarrow> False | cur # _ \<Rightarrow> i = sid cur) then Inl EEXIST
           else case malloc m of
             None \<Rightarrow> Inl ENOMEM
           | Some m1 \<Rightarrow>
               (case context_cpy m1 c of
                  Inl _ \<Rightarrow> Inl ENOMEM
                | Inr (c', m2) \<Rightarrow>
                    Inr (s\<lparr>sid_htable := Some (t[hvalue :=
                             sid_before i chain @ \<lparr>sid = i, con = c'\<rparr> # sid_from i chain]),
                           sid_nel := sid_nel s + 1,
                           next_sid := (if i \<ge> next_sid s then i + 1 else next_sid s)\<rparr>, m2))))"

definition sid_chain_search :: "sidtab_node list list \<Rightarrow> u32 \<Rightarrow> context_struct option" where
  "sid_chain_search t i =
     (case sid_from i (t ! sidtab_hash i) of
        [] \<Rightarrow> None
      | cur # _ \<Rightarrow> if i \<noteq> sid cur then None else Some (con cur))"

definition sepol_sidtab_search :: "sidtab \<Rightarrow> u32 \<Rightarrow> context_struct option" where
  "sepol_sidtab_search s i =
     (case sid_htable s of
        None \<Rightarrow> None
      | Some t \<Rightarrow>
          (case sid_chain_search t i of
             Some c \<Rightarrow> Some c
           | None \<Rightarrow> sid_chain_search t SECINITSID_UNLABELED))"

text \<open>
  The callback of the traversals gets a SID, a context and the state \<open>st\<close> behind its \<^verbatim>\<open>args\<close>; it
  may change the context and returns an error code or \<open>None\<close> for 0.
\<close>

type_synonym 's sid_apply = "u32 \<Rightarrow> context_struct \<Rightarrow> 's \<Rightarrow> errcode option \<times> context_struct \<times> 's"

fun sid_map_chain ::
  "'s sid_apply \<Rightarrow> sidtab_node list \<Rightarrow> 's \<Rightarrow> errcode option \<times> sidtab_node list \<times> 's" where
  "sid_map_chain f [] st = (None, [], st)"
| "sid_map_chain f (n # ns) st =
     (case f (sid n) (con n) st of
        (Some e, c, st') \<Rightarrow> (Some e, n\<lparr>con := c\<rparr> # ns, st')
      | (None, c, st') \<Rightarrow>
          (case sid_map_chain f ns st' of (r, ns', st'') \<Rightarrow> (r, n\<lparr>con := c\<rparr> # ns', st'')))"

fun sid_map_chains ::
  "'s sid_apply \<Rightarrow> sidtab_node list list \<Rightarrow> 's \<Rightarrow> errcode option \<times> sidtab_node list list \<times> 's" where
  "sid_map_chains f [] st = (None, [], st)"
| "sid_map_chains f (c # cs) st =
     (case sid_map_chain f c st of
        (Some e, c', st') \<Rightarrow> (Some e, c' # cs, st')
      | (None, c', st') \<Rightarrow>
          (case sid_map_chains f cs st' of (r, cs', st'') \<Rightarrow> (r, c' # cs', st'')))"

definition sepol_sidtab_map ::
  "'s sid_apply \<Rightarrow> sidtab \<Rightarrow> 's \<Rightarrow> errcode option \<times> sidtab \<times> 's" where
  "sepol_sidtab_map f s st =
     (case sid_htable s of
        None \<Rightarrow> (None, s, st)
      | Some t \<Rightarrow>
          (case sid_map_chains f t st of (r, t', st') \<Rightarrow> (r, s\<lparr>sid_htable := Some t'\<rparr>, st')))"

fun sid_remove_chain :: "'s sid_apply \<Rightarrow> sidtab_node list \<Rightarrow> 's \<Rightarrow> sidtab_node list \<times> u32 \<times> 's" where
  "sid_remove_chain f [] st = ([], 0, st)"
| "sid_remove_chain f (n # ns) st =
     (case f (sid n) (con n) st of
        (Some e, c, st') \<Rightarrow>
          (case sid_remove_chain f ns st' of (ns', k, st'') \<Rightarrow> (ns', k + 1, st''))
      | (None, c, st') \<Rightarrow>
          (case sid_remove_chain f ns st' of (ns', k, st'') \<Rightarrow> (n\<lparr>con := c\<rparr> # ns', k, st'')))"

fun sid_remove_chains ::
  "'s sid_apply \<Rightarrow> sidtab_node list list \<Rightarrow> 's \<Rightarrow> sidtab_node list list \<times> u32 \<times> 's" where
  "sid_remove_chains f [] st = ([], 0, st)"
| "sid_remove_chains f (c # cs) st =
     (case sid_remove_chain f c st of
        (c', k, st') \<Rightarrow>
          (case sid_remove_chains f cs st' of (cs', l, st'') \<Rightarrow> (c' # cs', k + l, st'')))"

definition sepol_sidtab_map_remove_on_error :: "'s sid_apply \<Rightarrow> sidtab \<Rightarrow> 's \<Rightarrow> sidtab \<times> 's" where
  "sepol_sidtab_map_remove_on_error f s st =
     (case sid_htable s of
        None \<Rightarrow> (s, st)
      | Some t \<Rightarrow>
          (case sid_remove_chains f t st of
             (t', k, st') \<Rightarrow> (s\<lparr>sid_htable := Some t', sid_nel := sid_nel s - k\<rparr>, st')))"

text \<open>The first node with an equal context; 0 stands for none.\<close>

fun search_context :: "context_struct \<Rightarrow> sidtab_node list \<Rightarrow> u32" where
  "search_context c [] = 0"
| "search_context c (n # ns) = (if context_cmp (con n) c then sid n else search_context c ns)"

definition sepol_sidtab_search_context :: "sidtab_node list list \<Rightarrow> context_struct \<Rightarrow> u32" where
  "sepol_sidtab_search_context t c = search_context c (concat t)"

text \<open>
  The lock macros are empty, so the second scan finds what the first one found. A failed
  insertion undoes the increment of \<^verbatim>\<open>next_sid\<close>, so errors leave the table as it was.
\<close>

definition sepol_sidtab_context_to_sid ::
  "mem \<Rightarrow> sidtab \<Rightarrow> context_struct \<Rightarrow> errcode + u32 \<times> sidtab \<times> mem" where
  "sepol_sidtab_context_to_sid m s c =
     (case sid_htable s of
        None \<Rightarrow> Inl UNDEF
      | Some t \<Rightarrow>
          (let i = sepol_sidtab_search_context t c in
           if i \<noteq> 0 then Inr (i, s, m)
           else if next_sid s = - 1 \<or> shutdown s then Inl ENOMEM
           else
             (let i = next_sid s in
              rbind (sepol_sidtab_insert m (s\<lparr>next_sid := next_sid s + 1\<rparr>) i c) (\<lambda>(s', m').
                Inr (i, s', m')))))"

definition sepol_sidtab_destroy :: "sidtab \<Rightarrow> sidtab" where
  "sepol_sidtab_destroy s =
     (case sid_htable s of
        None \<Rightarrow> s
      | Some t \<Rightarrow> s\<lparr>sid_htable := None, sid_nel := 0, next_sid := 1\<rparr>)"

definition sepol_sidtab_set :: "sidtab \<Rightarrow> sidtab \<Rightarrow> sidtab" where
  "sepol_sidtab_set dst src =
     dst\<lparr>sid_htable := sid_htable src, sid_nel := sid_nel src, next_sid := next_sid src,
         shutdown := False\<rparr>"

definition sepol_sidtab_shutdown :: "sidtab \<Rightarrow> sidtab" where
  "sepol_sidtab_shutdown s = s\<lparr>shutdown := True\<rparr>"

section \<open>The invariant\<close>

definition sid_chain_ok :: "nat \<Rightarrow> sidtab_node list \<Rightarrow> bool" where
  "sid_chain_ok k c \<longleftrightarrow> sorted_wrt (\<lambda>a b. sid a < sid b) c \<and> (\<forall>n \<in> set c. sidtab_hash (sid n) = k)"

definition sid_chains_ok :: "sidtab_node list list \<Rightarrow> bool" where
  "sid_chains_ok t \<longleftrightarrow> length t = SIDTAB_SIZE \<and> (\<forall>k < length t. sid_chain_ok k (t ! k))"

definition wf_sidtab :: "sidtab \<Rightarrow> bool" where
  "wf_sidtab s \<longleftrightarrow>
     (\<exists>t. sid_htable s = Some t \<and> sid_chains_ok t \<and> sid_nel s = of_nat (length (concat t)) \<and>
        (\<forall>n \<in> set (concat t). 0 < sid n \<and> sid n < next_sid s) \<and> 0 < next_sid s)"

text \<open>The context of a SID, without the remapping to the unlabeled SID.\<close>

definition sid_map :: "sidtab \<Rightarrow> u32 \<Rightarrow> context_struct option" where
  "sid_map s i =
     (case sid_htable s of
        None \<Rightarrow> None
      | Some t \<Rightarrow> map_of (map (\<lambda>n. (sid n, con n)) (t ! sidtab_hash i)) i)"

lemma sidtab_hash_less: "sidtab_hash i < 128"
proof -
  have "i AND 127 = take_bit 7 i" by (simp add: take_bit_eq_mask mask_eq_exp_minus_1)
  then show ?thesis using take_bit_nat_less_exp[of 7 "unat i"]
    by (simp add: sidtab_hash_def unsigned_take_bit_eq)
qed

lemma sid_from_search:
  assumes "sorted_wrt (\<lambda>a b. sid a < sid b) c"
  shows "(case sid_from i c of [] \<Rightarrow> None | cur # _ \<Rightarrow> if i \<noteq> sid cur then None else Some (con cur)) =
    map_of (map (\<lambda>n. (sid n, con n)) c) i"
  using assms
proof (induction c)
  case (Cons n c)
  have "\<not> sid n < i \<Longrightarrow> i \<noteq> sid n \<Longrightarrow> map_of (map (\<lambda>n. (sid n, con n)) c) i = None"
    using Cons.prems by (auto simp: map_of_eq_None_iff)
  then show ?case using Cons by (auto simp: sid_from_def)
qed (simp add: sid_from_def)

lemma sid_chain_search_eq:
  "sid_chains_ok t \<Longrightarrow>
     sid_chain_search t i = map_of (map (\<lambda>n. (sid n, con n)) (t ! sidtab_hash i)) i"
  using sidtab_hash_less[of i] by (simp add: sid_chain_search_def sid_from_search sid_chains_ok_def sid_chain_ok_def)

lemma wf_sidtab_table:
  assumes "wf_sidtab s"
  obtains t where "sid_htable s = Some t" "sid_chains_ok t"
    "\<And>i. sid_chain_search t i = sid_map s i"
  using assms by (auto simp: wf_sidtab_def sid_map_def sid_chain_search_eq)

lemma sidtab_search_eq:
  assumes "wf_sidtab s"
  shows "sepol_sidtab_search s i =
    (case sid_map s i of Some c \<Rightarrow> Some c | None \<Rightarrow> sid_map s SECINITSID_UNLABELED)"
  by (rule wf_sidtab_table[OF assms]) (simp add: sepol_sidtab_search_def split: option.split)

lemma sid_map_Some:
  assumes wf: "wf_sidtab s" and t: "sid_htable s = Some t"
  shows "sid_map s i = Some c \<longleftrightarrow> \<lparr>sid = i, con = c\<rparr> \<in> set (concat t)"
proof -
  have ok: "sid_chains_ok t" using wf t by (auto simp: wf_sidtab_def)
  have "sid_chain_ok (sidtab_hash i) (t ! sidtab_hash i)"
    using ok sidtab_hash_less[of i] by (simp add: sid_chains_ok_def)
  then have "distinct (map sid (t ! sidtab_hash i))"
    by (auto simp: sid_chain_ok_def sorted_wrt_map intro!: sorted_less_distinct)
  then have "sid_map s i = Some c \<longleftrightarrow> (i, c) \<in> set (map (\<lambda>n. (sid n, con n)) (t ! sidtab_hash i))"
    by (simp add: sid_map_def t comp_def)
  also have "\<dots> \<longleftrightarrow> \<lparr>sid = i, con = c\<rparr> \<in> set (t ! sidtab_hash i)"
    by (auto simp: image_iff intro: bexI[of _ "\<lparr>sid = i, con = c\<rparr>"])
       (metis sidtab_node.surjective old.unit.exhaust)
  also have "\<dots> \<longleftrightarrow> \<lparr>sid = i, con = c\<rparr> \<in> set (concat t)"
  proof
    assume "\<lparr>sid = i, con = c\<rparr> \<in> set (t ! sidtab_hash i)"
    then show "\<lparr>sid = i, con = c\<rparr> \<in> set (concat t)"
      using ok sidtab_hash_less[of i] by (auto simp: sid_chains_ok_def intro!: bexI[of _ "t ! sidtab_hash i"])
  next
    assume "\<lparr>sid = i, con = c\<rparr> \<in> set (concat t)"
    then obtain ch where "ch \<in> set t" "\<lparr>sid = i, con = c\<rparr> \<in> set ch" by auto
    then obtain k where "k < length t" "\<lparr>sid = i, con = c\<rparr> \<in> set (t ! k)"
      by (metis in_set_conv_nth)
    then show "\<lparr>sid = i, con = c\<rparr> \<in> set (t ! sidtab_hash i)"
      using ok by (fastforce simp: sid_chains_ok_def sid_chain_ok_def)
  qed
  finally show ?thesis .
qed

section \<open>Insertion\<close>

lemma sidtab_init_ok:
  "sepol_sidtab_init m = Inr (s, m') \<Longrightarrow> wf_sidtab s \<and> sid_map s = Map.empty"
  using sidtab_hash_less
  by (auto simp: sepol_sidtab_init_def wf_sidtab_def sid_map_def sid_chains_ok_def sid_chain_ok_def
      fun_eq_iff split: option.splits)

lemma sid_insert_chain:
  assumes ok: "sid_chain_ok k c" and new: "case sid_from i c of [] \<Rightarrow> True | cur # _ \<Rightarrow> i \<noteq> sid cur"
    and k: "sidtab_hash i = k"
  shows "sid_chain_ok k (sid_before i c @ \<lparr>sid = i, con = x\<rparr> # sid_from i c)"
    and "map_of (map (\<lambda>n. (sid n, con n)) (sid_before i c @ \<lparr>sid = i, con = x\<rparr> # sid_from i c)) =
      (map_of (map (\<lambda>n. (sid n, con n)) c))(i \<mapsto> x)"
proof -
  have c: "c = sid_before i c @ sid_from i c" by (simp add: sid_before_def sid_from_def)
  have lt: "\<forall>n \<in> set (sid_before i c). sid n < i"
    by (auto simp: sid_before_def dest: set_takeWhileD)
  have srt: "sorted_wrt (\<lambda>a b. sid a < sid b) (sid_before i c @ sid_from i c)"
    using ok by (simp add: sid_chain_ok_def sid_before_def sid_from_def)
  have gt: "\<forall>n \<in> set (sid_from i c). i < sid n"
  proof (cases "sid_from i c")
    case (Cons n ns)
    have "\<not> sid n < i" using Cons unfolding sid_from_def by (metis hd_dropWhile list.sel(1) list.distinct(1))
    then have "i < sid n" using new Cons by auto
    then show ?thesis using srt Cons by (auto simp: sorted_wrt_append)
  qed simp
  have "\<forall>n \<in> set (sid_before i c @ sid_from i c). sidtab_hash (sid n) = k"
    using ok c by (simp add: sid_chain_ok_def)
  then show "sid_chain_ok k (sid_before i c @ \<lparr>sid = i, con = x\<rparr> # sid_from i c)"
    using srt lt gt k by (auto simp: sid_chain_ok_def sorted_wrt_append)
  have none: "map_of (map (\<lambda>n. (sid n, con n)) (sid_before i c)) i = None"
    using lt by (auto simp: map_of_eq_None_iff)
  have "map_of (map (\<lambda>n. (sid n, con n)) (sid_before i c @ \<lparr>sid = i, con = x\<rparr> # sid_from i c)) j =
      ((map_of (map (\<lambda>n. (sid n, con n)) (sid_before i c @ sid_from i c)))(i \<mapsto> x)) j" for j
    using none by (simp add: map_of_append map_add_def split: option.split)
  then show "map_of (map (\<lambda>n. (sid n, con n)) (sid_before i c @ \<lparr>sid = i, con = x\<rparr> # sid_from i c)) =
      (map_of (map (\<lambda>n. (sid n, con n)) c))(i \<mapsto> x)"
    using c by (simp add: fun_eq_iff)
qed

lemma sidtab_insert_EEXIST_iff:
  assumes "wf_sidtab s" "sid_htable s = Some t"
  shows "(case sid_from i (t ! sidtab_hash i) of [] \<Rightarrow> False | cur # _ \<Rightarrow> i = sid cur) \<longleftrightarrow>
    sid_map s i \<noteq> None"
proof -
  have "sid_chain_search t i = sid_map s i"
    using assms by (auto elim: wf_sidtab_table)
  moreover have "(case sid_from i (t ! sidtab_hash i) of [] \<Rightarrow> False | cur # _ \<Rightarrow> i = sid cur) \<longleftrightarrow>
      sid_chain_search t i \<noteq> None"
    by (auto simp: sid_chain_search_def split: list.splits)
  ultimately show ?thesis by simp
qed

lemma sidtab_insert_ok:
  assumes wf: "wf_sidtab s" and i: "0 < i" "i \<noteq> - 1" and ins: "sepol_sidtab_insert m s i c = Inr (s', m')"
  shows "wf_sidtab s'" and "sid_map s i = None" and "sid_map s' = (sid_map s)(i \<mapsto> c)"
    and "next_sid s' = (if i \<ge> next_sid s then i + 1 else next_sid s)" "shutdown s' = shutdown s"
proof -
  obtain t where t: "sid_htable s = Some t" and ok: "sid_chains_ok t"
    and nel: "sid_nel s = of_nat (length (concat t))"
    and bnd: "\<forall>n \<in> set (concat t). 0 < sid n \<and> sid n < next_sid s" and pos: "0 < next_sid s"
    using wf by (auto simp: wf_sidtab_def)
  define k where "k = sidtab_hash i"
  define c' where "c' = sid_before i (t ! k) @ \<lparr>sid = i, con = c\<rparr> # sid_from i (t ! k)"
  have new: "\<not> (case sid_from i (t ! k) of [] \<Rightarrow> False | cur # _ \<Rightarrow> i = sid cur)"
    and s': "s' = s\<lparr>sid_htable := Some (t[k := c']), sid_nel := sid_nel s + 1,
        next_sid := (if i \<ge> next_sid s then i + 1 else next_sid s)\<rparr>"
    using ins
    by (auto simp: sepol_sidtab_insert_def t Let_def k_def c'_def dest!: context_cpy_ok
        split: if_splits option.splits sum.splits)
  show "sid_map s i = None" using new sidtab_insert_EEXIST_iff[OF wf t] by (simp add: k_def)
  show "next_sid s' = (if i \<ge> next_sid s then i + 1 else next_sid s)" "shutdown s' = shutdown s"
    by (simp_all add: s')
  have kl: "k < length t" using ok sidtab_hash_less[of i] by (simp add: sid_chains_ok_def k_def)
  then have ck: "sid_chain_ok k (t ! k)" using ok by (simp add: sid_chains_ok_def)
  have "case sid_from i (t ! k) of [] \<Rightarrow> True | cur # _ \<Rightarrow> i \<noteq> sid cur"
    using new by (auto split: list.splits)
  note ch = sid_insert_chain[OF ck this k_def[symmetric], of c, folded c'_def]
  have ok': "sid_chains_ok (t[k := c'])"
    using ok ch(1) kl by (auto simp: sid_chains_ok_def nth_list_update)
  have mset_c': "set c' = insert \<lparr>sid = i, con = c\<rparr> (set (t ! k))" "length c' = Suc (length (t ! k))"
  proof -
    have "set (sid_before i (t ! k)) \<union> set (sid_from i (t ! k)) = set (t ! k)"
      "length (sid_before i (t ! k)) + length (sid_from i (t ! k)) = length (t ! k)"
      unfolding sid_before_def sid_from_def
      by (metis set_append takeWhile_dropWhile_id, metis length_append takeWhile_dropWhile_id)
    then show "set c' = insert \<lparr>sid = i, con = c\<rparr> (set (t ! k))" "length c' = Suc (length (t ! k))"
      by (auto simp: c'_def)
  qed
  have len: "length (concat (t[k := c'])) = Suc (length (concat t))"
    using kl mset_c'(2) by (simp add: length_concat map_update sum_list_update elem_le_sum_list)
  have sub: "set (concat (t[k := c'])) \<subseteq> insert \<lparr>sid = i, con = c\<rparr> (set (concat t))"
  proof
    fix n assume "n \<in> set (concat (t[k := c']))"
    then obtain ch where ch: "ch \<in> set (t[k := c'])" "n \<in> set ch" by auto
    then consider "ch = c'" | "ch \<in> set t" using set_update_subset_insert[of t k c'] by auto
    then show "n \<in> insert \<lparr>sid = i, con = c\<rparr> (set (concat t))"
    proof cases
      case 1
      then have "n = \<lparr>sid = i, con = c\<rparr> \<or> n \<in> set (t ! k)" using ch(2) mset_c'(1) by simp
      then show ?thesis using kl by auto
    qed (use ch(2) in auto)
  qed
  have inc: "i < i + 1"
  proof -
    have "i < - 1" using i(2) by (simp add: order.not_eq_order_implies_strict)
    then show ?thesis using unat_inc_if_less[of i "- 1"] by (simp add: word_facts)
  qed
  have "0 < sid n \<and> sid n < next_sid s'" if "n \<in> set (concat (t[k := c']))" for n
  proof (cases "n \<in> set (concat t)")
    case True
    then have "0 < sid n" "sid n < next_sid s" using bnd by auto
    then show ?thesis using inc by (auto simp: s')
  next
    case False
    then have "n = \<lparr>sid = i, con = c\<rparr>" using sub that by auto
    then show ?thesis using inc i(1) by (auto simp: s' not_le)
  qed
  moreover have "0 < next_sid s'" using pos inc i(1) by (auto simp: s')
  moreover have "sid_nel s' = of_nat (length (concat (t[k := c'])))"
    unfolding len by (simp add: s' nel)
  ultimately show "wf_sidtab s'"
    unfolding wf_sidtab_def using ok' by (intro exI[of _ "t[k := c']"]) (simp add: s' del: set_concat)
  show "sid_map s' = (sid_map s)(i \<mapsto> c)"
  proof
    fix j
    show "sid_map s' j = ((sid_map s)(i \<mapsto> c)) j"
      using ch(2) kl by (cases "sidtab_hash j = k") (auto simp: sid_map_def s' t k_def)
  qed
qed

section \<open>Allocation\<close>

text \<open>
  What the security server relies on when it turns contexts into SIDs: the SID stands for the
  context from then on, no other SID changes its meaning, and a context that has a SID keeps it.
\<close>

locale sid_store =
  fixes inv :: "'t \<Rightarrow> bool"
    and find :: "'t \<Rightarrow> u32 \<Rightarrow> 'c option"
    and alloc :: "mem \<Rightarrow> 't \<Rightarrow> 'c \<Rightarrow> errcode + u32 \<times> 't \<times> mem"
  assumes alloc_inv: "inv s \<Longrightarrow> alloc m s c = Inr (i, s', m') \<Longrightarrow> inv s'"
    and alloc_find: "inv s \<Longrightarrow> alloc m s c = Inr (i, s', m') \<Longrightarrow> find s' i = Some c \<and> i \<noteq> 0"
    and alloc_keeps: "inv s \<Longrightarrow> alloc m s c = Inr (i, s', m') \<Longrightarrow> find s j = Some d \<Longrightarrow> find s' j = Some d"
    and alloc_only: "inv s \<Longrightarrow> alloc m s c = Inr (i, s', m') \<Longrightarrow> find s' j = Some d \<Longrightarrow>
      find s j = Some d \<or> j = i \<and> d = c"
    and alloc_known: "inv s \<Longrightarrow> find s j = Some c \<Longrightarrow> \<exists>i. alloc m s c = Inr (i, s, m) \<and> find s i = Some c"
begin

lemma alloc_again:
  assumes "inv s" "alloc m s c = Inr (i, s', m')"
  shows "\<exists>j. alloc m2 s' c = Inr (j, s', m2) \<and> find s' j = Some c"
  using alloc_known[OF alloc_inv[OF assms], of i c m2] alloc_find[OF assms] by blast

lemma alloc_distinct:
  assumes "inv s" "alloc m s c = Inr (i, s1, m1)" "alloc m1 s1 d = Inr (j, s2, m2)" "c \<noteq> d"
  shows "i \<noteq> j"
proof
  assume eq: "i = j"
  have inv1: "inv s1" by (rule alloc_inv[OF assms(1,2)])
  have "find s2 i = Some c" using alloc_keeps[OF inv1 assms(3)] alloc_find[OF assms(1,2)] by blast
  moreover have "find s2 j = Some d" using alloc_find[OF inv1 assms(3)] by blast
  ultimately show False using eq assms(4) by simp
qed

fun alloc_all :: "mem \<Rightarrow> 't \<Rightarrow> 'c list \<Rightarrow> errcode + u32 list \<times> 't \<times> mem" where
  "alloc_all m s [] = Inr ([], s, m)"
| "alloc_all m s (c # cs) =
     rbind (alloc m s c) (\<lambda>(i, s1, m1). rbind (alloc_all m1 s1 cs) (\<lambda>(is, s2, m2). Inr (i # is, s2, m2)))"

lemma alloc_all_keeps:
  "inv s \<Longrightarrow> alloc_all m s cs = Inr (is, s', m') \<Longrightarrow>
     inv s' \<and> (\<forall>j d. find s j = Some d \<longrightarrow> find s' j = Some d)"
proof (induction m s cs arbitrary: "is" s' m' rule: alloc_all.induct)
  case (2 m s c cs)
  then obtain i s1 m1 is1 where a: "alloc m s c = Inr (i, s1, m1)" and r: "alloc_all m1 s1 cs = Inr (is1, s', m')"
    by (auto simp: rbind_eq_Inr)
  have "inv s' \<and> (\<forall>j d. find s1 j = Some d \<longrightarrow> find s' j = Some d)"
    using "2.IH"[OF a refl _ _ r] alloc_inv[OF "2.prems"(1) a] by auto
  then show ?case using alloc_keeps[OF "2.prems"(1) a] by blast
qed auto

lemma alloc_all_find:
  "inv s \<Longrightarrow> alloc_all m s cs = Inr (is, s', m') \<Longrightarrow> map (find s') is = map Some cs"
proof (induction m s cs arbitrary: "is" s' m' rule: alloc_all.induct)
  case (2 m s c cs)
  then obtain i s1 m1 is1 where a: "alloc m s c = Inr (i, s1, m1)" and r: "alloc_all m1 s1 cs = Inr (is1, s', m')"
    and i: "is = i # is1"
    by (auto simp: rbind_eq_Inr)
  have inv1: "inv s1" by (rule alloc_inv[OF "2.prems"(1) a])
  have "map (find s') is1 = map Some cs" using "2.IH"[OF a refl _ inv1 r] by auto
  moreover have "find s' i = Some c"
    using alloc_all_keeps[OF inv1 r] alloc_find[OF "2.prems"(1) a] by blast
  ultimately show ?case by (simp add: i)
qed auto

end

lemma search_context_spec:
  assumes "\<forall>n \<in> set ns. 0 < sid n"
  shows "search_context c ns = 0 \<Longrightarrow> n \<in> set ns \<Longrightarrow> con n \<noteq> c"
    and "search_context c ns \<noteq> 0 \<Longrightarrow> \<exists>n \<in> set ns. con n = c \<and> sid n = search_context c ns"
  using assms by (induction ns) (auto simp: context_cmp_iff split: if_splits)

lemma context_to_sid_cases:
  assumes wf: "wf_sidtab s"
  shows "(\<exists>j. sid_map s j = Some c) \<Longrightarrow>
      \<exists>i. sepol_sidtab_context_to_sid m s c = Inr (i, s, m) \<and> sid_map s i = Some c \<and> i \<noteq> 0"
    and "\<nexists>j. sid_map s j = Some c \<Longrightarrow> sepol_sidtab_context_to_sid m s c =
      (if next_sid s = - 1 \<or> shutdown s then Inl ENOMEM
       else rbind (sepol_sidtab_insert m (s\<lparr>next_sid := next_sid s + 1\<rparr>) (next_sid s) c) (\<lambda>(s', m').
          Inr (next_sid s, s', m')))"
proof -
  obtain t where t: "sid_htable s = Some t" and pos: "\<forall>n \<in> set (concat t). 0 < sid n"
    using wf by (auto simp: wf_sidtab_def)
  let ?i = "sepol_sidtab_search_context t c"
  note sc = search_context_spec[OF pos, of c, folded sepol_sidtab_search_context_def]
  have found: "sid_map s ?i = Some c" if nz: "?i \<noteq> 0"
  proof -
    obtain n where n: "n \<in> set (concat t)" "con n = c" "sid n = ?i" using sc(2)[OF nz] by blast
    have "n = \<lparr>sid = ?i, con = c\<rparr>" using n(2,3) by (cases n) auto
    then show ?thesis using n(1) sid_map_Some[OF wf t, of ?i c] by simp
  qed
  have none: "?i = 0 \<Longrightarrow> sid_map s j \<noteq> Some c" for j
    using sc(1)[of "\<lparr>sid = j, con = c\<rparr>"] sid_map_Some[OF wf t, of j c] by auto
  show "(\<exists>j. sid_map s j = Some c) \<Longrightarrow>
      \<exists>i. sepol_sidtab_context_to_sid m s c = Inr (i, s, m) \<and> sid_map s i = Some c \<and> i \<noteq> 0"
    using found none by (auto simp: sepol_sidtab_context_to_sid_def t Let_def)
  show "sepol_sidtab_context_to_sid m s c =
      (if next_sid s = - 1 \<or> shutdown s then Inl ENOMEM
       else rbind (sepol_sidtab_insert m (s\<lparr>next_sid := next_sid s + 1\<rparr>) (next_sid s) c) (\<lambda>(s', m').
          Inr (next_sid s, s', m')))" if "\<nexists>j. sid_map s j = Some c"
  proof -
    have "?i = 0" using found that by blast
    then show ?thesis by (simp add: sepol_sidtab_context_to_sid_def t Let_def)
  qed
qed

lemma wf_sidtab_next:
  assumes "wf_sidtab s" "next_sid s \<noteq> - 1"
  shows "wf_sidtab (s\<lparr>next_sid := next_sid s + 1\<rparr>)"
proof -
  have "next_sid s < - 1" using assms(2) by (simp add: order.not_eq_order_implies_strict)
  then have "next_sid s < next_sid s + 1" using unat_inc_if_less[of "next_sid s" "- 1"] by (simp add: word_facts)
  then show ?thesis using assms(1) by (fastforce simp: wf_sidtab_def)
qed

lemma context_to_sid_ok:
  assumes wf: "wf_sidtab s" and a: "sepol_sidtab_context_to_sid m s c = Inr (i, s', m')"
  shows "wf_sidtab s'" "i \<noteq> 0"
    and "sid_map s' = (if \<exists>j. sid_map s j = Some c then sid_map s else (sid_map s)(i \<mapsto> c))"
    and "sid_map s' i = Some c"
    and "(\<nexists>j. sid_map s j = Some c) \<Longrightarrow> sid_map s i = None"
proof -
  let ?known = "\<exists>j. sid_map s j = Some c"
  have "wf_sidtab s' \<and> i \<noteq> 0 \<and> sid_map s' i = Some c \<and> (?known \<longrightarrow> sid_map s' = sid_map s) \<and>
      (\<not> ?known \<longrightarrow> sid_map s' = (sid_map s)(i \<mapsto> c) \<and> sid_map s i = None)"
  proof (cases ?known)
    case True
    then show ?thesis using context_to_sid_cases(1)[OF wf True, of m] a wf by auto
  next
    case False
    note e = context_to_sid_cases(2)[OF wf False, of m]
    have n: "next_sid s \<noteq> - 1" using a e by auto
    have i: "i = next_sid s" and ins: "sepol_sidtab_insert m (s\<lparr>next_sid := next_sid s + 1\<rparr>) i c = Inr (s', m')"
      using a e by (auto simp: rbind_eq_Inr split: if_splits)
    have pos: "0 < i" using wf i by (auto simp: wf_sidtab_def)
    have sm: "sid_map (s\<lparr>next_sid := next_sid s + 1\<rparr>) = sid_map s" by (simp add: sid_map_def fun_eq_iff)
    have "i \<noteq> - 1" using n i by simp
    note ok = sidtab_insert_ok[OF wf_sidtab_next[OF wf n] pos this ins, unfolded sm]
    have "i \<noteq> 0" using pos by simp
    then show ?thesis using ok(1-3) False by simp
  qed
  note all = this
  show "wf_sidtab s'" "i \<noteq> 0" "sid_map s' i = Some c" using all by blast+
  show "sid_map s' = (if ?known then sid_map s else (sid_map s)(i \<mapsto> c))"
    "\<not> ?known \<Longrightarrow> sid_map s i = None" using all by simp_all
qed

interpretation sids: sid_store wf_sidtab sid_map sepol_sidtab_context_to_sid
proof unfold_locales
  fix s m c i s' m'
  assume wf: "wf_sidtab s" and a: "sepol_sidtab_context_to_sid m s c = Inr (i, s', m')"
  note ok = context_to_sid_ok[OF wf a]
  show "wf_sidtab s'" by (rule ok)
  show "sid_map s' i = Some c \<and> i \<noteq> 0" using ok by blast
  show "sid_map s j = Some d \<Longrightarrow> sid_map s' j = Some d" for j d
    using ok(3,5) by (auto split: if_splits)
  show "sid_map s' j = Some d \<Longrightarrow> sid_map s j = Some d \<or> j = i \<and> d = c" for j d
    using ok(3) by (auto split: if_splits)
next
  fix s j c m
  assume "wf_sidtab s" "sid_map s j = Some c"
  then show "\<exists>i. sepol_sidtab_context_to_sid m s c = Inr (i, s, m) \<and> sid_map s i = Some c"
    using context_to_sid_cases(1)[of s c m] by blast
qed

end
