(* ===== verification/Constraints.thy ===== *)
theory Constraints
  imports Sidtab
begin

text \<open>
  Constraint expressions: the evaluation loop of \<^verbatim>\<open>constraint_expr_eval_reason\<close> in
  \<^verbatim>\<open>src/services.c\<close> on a stack of five truth values. The buffers with the text of the
  constraint are not modelled, and neither are the exits with -ENOMEM when one of them cannot be
  allocated (which the callers take for true as well): the definitions describe the calls whose
  buffers are allocated. The result is the return value: \<open>Inl EINVAL\<close> is the -EINVAL of a
  stack underflow, which the callers take for true like any other nonzero value, and a \<^verbatim>\<open>BUG()\<close>
  or a full stack leaves with 0. \<open>Inl UNDEF\<close> marks a role without a datum that C dereferences.
\<close>

abbreviation (input) "CEXPR_MAXDEPTH \<equiv> 5"
abbreviation (input) "CEXPR_NOT \<equiv> 1"
abbreviation (input) "CEXPR_AND \<equiv> 2"
abbreviation (input) "CEXPR_OR \<equiv> 3"
abbreviation (input) "CEXPR_ATTR \<equiv> 4"
abbreviation (input) "CEXPR_NAMES \<equiv> 5"
abbreviation (input) "CEXPR_USER \<equiv> 1"
abbreviation (input) "CEXPR_ROLE \<equiv> 2"
abbreviation (input) "CEXPR_TYPE \<equiv> 4"
abbreviation (input) "CEXPR_TARGET \<equiv> 8"
abbreviation (input) "CEXPR_XTARGET \<equiv> 16"
abbreviation (input) "CEXPR_L1L2 \<equiv> 32"
abbreviation (input) "CEXPR_L1H2 \<equiv> 64"
abbreviation (input) "CEXPR_H1L2 \<equiv> 128"
abbreviation (input) "CEXPR_H1H2 \<equiv> 256"
abbreviation (input) "CEXPR_L1H1 \<equiv> 512"
abbreviation (input) "CEXPR_L2H2 \<equiv> 1024"
abbreviation (input) "CEXPR_EQ \<equiv> 1"
abbreviation (input) "CEXPR_NEQ \<equiv> 2"
abbreviation (input) "CEXPR_DOM \<equiv> 3"
abbreviation (input) "CEXPR_DOMBY \<equiv> 4"
abbreviation (input) "CEXPR_INCOMP \<equiv> 5"

section \<open>Leaves\<close>

text \<open>\<open>None\<close> is \<^verbatim>\<open>BUG(); goto out\<close>.\<close>

definition mls_op :: "u32 \<Rightarrow> mls_level \<Rightarrow> mls_level \<Rightarrow> bool option" where
  "mls_op oper l1 l2 =
     (if oper = CEXPR_EQ then Some (mls_level_eq l1 l2)
      else if oper = CEXPR_NEQ then Some (\<not> mls_level_eq l1 l2)
      else if oper = CEXPR_DOM then Some (mls_level_dom l1 l2)
      else if oper = CEXPR_DOMBY then Some (mls_level_dom l2 l1)
      else if oper = CEXPR_INCOMP then Some (mls_level_incomp l2 l1)
      else None)"

definition val_op :: "u32 \<Rightarrow> u32 \<Rightarrow> u32 \<Rightarrow> bool option" where
  "val_op oper val1 val2 =
     (if oper = CEXPR_EQ then Some (val1 = val2)
      else if oper = CEXPR_NEQ then Some (val1 \<noteq> val2)
      else None)"

text \<open>\<^verbatim>\<open>ebitmap_get_bit(&r->dominates, val - 1)\<close> for the role number \<open>r\<close>.\<close>

definition role_dominates :: "policydb \<Rightarrow> u32 \<Rightarrow> u32 \<Rightarrow> errcode + bool" where
  "role_dominates p r val =
     (case ptr_arr (role_val_to_struct p) (unat (r - 1)) of
        None \<Rightarrow> Inl UNDEF
      | Some rd \<Rightarrow> Inr (ebitmap_get_bit (dominates rd) (val - 1)))"

definition role_op :: "policydb \<Rightarrow> u32 \<Rightarrow> u32 \<Rightarrow> u32 \<Rightarrow> errcode + bool option" where
  "role_op p oper val1 val2 =
     (if oper = CEXPR_DOM then rbind (role_dominates p val1 val2) (\<lambda>b. Inr (Some b))
      else if oper = CEXPR_DOMBY then rbind (role_dominates p val2 val1) (\<lambda>b. Inr (Some b))
      else if oper = CEXPR_INCOMP then
        rbind (role_dominates p val1 val2) (\<lambda>b1.
          if b1 then Inr (Some False)
          else rbind (role_dominates p val2 val1) (\<lambda>b2. Inr (Some (\<not> b2))))
      else Inr (val_op oper val1 val2))"

definition attr_value ::
  "policydb \<Rightarrow> context_struct \<Rightarrow> context_struct \<Rightarrow> constraint_expr \<Rightarrow> errcode + bool option" where
  "attr_value p s t e =
     (let oper = cop e in
      if attr e = CEXPR_USER then Inr (val_op oper (user s) (user t))
      else if attr e = CEXPR_TYPE then Inr (val_op oper (type s) (type t))
      else if attr e = CEXPR_ROLE then role_op p oper (role s) (role t)
      else if attr e = CEXPR_L1L2 then Inr (mls_op oper (low (range s)) (low (range t)))
      else if attr e = CEXPR_L1H2 then Inr (mls_op oper (low (range s)) (high (range t)))
      else if attr e = CEXPR_H1L2 then Inr (mls_op oper (high (range s)) (low (range t)))
      else if attr e = CEXPR_H1H2 then Inr (mls_op oper (high (range s)) (high (range t)))
      else if attr e = CEXPR_L1H1 then Inr (mls_op oper (low (range s)) (high (range s)))
      else if attr e = CEXPR_L2H2 then Inr (mls_op oper (low (range t)) (high (range t)))
      else Inr None)"

definition names_value ::
  "context_struct \<Rightarrow> context_struct \<Rightarrow> context_struct option \<Rightarrow> constraint_expr \<Rightarrow> bool option" where
  "names_value s t x e =
     (case (if attr e AND CEXPR_TARGET \<noteq> 0 then Some t
            else if attr e AND CEXPR_XTARGET \<noteq> 0 then x
            else Some s) of
        None \<Rightarrow> None
      | Some c \<Rightarrow>
          (case (if attr e AND CEXPR_USER \<noteq> 0 then Some (user c)
                 else if attr e AND CEXPR_ROLE \<noteq> 0 then Some (role c)
                 else if attr e AND CEXPR_TYPE \<noteq> 0 then Some (type c)
                 else None) of
             None \<Rightarrow> None
           | Some val1 \<Rightarrow>
               if cop e = CEXPR_EQ then Some (ebitmap_get_bit (names e) (val1 - 1))
               else if cop e = CEXPR_NEQ then Some (\<not> ebitmap_get_bit (names e) (val1 - 1))
               else None))"

section \<open>The evaluation loop\<close>

text \<open>The stack has its top first; \<^verbatim>\<open>s[0]\<close> is its last element, and 0 before the first push.\<close>

fun cexpr_eval ::
  "policydb \<Rightarrow> context_struct \<Rightarrow> context_struct \<Rightarrow> context_struct option \<Rightarrow> constraint_expr list
     \<Rightarrow> bool list \<Rightarrow> errcode + bool" where
  "cexpr_eval p s t x [] st = Inr (if st = [] then False else last st)"
| "cexpr_eval p s t x (e # es) st =
     (if cexpr_type e = CEXPR_NOT then
        (case st of a # r \<Rightarrow> cexpr_eval p s t x es ((\<not> a) # r) | _ \<Rightarrow> Inl EINVAL)
      else if cexpr_type e = CEXPR_AND then
        (case st of b # a # r \<Rightarrow> cexpr_eval p s t x es ((a \<and> b) # r) | _ \<Rightarrow> Inl EINVAL)
      else if cexpr_type e = CEXPR_OR then
        (case st of b # a # r \<Rightarrow> cexpr_eval p s t x es ((a \<or> b) # r) | _ \<Rightarrow> Inl EINVAL)
      else if cexpr_type e = CEXPR_ATTR then
        (if length st = CEXPR_MAXDEPTH then Inr False
         else rbind (attr_value p s t e) (\<lambda>v.
           case v of None \<Rightarrow> Inr False | Some b \<Rightarrow> cexpr_eval p s t x es (b # st)))
      else if cexpr_type e = CEXPR_NAMES then
        (if length st = CEXPR_MAXDEPTH then Inr False
         else (case names_value s t x e of
                 None \<Rightarrow> Inr False
               | Some b \<Rightarrow> cexpr_eval p s t x es (b # st)))
      else Inr False)"

definition constraint_expr_eval ::
  "policydb \<Rightarrow> context_struct \<Rightarrow> context_struct \<Rightarrow> context_struct option \<Rightarrow> constraint_node
     \<Rightarrow> errcode + bool" where
  "constraint_expr_eval p s t x c = cexpr_eval p s t x (cexpr c) []"

text \<open>How the callers read the result: any nonzero value grants.\<close>

definition constraint_granted ::
  "policydb \<Rightarrow> context_struct \<Rightarrow> context_struct \<Rightarrow> context_struct option \<Rightarrow> constraint_node
     \<Rightarrow> errcode + bool" where
  "constraint_granted p s t x c =
     (case constraint_expr_eval p s t x c of
        Inl UNDEF \<Rightarrow> Inl UNDEF
      | Inl _ \<Rightarrow> Inr True
      | Inr b \<Rightarrow> Inr b)"

section \<open>Expressions as trees\<close>

datatype cexp =
    CLeaf constraint_expr
  | CNot cexp
  | CAnd cexp cexp
  | COr cexp cexp

definition op_expr :: "u32 \<Rightarrow> constraint_expr" where
  "op_expr k = \<lparr>cexpr_type = k, attr = 0, cop = 0, names = ebitmap_init, type_names = None\<rparr>"

fun cflat :: "cexp \<Rightarrow> constraint_expr list" where
  "cflat (CLeaf e) = [e]"
| "cflat (CNot a) = cflat a @ [op_expr CEXPR_NOT]"
| "cflat (CAnd a b) = cflat a @ cflat b @ [op_expr CEXPR_AND]"
| "cflat (COr a b) = cflat a @ cflat b @ [op_expr CEXPR_OR]"

text \<open>The stack slots that an expression needs.\<close>

fun cslots :: "cexp \<Rightarrow> nat" where
  "cslots (CLeaf e) = 1"
| "cslots (CNot a) = cslots a"
| "cslots (CAnd a b) = max (cslots a) (Suc (cslots b))"
| "cslots (COr a b) = max (cslots a) (Suc (cslots b))"

definition leaf_value ::
  "policydb \<Rightarrow> context_struct \<Rightarrow> context_struct \<Rightarrow> context_struct option \<Rightarrow> constraint_expr
     \<Rightarrow> bool option" where
  "leaf_value p s t x e =
     (if cexpr_type e = CEXPR_ATTR then
        (case attr_value p s t e of Inr (Some b) \<Rightarrow> Some b | _ \<Rightarrow> None)
      else if cexpr_type e = CEXPR_NAMES then names_value s t x e
      else None)"

fun cvalue ::
  "policydb \<Rightarrow> context_struct \<Rightarrow> context_struct \<Rightarrow> context_struct option \<Rightarrow> cexp \<Rightarrow> bool option" where
  "cvalue p s t x (CLeaf e) = leaf_value p s t x e"
| "cvalue p s t x (CNot a) = map_option Not (cvalue p s t x a)"
| "cvalue p s t x (CAnd a b) =
     (case (cvalue p s t x a, cvalue p s t x b) of (Some u, Some v) \<Rightarrow> Some (u \<and> v) | _ \<Rightarrow> None)"
| "cvalue p s t x (COr a b) =
     (case (cvalue p s t x a, cvalue p s t x b) of (Some u, Some v) \<Rightarrow> Some (u \<or> v) | _ \<Rightarrow> None)"

lemma cslots_pos: "0 < cslots a"
  by (induction a) auto

lemma leaf_value_Some:
  "leaf_value p s t x e = Some b \<Longrightarrow>
     cexpr_type e = CEXPR_ATTR \<and> attr_value p s t e = Inr (Some b) \<or>
     cexpr_type e = CEXPR_NAMES \<and> names_value s t x e = Some b"
  by (auto simp: leaf_value_def split: if_splits sum.splits option.splits)

lemma cexpr_eval_leaf:
  assumes "leaf_value p s t x e = Some b" "length st < CEXPR_MAXDEPTH"
  shows "cexpr_eval p s t x (e # es) st = cexpr_eval p s t x es (b # st)"
  using leaf_value_Some[OF assms(1)] assms(2) by auto

lemma cexpr_eval_flat:
  assumes "cvalue p s t x a = Some v" "length st + cslots a \<le> CEXPR_MAXDEPTH"
  shows "cexpr_eval p s t x (cflat a @ es) st = cexpr_eval p s t x es (v # st)"
  using assms
proof (induction a arbitrary: v st es)
  case (CLeaf e)
  then show ?case using cexpr_eval_leaf[of p s t x e v st es] by simp
next
  case (CNot a)
  then show ?case by (auto simp: op_expr_def)
next
  case (CAnd a b)
  then obtain u w where "cvalue p s t x a = Some u" "cvalue p s t x b = Some w" "v = (u \<and> w)"
    by (auto split: option.splits)
  with CAnd show ?case by (simp add: op_expr_def)
next
  case (COr a b)
  then obtain u w where "cvalue p s t x a = Some u" "cvalue p s t x b = Some w" "v = (u \<or> w)"
    by (auto split: option.splits)
  with COr show ?case by (simp add: op_expr_def)
qed

lemma constraint_eval_tree:
  assumes "cexpr c = cflat a" "cvalue p s t x a = Some v" "cslots a \<le> CEXPR_MAXDEPTH"
  shows "constraint_expr_eval p s t x c = Inr v"
  using cexpr_eval_flat[OF assms(2), of "[]" "[]"] assms(1,3)
  by (simp add: constraint_expr_eval_def)

text \<open>An operator on an empty stack grants, whatever follows.\<close>

lemma underflow_grants:
  assumes "cexpr c = e # es" "cexpr_type e \<in> {CEXPR_NOT, CEXPR_AND, CEXPR_OR}"
  shows "constraint_granted p s t x c = Inr True"
  using assms by (auto simp: constraint_granted_def constraint_expr_eval_def)

text \<open>The evaluation ends with a truth value, an underflow or a missing role, nothing else.\<close>

lemma role_dominates_error: "role_dominates p r v = Inl err \<Longrightarrow> err = UNDEF"
  by (simp add: role_dominates_def split: option.splits)

lemma attr_value_error: "attr_value p s t e = Inl err \<Longrightarrow> err = UNDEF"
  by (auto simp: attr_value_def role_op_def Let_def rbind_eq_Inl dest: role_dominates_error split: if_splits)

lemma cexpr_eval_error: "cexpr_eval p s t x es st = Inl err \<Longrightarrow> err = UNDEF \<or> err = EINVAL"
  by (induction p s t x es st rule: cexpr_eval.induct)
     (auto simp: rbind_eq_Inl dest: attr_value_error split: if_splits list.splits option.splits)

end
