(* ===== verification/Access.thy ===== *)
theory Access
  imports Constraints
begin

text \<open>
  Access decisions: \<^verbatim>\<open>context_struct_compute_av\<close> and \<^verbatim>\<open>type_attribute_bounds_av\<close> of
  \<^verbatim>\<open>src/services.c\<close>. The two functions call each other along the type bounds of the source
  type; the model counts the calls with fuel and gives \<open>None\<close> when it is used up. A rank that
  decreases along the bounds bounds the depth (\<open>compute_av_returns\<close>); a type that bounds itself
  makes the recursion endless (\<open>compute_av_endless\<close>).

  The reason bits are always computed; \<^verbatim>\<open>reason == NULL\<close> means that the caller drops them.
\<close>

abbreviation (input) "COMPUTEAV_TE \<equiv> 1"
abbreviation (input) "COMPUTEAV_CONS \<equiv> 2"
abbreviation (input) "COMPUTEAV_RBAC \<equiv> 4"
abbreviation (input) "COMPUTEAV_BOUNDS \<equiv> 8"

section \<open>Type enforcement\<close>

definition av_init :: av_decision where
  "av_init = \<lparr>allowed = 0, decided = 0xffffffff, auditallow = 0, auditdeny = 0xffffffff, seqno = 0\<rparr>"

definition te_step :: "avtab_node \<Rightarrow> av_decision \<Rightarrow> av_decision" where
  "te_step n avd =
     (if specified (key n) = AVTAB_ALLOWED then avd\<lparr>allowed := allowed avd OR data (datum n)\<rparr>
      else if specified (key n) = AVTAB_AUDITALLOW then avd\<lparr>auditallow := auditallow avd OR data (datum n)\<rparr>
      else if specified (key n) = AVTAB_AUDITDENY then avd\<lparr>auditdeny := auditdeny avd AND data (datum n)\<rparr>
      else avd)"

definition av_key :: "u16 \<Rightarrow> u32 \<Rightarrow> u32 \<Rightarrow> avtab_key" where
  "av_key tclass i j =
     \<lparr>source_type = ucast (i + 1), target_type = ucast (j + 1), target_class = tclass,
      specified = AVTAB_AV\<rparr>"

definition te_pair :: "policydb \<Rightarrow> u16 \<Rightarrow> u32 \<times> u32 \<Rightarrow> av_decision \<Rightarrow> av_decision" where
  "te_pair p tclass ij avd =
     (let k = av_key tclass (fst ij) (snd ij) in
      cond_compute_av (te_cond_avtab p) k (fold te_step (avtab_visit (te_avtab p) k) avd))"

definition te_decision :: "policydb \<Rightarrow> u16 \<Rightarrow> ebitmap \<Rightarrow> ebitmap \<Rightarrow> av_decision" where
  "te_decision p tclass sattr tattr =
     fold (te_pair p tclass)
       (List.product (ebitmap_positive_bits sattr) (ebitmap_positive_bits tattr)) av_init"

section \<open>Constraints, roles and bounds\<close>

fun apply_constraints ::
  "policydb \<Rightarrow> context_struct \<Rightarrow> context_struct \<Rightarrow> constraint_node list \<Rightarrow> av_decision
     \<Rightarrow> errcode + av_decision" where
  "apply_constraints p s t [] avd = Inr avd"
| "apply_constraints p s t (c # cs) avd =
     (if permissions c AND allowed avd \<noteq> 0 then
        rbind (constraint_granted p s t None c) (\<lambda>g.
          apply_constraints p s t cs
            (if \<not> g then avd\<lparr>allowed := allowed avd AND NOT (permissions c)\<rparr> else avd))
      else apply_constraints p s t cs avd)"

definition role_allowed :: "policydb \<Rightarrow> u32 \<Rightarrow> u32 \<Rightarrow> bool" where
  "role_allowed p r1 r2 = list_ex (\<lambda>ra. r1 = ra_role ra \<and> r2 = ra_new_role ra) (role_allows p)"

definition apply_role_allow ::
  "policydb \<Rightarrow> context_struct \<Rightarrow> context_struct \<Rightarrow> u16 \<Rightarrow> av_decision \<Rightarrow> av_decision" where
  "apply_role_allow p s t tclass avd =
     (if tclass = process_class p \<and> allowed avd AND process_trans_dyntrans p \<noteq> 0 \<and>
         role s \<noteq> role t \<and> \<not> role_allowed p (role s) (role t)
      then avd\<lparr>allowed := allowed avd AND NOT (process_trans_dyntrans p)\<rparr> else avd)"

text \<open>\<^verbatim>\<open>if (requested & ~avd->allowed) { *reason |= bit; requested &= avd->allowed; }\<close>\<close>

definition note_missing :: "u32 \<Rightarrow> av_decision \<Rightarrow> u32 \<times> u32 \<Rightarrow> u32 \<times> u32" where
  "note_missing rbit avd rr =
     (case rr of (requested, reason) \<Rightarrow>
        if requested AND NOT (allowed avd) \<noteq> 0 then (requested AND allowed avd, reason OR rbit)
        else (requested, reason))"

text \<open>
  The decision before the bounds: the access vectors, the rest of the requested permissions and
  the reason so far.
\<close>

definition unbounded_av ::
  "policydb \<Rightarrow> context_struct \<Rightarrow> context_struct \<Rightarrow> u16 \<Rightarrow> u32 \<Rightarrow> errcode + av_decision \<times> u32 \<times> u32" where
  "unbounded_av p s t tclass requested =
     (if tclass = 0 \<or> ucast tclass > nprim (p_classes p) then Inl EINVAL
      else case (arr (type_attr_map p) (unat (type s - 1)), arr (type_attr_map p) (unat (type t - 1)),
                 ptr_arr (class_val_to_struct p) (unat tclass - 1)) of
        (Some sattr, Some tattr, Some tclass_datum) \<Rightarrow>
          (let avd = te_decision p tclass sattr tattr;
               rr = note_missing COMPUTEAV_TE avd (requested, 0)
           in rbind (apply_constraints p s t (constraints tclass_datum) avd) (\<lambda>avd.
                let rr = note_missing COMPUTEAV_CONS avd rr;
                    avd = apply_role_allow p s t tclass avd;
                    rr = note_missing COMPUTEAV_RBAC avd rr
                in Inr (avd, rr)))
      | _ \<Rightarrow> Inl UNDEF)"

text \<open>
  \<^verbatim>\<open>type_attribute_bounds_av\<close>: the contexts that bound the pair, if the source type has a bound.
  The target keeps its type when it has none.
\<close>

definition bounding_pair ::
  "policydb \<Rightarrow> context_struct \<Rightarrow> context_struct \<Rightarrow> errcode + (context_struct \<times> context_struct) option" where
  "bounding_pair p s t =
     (case ptr_arr (type_val_to_struct p) (unat (type s - 1)) of
        None \<Rightarrow> Inl UNDEF
      | Some src \<Rightarrow>
          if bounds src = 0 then Inr None
          else case ptr_arr (type_val_to_struct p) (unat (type t - 1)) of
            None \<Rightarrow> Inl UNDEF
          | Some tgt \<Rightarrow>
              Inr (Some (s\<lparr>type := bounds src\<rparr>,
                         if bounds tgt \<noteq> 0 then t\<lparr>type := bounds tgt\<rparr> else t)))"

definition mask_bounds :: "u32 \<Rightarrow> av_decision \<times> u32 \<Rightarrow> av_decision \<times> u32" where
  "mask_bounds lo_allowed ar =
     (case ar of (avd, reason) \<Rightarrow>
        (let masked = NOT lo_allowed AND allowed avd
         in if masked = 0 then (avd, reason)
            else (avd\<lparr>allowed := allowed avd AND NOT masked\<rparr>, reason OR COMPUTEAV_BOUNDS)))"

text \<open>
  The bounding decision starts zeroed (\<^verbatim>\<open>memset\<close>) and its return code is ignored, so a failed
  call stands for an empty access vector.
\<close>

fun context_struct_compute_av ::
  "nat \<Rightarrow> policydb \<Rightarrow> context_struct \<Rightarrow> context_struct \<Rightarrow> u16 \<Rightarrow> u32
     \<Rightarrow> (errcode + av_decision \<times> u32) option" where
  "context_struct_compute_av 0 p s t tclass requested = None"
| "context_struct_compute_av (Suc fuel) p s t tclass requested =
     (case unbounded_av p s t tclass requested of
        Inl err \<Rightarrow> Some (Inl err)
      | Inr (avd, requested, reason) \<Rightarrow>
          (case bounding_pair p s t of
             Inl err \<Rightarrow> Some (Inl err)
           | Inr None \<Rightarrow> Some (Inr (avd, reason))
           | Inr (Some (lo_s, lo_t)) \<Rightarrow>
               (case context_struct_compute_av fuel p lo_s lo_t tclass requested of
                  None \<Rightarrow> None
                | Some (Inl UNDEF) \<Rightarrow> Some (Inl UNDEF)
                | Some (Inl _) \<Rightarrow> Some (Inr (mask_bounds 0 (avd, reason)))
                | Some (Inr (lo_avd, _)) \<Rightarrow>
                    Some (Inr (mask_bounds (allowed lo_avd) (avd, reason))))))"

section \<open>Termination\<close>

definition bound_of :: "policydb \<Rightarrow> u32 \<Rightarrow> u32" where
  "bound_of p t = (case ptr_arr (type_val_to_struct p) (unat (t - 1)) of None \<Rightarrow> 0 | Some d \<Rightarrow> bounds d)"

lemma bounding_pair_Some:
  "bounding_pair p s t = Inr (Some (s', t')) \<Longrightarrow>
     bound_of p (type s) \<noteq> 0 \<and> s' = s\<lparr>type := bound_of p (type s)\<rparr> \<and>
     t' = (if bound_of p (type t) \<noteq> 0 then t\<lparr>type := bound_of p (type t)\<rparr> else t)"
  by (auto simp: bounding_pair_def bound_of_def split: option.splits if_splits)

text \<open>A rank that decreases along the bounds is enough fuel.\<close>

lemma compute_av_returns:
  assumes rank: "\<And>t. bound_of p t \<noteq> 0 \<Longrightarrow> rk (bound_of p t) < rk t"
  shows "rk (type s) < fuel \<Longrightarrow> \<exists>r. context_struct_compute_av fuel p s t tclass requested = Some r"
proof (induction fuel arbitrary: s t requested)
  case (Suc fuel)
  show ?case
  proof (cases "unbounded_av p s t tclass requested")
    case (Inr r)
    then obtain avd req reason where r: "unbounded_av p s t tclass requested = Inr (avd, req, reason)"
      by (cases r) auto
    show ?thesis
    proof (cases "bounding_pair p s t")
      case bp: (Inr ob)
      show ?thesis
      proof (cases ob)
        case (Some st)
        obtain s' t' where st: "st = (s', t')" by (cases st)
        have b: "bound_of p (type s) \<noteq> 0" "type s' = bound_of p (type s)"
          using bounding_pair_Some[of p s t s' t'] bp Some st by auto
        then have "rk (type s') < fuel" using rank[OF b(1)] Suc.prems by simp
        then obtain x where "context_struct_compute_av fuel p s' t' tclass req = Some x"
          using Suc.IH by blast
        then show ?thesis
          by (auto simp: r bp Some st split: sum.splits errcode.splits prod.splits)
      qed (simp add: r bp)
    qed (simp add: r)
  qed simp
qed simp

text \<open>More fuel does not change a result.\<close>

lemma compute_av_mono:
  "context_struct_compute_av fuel p s t tclass requested = Some r \<Longrightarrow> fuel \<le> fuel' \<Longrightarrow>
     context_struct_compute_av fuel' p s t tclass requested = Some r"
proof (induction fuel arbitrary: fuel' s t requested r)
  case (Suc fuel)
  then obtain f where f: "fuel' = Suc f" "fuel \<le> f" by (cases fuel') auto
  show ?case
  proof (cases "unbounded_av p s t tclass requested")
    case (Inr x)
    then obtain avd req reason where x: "unbounded_av p s t tclass requested = Inr (avd, req, reason)"
      by (cases x) auto
    show ?thesis
    proof (cases "bounding_pair p s t")
      case bp: (Inr ob)
      show ?thesis
      proof (cases ob)
        case (Some st)
        obtain s' t' where st: "st = (s', t')" by (cases st)
        obtain y where y: "context_struct_compute_av fuel p s' t' tclass req = Some y"
          using Suc.prems(1) by (cases "context_struct_compute_av fuel p s' t' tclass req") (auto simp: x bp Some st)
        show ?thesis using Suc.prems(1) Suc.IH[OF y f(2)] y by (simp add: f(1) x bp Some st)
      qed (use Suc.prems(1) in \<open>simp add: f(1) x bp\<close>)
    qed (use Suc.prems(1) in \<open>simp add: f(1) x\<close>)
  qed (use Suc.prems(1) in \<open>simp add: f(1)\<close>)
qed simp

text \<open>
  A type that bounds itself, or any cycle of bounds: as long as the decisions can be computed at
  all, no number of calls is enough.
\<close>

lemma compute_av_endless:
  assumes self: "bound_of p (type s) = type s" "bound_of p (type t) \<in> {0, type t}"
    and nz: "type s \<noteq> 0"
    and ok: "\<And>requested. \<exists>r. unbounded_av p s t tclass requested = Inr r"
    and tgt: "ptr_arr (type_val_to_struct p) (unat (type t - 1)) \<noteq> None"
  shows "context_struct_compute_av fuel p s t tclass requested = None"
proof (induction fuel arbitrary: requested)
  case (Suc fuel)
  obtain avd req reason where "unbounded_av p s t tclass requested = Inr (avd, req, reason)"
    using ok[of requested] by (metis prod.exhaust)
  moreover have "bounding_pair p s t = Inr (Some (s, t))"
    using self nz tgt
    by (auto simp: bounding_pair_def bound_of_def split: option.splits if_splits)
  ultimately show ?case using Suc by simp
qed simp

section \<open>What is allowed\<close>

lemma fold_te_step:
  "allowed (fold te_step ns avd) =
     fold (\<lambda>n a. if specified (key n) = AVTAB_ALLOWED then a OR data (datum n) else a) ns (allowed avd)"
  "auditallow (fold te_step ns avd) =
     fold (\<lambda>n a. if specified (key n) = AVTAB_AUDITALLOW then a OR data (datum n) else a) ns (auditallow avd)"
  "auditdeny (fold te_step ns avd) =
     fold (\<lambda>n a. if specified (key n) = AVTAB_AUDITDENY then a AND data (datum n) else a) ns (auditdeny avd)"
  by (induction ns arbitrary: avd) (simp_all add: te_step_def)

text \<open>A rule between the attributes \<open>i\<close> and \<open>j\<close> allows the permission bit \<open>k\<close>.\<close>

definition rule_allows :: "policydb \<Rightarrow> u16 \<Rightarrow> u32 \<Rightarrow> u32 \<Rightarrow> nat \<Rightarrow> bool" where
  "rule_allows p tclass i j k \<longleftrightarrow>
     (\<exists>n \<in> set (av_nodes (te_avtab p)). answers (av_key tclass i j) n \<and>
        specified (key n) = AVTAB_ALLOWED \<and> bit (data (datum n)) k) \<or>
     (\<exists>n \<in> set (av_nodes (te_cond_avtab p)). answers (av_key tclass i j) n \<and>
        active AVTAB_ALLOWED n \<and> bit (data (datum n)) k)"

definition wf_te :: "policydb \<Rightarrow> bool" where
  "wf_te p \<longleftrightarrow> wf_avtab (te_avtab p) \<and> wf_avtab (te_cond_avtab p) \<and>
     (\<forall>a \<in> set (type_attr_map p). wf_ebitmap a)"

lemma te_pair_allowed:
  assumes "wf_te p"
  shows "bit (allowed (te_pair p tclass ij avd)) k \<longleftrightarrow>
    bit (allowed avd) k \<or> rule_allows p tclass (fst ij) (snd ij) k"
proof -
  have wf: "wf_avtab (te_avtab p)" "wf_avtab (te_cond_avtab p)" using assms by (auto simp: wf_te_def)
  let ?k = "av_key tclass (fst ij) (snd ij)"
  have "bit (allowed (fold te_step (avtab_visit (te_avtab p) ?k) avd)) k \<longleftrightarrow>
      bit (allowed avd) k \<or> (\<exists>n \<in> set (av_nodes (te_avtab p)). answers ?k n \<and>
        specified (key n) = AVTAB_ALLOWED \<and> bit (data (datum n)) k)"
    unfolding fold_te_step
    by (rule rules.collect_or[OF wf(1), of "\<lambda>n. specified (key n) = AVTAB_ALLOWED"])
  then show ?thesis
    unfolding te_pair_def Let_def cond_compute_av_allowed[OF wf(2)] rule_allows_def by blast
qed

lemma te_decision_allowed:
  assumes wf: "wf_te p" and a: "wf_ebitmap sattr" "wf_ebitmap tattr"
  shows "bit (allowed (te_decision p tclass sattr tattr)) k \<longleftrightarrow>
    (\<exists>i \<in> ebits sattr. \<exists>j \<in> ebits tattr. rule_allows p tclass i j k)"
proof -
  have "bit (allowed (fold (te_pair p tclass) ps avd)) k \<longleftrightarrow>
      bit (allowed avd) k \<or> (\<exists>ij \<in> set ps. rule_allows p tclass (fst ij) (snd ij) k)" for ps avd
    by (induction ps arbitrary: avd) (auto simp: te_pair_allowed[OF wf])
  then show ?thesis
    unfolding te_decision_def
    by (auto simp: av_init_def ebitmap_positive_bits_spec(1)[OF a(1)] ebitmap_positive_bits_spec(1)[OF a(2)])
qed

lemma and_nonzero_if_bit: "bit a k \<Longrightarrow> bit b k \<Longrightarrow> a AND b \<noteq> (0 :: u32)"
  by (metis bit_and_iff bit_0_eq bot_apply bot_bool_def)

lemma bit_not_u32: "bit (NOT (a :: u32)) k \<longleftrightarrow> k < 32 \<and> \<not> bit a k"
  by (simp add: bit_not_iff possible_bit_word)

lemma bit_u32_less: "bit (a :: u32) k \<Longrightarrow> k < 32"
  using bit_imp_le_length[of a k] by simp

lemma apply_constraints_allowed:
  assumes "apply_constraints p s t cs avd = Inr avd'"
  shows "bit (allowed avd') k \<longleftrightarrow> bit (allowed avd) k \<and>
    (\<forall>c \<in> set cs. bit (permissions c) k \<longrightarrow> constraint_granted p s t None c = Inr True)"
  using assms
proof (induction p s t cs avd rule: apply_constraints.induct)
  case (2 p s t c cs avd)
  show ?case
  proof (cases "permissions c AND allowed avd = 0")
    case True
    then have "\<not> (bit (permissions c) k \<and> bit (allowed avd) k)" using and_nonzero_if_bit by blast
    then show ?thesis using True 2 by auto
  next
    case False
    then obtain g where g: "constraint_granted p s t None c = Inr g"
      and r: "apply_constraints p s t cs
        (if \<not> g then avd\<lparr>allowed := allowed avd AND NOT (permissions c)\<rparr> else avd) = Inr avd'"
      using "2.prems" by (auto simp: rbind_eq_Inr)
    show ?thesis using "2.IH"(1)[OF False g r] g
      by (auto simp: bit_and_iff bit_not_u32 dest: bit_u32_less)
  qed
qed simp

lemma apply_role_allow_allowed:
  "bit (allowed (apply_role_allow p s t tclass avd)) k \<longleftrightarrow> bit (allowed avd) k \<and>
    (tclass = process_class p \<and> bit (process_trans_dyntrans p) k \<and> role s \<noteq> role t \<longrightarrow>
       role_allowed p (role s) (role t))"
  by (auto simp: apply_role_allow_def bit_and_iff bit_not_u32 dest: bit_u32_less and_nonzero_if_bit)

text \<open>
  The specification without bounds: a rule between the attributes of the two types allows the
  permission, every constraint on it holds, and a process transition to another role is covered
  by a role allow rule.
\<close>

definition locally_permits ::
  "policydb \<Rightarrow> context_struct \<Rightarrow> context_struct \<Rightarrow> u16 \<Rightarrow> nat \<Rightarrow> bool" where
  "locally_permits p s t tclass k \<longleftrightarrow>
     (\<exists>sattr tattr cl. arr (type_attr_map p) (unat (type s - 1)) = Some sattr \<and>
        arr (type_attr_map p) (unat (type t - 1)) = Some tattr \<and>
        ptr_arr (class_val_to_struct p) (unat tclass - 1) = Some cl \<and>
        (\<exists>i \<in> ebits sattr. \<exists>j \<in> ebits tattr. rule_allows p tclass i j k) \<and>
        (\<forall>c \<in> set (constraints cl). bit (permissions c) k \<longrightarrow>
           constraint_granted p s t None c = Inr True)) \<and>
     (tclass = process_class p \<and> bit (process_trans_dyntrans p) k \<and> role s \<noteq> role t \<longrightarrow>
        role_allowed p (role s) (role t))"

lemma unbounded_av_cases:
  assumes "unbounded_av p s t tclass requested = Inr (avd, req, reason)"
  obtains sattr tattr cl avd1 where
    "arr (type_attr_map p) (unat (type s - 1)) = Some sattr"
    "arr (type_attr_map p) (unat (type t - 1)) = Some tattr"
    "ptr_arr (class_val_to_struct p) (unat tclass - 1) = Some cl"
    "apply_constraints p s t (constraints cl) (te_decision p tclass sattr tattr) = Inr avd1"
    "avd = apply_role_allow p s t tclass avd1"
    "(req, reason) = note_missing COMPUTEAV_RBAC avd (note_missing COMPUTEAV_CONS avd1
       (note_missing COMPUTEAV_TE (te_decision p tclass sattr tattr) (requested, 0)))"
  using assms
  by (auto simp: unbounded_av_def Let_def rbind_eq_Inr split: if_splits option.splits)

lemma unbounded_av_allowed:
  assumes wf: "wf_te p" and u: "unbounded_av p s t tclass requested = Inr (avd, req, reason)"
  shows "bit (allowed avd) k \<longleftrightarrow> locally_permits p s t tclass k"
proof -
  obtain sattr tattr cl avd1 where *: "arr (type_attr_map p) (unat (type s - 1)) = Some sattr"
    "arr (type_attr_map p) (unat (type t - 1)) = Some tattr"
    "ptr_arr (class_val_to_struct p) (unat tclass - 1) = Some cl"
    "apply_constraints p s t (constraints cl) (te_decision p tclass sattr tattr) = Inr avd1"
    "avd = apply_role_allow p s t tclass avd1"
    by (rule unbounded_av_cases[OF u])
  have a: "wf_ebitmap sattr" "wf_ebitmap tattr"
    using wf *(1,2) by (auto simp: wf_te_def dest: arr_in_set)
  show ?thesis
    unfolding *(5) apply_role_allow_allowed apply_constraints_allowed[OF *(4)]
      te_decision_allowed[OF wf a] locally_permits_def
    using *(1-3) by simp
qed

text \<open>With bounds: the bounding pair must be permitted as well.\<close>

inductive permits :: "policydb \<Rightarrow> context_struct \<Rightarrow> context_struct \<Rightarrow> u16 \<Rightarrow> nat \<Rightarrow> bool" where
  free: "locally_permits p s t tclass k \<Longrightarrow> bounding_pair p s t = Inr None \<Longrightarrow> permits p s t tclass k"
| bounded: "locally_permits p s t tclass k \<Longrightarrow> bounding_pair p s t = Inr (Some (s', t')) \<Longrightarrow>
    permits p s' t' tclass k \<Longrightarrow> permits p s t tclass k"

inductive_simps permits_unfold: "permits p s t tclass k"

lemma mask_bounds_allowed:
  "mask_bounds lo (avd, reason) = (avd', reason') \<Longrightarrow>
     bit (allowed avd') k \<longleftrightarrow> bit (allowed avd) k \<and> bit lo k"
proof -
  assume m: "mask_bounds lo (avd, reason) = (avd', reason')"
  show ?thesis
  proof (cases "NOT lo AND allowed avd = 0")
    case True
    then have "\<not> (bit (NOT lo) k \<and> bit (allowed avd) k)" using and_nonzero_if_bit by blast
    then have "bit (allowed avd) k \<Longrightarrow> bit lo k" by (auto simp: bit_not_u32 dest: bit_u32_less)
    then show ?thesis using m True by (auto simp: mask_bounds_def Let_def)
  next
    case False
    then have "allowed avd' = allowed avd AND NOT (NOT lo AND allowed avd)"
      using m by (auto simp: mask_bounds_def Let_def)
    then have "bit (allowed avd') k = (bit (allowed avd) k \<and> bit (NOT (NOT lo AND allowed avd)) k)"
      by (simp only: bit_and_iff)
    then show ?thesis unfolding bit_not_u32 bit_and_iff by (auto dest: bit_u32_less)
  qed
qed

definition class_ok :: "policydb \<Rightarrow> u16 \<Rightarrow> bool" where
  "class_ok p tclass \<longleftrightarrow> tclass \<noteq> 0 \<and> ucast tclass \<le> nprim (p_classes p)"

lemma apply_constraints_error: "apply_constraints p s t cs avd = Inl err \<Longrightarrow> err = UNDEF"
  by (induction p s t cs avd rule: apply_constraints.induct)
     (auto simp: rbind_eq_Inl constraint_granted_def split: if_splits sum.splits errcode.splits)

lemma unbounded_av_error:
  "class_ok p tclass \<Longrightarrow> unbounded_av p s t tclass r = Inl err \<Longrightarrow> err = UNDEF"
  by (auto simp: unbounded_av_def class_ok_def Let_def rbind_eq_Inl dest: apply_constraints_error
      split: if_splits option.splits)

lemma bounding_pair_error: "bounding_pair p s t = Inl err \<Longrightarrow> err = UNDEF"
  by (auto simp: bounding_pair_def split: option.splits if_splits)

lemma compute_av_bad_class:
  "\<not> class_ok p tclass \<Longrightarrow> context_struct_compute_av (Suc fuel) p s t tclass requested = Some (Inl EINVAL)"
  by (auto simp: unbounded_av_def class_ok_def)

text \<open>The ways a call can end.\<close>

lemma compute_av_cases:
  assumes "context_struct_compute_av (Suc fuel) p s t tclass requested = Some r" "class_ok p tclass"
  obtains "r = Inl UNDEF"
  | avd req reason where "unbounded_av p s t tclass requested = Inr (avd, req, reason)"
    "bounding_pair p s t = Inr None" "r = Inr (avd, reason)"
  | avd req reason s' t' lo lr where "unbounded_av p s t tclass requested = Inr (avd, req, reason)"
    "bounding_pair p s t = Inr (Some (s', t'))"
    "context_struct_compute_av fuel p s' t' tclass req = Some (Inr (lo, lr))"
    "r = Inr (mask_bounds (allowed lo) (avd, reason))"
  | err avd req reason s' t' where "unbounded_av p s t tclass requested = Inr (avd, req, reason)"
    "bounding_pair p s t = Inr (Some (s', t'))" "err \<noteq> UNDEF"
    "context_struct_compute_av fuel p s' t' tclass req = Some (Inl err)"
    "r = Inr (mask_bounds 0 (avd, reason))"
proof -
  show ?thesis
  proof (cases "unbounded_av p s t tclass requested")
    case (Inl err)
    then show ?thesis using that(1) assms unbounded_av_error[OF assms(2) Inl] by simp
  next
    case (Inr x)
    then obtain avd req reason where x: "unbounded_av p s t tclass requested = Inr (avd, req, reason)"
      by (cases x) auto
    show ?thesis
    proof (cases "bounding_pair p s t")
      case (Inl err)
      then show ?thesis using that(1) assms(1) bounding_pair_error[OF Inl] by (simp add: x)
    next
      case bp: (Inr ob)
      show ?thesis
      proof (cases ob)
        case None
        then show ?thesis using that(2)[OF x] assms(1) bp by (simp add: x)
      next
        case (Some st)
        obtain s' t' where st: "st = (s', t')" by (cases st)
        obtain y where y: "context_struct_compute_av fuel p s' t' tclass req = Some y"
          using assms(1) by (cases "context_struct_compute_av fuel p s' t' tclass req") (auto simp: x bp Some st)
        show ?thesis
        proof (cases y)
          case (Inl err)
          show ?thesis
          proof (cases "err = UNDEF")
            case True
            then show ?thesis using that(1) assms(1) by (simp add: x bp Some st y Inl)
          next
            case False
            then show ?thesis using that(4)[OF x _ False] assms(1)
              by (cases err) (simp_all add: x bp Some st y Inl)
          qed
        next
          case (Inr z)
          then show ?thesis using that(3)[OF x, of s' t' "fst z" "snd z"] assms(1)
            by (cases z) (simp add: x bp Some st y)
        qed
      qed
    qed
  qed
qed

lemma compute_av_error:
  "class_ok p tclass \<Longrightarrow> context_struct_compute_av fuel p s t tclass requested = Some (Inl err) \<Longrightarrow>
     err = UNDEF"
proof (cases fuel)
  case (Suc f)
  assume ok: "class_ok p tclass" and c: "context_struct_compute_av fuel p s t tclass requested = Some (Inl err)"
  show ?thesis by (rule compute_av_cases[OF c[unfolded Suc] ok]) simp_all
qed simp

text \<open>The decision is the specification.\<close>

lemma compute_av_permits:
  assumes wf: "wf_te p"
  shows "context_struct_compute_av fuel p s t tclass requested = Some (Inr (avd, reason)) \<Longrightarrow>
    bit (allowed avd) k \<longleftrightarrow> permits p s t tclass k"
proof (induction fuel arbitrary: s t requested avd reason)
  case (Suc fuel)
  have ok: "class_ok p tclass"
    using Suc.prems compute_av_bad_class[of p tclass fuel s t requested] by (cases "class_ok p tclass") simp_all
  show ?case
  proof (rule compute_av_cases[OF Suc.prems ok], goal_cases)
    case (2 a req r)
    then show ?case using unbounded_av_allowed[OF wf 2(1), of k] by (simp add: permits_unfold[of p s t tclass k])
  next
    case (3 a req r s' t' lo lr)
    have e: "mask_bounds (allowed lo) (a, r) = (avd, reason)" using 3(4) by simp
    show ?case
      using unbounded_av_allowed[OF wf 3(1), of k] Suc.IH[OF 3(3)] mask_bounds_allowed[OF e, of k] 3(2)
      by (simp add: permits_unfold[of p s t tclass k])
  next
    case (4 err a req r s' t')
    then show ?case using compute_av_error[OF ok 4(4)] by simp
  qed simp
qed simp

text \<open>Without a reason bit every requested permission is granted.\<close>

lemma note_missing_cases:
  assumes "note_missing b avd (req, r) = (req', r')"
  shows "r' = r \<and> req' = req \<and> req AND NOT (allowed avd) = 0 \<or> r' = r OR b"
  using assms by (auto simp: note_missing_def split: if_splits)

lemma or_eq_0_iff: "a OR b = (0 :: u32) \<longleftrightarrow> a = 0 \<and> b = 0"
  by (auto intro: bit_eqI simp: bit_eq_iff bit_or_iff)

lemma unbounded_av_reason:
  assumes u: "unbounded_av p s t tclass requested = Inr (avd, req, 0)"
  shows "requested AND NOT (allowed avd) = 0"
proof -
  obtain sattr tattr avd1 where nm: "(req, 0) = note_missing COMPUTEAV_RBAC avd (note_missing COMPUTEAV_CONS avd1
       (note_missing COMPUTEAV_TE (te_decision p tclass sattr tattr) (requested, 0)))"
    by (rule unbounded_av_cases[OF u])
  obtain q1 r1 where n1: "note_missing COMPUTEAV_TE (te_decision p tclass sattr tattr) (requested, 0) = (q1, r1)"
    by fastforce
  obtain q2 r2 where n2: "note_missing COMPUTEAV_CONS avd1 (q1, r1) = (q2, r2)" by fastforce
  have n3: "note_missing COMPUTEAV_RBAC avd (q2, r2) = (req, 0)" using nm n1 n2 by simp
  from note_missing_cases[OF n3] have r3: "r2 = 0" "req = q2" "q2 AND NOT (allowed avd) = 0"
    by (auto simp: or_eq_0_iff)
  from note_missing_cases[OF n2] r3(1) have r2: "r1 = 0" "q2 = q1" by (auto simp: or_eq_0_iff)
  from note_missing_cases[OF n1] r2(1) have "q1 = requested" by (auto simp: or_eq_0_iff)
  then show ?thesis using r3 r2 by simp
qed

lemma compute_av_reason:
  assumes c: "context_struct_compute_av fuel p s t tclass requested = Some (Inr (avd, 0))"
  shows "requested AND NOT (allowed avd) = 0"
proof (cases fuel)
  case (Suc f)
  have ok: "class_ok p tclass"
    using c compute_av_bad_class[of p tclass f s t requested] by (cases "class_ok p tclass") (simp_all add: Suc)
  have mb: "mask_bounds lo (a, r) = (avd, 0) \<Longrightarrow> r = 0 \<and> a = avd" for lo a r
    by (auto simp: mask_bounds_def Let_def or_eq_0_iff split: if_splits)
  show ?thesis
    by (rule compute_av_cases[OF c[unfolded Suc] ok]) (auto dest!: mb[OF sym] intro: unbounded_av_reason)
qed (use c in simp)

section \<open>The reasons of a refusal\<close>

text \<open>The three parts of \<open>locally_permits\<close>.\<close>

definition te_permits :: "policydb \<Rightarrow> context_struct \<Rightarrow> context_struct \<Rightarrow> u16 \<Rightarrow> nat \<Rightarrow> bool" where
  "te_permits p s t tclass k \<longleftrightarrow>
     (\<exists>sattr tattr. arr (type_attr_map p) (unat (type s - 1)) = Some sattr \<and>
        arr (type_attr_map p) (unat (type t - 1)) = Some tattr \<and>
        (\<exists>i \<in> ebits sattr. \<exists>j \<in> ebits tattr. rule_allows p tclass i j k))"

definition constraints_permit :: "policydb \<Rightarrow> context_struct \<Rightarrow> context_struct \<Rightarrow> u16 \<Rightarrow> nat \<Rightarrow> bool" where
  "constraints_permit p s t tclass k \<longleftrightarrow>
     (\<exists>cl. ptr_arr (class_val_to_struct p) (unat tclass - 1) = Some cl \<and>
        (\<forall>c \<in> set (constraints cl). bit (permissions c) k \<longrightarrow> constraint_granted p s t None c = Inr True))"

definition roles_permit :: "policydb \<Rightarrow> context_struct \<Rightarrow> context_struct \<Rightarrow> u16 \<Rightarrow> nat \<Rightarrow> bool" where
  "roles_permit p s t tclass k \<longleftrightarrow>
     (tclass = process_class p \<and> bit (process_trans_dyntrans p) k \<and> role s \<noteq> role t \<longrightarrow>
        role_allowed p (role s) (role t))"

lemma locally_permits_parts:
  "locally_permits p s t tclass k \<longleftrightarrow>
     te_permits p s t tclass k \<and> constraints_permit p s t tclass k \<and> roles_permit p s t tclass k"
  unfolding locally_permits_def te_permits_def constraints_permit_def roles_permit_def by blast

lemma some_missing: "requested AND NOT a \<noteq> 0 \<longleftrightarrow> (\<exists>k. bit requested k \<and> \<not> bit (a :: u32) k)"
  by (auto simp: bit_eq_iff bit_and_iff bit_not_u32 dest: bit_u32_less)

lemma note_missing_eq:
  "note_missing b avd (requested, reason) =
     (requested AND allowed avd,
      if \<exists>k. bit requested k \<and> \<not> bit (allowed avd) k then reason OR b else reason)"
proof (cases "requested AND NOT (allowed avd) = 0")
  case True
  then have no: "\<not> (\<exists>k. bit requested k \<and> \<not> bit (allowed avd) k)" using some_missing by blast
  then have "requested AND allowed avd = requested" by (auto simp: bit_eq_iff bit_and_iff)
  then show ?thesis unfolding if_not_P[OF no] using True by (simp add: note_missing_def)
next
  case False
  then have some: "\<exists>k. bit requested k \<and> \<not> bit (allowed avd) k" using some_missing by blast
  then show ?thesis unfolding if_P[OF some] using False by (simp add: note_missing_def)
qed

text \<open>The bits before the bounds: each stage blames itself for what the stages before it granted.\<close>

lemma unbounded_av_reasons:
  assumes wf: "wf_te p" and u: "unbounded_av p s t tclass requested = Inr (avd, req, reason)"
  shows "reason =
    (if \<exists>k. bit requested k \<and> \<not> te_permits p s t tclass k then 1 else 0) OR
    (if \<exists>k. bit requested k \<and> te_permits p s t tclass k \<and> \<not> constraints_permit p s t tclass k then 2 else 0) OR
    (if \<exists>k. bit requested k \<and> te_permits p s t tclass k \<and> constraints_permit p s t tclass k \<and>
          \<not> roles_permit p s t tclass k then 4 else 0)"
proof -
  obtain sattr tattr cl avd1 where *: "arr (type_attr_map p) (unat (type s - 1)) = Some sattr"
    "arr (type_attr_map p) (unat (type t - 1)) = Some tattr"
    "ptr_arr (class_val_to_struct p) (unat tclass - 1) = Some cl"
    "apply_constraints p s t (constraints cl) (te_decision p tclass sattr tattr) = Inr avd1"
    "avd = apply_role_allow p s t tclass avd1"
    "(req, reason) = note_missing COMPUTEAV_RBAC avd (note_missing COMPUTEAV_CONS avd1
       (note_missing COMPUTEAV_TE (te_decision p tclass sattr tattr) (requested, 0)))"
    by (rule unbounded_av_cases[OF u])
  have a: "wf_ebitmap sattr" "wf_ebitmap tattr"
    using wf *(1,2) by (auto simp: wf_te_def dest: arr_in_set)
  have te: "bit (allowed (te_decision p tclass sattr tattr)) k \<longleftrightarrow> te_permits p s t tclass k" for k
    unfolding te_decision_allowed[OF wf a] te_permits_def using *(1,2) by simp
  have co: "bit (allowed avd1) k \<longleftrightarrow> te_permits p s t tclass k \<and> constraints_permit p s t tclass k" for k
    unfolding apply_constraints_allowed[OF *(4)] te constraints_permit_def using *(3) by simp
  have ro: "bit (allowed avd) k \<longleftrightarrow>
      te_permits p s t tclass k \<and> constraints_permit p s t tclass k \<and> roles_permit p s t tclass k" for k
    unfolding *(5) apply_role_allow_allowed co roles_permit_def by blast
  have "reason = snd (note_missing COMPUTEAV_RBAC avd (note_missing COMPUTEAV_CONS avd1
       (note_missing COMPUTEAV_TE (te_decision p tclass sattr tattr) (requested, 0))))"
    using *(6) by (metis snd_conv)
  then show ?thesis
    unfolding note_missing_eq snd_conv bit_and_iff te co ro
    by (auto simp: or.assoc)
qed

text \<open>The bounds add their bit when they take away something that the rules grant.\<close>

lemma mask_bounds_reason:
  "snd (mask_bounds lo (avd, reason)) =
     (if \<exists>k. bit (allowed avd) k \<and> \<not> bit lo k then reason OR 8 else reason)"
  unfolding some_missing[symmetric] by (simp add: mask_bounds_def Let_def and.commute)

lemma compute_av_reasons:
  assumes wf: "wf_te p"
    and c: "context_struct_compute_av fuel p s t tclass requested = Some (Inr (avd, reason))"
  shows "reason =
    (if \<exists>k. bit requested k \<and> \<not> te_permits p s t tclass k then 1 else 0) OR
    (if \<exists>k. bit requested k \<and> te_permits p s t tclass k \<and> \<not> constraints_permit p s t tclass k then 2 else 0) OR
    (if \<exists>k. bit requested k \<and> te_permits p s t tclass k \<and> constraints_permit p s t tclass k \<and>
          \<not> roles_permit p s t tclass k then 4 else 0) OR
    (if \<exists>k. locally_permits p s t tclass k \<and> \<not> permits p s t tclass k then 8 else 0)"
proof (cases fuel)
  case (Suc f)
  have ok: "class_ok p tclass"
    using c compute_av_bad_class[of p tclass f s t requested] by (cases "class_ok p tclass") (simp_all add: Suc)
  show ?thesis
  proof (rule compute_av_cases[OF c[unfolded Suc] ok], goal_cases)
    case (2 a req r)
    have no: "\<not> (\<exists>k. locally_permits p s t tclass k \<and> \<not> permits p s t tclass k)"
      using 2(2) by (simp add: permits_unfold[of p s t tclass])
    have "reason = r" using 2(3) by simp
    then show ?case unfolding if_not_P[OF no] or.right_neutral
      by (simp only: unbounded_av_reasons[OF wf 2(1)])
  next
    case (3 a req r s' t' lo lr)
    have m: "reason = snd (mask_bounds (allowed lo) (a, r))" using 3(4) by (metis snd_conv sum.inject(2))
    have "bit (allowed a) k \<and> \<not> bit (allowed lo) k \<longleftrightarrow>
        locally_permits p s t tclass k \<and> \<not> permits p s t tclass k" for k
      using unbounded_av_allowed[OF wf 3(1), of k] compute_av_permits[OF wf 3(3), of k] 3(2)
      by (auto simp: permits_unfold[of p s t tclass k])
    then have "reason = (if \<exists>k. locally_permits p s t tclass k \<and> \<not> permits p s t tclass k then r OR 8 else r)"
      using m unfolding mask_bounds_reason by (simp only:)
    then have "reason = r OR (if \<exists>k. locally_permits p s t tclass k \<and> \<not> permits p s t tclass k then 8 else 0)"
      by (simp only: if_distrib[of "(OR) r"] or.right_neutral)
    then show ?case by (simp only: unbounded_av_reasons[OF wf 3(1)] or.assoc)
  next
    case (4 err a req r s' t')
    then show ?case using compute_av_error[OF ok 4(4)] by simp
  qed simp
qed (use c in simp)

end
