(* ===== verification/Services.thy ===== *)
theory Services
  imports Access
begin

text \<open>
  The security server of \<^verbatim>\<open>src/services.c\<close>: access decisions, conversions and labelling over
  SIDs. Its state is the active policy and the SID table (\<^verbatim>\<open>mypolicydb\<close>, \<^verbatim>\<open>mysidtab\<close>).

  An operation that changes the state even when it fails returns the state beside its result.
  The budget \<open>mem\<close> that is left is part of a successful result only. \<open>Inl UNDEF\<close> marks a null
  pointer that C dereferences; log messages are not modelled.
\<close>

record server =
  pdb :: policydb
  stab :: sidtab

text \<open>\<^verbatim>\<open>static int selinux_enforcing = 1\<close>, which nothing assigns.\<close>

definition selinux_enforcing :: bool where
  "selinux_enforcing = True"

definition find_sid :: "server \<Rightarrow> u32 \<Rightarrow> errcode + context_struct" where
  "find_sid sv i = (case sepol_sidtab_search (stab sv) i of None \<Rightarrow> Inl EINVAL | Some c \<Rightarrow> Inr c)"

section \<open>Access decisions\<close>

fun validate_loop ::
  "policydb \<Rightarrow> context_struct \<Rightarrow> context_struct \<Rightarrow> context_struct \<Rightarrow> constraint_node list
     \<Rightarrow> errcode + unit" where
  "validate_loop p oc nc tc [] = Inr ()"
| "validate_loop p oc nc tc (c # cs) =
     rbind (constraint_granted p oc nc (Some tc) c) (\<lambda>g.
       if \<not> g then Inl EPERM else validate_loop p oc nc tc cs)"

definition sepol_validate_transition ::
  "server \<Rightarrow> u32 \<Rightarrow> u32 \<Rightarrow> u32 \<Rightarrow> u16 \<Rightarrow> errcode + unit" where
  "sepol_validate_transition sv oldsid newsid tasksid tclass =
     (if tclass = 0 \<or> ucast tclass > nprim (p_classes (pdb sv)) then Inl EINVAL
      else rbind (find_sid sv oldsid) (\<lambda>oc. rbind (find_sid sv newsid) (\<lambda>nc.
        rbind (find_sid sv tasksid) (\<lambda>tc.
          case ptr_arr (class_val_to_struct (pdb sv)) (unat tclass - 1) of
            None \<Rightarrow> Inl UNDEF
          | Some cl \<Rightarrow> validate_loop (pdb sv) oc nc tc (validatetrans cl)))))"

definition sepol_compute_av_reason ::
  "nat \<Rightarrow> server \<Rightarrow> u32 \<Rightarrow> u32 \<Rightarrow> u16 \<Rightarrow> u32 \<Rightarrow> (errcode + av_decision \<times> u32) option" where
  "sepol_compute_av_reason fuel sv ssid tsid tclass requested =
     (case find_sid sv ssid of
        Inl err \<Rightarrow> Some (Inl err)
      | Inr s \<Rightarrow>
          (case find_sid sv tsid of
             Inl err \<Rightarrow> Some (Inl err)
           | Inr t \<Rightarrow> context_struct_compute_av fuel (pdb sv) s t tclass requested))"

definition sepol_compute_av ::
  "nat \<Rightarrow> server \<Rightarrow> u32 \<Rightarrow> u32 \<Rightarrow> u16 \<Rightarrow> u32 \<Rightarrow> (errcode + av_decision) option" where
  "sepol_compute_av fuel sv ssid tsid tclass requested =
     map_option (map_sum (\<lambda>err. err) fst) (sepol_compute_av_reason fuel sv ssid tsid tclass requested)"

section \<open>Names and contexts\<close>

definition sepol_string_to_security_class :: "server \<Rightarrow> string \<Rightarrow> errcode + u16" where
  "sepol_string_to_security_class sv nam =
     (case sym_search (table (p_classes (pdb sv))) nam of
        None \<Rightarrow> Inl EFAIL
      | Some cl \<Rightarrow> Inr (ucast (class_value cl)))"

text \<open>\<^verbatim>\<open>UINT32_C(1) << (value - 1)\<close>; a shift by 32 or more is undefined.\<close>

definition perm_bit :: "perm_datum \<Rightarrow> errcode + u32" where
  "perm_bit d =
     (let k = perm_value d - 1 in if k \<ge> 32 then Inl UNDEF else Inr (push_bit (unat k) 1))"

definition sepol_string_to_av_perm :: "server \<Rightarrow> u16 \<Rightarrow> string \<Rightarrow> errcode + u32" where
  "sepol_string_to_av_perm sv tclass nam =
     (if tclass = 0 \<or> ucast tclass > nprim (p_classes (pdb sv)) then Inl EINVAL
      else case ptr_arr (class_val_to_struct (pdb sv)) (unat tclass - 1) of
        None \<Rightarrow> Inl UNDEF
      | Some cl \<Rightarrow>
          (case sym_search (table (class_permissions cl)) nam of
             Some d \<Rightarrow> perm_bit d
           | None \<Rightarrow>
               (case comdatum cl of
                  None \<Rightarrow> Inl EFAIL
                | Some cd \<Rightarrow>
                    (case sym_search (table (common_permissions cd)) nam of
                       Some d \<Rightarrow> perm_bit d
                     | None \<Rightarrow> Inl EFAIL))))"

definition sepol_sid_to_context :: "mem \<Rightarrow> server \<Rightarrow> u32 \<Rightarrow> errcode + string \<times> int \<times> mem" where
  "sepol_sid_to_context m sv i = rbind (find_sid sv i) (\<lambda>c. context_to_string m (pdb sv) c)"

text \<open>\<open>want\<close> is \<^verbatim>\<open>sid != NULL\<close>; without it the context is only checked.\<close>

definition sepol_context_to_sid ::
  "mem \<Rightarrow> server \<Rightarrow> string \<Rightarrow> u64 \<Rightarrow> bool \<Rightarrow> errcode + u32 option \<times> server \<times> mem" where
  "sepol_context_to_sid m sv buf len want =
     (case context_from_string m (pdb sv) buf len of
        Inl UNDEF \<Rightarrow> Inl UNDEF
      | Inl _ \<Rightarrow> Inl EFAIL
      | Inr (c, m1) \<Rightarrow>
          if \<not> want then Inr (None, sv, m1)
          else (case sepol_sidtab_context_to_sid m1 (stab sv) c of
                  Inl UNDEF \<Rightarrow> Inl UNDEF
                | Inl _ \<Rightarrow> Inl EFAIL
                | Inr (i, st, m2) \<Rightarrow> Inr (Some i, sv\<lparr>stab := st\<rparr>, m2)))"

text \<open>\<^verbatim>\<open>sepol_check_context\<close> of \<^verbatim>\<open>src/context.c\<close>: the length counts the terminating NUL.\<close>

definition sepol_check_context :: "mem \<Rightarrow> server \<Rightarrow> string \<Rightarrow> errcode + mem" where
  "sepol_check_context m sv s =
     rbind (sepol_context_to_sid m sv (s @ [NUL]) (of_nat (length s + 1)) False) (\<lambda>(_, _, m'). Inr m')"

section \<open>New contexts\<close>

definition new_user :: "class_datum option \<Rightarrow> context_struct \<Rightarrow> context_struct \<Rightarrow> u32 \<Rightarrow> u32" where
  "new_user cl s t spec =
     (if spec = AVTAB_TRANSITION \<or> spec = AVTAB_CHANGE then
        (case cl of
           Some d \<Rightarrow> if default_user d = DEFAULT_TARGET then user t else user s
         | None \<Rightarrow> user s)
      else if spec = AVTAB_MEMBER then user t
      else 0)"

definition default_by :: "u8 \<Rightarrow> u32 \<Rightarrow> u32 \<Rightarrow> u32 \<Rightarrow> u32" where
  "default_by d s t other =
     (if d = DEFAULT_SOURCE then s else if d = DEFAULT_TARGET then t else other)"

definition new_role_default ::
  "policydb \<Rightarrow> class_datum option \<Rightarrow> context_struct \<Rightarrow> context_struct \<Rightarrow> u16 \<Rightarrow> u32" where
  "new_role_default p cl s t tclass =
     default_by (case cl of None \<Rightarrow> 0 | Some d \<Rightarrow> default_role d) (role s) (role t)
       (if tclass = process_class p then role s else OBJECT_R_VAL)"

definition new_type_default ::
  "policydb \<Rightarrow> class_datum option \<Rightarrow> context_struct \<Rightarrow> context_struct \<Rightarrow> u16 \<Rightarrow> u32" where
  "new_type_default p cl s t tclass =
     default_by (case cl of None \<Rightarrow> 0 | Some d \<Rightarrow> default_type d) (type s) (type t)
       (if tclass = process_class p then type s else type t)"

text \<open>The type rule: a permanent one, else the first conditional one that is enabled.\<close>

definition type_rule ::
  "policydb \<Rightarrow> context_struct \<Rightarrow> context_struct \<Rightarrow> u16 \<Rightarrow> u32 \<Rightarrow> u32 option" where
  "type_rule p s t tclass spec =
     (let k = \<lparr>source_type = ucast (type s), target_type = ucast (type t), target_class = tclass,
               specified = ucast spec\<rparr>
      in case avtab_search (te_avtab p) k of
           Some d \<Rightarrow> Some (data d)
         | None \<Rightarrow>
             map_option (\<lambda>n. data (datum n))
               (find (\<lambda>n. specified (key n) AND AVTAB_ENABLED \<noteq> 0)
                  (avtab_visit (te_cond_avtab p) k)))"

definition role_transition :: "policydb \<Rightarrow> context_struct \<Rightarrow> context_struct \<Rightarrow> u16 \<Rightarrow> u32 option" where
  "role_transition p s t tclass =
     map_option new_role
       (find (\<lambda>rt. rt_role rt = role s \<and> rt_type rt = type t \<and> rt_tclass rt = ucast tclass) (role_tr p))"

definition new_context ::
  "mem \<Rightarrow> policydb \<Rightarrow> context_struct \<Rightarrow> context_struct \<Rightarrow> u16 \<Rightarrow> u32 \<Rightarrow> errcode + context_struct \<times> mem" where
  "new_context m p s t tclass spec =
     (let cl = class_of p tclass;
          newrole =
            (if spec AND AVTAB_TRANSITION \<noteq> 0
             then case role_transition p s t tclass of
                    Some r \<Rightarrow> r
                  | None \<Rightarrow> new_role_default p cl s t tclass
             else new_role_default p cl s t tclass);
          newtype =
            (case type_rule p s t tclass spec of
               Some d \<Rightarrow> d
             | None \<Rightarrow> new_type_default p cl s t tclass)
      in rbind (mls_compute_sid m p s t tclass spec
                  (context_init\<lparr>user := new_user cl s t spec, role := newrole, type := newtype\<rparr>))
           (\<lambda>(c, m').
             if \<not> context_is_valid p c \<and> selinux_enforcing then Inl EACCES else Inr (c, m')))"

definition sepol_compute_sid ::
  "mem \<Rightarrow> server \<Rightarrow> u32 \<Rightarrow> u32 \<Rightarrow> u16 \<Rightarrow> u32 \<Rightarrow> errcode + u32 \<times> server \<times> mem" where
  "sepol_compute_sid m sv ssid tsid tclass spec =
     rbind (find_sid sv ssid) (\<lambda>s.
     rbind (find_sid sv tsid) (\<lambda>t.
     rbind (new_context m (pdb sv) s t tclass spec) (\<lambda>(c, m1).
     rbind (sepol_sidtab_context_to_sid m1 (stab sv) c) (\<lambda>(i, st, m2).
       Inr (i, sv\<lparr>stab := st\<rparr>, m2)))))"

definition sepol_transition_sid ::
  "mem \<Rightarrow> server \<Rightarrow> u32 \<Rightarrow> u32 \<Rightarrow> u16 \<Rightarrow> errcode + u32 \<times> server \<times> mem" where
  "sepol_transition_sid m sv ssid tsid tclass = sepol_compute_sid m sv ssid tsid tclass AVTAB_TRANSITION"

definition sepol_member_sid ::
  "mem \<Rightarrow> server \<Rightarrow> u32 \<Rightarrow> u32 \<Rightarrow> u16 \<Rightarrow> errcode + u32 \<times> server \<times> mem" where
  "sepol_member_sid m sv ssid tsid tclass = sepol_compute_sid m sv ssid tsid tclass AVTAB_MEMBER"

definition sepol_change_sid ::
  "mem \<Rightarrow> server \<Rightarrow> u32 \<Rightarrow> u32 \<Rightarrow> u16 \<Rightarrow> errcode + u32 \<times> server \<times> mem" where
  "sepol_change_sid m sv ssid tsid tclass = sepol_compute_sid m sv ssid tsid tclass AVTAB_CHANGE"

end
