(* ===== verification/Labels.thy ===== *)
theory Labels
  imports Services
begin

text \<open>
  Labelling of objects in \<^verbatim>\<open>src/services.c\<close>: file systems, ports, network interfaces and nodes,
  InfiniBand objects, \<^verbatim>\<open>genfs\<close> paths, and the contexts a user can reach. The first matching
  object context of a list is used; its SID is looked up once and cached in \<^verbatim>\<open>sid[0]\<close> and
  \<^verbatim>\<open>sid[1]\<close>, which changes the policy.

  The lists hold only entries with the union member that belongs to their kind, as the reader of
  the policy builds them, so the other constructors never match.
\<close>

abbreviation (input) "SECINITSID_FS \<equiv> 4"
abbreviation (input) "SECINITSID_FILE \<equiv> 5"
abbreviation (input) "SECINITSID_PORT \<equiv> 9"
abbreviation (input) "SECINITSID_NETIF \<equiv> 10"
abbreviation (input) "SECINITSID_NETMSG \<equiv> 11"
abbreviation (input) "SECINITSID_NODE \<equiv> 12"

section \<open>Cached SIDs\<close>

text \<open>The position of the first match, \<^verbatim>\<open>while (c) { if (...) break; c = c->next; }\<close>.\<close>

fun first_match :: "('a \<Rightarrow> bool) \<Rightarrow> 'a list \<Rightarrow> nat option" where
  "first_match P [] = None"
| "first_match P (x # xs) = (if P x then Some 0 else map_option Suc (first_match P xs))"

text \<open>
  \<^verbatim>\<open>sepol_sidtab_context_to_sid(sidtab, &c->context[k], &c->sid[k])\<close>; a failure stores the null
  SID.
\<close>

definition fill_sid0 ::
  "mem \<Rightarrow> sidtab \<Rightarrow> ocontext \<Rightarrow> (errcode + mem) \<times> sidtab \<times> ocontext" where
  "fill_sid0 m st c =
     (case sepol_sidtab_context_to_sid m st (context0 c) of
        Inl err \<Rightarrow> (Inl err, st, c\<lparr>sid0 := 0\<rparr>)
      | Inr (i, st', m') \<Rightarrow> (Inr m', st', c\<lparr>sid0 := i\<rparr>))"

definition fill_sid1 ::
  "mem \<Rightarrow> sidtab \<Rightarrow> ocontext \<Rightarrow> (errcode + mem) \<times> sidtab \<times> ocontext" where
  "fill_sid1 m st c =
     (case sepol_sidtab_context_to_sid m st (context1 c) of
        Inl err \<Rightarrow> (Inl err, st, c\<lparr>sid1 := 0\<rparr>)
      | Inr (i, st', m') \<Rightarrow> (Inr m', st', c\<lparr>sid1 := i\<rparr>))"

definition one_sid :: "mem \<Rightarrow> sidtab \<Rightarrow> ocontext \<Rightarrow> (errcode + u32 \<times> mem) \<times> sidtab \<times> ocontext" where
  "one_sid m st c =
     (if sid0 c = 0 then
        (case fill_sid0 m st c of
           (Inl err, st', c') \<Rightarrow> (Inl err, st', c')
         | (Inr m', st', c') \<Rightarrow> (Inr (sid0 c', m'), st', c'))
      else (Inr (sid0 c, m), st, c))"

definition two_sids ::
  "mem \<Rightarrow> sidtab \<Rightarrow> ocontext \<Rightarrow> (errcode + (u32 \<times> u32) \<times> mem) \<times> sidtab \<times> ocontext" where
  "two_sids m st c =
     (if sid0 c = 0 \<or> sid1 c = 0 then
        (case fill_sid0 m st c of
           (Inl err, st1, c1) \<Rightarrow> (Inl err, st1, c1)
         | (Inr m1, st1, c1) \<Rightarrow>
             (case fill_sid1 m1 st1 c1 of
                (Inl err, st2, c2) \<Rightarrow> (Inl err, st2, c2)
              | (Inr m2, st2, c2) \<Rightarrow> (Inr ((sid0 c2, sid1 c2), m2), st2, c2)))
      else (Inr ((sid0 c, sid1 c), m), st, c))"

text \<open>A lookup in a list of the policy; \<open>put\<close> stores the list with the changed entry.\<close>

definition ocon_lookup ::
  "(mem \<Rightarrow> sidtab \<Rightarrow> ocontext \<Rightarrow> (errcode + 'a \<times> mem) \<times> sidtab \<times> ocontext) \<Rightarrow> 'a \<Rightarrow>
   (ocontext \<Rightarrow> bool) \<Rightarrow> ocontext list \<Rightarrow> (ocontext list \<Rightarrow> policydb) \<Rightarrow> mem \<Rightarrow> server
     \<Rightarrow> (errcode + 'a \<times> mem) \<times> server" where
  "ocon_lookup get dflt P ocs put m sv =
     (case first_match P ocs of
        None \<Rightarrow> (Inr (dflt, m), sv)
      | Some k \<Rightarrow>
          (case get m (stab sv) (ocs ! k) of
             (r, st, c) \<Rightarrow> (r, sv\<lparr>pdb := put (ocs[k := c]), stab := st\<rparr>)))"

definition oname_is :: "string \<Rightarrow> ocontext \<Rightarrow> bool" where
  "oname_is nam c = (case ou c of OName n \<Rightarrow> strcmp n nam = 0 | _ \<Rightarrow> False)"

definition sepol_fs_sid ::
  "mem \<Rightarrow> server \<Rightarrow> string \<Rightarrow> (errcode + (u32 \<times> u32) \<times> mem) \<times> server" where
  "sepol_fs_sid m sv nam =
     ocon_lookup two_sids (SECINITSID_FS, SECINITSID_FILE) (oname_is nam)
       (ocon_fs (pdb sv)) (\<lambda>l. (pdb sv)\<lparr>ocon_fs := l\<rparr>) m sv"

definition sepol_ibpkey_sid ::
  "mem \<Rightarrow> server \<Rightarrow> u64 \<Rightarrow> u16 \<Rightarrow> (errcode + u32 \<times> mem) \<times> server" where
  "sepol_ibpkey_sid m sv subnet_prefix pkey =
     ocon_lookup one_sid SECINITSID_UNLABELED
       (\<lambda>c. case ou c of
          OIbpkey pre lo hi \<Rightarrow> lo \<le> pkey \<and> hi \<ge> pkey \<and> subnet_prefix = pre
        | _ \<Rightarrow> False)
       (ocon_ibpkey (pdb sv)) (\<lambda>l. (pdb sv)\<lparr>ocon_ibpkey := l\<rparr>) m sv"

definition sepol_ibendport_sid ::
  "mem \<Rightarrow> server \<Rightarrow> string \<Rightarrow> u8 \<Rightarrow> (errcode + u32 \<times> mem) \<times> server" where
  "sepol_ibendport_sid m sv dev_name prt =
     ocon_lookup one_sid SECINITSID_UNLABELED
       (\<lambda>c. case ou c of OIbendport dev q \<Rightarrow> q = prt \<and> strcmp dev_name dev = 0 | _ \<Rightarrow> False)
       (ocon_ibendport (pdb sv)) (\<lambda>l. (pdb sv)\<lparr>ocon_ibendport := l\<rparr>) m sv"

definition port_matches :: "u8 \<Rightarrow> u16 \<Rightarrow> ocontext \<Rightarrow> bool" where
  "port_matches protocol prt c =
     (case ou c of OPort pr lo hi \<Rightarrow> pr = protocol \<and> lo \<le> prt \<and> hi \<ge> prt | _ \<Rightarrow> False)"

definition sepol_port_sid ::
  "mem \<Rightarrow> server \<Rightarrow> u8 \<Rightarrow> u16 \<Rightarrow> (errcode + u32 \<times> mem) \<times> server" where
  "sepol_port_sid m sv protocol prt =
     ocon_lookup one_sid SECINITSID_PORT (port_matches protocol prt)
       (ocon_port (pdb sv)) (\<lambda>l. (pdb sv)\<lparr>ocon_port := l\<rparr>) m sv"

definition sepol_netif_sid ::
  "mem \<Rightarrow> server \<Rightarrow> string \<Rightarrow> (errcode + (u32 \<times> u32) \<times> mem) \<times> server" where
  "sepol_netif_sid m sv nam =
     ocon_lookup two_sids (SECINITSID_NETIF, SECINITSID_NETMSG)
       (\<lambda>c. case ou c of OName n \<Rightarrow> strcmp nam n = 0 | _ \<Rightarrow> False)
       (ocon_netif (pdb sv)) (\<lambda>l. (pdb sv)\<lparr>ocon_netif := l\<rparr>) m sv"

section \<open>Nodes\<close>

definition match_ipv6_addrmask :: "u32 list \<Rightarrow> u32 list \<Rightarrow> u32 list \<Rightarrow> bool" where
  "match_ipv6_addrmask ipt adr msk = (\<not> list_ex (\<lambda>i. adr ! i \<noteq> (ipt ! i AND msk ! i)) [0..<4])"

abbreviation (input) "AF_INET \<equiv> 2"
abbreviation (input) "AF_INET6 \<equiv> 10"

text \<open>\<open>adr\<close> is the memory behind \<^verbatim>\<open>addrp\<close> as 32-bit words.\<close>

definition sepol_node_sid ::
  "mem \<Rightarrow> server \<Rightarrow> u16 \<Rightarrow> u32 list \<Rightarrow> u64 \<Rightarrow> (errcode + u32 \<times> mem) \<times> server" where
  "sepol_node_sid m sv domain adr addrlen =
     (if domain = AF_INET then
        (if addrlen \<noteq> 4 then (Inl EINVAL, sv)
         else case arr adr 0 of
           None \<Rightarrow> (Inl UNDEF, sv)
         | Some a \<Rightarrow>
             ocon_lookup one_sid SECINITSID_NODE
               (\<lambda>c. case ou c of ONode ad msk \<Rightarrow> ad = (a AND msk) | _ \<Rightarrow> False)
               (ocon_node (pdb sv)) (\<lambda>l. (pdb sv)\<lparr>ocon_node := l\<rparr>) m sv)
      else if domain = AF_INET6 then
        (if addrlen \<noteq> 16 then (Inl EINVAL, sv)
         else if length adr < 4 then (Inl UNDEF, sv)
         else
           ocon_lookup one_sid SECINITSID_NODE
             (\<lambda>c. case ou c of ONode6 ad msk \<Rightarrow> match_ipv6_addrmask adr ad msk | _ \<Rightarrow> False)
             (ocon_node6 (pdb sv)) (\<lambda>l. (pdb sv)\<lparr>ocon_node6 := l\<rparr>) m sv)
      else (Inr (SECINITSID_NODE, m), sv))"

section \<open>Paths in file systems without labels\<close>

text \<open>The first entry of the sorted list that is not before \<open>fstype\<close>, if it is an equal one.\<close>

fun find_genfs :: "string \<Rightarrow> genfs list \<Rightarrow> nat option" where
  "find_genfs fs [] = None"
| "find_genfs fs (g # gs) =
     (let cmp = strcmp fs (fstype g)
      in if cmp \<le> 0 then (if cmp \<noteq> 0 then None else Some 0)
         else map_option Suc (find_genfs fs gs))"

text \<open>\<^verbatim>\<open>strncmp(c->u.name, path, len) == 0\<close> with \<^verbatim>\<open>len = strlen(c->u.name)\<close>.\<close>

definition genfs_matches :: "string \<Rightarrow> u16 \<Rightarrow> ocontext \<Rightarrow> bool" where
  "genfs_matches path sclass c =
     ((ov c = 0 \<or> ucast sclass = ov c) \<and>
      (case ou c of OName n \<Rightarrow> take (length n) path = n | _ \<Rightarrow> False))"

text \<open>
  The result carries the SID that \<^verbatim>\<open>*sid\<close> gets even when the return code is -ENOENT.
\<close>

definition sepol_genfs_sid ::
  "mem \<Rightarrow> server \<Rightarrow> string \<Rightarrow> string \<Rightarrow> u16 \<Rightarrow> (errcode + u32 \<times> mem) \<times> u32 option \<times> server" where
  "sepol_genfs_sid m sv fs path sclass =
     (case find_genfs fs (genfs_list (pdb sv)) of
        None \<Rightarrow> (Inl ENOENT, Some SECINITSID_UNLABELED, sv)
      | Some k \<Rightarrow>
          (let g = genfs_list (pdb sv) ! k in
           case first_match (genfs_matches path sclass) (gen_head g) of
             None \<Rightarrow> (Inl ENOENT, Some SECINITSID_UNLABELED, sv)
           | Some j \<Rightarrow>
               (case one_sid m (stab sv) (gen_head g ! j) of
                  (r, st, c) \<Rightarrow>
                    (r, (case r of Inl _ \<Rightarrow> None | Inr (i, _) \<Rightarrow> Some i),
                     sv\<lparr>pdb := (pdb sv)\<lparr>genfs_list :=
                          (genfs_list (pdb sv))[k := g\<lparr>gen_head := (gen_head g)[j := c]\<rparr>]\<rparr>,
                        stab := st\<rparr>))))"

abbreviation (input) "SECURITY_FS_USE_GENFS \<equiv> 4"
abbreviation (input) "SECURITY_FS_USE_NONE \<equiv> 5"

text \<open>
  The behaviour and the SID. A failed \<^verbatim>\<open>genfs\<close> lookup is not a failure; its SID is what
  \<^verbatim>\<open>sepol_genfs_sid\<close> left in \<^verbatim>\<open>*sid\<close>, and \<open>None\<close> when it left nothing there.
\<close>

definition sepol_fs_use ::
  "mem \<Rightarrow> server \<Rightarrow> string \<Rightarrow> (errcode + (u32 \<times> u32 option) \<times> mem) \<times> server" where
  "sepol_fs_use m sv fs =
     (case first_match (\<lambda>c. case ou c of OName n \<Rightarrow> strcmp fs n = 0 | _ \<Rightarrow> False) (ocon_fsuse (pdb sv)) of
        Some k \<Rightarrow>
          (let c = ocon_fsuse (pdb sv) ! k in
           case one_sid m (stab sv) c of
             (r, st, c') \<Rightarrow>
               ((case r of Inl err \<Rightarrow> Inl err | Inr (i, m') \<Rightarrow> Inr ((ov c, Some i), m')),
                sv\<lparr>pdb := (pdb sv)\<lparr>ocon_fsuse := (ocon_fsuse (pdb sv))[k := c']\<rparr>, stab := st\<rparr>))
      | None \<Rightarrow>
          (case sepol_genfs_sid m sv fs ''/'' (dir_class (pdb sv)) of
             (Inl UNDEF, _, sv') \<Rightarrow> (Inl UNDEF, sv')
           | (Inl _, o_sid, sv') \<Rightarrow> (Inr ((SECURITY_FS_USE_NONE, o_sid), m), sv')
           | (Inr (i, m'), _, sv') \<Rightarrow> (Inr ((SECURITY_FS_USE_GENFS, Some i), m'), sv')))"

end
