(* ===== verification/Reload.thy ===== *)
theory Reload
  imports Labels
begin

text \<open>
  Users' reachable contexts and the installation of a new policy, the last parts of
  \<^verbatim>\<open>src/services.c\<close>: \<^verbatim>\<open>sepol_get_user_sids\<close>, \<^verbatim>\<open>validate_class\<close>, \<^verbatim>\<open>convert_context\<close> and
  the part of \<^verbatim>\<open>sepol_load_policy\<close> after the image has been read (\<open>Load_Policy\<close> has the whole).
\<close>

section \<open>Reachable contexts\<close>

abbreviation (input) "SIDS_NEL \<equiv> 25"

text \<open>
  The rounds of the two nested loops: role number and type number of each pair of bits. A role
  without a datum is dereferenced.
\<close>

fun user_pairs :: "policydb \<Rightarrow> u32 list \<Rightarrow> (errcode + u32 \<times> u32) list" where
  "user_pairs p [] = []"
| "user_pairs p (i # is) =
     (case ptr_arr (role_val_to_struct p) (unat i) of
        None \<Rightarrow> [Inl UNDEF]
      | Some rd \<Rightarrow>
          map (\<lambda>j. Inr (i + 1, j + 1)) (ebitmap_positive_bits (ts_types (role_types rd))) @
          user_pairs p is)"

text \<open>
  The accumulated state is the return code, the SIDs found and the capacity of their array.
  \<open>junk\<close> is the range that the uninitialised \<^verbatim>\<open>usercon\<close> starts with; it is overwritten in every
  round of a policy with MLS. The result is \<open>None\<close> when an access decision needs more fuel.
\<close>

fun user_sids_loop ::
  "nat \<Rightarrow> policydb \<Rightarrow> context_struct \<Rightarrow> user_datum \<Rightarrow> mls_range \<Rightarrow> (errcode + u32 \<times> u32) list \<Rightarrow>
   errcode option \<Rightarrow> u32 list \<Rightarrow> nat \<Rightarrow> mem \<Rightarrow> sidtab
     \<Rightarrow> ((errcode + errcode option \<times> u32 list \<times> mem) \<times> sidtab) option" where
  "user_sids_loop fuel p fromcon usr junk [] rc sids maxnel m st = Some (Inr (rc, sids, m), st)"
| "user_sids_loop fuel p fromcon usr junk (Inl err # ps) rc sids maxnel m st = Some (Inl err, st)"
| "user_sids_loop fuel p fromcon usr junk (Inr (rl, ty) # ps) rc sids maxnel m st =
     (if ty = type fromcon then user_sids_loop fuel p fromcon usr junk ps rc sids maxnel m st
      else case mls_setup_user_range fromcon usr
                  \<lparr>user = user_value usr, role = rl, type = ty, range = junk\<rparr> (mls p) of
        Inl _ \<Rightarrow> user_sids_loop fuel p fromcon usr junk ps rc sids maxnel m st
      | Inr usercon \<Rightarrow>
          (case context_struct_compute_av fuel p fromcon usercon (process_class p) (process_trans p) of
             None \<Rightarrow> None
           | Some (Inl UNDEF) \<Rightarrow> Some (Inl UNDEF, st)
           | Some (Inl err) \<Rightarrow> user_sids_loop fuel p fromcon usr junk ps (Some err) sids maxnel m st
           | Some (Inr (avd, _)) \<Rightarrow>
               if allowed avd AND process_trans p = 0
               then user_sids_loop fuel p fromcon usr junk ps None sids maxnel m st
               else case sepol_sidtab_context_to_sid m st usercon of
                 Inl err \<Rightarrow> Some (Inl err, st)
               | Inr (i, st', m') \<Rightarrow>
                   if length sids < maxnel
                   then user_sids_loop fuel p fromcon usr junk ps None (sids @ [i]) maxnel m' st'
                   else (case malloc m' of
                           None \<Rightarrow> Some (Inl ENOMEM, st')
                         | Some m'' \<Rightarrow>
                             user_sids_loop fuel p fromcon usr junk ps None (sids @ [i])
                               (maxnel + SIDS_NEL) m'' st')))"

definition sepol_get_user_sids ::
  "nat \<Rightarrow> mem \<Rightarrow> mls_range \<Rightarrow> server \<Rightarrow> u32 \<Rightarrow> string
     \<Rightarrow> ((errcode + errcode option \<times> u32 list \<times> mem) \<times> server) option" where
  "sepol_get_user_sids fuel m junk sv fromsid username =
     (case find_sid sv fromsid of
        Inl err \<Rightarrow> Some (Inl err, sv)
      | Inr fromcon \<Rightarrow>
          (case sym_search (table (p_users (pdb sv))) username of
             None \<Rightarrow> Some (Inl EINVAL, sv)
           | Some usr \<Rightarrow>
               (case malloc m of
                  None \<Rightarrow> Some (Inl ENOMEM, sv)
                | Some m' \<Rightarrow>
                    map_option (\<lambda>(r, st). (r, sv\<lparr>stab := st\<rparr>))
                      (user_sids_loop fuel (pdb sv) fromcon usr junk
                         (user_pairs (pdb sv) (ebitmap_positive_bits (rs_roles (user_roles usr))))
                         None [] SIDS_NEL m' (stab sv)))))"

section \<open>Comparing the classes of two policies\<close>

definition validate_perm ::
  "(string, perm_datum) hashtab \<Rightarrow> string \<Rightarrow> perm_datum \<Rightarrow> unit \<Rightarrow> int \<times> unit" where
  "validate_perm h nam d u =
     (case sym_search h nam of
        None \<Rightarrow> (-1, u)
      | Some d2 \<Rightarrow> if perm_value d \<noteq> perm_value d2 then (-1, u) else (0, u))"

definition perms_kept :: "(string, perm_datum) hashtab \<Rightarrow> (string, perm_datum) hashtab \<Rightarrow> bool" where
  "perms_kept h h2 \<longleftrightarrow> fst (hashtab_map (validate_perm h2) h ()) = 0"

definition validate_class :: "policydb \<Rightarrow> string \<Rightarrow> class_datum \<Rightarrow> unit \<Rightarrow> int \<times> unit" where
  "validate_class newp nam d u =
     (case sym_search (table (p_classes newp)) nam of
        None \<Rightarrow> (-1, u)
      | Some d2 \<Rightarrow>
          if class_value d \<noteq> class_value d2 then (-1, u)
          else if (comdatum d \<noteq> None) \<noteq> (comdatum d2 \<noteq> None) then (-1, u)
          else if (case (comdatum d, comdatum d2) of
                     (Some c, Some c2) \<Rightarrow>
                       \<not> perms_kept (table (common_permissions c)) (table (common_permissions c2))
                   | _ \<Rightarrow> False) then (-1, u)
          else if \<not> perms_kept (table (class_permissions d)) (table (class_permissions d2)) then (-1, u)
          else (0, u))"

section \<open>Converting the SID table\<close>

definition clone_sid :: "(sidtab \<times> mem) sid_apply" where
  "clone_sid i c sm =
     (case sm of (s, m) \<Rightarrow>
        (case sepol_sidtab_insert m s i c of
           Inl err \<Rightarrow> (Some err, c, (s, m))
         | Inr (s', m') \<Rightarrow> (None, c, (s', m'))))"

definition convert_value ::
  "string option list \<Rightarrow> u32 \<Rightarrow> ('d \<Rightarrow> u32) \<Rightarrow> 'd symtab \<Rightarrow> errcode + u32" where
  "convert_value nms v get s =
     rbind (name_of nms (v - 1)) (\<lambda>nam.
       case sym_search (table s) nam of None \<Rightarrow> Inl EINVAL | Some d \<Rightarrow> Inr (get d))"

text \<open>The converted context; \<^verbatim>\<open>oldc\<close> is a copy that only the message uses.\<close>

definition converted ::
  "mem \<Rightarrow> policydb \<Rightarrow> policydb \<Rightarrow> context_struct \<Rightarrow> errcode + context_struct \<times> mem" where
  "converted m oldp newp c =
     (case context_cpy m c of
        Inl _ \<Rightarrow> Inl ENOMEM
      | Inr (oldc, m1) \<Rightarrow>
          rbind (convert_value (p_user_val_to_name oldp) (user c) user_value (p_users newp)) (\<lambda>u.
          rbind (convert_value (p_role_val_to_name oldp) (role c) role_value (p_roles newp)) (\<lambda>r.
          rbind (convert_value (p_type_val_to_name oldp) (type c) type_value (p_types newp)) (\<lambda>t.
          rbind (mls_convert_context m1 oldp newp (c\<lparr>user := u, role := r, type := t\<rparr>)) (\<lambda>(c', m2).
            if \<not> context_is_valid newp c' \<and> selinux_enforcing then Inl EINVAL
            else Inr (c', m2))))))"

text \<open>
  As a callback of \<^verbatim>\<open>sepol_sidtab_map_remove_on_error\<close>. An entry whose conversion fails is
  removed, so what is left of its context does not matter. Undefined behaviour cannot be a return
  code here, because the caller ignores them: the second part of the state records it. It is a name
  of the old policy that is a null pointer, or the message of the path \<^verbatim>\<open>bad\<close>: when
  \<^verbatim>\<open>context_to_string\<close> fails, the string that is printed and freed is an uninitialised pointer.
\<close>

definition convert_context :: "policydb \<Rightarrow> policydb \<Rightarrow> (mem \<times> bool) sid_apply" where
  "convert_context oldp newp i c st =
     (case st of (m, undef) \<Rightarrow>
        if undef then (Some UNDEF, c, st)
        else
          (case context_cpy m c of
             Inl _ \<Rightarrow> (Some ENOMEM, c, st)
           | Inr (oldc, m1) \<Rightarrow>
               (case converted m oldp newp c of
                  Inr (c', m') \<Rightarrow> (None, c', (m', False))
                | Inl UNDEF \<Rightarrow> (Some UNDEF, c, (m, True))
                | Inl err \<Rightarrow>
                    (case context_to_string m1 oldp oldc of
                       Inl _ \<Rightarrow> (Some UNDEF, c, (m, True))
                     | Inr _ \<Rightarrow> (Some err, c, (m, False))))))"

text \<open>
  \<^verbatim>\<open>newsidtab\<close> after a failed \<^verbatim>\<open>sepol_sidtab_init\<close>, whose return code is ignored: a null table;
  the other fields are uninitialised.
\<close>

definition sidtab_or_null :: "errcode + sidtab \<times> mem \<Rightarrow> sidtab \<times> mem" where
  "sidtab_or_null r =
     (case r of
        Inl _ \<Rightarrow> (\<lparr>sid_htable = None, sid_nel = 0, next_sid = 0, shutdown = False\<rparr>, 0)
      | Inr sm \<Rightarrow> sm)"

text \<open>
  What \<^verbatim>\<open>sepol_load_policy\<close> does with the policy \<open>newp\<close> that it has read: the classes are
  compared, the SID table is cloned and converted, and both are installed.
\<close>

definition install_policy :: "mem \<Rightarrow> policydb \<Rightarrow> server \<Rightarrow> errcode option \<times> server" where
  "install_policy m newp sv =
     (case sidtab_or_null (sepol_sidtab_init m) of (s0, m0) \<Rightarrow>
        if fst (hashtab_map (validate_class newp) (table (p_classes (pdb sv))) ()) \<noteq> 0
        then (Some EINVAL, sv)
        else
          (let old = sepol_sidtab_shutdown (stab sv) in
           case sepol_sidtab_map clone_sid old (s0, m0) of
             (Some _, old', _) \<Rightarrow> (Some ENOMEM, sv\<lparr>stab := old'\<rparr>)
           | (None, old', (s1, m1)) \<Rightarrow>
               (case sepol_sidtab_map_remove_on_error (convert_context (pdb sv) newp) s1 (m1, False) of
                  (s2, (_, undef)) \<Rightarrow>
                    if undef then (Some UNDEF, sv\<lparr>stab := old'\<rparr>)
                    else (None, sv\<lparr>pdb := newp, stab := sepol_sidtab_set old' s2\<rparr>))))"

end
