(* ===== verification/Mls_Props.thy ===== *)
theory Mls_Props
  imports Mls
begin

text \<open>
  Properties of the MLS operations: the length computed in advance is the length of the printed
  text, the range of a new context is valid, ranges set up for users lie within those of the
  user and of the calling context, and the conversion between policies renames the categories.
\<close>

section \<open>The computed length\<close>

lemma cats_len_string:
  "cats_len nms fin vs rng len =
     (case cats_string nms fin vs rng wrote of
        Inl err \<Rightarrow> Inl err
      | Inr s \<Rightarrow> Inr (len + of_nat (length s)))"
proof (induction nms fin vs rng len arbitrary: wrote rule: cats_len.induct)
  case (1 nms fin rng len)
  then show ?case by (cases "name_of nms (fin - 1)") (simp_all add: algebra_simps)
next
  case (2 nms fin n i vs rng len)
  show ?case
  proof (cases "ebitmap_node_get_bit n i")
    case True
    show ?thesis
    proof (cases "rng = 0")
      case rng: True
      show ?thesis
      proof (cases "name_of nms i")
        case (Inr s)
        have "cats_len nms fin ((n, i) # vs) rng len =
            cats_len nms fin vs (Suc rng) (len + (of_nat (length s) + 1))"
          using True rng Inr by simp
        also have "\<dots> = (case cats_string nms fin vs (Suc rng) True of Inl err \<Rightarrow> Inl err
            | Inr r \<Rightarrow> Inr (len + (of_nat (length s) + 1) + of_nat (length r)))"
          using "2.IH"(2)[OF True _ Inr, of True] rng by simp
        finally show ?thesis
          using True rng Inr by (cases "cats_string nms fin vs (Suc rng) True") (simp_all add: algebra_simps)
      qed (use True rng in simp)
    qed (use True "2.IH"(1)[OF True, of wrote] in simp)
  next
    case False
    show ?thesis
    proof (cases "1 < rng")
      case rng: True
      show ?thesis
      proof (cases "name_of nms (i - 1)")
        case (Inr s)
        have "cats_len nms fin ((n, i) # vs) rng len =
            cats_len nms fin vs 0 (len + (of_nat (length s) + 1))"
          using False rng Inr by simp
        also have "\<dots> = (case cats_string nms fin vs 0 wrote of Inl err \<Rightarrow> Inl err
            | Inr r \<Rightarrow> Inr (len + (of_nat (length s) + 1) + of_nat (length r)))"
          using "2.IH"(3)[OF False rng Inr, of wrote] by simp
        finally show ?thesis
          using False rng Inr by (cases "cats_string nms fin vs 0 wrote") (simp_all add: algebra_simps)
      qed (use False rng in simp)
    qed (use False "2.IH"(4)[OF False, of wrote] in simp)
  qed
qed

lemma level_string_Inr:
  "level_string p l = Inr s \<longleftrightarrow>
     (\<exists>nam cs. name_of (p_sens_val_to_name p) (sens l - 1) = Inr nam \<and>
        cats_string (p_cat_val_to_name p) (ebitmap_length (cat l)) (ebitmap_bits_visited (cat l)) 0 False
          = Inr cs \<and> s = nam @ cs)"
  by (auto simp: level_string_def rbind_eq_Inr)

lemma mls_compute_context_len_ok:
  assumes "mls_sid_to_context p c = Inr s"
  shows "mls_compute_context_len p c = Inr (of_nat (length s))"
proof (cases "mls p")
  case True
  let ?lo = "low (range c)" and ?hi = "high (range c)"
  from assms True obtain s0 where s0: "level_string p ?lo = Inr s0"
    and r: "if mls_level_eq ?lo ?hi then s = CHR '':'' # s0
      else \<exists>s1. level_string p ?hi = Inr s1 \<and> s = CHR '':'' # s0 @ CHR ''-'' # s1"
    by (auto simp: mls_sid_to_context_def rbind_eq_Inr split: if_splits)
  from s0 obtain n0 c0 where n0: "name_of (p_sens_val_to_name p) (sens ?lo - 1) = Inr n0"
    "cats_string (p_cat_val_to_name p) (ebitmap_length (cat ?lo)) (ebitmap_bits_visited (cat ?lo)) 0 False = Inr c0"
    "s0 = n0 @ c0"
    by (auto simp: level_string_Inr)
  note len0 = cats_len_string[of "p_cat_val_to_name p" _ _ 0 _ False]
  show ?thesis
  proof (cases "mls_level_eq ?lo ?hi")
    case eq: True
    then show ?thesis using True n0 r by (simp add: mls_compute_context_len_def Let_def len0 algebra_simps)
  next
    case False
    then obtain s1 where s1: "level_string p ?hi = Inr s1" "s = CHR '':'' # s0 @ CHR ''-'' # s1"
      using r by auto
    from s1(1) obtain n1 c1 where n1: "name_of (p_sens_val_to_name p) (sens ?hi - 1) = Inr n1"
      "cats_string (p_cat_val_to_name p) (ebitmap_length (cat ?hi)) (ebitmap_bits_visited (cat ?hi)) 0 False = Inr c1"
      "s1 = n1 @ c1"
      by (auto simp: level_string_Inr)
    show ?thesis
      using True False n0 n1 s1(2)
      by (simp add: mls_compute_context_len_def Let_def len0 algebra_simps)
  qed
next
  case False
  then show ?thesis using assms by (simp add: mls_sid_to_context_def mls_compute_context_len_def)
qed

lemma sint_of_nat_u32: "n < 2147483648 \<Longrightarrow> sint (of_nat n :: u32) = int n"
proof -
  assume n: "n < 2147483648"
  have "uint (of_nat n :: u32) = int n mod 2 ^ 32" by (simp add: uint_nat unat_of_nat zmod_int)
  then have "uint (of_nat n :: u32) = int n" using n by simp
  then show ?thesis using n sint_if_small[of "of_nat n"] by simp
qed

text \<open>The text always fits into the buffer of \<^verbatim>\<open>mls_to_string\<close>.\<close>

lemma mls_to_string_ok:
  assumes s: "mls_sid_to_context p c = Inr s" and "mls p" "length s < 2147483648" "2 \<le> m"
  shows "mls_to_string m p c = Inr (tl s, m - 2)"
proof -
  have ne: "s \<noteq> []" using s assms(2) by (auto simp: mls_sid_to_context_def rbind_eq_Inr split: if_splits)
  obtain k where k: "m = Suc (Suc k)" using assms(4) by (metis Suc_le_D numeral_2_eq_2 Suc_le_mono)
  show ?thesis
    using assms(3) ne
    by (simp add: mls_to_string_def mls_compute_context_len_ok[OF s] s sint_of_nat_u32 Let_def k)
qed

section \<open>The range of a new context\<close>

lemma mls_copy_context_ok:
  "mls_copy_context m d s = Inr (c, m') \<Longrightarrow> c = d\<lparr>range := range s\<rparr>"
  by (auto simp: mls_copy_context_def rbind_eq_Inr dest!: ebitmap_cpy_ok)

lemma mls_scopy_context_ok:
  "mls_scopy_context m d s = Inr (c, m') \<Longrightarrow> c = d\<lparr>range := \<lparr>low = low (range s), high = low (range s)\<rparr>\<rparr>"
  by (auto simp: mls_scopy_context_def rbind_eq_Inr dest!: ebitmap_cpy_ok)

lemma mls_range_set_ok: "mls_range_set m d r = Inr (c, m') \<Longrightarrow> c = d\<lparr>range := r\<rparr>"
  by (auto simp: mls_range_set_def rbind_eq_Inr dest!: ebitmap_cpy_ok)

lemma mls_change_sid_ok:
  assumes "mls_change_sid m p s tclass d = Inr (c, m')"
  shows "c = d\<lparr>range := if tclass = process_class p then range s
                        else \<lparr>low = low (range s), high = low (range s)\<rparr>\<rparr>"
  using assms
  by (auto simp: mls_change_sid_def dest: mls_copy_context_ok mls_scopy_context_ok split: if_splits)

definition single_level :: "mls_level \<Rightarrow> mls_range" where
  "single_level l = \<lparr>low = l, high = l\<rparr>"

lemma range_ok_single: "wf_level l \<Longrightarrow> range_ok (single_level l)"
  by (simp add: range_ok_def single_level_def wf_range_def mls_level_dom_refl)

lemma range_ok_levels: "range_ok r \<Longrightarrow> wf_level (low r) \<and> wf_level (high r)"
  by (simp add: range_ok_def wf_range_def)

lemma mls_context_cpy_low_ok:
  "mls_context_cpy_low m d s = Inr (c, m') \<Longrightarrow> c = d\<lparr>range := single_level (low (range s))\<rparr>"
  by (auto simp: mls_context_cpy_low_def single_level_def dest: cpy_level_twice_ok)

lemma mls_context_cpy_high_ok:
  "mls_context_cpy_high m d s = Inr (c, m') \<Longrightarrow> c = d\<lparr>range := single_level (high (range s))\<rparr>"
  by (auto simp: mls_context_cpy_high_def single_level_def dest: cpy_level_twice_ok)

lemma mls_context_glblub_ok:
  "mls_context_glblub m d s t = Inr (c, m') \<Longrightarrow>
     \<exists>r. mls_range_glblub m (range s) (range t) = Inr (r, m') \<and> c = d\<lparr>range := r\<rparr>"
  by (auto simp: mls_context_glblub_def rbind_eq_Inr)

text \<open>
  Whatever rule decides, the new range is valid when those of the two contexts and of the range
  transitions are, and nothing but the range changes.
\<close>

lemma mls_compute_sid_range_ok:
  assumes c: "mls_compute_sid m p s t tclass spec d = Inr (c, m')" and "mls p"
    and st: "range_ok (range s)" "range_ok (range t)"
    and rt: "\<And>k r. rangetr_search (range_tr p) k = Some r \<Longrightarrow> range_ok r"
  shows "range_ok (range c)" and "c = d\<lparr>range := range c\<rparr>"
proof -
  note wf = range_ok_levels[OF st(1)] range_ok_levels[OF st(2)]
  note cpy = mls_context_cpy_low_ok mls_context_cpy_high_ok mls_context_cpy_ok
  have ch: "mls_change_sid m p s tclass d = Inr (c, m') \<Longrightarrow> range_ok (range c) \<and> c = d\<lparr>range := range c\<rparr>"
    using wf st range_ok_single[of "low (range s)"]
    by (auto dest!: mls_change_sid_ok simp: single_level_def)
  have gl: "mls_context_glblub m d s t = Inr (c, m') \<Longrightarrow> range_ok (range c) \<and> c = d\<lparr>range := range c\<rparr>"
    by (auto dest!: mls_context_glblub_ok intro: mls_range_glblub_ok(1)[OF st])
  have "range_ok (range c) \<and> c = d\<lparr>range := range c\<rparr>"
  proof (cases "spec = AVTAB_TRANSITION")
    case True
    let ?k = "\<lparr>rtr_source_type = type s, rtr_target_type = type t, rtr_target_class = ucast tclass\<rparr>"
    show ?thesis
    proof (cases "rangetr_search (range_tr p) ?k")
      case (Some r)
      then have "mls_range_set m d r = Inr (c, m')"
        using c True \<open>mls p\<close> by (simp add: mls_compute_sid_def)
      then show ?thesis using rt[OF Some] by (auto dest: mls_range_set_ok)
    next
      case None
      then show ?thesis
        using c True \<open>mls p\<close> st wf ch gl
        by (auto simp: mls_compute_sid_def Let_def range_ok_single dest!: cpy split: if_splits)
    qed
  next
    case False
    then show ?thesis
      using c \<open>mls p\<close> wf ch
      by (auto simp: mls_compute_sid_def range_ok_single dest!: cpy split: if_splits)
  qed
  then show "range_ok (range c)" and "c = d\<lparr>range := range c\<rparr>" by blast+
qed

text \<open>
  A user's range lies within the range of the user, is valid, and its clearance does not exceed
  the one of the calling context.
\<close>

lemma mls_setup_user_range_ok:
  assumes c: "mls_setup_user_range f u d True = Inr c"
    and r: "range_ok (range f)" "range_ok (exp_range u)"
    and def: "wf_level (exp_dfltlevel u)"
      "mls_range_contains (exp_range u) (single_level (exp_dfltlevel u))"
  shows "range_ok (range c)" and "mls_range_contains (exp_range u) (range c)"
    and "mls_level_dom (high (range f)) (high (range c))"
    and "c = d\<lparr>range := range c\<rparr>"
proof -
  note wf = range_ok_levels[OF r(1)] range_ok_levels[OF r(2)] def(1)
  from c obtain sen clr where
    sen: "mls_level_between (exp_dfltlevel u) (low (range f)) (high (range f)) \<and> sen = exp_dfltlevel u \<or>
      mls_level_between (low (range f)) (exp_dfltlevel u) (high (exp_range u)) \<and> sen = low (range f) \<or>
      mls_level_between (high (range f)) (low (exp_range u)) (exp_dfltlevel u) \<and> sen = low (exp_range u)"
    and clr: "mls_level_dom (high (exp_range u)) (high (range f)) \<and> clr = high (range f) \<or>
      mls_level_dom (high (range f)) (high (exp_range u)) \<and> clr = high (exp_range u)"
    and cc: "c = d\<lparr>range := \<lparr>low = sen, high = clr\<rparr>\<rparr>"
    by (auto simp: mls_setup_user_range_def Let_def rbind_eq_Inr split: if_splits)
  have ord: "mls_level_dom (high (range f)) (low (range f))" "mls_level_dom (high (exp_range u)) (low (exp_range u))"
      "mls_level_dom (exp_dfltlevel u) (low (exp_range u))" "mls_level_dom (high (exp_range u)) (exp_dfltlevel u)"
    using r def by (auto simp: range_ok_def mls_range_contains_def single_level_def)
  have w: "wf_level sen" "wf_level clr" using sen clr wf by auto
  have "mls_level_dom (high (range f)) sen" "mls_level_dom (high (exp_range u)) sen"
    using sen ord by (auto simp: mls_level_between_def)
  then have "mls_level_dom clr sen" using clr by auto
  then show "range_ok (range c)" using w by (simp add: cc range_ok_def wf_range_def)
  have "mls_level_dom sen (low (exp_range u))"
    using sen ord wf mls_level_dom_refl[of "low (exp_range u)"]
      mls_level_dom_trans[of "low (range f)" "exp_dfltlevel u" "low (exp_range u)"]
    by (auto simp: mls_level_between_def)
  moreover have "mls_level_dom (high (exp_range u)) clr"
    using clr wf mls_level_dom_refl by auto
  ultimately show "mls_range_contains (exp_range u) (range c)"
    by (simp add: cc mls_range_contains_def)
  show "mls_level_dom (high (range f)) (high (range c))" using clr wf mls_level_dom_refl by (auto simp: cc)
  show "c = d\<lparr>range := range c\<rparr>" by (simp add: cc)
qed

section \<open>Validity\<close>

text \<open>The categories of a level as the level's datum allows them.\<close>

definition level_spec :: "policydb \<Rightarrow> mls_level \<Rightarrow> bool" where
  "level_spec p l \<longleftrightarrow>
     (\<exists>nam d. sens l \<noteq> 0 \<and> sens l \<le> nprim (p_levels p) \<and>
        ptr_arr (p_sens_val_to_name p) (unat (sens l - 1)) = Some nam \<and>
        sym_map (p_levels p) nam = Some d \<and>
        ebits (cat l) \<subseteq> ebits (cat (lev d)) \<inter> {i. i \<le> nprim (p_cats p)})"

definition wf_levels :: "policydb \<Rightarrow> bool" where
  "wf_levels p \<longleftrightarrow> wf_symtab (p_levels p) \<and>
     (\<forall>nam d. sym_map (p_levels p) nam = Some d \<longrightarrow> wf_level (lev d))"

lemma level_isvalid_iff:
  assumes "wf_levels p" "wf_level l"
  shows "level_isvalid p l \<longleftrightarrow> level_spec p l"
proof -
  have tab: "sym_search (table (p_levels p)) nam = sym_map (p_levels p) nam" for nam
    using assms(1) by (simp add: wf_levels_def sym_search_eq)
  have get: "sym_map (p_levels p) nam = Some d \<Longrightarrow> ebitmap_get_bit (cat (lev d)) i \<longleftrightarrow> i \<in> ebits (cat (lev d))"
    for nam d i
    using assms(1) by (auto simp: wf_levels_def wf_level_def eb.get_iff)
  have pos: "set (ebitmap_positive_bits (cat l)) = ebits (cat l)"
    using assms(2) by (simp add: wf_level_def ebitmap_positive_bits_spec)
  show ?thesis
    by (auto simp: level_isvalid_def level_spec_def tab list_all_iff pos get split: option.splits)
qed

lemma mls_context_isvalid_iff:
  assumes "wf_levels p" "wf_context c" "mls p"
  shows "mls_context_isvalid p c \<longleftrightarrow>
    range_ok (range c) \<and> level_spec p (low (range c)) \<and> level_spec p (high (range c)) \<and>
    (role c = OBJECT_R_VAL \<or>
     user c \<noteq> 0 \<and> user c \<le> nprim (p_users p) \<and>
     (\<exists>u. ptr_arr (user_val_to_struct p) (unat (user c - 1)) = Some u \<and>
        mls_range_contains (exp_range u) (range c)))"
  using assms
  by (auto simp: mls_context_isvalid_def level_isvalid_iff range_ok_def wf_context_def wf_range_def
      split: option.splits)

section \<open>Conversion\<close>

lemma convert_cats_ok:
  assumes "convert_cats m oldp newp is c = Inr (c', m')" "wf_ebitmap c"
  shows "wf_ebitmap c' \<and> ebits c' = ebits c \<union> {cat_value d - 1 | i nam d. i \<in> set is \<and>
      name_of (p_cat_val_to_name oldp) i = Inr nam \<and> sym_search (table (p_cats newp)) nam = Some d}"
  using assms
proof (induction m oldp newp "is" c rule: convert_cats.induct)
  case (2 m oldp newp i "is" c)
  from "2.prems" obtain nam d c1 m1 where
    n: "name_of (p_cat_val_to_name oldp) i = Inr nam" "sym_search (table (p_cats newp)) nam = Some d"
    and sb: "ebitmap_set_bit m c (cat_value d - 1) True = Inr (c1, m1)"
    and r: "convert_cats m1 oldp newp is c1 = Inr (c', m')"
    by (auto simp: rbind_eq_Inr split: option.splits)
  note s = ebitmap_set_bit_ok[OF "2.prems"(2) sb]
  have ih: "wf_ebitmap c'" "ebits c' = ebits c1 \<union> {cat_value d - 1 | i nam d. i \<in> set is \<and>
      name_of (p_cat_val_to_name oldp) i = Inr nam \<and> sym_search (table (p_cats newp)) nam = Some d}"
    using "2.IH"[OF n sb refl r s(1)] by simp_all
  have "ebits c' = ebits c \<union> {cat_value d - 1 | j nam d. j \<in> set (i # is) \<and>
      name_of (p_cat_val_to_name oldp) j = Inr nam \<and> sym_search (table (p_cats newp)) nam = Some d}"
    unfolding ih(2) s(2) using n by auto
  with ih(1) show ?case by blast
qed auto

end
