(* ===== verification/Mls_Print.thy ===== *)
theory Mls_Print
  imports Mls_Props
begin

text \<open>
  Printing and parsing of MLS ranges. The printer walks over the blocks of a category set and
  forgets the gap between two blocks that are not adjacent. Where no run of categories ends at
  such a gap, the text stands for the set and the parser reads it back; otherwise two different
  sets can have the same text.
\<close>

section \<open>Runs of categories\<close>

text \<open>
  The runs that the printer makes of the visited bits: the first category and the length. The
  state is the current run, with length 0 for none.
\<close>

fun runs :: "(ebitmap_node \<times> u32) list \<Rightarrow> u32 \<Rightarrow> nat \<Rightarrow> (u32 \<times> nat) list" where
  "runs [] a rng = (if 0 < rng then [(a, rng)] else [])"
| "runs ((n, i) # vs) a rng =
     (if ebitmap_node_get_bit n i then runs vs (if 0 < rng then a else i) (Suc rng)
      else if 0 < rng then (a, rng) # runs vs i 0 else runs vs i 0)"

text \<open>Within a run, and where it ends, the visited bits are consecutive.\<close>

fun contig :: "(ebitmap_node \<times> u32) list \<Rightarrow> u32 \<Rightarrow> u32 \<Rightarrow> nat \<Rightarrow> bool" where
  "contig [] fin a rng \<longleftrightarrow> (0 < rng \<longrightarrow> fin = a + of_nat rng)"
| "contig ((n, i) # vs) fin a rng \<longleftrightarrow>
     (0 < rng \<longrightarrow> i = a + of_nat rng) \<and>
     (if ebitmap_node_get_bit n i then contig vs fin (if 0 < rng then a else i) (Suc rng)
      else contig vs fin i 0)"

definition nm :: "string option list \<Rightarrow> u32 \<Rightarrow> string" where
  "nm nms i = (case name_of nms i of Inr s \<Rightarrow> s | Inl _ \<Rightarrow> [])"

definition named :: "string option list \<Rightarrow> u32 \<Rightarrow> bool" where
  "named nms i \<longleftrightarrow> name_of nms i = Inr (nm nms i)"

definition close_str :: "string option list \<Rightarrow> u32 \<times> nat \<Rightarrow> string" where
  "close_str nms r =
     (case r of (a, k) \<Rightarrow> if k > 1 then range_sep k # nm nms (a + of_nat k - 1) else [])"

definition run_str :: "string option list \<Rightarrow> u32 \<times> nat \<Rightarrow> string" where
  "run_str nms r = nm nms (fst r) @ close_str nms r"

definition more_runs :: "string option list \<Rightarrow> (u32 \<times> nat) list \<Rightarrow> string" where
  "more_runs nms rs = concat (map (\<lambda>r. CHR '','' # run_str nms r) rs)"

lemma more_runs_simps [simp]:
  "more_runs nms [] = []"
  "more_runs nms (r # rs) = CHR '','' # run_str nms r @ more_runs nms rs"
  by (simp_all add: more_runs_def)

text \<open>The printed text: the rest of the current run, then the other runs.\<close>

definition runs_str :: "string option list \<Rightarrow> bool \<Rightarrow> nat \<Rightarrow> (u32 \<times> nat) list \<Rightarrow> string" where
  "runs_str nms wrote rng rs =
     (if 0 < rng then close_str nms (hd rs) @ more_runs nms (tl rs)
      else if wrote then more_runs nms rs
      else (case rs of [] \<Rightarrow> [] | r # rs' \<Rightarrow> CHR '':'' # run_str nms r @ more_runs nms rs'))"

lemma runs_current: "0 < rng \<Longrightarrow> \<exists>k rs. runs vs a rng = (a, k) # rs \<and> rng \<le> k"
proof (induction vs arbitrary: rng)
  case (Cons v vs)
  then show ?case by (cases v) (fastforce dest: Cons.IH[of "Suc rng"])
qed simp

lemma cats_string_runs:
  assumes "contig vs fin a rng" "0 < rng \<longrightarrow> wrote \<and> named nms (a + of_nat rng - 1)"
    and "\<forall>(n, i) \<in> set vs. ebitmap_node_get_bit n i \<longrightarrow> named nms i"
  shows "cats_string nms fin vs rng wrote = Inr (runs_str nms wrote rng (runs vs a rng))"
  using assms
proof (induction vs arbitrary: a rng wrote)
  case Nil
  then show ?case by (auto simp: runs_str_def close_str_def named_def)
next
  case (Cons v vs)
  obtain n i where v: "v = (n, i)" by (cases v)
  show ?case
  proof (cases "ebitmap_node_get_bit n i")
    case True
    have nmd: "named nms i" using Cons.prems(3) v True by auto
    show ?thesis
    proof (cases "0 < rng")
      case rng: True
      have i: "i = a + of_nat rng" using Cons.prems(1) v rng by simp
      have "cats_string nms fin vs (Suc rng) wrote = Inr (runs_str nms wrote (Suc rng) (runs vs a (Suc rng)))"
        using Cons.IH[of a "Suc rng" wrote] Cons.prems v True rng nmd i by (simp add: algebra_simps)
      then show ?thesis using True rng by (simp add: v runs_str_def)
    next
      case rng: False
      obtain k rs where rs: "runs vs i (Suc 0) = (i, k) # rs" using runs_current[of "Suc 0" vs i] by auto
      have "cats_string nms fin vs (Suc 0) True = Inr (runs_str nms True (Suc 0) (runs vs i (Suc 0)))"
        using Cons.IH[of i "Suc 0" True] Cons.prems v True rng nmd by simp
      then show ?thesis using True rng nmd rs
        by (simp add: v runs_str_def run_str_def named_def)
    qed
  next
    case False
    have rest: "cats_string nms fin vs 0 w = Inr (runs_str nms w 0 (runs vs i 0))" for w
      using Cons.IH[of i 0 w] Cons.prems v False by simp
    show ?thesis
    proof (cases "0 < rng")
      case rng: True
      have i: "i = a + of_nat rng" using Cons.prems(1) v rng by simp
      show ?thesis using False rng rest[of wrote] Cons.prems(2) i
        by (auto simp: v runs_str_def close_str_def named_def)
    next
      case False
      then show ?thesis using \<open>\<not> ebitmap_node_get_bit n i\<close> rest[of wrote] by (simp add: v runs_str_def)
    qed
  qed
qed

text \<open>The categories of a run, and of all runs.\<close>

definition run_bits :: "u32 \<times> nat \<Rightarrow> u32 set" where
  "run_bits r = (\<lambda>j. fst r + of_nat j) ` {..<snd r}"

lemma run_bits_0 [simp]: "run_bits (a, 0) = {}"
  by (simp add: run_bits_def)

lemma run_bits_Suc: "run_bits (a, Suc k) = insert (a + of_nat k) (run_bits (a, k))"
  by (simp add: run_bits_def lessThan_Suc)

lemma runs_bits:
  assumes "contig vs fin a rng"
  shows "\<Union> (run_bits ` set (runs vs a rng)) =
    run_bits (a, rng) \<union> {i. \<exists>n. (n, i) \<in> set vs \<and> ebitmap_node_get_bit n i}"
  using assms
proof (induction vs arbitrary: a rng)
  case (Cons v vs)
  obtain n i where v: "v = (n, i)" by (cases v)
  show ?case
  proof (cases "ebitmap_node_get_bit n i")
    case True
    have "run_bits (if 0 < rng then a else i, Suc rng) = insert i (run_bits (a, rng))"
      using Cons.prems v by (auto simp: run_bits_Suc)
    then show ?thesis using Cons.IH[of "if 0 < rng then a else i" "Suc rng"] Cons.prems v True by auto
  next
    case False
    then show ?thesis using Cons.IH[of i 0] Cons.prems v by auto
  qed
qed (auto simp: run_bits_def)

lemma runs_pos: "(a, k) \<in> set (runs vs b rng) \<Longrightarrow> 0 < k"
  by (induction vs b rng rule: runs.induct) (auto split: if_splits)

text \<open>The number of categories, counted along the runs.\<close>

lemma runs_length:
  "sum_list (map snd (runs vs a rng)) =
     rng + length (filter (\<lambda>(n, i). ebitmap_node_get_bit n i) vs)"
  by (induction vs a rng rule: runs.induct) auto

section \<open>Blocks without gaps\<close>

fun gap_free :: "ebitmap_node list \<Rightarrow> bool" where
  "gap_free (n # n' # ns) \<longleftrightarrow>
     (bit (nmap n) 63 \<longrightarrow> startbit n' = startbit n + 64) \<and> gap_free (n' # ns)"
| "gap_free _ \<longleftrightarrow> True"

lemma contig_node:
  assumes ok: "node_ok n" and k: "k \<le> 64"
    and cur: "0 < rng \<longrightarrow> startbit n + of_nat k = a + of_nat rng"
    and prev: "0 < rng \<and> 0 < k \<longrightarrow> bit (nmap n) (k - 1)"
    and rest: "\<And>a' r'. (0 < r' \<longrightarrow> bit (nmap n) 63 \<and> startbit n + 64 = a' + of_nat r') \<Longrightarrow>
      contig rest fin a' r'"
  shows "contig (map (\<lambda>j. (n, startbit n + of_nat j)) [k..<64] @ rest) fin a rng"
  using k cur prev
proof (induction "64 - k" arbitrary: k a rng)
  case 0
  then have "k = 64" by simp
  then show ?case using rest[of rng a] 0 by simp
next
  case (Suc d)
  then have k: "k < 64" by simp
  have get: "ebitmap_node_get_bit n (startbit n + of_nat k) \<longleftrightarrow> bit (nmap n) k"
    using ok k by (simp add: node_ok_def node_get_bit_in_block block_add)
  have d: "d = 64 - Suc k" using Suc(2) by simp
  have step: "startbit n + of_nat (Suc k) = startbit n + of_nat k + 1" by simp
  have eq: "map (\<lambda>j. (n, startbit n + of_nat j)) [k..<64] =
      (n, startbit n + of_nat k) # map (\<lambda>j. (n, startbit n + of_nat j)) [Suc k..<64]"
    using k by (simp add: upt_conv_Cons)
  show ?case
  proof (cases "bit (nmap n) k")
    case True
    let ?a = "if 0 < rng then a else startbit n + of_nat k"
    have "contig (map (\<lambda>j. (n, startbit n + of_nat j)) [Suc k..<64] @ rest) fin ?a (Suc rng)"
      using Suc(4) k True by (intro Suc(1)[OF d]) auto
    then show ?thesis using Suc(4) True by (simp add: eq get)
  next
    case False
    have "contig (map (\<lambda>j. (n, startbit n + of_nat j)) [Suc k..<64] @ rest) fin (startbit n + of_nat k) 0"
      using k by (intro Suc(1)[OF d]) auto
    then show ?thesis using Suc(4) False by (simp add: eq get)
  qed
qed

lemma contig_nodes:
  assumes "wf_nodes (n # ns)" "gap_free (n # ns)" "0 < rng \<longrightarrow> startbit n = a + of_nat rng"
  shows "contig (concat (map (\<lambda>n. map (\<lambda>j. (n, startbit n + of_nat j)) [0..<64]) (n # ns)))
    (nodes_end (n # ns)) a rng"
  using assms
proof (induction ns arbitrary: n a rng)
  case Nil
  then have "node_ok n" by (simp add: wf_nodes_Cons)
  then show ?case
    using contig_node[of n 0 rng a "[]" "startbit n + 64"] Nil by (simp add: nodes_end_def)
next
  case (Cons n' ns)
  have ok: "node_ok n" and wf: "wf_nodes (n' # ns)" using Cons.prems(1) by (auto simp: wf_nodes_Cons)
  have e: "nodes_end (n # n' # ns) = nodes_end (n' # ns)" by (simp add: nodes_end_def)
  have "contig (concat (map (\<lambda>n. map (\<lambda>j. (n, startbit n + of_nat j)) [0..<64]) (n' # ns)))
      (nodes_end (n' # ns)) a' r'"
    if "0 < r' \<longrightarrow> bit (nmap n) 63 \<and> startbit n + 64 = a' + of_nat r'" for a' r'
    using Cons.IH[OF wf, of r' a'] Cons.prems(2) that by simp
  then show ?case
    using contig_node[OF ok, of 0 rng a _ "nodes_end (n' # ns)"] Cons.prems(3) by (simp add: e)
qed

lemma bits_visited_eq:
  assumes "wf_ebitmap e" "node e = n # ns"
  shows "ebitmap_bits_visited e = concat (map (\<lambda>n. map (\<lambda>j. (n, startbit n + of_nat j)) [0..<64]) (n # ns))"
    and "ebitmap_length e = nodes_end (n # ns)"
  using assms for_each_bit_all[of n ns]
  by (simp_all add: wf_ebitmap_def ebitmap_bits_visited_def ebitmap_length_def ebitmap_startbit_def)

lemma contig_ebitmap:
  assumes "wf_ebitmap e" "gap_free (node e)"
  shows "contig (ebitmap_bits_visited e) (ebitmap_length e) 0 0"
proof (cases "node e")
  case Nil
  then show ?thesis by (simp add: ebitmap_bits_visited_def for_each_bit.simps)
next
  case (Cons n ns)
  show ?thesis unfolding bits_visited_eq[OF assms(1) Cons]
    using contig_nodes[of n ns 0 0] assms Cons by (simp add: wf_ebitmap_def)
qed

lemma visited_set:
  "{i. \<exists>n. (n, i) \<in> set (ebitmap_bits_visited e) \<and> ebitmap_node_get_bit n i} = set (ebitmap_positive_bits e)"
  by (force simp: ebitmap_positive_bits_def)

section \<open>Setting categories\<close>

lemma set_bit_nodes_mem: "set_bit_nodes m prev hb b v ns = Inr (ns', hb', m') \<Longrightarrow> m \<le> Suc m'"
  by (induction m prev hb b v ns arbitrary: ns' hb' m' rule: set_bit_nodes.induct)
     (auto simp: Let_def split: if_splits option.splits sum.splits)

lemma ebitmap_set_bit_works:
  assumes "wf_ebitmap e" "unat b < 4294967232" "0 < m"
  obtains e' m' where "ebitmap_set_bit m e b True = Inr (e', m')" "wf_ebitmap e'"
    "ebits e' = insert b (ebits e)" "m \<le> Suc m'"
proof -
  have "ebitmap_set_bit m e b True \<noteq> Inl err" for err
    using ebitmap_set_bit_error[of m e b True err] assms(2,3) by (auto simp: blkstart_overflow_iff)
  then obtain e' m' where r: "ebitmap_set_bit m e b True = Inr (e', m')"
    by (cases "ebitmap_set_bit m e b True") auto
  have "m \<le> Suc m'"
    using r by (auto simp: ebitmap_set_bit_def split: if_splits sum.splits dest: set_bit_nodes_mem)
  then show ?thesis using that[OF r] ebitmap_set_bit_ok[OF assms(1) r] by simp
qed

definition between :: "u32 \<Rightarrow> u32 \<Rightarrow> u32 set" where
  "between a b = {j. unat a \<le> unat j \<and> unat j \<le> unat b}"

lemma set_cats_works:
  assumes "wf_ebitmap c" "unat i \<le> unat hi" "unat hi \<le> 4294967232" "unat hi - unat i \<le> m"
  shows "\<exists>c' m'. set_cats m c i hi = Inr (c', m') \<and> wf_ebitmap c' \<and>
    ebits c' = ebits c \<union> {j. unat i \<le> unat j \<and> unat j < unat hi} \<and> m \<le> m' + (unat hi - unat i)"
  using assms
proof (induction "unat hi - unat i" arbitrary: m c i)
  case 0
  then show ?case by (auto simp: set_cats.simps[of m c i hi] unat_less_word)
next
  case (Suc d)
  have lt: "i < hi" using Suc(2) by (simp add: unat_less_word)
  have i1: "unat (i + 1) = Suc (unat i)" by (rule unat_inc_if_less[OF lt])
  obtain c1 m1 where r: "ebitmap_set_bit m c i True = Inr (c1, m1)" "wf_ebitmap c1"
      "ebits c1 = insert i (ebits c)" "m \<le> Suc m1"
  proof -
    have "unat i < 4294967232" "0 < m" using Suc(2,5,6) by linarith+
    then show ?thesis using ebitmap_set_bit_works[OF Suc(3), of i m] that by blast
  qed
  have "\<exists>c' m'. set_cats m1 c1 (i + 1) hi = Inr (c', m') \<and> wf_ebitmap c' \<and>
    ebits c' = ebits c1 \<union> {j. unat (i + 1) \<le> unat j \<and> unat j < unat hi} \<and> m1 \<le> m' + (unat hi - unat (i + 1))"
    using Suc(2,5,6) r(4) by (intro Suc(1)) (auto simp: i1 r(2))
  then obtain c' m' where s: "set_cats m1 c1 (i + 1) hi = Inr (c', m')" "wf_ebitmap c'"
    "ebits c' = ebits c1 \<union> {j. unat (i + 1) \<le> unat j \<and> unat j < unat hi}" "m1 \<le> m' + (unat hi - unat (i + 1))"
    by blast
  have "{j. unat i \<le> unat j \<and> unat j < unat hi} = insert i {j. unat (i + 1) \<le> unat j \<and> unat j < unat hi}"
    using Suc(2) by (auto simp: i1 le_less dest: Suc_leD) (metis word_unat_eq_iff Suc_le_eq)+
  then show ?case using s r lt i1 Suc(2) by (simp add: set_cats.simps[of m c i hi])
qed

section \<open>Tokens\<close>

text \<open>A category as the printer and the parser agree on it.\<close>

definition good_cat :: "policydb \<Rightarrow> u32 \<Rightarrow> bool" where
  "good_cat p i \<longleftrightarrow> named (p_cat_val_to_name p) i \<and>
     (\<exists>d. sym_search (table (p_cats p)) (nm (p_cat_val_to_name p) i) = Some d \<and> cat_value d = i + 1) \<and>
     set (nm (p_cat_val_to_name p) i) \<inter> {CHR '','', CHR ''-'', CHR ''.''} = {}"

lemma token_end: "set s \<inter> set stops = {} \<Longrightarrow> token stops s = (s, NUL, [])"
proof -
  assume "set s \<inter> set stops = {}"
  then have "dropWhile (\<lambda>c. c \<notin> set stops) s = []" by (auto simp: dropWhile_eq_Nil_conv)
  then show ?thesis by (simp only: token_def list.case)
qed

lemma token_stop:
  assumes "set s \<inter> set stops = {}" "d \<in> set stops"
  shows "token stops (s @ d # rest) = (s, d, rest)"
proof -
  have "\<forall>c \<in> set s. c \<notin> set stops" using assms(1) by auto
  then show ?thesis using assms(2)
    by (simp add: token_def dropWhile_append2 takeWhile_append2)
qed

type_synonym tok = "u32 \<times> u32"

definition tok_str :: "string option list \<Rightarrow> tok \<Rightarrow> string" where
  "tok_str nms t =
     (case t of (a, b) \<Rightarrow> if a = b then nm nms a else nm nms a @ CHR ''.'' # nm nms b)"

definition tok_ok :: "policydb \<Rightarrow> tok \<Rightarrow> bool" where
  "tok_ok p t \<longleftrightarrow> unat (fst t) \<le> unat (snd t) \<and> unat (snd t) < 4294967232 \<and>
     good_cat p (fst t) \<and> good_cat p (snd t)"

definition tok_size :: "tok \<Rightarrow> nat" where
  "tok_size t = Suc (unat (snd t) - unat (fst t))"

definition tok_bits :: "tok \<Rightarrow> u32 set" where
  "tok_bits t = between (fst t) (snd t)"

lemma u32_inc: "unat (a :: u32) < 4294967295 \<Longrightarrow> unat (a + 1) = Suc (unat a)"
  using unat_inc_if_less[of a "- 1"] by (simp add: unat_less_word unsigned_minus_1_eq_mask mask_eq_exp_minus_1)

lemma set_category_works:
  assumes t: "tok_ok p t" and c: "wf_ebitmap c" and m: "tok_size t \<le> m"
  shows "\<exists>c' m'. set_category m p (tok_str (p_cat_val_to_name p) t) c = Inr (c', m') \<and> wf_ebitmap c' \<and>
    ebits c' = ebits c \<union> tok_bits t \<and> m \<le> m' + tok_size t"
proof -
  obtain a b where ab: "t = (a, b)" by (cases t)
  let ?n = "p_cat_val_to_name p"
  have ga: "good_cat p a" and gb: "good_cat p b" and le: "unat a \<le> unat b" "unat b < 4294967232"
    using t by (auto simp: tok_ok_def ab)
  obtain da where da: "sym_search (table (p_cats p)) (nm ?n a) = Some da" "cat_value da = a + 1"
    using ga by (auto simp: good_cat_def)
  obtain db where db: "sym_search (table (p_cats p)) (nm ?n b) = Some db" "cat_value db = b + 1"
    using gb by (auto simp: good_cat_def)
  have dots: "set (nm ?n a) \<inter> set ''.'' = {}" using ga by (auto simp: good_cat_def)
  obtain c1 m1 where r: "ebitmap_set_bit m c a True = Inr (c1, m1)" "wf_ebitmap c1"
      "ebits c1 = insert a (ebits c)" "m \<le> Suc m1"
    using ebitmap_set_bit_works[OF c, of a m] le m by (auto simp: tok_size_def)
  show ?thesis
  proof (cases "a = b")
    case True
    have "token ''.'' (nm ?n a) = (nm ?n a, NUL, [])" by (rule token_end[OF dots])
    moreover have "between a a = {a}" by (auto simp: between_def word_unat_eq_iff)
    ultimately show ?thesis using da r True
      by (simp add: set_category_def ab tok_str_def tok_bits_def tok_size_def)
  next
    case False
    have tk: "token ''.'' (nm ?n a @ CHR ''.'' # nm ?n b) = (nm ?n a, CHR ''.'', nm ?n b)"
      by (rule token_stop[OF dots]) simp
    have inc: "unat (a + 1) = Suc (unat a)" "unat (b + 1) = Suc (unat b)"
      using le by (simp_all add: u32_inc)
    have lt: "unat a < unat b" using False le by (simp add: order_le_less word_unat_eq_iff)
    have "\<exists>c' m'. set_cats m1 c1 (a + 1) (b + 1) = Inr (c', m') \<and> wf_ebitmap c' \<and>
      ebits c' = ebits c1 \<union> {j. unat (a + 1) \<le> unat j \<and> unat j < unat (b + 1)} \<and>
      m1 \<le> m' + (unat (b + 1) - unat (a + 1))"
      using le lt r(4) m by (intro set_cats_works[OF r(2)]) (auto simp: inc tok_size_def ab)
    then obtain c' m' where s: "set_cats m1 c1 (a + 1) (b + 1) = Inr (c', m')" "wf_ebitmap c'"
      "ebits c' = ebits c1 \<union> {j. unat (a + 1) \<le> unat j \<and> unat j < unat (b + 1)}"
      "m1 \<le> m' + (unat (b + 1) - unat (a + 1))" by blast
    have "between a b = insert a {j. unat (a + 1) \<le> unat j \<and> unat j < unat (b + 1)}"
      unfolding between_def inc using lt by (auto simp: Suc_le_eq less_Suc_eq_le order_le_less word_unat_eq_iff)
    moreover have "\<not> cat_value da \<ge> cat_value db"
      unfolding da(2) db(2) unat_le_word inc using lt by simp
    ultimately show ?thesis using da db r s False tk lt inc
      by (simp add: set_category_def ab tok_str_def tok_bits_def tok_size_def)
  qed
qed

text \<open>The tokens of a run: one or two single categories, or a range.\<close>

definition run_toks :: "u32 \<times> nat \<Rightarrow> tok list" where
  "run_toks r =
     (case r of (a, k) \<Rightarrow>
        if k = 1 then [(a, a)]
        else if k = 2 then [(a, a), (a + 1, a + 1)]
        else [(a, a + of_nat k - 1)])"

definition more_toks :: "string option list \<Rightarrow> tok list \<Rightarrow> string" where
  "more_toks nms ts = concat (map (\<lambda>t. CHR '','' # tok_str nms t) ts)"

lemma more_toks_simps [simp]:
  "more_toks nms [] = []"
  "more_toks nms (t # ts) = CHR '','' # tok_str nms t @ more_toks nms ts"
  "more_toks nms (ts @ us) = more_toks nms ts @ more_toks nms us"
  by (simp_all add: more_toks_def)

definition run_good :: "policydb \<Rightarrow> u32 \<times> nat \<Rightarrow> bool" where
  "run_good p r \<longleftrightarrow> 0 < snd r \<and> (\<forall>i \<in> run_bits r. good_cat p i \<and> unat i < 4294967232)"

lemma run_bits_unat:
  assumes "\<forall>i \<in> run_bits (a, k). unat i < 4294967232" "j < k"
  shows "unat (a + of_nat j) = unat a + j"
  using assms(2)
proof (induction j)
  case (Suc j)
  have "a + of_nat j \<in> run_bits (a, k)" using Suc.prems by (auto simp: run_bits_def)
  then have "unat (a + of_nat j) < 4294967232" using assms(1) by blast
  then have "unat (a + of_nat j + 1) = Suc (unat (a + of_nat j))" by (simp add: u32_inc)
  moreover have e: "a + of_nat (Suc j) = a + of_nat j + 1" by simp
  ultimately show ?case unfolding e using Suc by simp
qed simp

lemma run_bits_between:
  assumes "\<forall>i \<in> run_bits (a, Suc k). unat i < 4294967232"
  shows "run_bits (a, Suc k) = between a (a + of_nat k)"
proof -
  have u: "unat (a + of_nat j) = unat a + j" if "j < Suc k" for j by (rule run_bits_unat[OF assms that])
  show ?thesis
  proof (intro set_eqI iffI)
    fix i assume "i \<in> run_bits (a, Suc k)"
    then obtain j where "j < Suc k" "i = a + of_nat j" by (auto simp: run_bits_def)
    then show "i \<in> between a (a + of_nat k)" using u[of j] u[of k] by (simp add: between_def)
  next
    fix i assume i: "i \<in> between a (a + of_nat k)"
    define j where "j = unat i - unat a"
    have j: "j < Suc k" "unat i = unat a + j" using i u[of k] by (auto simp: between_def j_def)
    then have "i = a + of_nat j" using u[OF j(1)] by (simp add: word_unat_eq_iff)
    then show "i \<in> run_bits (a, Suc k)" using j(1) by (auto simp: run_bits_def)
  qed
qed

lemma run_toks_ok:
  assumes r: "run_good p r"
  shows "\<forall>t \<in> set (run_toks r). tok_ok p t"
    and "\<Union> (tok_bits ` set (run_toks r)) = run_bits r"
    and "sum_list (map tok_size (run_toks r)) = snd r"
    and "CHR '','' # run_str nms r = more_toks nms (run_toks r)"
    and "run_toks r \<noteq> []"
proof -
  obtain a k where ak: "r = (a, k)" by (cases r)
  obtain j where k: "k = Suc j" using r by (cases k) (auto simp: run_good_def ak)
  have small: "\<forall>i \<in> run_bits (a, Suc j). unat i < 4294967232"
    and good: "\<forall>i \<in> run_bits (a, Suc j). good_cat p i" using r by (auto simp: run_good_def ak k)
  have u: "unat (a + of_nat i) = unat a + i" if "i < Suc j" for i by (rule run_bits_unat[OF small that])
  have mem: "a + of_nat i \<in> run_bits (a, Suc j)" if "i < Suc j" for i
    using that by (auto simp: run_bits_def)
  have ends: "good_cat p (a + of_nat i)" "unat (a + of_nat i) < 4294967232" if "i < Suc j" for i
    using good small mem[OF that] by auto
  have lastk: "a + of_nat (Suc j) - 1 = a + of_nat j" by simp
  have e0: "good_cat p a" "unat a < 4294967232" using ends[of 0] by simp_all
  have bb: "run_bits (a, Suc j) = between a (a + of_nat j)" by (rule run_bits_between[OF small])
  have same: "between x x = {x}" for x by (auto simp: between_def word_unat_eq_iff)
  consider "j = 0" | "j = 1" | "2 \<le> j" by linarith
  then have "(\<forall>t \<in> set (run_toks r). tok_ok p t) \<and> \<Union> (tok_bits ` set (run_toks r)) = run_bits r \<and>
      sum_list (map tok_size (run_toks r)) = snd r \<and>
      CHR '','' # run_str nms r = more_toks nms (run_toks r) \<and> run_toks r \<noteq> []"
  proof cases
    case 1
    then show ?thesis using e0 bb
      by (simp add: ak k run_toks_def tok_ok_def tok_bits_def tok_size_def same run_str_def close_str_def tok_str_def)
  next
    case 2
    have "{a + 1, a} = run_bits (a, Suc (Suc 0))" by (auto simp: run_bits_def lessThan_Suc add.commute)
    then show ?thesis using e0 ends[of 1] 2
      by (simp add: ak k run_toks_def tok_ok_def tok_bits_def tok_size_def same run_str_def close_str_def
          tok_str_def range_sep_def) (simp add: add.commute)
  next
    case 3
    have ne: "a \<noteq> a + of_nat j" using u[of j] 3 by (metis add_cancel_left_right lessI not_numeral_le_zero)
    show ?thesis using e0 ends[of j] 3 u[of j] bb ne
      by (simp add: ak k run_toks_def tok_ok_def tok_bits_def tok_size_def run_str_def close_str_def
          tok_str_def range_sep_def)
  qed
  then show "\<forall>t \<in> set (run_toks r). tok_ok p t" "\<Union> (tok_bits ` set (run_toks r)) = run_bits r"
    "sum_list (map tok_size (run_toks r)) = snd r" "CHR '','' # run_str nms r = more_toks nms (run_toks r)"
    "run_toks r \<noteq> []" by blast+
qed

lemma runs_toks_ok:
  assumes "\<forall>r \<in> set rs. run_good p r"
  shows "\<forall>t \<in> set (concat (map run_toks rs)). tok_ok p t"
    and "\<Union> (tok_bits ` set (concat (map run_toks rs))) = \<Union> (run_bits ` set rs)"
    and "sum_list (map tok_size (concat (map run_toks rs))) = sum_list (map snd rs)"
    and "more_runs nms rs = more_toks nms (concat (map run_toks rs))"
proof -
  have "(\<forall>t \<in> set (concat (map run_toks rs)). tok_ok p t) \<and>
    \<Union> (tok_bits ` set (concat (map run_toks rs))) = \<Union> (run_bits ` set rs) \<and>
    sum_list (map tok_size (concat (map run_toks rs))) = sum_list (map snd rs) \<and>
    more_runs nms rs = more_toks nms (concat (map run_toks rs))"
    using assms
  proof (induction rs)
    case (Cons r rs)
    have r: "run_good p r" using Cons.prems by simp
    show ?case using run_toks_ok(1-3)[OF r] run_toks_ok(4)[OF r, of nms] Cons by (auto simp del: set_concat)
  qed simp
  then show "\<forall>t \<in> set (concat (map run_toks rs)). tok_ok p t"
    "\<Union> (tok_bits ` set (concat (map run_toks rs))) = \<Union> (run_bits ` set rs)"
    "sum_list (map tok_size (concat (map run_toks rs))) = sum_list (map snd rs)"
    "more_runs nms rs = more_toks nms (concat (map run_toks rs))" by blast+
qed

section \<open>Parsing the tokens\<close>

text \<open>What may follow a level: nothing, or the separator of the high level.\<close>

definition tail_ok :: "string \<Rightarrow> bool" where
  "tail_ok rst \<longleftrightarrow> rst = [] \<or> hd rst = CHR ''-''"

definition tail_delim :: "string \<Rightarrow> char" where
  "tail_delim rst = (if rst = [] then NUL else CHR ''-'')"

lemma token_tail:
  assumes "set s \<inter> set stops = {}" "tail_ok rst" "CHR ''-'' \<in> set stops"
  shows "token stops (s @ rst) = (s, tail_delim rst, drop 1 rst)"
  using assms token_stop[OF assms(1,3)] token_end[OF assms(1)]
  by (cases rst) (auto simp: tail_ok_def tail_delim_def)

lemma tok_str_chars:
  assumes "tok_ok p t"
  shows "set (tok_str (p_cat_val_to_name p) t) \<inter> set '',-'' = {}"
  using assms by (auto simp: tok_ok_def good_cat_def tok_str_def split: prod.splits if_splits)

lemma parse_cats_works:
  assumes "\<forall>t \<in> set (t # ts). tok_ok p t" "wf_ebitmap c" "sum_list (map tok_size (t # ts)) \<le> m" "tail_ok rst"
  shows "\<exists>c' m'. parse_cats m p (tok_str (p_cat_val_to_name p) t @ more_toks (p_cat_val_to_name p) ts @ rst) c =
      Inr (c', tail_delim rst, drop 1 rst, m') \<and> wf_ebitmap c' \<and>
    ebits c' = ebits c \<union> \<Union> (tok_bits ` set (t # ts)) \<and> m \<le> m' + sum_list (map tok_size (t # ts))"
  using assms
proof (induction ts arbitrary: t c m)
  case Nil
  let ?s = "tok_str (p_cat_val_to_name p) t"
  have t: "tok_ok p t" using Nil.prems(1) by simp
  obtain c' m' where sc: "set_category m p ?s c = Inr (c', m')" "wf_ebitmap c'" "ebits c' = ebits c \<union> tok_bits t"
    "m \<le> m' + tok_size t"
    using set_category_works[OF t Nil.prems(2), of m] Nil.prems(3) by auto
  have "token '',-'' (?s @ rst) = (?s, tail_delim rst, drop 1 rst)"
    by (rule token_tail[OF tok_str_chars[OF t] Nil.prems(4)]) simp
  then show ?case using sc
    by (simp add: parse_cats.simps[of m p "?s @ rst"] tail_delim_def)
next
  case (Cons u us)
  let ?n = "p_cat_val_to_name p"
  let ?s = "tok_str ?n t"
  have t: "tok_ok p t" using Cons.prems(1) by simp
  obtain c1 m1 where sc: "set_category m p ?s c = Inr (c1, m1)" "wf_ebitmap c1" "ebits c1 = ebits c \<union> tok_bits t"
    "m \<le> m1 + tok_size t"
    using set_category_works[OF t Cons.prems(2), of m] Cons.prems(3) by auto
  let ?rest = "tok_str ?n u @ more_toks ?n us @ rst"
  have tk: "token '',-'' (?s @ CHR '','' # ?rest) = (?s, CHR '','', ?rest)"
    by (rule token_stop[OF tok_str_chars[OF t]]) simp
  have "\<exists>c' m'. parse_cats m1 p ?rest c1 = Inr (c', tail_delim rst, drop 1 rst, m') \<and> wf_ebitmap c' \<and>
    ebits c' = ebits c1 \<union> \<Union> (tok_bits ` set (u # us)) \<and> m1 \<le> m' + sum_list (map tok_size (u # us))"
    using Cons.prems sc(2,4) by (intro Cons.IH) auto
  then obtain c' m' where ih: "parse_cats m1 p ?rest c1 = Inr (c', tail_delim rst, drop 1 rst, m')" "wf_ebitmap c'"
    "ebits c' = ebits c1 \<union> \<Union> (tok_bits ` set (u # us))" "m1 \<le> m' + sum_list (map tok_size (u # us))"
    by blast
  have "parse_cats m p (?s @ CHR '','' # ?rest) c = Inr (c', tail_delim rst, drop 1 rst, m')"
    using sc(1) ih(1) tk by (simp add: parse_cats.simps[of m p "?s @ CHR '','' # ?rest"])
  moreover have "ebits c' = ebits c \<union> \<Union> (tok_bits ` set (t # u # us))" using sc(3) ih(3) by auto
  ultimately show ?case using ih(2,4) sc(4) by simp
qed

section \<open>Levels and ranges\<close>

definition good_sens :: "policydb \<Rightarrow> u32 \<Rightarrow> bool" where
  "good_sens p s \<longleftrightarrow> named (p_sens_val_to_name p) (s - 1) \<and>
     (\<exists>d. sym_search (table (p_levels p)) (nm (p_sens_val_to_name p) (s - 1)) = Some d \<and> sens (lev d) = s) \<and>
     set (nm (p_sens_val_to_name p) (s - 1)) \<inter> {CHR '':'', CHR ''-''} = {}"

definition printable :: "policydb \<Rightarrow> mls_level \<Rightarrow> bool" where
  "printable p l \<longleftrightarrow> wf_level l \<and> good_sens p (sens l) \<and> gap_free (node (cat l)) \<and>
     (\<forall>i \<in> ebits (cat l). good_cat p i)"

lemma ebits_small: "wf_ebitmap e \<Longrightarrow> i \<in> ebits e \<Longrightarrow> unat i < 4294967232"
proof -
  assume wf: "wf_ebitmap e" and i: "i \<in> ebits e"
  then obtain n where n: "n \<in> set (node e)" "startbit n = blkstart i"
    unfolding ebits_def by (metis bit_0_eq bot_apply bot_bool_def blk_none in_nbits)
  then have "node_ok n" using wf wf_nodes_node_ok by (auto simp: wf_ebitmap_def)
  then have "blkstart i + 64 \<noteq> 0" using n(2) by (simp add: node_ok_def)
  then show ?thesis unfolding blkstart_overflow_iff by simp
qed

abbreviation level_runs :: "mls_level \<Rightarrow> (u32 \<times> nat) list" where
  "level_runs l \<equiv> runs (ebitmap_bits_visited (cat l)) 0 0"

lemma level_runs_ok:
  assumes "printable p l"
  shows "\<forall>r \<in> set (level_runs l). run_good p r" "\<Union> (run_bits ` set (level_runs l)) = ebits (cat l)"
    and "sum_list (map snd (level_runs l)) = card (ebits (cat l))"
proof -
  have wf: "wf_ebitmap (cat l)" and gf: "gap_free (node (cat l))"
    using assms by (auto simp: printable_def wf_level_def)
  note bits = runs_bits[OF contig_ebitmap[OF wf gf], unfolded visited_set]
  show b: "\<Union> (run_bits ` set (level_runs l)) = ebits (cat l)"
    using bits by (simp add: ebitmap_positive_bits_spec(1)[OF wf])
  show "\<forall>r \<in> set (level_runs l). run_good p r"
  proof
    fix r assume r: "r \<in> set (level_runs l)"
    then have "run_bits r \<subseteq> ebits (cat l)" using b by blast
    moreover have "0 < snd r" using r runs_pos[of "fst r" "snd r"] by simp
    ultimately show "run_good p r"
      using assms ebits_small[OF wf] by (auto simp: run_good_def printable_def)
  qed
  have "sum_list (map snd (level_runs l)) = length (ebitmap_positive_bits (cat l))"
    unfolding runs_length by (simp add: ebitmap_positive_bits_def)
  then show "sum_list (map snd (level_runs l)) = card (ebits (cat l))"
    using ebitmap_positive_bits_spec[OF wf] sorted_less_distinct distinct_card by metis
qed

lemma level_string_printable:
  assumes "printable p l"
  shows "level_string p l = Inr (nm (p_sens_val_to_name p) (sens l - 1) @
    runs_str (p_cat_val_to_name p) False 0 (level_runs l))"
proof -
  have wf: "wf_ebitmap (cat l)" and gf: "gap_free (node (cat l))"
    using assms by (auto simp: printable_def wf_level_def)
  have "\<forall>(n, i) \<in> set (ebitmap_bits_visited (cat l)). ebitmap_node_get_bit n i \<longrightarrow> named (p_cat_val_to_name p) i"
  proof clarify
    fix n i assume "(n, i) \<in> set (ebitmap_bits_visited (cat l))" "ebitmap_node_get_bit n i"
    then have "i \<in> set (ebitmap_positive_bits (cat l))" unfolding visited_set[symmetric] by blast
    then show "named (p_cat_val_to_name p) i"
      using assms ebitmap_positive_bits_spec(1)[OF wf] by (auto simp: printable_def good_cat_def)
  qed
  then have "cats_string (p_cat_val_to_name p) (ebitmap_length (cat l)) (ebitmap_bits_visited (cat l)) 0 False =
      Inr (runs_str (p_cat_val_to_name p) False 0 (level_runs l))"
    by (intro cats_string_runs contig_ebitmap wf gf) auto
  moreover have "name_of (p_sens_val_to_name p) (sens l - 1) = Inr (nm (p_sens_val_to_name p) (sens l - 1))"
    using assms by (simp add: printable_def good_sens_def named_def)
  ultimately show ?thesis by (simp add: level_string_def)
qed

lemma ebits_empty: "wf_ebitmap e \<Longrightarrow> ebits e = {} \<Longrightarrow> e = ebitmap_init"
  using ebits_inject[of e ebitmap_init] by simp

text \<open>The parser gets the level back from its text.\<close>

lemma parse_level_works:
  assumes l: "printable p l" and s: "level_string p l = Inr s"
    and l0: "cat l0 = ebitmap_init" and m: "card (ebits (cat l)) \<le> m"
    and rst: "tail_ok rst" "stops = '':-'' \<or> stops = '':'' \<and> rst = []"
  shows "\<exists>m'. parse_level m p (token stops (s @ rst)) l0 = Inr (l, tail_delim rst, drop 1 rst, m') \<and>
    m \<le> m' + card (ebits (cat l))"
proof -
  let ?sn = "nm (p_sens_val_to_name p) (sens l - 1)" and ?cn = "p_cat_val_to_name p"
  have wf: "wf_ebitmap (cat l)" using l by (simp add: printable_def wf_level_def)
  obtain d where d: "sym_search (table (p_levels p)) ?sn = Some d" "sens (lev d) = sens l"
    using l by (auto simp: printable_def good_sens_def)
  have chars: "set ?sn \<inter> set stops = {}" using l rst(2) by (auto simp: printable_def good_sens_def)
  note rs = level_runs_ok[OF l]
  show ?thesis
  proof (cases "level_runs l")
    case Nil
    then have "ebits (cat l) = {}" using rs(2) by simp
    then have e: "cat l = ebitmap_init" using wf by (rule ebits_empty[rotated])
    have s: "s = ?sn" using s level_string_printable[OF l] Nil by (simp add: runs_str_def)
    have "token stops (s @ rst) = (?sn, tail_delim rst, drop 1 rst)"
    proof (cases "rst = []")
      case True
      then show ?thesis using token_end[OF chars] by (simp add: s tail_delim_def)
    next
      case False
      then show ?thesis unfolding s using rst by (intro token_tail[OF chars]) auto
    qed
    moreover have "l0\<lparr>sens := sens l\<rparr> = l" using e l0 by (cases l; cases l0) simp
    ultimately show ?thesis using d by (simp add: parse_level_def tail_delim_def)
  next
    case (Cons r more)
    have good: "run_good p r" "\<forall>r \<in> set more. run_good p r" using rs(1) Cons by auto
    obtain t ts where t: "run_toks r = t # ts" using run_toks_ok(5)[OF good(1)] by (cases "run_toks r") auto
    let ?us = "ts @ concat (map run_toks more)"
    have "run_str ?cn r = tok_str ?cn t @ more_toks ?cn ts"
      using run_toks_ok(4)[OF good(1), of ?cn] t by simp
    then have sx: "s = ?sn @ CHR '':'' # tok_str ?cn t @ more_toks ?cn ?us"
      using s level_string_printable[OF l] Cons runs_toks_ok(4)[OF good(2), of ?cn]
      by (simp add: runs_str_def)
    have all: "concat (map run_toks (level_runs l)) = t # ?us" using Cons t by simp
    have tk: "\<forall>t \<in> set (t # ?us). tok_ok p t" "\<Union> (tok_bits ` set (t # ?us)) = ebits (cat l)"
      "sum_list (map tok_size (t # ?us)) = card (ebits (cat l))"
      using runs_toks_ok(1-3)[OF rs(1)] rs(2,3) unfolding all by auto
    have "\<exists>c' m'. parse_cats m p (tok_str ?cn t @ more_toks ?cn ?us @ rst) (cat l0) =
        Inr (c', tail_delim rst, drop 1 rst, m') \<and> wf_ebitmap c' \<and>
        ebits c' = ebits (cat l0) \<union> \<Union> (tok_bits ` set (t # ?us)) \<and>
        m \<le> m' + sum_list (map tok_size (t # ?us))"
      using m unfolding tk(3)[symmetric] by (intro parse_cats_works[OF tk(1) _ _ rst(1)]) (simp_all add: l0)
    then obtain c' m' where pc: "parse_cats m p (tok_str ?cn t @ more_toks ?cn ?us @ rst) (cat l0) =
        Inr (c', tail_delim rst, drop 1 rst, m')" "wf_ebitmap c'" "ebits c' = ebits (cat l)"
        "m \<le> m' + card (ebits (cat l))"
      unfolding tk(2,3) l0 by auto
    have "c' = cat l" by (rule ebits_inject[OF pc(2) wf pc(3)])
    then have "l0\<lparr>sens := sens l, cat := c'\<rparr> = l" by (cases l; cases l0) simp
    moreover have "token stops (s @ rst) = (?sn, CHR '':'', tok_str ?cn t @ more_toks ?cn ?us @ rst)"
      unfolding sx using token_stop[OF chars, of "CHR '':''"] rst(2) by auto
    ultimately show ?thesis using d pc by (simp add: parse_level_def)
  qed
qed

text \<open>
  The text of a range, without its leading colon, is parsed to the range, if enough memory is
  left for one node per category and the copy of a level.
\<close>

lemma mls_string_parses:
  assumes "mls p" and pr: "printable p (low (range c))" "printable p (high (range c))"
    and s: "mls_sid_to_context p c = Inr s"
    and d: "range d = mls_range_init"
    and m: "card (ebits (cat (low (range c)))) + card (ebits (cat (high (range c)))) +
      length (node (cat (low (range c)))) < m"
  shows "\<exists>m'. mls_from_string m p (tl s) d = Inr (d\<lparr>range := range c\<rparr>, m')"
proof -
  let ?lo = "low (range c)" and ?hi = "high (range c)"
  obtain k where k: "m = Suc k" using m by (cases m) auto
  have d0: "cat (low (range d)) = ebitmap_init" "cat (high (range d)) = ebitmap_init"
    by (simp_all add: d mls_range_init_def mls_level_init_def)
  from s \<open>mls p\<close> obtain s0 where s0: "level_string p ?lo = Inr s0"
    and r: "if mls_level_eq ?lo ?hi then s = CHR '':'' # s0
      else \<exists>s1. level_string p ?hi = Inr s1 \<and> s = CHR '':'' # s0 @ CHR ''-'' # s1"
    by (auto simp: mls_sid_to_context_def rbind_eq_Inr split: if_splits)
  show ?thesis
  proof (cases "mls_level_eq ?lo ?hi")
    case True
    then have eq: "?hi = ?lo" by (simp add: mls_level_eq_iff)
    have ts: "tl s = s0" using r True by simp
    obtain m1 where p1: "parse_level k p (token '':-'' (s0 @ [])) (low (range d)) = Inr (?lo, NUL, [], m1)"
      "k \<le> m1 + card (ebits (cat ?lo))"
      using parse_level_works[OF pr(1) s0 d0(1), of k "[]" "'':-''"] m k
      by (auto simp: tail_ok_def tail_delim_def)
    have "length (node (cat ?lo)) \<le> m1" using p1(2) m k by (simp add: eq)
    then have "mls_level_cpy m1 ?lo = Inr (?lo, m1 - length (node (cat ?lo)))"
      by (simp add: mls_level_cpy_def ebitmap_cpy_enough)
    moreover have "\<lparr>low = ?lo, high = ?lo\<rparr> = range c" using eq by (cases "range c") simp
    ultimately show ?thesis using p1(1) \<open>mls p\<close>
      by (simp add: mls_from_string_def mls_context_to_sid_def k ts)
  next
    case False
    then obtain s1 where s1: "level_string p ?hi = Inr s1" and ts: "tl s = s0 @ CHR ''-'' # s1" using r by auto
    obtain m1 where p1: "parse_level k p (token '':-'' (s0 @ CHR ''-'' # s1)) (low (range d)) =
        Inr (?lo, CHR ''-'', s1, m1)" "k \<le> m1 + card (ebits (cat ?lo))"
      using parse_level_works[OF pr(1) s0 d0(1), of k "CHR ''-'' # s1" "'':-''"] m k
      by (auto simp: tail_ok_def tail_delim_def)
    obtain m2 where p2: "parse_level m1 p (token '':'' (s1 @ [])) (high (range d)) = Inr (?hi, NUL, [], m2)"
      using parse_level_works[OF pr(2) s1 d0(2), of m1 "[]" "'':''"] m k p1(2)
      by (auto simp: tail_ok_def tail_delim_def)
    have "\<lparr>low = ?lo, high = ?hi\<rparr> = range c" by simp
    then show ?thesis using p1(1) p2 \<open>mls p\<close>
      by (simp add: mls_from_string_def mls_context_to_sid_def k ts)
  qed
qed

end
