(* ===== verification/Services_Props.thy ===== *)
theory Services_Props
  imports Reload Mls_Print
begin

text \<open>
  Properties of the security server: contexts read from strings and contexts of new objects are
  valid, a context survives the round trip through its string, SIDs keep their meaning, cached
  SIDs of object contexts stay right, and the reload of a policy keeps only valid contexts.
\<close>

section \<open>Validity\<close>

lemma one_le_u32: "(1 :: u32) \<le> x \<longleftrightarrow> x \<noteq> 0"
  by (simp add: unat_le_word Suc_le_eq unat_gt_0)

lemma context_is_valid_iff:
  "context_is_valid p c \<longleftrightarrow>
     (role c \<noteq> 0 \<and> role c \<le> nprim (p_roles p)) \<and> (user c \<noteq> 0 \<and> user c \<le> nprim (p_users p)) \<and>
     (type c \<noteq> 0 \<and> type c \<le> nprim (p_types p)) \<and>
     (role c \<noteq> OBJECT_R_VAL \<longrightarrow>
        (\<exists>rd ud. ptr_arr (role_val_to_struct p) (unat (role c - 1)) = Some rd \<and>
           ptr_arr (user_val_to_struct p) (unat (user c - 1)) = Some ud \<and>
           ebitmap_get_bit (role_cache rd) (type c - 1) \<and> ebitmap_get_bit (user_cache ud) (role c - 1))) \<and>
     mls_context_isvalid p c"
  by (auto simp: context_is_valid_def one_le_u32 split: option.splits)

lemma context_from_record_valid:
  "context_from_record m p rec = Inr (c, m') \<Longrightarrow> context_is_valid p c"
  by (auto simp: context_from_record_def Let_def rbind_eq_Inr split: option.splits if_splits)

lemma context_from_string_valid:
  "context_from_string m p buf len = Inr (c, m') \<Longrightarrow> context_is_valid p c"
  by (auto simp: context_from_string_def rbind_eq_Inr dest: context_from_record_valid
      split: option.splits if_splits)

lemma new_context_valid:
  "new_context m p s t tclass spec = Inr (c, m') \<Longrightarrow> context_is_valid p c"
  by (auto simp: new_context_def Let_def rbind_eq_Inr selinux_enforcing_def split: if_splits)

text \<open>The string that stands for no context crashes the conversion.\<close>

lemma context_from_string_none:
  assumes "1 \<le> m"
  shows "context_from_string m p (''<<none>>'' @ [NUL]) 9 = Inl UNDEF"
proof -
  obtain k where "m = Suc k" using assms by (cases m) auto
  then show ?thesis
    by (simp add: context_from_string_def zero_or_saturated_def sepol_context_from_string_def
        context_from_record_def)
qed

section \<open>Strings of contexts\<close>

text \<open>A component of a context as printer and parser agree on it.\<close>

definition good_name ::
  "string option list \<Rightarrow> ('d \<Rightarrow> u32) \<Rightarrow> 'd symtab \<Rightarrow> u32 \<Rightarrow> bool" where
  "good_name nms get s v \<longleftrightarrow> named nms (v - 1) \<and>
     (\<exists>d. sym_search (table s) (nm nms (v - 1)) = Some d \<and> get d = v) \<and>
     set (nm nms (v - 1)) \<inter> {CHR '':'', NUL} = {}"

definition readable :: "policydb \<Rightarrow> context_struct \<Rightarrow> bool" where
  "readable p c \<longleftrightarrow> context_is_valid p c \<and>
     good_name (p_user_val_to_name p) user_value (p_users p) (user c) \<and>
     good_name (p_role_val_to_name p) role_value (p_roles p) (role c) \<and>
     good_name (p_type_val_to_name p) type_value (p_types p) (type c) \<and>
     (\<forall>d. sym_search (table (p_types p)) (nm (p_type_val_to_name p) (type c - 1)) = Some d \<longrightarrow>
        type_flavor d \<noteq> TYPE_ATTRIB) \<and>
     (if mls p then printable p (low (range c)) \<and> printable p (high (range c))
      else range c = mls_range_init)"

lemma split_colon_first:
  assumes "CHR '':'' \<notin> set s"
  shows "split_colon (s @ CHR '':'' # rest) = Some (s, rest)" "split_colon s = None"
proof -
  have a: "\<forall>c \<in> set s. c \<noteq> CHR '':''" using assms by auto
  then show "split_colon (s @ CHR '':'' # rest) = Some (s, rest)"
    by (simp add: split_colon_def dropWhile_append2 takeWhile_append2)
  have "dropWhile (\<lambda>c. c \<noteq> CHR '':'') s = []" using a by (auto simp: dropWhile_eq_Nil_conv)
  then show "split_colon s = None" by (simp only: split_colon_def list.case)
qed

lemma not_none: "CHR '':'' \<in> set s \<Longrightarrow> s \<noteq> ''<<none>>''"
  by auto

text \<open>The record that the string is taken apart into.\<close>

lemma sepol_context_from_string_works:
  assumes "CHR '':'' \<notin> set u" "CHR '':'' \<notin> set r" "CHR '':'' \<notin> set t" "6 \<le> m"
  shows "\<exists>m'. sepol_context_from_string m
      (u @ CHR '':'' # r @ CHR '':'' # t @ (case l of None \<Rightarrow> [] | Some x \<Rightarrow> CHR '':'' # x)) =
    Inr (Some \<lparr>con_user = Some u, con_role = Some r, con_type = Some t, con_mls = l\<rparr>, m') \<and> m \<le> m' + 6"
proof -
  let ?s = "u @ CHR '':'' # r @ CHR '':'' # t @ (case l of None \<Rightarrow> [] | Some x \<Rightarrow> CHR '':'' # x)"
  obtain k where k: "m = Suc (Suc (Suc (Suc (Suc (Suc k)))))"
  proof -
    obtain k where "m = 6 + k" using assms(4) le_Suc_ex by blast
    then have "m = Suc (Suc (Suc (Suc (Suc (Suc k)))))" by simp
    then show ?thesis using that by blast
  qed
  have "?s \<noteq> ''<<none>>''" by (rule not_none) simp
  then show ?thesis
    using split_colon_first[OF assms(1)] split_colon_first[OF assms(2)] split_colon_first[OF assms(3)]
    by (cases l)
       (simp_all add: k sepol_context_from_string_def sepol_context_create_def strdup_def
         sepol_context_set_user_def sepol_context_set_role_def sepol_context_set_type_def
         sepol_context_set_mls_def)
qed

lemma mls_sid_to_context_colon:
  assumes "mls p" "mls_sid_to_context p c = Inr s"
  shows "s = CHR '':'' # tl s"
  using assms by (auto simp: mls_sid_to_context_def rbind_eq_Inr split: if_splits)

text \<open>The memory that reading a context takes, and some to spare.\<close>

definition read_budget :: "context_struct \<Rightarrow> nat" where
  "read_budget c =
     card (ebits (cat (low (range c)))) + card (ebits (cat (high (range c)))) +
     length (node (cat (low (range c)))) + 12"

lemma context_from_record_works:
  assumes c: "readable p c" and s: "mls_sid_to_context p c = Inr ms"
    and m: "read_budget c \<le> m + 7"
  shows "\<exists>m'. context_from_record m p
      (Some \<lparr>con_user = Some (nm (p_user_val_to_name p) (user c - 1)),
             con_role = Some (nm (p_role_val_to_name p) (role c - 1)),
             con_type = Some (nm (p_type_val_to_name p) (type c - 1)),
             con_mls = (if mls p then Some (tl ms) else None)\<rparr>) = Inr (c, m')"
proof -
  let ?u = "nm (p_user_val_to_name p) (user c - 1)" and ?r = "nm (p_role_val_to_name p) (role c - 1)"
    and ?t = "nm (p_type_val_to_name p) (type c - 1)"
  obtain du dr dt where d: "sym_search (table (p_users p)) ?u = Some du" "user_value du = user c"
      "sym_search (table (p_roles p)) ?r = Some dr" "role_value dr = role c"
      "sym_search (table (p_types p)) ?t = Some dt" "type_value dt = type c" "type_flavor dt \<noteq> TYPE_ATTRIB"
    using c by (auto simp: readable_def good_name_def)
  let ?c0 = "context_init\<lparr>user := user c, role := role c, type := type c\<rparr>"
  have m4: "4 \<le> m" using m by (simp add: read_budget_def)
  show ?thesis
  proof (cases "mls p")
    case True
    have "\<exists>m'. mls_from_string (m - 4) p (tl ms) ?c0 = Inr (?c0\<lparr>range := range c\<rparr>, m')"
      using c True m by (intro mls_string_parses[OF True _ _ s]) (auto simp: readable_def context_init_def read_budget_def)
    moreover have "?c0\<lparr>range := range c\<rparr> = c" by (simp add: context_init_def)
    ultimately show ?thesis using d m4 True c
      by (auto simp: context_from_record_def readable_def Let_def)
  next
    case False
    then have "?c0 = c" using c by (cases c) (simp add: readable_def context_init_def)
    then show ?thesis using d m4 False c by (simp add: context_from_record_def readable_def Let_def)
  qed
qed

lemma context_to_string_works:
  assumes c: "readable p c" and s: "mls_sid_to_context p c = Inr ms" and small: "length ms < 2147483648"
    and m: "1 \<le> m"
  shows "context_to_string m p c =
    Inr (nm (p_user_val_to_name p) (user c - 1) @ CHR '':'' # nm (p_role_val_to_name p) (role c - 1) @
         CHR '':'' # nm (p_type_val_to_name p) (type c - 1) @ ms,
       int (length (nm (p_user_val_to_name p) (user c - 1)) + length (nm (p_role_val_to_name p) (role c - 1)) +
         length (nm (p_type_val_to_name p) (type c - 1)) + length ms + 3), m - 1)"
proof -
  obtain k where "m = Suc k" using m by (cases m) auto
  moreover have "name_of (p_user_val_to_name p) (user c - 1) = Inr (nm (p_user_val_to_name p) (user c - 1))"
    "name_of (p_role_val_to_name p) (role c - 1) = Inr (nm (p_role_val_to_name p) (role c - 1))"
    "name_of (p_type_val_to_name p) (type c - 1) = Inr (nm (p_type_val_to_name p) (type c - 1))"
    using c by (auto simp: readable_def good_name_def named_def)
  ultimately show ?thesis
    using small by (simp add: context_to_string_def mls_compute_context_len_ok[OF s] s sint_of_nat_u32 Let_def)
qed

text \<open>
  The round trip: the string that a readable context prints as, with its terminating NUL, reads
  as the same context.
\<close>

lemma context_string_roundtrip:
  assumes c: "readable p c" and p: "context_to_string m0 p c = Inr (s, len, m1)"
    and ms: "mls_sid_to_context p c = Inr ms" "length ms < 2147483648" and nul: "NUL \<notin> set ms"
    and big: "length s < 2 ^ 63" and m: "read_budget c \<le> m"
  shows "\<exists>m'. context_from_string m p (s @ [NUL]) (of_nat (length s + 1)) = Inr (c, m')"
proof -
  let ?u = "nm (p_user_val_to_name p) (user c - 1)" and ?r = "nm (p_role_val_to_name p) (role c - 1)"
    and ?t = "nm (p_type_val_to_name p) (type c - 1)"
  have m0: "1 \<le> m0"
    using p by (cases m0) (auto simp: context_to_string_def rbind_eq_Inr Let_def split: if_splits)
  have s: "s = ?u @ CHR '':'' # ?r @ CHR '':'' # ?t @ ms"
    using p context_to_string_works[OF c ms m0] by simp
  have ch: "CHR '':'' \<notin> set ?u" "CHR '':'' \<notin> set ?r" "CHR '':'' \<notin> set ?t"
    and nu: "NUL \<notin> set s"
    using c nul by (auto simp: readable_def good_name_def s)
  let ?l = "if mls p then Some (tl ms) else None"
  have "ms = (case ?l of None \<Rightarrow> [] | Some x \<Rightarrow> CHR '':'' # x)"
    using mls_sid_to_context_colon[of p c ms] ms(1) by (auto simp: mls_sid_to_context_def)
  then have s': "s = ?u @ CHR '':'' # ?r @ CHR '':'' # ?t @ (case ?l of None \<Rightarrow> [] | Some x \<Rightarrow> CHR '':'' # x)"
    using s by simp
  obtain k where k: "m = Suc k" using m by (cases m) (auto simp: read_budget_def)
  obtain m2 where r: "sepol_context_from_string k s =
      Inr (Some \<lparr>con_user = Some ?u, con_role = Some ?r, con_type = Some ?t, con_mls = ?l\<rparr>, m2)" "k \<le> m2 + 6"
    using sepol_context_from_string_works[OF ch, of k ?l] m k unfolding s'[symmetric]
    by (auto simp: read_budget_def)
  obtain m' where rr: "context_from_record m2 p
      (Some \<lparr>con_user = Some ?u, con_role = Some ?r, con_type = Some ?t, con_mls = ?l\<rparr>) = Inr (c, m')"
    using context_from_record_works[OF c ms(1), of m2] r(2) m k by auto
  let ?n = "length s + 1"
  have un: "unat (of_nat ?n :: u64) = ?n" 
    by (simp only: unat_of_nat) (use big in simp)
  have nz: "\<not> zero_or_saturated (of_nat ?n :: u64)"
  proof
    assume "zero_or_saturated (of_nat ?n :: u64)"
    then have "unat (of_nat ?n :: u64) = 0 \<or> unat (of_nat ?n :: u64) = unat (- 1 :: u64)"
      unfolding zero_or_saturated_def by (elim disjE) (simp_all only: unsigned_0 simp_thms)
    then show False unfolding un using big by (simp add: unsigned_minus_1_eq_mask mask_eq_exp_minus_1)
  qed
  have tw: "takeWhile (\<lambda>c. c \<noteq> NUL) (take ?n (s @ [NUL])) = s"
  proof -
    have "\<forall>c \<in> set s. c \<noteq> NUL" using nu by auto
    then show ?thesis by (simp add: takeWhile_append2)
  qed
  show ?thesis
    using nz un tw r(1) rr by (simp add: context_from_string_def k)
qed

section \<open>New contexts and their SIDs\<close>

text \<open>The table of SIDs can only grow, and no SID changes its context.\<close>

definition sid_extends :: "sidtab \<Rightarrow> sidtab \<Rightarrow> bool" where
  "sid_extends st st' \<longleftrightarrow> (\<forall>i c. sid_map st i = Some c \<longrightarrow> sid_map st' i = Some c)"

lemma sid_extends_refl [simp]: "sid_extends st st"
  by (simp add: sid_extends_def)

lemma sid_extends_trans: "sid_extends a b \<Longrightarrow> sid_extends b c \<Longrightarrow> sid_extends a c"
  by (simp add: sid_extends_def)

lemma alloc_facts:
  assumes "wf_sidtab st" "sepol_sidtab_context_to_sid m st c = Inr (i, st', m')"
  shows "wf_sidtab st'" "sid_map st' i = Some c" "i \<noteq> 0" "sid_extends st st'"
  using sids.alloc_inv[OF assms] sids.alloc_find[OF assms] sids.alloc_keeps[OF assms]
  by (auto simp: sid_extends_def)

lemma find_sid_known:
  "wf_sidtab (stab sv) \<Longrightarrow> sid_map (stab sv) i = Some c \<Longrightarrow> find_sid sv i = Inr c"
  by (simp add: find_sid_def sidtab_search_eq)

lemma compute_sid_ok:
  assumes wf: "wf_sidtab (stab sv)" and c: "sepol_compute_sid m sv ssid tsid tclass spec = Inr (i, sv', m')"
  shows "pdb sv' = pdb sv" and "wf_sidtab (stab sv')" and "sid_extends (stab sv) (stab sv')"
    and "\<exists>s t c m1 m2. find_sid sv ssid = Inr s \<and> find_sid sv tsid = Inr t \<and>
      new_context m1 (pdb sv) s t tclass spec = Inr (c, m2) \<and>
      sid_map (stab sv') i = Some c \<and> context_is_valid (pdb sv) c"
  using c new_context_valid
  by (auto simp: sepol_compute_sid_def rbind_eq_Inr dest: alloc_facts[OF wf], blast dest: alloc_facts[OF wf])

lemma context_to_sid_services_ok:
  assumes wf: "wf_sidtab (stab sv)" and c: "sepol_context_to_sid m sv buf len True = Inr (r, sv', m')"
  shows "\<exists>i c m1. r = Some i \<and> context_from_string m (pdb sv) buf len = Inr (c, m1) \<and>
      sid_map (stab sv') i = Some c \<and> context_is_valid (pdb sv) c"
    and "pdb sv' = pdb sv" "wf_sidtab (stab sv')" "sid_extends (stab sv) (stab sv')"
proof -
  from c obtain x m1 where x: "context_from_string m (pdb sv) buf len = Inr (x, m1)"
    by (auto simp: sepol_context_to_sid_def split: sum.splits errcode.splits)
  with c obtain i st where a: "sepol_sidtab_context_to_sid m1 (stab sv) x = Inr (i, st, m')"
    and r: "r = Some i" "sv' = sv\<lparr>stab := st\<rparr>"
    by (auto simp: sepol_context_to_sid_def split: sum.splits errcode.splits)
  note al = alloc_facts[OF wf a]
  show "\<exists>i c m1. r = Some i \<and> context_from_string m (pdb sv) buf len = Inr (c, m1) \<and>
      sid_map (stab sv') i = Some c \<and> context_is_valid (pdb sv) c"
    using x r al context_from_string_valid[OF x] by auto
  show "pdb sv' = pdb sv" "wf_sidtab (stab sv')" "sid_extends (stab sv) (stab sv')"
    using r al by simp_all
qed

section \<open>Transitions\<close>

lemma validate_loop_ok:
  "validate_loop p oc nc tc cs = Inr () \<longleftrightarrow>
     (\<forall>c \<in> set cs. constraint_granted p oc nc (Some tc) c = Inr True)"
  by (induction cs) (auto simp: rbind_eq_Inr)

lemma validate_transition_iff:
  "sepol_validate_transition sv o_sid n_sid t_sid tclass = Inr () \<longleftrightarrow>
     class_ok (pdb sv) tclass \<and>
     (\<exists>oc nc tc cl. find_sid sv o_sid = Inr oc \<and> find_sid sv n_sid = Inr nc \<and> find_sid sv t_sid = Inr tc \<and>
        ptr_arr (class_val_to_struct (pdb sv)) (unat tclass - 1) = Some cl \<and>
        (\<forall>c \<in> set (validatetrans cl). constraint_granted (pdb sv) oc nc (Some tc) c = Inr True))"
  by (auto simp: sepol_validate_transition_def class_ok_def rbind_eq_Inr validate_loop_ok
      not_less split: option.splits)

section \<open>Object contexts\<close>

lemma first_match_Some:
  "first_match P xs = Some k \<longleftrightarrow> k < length xs \<and> P (xs ! k) \<and> (\<forall>j < k. \<not> P (xs ! j))"
proof (induction xs arbitrary: k)
  case (Cons x xs)
  show ?case
  proof (cases k)
    case 0
    then show ?thesis by auto
  next
    case (Suc l)
    then show ?thesis using Cons[of l] by (auto simp: All_less_Suc2)
  qed
qed simp

lemma first_match_None: "first_match P xs = None \<longleftrightarrow> (\<forall>x \<in> set xs. \<not> P x)"
  by (induction xs) auto

text \<open>A cached SID is the SID of its context.\<close>

definition cache_ok :: "sidtab \<Rightarrow> ocontext \<Rightarrow> bool" where
  "cache_ok st c \<longleftrightarrow>
     (sid0 c \<noteq> 0 \<longrightarrow> sid_map st (sid0 c) = Some (context0 c)) \<and>
     (sid1 c \<noteq> 0 \<longrightarrow> sid_map st (sid1 c) = Some (context1 c))"

lemma cache_ok_extends: "cache_ok st c \<Longrightarrow> sid_extends st st' \<Longrightarrow> cache_ok st' c"
  by (simp add: cache_ok_def sid_extends_def)

lemma fill_sid0_Inr:
  assumes "wf_sidtab st" "cache_ok st c" "fill_sid0 m st c = (Inr m', st', c')"
  shows "wf_sidtab st'" "sid_extends st st'" "cache_ok st' c'" "sid0 c' \<noteq> 0" "ou c' = ou c" "context0 c' = context0 c"
    "context1 c' = context1 c" "sid1 c' = sid1 c"
  using assms(3) alloc_facts[OF assms(1)] assms(2)
  by (auto simp: fill_sid0_def cache_ok_def sid_extends_def split: sum.splits)

lemma fill_sid1_Inr:
  assumes "wf_sidtab st" "cache_ok st c" "fill_sid1 m st c = (Inr m', st', c')"
  shows "wf_sidtab st'" "sid_extends st st'" "cache_ok st' c'" "sid1 c' \<noteq> 0" "ou c' = ou c" "context0 c' = context0 c"
    "context1 c' = context1 c" "sid0 c' = sid0 c"
  using assms(3) alloc_facts[OF assms(1)] assms(2)
  by (auto simp: fill_sid1_def cache_ok_def sid_extends_def split: sum.splits)

lemma one_sid_ok:
  assumes wf: "wf_sidtab st" and ok: "cache_ok st c" and r: "one_sid m st c = (Inr (i, m'), st', c')"
  shows "wf_sidtab st' \<and> sid_extends st st' \<and> cache_ok st' c' \<and> sid_map st' i = Some (context0 c) \<and>
    one_sid m2 st' c' = (Inr (i, m2), st', c') \<and> ou c' = ou c \<and> context0 c' = context0 c"
proof (cases "sid0 c = 0")
  case True
  obtain q st1 c1 where f: "fill_sid0 m st c = (q, st1, c1)" by (metis prod.exhaust)
  then obtain m1 where q: "q = Inr m1" using r True by (cases q) (auto simp: one_sid_def)
  note fs = fill_sid0_Inr[OF wf ok f[unfolded q]]
  have e: "i = sid0 c1" "st' = st1" "c' = c1" using r True f q by (auto simp: one_sid_def)
  show ?thesis using fs e by (simp add: one_sid_def cache_ok_def)
next
  case False
  then show ?thesis using r wf ok by (auto simp: one_sid_def cache_ok_def)
qed

lemma two_sids_ok:
  assumes wf: "wf_sidtab st" and ok: "cache_ok st c" and r: "two_sids m st c = (Inr ((i, j), m'), st', c')"
  shows "wf_sidtab st' \<and> sid_extends st st' \<and> cache_ok st' c' \<and>
    sid_map st' i = Some (context0 c) \<and> sid_map st' j = Some (context1 c) \<and>
    two_sids m2 st' c' = (Inr ((i, j), m2), st', c') \<and> ou c' = ou c"
proof (cases "sid0 c = 0 \<or> sid1 c = 0")
  case True
  obtain q st1 c1 where f: "fill_sid0 m st c = (q, st1, c1)" by (metis prod.exhaust)
  then obtain m1 where q: "q = Inr m1" using r True by (cases q) (auto simp: two_sids_def)
  note f0 = fill_sid0_Inr[OF wf ok f[unfolded q]]
  obtain q2 st2 c2 where g: "fill_sid1 m1 st1 c1 = (q2, st2, c2)" by (metis prod.exhaust)
  then obtain m3 where q2: "q2 = Inr m3" using r True f q by (cases q2) (auto simp: two_sids_def)
  note f1 = fill_sid1_Inr[OF f0(1,3) g[unfolded q2]]
  have e: "i = sid0 c2" "j = sid1 c2" "st' = st2" "c' = c2"
    using r True f q g q2 by (auto simp: two_sids_def)
  have "sid_extends st st2" using f0(2) f1(2) by (rule sid_extends_trans)
  then show ?thesis using f0 f1 e by (simp add: two_sids_def cache_ok_def)
next
  case False
  then show ?thesis using r wf ok by (auto simp: two_sids_def cache_ok_def)
qed

text \<open>
  A lookup: without a match the default; otherwise the SID stands for the context of the first
  match, the same lookup finds it again without a change, and the caches stay right.
\<close>

lemma ocon_lookup_one:
  assumes wf: "wf_sidtab (stab sv)" and ok: "\<forall>c \<in> set ocs. cache_ok (stab sv) c"
    and r: "ocon_lookup one_sid dflt P ocs put m sv = (Inr (i, m'), sv')"
  shows "(\<forall>c \<in> set ocs. \<not> P c) \<and> i = dflt \<and> sv' = sv \<or>
    (\<exists>k < length ocs. P (ocs ! k) \<and> (\<forall>j < k. \<not> P (ocs ! j)) \<and>
       sid_map (stab sv') i = Some (context0 (ocs ! k)))"
    and "wf_sidtab (stab sv')" and "sid_extends (stab sv) (stab sv')"
proof -
  have "((\<forall>c \<in> set ocs. \<not> P c) \<and> i = dflt \<and> sv' = sv \<or>
    (\<exists>k < length ocs. P (ocs ! k) \<and> (\<forall>j < k. \<not> P (ocs ! j)) \<and>
       sid_map (stab sv') i = Some (context0 (ocs ! k)))) \<and>
    wf_sidtab (stab sv') \<and> sid_extends (stab sv) (stab sv')"
  proof (cases "first_match P ocs")
    case None
    have "i = dflt" "sv' = sv" using r None by (simp_all add: ocon_lookup_def)
    then show ?thesis using None wf by (simp add: first_match_None)
  next
    case (Some k)
    note k = Some[unfolded first_match_Some]
    obtain q st c where o: "one_sid m (stab sv) (ocs ! k) = (q, st, c)" by (metis prod.exhaust)
    then have q: "q = Inr (i, m')" and sv': "stab sv' = st"
      using r Some by (auto simp: ocon_lookup_def)
    have "cache_ok (stab sv) (ocs ! k)" using ok k by simp
    note os = one_sid_ok[OF wf this o[unfolded q]]
    then show ?thesis using k sv' by blast
  qed
  then show "(\<forall>c \<in> set ocs. \<not> P c) \<and> i = dflt \<and> sv' = sv \<or>
    (\<exists>k < length ocs. P (ocs ! k) \<and> (\<forall>j < k. \<not> P (ocs ! j)) \<and>
       sid_map (stab sv') i = Some (context0 (ocs ! k)))"
    and "wf_sidtab (stab sv')" and "sid_extends (stab sv) (stab sv')" by blast+
qed

text \<open>
  With the entries of a file system ordered by falling length, as the reader of the policy puts
  them, the first match has the longest prefix of the path.
\<close>

lemma genfs_longest:
  assumes "first_match (genfs_matches path sclass) cs = Some k"
    and "sorted_wrt (\<lambda>a b. case (ou a, ou b) of (OName x, OName y) \<Rightarrow> length y \<le> length x | _ \<Rightarrow> True) cs"
    and "c \<in> set cs" "genfs_matches path sclass c" "ou c = OName x"
  shows "\<exists>y. ou (cs ! k) = OName y \<and> length x \<le> length y \<and> take (length y) path = y"
proof -
  have k: "k < length cs" "genfs_matches path sclass (cs ! k)" "\<forall>j < k. \<not> genfs_matches path sclass (cs ! j)"
    using assms(1) by (auto simp: first_match_Some)
  then obtain y where y: "ou (cs ! k) = OName y" "take (length y) path = y"
    by (auto simp: genfs_matches_def split: ocontext_u.splits)
  obtain j where j: "j < length cs" "cs ! j = c" using assms(3) by (auto simp: in_set_conv_nth)
  have "\<not> j < k" using k(3) j assms(4) by auto
  then have "length x \<le> length y"
    using sorted_wrt_nth_less[OF assms(2), of k j] j y assms(5) by (cases "j = k") auto
  then show ?thesis using y by blast
qed

section \<open>Loading a policy\<close>

lemma clone_sid_apply:
  "clone_sid i c (s, m) =
     (case sepol_sidtab_insert m s i c of
        Inl err \<Rightarrow> (Some err, c, (s, m))
      | Inr (s', m') \<Rightarrow> (None, c, (s', m')))"
  by (simp add: clone_sid_def)

lemma clone_chain:
  assumes "sid_map_chain clone_sid ns (s, m) = (None, ns', (s', m'))" "wf_sidtab s"
    and "\<forall>n \<in> set ns. 0 < sid n \<and> sid n \<noteq> - 1"
  shows "ns' = ns \<and> wf_sidtab s' \<and>
    (\<forall>i c. sid_map s' i = Some c \<longleftrightarrow> sid_map s i = Some c \<or> \<lparr>sid = i, con = c\<rparr> \<in> set ns)"
  using assms
proof (induction ns arbitrary: s m ns')
  case (Cons n ns)
  obtain s1 m1 where ins: "sepol_sidtab_insert m s (sid n) (con n) = Inr (s1, m1)"
    using Cons.prems(1) by (auto simp: clone_sid_apply split: sum.splits prod.splits)
  then obtain ns1 where r: "sid_map_chain clone_sid ns (s1, m1) = (None, ns1, (s', m'))" and e: "ns' = n # ns1"
    using Cons.prems(1) by (auto simp: clone_sid_apply split: prod.splits)
  have p: "0 < sid n" "sid n \<noteq> - 1" using Cons.prems(3) by auto
  note io = sidtab_insert_ok[OF Cons.prems(2) p ins]
  have ih: "ns1 = ns" "wf_sidtab s'"
    "\<forall>i c. sid_map s' i = Some c \<longleftrightarrow> sid_map s1 i = Some c \<or> \<lparr>sid = i, con = c\<rparr> \<in> set ns"
    using Cons.IH[OF r io(1)] Cons.prems(3) by auto
  have "\<lparr>sid = i, con = c\<rparr> = n \<longleftrightarrow> i = sid n \<and> c = con n" for i c by (cases n) auto
  then show ?case using ih io(2,3) e by auto
qed simp

lemma clone_chains:
  assumes "sid_map_chains clone_sid t (s, m) = (None, t', (s', m'))" "wf_sidtab s"
    and "\<forall>n \<in> set (concat t). 0 < sid n \<and> sid n \<noteq> - 1"
  shows "t' = t \<and> wf_sidtab s' \<and>
    (\<forall>i c. sid_map s' i = Some c \<longleftrightarrow> sid_map s i = Some c \<or> \<lparr>sid = i, con = c\<rparr> \<in> set (concat t))"
  using assms
proof (induction t arbitrary: s m t')
  case (Cons ch t)
  obtain r ch1 s1 m1 where c: "sid_map_chain clone_sid ch (s, m) = (r, ch1, (s1, m1))" by (metis prod.exhaust)
  have r: "r = None" using Cons.prems(1) c by (cases r) auto
  then obtain t1 where t: "sid_map_chains clone_sid t (s1, m1) = (None, t1, (s', m'))" "t' = ch1 # t1"
    using Cons.prems(1) c by (auto split: prod.splits)
  have one: "ch1 = ch" "wf_sidtab s1"
    "\<forall>i c. sid_map s1 i = Some c \<longleftrightarrow> sid_map s i = Some c \<or> \<lparr>sid = i, con = c\<rparr> \<in> set ch"
    using clone_chain[OF c[unfolded r] Cons.prems(2)] Cons.prems(3) by auto
  show ?case using Cons.IH[OF t(1) one(2)] Cons.prems(3) one t(2) by auto
qed simp

lemma remove_chain_ok:
  assumes "sid_remove_chain f ns st = (ns', k, st')"
  shows "sid_chain_ok x ns \<Longrightarrow> sid_chain_ok x ns'" and "of_nat (length ns') + k = of_nat (length ns)"
    and "n' \<in> set ns' \<Longrightarrow> \<exists>n \<in> set ns. \<exists>s1 s2. sid n' = sid n \<and> f (sid n) (con n) s1 = (None, con n', s2)"
proof -
  have "(sid_chain_ok x ns \<longrightarrow> sid_chain_ok x ns') \<and> of_nat (length ns') + k = of_nat (length ns) \<and>
    (\<forall>n' \<in> set ns'. \<exists>n \<in> set ns. \<exists>s1 s2. sid n' = sid n \<and> f (sid n) (con n) s1 = (None, con n', s2))"
    using assms
  proof (induction ns arbitrary: st ns' k st')
    case (Cons n ns)
    obtain r c s1 where f: "f (sid n) (con n) st = (r, c, s1)" by (metis prod.exhaust)
    obtain ns1 k1 s2 where r: "sid_remove_chain f ns s1 = (ns1, k1, s2)" by (metis prod.exhaust)
    note ih = Cons.IH[OF r]
    show ?case
    proof (cases r)
      case None
      then have "ns' = n\<lparr>con := c\<rparr> # ns1" "k = k1" using Cons.prems f r by auto
      then show ?thesis using ih f None
        by (fastforce simp: sid_chain_ok_def algebra_simps)
    next
      case (Some e)
      then have "ns' = ns1" "k = k1 + 1" using Cons.prems f r by auto
      then show ?thesis using ih by (auto simp: sid_chain_ok_def algebra_simps)
    qed
  qed (simp add: sid_chain_ok_def)
  then show "sid_chain_ok x ns \<Longrightarrow> sid_chain_ok x ns'" and "of_nat (length ns') + k = of_nat (length ns)"
    and "n' \<in> set ns' \<Longrightarrow> \<exists>n \<in> set ns. \<exists>s1 s2. sid n' = sid n \<and> f (sid n) (con n) s1 = (None, con n', s2)"
    by blast+
qed

lemma remove_chains_ok:
  assumes "sid_remove_chains f t st = (t', k, st')"
  shows "length t' = length t" and "of_nat (length (concat t')) + k = of_nat (length (concat t))"
    and "\<forall>j < length t. (sid_chain_ok (x j) (t ! j) \<longrightarrow> sid_chain_ok (x j) (t' ! j)) \<and>
      (\<forall>n' \<in> set (t' ! j). \<exists>n \<in> set (t ! j). \<exists>s1 s2. sid n' = sid n \<and> f (sid n) (con n) s1 = (None, con n', s2))"
proof -
  have "length t' = length t \<and> of_nat (length (concat t')) + k = of_nat (length (concat t)) \<and>
    (\<forall>j < length t. (sid_chain_ok (x j) (t ! j) \<longrightarrow> sid_chain_ok (x j) (t' ! j)) \<and>
      (\<forall>n' \<in> set (t' ! j). \<exists>n \<in> set (t ! j). \<exists>s1 s2. sid n' = sid n \<and> f (sid n) (con n) s1 = (None, con n', s2)))"
    using assms
  proof (induction t arbitrary: st t' k x st')
    case (Cons ch t)
    obtain ch1 k1 s1 where c: "sid_remove_chain f ch st = (ch1, k1, s1)" by (metis prod.exhaust)
    obtain t1 k2 s2 where t: "sid_remove_chains f t s1 = (t1, k2, s2)" by (metis prod.exhaust)
    have e: "t' = ch1 # t1" "k = k1 + k2" using Cons.prems c t by auto
    note one = remove_chain_ok[OF c] and ih = Cons.IH[OF t, of "\<lambda>j. x (Suc j)"]
    have "of_nat (length ch1 + length (concat t1)) + (k1 + k2) =
        (of_nat (length ch1) + k1) + (of_nat (length (concat t1)) + k2)" by (simp add: algebra_simps)
    then have "of_nat (length (concat t')) + k = of_nat (length (concat (ch # t)))"
      using one(2) ih e by (simp del: length_concat)
    then show ?case using one(1,3) ih e by (auto simp: All_less_Suc2 simp del: length_concat)
  qed simp
  then show "length t' = length t" and "of_nat (length (concat t')) + k = of_nat (length (concat t))"
    and "\<forall>j < length t. (sid_chain_ok (x j) (t ! j) \<longrightarrow> sid_chain_ok (x j) (t' ! j)) \<and>
      (\<forall>n' \<in> set (t' ! j). \<exists>n \<in> set (t ! j). \<exists>s1 s2. sid n' = sid n \<and> f (sid n) (con n) s1 = (None, con n', s2))"
    by blast+
qed

text \<open>Every context of the cleaned table is a converted one of the table before.\<close>

lemma map_remove_ok:
  assumes wf: "wf_sidtab s" and r: "sepol_sidtab_map_remove_on_error f s st = (s', st')"
  shows "wf_sidtab s'" and "shutdown s' = shutdown s"
    and "sid_map s' i = Some c' \<Longrightarrow> \<exists>c s1 s2. sid_map s i = Some c \<and> f i c s1 = (None, c', s2)"
proof -
  obtain t where t: "sid_htable s = Some t" and ok: "sid_chains_ok t"
    and nel: "sid_nel s = of_nat (length (concat t))"
    and bnd: "\<forall>n \<in> set (concat t). 0 < sid n \<and> sid n < next_sid s" and pos: "0 < next_sid s"
    using wf by (auto simp: wf_sidtab_def)
  obtain t' k st1 where rc: "sid_remove_chains f t st = (t', k, st1)" by (metis prod.exhaust)
  have s': "s' = s\<lparr>sid_htable := Some t', sid_nel := sid_nel s - k\<rparr>"
    using r rc by (simp add: sepol_sidtab_map_remove_on_error_def t)
  note rok = remove_chains_ok[OF rc]
  have len: "length t' = length t" by (rule rok(1))
  have ch: "sid_chain_ok j (t' ! j)" if "j < length t" for j
    using rok(3)[of "\<lambda>j. j"] ok that by (simp add: sid_chains_ok_def)
  have ok': "sid_chains_ok t'" using ok ch len by (simp add: sid_chains_ok_def)
  have from_t: "\<exists>n \<in> set (concat t). \<exists>s1 s2. sid n' = sid n \<and> f (sid n) (con n) s1 = (None, con n', s2)"
    if n': "n' \<in> set (concat t')" for n'
  proof -
    obtain c where "c \<in> set t'" "n' \<in> set c" using n' by auto
    then obtain j where j: "j < length t" "n' \<in> set (t' ! j)" using len by (metis in_set_conv_nth)
    then obtain n s1 s2 where "n \<in> set (t ! j)" "sid n' = sid n" "f (sid n) (con n) s1 = (None, con n', s2)"
      using rok(3)[of "\<lambda>j. j"] by blast
    moreover have "n \<in> set (concat t)" using \<open>n \<in> set (t ! j)\<close> j(1) nth_mem[of j t] by auto
    ultimately show ?thesis by blast
  qed
  have nel': "sid_nel s - k = of_nat (length (concat t'))"
    unfolding nel rok(2)[symmetric] by simp
  have bnd': "\<forall>n \<in> set (concat t'). 0 < sid n \<and> sid n < next_sid s"
    using from_t bnd by (metis (no_types))
  show wf': "wf_sidtab s'"
    unfolding wf_sidtab_def using ok' nel' bnd' pos
    by (intro exI[of _ t']) (simp add: s' del: set_concat length_concat)
  show "shutdown s' = shutdown s" by (simp add: s')
  have t's: "sid_htable s' = Some t'" by (simp add: s')
  assume "sid_map s' i = Some c'"
  then have "\<lparr>sid = i, con = c'\<rparr> \<in> set (concat t')" using sid_map_Some[OF wf' t's] by blast
  from from_t[OF this] obtain n s1 s2 where n: "n \<in> set (concat t)" "i = sid n" "f (sid n) (con n) s1 = (None, c', s2)"
    by auto
  have "\<lparr>sid = i, con = con n\<rparr> = n" using n(2) by (cases n) simp
  then have "sid_map s i = Some (con n)" using n(1) sid_map_Some[OF wf t, of i "con n"] by simp
  then show "\<exists>c s1 s2. sid_map s i = Some c \<and> f i c s1 = (None, c', s2)" using n by blast
qed

lemma converted_valid: "converted m oldp newp c = Inr (c', m') \<Longrightarrow> context_is_valid newp c'"
  by (auto simp: converted_def rbind_eq_Inr selinux_enforcing_def split: sum.splits if_splits)

lemma convert_context_None:
  "convert_context oldp newp i c st = (None, c', st') \<Longrightarrow> converted (fst st) oldp newp c = Inr (c', fst st')"
  by (auto simp: convert_context_def split: sum.splits prod.splits if_splits errcode.splits)

lemma install_policy_ok:
  assumes wf: "wf_sidtab (stab sv)" and m: "0 < m"
    and l: "install_policy m newp sv = (None, sv')"
  shows "pdb sv' = newp" and "wf_sidtab (stab sv')" and "\<not> shutdown (stab sv')"
    and "sid_map (stab sv') i = Some c' \<Longrightarrow> context_is_valid newp c' \<and>
      (\<exists>c m1 m2. sid_map (stab sv) i = Some c \<and> converted m1 (pdb sv) newp c = Inr (c', m2))"
proof -
  obtain k where k: "m = Suc k" using m by (cases m) auto
  obtain s0 where i0: "sepol_sidtab_init m = Inr (s0, k)" by (simp add: sepol_sidtab_init_def k)
  then have s0: "wf_sidtab s0" "sid_map s0 = Map.empty" using sidtab_init_ok by blast+
  let ?old = "sepol_sidtab_shutdown (stab sv)"
  obtain t where t: "sid_htable (stab sv) = Some t"
    and bnd: "\<forall>n \<in> set (concat t). 0 < sid n \<and> sid n < next_sid (stab sv)"
    using wf by (auto simp: wf_sidtab_def)
  have told: "sid_htable ?old = Some t" by (simp add: sepol_sidtab_shutdown_def t)
  obtain q old' s1 m1 where cl: "sepol_sidtab_map clone_sid ?old (s0, k) = (q, old', (s1, m1))" by (metis prod.exhaust)
  obtain s2 m2 ub where rm: "sepol_sidtab_map_remove_on_error (convert_context (pdb sv) newp) s1 (m1, False) = (s2, (m2, ub))"
    by (metis prod.exhaust)
  have q: "q = None" and sv': "sv' = sv\<lparr>pdb := newp, stab := sepol_sidtab_set old' s2\<rparr>"
    using l by (auto simp: install_policy_def i0 sidtab_or_null_def cl rm Let_def split: if_splits option.splits)
  obtain t' where ch: "sid_map_chains clone_sid t (s0, k) = (None, t', (s1, m1))"
    using cl q by (auto simp: sepol_sidtab_map_def told split: prod.splits)
  have nm1: "\<forall>n \<in> set (concat t). 0 < sid n \<and> sid n \<noteq> - 1"
    using bnd by (metis max_word_max not_le)
  have wf1: "wf_sidtab s1" and s1: "sid_map s1 i = Some c \<longleftrightarrow> \<lparr>sid = i, con = c\<rparr> \<in> set (concat t)" for i c
    using clone_chains[OF ch s0(1) nm1] by (simp_all add: s0(2) del: set_concat)
  note ro = map_remove_ok[OF wf1 rm]
  have sm: "sid_map (stab sv') = sid_map s2" by (simp add: sv' sepol_sidtab_set_def sid_map_def fun_eq_iff)
  show "pdb sv' = newp" "\<not> shutdown (stab sv')" by (simp_all add: sv' sepol_sidtab_set_def)
  show "wf_sidtab (stab sv')" using ro(1) by (simp add: sv' sepol_sidtab_set_def wf_sidtab_def)
  assume "sid_map (stab sv') i = Some c'"
  then obtain c a b where c: "sid_map s1 i = Some c" "convert_context (pdb sv) newp i c a = (None, c', b)"
    using ro(3)[of i c'] by (auto simp: sm)
  then have "sid_map (stab sv) i = Some c" using s1 sid_map_Some[OF wf t, of i c] by simp
  moreover have "converted (fst a) (pdb sv) newp c = Inr (c', fst b)" using c(2) by (rule convert_context_None)
  ultimately show "context_is_valid newp c' \<and>
      (\<exists>c m1 m2. sid_map (stab sv) i = Some c \<and> converted m1 (pdb sv) newp c = Inr (c', m2))"
    using converted_valid by blast
qed

text \<open>
  A load that runs out of memory leaves the old policy active but its table of SIDs shut down:
  from then on a context without a SID gets none.
\<close>

lemma map_chain_htable:
  "sepol_sidtab_map f s st = (r, s', st') \<Longrightarrow> shutdown s' = shutdown s \<and> next_sid s' = next_sid s"
  by (auto simp: sepol_sidtab_map_def split: option.splits prod.splits)

lemma install_policy_shutdown:
  assumes "install_policy m newp sv = (Some ENOMEM, sv')"
  shows "pdb sv' = pdb sv" and "shutdown (stab sv')"
    and "wf_sidtab (stab sv') \<Longrightarrow> \<nexists>i. sid_map (stab sv') i = Some c \<Longrightarrow>
      sepol_sidtab_context_to_sid m2 (stab sv') c = Inl ENOMEM"
proof -
  have "pdb sv' = pdb sv \<and> shutdown (stab sv')"
    using assms map_chain_htable[of clone_sid "sepol_sidtab_shutdown (stab sv)"]
    by (fastforce simp: install_policy_def Let_def sepol_sidtab_shutdown_def
        split: prod.splits option.splits if_splits)
  then show "pdb sv' = pdb sv" and sh: "shutdown (stab sv')" by blast+
  show "wf_sidtab (stab sv') \<Longrightarrow> \<nexists>i. sid_map (stab sv') i = Some c \<Longrightarrow>
      sepol_sidtab_context_to_sid m2 (stab sv') c = Inl ENOMEM"
    using sh by (simp add: context_to_sid_cases(2))
qed

end
