(* ===== verification/Example_Policy.thy ===== *)
theory Example_Policy
  imports Services_Props
begin

text \<open>
  A small MLS policy on which the witnesses of the properties are evaluated: two types, one of
  them bounded by the other, a role beside \<^verbatim>\<open>object_r\<close>, one user, one sensitivity with three
  categories, two booleans with a conditional rule, and a few object contexts. Its tables have one slot, so
  that a chain can be written down without computing hashes.
\<close>

definition bits64 :: "u64 \<Rightarrow> ebitmap" where
  "bits64 w = (if w = 0 then ebitmap_init else \<lparr>node = [\<lparr>startbit = 0, nmap = w\<rparr>], highbit = 64\<rparr>)"

definition one_slot :: "u32 \<Rightarrow> (string \<times> 'd) list \<Rightarrow> 'd symtab" where
  "one_slot n xs = \<lparr>table = Some \<lparr>htable = [xs], hsize = 1, nel = of_nat (length xs)\<rparr>, nprim = n\<rparr>"

definition one_chain :: "avtab_node list \<Rightarrow> avtab" where
  "one_chain ns = \<lparr>avtable = Some [ns], avnel = of_nat (length ns), nslot = 1, avmask = 0\<rparr>"

definition demo_rule :: "u16 \<Rightarrow> u16 \<Rightarrow> u16 \<Rightarrow> u16 \<Rightarrow> u32 \<Rightarrow> nat \<Rightarrow> avtab_node" where
  "demo_rule s t c spec d a =
     \<lparr>key = \<lparr>source_type = s, target_type = t, target_class = c, specified = spec\<rparr>,
      datum = \<lparr>data = d, xperms = None\<rparr>, addr = a\<rparr>"

definition demo_level :: "u64 \<Rightarrow> mls_level" where
  "demo_level w = \<lparr>sens = 1, cat = bits64 w\<rparr>"

definition demo_range :: "u64 \<Rightarrow> u64 \<Rightarrow> mls_range" where
  "demo_range l h = \<lparr>low = demo_level l, high = demo_level h\<rparr>"

definition demo_user :: user_datum where
  "demo_user =
     \<lparr>user_value = 1, user_roles = \<lparr>rs_roles = bits64 2, rs_flags = 0\<rparr>,
      user_range = \<lparr>slow = \<lparr>ssens = 1, scat = []\<rparr>, shigh = \<lparr>ssens = 1, scat = []\<rparr>\<rparr>,
      dfltlevel = \<lparr>ssens = 1, scat = []\<rparr>, user_cache = bits64 2, exp_range = demo_range 0 7,
      exp_dfltlevel = demo_level 0, user_bounds = 0\<rparr>"

definition demo_role :: "u32 \<Rightarrow> u64 \<Rightarrow> role_datum" where
  "demo_role v w =
     \<lparr>role_value = v, dominates = bits64 (push_bit (unat (v - 1)) 1),
      role_types = \<lparr>ts_types = bits64 w, negset = ebitmap_init, ts_flags = 0\<rparr>,
      role_cache = bits64 w, role_bounds = 0, role_flavor = 0, role_roles = ebitmap_init\<rparr>"

definition demo_type :: "u32 \<Rightarrow> u32 \<Rightarrow> type_datum" where
  "demo_type v b =
     \<lparr>type_value = v, primary = 1, type_flavor = 0, type_types = ebitmap_init, type_flags = 0, bounds = b\<rparr>"

text \<open>\<^verbatim>\<open>constrain process { signal } (u1 == u2)\<close>, \<^verbatim>\<open>mlsvalidatetrans process (l1 dom l2)\<close>.\<close>

definition demo_leaf :: "u32 \<Rightarrow> u32 \<Rightarrow> constraint_expr" where
  "demo_leaf a o' =
     \<lparr>cexpr_type = CEXPR_ATTR, attr = a, cop = o', names = ebitmap_init, type_names = Some type_set_init\<rparr>"

definition demo_class :: class_datum where
  "demo_class =
     \<lparr>class_value = 1, comkey = None, comdatum = None,
      class_permissions = one_slot 5 [(''fork'', \<lparr>perm_value = 3\<rparr>), (''ptrace'', \<lparr>perm_value = 4\<rparr>),
        (''share'', \<lparr>perm_value = 5\<rparr>), (''signal'', \<lparr>perm_value = 2\<rparr>), (''transition'', \<lparr>perm_value = 1\<rparr>)],
      constraints = [\<lparr>permissions = 2, cexpr = [demo_leaf CEXPR_USER CEXPR_EQ]\<rparr>],
      validatetrans = [\<lparr>permissions = 0, cexpr = [demo_leaf CEXPR_L1L2 CEXPR_DOM]\<rparr>],
      default_user = 0, default_role = 0, default_type = 0, default_range = 0\<rparr>"

definition demo_bool :: "u32 \<Rightarrow> int \<Rightarrow> cond_bool_datum" where
  "demo_bool v s = \<lparr>bool_value = v, bool_state = s, bool_flags = 0\<rparr>"

definition demo_context :: "u32 \<Rightarrow> u32 \<Rightarrow> context_struct" where
  "demo_context r t = \<lparr>user = 1, role = r, type = t, range = demo_range 0 0\<rparr>"

definition demo_port :: "u16 \<Rightarrow> u16 \<Rightarrow> u32 \<Rightarrow> ocontext" where
  "demo_port lo hi t =
     \<lparr>ou = OPort 6 lo hi, ov = 0, context0 = demo_context 1 t, context1 = context_init,
      sid0 = 0, sid1 = 0\<rparr>"

definition demo_path :: "string \<Rightarrow> u32 \<Rightarrow> ocontext" where
  "demo_path s t =
     \<lparr>ou = OName s, ov = 0, context0 = demo_context 1 t, context1 = context_init,
      sid0 = 0, sid1 = 0\<rparr>"

text \<open>\<^verbatim>\<open>if (b1 && !b2) { allow ... } else { allow ... }\<close> with the rules at the addresses 11 and 12.\<close>

definition demo_cond :: cond_node where
  "demo_cond =
     \<lparr>cur_state = 0,
      expr = [\<lparr>expr_type = COND_BOOL, boolean = 1\<rparr>, \<lparr>expr_type = COND_BOOL, boolean = 2\<rparr>,
              \<lparr>expr_type = COND_NOT, boolean = 0\<rparr>, \<lparr>expr_type = COND_AND, boolean = 0\<rparr>],
      true_list = [11], false_list = [12], nbools = 0, bool_ids = [0, 0, 0, 0, 0],
      expr_pre_comp = 0, cond_flags = 0, avtrue_list = [], avfalse_list = []\<rparr>"

definition demo :: policydb where
  "demo =
     \<lparr>policy_type = 0, pol_name = None, pol_version = None, target_platform = 0, unsupported_format = 0, mls = True,
      p_commons = one_slot 0 [],
      p_classes = one_slot 1 [(''process'', demo_class)],
      p_roles = one_slot 2 [(''object_r'', demo_role 1 0), (''staff_r'', demo_role 2 3)],
      p_types = one_slot 2 [(''app_t'', demo_type 2 1), (''user_t'', demo_type 1 0)],
      p_users = one_slot 1 [(''staff_u'', demo_user)],
      p_bools = one_slot 2 [(''b1'', demo_bool 1 1), (''b2'', demo_bool 2 0)],
      p_levels = one_slot 1 [(''s0'', \<lparr>lev = demo_level 7, lev_isalias = 0, notdefined = 0\<rparr>)],
      p_cats = one_slot 3 [(''c0'', \<lparr>cat_value = 1, cat_isalias = 0\<rparr>), (''c1'', \<lparr>cat_value = 2, cat_isalias = 0\<rparr>),
        (''c2'', \<lparr>cat_value = 3, cat_isalias = 0\<rparr>)],
      p_common_val_to_name = [],
      p_class_val_to_name = [Some ''process''],
      p_role_val_to_name = [Some ''object_r'', Some ''staff_r''],
      p_type_val_to_name = [Some ''user_t'', Some ''app_t''],
      p_user_val_to_name = [Some ''staff_u''],
      p_bool_val_to_name = [Some ''b1'', Some ''b2''],
      p_sens_val_to_name = [Some ''s0''],
      p_cat_val_to_name = [Some ''c0'', Some ''c1'', Some ''c2''],
      class_val_to_struct = [Some demo_class],
      role_val_to_struct = [Some (demo_role 1 0), Some (demo_role 2 3)],
      user_val_to_struct = [Some demo_user],
      type_val_to_struct = [Some (demo_type 1 0), Some (demo_type 2 1)],
      bool_val_to_struct = [Some (demo_bool 1 1), Some (demo_bool 2 0)],
      sym_scope = replicate 8 (one_slot 0 []), global_blocks = [], decl_val_to_struct = [],
      te_avtab = one_chain [demo_rule 1 1 1 AVTAB_ALLOWED 3 1, demo_rule 2 1 1 AVTAB_ALLOWED 6 2],
      te_cond_avtab = one_chain [demo_rule 1 1 1 AVTAB_ALLOWED 8 11, demo_rule 2 1 1 AVTAB_ALLOWED 16 12],
      cond_list = [demo_cond],
      role_tr = [\<lparr>rt_role = 2, rt_type = 2, rt_tclass = 1, new_role = 2\<rparr>],
      role_allows = [],
      ocon_isid = [], ocon_fs = [], ocon_port = [demo_port 80 80 2, demo_port 1 1023 1], ocon_netif = [], ocon_node = [],
      ocon_fsuse = [], ocon_node6 = [], ocon_ibpkey = [], ocon_ibendport = [],
      genfs_list = [\<lparr>fstype = ''proc'', gen_head = [demo_path ''/net/tcp'' 2, demo_path ''/net'' 1, demo_path ''/'' 1]\<rparr>],
      range_tr = None, filename_trans = None, filename_trans_count = 0,
      type_attr_map = [bits64 1, bits64 2], attr_type_map = [bits64 1, bits64 2],
      policycaps = ebitmap_init, permissive_map = ebitmap_init, policyvers = 31, handle_unknown = 0,
      process_class = 1, dir_class = 0, process_trans = 1, process_trans_dyntrans = 1\<rparr>"

text \<open>A SID table that holds the contexts \<open>cs\<close> from the SID \<open>i\<close> on, below 128.\<close>

definition demo_sids :: "context_struct list \<Rightarrow> sidtab" where
  "demo_sids cs =
     \<lparr>sid_htable = Some ([[]] @ map (\<lambda>k. [\<lparr>sid = of_nat (Suc k), con = cs ! k\<rparr>]) [0..<length cs] @
        replicate (127 - length cs) []),
      sid_nel = of_nat (length cs), next_sid = of_nat (length cs) + 1, shutdown = False\<rparr>"

definition demo_server :: server where
  "demo_server =
     \<lparr>pdb = demo, stab = demo_sids [demo_context 2 1, demo_context 2 2, demo_context 1 1]\<rparr>"

text \<open>The evaluation of the rule tables, which have one slot whatever the hash.\<close>

lemma search_one: "avtab_search_node (one_chain ns) k = scan_chain k (rule_kind (specified k)) ns"
  by (simp add: avtab_search_node_def one_chain_def avtab_hash_def Let_def)

lemma demo_tables:
  "te_avtab demo = one_chain [demo_rule 1 1 1 AVTAB_ALLOWED 3 1, demo_rule 2 1 1 AVTAB_ALLOWED 6 2]"
  "te_cond_avtab demo = one_chain [demo_rule 1 1 1 AVTAB_ALLOWED 8 11, demo_rule 2 1 1 AVTAB_ALLOWED 16 12]"
  by (simp_all add: demo_def)

lemma demo_visit:
  "avtab_visit (te_avtab demo) (av_key 1 0 0) = [demo_rule 1 1 1 AVTAB_ALLOWED 3 1]"
  "avtab_visit (te_avtab demo) (av_key 1 1 0) = [demo_rule 2 1 1 AVTAB_ALLOWED 6 2]"
  "avtab_visit (te_cond_avtab demo) (av_key 1 0 0) = [demo_rule 1 1 1 AVTAB_ALLOWED 8 11]"
  "avtab_visit (te_cond_avtab demo) (av_key 1 1 0) = [demo_rule 2 1 1 AVTAB_ALLOWED 16 12]"
  by (simp_all add: avtab_visit_def avtab_search_node_next_def search_one demo_tables av_key_def
      rule_kind_def same_triple_def key_before_def demo_rule_def)

lemma wf_bits64 [simp]: "wf_ebitmap (bits64 w)"
  by (simp add: bits64_def ebitmap_init_def wf_ebitmap_def wf_nodes_def node_ok_def nodes_end_def aligned_def
      blkoff_def blkstart_def)

lemma in_bits64: "i \<in> ebits (bits64 w) \<longleftrightarrow> unat i < 64 \<and> bit w (unat i)"
proof -
  have "blkstart i = 0 \<longleftrightarrow> unat i < 64"
    by (simp add: word_unat_eq_iff unat_blkstart) linarith
  then show ?thesis
    by (auto simp: bits64_def ebits_def in_nbits ebitmap_init_def blkoff_eq_mod)
qed

text \<open>Evaluation of the positions of a bitmap with one block at the start.\<close>

function bits_from :: "int \<Rightarrow> nat \<Rightarrow> nat list" where
  "bits_from k i = (if k \<le> 0 then [] else if odd k then i # bits_from (k div 2) (Suc i) else bits_from (k div 2) (Suc i))"
  by pat_completeness auto
termination by (relation "measure (\<lambda>(k, i). nat k)") auto

declare bits_from.simps [simp del]

lemma bits_from_set: "0 \<le> k \<Longrightarrow> set (bits_from k i) = {j. i \<le> j \<and> bit k (j - i)}"
proof (induction k i rule: bits_from.induct)
  case (1 k i)
  have step: "{j. i \<le> j \<and> bit k (j - i)} = (if odd k then {i} else {}) \<union> {j. Suc i \<le> j \<and> bit (k div 2) (j - Suc i)}"
  proof -
    have "bit k (j - i) \<longleftrightarrow> bit (k div 2) (j - Suc i)" if "i < j" for j
      using that by (simp add: bit_Suc[symmetric] Suc_diff_Suc)
    moreover have "bit k (j - i) \<longleftrightarrow> odd k" if "j = i" for j using that by (simp add: bit_0)
    ultimately show ?thesis by (auto simp: Suc_le_eq le_less)
  qed
  show ?case
  proof (cases "k = 0")
    case False
    then have "0 < k" using 1 by simp
    then show ?thesis
      using 1(1,2) unfolding step by (subst bits_from.simps) auto
  qed (simp add: bits_from.simps)
qed

lemma bits_from_sorted: "sorted_wrt (<) (bits_from k i) \<and> (\<forall>j \<in> set (bits_from k i). i \<le> j)"
proof (induction k i rule: bits_from.induct)
  case (1 k i)
  show ?case
  proof (cases "k \<le> 0")
    case False
    then show ?thesis using 1 by (subst (1 2) bits_from.simps) (auto simp: Suc_le_eq less_imp_le)
  qed (simp add: bits_from.simps)
qed

lemma positive_bits_bits64: "ebitmap_positive_bits (bits64 w) = map of_nat (bits_from (uint w) 0)"
proof (rule sorted_distinct_set_unique)
  note s = ebitmap_positive_bits_spec[OF wf_bits64[of w]]
  show "sorted (ebitmap_positive_bits (bits64 w))" "distinct (ebitmap_positive_bits (bits64 w))"
    using s(2) by (simp_all add: strict_sorted_iff)
  have set: "set (bits_from (uint w) 0) = {j. bit w j}" by (auto simp: bits_from_set bit_uint_iff dest: bit_imp_le_length)
  then have small: "j \<in> set (bits_from (uint w) 0) \<Longrightarrow> j < 64" for j using bit_imp_le_length[of w j] by auto
  have less: "of_nat x < (of_nat y :: u32)" if "x < y" "y < 64" for x y
    using that by (simp add: word_less_nat_alt unat_of_nat)
  have "sorted_wrt (<) (map of_nat (bits_from (uint w) 0) :: u32 list)"
    unfolding sorted_wrt_map
    by (rule sorted_wrt_mono_rel[OF _ conjunct1[OF bits_from_sorted]]) (rule less, assumption, erule small)
  then show "sorted (map of_nat (bits_from (uint w) 0) :: u32 list)" "distinct (map of_nat (bits_from (uint w) 0) :: u32 list)"
    by (simp_all only: strict_sorted_iff)
  show "set (ebitmap_positive_bits (bits64 w)) = set (map of_nat (bits_from (uint w) 0))"
  proof -
    have "(x \<in> ebits (bits64 w)) = (\<exists>j. bit w j \<and> x = of_nat j)" for x
    proof
      assume "x \<in> ebits (bits64 w)"
      then have "bit w (unat x)" "x = of_nat (unat x)" by (simp_all add: in_bits64)
      then show "\<exists>j. bit w j \<and> x = of_nat j" by blast
    next
      assume "\<exists>j. bit w j \<and> x = of_nat j"
      then obtain j where j: "bit w j" "x = of_nat j" by blast
      then have "j < 64" using bit_imp_le_length[of w j] by auto
      then show "x \<in> ebits (bits64 w)" using j by (simp add: in_bits64 unat_of_nat)
    qed
    then show ?thesis unfolding s(1) list.set_map set by blast
  qed
qed

definition small_block :: "ebitmap \<Rightarrow> u64 option" where
  "small_block e =
     (case node e of
        [n] \<Rightarrow> if startbit n = 0 \<and> highbit e = 64 \<and> nmap n \<noteq> 0 then Some (nmap n) else None
      | _ \<Rightarrow> None)"

lemma positive_bits_code [code]:
  "ebitmap_positive_bits e =
     (case small_block e of
        Some w \<Rightarrow> map of_nat (bits_from (uint w) 0)
      | None \<Rightarrow> map snd (filter (\<lambda>(n, b). ebitmap_node_get_bit n b) (ebitmap_bits_visited e)))"
proof (cases "small_block e")
  case (Some w)
  then have "e = bits64 w" by (auto simp: small_block_def bits64_def split: list.splits if_splits)
  then show ?thesis using positive_bits_bits64[of w] Some by simp
qed (simp add: ebitmap_positive_bits_def)

lemma bits64_single:
  assumes "k < 64"
  shows "ebits (bits64 (2 ^ k)) = {of_nat k}"
proof -
  have k: "unat (of_nat k :: u32) = k" using assms by (simp add: unat_of_nat)
  have "i \<in> ebits (bits64 (2 ^ k)) \<longleftrightarrow> unat i = k" for i
    using assms by (auto simp: in_bits64 bit_exp_iff possible_bit_word)
  moreover have "unat i = k \<longleftrightarrow> i = of_nat k" for i :: u32
    using k by auto
  ultimately show ?thesis by blast
qed

lemma positive_bits_single:
  assumes "wf_ebitmap e" "ebits e = {b}"
  shows "ebitmap_positive_bits e = [b]"
proof -
  have s: "set (ebitmap_positive_bits e) = {b}" "sorted_wrt (<) (ebitmap_positive_bits e)"
    using ebitmap_positive_bits_spec[OF assms(1)] assms(2) by auto
  then show ?thesis
    by (cases "ebitmap_positive_bits e"; cases "tl (ebitmap_positive_bits e)") auto
qed

lemma demo_bits:
  "ebitmap_positive_bits (bits64 1) = [0]" "ebitmap_positive_bits (bits64 2) = [1]"
  using positive_bits_single[OF wf_bits64 bits64_single[of 0]] positive_bits_single[OF wf_bits64 bits64_single[of 1]]
  by simp_all

lemma demo_te:
  "te_decision demo 1 (bits64 1) (bits64 1) = av_init\<lparr>allowed := 3\<rparr>"
  "te_decision demo 1 (bits64 2) (bits64 1) = av_init\<lparr>allowed := 6\<rparr>"
  by (simp_all add: te_decision_def demo_bits te_pair_def cond_compute_av_def demo_visit[unfolded avtab_visit_def]
      demo_visit te_step_def cond_av_step_def av_init_def demo_rule_def)

lemma demo_valid: "context_is_valid demo (demo_context 2 1)" by code_simp

end
