(* ===== verification/Container_Properties.thy ===== *)
theory Container_Properties
  imports Ebitmap_IO Example_Policy
begin

text \<open>
  The properties of the containers: bitmaps, symbol tables and rule tables, each with a witness
  that applies it at a concrete input.
\<close>

section \<open>Bitmaps\<close>

text \<open>C18: a successful \<^verbatim>\<open>ebitmap_set_bit\<close> keeps the bitmap well formed (sorted, aligned, non-empty
  nodes, \<^verbatim>\<open>highbit\<close> the end of the last node) and changes exactly the bit it names: afterwards
  \<^verbatim>\<open>ebitmap_get_bit\<close> answers the new value at that bit and the old value everywhere else.\<close>

theorem set_bit_get_bit:
  assumes "wf_ebitmap e" and "ebitmap_set_bit m e b v = Inr (e', m')"
  shows "wf_ebitmap e' \<and> (\<forall>i. ebitmap_get_bit e' i = (if i = b then v else ebitmap_get_bit e i))"
  using ebitmap_set_bit_ok[OF assms] assms(1) by (auto simp: ebitmap_get_bit_iff)

theorem set_bit_get_bit_witness:
  "\<exists>e' m'. ebitmap_set_bit 1 (bits64 6) 130 True = Inr (e', m') \<and> wf_ebitmap e' \<and>
     ebitmap_get_bit e' 130 \<and> ebitmap_get_bit e' 2 \<and> \<not> ebitmap_get_bit e' 3"
proof -
  have s: "ebitmap_set_bit 1 (bits64 6) 130 True =
      Inr (\<lparr>node = [\<lparr>startbit = 0, nmap = 6\<rparr>, \<lparr>startbit = 128, nmap = 4\<rparr>], highbit = 192\<rparr>, 0)"
    by code_simp
  have "ebitmap_get_bit (bits64 6) 2 \<and> \<not> ebitmap_get_bit (bits64 6) 3" by code_simp
  then show ?thesis using set_bit_get_bit[OF wf_bits64 s] s by auto
qed

text \<open>Setting a bit fails only for two reasons. With memory for one node, every bit below the
  last block can be set or cleared; a bit of the last block, whose end does not fit into 32 bits,
  is refused with \<^verbatim>\<open>-EINVAL\<close> whatever the bitmap.\<close>

lemma set_bit_returns:
  "(0 < m \<and> unat b < 4294967232 \<longrightarrow> (\<exists>e' m'. ebitmap_set_bit m e b v = Inr (e', m'))) \<and>
   (4294967232 \<le> unat b \<longrightarrow> ebitmap_set_bit m e b v = Inl EINVAL)"
proof (intro conjI impI)
  assume a: "0 < m \<and> unat b < 4294967232"
  have "blkstart b + 64 \<noteq> 0"
  proof -
    have "unat (blkstart b) + 64 < 4294967296" using a by (simp add: unat_blkstart) linarith
    then have "unat (blkstart b + 64) = unat (blkstart b) + 64" by (simp add: unat_word_ariths)
    then show ?thesis by (metis add_is_0 unsigned_0 zero_neq_numeral)
  qed
  then show "\<exists>e' m'. ebitmap_set_bit m e b v = Inr (e', m')"
    using a ebitmap_set_bit_error[of m e b v] by (cases "ebitmap_set_bit m e b v") auto
qed (rule ebitmap_set_bit_EINVAL)

text \<open>C17: the node-merging loops of the bitmap operations implement the set operations: whenever
  they return a bitmap it is well formed and holds the union, the intersection, the symmetric
  difference, and for \<^verbatim>\<open>ebitmap_andnot\<close> the difference below the given bound.\<close>

theorem bitmap_operations:
  assumes "wf_ebitmap e1" and "wf_ebitmap e2"
  shows "(ebitmap_or m e1 e2 = Inr (e, m') \<longrightarrow> wf_ebitmap e \<and> ebits e = ebits e1 \<union> ebits e2) \<and>
    (ebitmap_and m e1 e2 = Inr (e, m') \<longrightarrow> wf_ebitmap e \<and> ebits e = ebits e1 \<inter> ebits e2) \<and>
    (ebitmap_xor m e1 e2 = Inr (e, m') \<longrightarrow>
       wf_ebitmap e \<and> ebits e = (ebits e1 - ebits e2) \<union> (ebits e2 - ebits e1)) \<and>
    (ebitmap_andnot m e1 e2 maxbit = Inr (e, m') \<and> unat maxbit \<le> 4294967232 \<longrightarrow>
       wf_ebitmap e \<and> ebits e = {b \<in> ebits e1. b < maxbit} - ebits e2)"
  using ebitmap_or_ok[OF assms, of m e m'] ebitmap_and_ok[OF assms, of m e m']
    ebitmap_xor_ok[OF assms, of m e m'] ebitmap_andnot_ok[OF assms, of maxbit m e m']
  by satx

theorem bitmap_operations_witness:
  "ebits (bits64 7) = ebits (bits64 3) \<union> ebits (bits64 6) \<and>
   ebits (bits64 2) = ebits (bits64 3) \<inter> ebits (bits64 6) \<and>
   ebits (bits64 5) = (ebits (bits64 3) - ebits (bits64 6)) \<union> (ebits (bits64 6) - ebits (bits64 3)) \<and>
   ebits (bits64 1) = {b \<in> ebits (bits64 3). b < 3} - ebits (bits64 6)"
proof -
  have "ebitmap_or 1 (bits64 3) (bits64 6) = Inr (bits64 7, 0)"
    "ebitmap_and 1 (bits64 3) (bits64 6) = Inr (bits64 2, 0)"
    "ebitmap_xor 1 (bits64 3) (bits64 6) = Inr (bits64 5, 0)"
    by code_simp+
  moreover have "ebitmap_andnot 2 (bits64 3) (bits64 6) 3 = Inr (bits64 1, 0)" by code_simp
  ultimately show ?thesis
    using bitmap_operations[of "bits64 3" "bits64 6" 1 _ 0 3] bitmap_operations[of "bits64 3" "bits64 6" 2 _ 0 3]
    by simp
qed

text \<open>C29: the comparison loops decide the relations of the sets, and the representation is
  canonical: two well-formed bitmaps with the same bits are the same structure, so comparing node
  by node is enough.\<close>

theorem bitmap_comparisons:
  assumes "wf_ebitmap e1" and "wf_ebitmap e2"
  shows "(ebitmap_cmp e1 e2 \<longleftrightarrow> ebits e1 = ebits e2) \<and> (ebits e1 = ebits e2 \<longrightarrow> e1 = e2) \<and>
    (ebitmap_contains e1 e2 \<longleftrightarrow> ebits e2 \<subseteq> ebits e1) \<and>
    (ebitmap_match_any e1 e2 \<longleftrightarrow> ebits e1 \<inter> ebits e2 \<noteq> {})"
  by (intro conjI impI ebitmap_cmp_iff ebits_inject ebitmap_contains_iff ebitmap_match_any_iff assms)

theorem bitmap_comparisons_witness:
  "ebits (bits64 6) \<subseteq> ebits (bits64 7) \<and> ebits (bits64 6) \<noteq> ebits (bits64 7) \<and>
   ebits (bits64 6) \<inter> ebits (bits64 9) = {}"
proof -
  have "ebitmap_contains (bits64 7) (bits64 6)" "\<not> ebitmap_cmp (bits64 6) (bits64 7)"
    "\<not> ebitmap_match_any (bits64 6) (bits64 9)"
    by code_simp+
  then show ?thesis
    using bitmap_comparisons[of "bits64 7" "bits64 6"] bitmap_comparisons[of "bits64 6" "bits64 7"]
      bitmap_comparisons[of "bits64 6" "bits64 9"]
    by simp
qed

text \<open>C30: \<^verbatim>\<open>ebitmap_not\<close> complements a bitmap below \<open>maxbit\<close> when the last block of the range
  ends inside 32 bits; above that bound its block counter wraps to 0 and the loop never ends
  before the memory does.\<close>

theorem bitmap_complement:
  assumes "wf_ebitmap e1"
  shows "(unat maxbit \<le> 4294967232 \<and> ebitmap_not m e1 maxbit = Inr (e, m') \<longrightarrow>
      wf_ebitmap e \<and> ebits e = {b. b < maxbit \<and> b \<notin> ebits e1}) \<and>
    (4294967232 < unat maxbit \<longrightarrow> ebitmap_not m e1 maxbit = Inl ENOMEM)"
  using assms ebitmap_not_ok ebitmap_not_endless by blast

theorem bitmap_complement_witness:
  "ebits (bits64 9) = {b. b < 4 \<and> b \<notin> ebits (bits64 6)} \<and> ebitmap_not 100 (bits64 6) (- 1) = Inl ENOMEM"
proof -
  have "ebitmap_not 1 (bits64 6) 4 = Inr (bits64 9, 0)" by code_simp
  then show ?thesis
    using bitmap_complement[of "bits64 6" 4 1 "bits64 9" 0] bitmap_complement[of "bits64 6" "- 1" 100]
    by (simp add: unsigned_minus_1_eq_mask mask_eq_exp_minus_1)
qed

text \<open>C19: writing a well-formed bitmap and reading the bytes back, with anything after them, gives
  the same bitmap and stops exactly at its end.\<close>

theorem bitmap_write_read:
  assumes "wf_ebitmap e" and "length (node e) \<le> m"
    and "ptype fp = PF_USE_MEMORY" and "length (ebitmap_bytes e) \<le> plen fp"
  shows "\<exists>bytes. ebitmap_write e fp =
      Inr (fp\<lparr>out := out fp @ bytes, plen := plen fp - length bytes\<rparr>) \<and>
    ebitmap_read m (mem_file (bytes @ rest)) = Inr (e, mem_file rest, m - length (node e))"
  using ebitmap_write_mem[OF assms(3,4)] ebitmap_roundtrip[OF assms(1,2)] by blast

theorem bitmap_write_read_witness:
  "\<exists>bytes. ebitmap_write (bits64 6) \<lparr>ptype = PF_USE_MEMORY, inp = [], out = [], plen = 24\<rparr> =
      Inr \<lparr>ptype = PF_USE_MEMORY, inp = [], out = bytes, plen = 24 - length bytes\<rparr> \<and>
    ebitmap_read 1 (mem_file (bytes @ [5])) = Inr (bits64 6, mem_file [5], 0)"
proof -
  have "length (ebitmap_bytes (bits64 6)) = 24" "length (node (bits64 6)) = 1" by code_simp+
  then show ?thesis
    using bitmap_write_read[of "bits64 6" 1 "\<lparr>ptype = PF_USE_MEMORY, inp = [], out = [], plen = 24\<rparr>" "[5]"]
    by simp
qed

text \<open>C20: whatever the bytes of a policy file, a bitmap that \<^verbatim>\<open>ebitmap_read\<close> accepts is well
  formed.\<close>

theorem bitmap_read_safe:
  assumes "ebitmap_read m fp = Inr (e, fp', m')"
  shows "wf_ebitmap e"
  using assms by (rule ebitmap_read_wf)

theorem bitmap_read_safe_witness:
  "wf_ebitmap (bits64 258)"
proof -
  have "ebitmap_read 1 (mem_file [64, 0, 0, 0, 64, 0, 0, 0, 1, 0, 0, 0, 0, 0, 0, 0, 2, 1, 0, 0, 0, 0, 0, 0]) =
    Inr (bits64 258, mem_file [], 0)"
    by code_simp
  then show ?thesis by (rule bitmap_read_safe)
qed

section \<open>Symbol tables\<close>

text \<open>C27: a symbol table is a finite map from strings. Inserting a new key adds exactly that
  entry, whether or not the table is resized on the way; inserting a present key is refused with
  \<^verbatim>\<open>SEPOL_EEXIST\<close> and no search changes; only memory or the size of the counter is another
  reason to fail. The chains stay sorted and in their slots (\<open>sym.wf\<close>).\<close>

theorem symtab_insert_search:
  assumes "sym.wf h" and "hashtab_insert symhash symcmp m (Some h) k d = (st, Some h', m')"
  shows "sym.wf h' \<and>
    (case st of
       None \<Rightarrow> sym_search (Some h) k = None \<and>
         (\<forall>k'. sym_search (Some h') k' = (if k' = k then Some d else sym_search (Some h) k'))
     | Some err \<Rightarrow> (\<forall>k'. sym_search (Some h') k' = sym_search (Some h) k') \<and>
         (err = EEXIST \<and> sym_search (Some h) k \<noteq> None \<or>
          err = ENOMEM \<and> (m' = 0 \<or> nel h = 0xFFFFFFFF)))"
  using sym.insert_cases[OF assms] assms(1) by (auto simp: sym.search_eq split: option.split)

lemma one_slot_wf:
  "strcmp a b < 0 \<Longrightarrow> sym.wf \<lparr>htable = [[(a, x), (b, y)]], hsize = 1, nel = 2\<rparr>"
  "sym.wf \<lparr>htable = [[(a, x)]], hsize = 1, nel = 1\<rparr>"
  using pow2_sizeI[of 0]
  by (simp_all add: sym.wf_def sym.slots_ok_def sym.chain_ok_def entries_def symhash_def symcmp_def)

theorem symtab_insert_search_witness:
  "\<exists>h'. hashtab_insert symhash symcmp 3 (table (one_slot 0 [(''c'', 5 :: nat)])) ''b'' 6 = (None, Some h', 1) \<and>
     length (htable h') = 2 \<and> sym_search (Some h') ''b'' = Some 6 \<and>
     sym_search (Some h') ''c'' = Some 5 \<and> sym_search (Some h') ''d'' = None"
proof -
  let ?h = "\<lparr>htable = [[(''c'', 5 :: nat)]], hsize = 1, nel = 1\<rparr>"
  let ?h' = "\<lparr>htable = [[(''c'', 5 :: nat)], [(''b'', 6)]], hsize = 2, nel = 2\<rparr>"
  have i: "hashtab_insert symhash symcmp 3 (Some ?h) ''b'' 6 = (None, Some ?h', 1)" by code_simp
  have t: "table (one_slot 0 [(''c'', 5 :: nat)]) = Some ?h" by code_simp
  have "sym_search (Some ?h) ''c'' = Some 5" "sym_search (Some ?h) ''d'' = None" by code_simp+
  then have "sym_search (Some ?h') ''b'' = Some 6 \<and> sym_search (Some ?h') ''c'' = Some 5 \<and>
      sym_search (Some ?h') ''d'' = None"
    using symtab_insert_search[OF one_slot_wf(2) i] by simp
  then show ?thesis using i t by simp
qed

text \<open>C28: removing a key from a symbol table returns its datum and leaves every other search
  unchanged; a failed removal means that the key is not there. \<^verbatim>\<open>hashtab_map\<close> visits each
  entry of the map exactly once.\<close>

theorem symtab_remove_map:
  assumes "sym.wf h"
  shows "(\<forall>k' d h'. hashtab_remove symhash symcmp (Some h) k = Inr ((k', d), Some h') \<longrightarrow>
      sym.wf h' \<and> k' = k \<and> sym_search (Some h) k = Some d \<and>
      (\<forall>j. sym_search (Some h') j = (if j = k then None else sym_search (Some h) j))) \<and>
    (\<forall>err. hashtab_remove symhash symcmp (Some h) k = Inl err \<longrightarrow>
      err = ENOENT \<and> sym_search (Some h) k = None) \<and>
    hashtab_map f (Some h) s = map_chain f (entries h) s \<and> distinct (map fst (entries h)) \<and>
    (\<forall>j d. (j, d) \<in> set (entries h) \<longleftrightarrow> sym_search (Some h) j = Some d)"
  using sym.remove_ok[OF assms, of k] sym.remove_error[OF assms, of k] sym.wf_entries[OF assms]
    sym.entries_distinct[OF assms] sym.map_visits[OF assms, of f s] assms
  by (auto simp: sym.search_eq)

theorem symtab_remove_map_witness:
  "hashtab_remove symhash symcmp (table (one_slot 0 [(''b'', 6 :: nat), (''c'', 5)])) ''b'' =
     Inr ((''b'', 6), Some \<lparr>htable = [[(''c'', 5)]], hsize = 1, nel = 1\<rparr>) \<and>
   sym_search (Some \<lparr>htable = [[(''c'', 5 :: nat)]], hsize = 1, nel = 1\<rparr>) ''b'' = None"
proof -
  let ?h = "\<lparr>htable = [[(''b'', 6 :: nat), (''c'', 5)]], hsize = 1, nel = 2\<rparr>"
  have t: "table (one_slot 0 [(''b'', 6 :: nat), (''c'', 5)]) = Some ?h" by code_simp
  have r: "hashtab_remove symhash symcmp (Some ?h) ''b'' =
      Inr ((''b'', 6), Some \<lparr>htable = [[(''c'', 5)]], hsize = 1, nel = 1\<rparr>)"
    by code_simp
  have w: "sym.wf ?h" by (rule one_slot_wf) simp
  show ?thesis using symtab_remove_map[OF w, of "''b''" "\<lambda>_ _ u. (0, u)" "()"] r by (simp add: t)
qed

section \<open>Rule tables\<close>

text \<open>C14: inserting a rule into a well-formed access vector table adds exactly one rule and keeps the
  table well formed. The new node has the key and the datum given: the data, and of a rule for
  extended permissions a copy of these (all zero if the caller passes none). A search for the key
  finds the new datum, also before older rules for the same extended permissions; a rule of another
  kind is inserted only if no rule of its kind answered the key before, so the table keeps at most
  one rule per key and kind.\<close>

theorem avtab_insert_search:
  assumes "wf_avtab h" and "avtab_insert m h k d = Inr (h', m')"
  shows "wf_avtab h' \<and>
    (\<exists>n. key n = k \<and> data (datum n) = data d \<and>
       (specified k AND AVTAB_XPERMS = 0 \<longrightarrow> xperms (datum n) = xperms d) \<and>
       (specified k AND AVTAB_XPERMS \<noteq> 0 \<longrightarrow> xperms (datum n) =
          Some (case xperms d of Some x \<Rightarrow> x | None \<Rightarrow> \<lparr>xspecified = 0, driver = 0, perms = replicate 8 0\<rparr>)) \<and>
       mset (av_nodes h') = add_mset n (mset (av_nodes h)) \<and>
       (rule_kind (specified k) \<noteq> 0 \<longrightarrow> avtab_search h' k = Some (datum n))) \<and>
    (rule_kind (specified k) AND AVTAB_XPERMS = 0 \<longrightarrow> avtab_search h k = None) \<and>
    (one_sort k \<and> plain_unique (av_nodes h) \<longrightarrow> plain_unique (av_nodes h'))"
proof (intro conjI impI)
  show "wf_avtab h'" using avtab_insert_cases(1)[OF assms] .
  obtain n where n: "key n = k" "datum n = stored_datum k d" "mset (av_nodes h') = add_mset n (mset (av_nodes h))"
    using avtab_insert_cases(2)[OF assms] by blast
  then show "\<exists>n. key n = k \<and> data (datum n) = data d \<and>
      (specified k AND AVTAB_XPERMS = 0 \<longrightarrow> xperms (datum n) = xperms d) \<and>
      (specified k AND AVTAB_XPERMS \<noteq> 0 \<longrightarrow> xperms (datum n) =
         Some (case xperms d of Some x \<Rightarrow> x | None \<Rightarrow> \<lparr>xspecified = 0, driver = 0, perms = replicate 8 0\<rparr>)) \<and>
      mset (av_nodes h') = add_mset n (mset (av_nodes h)) \<and>
      (rule_kind (specified k) \<noteq> 0 \<longrightarrow> avtab_search h' k = Some (datum n))"
    using avtab_insert_cases(3)[OF assms] by (intro exI[of _ n]) (simp add: stored_datum_def)
  show "rule_kind (specified k) AND AVTAB_XPERMS = 0 \<Longrightarrow> avtab_search h k = None"
    by (rule avtab_insert_cases(4)[OF assms])
  show "one_sort k \<and> plain_unique (av_nodes h) \<Longrightarrow> plain_unique (av_nodes h')"
    using avtab_insert_unique[OF assms(1) _ _ assms(2)] by blast
qed

lemma empty_avtab: "wf_avtab \<lparr>avtable = Some [[], []], avnel = 0, nslot = 2, avmask = 1\<rparr>"
  by (auto simp: wf_avtab_def av_slots_ok_def less_Suc_eq intro!: exI[of _ 1])

lemma some_hash: "avtab_hash \<lparr>source_type = 1, target_type = 2, target_class = 3, specified = 1\<rparr> 1 = 1"
  by (simp add: avtab_hash_def mix_def)

lemma some_insert:
  "avtab_insert 2 \<lparr>avtable = Some [[], []], avnel = 0, nslot = 2, avmask = 1\<rparr>
      \<lparr>source_type = 1, target_type = 2, target_class = 3, specified = 1\<rparr> \<lparr>data = 7, xperms = None\<rparr> =
    Inr (\<lparr>avtable = Some [[], [demo_rule 1 2 3 1 7 0]], avnel = 1, nslot = 2, avmask = 1\<rparr>, 1)"
  by (simp add: avtab_insert_def some_hash avtab_insert_node_def new_datum_def malloc_def demo_rule_def next_addr_def Let_def)

text \<open>Two rules for the \<^verbatim>\<open>ioctl\<close> commands of one driver: the newer one is found first.\<close>

definition ioctl_key :: avtab_key where
  "ioctl_key = \<lparr>source_type = 1, target_type = 2, target_class = 3, specified = AVTAB_XPERMS_ALLOWED\<rparr>"

definition ioctl_datum :: "u32 \<Rightarrow> avtab_datum" where
  "ioctl_datum w = \<lparr>data = 0, xperms = Some \<lparr>xspecified = 1, driver = 7, perms = [w, 0, 0, 0, 0, 0, 0, 0]\<rparr>\<rparr>"

lemma ioctl_insert:
  "case avtab_insert 4 \<lparr>avtable = Some [[], []], avnel = 0, nslot = 2, avmask = 1\<rparr> ioctl_key (ioctl_datum 1) of
     Inr (h, m) \<Rightarrow> (case avtab_insert m h ioctl_key (ioctl_datum 2) of Inr _ \<Rightarrow> True | _ \<Rightarrow> False)
   | _ \<Rightarrow> False"
  by code_simp

theorem avtab_insert_search_witness:
  "\<exists>h m h' m'. avtab_insert 4 \<lparr>avtable = Some [[], []], avnel = 0, nslot = 2, avmask = 1\<rparr> ioctl_key (ioctl_datum 1) =
       Inr (h, m) \<and>
     avtab_insert m h ioctl_key (ioctl_datum 2) = Inr (h', m') \<and>
     avtab_search h ioctl_key = Some (ioctl_datum 1) \<and> avtab_search h' ioctl_key = Some (ioctl_datum 2)"
proof -
  obtain h m where 1: "avtab_insert 4 \<lparr>avtable = Some [[], []], avnel = 0, nslot = 2, avmask = 1\<rparr> ioctl_key (ioctl_datum 1) =
      Inr (h, m)"
    using ioctl_insert by (auto split: sum.splits)
  then obtain h' m' where 2: "avtab_insert m h ioctl_key (ioctl_datum 2) = Inr (h', m')"
    using ioctl_insert by (auto split: sum.splits)
  have k: "specified ioctl_key AND AVTAB_XPERMS \<noteq> 0" "rule_kind (specified ioctl_key) \<noteq> 0" by code_simp+
  have d: "datum n = ioctl_datum w" if "data (datum n) = data (ioctl_datum w)"
    "xperms (datum n) = Some (case xperms (ioctl_datum w) of Some x \<Rightarrow> x
       | None \<Rightarrow> \<lparr>xspecified = 0, driver = 0, perms = replicate 8 0\<rparr>)" for n w
    using that by (cases "datum n") (simp add: ioctl_datum_def)
  have "wf_avtab h" "avtab_search h ioctl_key = Some (ioctl_datum 1)"
    using avtab_insert_search[OF empty_avtab 1] k d by (blast, metis)
  moreover have "avtab_search h' ioctl_key = Some (ioctl_datum 2)"
    using avtab_insert_search[OF \<open>wf_avtab h\<close> 2] k d by metis
  ultimately show ?thesis using 1 2 by blast
qed

text \<open>C15: the loop over \<^verbatim>\<open>avtab_search_node\<close> and \<^verbatim>\<open>avtab_search_node_next\<close> visits exactly the
  rules that answer a key (same types and class, a kind in common), although it stops at the
  first node that sorts after the key; \<^verbatim>\<open>avtab_search\<close> is \<open>None\<close> exactly when there is none.\<close>

theorem avtab_walk_complete:
  assumes "wf_avtab h"
  shows "set (avtab_walk (specified k) (avtab_search_node h k)) =
      {n \<in> set (av_nodes h). same_triple k (key n) \<and> rule_kind (specified k) AND specified (key n) \<noteq> 0} \<and>
    (avtab_search h k = None \<longleftrightarrow> avtab_walk (specified k) (avtab_search_node h k) = [])"
  using avtab_walk_nodes[OF assms, of k] avtab_search_None[OF assms, of k]
  unfolding answers_def set_empty[symmetric] by auto

lemma demo_te_tables_wf: "wf_avtab (te_avtab demo)" "wf_avtab (te_cond_avtab demo)"
  by (auto simp: demo_tables wf_avtab_def one_chain_def av_slots_ok_def chain_sorted_def key_before_def
      demo_rule_def avtab_hash_def Let_def intro!: exI[of _ 0])

theorem avtab_walk_complete_witness:
  "{n \<in> set (av_nodes (te_avtab demo)). same_triple (av_key 1 1 0) (key n) \<and>
      rule_kind AVTAB_AV AND specified (key n) \<noteq> 0} = {demo_rule 2 1 1 AVTAB_ALLOWED 6 2}"
  using avtab_walk_complete[OF demo_te_tables_wf(1), of "av_key 1 1 0"] demo_visit(2)
  by (simp add: avtab_visit_def av_key_def)

text \<open>C16: a rule table that \<^verbatim>\<open>avtab_read\<close> accepts is well formed whatever the bytes: its chains
  are sorted, every rule is in the slot of its hash and the counter is the number of rules.\<close>

theorem avtab_read_safe:
  assumes "avtab_read m a fp vers = Inr (h, fp', m')"
  shows "wf_avtab h"
  using assms by (rule avtab_read_wf)

lemma some_item:
  "avtab_read_item (mem_file [1, 0, 2, 0, 3, 0, 1, 0, 7, 0, 0, 0]) 31 f s =
    rbind (f \<lparr>source_type = 1, target_type = 2, target_class = 3, specified = 1\<rparr> \<lparr>data = 7, xperms = None\<rparr> s)
      (\<lambda>s. Inr (mem_file [], s))"
proof -
  have "split_words 2 4 [1, 0, 2, 0, 3, 0, 1, 0] = [1, 2, 3, (1 :: u16)]" "popcount16 1 = 1" by code_simp+
  then show ?thesis
    by (simp add: avtab_read_item_def next_u16s_def next_u32_def next_entry_def mem_file_def le_to_cpu_def)
qed

lemma some_header:
  "next_u32 (mem_file [1, 0, 0, 0, 1, 0, 2, 0, 3, 0, 1, 0, 7, 0, 0, 0]) =
     Inr (1, mem_file [1, 0, 2, 0, 3, 0, 1, 0, 7, 0, 0, 0])"
  "\<not> zero_or_saturated (1 :: u32)"
  "\<not> exceeds_available_bytes (mem_file [1, 0, 2, 0, 3, 0, 1, 0, 7, 0, 0, 0]) (Suc 0) 12"
  by (simp_all add: next_u32_def next_entry_def mem_file_def le_to_cpu_def zero_or_saturated_def
      exceeds_available_bytes_def)

theorem avtab_read_safe_witness:
  "wf_avtab \<lparr>avtable = Some [[], [demo_rule 1 2 3 1 7 0]], avnel = 1, nslot = 2, avmask = 1\<rparr>"
proof (rule avtab_read_safe)
  have "avtab_slots 1 = 2" by code_simp
  moreover have "replicate 2 ([] :: avtab_node list) = [[], []]" by (simp add: numeral_2_eq_2)
  ultimately show "avtab_read 3 \<lparr>avtable = None, avnel = 0, nslot = 0, avmask = 0\<rparr>
      (mem_file [1, 0, 0, 0, 1, 0, 2, 0, 3, 0, 1, 0, 7, 0, 0, 0]) 31 =
    Inr (\<lparr>avtable = Some [[], [demo_rule 1 2 3 1 7 0]], avnel = 1, nslot = 2, avmask = 1\<rparr>, mem_file [], 1)"
    by (simp add: avtab_read_def some_header some_item avtab_alloc_def malloc_def avtab_insertf_def some_insert)
qed

end
