(* ===== verification/Access_Properties.thy ===== *)
theory Access_Properties
  imports Example_Policy
begin

text \<open>
  The properties of the access decision and of what it is made of: the conditional rules and the
  constraint expressions.
\<close>

section \<open>Access decisions\<close>

text \<open>C1: the access vector that \<^verbatim>\<open>context_struct_compute_av\<close> computes is the one the policy means.
  A permission is allowed exactly if a derivation of \<open>permits\<close> exists: some rule between an
  attribute of the source and one of the target allows it (or an enabled conditional rule), no
  violated constraint and no missing role allow removes it, and if the source type is bounded, the
  bounding contexts are permitted it too.\<close>

theorem access_vector_is_policy:
  assumes "wf_te p" and "context_struct_compute_av fuel p s t tclass requested = Some (Inr (avd, reason))"
  shows "bit (allowed avd) k \<longleftrightarrow> permits p s t tclass k"
  using assms by (rule compute_av_permits)

lemma demo_unbounded:
  "unbounded_av demo (demo_context 2 1) (demo_context 2 1) 1 6 = Inr (av_init\<lparr>allowed := 3\<rparr>, 2, 1)"
  "unbounded_av demo (demo_context 2 2) (demo_context 2 1) 1 7 = Inr (av_init\<lparr>allowed := 6\<rparr>, 6, 1)"
proof -
  have g: "constraint_granted demo (demo_context 2 1) (demo_context 2 1) None
      \<lparr>permissions = 2, cexpr = [demo_leaf CEXPR_USER CEXPR_EQ]\<rparr> = Inr True"
    "constraint_granted demo (demo_context 2 2) (demo_context 2 1) None
      \<lparr>permissions = 2, cexpr = [demo_leaf CEXPR_USER CEXPR_EQ]\<rparr> = Inr True"
    by code_simp+
  have f: "nprim (p_classes demo) = 1" "type_attr_map demo = [bits64 1, bits64 2]"
    "class_val_to_struct demo = [Some demo_class]" "constraints demo_class =
       [\<lparr>permissions = 2, cexpr = [demo_leaf CEXPR_USER CEXPR_EQ]\<rparr>]" "process_class demo = 1"
    by (simp_all add: demo_def demo_class_def one_slot_def)
  show "unbounded_av demo (demo_context 2 1) (demo_context 2 1) 1 6 = Inr (av_init\<lparr>allowed := 3\<rparr>, 2, 1)"
    "unbounded_av demo (demo_context 2 2) (demo_context 2 1) 1 7 = Inr (av_init\<lparr>allowed := 6\<rparr>, 6, 1)"
    using g by (simp_all add: unbounded_av_def f arr_def ptr_arr_def demo_context_def demo_te note_missing_def
        apply_role_allow_def av_init_def Let_def)
qed

lemma demo_bounding:
  "bounding_pair demo (demo_context 2 2) (demo_context 2 1) = Inr (Some (demo_context 2 1, demo_context 2 1))"
  "bounding_pair demo (demo_context 2 1) (demo_context 2 1) = Inr None"
  by code_simp+

lemma demo_av:
  "context_struct_compute_av (Suc (Suc 0)) demo (demo_context 2 2) (demo_context 2 1) 1 7 =
     Some (Inr (av_init\<lparr>allowed := 2\<rparr>, 9))"
  by (simp add: demo_unbounded demo_bounding mask_bounds_def)

lemma demo_wf_te: "wf_te demo"
  by (auto simp: wf_te_def demo_tables wf_avtab_def one_chain_def av_slots_ok_def chain_sorted_def
      key_before_def demo_rule_def avtab_hash_def Let_def demo_def intro!: exI[of _ 0])

theorem access_vector_is_policy_witness:
  "permits demo (demo_context 2 2) (demo_context 2 1) 1 1 \<and> \<not> permits demo (demo_context 2 2) (demo_context 2 1) 1 2"
proof -
  have "bit (allowed (av_init\<lparr>allowed := 2\<rparr>)) 1" "\<not> bit (allowed (av_init\<lparr>allowed := 2\<rparr>)) 2" by code_simp+
  then show ?thesis unfolding access_vector_is_policy[OF demo_wf_te demo_av] by blast
qed

text \<open>C10: the decision always returns when the type bounds form a hierarchy. With a rank that
  decreases from a type to its bound, any number of nested calls above the rank of the source type
  gives one and the same result.\<close>

theorem access_decision_returns:
  assumes "\<And>t. bound_of p t \<noteq> 0 \<Longrightarrow> rk (bound_of p t) < rk t"
  shows "\<exists>r. \<forall>fuel. rk (type s) < fuel \<longrightarrow> context_struct_compute_av fuel p s t tclass requested = Some r"
proof -
  obtain r where "context_struct_compute_av (Suc (rk (type s))) p s t tclass requested = Some r"
    using compute_av_returns[of p rk s "Suc (rk (type s))"] assms by blast
  then show ?thesis using compute_av_mono[of "Suc (rk (type s))"] by (metis Suc_leI)
qed

lemma demo_bound: "bound_of demo t = (if t = 2 then 1 else 0)"
proof -
  have "type_val_to_struct demo = [Some (demo_type 1 0), Some (demo_type 2 1)]" by (simp add: demo_def)
  moreover have "unat (t - 1) = 0 \<longleftrightarrow> t = 1" "unat (t - 1) = 1 \<longleftrightarrow> t = 2"
    using word_unat_eq_iff[of "t - 1" 0] word_unat_eq_iff[of "t - 1" 1] by (auto simp: diff_eq_eq)
  ultimately show ?thesis
    by (auto simp: bound_of_def ptr_arr_def demo_type_def less_2_cases_iff nth_Cons' split: option.splits)
qed

theorem access_decision_returns_witness:
  "\<exists>r. \<forall>fuel > 1. context_struct_compute_av fuel demo (demo_context 2 2) (demo_context 2 1) 1 7 = Some r"
  using access_decision_returns[of demo "\<lambda>t. if t = 2 then 1 else 0" "demo_context 2 2" "demo_context 2 1" 1 7]
  by (auto simp: demo_bound demo_context_def split: if_splits)

text \<open>The recursion along the bounds has no guard against cycles: when the source type bounds
  itself and the decision can be computed at all, no depth of nested calls is enough.\<close>

lemma access_decision_cycle:
  assumes "bound_of p (type s) = type s" and "bound_of p (type t) \<in> {0, type t}" and "type s \<noteq> 0"
    and "\<And>requested. \<exists>r. unbounded_av p s t tclass requested = Inr r"
    and "ptr_arr (type_val_to_struct p) (unat (type t - 1)) \<noteq> None"
  shows "context_struct_compute_av fuel p s t tclass requested = None"
  using assms by (rule compute_av_endless)

text \<open>C31: the reason names exactly the stages that refused something. With type bounds that form a
  hierarchy (C10) a class beyond the policy gives -EINVAL, and for a known class the only error is a
  null pointer of a corrupt policy (\<open>UNDEF\<close>). Otherwise bit 1 of the reason (\<^verbatim>\<open>SEPOL_COMPUTEAV_TE\<close>)
  is set iff a requested permission has no rule, bit 2 (\<^verbatim>\<open>_CONS\<close>) iff one with a rule fails a
  constraint, bit 4 (\<^verbatim>\<open>_RBAC\<close>) iff one that passes the constraints fails the role allow rules, and bit
  8 (\<^verbatim>\<open>_BOUNDS\<close>) iff a permission that the policy grants locally, requested or not, is lost to the
  type bounds. Without a reason everything requested is allowed.\<close>

theorem access_reason:
  assumes "wf_te p" and "\<And>b. bound_of p b \<noteq> 0 \<Longrightarrow> rk (bound_of p b) < rk b"
  shows "\<exists>r. (\<forall>fuel. rk (type s) < fuel \<longrightarrow> context_struct_compute_av fuel p s t tclass requested = Some r) \<and>
    (if \<not> class_ok p tclass then r = Inl EINVAL
     else case r of
       Inl err \<Rightarrow> err = UNDEF
     | Inr (avd, reason) \<Rightarrow>
         reason =
           (if \<exists>k. bit requested k \<and> \<not> te_permits p s t tclass k then 1 else 0) OR
           (if \<exists>k. bit requested k \<and> te_permits p s t tclass k \<and> \<not> constraints_permit p s t tclass k
            then 2 else 0) OR
           (if \<exists>k. bit requested k \<and> te_permits p s t tclass k \<and> constraints_permit p s t tclass k \<and>
                 \<not> roles_permit p s t tclass k then 4 else 0) OR
           (if \<exists>k. locally_permits p s t tclass k \<and> \<not> permits p s t tclass k then 8 else 0) \<and>
         (reason = 0 \<longrightarrow> requested AND NOT (allowed avd) = 0))"
proof -
  obtain r where r: "context_struct_compute_av (Suc (rk (type s))) p s t tclass requested = Some r"
    using compute_av_returns[of p rk s "Suc (rk (type s))"] assms(2) by blast
  have all: "\<forall>fuel. rk (type s) < fuel \<longrightarrow> context_struct_compute_av fuel p s t tclass requested = Some r"
    using compute_av_mono[OF r] by (metis Suc_leI)
  show ?thesis
  proof (cases "class_ok p tclass")
    case False
    then show ?thesis using all compute_av_bad_class[OF False, of "rk (type s)" s t requested] r by auto
  next
    case ok: True
    show ?thesis
    proof (cases r)
      case (Inl err)
      then show ?thesis using all ok compute_av_error[OF ok r[unfolded Inl]] by auto
    next
      case (Inr x)
      obtain avd reason where x: "x = (avd, reason)" by (cases x)
      note c = r[unfolded Inr x]
      show ?thesis
        by (rule exI[of _ r], rule conjI, rule all, unfold Inr x sum.case prod.case,
            simp only: ok not_True_eq_False if_False,
            rule conjI, rule compute_av_reasons[OF assms(1) c], rule impI, rule compute_av_reason)
          (use c in blast)
    qed
  qed
qed

theorem access_reason_witness:
  "context_struct_compute_av 2 demo (demo_context 2 2) (demo_context 2 1) 1 7 = Some (Inr (av_init\<lparr>allowed := 2\<rparr>, 9)) \<and>
   (\<exists>k. bit (7 :: u32) k \<and> \<not> te_permits demo (demo_context 2 2) (demo_context 2 1) 1 k) \<and>
   \<not> (\<exists>k. bit (7 :: u32) k \<and> te_permits demo (demo_context 2 2) (demo_context 2 1) 1 k \<and>
        \<not> constraints_permit demo (demo_context 2 2) (demo_context 2 1) 1 k) \<and>
   (\<exists>k. locally_permits demo (demo_context 2 2) (demo_context 2 1) 1 k \<and>
        \<not> permits demo (demo_context 2 2) (demo_context 2 1) 1 k) \<and>
   context_struct_compute_av 2 demo (demo_context 2 2) (demo_context 2 1) 2 7 = Some (Inl EINVAL)"
proof -
  let ?s = "demo_context 2 2" and ?t = "demo_context 2 1" and ?rk = "\<lambda>t :: u32. if t = 2 then 1 else 0 :: nat"
  have rk: "bound_of demo b \<noteq> 0 \<Longrightarrow> ?rk (bound_of demo b) < ?rk b" for b by (simp add: demo_bound split: if_splits)
  have av: "context_struct_compute_av 2 demo ?s ?t 1 7 = Some (Inr (av_init\<lparr>allowed := 2\<rparr>, 9))"
    using demo_av by (simp add: numeral_2_eq_2)
  have "?rk (type ?s) < 2" by (simp add: demo_context_def)
  note h = access_reason[where rk = ?rk, OF demo_wf_te rk, of ?s ?t _ 7]
  have k: "\<not> \<not> class_ok demo 1" "\<not> class_ok demo 2" by code_simp+
  have two: "context_struct_compute_av 2 demo ?s ?t 2 7 = Some (Inl EINVAL)"
    using h[of 2] k(2) \<open>?rk (type ?s) < 2\<close> by (auto simp del: context_struct_compute_av.simps)
  have bits: "(9 :: u32) = (if A then 1 else 0) OR (if B then 2 else 0) OR (if C then 4 else 0) OR (if D then 8 else 0) \<Longrightarrow>
      A \<and> \<not> B \<and> D" for A B C D
    by (cases A; cases B; cases C; cases D) simp_all
  show ?thesis
  proof (rule exE[OF access_reason[where rk = ?rk and s = ?s and t = ?t and tclass = 1 and requested = 7, OF demo_wf_te]],
      goal_cases)
    case (1 b)
    then show ?case by (rule rk)
  next
    case (2 r)
    have "r = Inr (av_init\<lparr>allowed := 2\<rparr>, 9)"
      using 2[THEN conjunct1, rule_format, OF \<open>?rk (type ?s) < 2\<close>] av by simp
    note c = 2[THEN conjunct2, unfolded this if_not_P[OF k(1)] sum.case prod.case, THEN conjunct1]
    show ?case using bits[OF c] av two by blast
  qed
qed

section \<open>Conditional rules\<close>

text \<open>C22: the stack machine of \<^verbatim>\<open>cond_evaluate_expr\<close> computes the value of the boolean expression
  whose reverse Polish form it is given, when the expression fits into the \<^verbatim>\<open>COND_EXPR_MAXDEPTH\<close>
  slots of the stack, and is -1 (undefined) exactly when it does not fit.\<close>

theorem conditional_value:
  assumes "bools_ok (bool_val_to_struct p) (bvars e)"
  shows "cond_evaluate_expr p (rpn e) =
    Inr (if slots e \<le> 10 then of_bool (bval (bool_val_to_struct p) e) else -1)"
  using assms by (rule cond_evaluate_rpn)

lemma demo_bools: "bool_val_to_struct demo = [Some (demo_bool 1 1), Some (demo_bool 2 0)]"
  by (simp add: demo_def)

theorem conditional_value_witness:
  "cond_evaluate_expr demo (rpn (BBin BAnd (BVar 1) (BNot (BVar 2)))) = Inr 1"
  using conditional_value[of demo "BBin BAnd (BVar 1) (BNot (BVar 2))"]
  by (simp add: demo_bools bools_ok_def ptr_arr_def demo_bool_def bool_of_def)

text \<open>C21: re-evaluating a conditional node switches its rules and nothing else. When the state
  changes to \<open>k\<close>, a rule of the true list is enabled iff \<open>k\<close> is 1, a rule of the false list iff
  \<open>k\<close> is 0 (so an undefined expression disables both lists), every other rule of the table is
  untouched, and the table stays well formed; when the state is the same nothing is written.\<close>

theorem conditional_switch:
  assumes "evaluate_cond_node p n = Inr (p', n')" and "wf_avtab (te_cond_avtab p)"
    and "set (true_list n) \<inter> set (false_list n) = {}"
  shows "wf_avtab (te_cond_avtab p') \<and> cond_evaluate_expr p (expr n) = Inr (cur_state n') \<and>
    (cur_state n' = cur_state n \<longrightarrow> p' = p) \<and>
    (cur_state n' \<noteq> cur_state n \<longrightarrow>
      (\<exists>f. av_nodes (te_cond_avtab p') = map f (av_nodes (te_cond_avtab p)) \<and>
        (\<forall>x. (addr x \<in> set (true_list n) \<longrightarrow> (enabled (f x) \<longleftrightarrow> 0 < cur_state n')) \<and>
             (addr x \<in> set (false_list n) \<longrightarrow> (enabled (f x) \<longleftrightarrow> cur_state n' = 0)) \<and>
             (addr x \<notin> set (true_list n) \<union> set (false_list n) \<longrightarrow> f x = x) \<and>
             datum (f x) = datum x \<and> same_triple (key (f x)) (key x))))"
proof -
  have "(addr x \<in> set (true_list n) \<longrightarrow> (enabled (cond_switched n k x) \<longleftrightarrow> 0 < k)) \<and>
      (addr x \<in> set (false_list n) \<longrightarrow> (enabled (cond_switched n k x) \<longleftrightarrow> k = 0)) \<and>
      (addr x \<notin> set (true_list n) \<union> set (false_list n) \<longrightarrow> cond_switched n k x = x) \<and>
      datum (cond_switched n k x) = datum x \<and> same_triple (key (cond_switched n k x)) (key x)" for x k
    using assms(3) cond_switched_true[of x n k] cond_switched_false[of x n k] cond_switched_other[of x n k]
    by (auto simp: cond_switched_def switched_def same_triple_def)
  then show ?thesis
    using evaluate_cond_node_state(1)[OF assms(1)] evaluate_cond_node_wf[OF assms(1,2)]
      evaluate_cond_node_nodes[OF assms(1)] by blast
qed

lemma demo_evaluate: "\<exists>p'. evaluate_cond_node demo demo_cond = Inr (p', demo_cond\<lparr>cur_state := 1\<rparr>)"
proof -
  have "cond_evaluate_expr demo (expr demo_cond) = Inr 1" by code_simp
  then show ?thesis by (simp add: evaluate_cond_node_def demo_cond_def Let_def)
qed

theorem conditional_switch_witness:
  "\<exists>p' f. evaluate_cond_node demo demo_cond = Inr (p', demo_cond\<lparr>cur_state := 1\<rparr>) \<and>
     av_nodes (te_cond_avtab p') = [f (demo_rule 1 1 1 AVTAB_ALLOWED 8 11), f (demo_rule 2 1 1 AVTAB_ALLOWED 16 12)] \<and>
     enabled (f (demo_rule 1 1 1 AVTAB_ALLOWED 8 11)) \<and> \<not> enabled (f (demo_rule 2 1 1 AVTAB_ALLOWED 16 12))"
proof -
  obtain p' where e: "evaluate_cond_node demo demo_cond = Inr (p', demo_cond\<lparr>cur_state := 1\<rparr>)"
    using demo_evaluate by blast
  have w: "wf_avtab (te_cond_avtab demo)" using demo_wf_te by (simp add: wf_te_def)
  have d: "set (true_list demo_cond) \<inter> set (false_list demo_cond) = {}" by (simp add: demo_cond_def)
  obtain f where f: "av_nodes (te_cond_avtab p') = map f (av_nodes (te_cond_avtab demo))"
    "\<forall>x. (addr x \<in> set (true_list demo_cond) \<longrightarrow> enabled (f x)) \<and>
      (addr x \<in> set (false_list demo_cond) \<longrightarrow> \<not> enabled (f x))"
    using conditional_switch[OF e w d] by (auto simp: demo_cond_def)
  have "av_nodes (te_cond_avtab p') = [f (demo_rule 1 1 1 AVTAB_ALLOWED 8 11), f (demo_rule 2 1 1 AVTAB_ALLOWED 16 12)]"
    unfolding f(1) by (simp add: demo_tables av_nodes_def one_chain_def)
  moreover have "enabled (f (demo_rule 1 1 1 AVTAB_ALLOWED 8 11))" "\<not> enabled (f (demo_rule 2 1 1 AVTAB_ALLOWED 16 12))"
    using f(2) by (auto simp: demo_cond_def demo_rule_def)
  ultimately show ?thesis using e by blast
qed

text \<open>C23: normalising a conditional keeps its meaning. \<^verbatim>\<open>cond_normalize_expr\<close> restores every boolean,
  removes a trailing negation by exchanging the two lists of table nodes and the two lists of module
  rules, and with at most \<^verbatim>\<open>COND_MAX_BOOLS\<close> booleans records the truth table: bit \<open>t\<close> is set iff
  the expression is not 0 under the \<open>t\<close>-th assignment.\<close>

theorem conditional_normal_form:
  assumes "cond_normalize_expr p cn = (None, p', cn')"
  shows "p' = p \<and>
    (if expr_type (last (expr cn)) = COND_NOT
     then expr cn' = butlast (expr cn) \<and> true_list cn' = false_list cn \<and> false_list cn' = true_list cn \<and>
       avtrue_list cn' = avfalse_list cn \<and> avfalse_list cn' = avtrue_list cn
     else expr cn' = expr cn \<and> true_list cn' = true_list cn \<and> false_list cn' = false_list cn \<and>
       avtrue_list cn' = avtrue_list cn \<and> avfalse_list cn' = avfalse_list cn) \<and>
    (nbools cn' \<le> 5 \<longrightarrow> (\<forall>t < 2 ^ unat (nbools cn'). bit (expr_pre_comp cn') t \<longleftrightarrow>
        (\<exists>k. cond_eval (assign (bool_val_to_struct p) (take (unat (nbools cn')) (bool_ids cn')) t)
               (expr cn') [] = Inr k \<and> k \<noteq> 0)))"
  using cond_normalize_ok[OF assms] by (auto split: if_splits)

definition demo_avrule :: avrule where
  "demo_avrule =
     \<lparr>avr_specified = AVTAB_ALLOWED, avr_flags = 0,
      avr_stypes = \<lparr>ts_types = ebitmap_init, negset = ebitmap_init, ts_flags = 0\<rparr>,
      avr_ttypes = \<lparr>ts_types = ebitmap_init, negset = ebitmap_init, ts_flags = 0\<rparr>,
      avr_perms = [\<lparr>cp_tclass = 1, cp_data = 2\<rparr>], avr_xperms = None, avr_line = 0,
      avr_source_filename = None, avr_source_line = 0\<rparr>"

theorem conditional_normal_form_witness:
  "\<exists>cn. cond_normalize_expr (two_bools 1 0 demo) (not_node 1 [7] [8] [] [demo_avrule]) =
       (None, two_bools 1 0 demo, cn) \<and>
     true_list cn = [8] \<and> false_list cn = [7] \<and> avtrue_list cn = [demo_avrule] \<and> avfalse_list cn = [] \<and>
     (\<exists>k. cond_eval (assign (bool_val_to_struct (two_bools 1 0 demo)) [1] 1) (expr cn) [] = Inr k \<and> k \<noteq> 0)"
proof -
  let ?cn = "(not_node 1 [8] [7] [demo_avrule] [])\<lparr>expr := [\<lparr>expr_type = COND_BOOL, boolean = 1\<rparr>],
    nbools := 1, bool_ids := [1, 0, 0, 0, 0], expr_pre_comp := 2\<rparr>"
  note n = not_normal[of 1 0 demo "[7]" "[8]" "[]" "[demo_avrule]"]
  have used: "take (unat (nbools ?cn)) (bool_ids ?cn) = [1]" by simp
  have "nbools ?cn \<le> 5" "1 < (2 :: nat) ^ unat (nbools ?cn)" "bit (expr_pre_comp ?cn) 1" by simp_all
  then have "\<exists>k. cond_eval (assign (bool_val_to_struct (two_bools 1 0 demo)) [1] 1) (expr ?cn) [] = Inr k \<and> k \<noteq> 0"
    using conditional_normal_form[OF n, THEN conjunct2, THEN conjunct2] unfolding used by blast
  moreover have "true_list ?cn = [8] \<and> false_list ?cn = [7] \<and> avtrue_list ?cn = [demo_avrule] \<and> avfalse_list ?cn = []"
    by (simp add: not_node_def)
  ultimately show ?thesis using n by blast
qed

text \<open>C38: two conditionals that mean different things can be taken for equal. \<^verbatim>\<open>cond_expr_equal\<close>
  compares the booleans as a set but the truth tables by position: after normalisation \<open>A && !B\<close>
  and \<open>B && !A\<close> are equal for it, although they evaluate to 1 and 0 when only \<open>A\<close> is set.\<close>

theorem conditional_equal_unsound:
  "\<exists>n1 n2. cond_normalize_expr (two_bools 1 0 demo) (and_not_node 1 2) = (None, two_bools 1 0 demo, n1) \<and>
     cond_normalize_expr (two_bools 1 0 demo) (and_not_node 2 1) = (None, two_bools 1 0 demo, n2) \<and>
     cond_expr_equal (Some n1) (Some n2) \<and>
     cond_evaluate_expr (two_bools 1 0 demo) (expr n1) = Inr 1 \<and>
     cond_evaluate_expr (two_bools 1 0 demo) (expr n2) = Inr 0"
proof -
  let ?n = "\<lambda>a b. (and_not_node a b)\<lparr>nbools := 2, bool_ids := [a, b, 0, 0, 0], expr_pre_comp := 2\<rparr>"
  have "cond_expr_equal (Some (?n 1 2)) (Some (?n 2 1))" by code_simp
  moreover have "expr (?n a b) = expr (and_not_node a b)" for a b by simp
  ultimately show ?thesis using and_not_normal[of demo] and_not_values[of demo] by metis
qed

section \<open>Constraints\<close>

text \<open>C24: the five-slot stack machine of \<^verbatim>\<open>constraint_expr_eval_reason\<close> computes the value of the
  constraint tree it encodes, for a tree that needs at most \<^verbatim>\<open>CEXPR_MAXDEPTH\<close> slots.\<close>

theorem constraint_value:
  assumes "cexpr c = cflat a" and "cvalue p s t x a = Some v" and "cslots a \<le> CEXPR_MAXDEPTH"
  shows "constraint_expr_eval p s t x c = Inr v"
  using assms by (rule constraint_eval_tree)

definition demo_tree :: cexp where
  "demo_tree = COr (CNot (CLeaf (demo_leaf CEXPR_TYPE CEXPR_EQ))) (CLeaf (demo_leaf CEXPR_USER CEXPR_NEQ))"

theorem constraint_value_witness:
  "constraint_expr_eval demo (demo_context 2 1) (demo_context 2 2) None
     \<lparr>permissions = 1, cexpr = cflat demo_tree\<rparr> = Inr True"
proof (rule constraint_value)
  show "cvalue demo (demo_context 2 1) (demo_context 2 2) None demo_tree = Some True" by code_simp
qed (simp_all add: demo_tree_def)

text \<open>C40: a malformed constraint is treated as satisfied. If the expression starts with an
  operator the evaluation stops with \<^verbatim>\<open>-EINVAL\<close>, which the callers' test \<^verbatim>\<open>!rc\<close> takes for
  true: the constraint grants its permissions.\<close>

theorem constraint_underflow_grants:
  assumes "cexpr c = e # es" and "cexpr_type e \<in> {CEXPR_NOT, CEXPR_AND, CEXPR_OR}"
  shows "constraint_granted p s t x c = Inr True"
  using assms by (rule underflow_grants)

theorem constraint_underflow_grants_witness:
  "constraint_granted demo (demo_context 2 1) (demo_context 2 1) None
     \<lparr>permissions = 1, cexpr = [op_expr CEXPR_AND]\<rparr> = Inr True"
  by (rule constraint_underflow_grants) (auto simp: op_expr_def)

end
