(* ===== verification/Mls_Properties.thy ===== *)
theory Mls_Properties
  imports Example_Policy
begin

text \<open>
  The properties of the multi-level security code: dominance, validity, the computation of ranges,
  and the textual form of levels and ranges.
\<close>

section \<open>Levels and ranges\<close>

text \<open>\<^verbatim>\<open>mls_level_dom\<close> is the product order of the sensitivities and the category sets, and a
  partial order: reflexive, antisymmetric and transitive.\<close>

lemma dominance_order:
  assumes "wf_level a" and "wf_level b" and "wf_level c"
  shows "(mls_level_dom a b \<longleftrightarrow> sens b \<le> sens a \<and> ebits (cat b) \<subseteq> ebits (cat a)) \<and>
    mls_level_dom a a \<and> (mls_level_dom a b \<and> mls_level_dom b a \<longrightarrow> a = b) \<and>
    (mls_level_dom a b \<and> mls_level_dom b c \<longrightarrow> mls_level_dom a c)"
  using mls_level_dom_iff[OF assms(1,2)] mls_level_dom_refl[OF assms(1)] mls_level_dom_antisym[OF assms(1,2)]
    mls_level_dom_trans[OF assms] by blast

lemma demo_levels [simp]: "wf_level (demo_level w)"
  by (simp add: wf_level_def demo_level_def)

text \<open>\<^verbatim>\<open>mls_context_isvalid\<close> decides the specification: the high level dominates the low one,
  both levels use a sensitivity of the policy and categories that the sensitivity admits, and
  (unless the role is \<^verbatim>\<open>object_r\<close>) the range lies within the range of the user. The bound on the
  categories is off by one: the bit after the last category of the policy passes it.\<close>

lemma context_valid_mls:
  assumes "wf_levels p" and "wf_context c" and "mls p"
  shows "mls_context_isvalid p c \<longleftrightarrow>
    range_ok (range c) \<and> level_spec p (low (range c)) \<and> level_spec p (high (range c)) \<and>
    (role c = OBJECT_R_VAL \<or>
     user c \<noteq> 0 \<and> user c \<le> nprim (p_users p) \<and>
     (\<exists>u. ptr_arr (user_val_to_struct p) (unat (user c - 1)) = Some u \<and>
        mls_range_contains (exp_range u) (range c)))"
  using assms by (rule mls_context_isvalid_iff)

lemma demo_wf_levels: "wf_levels demo"
proof -
  have "table (p_levels demo) = Some \<lparr>htable = [[(''s0'', \<lparr>lev = demo_level 7, lev_isalias = 0, notdefined = 0\<rparr>)]],
      hsize = 1, nel = 1\<rparr>"
    by (simp add: demo_def one_slot_def)
  moreover have "sym.wf \<lparr>htable = [[(''s0'', \<lparr>lev = demo_level 7, lev_isalias = 0, notdefined = 0\<rparr>)]],
      hsize = 1, nel = 1\<rparr>"
    using pow2_sizeI[of 0] by (simp add: sym.wf_def sym.slots_ok_def sym.chain_ok_def entries_def symhash_def)
  ultimately show ?thesis
    by (auto simp: wf_levels_def wf_symtab_def sym_map_def sym.lookup_def symhash_def split: if_splits)
qed

lemma demo_context_wf [simp]: "wf_context (demo_context r t)"
  by (simp add: wf_context_def demo_context_def wf_range_def demo_range_def)

text \<open>The range of a computed context. If the ranges of the source and the target and the
  ranges of the range transitions are valid, \<^verbatim>\<open>mls_compute_sid\<close> produces a valid range (the high
  level dominates the low one) whichever rule applies, and changes nothing else of the context.\<close>

lemma computed_range_valid:
  assumes "mls_compute_sid m p s t tclass spec d = Inr (c, m')" and "mls p"
    and "range_ok (range s)" and "range_ok (range t)"
    and "\<And>k r. rangetr_search (range_tr p) k = Some r \<Longrightarrow> range_ok r"
  shows "range_ok (range c) \<and> c = d\<lparr>range := range c\<rparr>"
  by (intro conjI; rule mls_compute_sid_range_ok[OF assms(1-4)]; rule assms(5))

lemma demo_range_valid: "range_ok (range (demo_context r t))"
  by (simp add: range_ok_def demo_context_def wf_range_def demo_range_def mls_level_dom_iff)

text \<open>The range of \<^verbatim>\<open>GLBLUB\<close> defaults (\<^verbatim>\<open>mls_range_glblub\<close>) is the intersection of two valid
  ranges: a sensitivity is in it iff it is in both, its category sets are the intersections, and
  it is valid itself.\<close>

lemma glblub_intersection:
  assumes "range_ok r1" and "range_ok r2" and "mls_range_glblub m r1 r2 = Inr (r, m')"
  shows "range_ok r \<and>
    (\<forall>s. sens (low r) \<le> s \<and> s \<le> sens (high r) \<longleftrightarrow>
      (sens (low r1) \<le> s \<and> s \<le> sens (high r1)) \<and> (sens (low r2) \<le> s \<and> s \<le> sens (high r2))) \<and>
    ebits (cat (low r)) = ebits (cat (low r1)) \<inter> ebits (cat (low r2)) \<and>
    ebits (cat (high r)) = ebits (cat (high r1)) \<inter> ebits (cat (high r2))"
  using mls_range_glblub_ok[OF assms] by blast

text \<open>\<^verbatim>\<open>mls_setup_user_range\<close> never exceeds the user: if the default level of the user is in
  the range of the user, the range it sets up is valid, lies within the range of the user, and its
  high level is dominated by the high level of the context it comes from.\<close>

lemma user_range_bounded:
  assumes "mls_setup_user_range f u d True = Inr c"
    and "range_ok (range f)" and "range_ok (exp_range u)" and "wf_level (exp_dfltlevel u)"
    and "mls_range_contains (exp_range u) (single_level (exp_dfltlevel u))"
  shows "range_ok (range c) \<and> mls_range_contains (exp_range u) (range c) \<and>
    mls_level_dom (high (range f)) (high (range c)) \<and> c = d\<lparr>range := range c\<rparr>"
  using mls_setup_user_range_ok[OF assms] by blast

section \<open>The textual form\<close>

text \<open>C4: a range that is printed is read back. For levels whose names are in the policy and whose
  category nodes leave no gap at a 64-bit boundary, the string that \<^verbatim>\<open>mls_sid_to_context\<close> writes
  (ranges \<^verbatim>\<open>c0.c5\<close> and lists \<^verbatim>\<open>c0,c2\<close> of categories, single levels, low-high pairs) is parsed by
  \<^verbatim>\<open>mls_from_string\<close> into the same range, given memory for its categories.\<close>

theorem mls_print_parse:
  assumes "mls p" and "printable p (low (range c))" and "printable p (high (range c))"
    and "mls_sid_to_context p c = Inr s" and "range d = mls_range_init"
    and "card (ebits (cat (low (range c)))) + card (ebits (cat (high (range c)))) +
      length (node (cat (low (range c)))) < m"
  shows "\<exists>m'. mls_from_string m p (tl s) d = Inr (d\<lparr>range := range c\<rparr>, m')"
  using assms by (rule mls_string_parses)

text \<open>The bits of one node along the loop that prints: a run of clear or of set bits.\<close>

lemma cats_clear:
  assumes "node_ok n" "b \<le> 64" "\<forall>j. a \<le> j \<and> j < b \<longrightarrow> \<not> bit (nmap n) j"
  shows "cats_string nms fin (map (\<lambda>j. (n, startbit n + of_nat j)) [a..<b] @ ws) 0 wrote =
    cats_string nms fin ws 0 wrote"
proof -
  have "\<forall>j \<in> set js. \<not> ebitmap_node_get_bit n (startbit n + of_nat j) \<Longrightarrow>
      cats_string nms fin (map (\<lambda>j. (n, startbit n + of_nat j)) js @ ws) 0 wrote =
      cats_string nms fin ws 0 wrote" for js
    by (induction js) auto
  moreover have "\<forall>j \<in> set [a..<b]. \<not> ebitmap_node_get_bit n (startbit n + of_nat j)"
    using assms by (auto simp: node_ok_def node_get_bit_in_block block_add)
  ultimately show ?thesis by blast
qed

lemma cats_set:
  assumes "node_ok n" "b \<le> 64" "\<forall>j. a \<le> j \<and> j < b \<longrightarrow> bit (nmap n) j" "0 < rng"
  shows "cats_string nms fin (map (\<lambda>j. (n, startbit n + of_nat j)) [a..<b] @ ws) rng wrote =
    cats_string nms fin ws (rng + (b - a)) wrote"
proof -
  have "\<forall>j \<in> set js. ebitmap_node_get_bit n (startbit n + of_nat j) \<Longrightarrow> 0 < rng \<Longrightarrow>
      cats_string nms fin (map (\<lambda>j. (n, startbit n + of_nat j)) js @ ws) rng wrote =
      cats_string nms fin ws (rng + length js) wrote" for js rng
    by (induction js arbitrary: rng) auto
  moreover have "\<forall>j \<in> set [a..<b]. ebitmap_node_get_bit n (startbit n + of_nat j)"
    using assms by (auto simp: node_ok_def node_get_bit_in_block block_add)
  ultimately show ?thesis using assms(4) length_upt[of a b] by metis
qed

lemma cats_start:
  assumes "node_ok n" "a < 64" "bit (nmap n) a"
  shows "cats_string nms fin ((n, startbit n + of_nat a) # ws) 0 wrote =
    rbind (name_of nms (startbit n + of_nat a)) (\<lambda>s.
      rbind (cats_string nms fin ws 1 True) (\<lambda>r. Inr ((if \<not> wrote then CHR '':'' else CHR '','') # s @ r)))"
  using assms by (simp add: node_ok_def node_get_bit_in_block block_add)

lemma cats_stop:
  assumes "node_ok n" "a < 64" "\<not> bit (nmap n) a" "1 < rng"
  shows "cats_string nms fin ((n, startbit n + of_nat a) # ws) rng wrote =
    rbind (name_of nms (startbit n + of_nat a - 1)) (\<lambda>s.
      rbind (cats_string nms fin ws 0 wrote) (\<lambda>r. Inr (range_sep rng # s @ r)))"
  using assms by (simp add: node_ok_def node_get_bit_in_block block_add)

lemma rbind_assoc: "rbind (rbind x f) g = rbind x (\<lambda>y. rbind (f y) g)"
  by (cases x) simp_all

lemma cats_single:
  assumes "node_ok n" "a < 64" "\<not> bit (nmap n) a"
  shows "cats_string nms fin ((n, startbit n + of_nat a) # ws) 1 wrote = cats_string nms fin ws 0 wrote"
  using assms by (simp add: node_ok_def node_get_bit_in_block block_add)

lemma upt_split: "a \<le> b \<Longrightarrow> b \<le> c \<Longrightarrow> [a..<c] = [a..<b] @ [b..<c]"
  by (metis le_iff_add upt_add_eq_append)

abbreviation gap_a :: ebitmap_node where "gap_a \<equiv> \<lparr>startbit = 0, nmap = 0xC000000000000000\<rparr>"
abbreviation gap_b :: ebitmap_node where "gap_b \<equiv> \<lparr>startbit = 64, nmap = - 1\<rparr>"
abbreviation gap_c :: ebitmap_node where "gap_c \<equiv> \<lparr>startbit = 128, nmap = 1\<rparr>"
abbreviation node_visits :: "ebitmap_node \<Rightarrow> (ebitmap_node \<times> u32) list" where
  "node_visits n \<equiv> map (\<lambda>j. (n, startbit n + of_nat j)) [0..<64]"

lemma gap_nodes_ok: "node_ok gap_a" "node_ok gap_b" "node_ok gap_c"
  by code_simp+

lemma gap_a_bits: "bit (0xC000000000000000 :: u64) 62" "bit (0xC000000000000000 :: u64) 63"
  "\<forall>j<62. \<not> bit (0xC000000000000000 :: u64) j"
proof -
  have e: "(0xC000000000000000 :: u64) = push_bit 62 3" by simp
  show "\<forall>j<62. \<not> bit (0xC000000000000000 :: u64) j" unfolding e bit_push_bit_iff by simp
qed code_simp+

lemma gap_visits:
  "ebitmap_bits_visited \<lparr>node = [gap_a, gap_c], highbit = 192\<rparr> = node_visits gap_a @ node_visits gap_c"
  "ebitmap_bits_visited \<lparr>node = [gap_a, gap_b, gap_c], highbit = 192\<rparr> =
    node_visits gap_a @ node_visits gap_b @ node_visits gap_c"
  using bits_visited_eq(1)[of "\<lparr>node = [gap_a, gap_c], highbit = 192\<rparr>" gap_a "[gap_c]"]
    bits_visited_eq(1)[of "\<lparr>node = [gap_a, gap_b, gap_c], highbit = 192\<rparr>" gap_a "[gap_b, gap_c]"] gap_nodes_ok
  by (simp_all add: wf_ebitmap_def wf_nodes_def nodes_end_def)

lemma cats_gap_a: "cats_string nms fin (node_visits gap_a @ ws) 0 False =
    rbind (name_of nms 62) (\<lambda>s. rbind (cats_string nms fin ws 2 True) (\<lambda>r. Inr (CHR '':'' # s @ r)))"
proof -
  have sa: "[0..<64] = [0..<62] @ 62 # [63..<64]"
    using upt_split[of 0 62 64] by (simp add: upt_rec)
  let ?f = "\<lambda>j. (gap_a, startbit gap_a + of_nat j)"
  have "cats_string nms fin (node_visits gap_a @ ws) 0 False =
      cats_string nms fin (map ?f [0..<62] @ (?f 62 # map ?f [63..<64] @ ws)) 0 False"
    by (simp only: sa map_append list.map append.simps append_assoc)
  also have "\<dots> = cats_string nms fin (?f 62 # map ?f [63..<64] @ ws) 0 False"
    by (rule cats_clear[OF gap_nodes_ok(1)]) (use gap_a_bits in simp_all)
  also have "\<dots> = rbind (name_of nms (startbit gap_a + of_nat 62)) (\<lambda>s.
      rbind (cats_string nms fin (map ?f [63..<64] @ ws) 1 True) (\<lambda>r. Inr (CHR '':'' # s @ r)))"
    using cats_start[OF gap_nodes_ok(1), of 62 nms fin _ False] gap_a_bits by simp
  also have "cats_string nms fin (map ?f [63..<64] @ ws) 1 True = cats_string nms fin ws (1 + (64 - 63)) True"
    by (rule cats_set[OF gap_nodes_ok(1)]) (use gap_a_bits in \<open>auto simp: less_Suc_eq numeral_eq_Suc\<close>)
  finally show ?thesis by (simp add: numeral_2_eq_2)
qed

lemma cats_gap_b: "cats_string nms fin (node_visits gap_b @ ws) 2 True = cats_string nms fin ws 66 True"
  using cats_set[OF gap_nodes_ok(2), of 64 0 2 nms fin ws True] by simp

lemma cats_gap_c:
  assumes g: "1 < rng"
  shows "cats_string nms fin (node_visits gap_c) rng True =
    rbind (name_of nms 128) (\<lambda>s. Inr (range_sep (Suc rng) # s))"
proof -
  have sc: "[0..<64] = 0 # 1 # [2..<64]" by (simp add: upt_rec)
  have c: "\<forall>j. 2 \<le> j \<and> j < 64 \<longrightarrow> \<not> bit (1 :: u64) j" by (auto simp: bit_1_iff)
  let ?f = "\<lambda>j. (gap_c, startbit gap_c + of_nat j)"
  have "cats_string nms fin (node_visits gap_c) rng True =
      cats_string nms fin (map ?f [0..<1] @ (?f 1 # map ?f [2..<64] @ [])) rng True"
    by (simp only: sc map_append list.map append.simps append_assoc upt_rec[of 0 1]) simp
  also have "\<dots> = cats_string nms fin (?f 1 # map ?f [2..<64] @ []) (rng + (1 - 0)) True"
    by (rule cats_set[OF gap_nodes_ok(3)]) (use g in auto)
  also have "\<dots> = rbind (name_of nms (startbit gap_c + of_nat 1 - 1)) (\<lambda>s.
      rbind (cats_string nms fin (map ?f [2..<64] @ []) 0 True) (\<lambda>r. Inr (range_sep (rng + (1 - 0)) # s @ r)))"
    by (rule cats_stop[OF gap_nodes_ok(3)]) (use g in \<open>auto simp: bit_1_iff\<close>)
  also have "cats_string nms fin (map ?f [2..<64] @ []) 0 True = cats_string nms fin [] 0 True"
    by (rule cats_clear[OF gap_nodes_ok(3)]) (use c in simp_all)
  finally show ?thesis by simp
qed

text \<open>C39: the printed form of a level does not determine it. The loop counts set bits without
  noticing that \<^verbatim>\<open>ebitmap_next\<close> jumps over absent nodes, so for every policy the categories
  62, 63, 128 print exactly as all the categories from 62 to 128 do.\<close>

theorem mls_print_gap:
  "level_string p \<lparr>sens = s, cat = \<lparr>node = [\<lparr>startbit = 0, nmap = 0xC000000000000000\<rparr>, \<lparr>startbit = 128, nmap = 1\<rparr>],
       highbit = 192\<rparr>\<rparr> =
   level_string p \<lparr>sens = s, cat = \<lparr>node = [\<lparr>startbit = 0, nmap = 0xC000000000000000\<rparr>, \<lparr>startbit = 64, nmap = - 1\<rparr>,
       \<lparr>startbit = 128, nmap = 1\<rparr>], highbit = 192\<rparr>\<rparr>"
proof -
  have g: "1 < (2 :: nat)" "1 < (66 :: nat)" by simp_all
  show ?thesis
    by (simp only: level_string_def gap_visits mls_level.simps cats_gap_a cats_gap_b cats_gap_c[OF g(1)]
          cats_gap_c[OF g(2)] ebitmap_length_def ebitmap.simps)
       (simp add: range_sep_def)
qed

lemma below_3: "i < 3 \<Longrightarrow> i \<in> {0, 1, 2 :: u32}"
proof -
  assume "i < 3"
  then have "unat i = 0 \<or> unat i = 1 \<or> unat i = 2" by (auto simp: word_facts)
  then show ?thesis by (simp add: word_unat_eq_iff)
qed

lemma demo_cats: "w < 8 \<Longrightarrow> i \<in> ebits (bits64 w) \<Longrightarrow> i < 3"
proof (rule ccontr)
  assume w: "w < 8" and i: "i \<in> ebits (bits64 w)" and "\<not> i < 3"
  then have "3 \<le> unat i" by (simp add: word_facts)
  moreover have "take_bit 3 w = w"
    using w by (simp add: word_unat_eq_iff unsigned_take_bit_eq take_bit_nat_eq_self_iff word_facts)
  ultimately have "\<not> bit w (unat i)" by (metis bit_take_bit_iff leD)
  then show False using i by (simp add: in_bits64)
qed

lemma demo_good_cat: "i < 3 \<Longrightarrow> good_cat demo i"
proof -
  have "good_cat demo 0" "good_cat demo 1" "good_cat demo 2"
    unfolding good_cat_def by (rule conjI, code_simp, rule conjI, rule exI, rule conjI, code_simp, code_simp, code_simp)+
  then show "i < 3 \<Longrightarrow> good_cat demo i" using below_3[of i] by blast
qed

lemma demo_printable: "w < 8 \<Longrightarrow> printable demo (demo_level w)"
proof -
  assume w: "w < 8"
  have s: "good_sens demo 1"
    unfolding good_sens_def by (rule conjI, code_simp, rule conjI, rule exI, rule conjI, code_simp, code_simp, code_simp)
  show ?thesis
    using s demo_good_cat demo_cats[OF w]
    by (auto simp: printable_def) (simp_all add: demo_level_def bits64_def ebitmap_init_def)
qed

lemma demo_level_strings:
  "level_string demo (demo_level 1) = Inr ''s0:c0''"
  "level_string demo (demo_level 7) = Inr ''s0:c0.c2''"
proof -
  let ?n = "\<lambda>w. \<lparr>startbit = 0, nmap = w\<rparr>" and ?f = "\<lambda>w j. (\<lparr>startbit = 0, nmap = w\<rparr>, of_nat j :: u32)"
  have ok: "node_ok (?n 1)" "node_ok (?n 7)" by code_simp+
  have v: "w \<in> {1, 7} \<Longrightarrow> ebitmap_bits_visited (bits64 w) = map (?f w) [0..<64]" for w
    using bits_visited_eq(1)[of "bits64 w" "?n w" "[]"] wf_bits64[of w] by (auto simp: bits64_def)
  have nms: "p_cat_val_to_name demo = [Some ''c0'', Some ''c1'', Some ''c2'']"
    "p_sens_val_to_name demo = [Some ''s0'']" by (simp_all add: demo_def)
  have s1: "[0..<64] = 0 # 1 # [2..<64]" and s7: "[0..<64] = 0 # [1..<3] @ 3 # [4..<64]"
    by (simp_all add: upt_rec)
  have "(7 :: u64) = mask 3" by (simp add: mask_eq_exp_minus_1)
  then have b7: "bit (7 :: u64) j \<longleftrightarrow> j < 3" for j by (simp only: bit_mask_iff possible_bit_word) auto
  have "cats_string nms fin (map (?f 1) [0..<64]) 0 False =
      rbind (name_of nms 0) (\<lambda>s. Inr (CHR '':'' # s))" for nms fin
    using cats_start[OF ok(1), of 0 nms fin "?f 1 1 # map (?f 1) [2..<64]" False]
      cats_single[OF ok(1), of 1 nms fin "map (?f 1) [2..<64]" True]
      cats_clear[OF ok(1), of 64 2 nms fin "[]" True]
    by (simp add: s1 bit_1_iff)
  then show "level_string demo (demo_level 1) = Inr ''s0:c0''"
    using v[of 1] by (simp add: level_string_def demo_level_def nms name_of_def ptr_arr_def)
  let ?g = "\<lambda>j. (?n 7, startbit (?n 7) + of_nat j)"
  have "cats_string nms fin (map (?f 7) [0..<64]) 0 False =
      rbind (name_of nms 0) (\<lambda>s. rbind (name_of nms 2) (\<lambda>t. Inr (CHR '':'' # s @ CHR ''.'' # t)))" for nms fin
  proof -
    have "cats_string nms fin (map (?f 7) [0..<64]) 0 False =
        cats_string nms fin (?g 0 # map ?g [1..<3] @ ?g 3 # map ?g [4..<64] @ []) 0 False"
      by (simp only: s7) simp
    also have "\<dots> = rbind (name_of nms (startbit (?n 7) + of_nat 0)) (\<lambda>s.
        rbind (cats_string nms fin (map ?g [1..<3] @ ?g 3 # map ?g [4..<64] @ []) 1 True)
          (\<lambda>r. Inr (CHR '':'' # s @ r)))"
      using cats_start[OF ok(2), of 0 nms fin _ False] by (simp add: b7)
    also have "cats_string nms fin (map ?g [1..<3] @ ?g 3 # map ?g [4..<64] @ []) 1 True =
        cats_string nms fin (?g 3 # map ?g [4..<64] @ []) (1 + (3 - 1)) True"
      by (rule cats_set[OF ok(2)]; simp only: ebitmap_node.simps b7; simp)
    also have "\<dots> = rbind (name_of nms (startbit (?n 7) + of_nat 3 - 1)) (\<lambda>s.
        rbind (cats_string nms fin (map ?g [4..<64] @ []) 0 True) (\<lambda>r. Inr (range_sep (1 + (3 - 1)) # s @ r)))"
      by (rule cats_stop[OF ok(2)]) (simp_all add: b7)
    also have "cats_string nms fin (map ?g [4..<64] @ []) 0 True = cats_string nms fin [] 0 True"
      by (rule cats_clear[OF ok(2)]; simp only: ebitmap_node.simps b7; simp)
    finally show ?thesis by (simp add: range_sep_def rbind_assoc)
  qed
  then show "level_string demo (demo_level 7) = Inr ''s0:c0.c2''"
    using v[of 7] by (simp add: level_string_def demo_level_def nms name_of_def ptr_arr_def)
qed

theorem mls_print_parse_witness:
  "\<exists>m'. mls_from_string 9 demo ''s0:c0-s0:c0.c2'' context_init =
     Inr (context_init\<lparr>range := demo_range 1 7\<rparr>, m')"
proof -
  let ?c = "\<lparr>user = 1, role = 1, type = 1, range = demo_range 1 7\<rparr>"
  have "\<not> mls_level_eq (demo_level 1) (demo_level 7)" "mls demo" by code_simp+
  then have s: "mls_sid_to_context demo ?c = Inr '':s0:c0-s0:c0.c2''" "mls demo"
    by (simp_all add: mls_sid_to_context_def demo_range_def demo_level_strings)
  have "ebits (bits64 1) \<subseteq> {0, 1, 2}" "ebits (bits64 7) \<subseteq> {0, 1, 2}"
    by (rule subsetI, rule below_3, erule demo_cats[rotated], simp)+
  then have "card (ebits (bits64 1)) \<le> card {0 :: u32, 1, 2}" "card (ebits (bits64 7)) \<le> card {0 :: u32, 1, 2}"
    by (simp_all only: card_mono finite.intros)
  moreover have "length (node (bits64 1)) = 1" by (simp add: bits64_def)
  ultimately show ?thesis
    using mls_print_parse[of demo ?c "'':s0:c0-s0:c0.c2''" context_init 9] s demo_printable
    by (simp add: demo_range_def demo_level_def context_init_def)
qed

end
