(* ===== verification/Validate.thy ===== *)
theory Validate
  imports Constraints
begin

text \<open>
  The validator of \<^verbatim>\<open>src/policydb_validate.c\<close>, which decides whether a policy that was read may
  be used, in three parts: the values, sets and datums here, the rules of kernel policies and
  modules in \<open>Validate_Rules\<close>, and the whole database in \<open>Validate_Policy\<close>.

  A function that returns 0 or -1 is a value of \<open>errcode + unit\<close>. The messages are left out, and
  with them the handle. Memory is needed only for the bitmaps of the gaps, the numbers below
  \<^verbatim>\<open>nprim\<close> without a name.
\<close>

definition bad_if :: "bool \<Rightarrow> errcode + unit" where
  "bad_if b = (if b then Inl EFAIL else Inr ())"

abbreviation ok_unless :: "bool \<Rightarrow> errcode + unit" where
  "ok_unless b \<equiv> bad_if (\<not> b)"

fun check_all :: "('a \<Rightarrow> errcode + unit) \<Rightarrow> 'a list \<Rightarrow> errcode + unit" where
  "check_all f [] = Inr ()"
| "check_all f (x # xs) = rbind (f x) (\<lambda>_. check_all f xs)"

text \<open>\<^verbatim>\<open>hashtab_map\<close> with a callback that changes nothing: the first failure ends the traversal.\<close>

definition map_check :: "('k \<Rightarrow> 'd \<Rightarrow> errcode + unit) \<Rightarrow> ('k, 'd) hashtab \<Rightarrow> errcode + unit" where
  "map_check f h =
     snd (hashtab_map (\<lambda>k d st. case f k d of Inl err \<Rightarrow> (-1, Inl err) | Inr _ \<Rightarrow> (0, st)) h (Inr ()))"

section \<open>Gaps and flavors\<close>

record validate =
  v_nprim :: u32
  gaps :: ebitmap

record flavors =
  fl_commons :: validate
  fl_classes :: validate
  fl_roles :: validate
  fl_types :: validate
  fl_users :: validate
  fl_bools :: validate
  fl_levels :: validate
  fl_cats :: validate

fun gap_loop :: "mem \<Rightarrow> string option list \<Rightarrow> nat list \<Rightarrow> ebitmap \<Rightarrow> errcode + ebitmap \<times> mem" where
  "gap_loop m val_to_name [] g = Inr (g, m)"
| "gap_loop m val_to_name (i # is) g =
     (case arr val_to_name i of
        None \<Rightarrow> Inl UNDEF
      | Some (Some _) \<Rightarrow> gap_loop m val_to_name is g
      | Some None \<Rightarrow>
          (case ebitmap_set_bit m g (of_nat i) True of
             Inl _ \<Rightarrow> Inl EFAIL
           | Inr (g', m') \<Rightarrow> gap_loop m' val_to_name is g'))"

definition create_gap_ebitmap :: "mem \<Rightarrow> string option list \<Rightarrow> u32 \<Rightarrow> errcode + ebitmap \<times> mem" where
  "create_gap_ebitmap m val_to_name n = gap_loop m val_to_name [0..<unat n] ebitmap_init"

definition validate_init :: "mem \<Rightarrow> string option list \<Rightarrow> u32 \<Rightarrow> errcode + validate \<times> mem" where
  "validate_init m val_to_name n =
     rbind (create_gap_ebitmap m val_to_name n) (\<lambda>(g, m'). Inr (\<lparr>v_nprim = n, gaps = g\<rparr>, m'))"

abbreviation (input) "POLICYDB_VERSION_PERMISSIVE \<equiv> 23"

text \<open>Policies with attributes that exist only in \<^verbatim>\<open>type_attr_map\<close>.\<close>

definition nameless_attributes :: "policydb \<Rightarrow> bool" where
  "nameless_attributes p \<longleftrightarrow>
     \<not> (policy_type p \<noteq> POLICY_KERN \<or> policyvers p < POLICYDB_VERSION_AVTAB \<or>
        policyvers p > POLICYDB_VERSION_PERMISSIVE)"

definition validate_array_init :: "mem \<Rightarrow> policydb \<Rightarrow> errcode + flavors" where
  "validate_array_init m p =
     rbind (validate_init m (p_common_val_to_name p) (nprim (p_commons p))) (\<lambda>(co, m).
     rbind (validate_init m (p_class_val_to_name p) (nprim (p_classes p))) (\<lambda>(cl, m).
     rbind (validate_init m (p_role_val_to_name p) (nprim (p_roles p))) (\<lambda>(ro, m).
     rbind (if \<not> nameless_attributes p then validate_init m (p_type_val_to_name p) (nprim (p_types p))
            else Inr (\<lparr>v_nprim = nprim (p_types p), gaps = ebitmap_init\<rparr>, m)) (\<lambda>(ty, m).
     rbind (validate_init m (p_user_val_to_name p) (nprim (p_users p))) (\<lambda>(us, m).
     rbind (validate_init m (p_bool_val_to_name p) (nprim (p_bools p))) (\<lambda>(bo, m).
     rbind (validate_init m (p_sens_val_to_name p) (nprim (p_levels p))) (\<lambda>(le, m).
     rbind (validate_init m (p_cat_val_to_name p) (nprim (p_cats p))) (\<lambda>(ca, m).
       Inr \<lparr>fl_commons = co, fl_classes = cl, fl_roles = ro, fl_types = ty, fl_users = us,
            fl_bools = bo, fl_levels = le, fl_cats = ca\<rparr>))))))))"

section \<open>Values and sets\<close>

definition value_isvalid :: "u32 \<Rightarrow> u32 \<Rightarrow> bool" where
  "value_isvalid v n = (if v = 0 \<or> v > n then False else True)"

definition validate_value :: "u32 \<Rightarrow> validate \<Rightarrow> errcode + unit" where
  "validate_value v flavor =
     (if v = 0 \<or> v > v_nprim flavor then Inl EFAIL
      else if ebitmap_get_bit (gaps flavor) (v - 1) then Inl EFAIL
      else Inr ())"

definition validate_ebitmap :: "ebitmap \<Rightarrow> validate \<Rightarrow> errcode + unit" where
  "validate_ebitmap e flavor =
     (if ebitmap_length e > 0 \<and> ebitmap_highest_set_bit e \<ge> v_nprim flavor then Inl EFAIL
      else if ebitmap_match_any e (gaps flavor) then Inl EFAIL
      else Inr ())"

definition validate_type_set :: "type_set \<Rightarrow> validate \<Rightarrow> errcode + unit" where
  "validate_type_set ts f =
     rbind (validate_ebitmap (ts_types ts) f) (\<lambda>_.
     rbind (validate_ebitmap (negset ts) f) (\<lambda>_. ok_unless (ts_flags ts \<in> {0, 1, 2})))"

definition validate_empty_type_set :: "type_set \<Rightarrow> errcode + unit" where
  "validate_empty_type_set ts =
     (if \<not> ebitmap_is_empty (ts_types ts) then Inl EFAIL
      else if \<not> ebitmap_is_empty (negset ts) then Inl EFAIL
      else if ts_flags ts \<noteq> 0 then Inl EFAIL
      else Inr ())"

definition validate_role_set :: "role_set \<Rightarrow> validate \<Rightarrow> errcode + unit" where
  "validate_role_set rs f =
     rbind (validate_ebitmap (rs_roles rs) f) (\<lambda>_. ok_unless (rs_flags rs \<in> {0, 1, 2}))"

abbreviation (input) "SCOPE_REQ \<equiv> 1"
abbreviation (input) "SCOPE_DECL \<equiv> 2"

definition validate_scope :: "u32 \<Rightarrow> scope_datum \<Rightarrow> errcode + unit" where
  "validate_scope n sc =
     rbind (ok_unless (scope_kind sc \<in> {SCOPE_REQ, SCOPE_DECL})) (\<lambda>_.
       check_all (\<lambda>i. ok_unless (value_isvalid i n)) (decl_ids sc))"

definition validate_scopes :: "scope_datum symtab list \<Rightarrow> avrule_block list \<Rightarrow> errcode + unit" where
  "validate_scopes scopes block =
     (let num_decls = of_nat (sum_list (map (\<lambda>b. length (branch_list b)) block))
      in check_all (\<lambda>s. map_check (\<lambda>k. validate_scope num_decls) (table s)) scopes)"

section \<open>Constraints\<close>

text \<open>\<^verbatim>\<open>type_names\<close> is dereferenced without a test.\<close>

definition with_type_names ::
  "constraint_expr \<Rightarrow> (type_set \<Rightarrow> errcode + unit) \<Rightarrow> errcode + unit" where
  "with_type_names e f = (case type_names e of None \<Rightarrow> Inl UNDEF | Some ts \<Rightarrow> f ts)"

definition validate_names_expr :: "bool \<Rightarrow> constraint_expr \<Rightarrow> flavors \<Rightarrow> errcode + unit" where
  "validate_names_expr is_validatetrans e fl =
     (if attr e AND CEXPR_XTARGET \<noteq> 0 \<and> \<not> is_validatetrans then Inl EFAIL
      else
        rbind (if attr e AND CEXPR_TYPE = 0 then with_type_names e validate_empty_type_set else Inr ()) (\<lambda>_.
        rbind (ok_unless (cop e \<in> {CEXPR_EQ, CEXPR_NEQ})) (\<lambda>_.
          if attr e \<in> {CEXPR_USER, CEXPR_USER OR CEXPR_TARGET, CEXPR_USER OR CEXPR_XTARGET}
          then validate_ebitmap (names e) (fl_users fl)
          else if attr e \<in> {CEXPR_ROLE, CEXPR_ROLE OR CEXPR_TARGET, CEXPR_ROLE OR CEXPR_XTARGET}
          then validate_ebitmap (names e) (fl_roles fl)
          else if attr e \<in> {CEXPR_TYPE, CEXPR_TYPE OR CEXPR_TARGET, CEXPR_TYPE OR CEXPR_XTARGET}
          then rbind (validate_ebitmap (names e) (fl_types fl)) (\<lambda>_.
            with_type_names e (\<lambda>ts. validate_type_set ts (fl_types fl)))
          else Inl EFAIL)))"

definition validate_attr_expr :: "constraint_expr \<Rightarrow> errcode + unit" where
  "validate_attr_expr e =
     (if \<not> ebitmap_is_empty (names e) then Inl EFAIL
      else rbind (with_type_names e validate_empty_type_set) (\<lambda>_.
        rbind (if cop e \<in> {CEXPR_EQ, CEXPR_NEQ} then Inr ()
               else if cop e \<in> {CEXPR_DOM, CEXPR_DOMBY, CEXPR_INCOMP} then
                 bad_if (attr e AND CEXPR_USER \<noteq> 0 \<or> attr e AND CEXPR_TYPE \<noteq> 0)
               else Inl EFAIL) (\<lambda>_.
          ok_unless (attr e \<in> {CEXPR_USER, CEXPR_ROLE, CEXPR_TYPE, CEXPR_L1L2, CEXPR_L1H2,
                       CEXPR_H1L2, CEXPR_H1H2, CEXPR_L1H1, CEXPR_L2H2}))))"

definition validate_oper_expr :: "constraint_expr \<Rightarrow> errcode + unit" where
  "validate_oper_expr e =
     (if cop e \<noteq> 0 then Inl EFAIL
      else if attr e \<noteq> 0 then Inl EFAIL
      else if \<not> ebitmap_is_empty (names e) then Inl EFAIL
      else with_type_names e validate_empty_type_set)"

text \<open>The loop over an expression; \<open>depth\<close> is the number of values on the stack minus one.\<close>

fun validate_cexprs :: "bool \<Rightarrow> flavors \<Rightarrow> constraint_expr list \<Rightarrow> int \<Rightarrow> errcode + unit" where
  "validate_cexprs vt fl [] depth = bad_if (depth \<noteq> 0)"
| "validate_cexprs vt fl (e # es) depth =
     (if cexpr_type e = CEXPR_NAMES then
        (if depth \<ge> CEXPR_MAXDEPTH - 1 then Inl EFAIL
         else rbind (validate_names_expr vt e fl) (\<lambda>_. validate_cexprs vt fl es (depth + 1)))
      else if cexpr_type e = CEXPR_ATTR then
        (if depth \<ge> CEXPR_MAXDEPTH - 1 then Inl EFAIL
         else rbind (validate_attr_expr e) (\<lambda>_. validate_cexprs vt fl es (depth + 1)))
      else if cexpr_type e = CEXPR_NOT then
        (if depth < 0 then Inl EFAIL
         else rbind (validate_oper_expr e) (\<lambda>_. validate_cexprs vt fl es depth))
      else if cexpr_type e = CEXPR_AND \<or> cexpr_type e = CEXPR_OR then
        (if depth < 1 then Inl EFAIL
         else rbind (validate_oper_expr e) (\<lambda>_. validate_cexprs vt fl es (depth - 1)))
      else Inl EFAIL)"

abbreviation (input) "PERM_SYMTAB_SIZE \<equiv> 32"

definition validate_constraint_node :: "u32 \<Rightarrow> flavors \<Rightarrow> constraint_node \<Rightarrow> errcode + unit" where
  "validate_constraint_node nperms fl c =
     (let is_validatetrans = (nperms = 0xffffffff) in
      if is_validatetrans \<and> permissions c \<noteq> 0 then Inl EFAIL
      else if \<not> is_validatetrans \<and> permissions c = 0 then Inl EFAIL
      else if \<not> is_validatetrans \<and> nperms \<noteq> PERM_SYMTAB_SIZE \<and> nperms > PERM_SYMTAB_SIZE then Inl UNDEF
      else if \<not> is_validatetrans \<and> nperms \<noteq> PERM_SYMTAB_SIZE \<and>
              permissions c \<ge> push_bit (unat nperms) 1 then Inl EFAIL
      else if cexpr c = [] then Inl EFAIL
      else validate_cexprs is_validatetrans fl (cexpr c) (- 1))"

definition validate_constraint_nodes :: "u32 \<Rightarrow> constraint_node list \<Rightarrow> flavors \<Rightarrow> errcode + unit" where
  "validate_constraint_nodes nperms cons fl =
     (if cons \<noteq> [] \<and> nperms = 0 then Inl EFAIL
      else check_all (validate_constraint_node nperms fl) cons)"

section \<open>Permissions and classes\<close>

text \<open>The state of the traversal is the bitmask of the values seen so far.\<close>

definition perm_visit :: "u32 \<Rightarrow> u32 \<Rightarrow> string \<Rightarrow> perm_datum \<Rightarrow> u32 \<Rightarrow> int \<times> u32" where
  "perm_visit n inherited k d visited =
     (if \<not> value_isvalid (perm_value d) n then (-1, visited)
      else if inherited \<noteq> 0 \<and> value_isvalid (perm_value d) inherited then (-1, visited)
      else if push_bit (unat (perm_value d - 1)) 1 AND visited \<noteq> 0 then (-1, visited)
      else (0, visited OR push_bit (unat (perm_value d - 1)) 1))"

definition validate_permission_symtab :: "perm_datum symtab \<Rightarrow> u32 \<Rightarrow> errcode + unit" where
  "validate_permission_symtab pms inherited =
     bad_if (fst (hashtab_map (perm_visit (nprim pms) inherited) (table pms) 0) \<noteq> 0)"

text \<open>\<^verbatim>\<open>table->nel\<close>.\<close>

definition table_nel :: "'d symtab \<Rightarrow> (u32 \<Rightarrow> errcode + unit) \<Rightarrow> errcode + unit" where
  "table_nel s f = (case table s of None \<Rightarrow> Inl UNDEF | Some h \<Rightarrow> f (nel h))"

definition validate_common_datum :: "flavors \<Rightarrow> common_datum \<Rightarrow> errcode + unit" where
  "validate_common_datum fl c =
     (let pms = common_permissions c in
      rbind (validate_value (common_value c) (fl_commons fl)) (\<lambda>_.
      if nprim pms = 0 \<or> nprim pms > PERM_SYMTAB_SIZE then Inl EFAIL
      else table_nel pms (\<lambda>n.
        if nprim pms \<noteq> n then Inl EFAIL else validate_permission_symtab pms 0)))"

definition validate_class_datum :: "flavors \<Rightarrow> class_datum \<Rightarrow> errcode + unit" where
  "validate_class_datum fl c =
     (let pms = class_permissions c in
      if class_value c > 0xffff then Inl EFAIL
      else rbind (validate_value (class_value c) (fl_classes fl)) (\<lambda>_.
      rbind (case comdatum c of None \<Rightarrow> Inr () | Some com \<Rightarrow> validate_common_datum fl com) (\<lambda>_.
      if nprim pms > PERM_SYMTAB_SIZE then Inl EFAIL
      else table_nel pms (\<lambda>n.
        if n > PERM_SYMTAB_SIZE then Inl EFAIL
        else
          rbind (case comdatum c of
                   None \<Rightarrow> bad_if (nprim pms \<noteq> n)
                 | Some com \<Rightarrow> table_nel (common_permissions com) (\<lambda>k. bad_if (nprim pms \<noteq> n + k))) (\<lambda>_.
          rbind (validate_permission_symtab pms
                   (case comdatum c of None \<Rightarrow> 0 | Some com \<Rightarrow> nprim (common_permissions com))) (\<lambda>_.
          rbind (validate_constraint_nodes (nprim pms) (constraints c) fl) (\<lambda>_.
          rbind (validate_constraint_nodes 0xffffffff (validatetrans c) fl) (\<lambda>_.
          ok_unless (default_user c \<in> {0, DEFAULT_SOURCE, DEFAULT_TARGET} \<and>
            default_role c \<in> {0, DEFAULT_SOURCE, DEFAULT_TARGET} \<and>
            default_type c \<in> {0, DEFAULT_SOURCE, DEFAULT_TARGET} \<and>
            default_range c \<in> {0, 1, 2, 3, 4, 5, 6, 7})))))))))"

section \<open>Roles, types, levels, users, booleans\<close>

definition validate_role_datum :: "flavors \<Rightarrow> role_datum \<Rightarrow> errcode + unit" where
  "validate_role_datum fl r =
     rbind (validate_value (role_value r) (fl_roles fl)) (\<lambda>_.
     rbind (validate_ebitmap (dominates r) (fl_roles fl)) (\<lambda>_.
     rbind (validate_type_set (role_types r) (fl_types fl)) (\<lambda>_.
     rbind (if role_bounds r \<noteq> 0 then validate_value (role_bounds r) (fl_roles fl) else Inr ()) (\<lambda>_.
     rbind (validate_ebitmap (role_roles r) (fl_roles fl)) (\<lambda>_.
       ok_unless (role_flavor r \<in> {0, 1}))))))"

definition validate_simpletype :: "u32 \<Rightarrow> policydb \<Rightarrow> flavors \<Rightarrow> errcode + unit" where
  "validate_simpletype v p fl =
     rbind (validate_value v (fl_types fl)) (\<lambda>_.
       case arr (type_val_to_struct p) (unat (v - 1)) of
         None \<Rightarrow> Inl UNDEF
       | Some None \<Rightarrow> Inl EFAIL
       | Some (Some t) \<Rightarrow> bad_if (type_flavor t = TYPE_ATTRIB))"

abbreviation (input) "TYPE_TYPE \<equiv> 0"
abbreviation (input) "TYPE_ALIAS \<equiv> 2"

definition validate_type_datum :: "policydb \<Rightarrow> flavors \<Rightarrow> type_datum \<Rightarrow> errcode + unit" where
  "validate_type_datum p fl t =
     rbind (validate_value (type_value t) (fl_types fl)) (\<lambda>_.
     rbind (if primary t \<noteq> 0 then validate_value (primary t) (fl_types fl) else Inr ()) (\<lambda>_.
     rbind (if type_flavor t = TYPE_TYPE \<or> type_flavor t = TYPE_ALIAS then
              (if \<not> ebitmap_is_empty (type_types t) then Inl EFAIL
               else if bounds t \<noteq> 0 then validate_simpletype (bounds t) p fl else Inr ())
            else if type_flavor t = TYPE_ATTRIB then
              rbind (validate_ebitmap (type_types t) (fl_types fl)) (\<lambda>_. bad_if (bounds t \<noteq> 0))
            else Inl EFAIL) (\<lambda>_.
       ok_unless (type_flags t \<in> {0, 1, 2, 4, 6}))))"

definition validate_mls_semantic_cat :: "validate \<Rightarrow> mls_semantic_cat \<Rightarrow> errcode + unit" where
  "validate_mls_semantic_cat cats c =
     rbind (validate_value (scat_low c) cats) (\<lambda>_.
     rbind (validate_value (scat_high c) cats) (\<lambda>_. bad_if (scat_low c > scat_high c)))"

definition validate_mls_semantic_level :: "mls_semantic_level \<Rightarrow> validate \<Rightarrow> validate \<Rightarrow> errcode + unit" where
  "validate_mls_semantic_level l sns cats =
     (if ssens l = 0 then Inr ()
      else rbind (validate_value (ssens l) sns) (\<lambda>_.
        check_all (validate_mls_semantic_cat cats) (scat l)))"

definition validate_mls_semantic_range :: "mls_semantic_range \<Rightarrow> validate \<Rightarrow> validate \<Rightarrow> errcode + unit" where
  "validate_mls_semantic_range r sns cats =
     rbind (validate_mls_semantic_level (slow r) sns cats) (\<lambda>_.
       validate_mls_semantic_level (shigh r) sns cats)"

definition validate_mls_level :: "mls_level \<Rightarrow> validate \<Rightarrow> validate \<Rightarrow> errcode + unit" where
  "validate_mls_level l sns cats =
     rbind (validate_value (sens l) sns) (\<lambda>_. validate_ebitmap (cat l) cats)"

definition validate_mls_range :: "mls_range \<Rightarrow> validate \<Rightarrow> validate \<Rightarrow> errcode + unit" where
  "validate_mls_range r sns cats =
     rbind (validate_mls_level (low r) sns cats) (\<lambda>_. validate_mls_level (high r) sns cats)"

definition validate_level_datum :: "policydb \<Rightarrow> flavors \<Rightarrow> level_datum \<Rightarrow> errcode + unit" where
  "validate_level_datum p fl l =
     (if notdefined l \<noteq> 0 then Inl EFAIL
      else rbind (validate_mls_level (lev l) (fl_levels fl) (fl_cats fl)) (\<lambda>_.
        if lev_isalias l \<noteq> 0 then
          (case ptr_arr (p_sens_val_to_name p) (unat (sens (lev l) - 1)) of
             None \<Rightarrow> Inl UNDEF
           | Some nam \<Rightarrow>
               (case sym_search (table (p_levels p)) nam of
                  None \<Rightarrow> Inl EFAIL
                | Some actual \<Rightarrow> ok_unless (ebitmap_cmp (cat (lev l)) (cat (lev actual)))))
        else Inr ()))"

definition validate_user_datum :: "policydb \<Rightarrow> flavors \<Rightarrow> user_datum \<Rightarrow> errcode + unit" where
  "validate_user_datum p fl u =
     rbind (validate_value (user_value u) (fl_users fl)) (\<lambda>_.
     rbind (validate_role_set (user_roles u) (fl_roles fl)) (\<lambda>_.
     rbind (validate_mls_semantic_range (user_range u) (fl_levels fl) (fl_cats fl)) (\<lambda>_.
     rbind (validate_mls_semantic_level (dfltlevel u) (fl_levels fl) (fl_cats fl)) (\<lambda>_.
     rbind (if mls p \<and> policy_type p \<noteq> POLICY_MOD
            then validate_mls_range (exp_range u) (fl_levels fl) (fl_cats fl) else Inr ()) (\<lambda>_.
     rbind (if mls p \<and> policy_type p \<noteq> POLICY_MOD
            then validate_mls_level (exp_dfltlevel u) (fl_levels fl) (fl_cats fl) else Inr ()) (\<lambda>_.
       if user_bounds u \<noteq> 0 then validate_value (user_bounds u) (fl_users fl) else Inr ()))))))"

abbreviation (input) "COND_BOOL_FLAGS_TUNABLE \<equiv> 1"

definition validate_bool_datum :: "flavors \<Rightarrow> cond_bool_datum \<Rightarrow> errcode + unit" where
  "validate_bool_datum fl b =
     rbind (validate_value (bool_value b) (fl_bools fl)) (\<lambda>_.
     rbind (ok_unless (bool_state b \<in> {0, 1})) (\<lambda>_.
       ok_unless (bool_flags b \<in> {0, COND_BOOL_FLAGS_TUNABLE})))"

end
