(* ===== verification/Validate_Policy.thy ===== *)
theory Validate_Policy
  imports Validate
begin

text \<open>
  The validator of \<^verbatim>\<open>src/policydb_validate.c\<close>, second part: rules of kernel policies and of
  modules, object contexts, the datum arrays, the properties of the policy, and
  \<^verbatim>\<open>policydb_validate\<close> itself.
\<close>

abbreviation (input) "MOD_POLICYDB_VERSION_MIN \<equiv> 4"
abbreviation (input) "MOD_POLICYDB_VERSION_MAX \<equiv> 22"
abbreviation (input) "MOD_POLICYDB_VERSION_MLS \<equiv> 5"
abbreviation (input) "POLICYDB_VERSION_MIN \<equiv> 15"
abbreviation (input) "POLICYDB_VERSION_MAX \<equiv> 34"
abbreviation (input) "POLICYDB_VERSION_BOOL \<equiv> 16"
abbreviation (input) "POLICYDB_VERSION_MLS \<equiv> 19"
abbreviation (input) "POLICYDB_VERSION_FILENAME_TRANS \<equiv> 25"
abbreviation (input) "POLICYDB_VERSION_XEN_DEVICETREE \<equiv> 30"

section \<open>The datum arrays\<close>

text \<open>One loop of \<^verbatim>\<open>validate_datum_array_gaps\<close>: a struct exactly where there is no gap.\<close>

definition array_gaps :: "'d option list \<Rightarrow> u32 \<Rightarrow> ebitmap \<Rightarrow> errcode + unit" where
  "array_gaps structs n g =
     check_all (\<lambda>i. case arr structs i of
        None \<Rightarrow> Inl UNDEF
      | Some d \<Rightarrow> bad_if ((d \<noteq> None) = ebitmap_get_bit g (of_nat i))) [0..<unat n]"

definition validate_datum_array_gaps :: "policydb \<Rightarrow> flavors \<Rightarrow> errcode + unit" where
  "validate_datum_array_gaps p fl =
     rbind (array_gaps (class_val_to_struct p) (nprim (p_classes p)) (gaps (fl_classes fl))) (\<lambda>_.
     rbind (array_gaps (role_val_to_struct p) (nprim (p_roles p)) (gaps (fl_roles fl))) (\<lambda>_.
     rbind (if \<not> nameless_attributes p
            then array_gaps (type_val_to_struct p) (nprim (p_types p)) (gaps (fl_types fl)) else Inr ()) (\<lambda>_.
     rbind (array_gaps (user_val_to_struct p) (nprim (p_users p)) (gaps (fl_users fl))) (\<lambda>_.
       array_gaps (bool_val_to_struct p) (nprim (p_bools p)) (gaps (fl_bools fl))))))"

definition validate_datum :: "('d \<Rightarrow> u32) \<Rightarrow> u32 \<Rightarrow> string \<Rightarrow> 'd \<Rightarrow> errcode + unit" where
  "validate_datum val n k d = ok_unless (value_isvalid (val d) n)"

definition validate_datum_array_entries :: "policydb \<Rightarrow> flavors \<Rightarrow> errcode + unit" where
  "validate_datum_array_entries p fl =
     rbind (map_check (\<lambda>k. validate_common_datum fl) (table (p_commons p))) (\<lambda>_.
     rbind (map_check (\<lambda>k. validate_class_datum fl) (table (p_classes p))) (\<lambda>_.
     rbind (map_check (\<lambda>k. validate_role_datum fl) (table (p_roles p))) (\<lambda>_.
     rbind (map_check (\<lambda>k. validate_type_datum p fl) (table (p_types p))) (\<lambda>_.
     rbind (map_check (\<lambda>k. validate_user_datum p fl) (table (p_users p))) (\<lambda>_.
     rbind (if mls p then map_check (\<lambda>k. validate_level_datum p fl) (table (p_levels p)) else Inr ()) (\<lambda>_.
     rbind (map_check (validate_datum cat_value (v_nprim (fl_cats fl))) (table (p_cats p))) (\<lambda>_.
       map_check (\<lambda>k. validate_bool_datum fl) (table (p_bools p)))))))))"

section \<open>Rules of a kernel policy\<close>

definition validate_avtab_key :: "avtab_key \<Rightarrow> bool \<Rightarrow> policydb \<Rightarrow> flavors \<Rightarrow> errcode + unit" where
  "validate_avtab_key k conditional p fl =
     rbind (if policy_type p = POLICY_KERN \<and> specified k AND AVTAB_TYPE \<noteq> 0 then
              rbind (validate_simpletype (ucast (source_type k)) p fl) (\<lambda>_.
                validate_simpletype (ucast (target_type k)) p fl)
            else
              rbind (validate_value (ucast (source_type k)) (fl_types fl)) (\<lambda>_.
                validate_value (ucast (target_type k)) (fl_types fl))) (\<lambda>_.
     rbind (validate_value (ucast (target_class k)) (fl_classes fl)) (\<lambda>_.
       let s = specified k AND 0x0fff in
       if s \<in> {AVTAB_ALLOWED, AVTAB_AUDITALLOW, AVTAB_AUDITDENY, AVTAB_TRANSITION, AVTAB_MEMBER,
               AVTAB_CHANGE} then Inr ()
       else if s \<in> {AVTAB_XPERMS_ALLOWED, AVTAB_XPERMS_AUDITALLOW, AVTAB_XPERMS_DONTAUDIT} then
         (if target_platform p \<noteq> SEPOL_TARGET_SELINUX then Inl EFAIL
          else bad_if (conditional \<and> \<not> policydb_has_cond_xperms_feature p))
       else Inl EFAIL))"

definition validate_xperms :: "avtab_extended_perms \<Rightarrow> errcode + unit" where
  "validate_xperms x = ok_unless (xspecified x \<in> {1, 2, 3})"

text \<open>\<^verbatim>\<open>PERMISSION_MASK\<close>; the shift by more than 31 is undefined.\<close>

definition permission_mask :: "u32 \<Rightarrow> u32 option" where
  "permission_mask n =
     (if n = PERM_SYMTAB_SIZE then Some 0xffffffff
      else if n > PERM_SYMTAB_SIZE then None
      else Some (push_bit (unat n) 1 - 1))"

definition validate_access_vector :: "policydb \<Rightarrow> u16 \<Rightarrow> u32 \<Rightarrow> errcode + unit" where
  "validate_access_vector p tclass av =
     (case ptr_arr (class_val_to_struct p) (unat (tclass - 1)) of
        None \<Rightarrow> Inl UNDEF
      | Some cladatum \<Rightarrow>
          (case permission_mask (nprim (class_permissions cladatum)) of
             None \<Rightarrow> Inl UNDEF
           | Some msk \<Rightarrow> bad_if (av AND msk = 0)))"

definition validate_avtab_key_and_datum ::
  "bool \<Rightarrow> policydb \<Rightarrow> flavors \<Rightarrow> avtab_key \<Rightarrow> avtab_datum \<Rightarrow> errcode + unit" where
  "validate_avtab_key_and_datum conditional p fl k d =
     rbind (validate_avtab_key k conditional p fl) (\<lambda>_.
     rbind (if specified k AND AVTAB_AV \<noteq> 0 then
              validate_access_vector p (target_class k)
                (if specified k AND 0x0fff = AVTAB_AUDITDENY then NOT (data d) else data d)
            else Inr ()) (\<lambda>_.
     rbind (if specified k AND AVTAB_TYPE \<noteq> 0 then validate_simpletype (data d) p fl else Inr ()) (\<lambda>_.
       if specified k AND AVTAB_XPERMS \<noteq> 0 then
         rbind (if data d \<noteq> 0 then validate_access_vector p (target_class k) (data d) else Inr ()) (\<lambda>_.
           case xperms d of None \<Rightarrow> Inl UNDEF | Some x \<Rightarrow> validate_xperms x)
       else Inr ())))"

definition validate_avtab :: "avtab \<Rightarrow> policydb \<Rightarrow> flavors \<Rightarrow> errcode + unit" where
  "validate_avtab h p fl =
     snd (avtab_map h (\<lambda>k d st. case validate_avtab_key_and_datum False p fl k d of
            Inl err \<Rightarrow> (-1, Inl err) | Inr _ \<Rightarrow> (0, st)) (Inr ()))"

text \<open>
  The inner loop follows \<^verbatim>\<open>next\<close> from the node of the list: the rest of its chain is validated
  as well.
\<close>

definition chain_from :: "avtab \<Rightarrow> nat \<Rightarrow> avtab_node list" where
  "chain_from h a =
     (case avtable h of None \<Rightarrow> [] | Some t \<Rightarrow> concat (map (dropWhile (\<lambda>n. addr n \<noteq> a)) t))"

definition validate_cond_av_list :: "cond_av_list \<Rightarrow> policydb \<Rightarrow> flavors \<Rightarrow> errcode + unit" where
  "validate_cond_av_list l p fl =
     check_all (\<lambda>a.
       if chain_from (te_cond_avtab p) a = [] then Inl UNDEF
       else check_all (\<lambda>n. validate_avtab_key_and_datum True p fl (key n) (datum n))
              (chain_from (te_cond_avtab p) a)) l"

section \<open>Rules of a module\<close>

abbreviation (input) "AVRULE_NEVERALLOW \<equiv> 0x0080"
abbreviation (input) "AVRULE_XPERMS_NEVERALLOW \<equiv> 0x0800"

definition validate_avrule :: "bool \<Rightarrow> policydb \<Rightarrow> flavors \<Rightarrow> avrule \<Rightarrow> errcode + unit" where
  "validate_avrule conditional p fl r =
     rbind (validate_type_set (avr_stypes r) (fl_types fl)) (\<lambda>_.
     rbind (validate_type_set (avr_ttypes r) (fl_types fl)) (\<lambda>_.
     rbind (if avr_specified r \<in> {0x0001, 0x0002, 0x0004, 0x0008, 0x0010, 0x0020, 0x0040} then Inr ()
            else if avr_specified r \<in> {AVRULE_NEVERALLOW, 0x0100, 0x0200, 0x0400, AVRULE_XPERMS_NEVERALLOW}
            then bad_if (conditional \<and> \<not> policydb_has_cond_xperms_feature p)
            else Inl EFAIL) (\<lambda>_.
     rbind (check_all (\<lambda>c.
              rbind (validate_value (cp_tclass c) (fl_classes fl)) (\<lambda>_.
                if avr_specified r AND AVRULE_TYPE \<noteq> 0 then validate_simpletype (cp_data c) p fl
                else Inr ())) (avr_perms r)) (\<lambda>_.
     rbind (if avr_specified r AND AVRULE_XPERMS \<noteq> 0 then
              (if target_platform p \<noteq> SEPOL_TARGET_SELINUX then Inl EFAIL
               else case avr_xperms r of
                 None \<Rightarrow> Inl EFAIL
               | Some x \<Rightarrow> ok_unless (avx_specified x \<in> {1, 2, 3}))
            else bad_if (avr_xperms r \<noteq> None)) (\<lambda>_.
       if avr_flags r = 0 then Inr ()
       else if avr_flags r = RULE_SELF then
         bad_if (policyvers p \<noteq> POLICY_KERN \<and> policyvers p < MOD_POLICYDB_VERSION_SELF_TYPETRANS \<and>
                 avr_specified r AND AVRULE_TYPE \<noteq> 0)
       else if avr_flags r = RULE_NOTSELF then
         ok_unless (avr_specified r \<in> {AVRULE_NEVERALLOW, AVRULE_XPERMS_NEVERALLOW})
       else Inl EFAIL)))))"

definition validate_avrules :: "avrule list \<Rightarrow> bool \<Rightarrow> policydb \<Rightarrow> flavors \<Rightarrow> errcode + unit" where
  "validate_avrules rs conditional p fl = check_all (validate_avrule conditional p fl) rs"

section \<open>Conditionals\<close>

definition validate_bool_id_array :: "u32 list \<Rightarrow> u32 \<Rightarrow> validate \<Rightarrow> errcode + unit" where
  "validate_bool_id_array ids n f =
     (if n \<ge> COND_MAX_BOOLS then Inl EFAIL
      else check_all (\<lambda>i. case arr ids i of None \<Rightarrow> Inl UNDEF | Some b \<Rightarrow> validate_value b f) [0..<unat n])"

fun validate_cond_exprs :: "validate \<Rightarrow> cond_expr list \<Rightarrow> int \<Rightarrow> errcode + unit" where
  "validate_cond_exprs f [] depth = bad_if (depth \<noteq> 0)"
| "validate_cond_exprs f (e # es) depth =
     (if expr_type e = COND_BOOL then
        rbind (validate_value (boolean e) f) (\<lambda>_.
          if depth \<ge> COND_EXPR_MAXDEPTH - 1 then Inl EFAIL else validate_cond_exprs f es (depth + 1))
      else if expr_type e = COND_NOT then
        (if depth < 0 then Inl EFAIL
         else if boolean e \<noteq> 0 then Inl EFAIL
         else validate_cond_exprs f es depth)
      else if expr_type e \<in> {COND_OR, COND_AND, COND_XOR, COND_EQ, COND_NEQ} then
        (if depth < 1 then Inl EFAIL
         else if boolean e \<noteq> 0 then Inl EFAIL
         else validate_cond_exprs f es (depth - 1))
      else Inl EFAIL)"

definition validate_cond_expr :: "cond_expr list \<Rightarrow> validate \<Rightarrow> errcode + unit" where
  "validate_cond_expr es f = (if es = [] then Inl EFAIL else validate_cond_exprs f es (- 1))"

definition validate_cond_node :: "policydb \<Rightarrow> flavors \<Rightarrow> cond_node \<Rightarrow> errcode + unit" where
  "validate_cond_node p fl c =
     rbind (validate_cond_expr (expr c) (fl_bools fl)) (\<lambda>_.
     rbind (validate_cond_av_list (true_list c) p fl) (\<lambda>_.
     rbind (validate_cond_av_list (false_list c) p fl) (\<lambda>_.
     rbind (validate_avrules (avtrue_list c) True p fl) (\<lambda>_.
     rbind (validate_avrules (avfalse_list c) True p fl) (\<lambda>_.
     rbind (validate_bool_id_array (bool_ids c) (nbools c) (fl_bools fl)) (\<lambda>_.
     rbind (ok_unless (cur_state c \<in> {0, 1})) (\<lambda>_.
       ok_unless (cond_flags c \<in> {0, 1}))))))))"

definition validate_cond_list :: "cond_node list \<Rightarrow> policydb \<Rightarrow> flavors \<Rightarrow> errcode + unit" where
  "validate_cond_list cl p fl = check_all (validate_cond_node p fl) cl"

section \<open>Role and file name transitions\<close>

definition validate_role_transes :: "role_trans list \<Rightarrow> flavors \<Rightarrow> errcode + unit" where
  "validate_role_transes rts fl =
     check_all (\<lambda>rt.
       rbind (validate_value (rt_role rt) (fl_roles fl)) (\<lambda>_.
       rbind (validate_value (rt_type rt) (fl_types fl)) (\<lambda>_.
       rbind (validate_value (rt_tclass rt) (fl_classes fl)) (\<lambda>_.
         validate_value (new_role rt) (fl_roles fl))))) rts"

definition validate_role_allows :: "role_allow list \<Rightarrow> flavors \<Rightarrow> errcode + unit" where
  "validate_role_allows ras fl =
     check_all (\<lambda>ra.
       rbind (validate_value (ra_role ra) (fl_roles fl)) (\<lambda>_.
         validate_value (ra_new_role ra) (fl_roles fl))) ras"

definition validate_filename_trans ::
  "policydb \<Rightarrow> flavors \<Rightarrow> filename_trans_key \<Rightarrow> filename_trans_datum list \<Rightarrow> errcode + unit" where
  "validate_filename_trans p fl ftk ftd =
     rbind (validate_value (ftk_ttype ftk) (fl_types fl)) (\<lambda>_.
     rbind (validate_value (ftk_tclass ftk) (fl_classes fl)) (\<lambda>_.
       if ftd = [] then Inl EFAIL
       else check_all (\<lambda>d.
         rbind (validate_ebitmap (ftd_stypes d) (fl_types fl)) (\<lambda>_.
           validate_simpletype (ftd_otype d) p fl)) ftd))"

definition validate_filename_trans_hashtab :: "policydb \<Rightarrow> flavors \<Rightarrow> errcode + unit" where
  "validate_filename_trans_hashtab p fl = map_check (validate_filename_trans p fl) (filename_trans p)"

section \<open>Contexts\<close>

definition validate_context :: "context_struct \<Rightarrow> flavors \<Rightarrow> bool \<Rightarrow> errcode + unit" where
  "validate_context c fl is_mls =
     rbind (validate_value (user c) (fl_users fl)) (\<lambda>_.
     rbind (validate_value (role c) (fl_roles fl)) (\<lambda>_.
     rbind (validate_value (type c) (fl_types fl)) (\<lambda>_.
       if is_mls then validate_mls_range (range c) (fl_levels fl) (fl_cats fl) else Inr ())))"

text \<open>\<^verbatim>\<open>!octx->u.name\<close>: the lists hold only names and zeroed unions.\<close>

definition needs_name :: "ocontext \<Rightarrow> errcode + unit" where
  "needs_name c = (case ou c of OName _ \<Rightarrow> Inr () | ONull \<Rightarrow> Inl EFAIL | _ \<Rightarrow> Inl UNDEF)"

text \<open>The switch over the kind of the list; a union member of another kind is not read back.\<close>

definition validate_ocontext_selinux :: "policydb \<Rightarrow> flavors \<Rightarrow> nat \<Rightarrow> ocontext \<Rightarrow> errcode + unit" where
  "validate_ocontext_selinux p fl i c =
     (if i = 0 then bad_if (sid0 c = 0 \<or> sid0 c \<ge> 28)
      else if i = 1 \<or> i = 3 then
        rbind (validate_context (context1 c) fl (mls p)) (\<lambda>_. needs_name c)
      else if i = 2 then
        (case ou c of ONull \<Rightarrow> Inr () | OPort pr lo hi \<Rightarrow> bad_if (lo > hi) | _ \<Rightarrow> Inl UNDEF)
      else if i = 5 then
        rbind (ok_unless (ov c \<in> {1, 2, 3})) (\<lambda>_. needs_name c)
      else if i = 7 then
        (case ou c of ONull \<Rightarrow> Inr () | OIbpkey pre lo hi \<Rightarrow> bad_if (lo > hi) | _ \<Rightarrow> Inl UNDEF)
      else if i = 8 then
        (case ou c of ONull \<Rightarrow> Inl EFAIL | OIbendport dev prt \<Rightarrow> bad_if (prt = 0) | _ \<Rightarrow> Inl UNDEF)
      else Inr ())"

definition validate_ocontext_xen :: "policydb \<Rightarrow> nat \<Rightarrow> ocontext \<Rightarrow> errcode + unit" where
  "validate_ocontext_xen p i c =
     (if i = 0 then bad_if (sid0 c = 0 \<or> sid0 c \<ge> 13)
      else if i = 2 then
        (case ou c of ONull \<Rightarrow> Inr () | OIoport lo hi \<Rightarrow> bad_if (lo > hi) | _ \<Rightarrow> Inl UNDEF)
      else if i = 3 then
        (case ou c of
           ONull \<Rightarrow> Inr ()
         | OIomem lo hi \<Rightarrow>
             if lo > hi then Inl EFAIL
             else bad_if (policyvers p < POLICYDB_VERSION_XEN_DEVICETREE \<and> hi > 0xffffffff)
         | _ \<Rightarrow> Inl UNDEF)
      else if i = 5 then needs_name c
      else Inr ())"

definition ocontexts :: "policydb \<Rightarrow> ocontext list list" where
  "ocontexts p =
     [ocon_isid p, ocon_fs p, ocon_port p, ocon_netif p, ocon_node p, ocon_fsuse p, ocon_node6 p,
      ocon_ibpkey p, ocon_ibendport p]"

definition validate_ocontexts :: "policydb \<Rightarrow> flavors \<Rightarrow> errcode + unit" where
  "validate_ocontexts p fl =
     check_all (\<lambda>(i, ocs).
       check_all (\<lambda>c.
         rbind (validate_context (context0 c) fl (mls p)) (\<lambda>_.
           if target_platform p = SEPOL_TARGET_SELINUX then validate_ocontext_selinux p fl i c
           else if target_platform p = SEPOL_TARGET_XEN then validate_ocontext_xen p i c
           else Inr ())) ocs) (enumerate 0 (ocontexts p))"

text \<open>The file system type of an entry is a string in the model, never null.\<close>

definition validate_genfs :: "policydb \<Rightarrow> flavors \<Rightarrow> errcode + unit" where
  "validate_genfs p fl =
     check_all (\<lambda>g. check_all (\<lambda>c.
       rbind (validate_context (context0 c) fl (mls p)) (\<lambda>_.
         if ov c \<noteq> 0 then validate_value (ov c) (fl_classes fl) else Inr ())) (gen_head g))
       (genfs_list p)"

section \<open>Blocks of a module\<close>

definition validate_role_trans_rules :: "role_trans_rule list \<Rightarrow> flavors \<Rightarrow> errcode + unit" where
  "validate_role_trans_rules rs fl =
     check_all (\<lambda>r.
       rbind (validate_role_set (rtu_roles r) (fl_roles fl)) (\<lambda>_.
       rbind (validate_type_set (rtu_types r) (fl_types fl)) (\<lambda>_.
       rbind (validate_ebitmap (rtu_classes r) (fl_classes fl)) (\<lambda>_.
         validate_value (rtu_new_role r) (fl_roles fl))))) rs"

definition validate_role_allow_rules :: "role_allow_rule list \<Rightarrow> flavors \<Rightarrow> errcode + unit" where
  "validate_role_allow_rules rs fl =
     check_all (\<lambda>r.
       rbind (validate_role_set (rau_roles r) (fl_roles fl)) (\<lambda>_.
         validate_role_set (rau_new_roles r) (fl_roles fl))) rs"

definition validate_range_trans_rules :: "range_trans_rule list \<Rightarrow> flavors \<Rightarrow> errcode + unit" where
  "validate_range_trans_rules rs fl =
     check_all (\<lambda>r.
       rbind (validate_type_set (rgr_stypes r) (fl_types fl)) (\<lambda>_.
       rbind (validate_type_set (rgr_ttypes r) (fl_types fl)) (\<lambda>_.
       rbind (validate_ebitmap (rgr_tclasses r) (fl_classes fl)) (\<lambda>_.
         validate_mls_semantic_range (rgr_trange r) (fl_levels fl) (fl_cats fl))))) rs"

definition validate_scope_index :: "scope_index \<Rightarrow> flavors \<Rightarrow> errcode + unit" where
  "validate_scope_index sc fl =
     rbind (ok_unless (ebitmap_is_empty (sc_commons sc))) (\<lambda>_.
     rbind (validate_ebitmap (sc_classes sc) (fl_classes fl)) (\<lambda>_.
     rbind (validate_ebitmap (sc_roles sc) (fl_roles fl)) (\<lambda>_.
     rbind (validate_ebitmap (sc_types sc) (fl_types fl)) (\<lambda>_.
     rbind (validate_ebitmap (sc_users sc) (fl_users fl)) (\<lambda>_.
     rbind (validate_ebitmap (sc_bools sc) (fl_bools fl)) (\<lambda>_.
     rbind (validate_ebitmap (sc_sens sc) (fl_levels fl)) (\<lambda>_.
     rbind (validate_ebitmap (sc_cats sc) (fl_cats fl)) (\<lambda>_.
       check_all (\<lambda>i. validate_value (of_nat i + 1) (fl_classes fl))
         [0..<unat (class_perms_len sc)]))))))))"

definition validate_filename_trans_rules :: "filename_trans_rule list \<Rightarrow> policydb \<Rightarrow> flavors \<Rightarrow> errcode + unit" where
  "validate_filename_trans_rules rs p fl =
     check_all (\<lambda>r.
       rbind (validate_type_set (ftr_stypes r) (fl_types fl)) (\<lambda>_.
       rbind (validate_type_set (ftr_ttypes r) (fl_types fl)) (\<lambda>_.
       rbind (validate_value (ftr_tclass r) (fl_classes fl)) (\<lambda>_.
       rbind (validate_simpletype (ftr_otype r) p fl) (\<lambda>_.
         if ftr_flags r = 0 then Inr ()
         else if ftr_flags r = RULE_SELF then
           bad_if (policyvers p \<noteq> POLICY_KERN \<and> policyvers p < MOD_POLICYDB_VERSION_SELF_TYPETRANS)
         else Inl EFAIL))))) rs"

text \<open>
  \<^verbatim>\<open>validate_datum\<close> reads the first word of a datum as its value. A sensitivity starts with the
  pointer \<^verbatim>\<open>level\<close> instead, so what it reads there is not a value.
\<close>

definition validate_symtabs :: "avrule_decl \<Rightarrow> flavors \<Rightarrow> errcode + unit" where
  "validate_symtabs d fl =
     rbind (map_check (validate_datum common_value (v_nprim (fl_commons fl))) (table (decl_commons d))) (\<lambda>_.
     rbind (map_check (validate_datum class_value (v_nprim (fl_classes fl))) (table (decl_classes d))) (\<lambda>_.
     rbind (map_check (validate_datum role_value (v_nprim (fl_roles fl))) (table (decl_roles d))) (\<lambda>_.
     rbind (map_check (validate_datum type_value (v_nprim (fl_types fl))) (table (decl_types d))) (\<lambda>_.
     rbind (map_check (validate_datum user_value (v_nprim (fl_users fl))) (table (decl_users d))) (\<lambda>_.
     rbind (map_check (validate_datum bool_value (v_nprim (fl_bools fl))) (table (decl_bools d))) (\<lambda>_.
     rbind (map_check (\<lambda>k l. Inl UNDEF) (table (decl_levels d))) (\<lambda>_.
       map_check (validate_datum cat_value (v_nprim (fl_cats fl))) (table (decl_cats d)))))))))"

definition validate_avrule_decl :: "policydb \<Rightarrow> flavors \<Rightarrow> avrule_decl \<Rightarrow> errcode + unit" where
  "validate_avrule_decl p fl d =
     rbind (validate_cond_list (decl_cond_list d) p fl) (\<lambda>_.
     rbind (validate_avrules (decl_avrules d) False p fl) (\<lambda>_.
     rbind (validate_role_trans_rules (decl_role_tr_rules d) fl) (\<lambda>_.
     rbind (validate_role_allow_rules (decl_role_allow_rules d) fl) (\<lambda>_.
     rbind (validate_range_trans_rules (decl_range_tr_rules d) fl) (\<lambda>_.
     rbind (validate_scope_index (decl_required d) fl) (\<lambda>_.
     rbind (validate_scope_index (decl_declared d) fl) (\<lambda>_.
     rbind (validate_filename_trans_rules (decl_filename_trans_rules d) p fl) (\<lambda>_.
       validate_symtabs d fl))))))))"

definition validate_avrule_blocks :: "avrule_block list \<Rightarrow> policydb \<Rightarrow> flavors \<Rightarrow> errcode + unit" where
  "validate_avrule_blocks bs p fl =
     check_all (\<lambda>b.
       rbind (check_all (validate_avrule_decl p fl) (branch_list b)) (\<lambda>_.
         ok_unless (block_flags b \<in> {0, 1}))) bs"

section \<open>Maps and properties\<close>

definition validate_permissives :: "policydb \<Rightarrow> flavors \<Rightarrow> errcode + unit" where
  "validate_permissives p fl =
     check_all (\<lambda>i. validate_simpletype i p fl) (ebitmap_positive_bits (permissive_map p))"

definition validate_range_transition :: "flavors \<Rightarrow> range_trans \<Rightarrow> mls_range \<Rightarrow> errcode + unit" where
  "validate_range_transition fl rt r =
     rbind (validate_value (rtr_source_type rt) (fl_types fl)) (\<lambda>_.
     rbind (validate_value (rtr_target_type rt) (fl_types fl)) (\<lambda>_.
     rbind (validate_value (rtr_target_class rt) (fl_classes fl)) (\<lambda>_.
       validate_mls_range r (fl_levels fl) (fl_cats fl))))"

definition validate_range_transitions :: "policydb \<Rightarrow> flavors \<Rightarrow> errcode + unit" where
  "validate_range_transitions p fl = map_check (validate_range_transition fl) (range_tr p)"

text \<open>\<^verbatim>\<open>validate_typeattr_map\<close> and \<^verbatim>\<open>validate_attrtype_map\<close>, which differ in the array.\<close>

definition validate_type_maps :: "ebitmap list \<Rightarrow> policydb \<Rightarrow> flavors \<Rightarrow> errcode + unit" where
  "validate_type_maps maps p fl =
     (if policy_type p = POLICY_KERN then
        check_all (\<lambda>i. case arr maps i of None \<Rightarrow> Inl UNDEF | Some e \<Rightarrow> validate_ebitmap e (fl_types fl))
          [0..<unat (nprim (p_types p))]
      else bad_if (maps \<noteq> []))"

definition validate_typeattr_map :: "policydb \<Rightarrow> flavors \<Rightarrow> errcode + unit" where
  "validate_typeattr_map p fl = validate_type_maps (type_attr_map p) p fl"

definition validate_attrtype_map :: "policydb \<Rightarrow> flavors \<Rightarrow> errcode + unit" where
  "validate_attrtype_map p fl = validate_type_maps (attr_type_map p) p fl"

definition validate_properties :: "policydb \<Rightarrow> errcode + unit" where
  "validate_properties p =
     rbind (if policy_type p = POLICY_KERN then
              (if policyvers p < POLICYDB_VERSION_MIN \<or> policyvers p > POLICYDB_VERSION_MAX then Inl EFAIL
               else bad_if (mls p \<and> policyvers p < POLICYDB_VERSION_MLS))
            else if policy_type p = POLICY_BASE \<or> policy_type p = POLICY_MOD then
              (if policyvers p < MOD_POLICYDB_VERSION_MIN \<or> policyvers p > MOD_POLICYDB_VERSION_MAX
               then Inl EFAIL
               else bad_if (mls p \<and> policyvers p < MOD_POLICYDB_VERSION_MLS))
            else Inl EFAIL) (\<lambda>_.
     rbind (ok_unless (target_platform p \<in> {SEPOL_TARGET_SELINUX, SEPOL_TARGET_XEN})) (\<lambda>_.
       ok_unless (handle_unknown p \<in> {0, 2, 4})))"

definition polcap_names :: "string list" where
  "polcap_names =
     [''network_peer_controls'', ''open_perms'', ''extended_socket_class'', ''always_check_network'',
      ''cgroup_seclabel'', ''nnp_nosuid_transition'', ''genfs_seclabel_symlinks'',
      ''ioctl_skip_cloexec'', ''userspace_initial_context'', ''netlink_xperm'']"

definition sepol_polcap_getname :: "u32 \<Rightarrow> string option" where
  "sepol_polcap_getname capnum = (if capnum > 9 then None else Some (polcap_names ! unat capnum))"

definition lower_char :: "char \<Rightarrow> char" where
  "lower_char c = (if 65 \<le> (of_char c :: nat) \<and> (of_char c :: nat) \<le> 90 then char_of ((of_char c :: nat) + 32) else c)"

text \<open>\<^verbatim>\<open>strcasecmp(polcap_names[capnum], name) == 0\<close> for the names in order.\<close>

fun find_cap :: "string list \<Rightarrow> int \<Rightarrow> string \<Rightarrow> int" where
  "find_cap [] i nam = - 1"
| "find_cap (n # ns) i nam =
     (if map lower_char n = map lower_char nam then i else find_cap ns (i + 1) nam)"

definition sepol_polcap_getnum :: "string \<Rightarrow> int" where
  "sepol_polcap_getnum nam = find_cap polcap_names 0 nam"

definition validate_policycaps :: "policydb \<Rightarrow> errcode + unit" where
  "validate_policycaps p =
     check_all (\<lambda>i. ok_unless (sepol_polcap_getname i \<noteq> None)) (ebitmap_positive_bits (policycaps p))"

section \<open>The policy\<close>

definition policydb_validate :: "mem \<Rightarrow> policydb \<Rightarrow> errcode + unit" where
  "policydb_validate m p =
     as_fail (rbind (validate_array_init m p) (\<lambda>fl.
     rbind (validate_properties p) (\<lambda>_.
     rbind (validate_policycaps p) (\<lambda>_.
     rbind (if policy_type p = POLICY_KERN then
              rbind (validate_avtab (te_avtab p) p fl) (\<lambda>_.
              rbind (if policyvers p \<ge> POLICYDB_VERSION_BOOL then validate_cond_list (cond_list p) p fl
                     else Inr ()) (\<lambda>_.
              rbind (validate_role_transes (role_tr p) fl) (\<lambda>_.
              rbind (validate_role_allows (role_allows p) fl) (\<lambda>_.
                if policyvers p \<ge> POLICYDB_VERSION_FILENAME_TRANS
                then validate_filename_trans_hashtab p fl else Inr ()))))
            else validate_avrule_blocks (global_blocks p) p fl) (\<lambda>_.
     rbind (validate_ocontexts p fl) (\<lambda>_.
     rbind (validate_genfs p fl) (\<lambda>_.
     rbind (validate_scopes (sym_scope p) (global_blocks p)) (\<lambda>_.
     rbind (validate_datum_array_gaps p fl) (\<lambda>_.
     rbind (validate_datum_array_entries p fl) (\<lambda>_.
     rbind (validate_permissives p fl) (\<lambda>_.
     rbind (validate_range_transitions p fl) (\<lambda>_.
     rbind (validate_typeattr_map p fl) (\<lambda>_. validate_attrtype_map p fl)))))))))))))"

end
