(* ===== verification/Validate_Props.thy ===== *)
theory Validate_Props
  imports Validate_Policy Services_Props Conditional_Props
begin

text \<open>
  What an accepted policy satisfies: the values and sets it mentions have names, its constraints
  and conditional expressions run to their end, and an access decision on it reads no missing
  datum.
\<close>

section \<open>Sequences of checks\<close>

named_theorems check_simps "what an accepted check says"

lemma bad_if_ok [check_simps]: "bad_if b = Inr u \<longleftrightarrow> \<not> b"
  by (auto simp: bad_if_def)

lemma check_all_ok [check_simps]: "check_all f xs = Inr u \<longleftrightarrow> (\<forall>x \<in> set xs. f x = Inr ())"
  by (induction xs) (auto simp: rbind_eq_Inr)

declare rbind_eq_Inr [check_simps]

lemma if_ok [check_simps]:
  "(if b then Inl err else r) = Inr (u :: unit) \<longleftrightarrow> \<not> b \<and> r = Inr ()"
  "(if b then r else Inr ()) = Inr u \<longleftrightarrow> (b \<longrightarrow> r = Inr ())"
  "(if b then r else Inl err) = Inr u \<longleftrightarrow> b \<and> r = Inr ()"
  by auto

lemma map_chain_ok:
  "snd (map_chain (\<lambda>k d st. case f k d of Inl err \<Rightarrow> (-1, Inl err) | Inr _ \<Rightarrow> (0, st)) c (Inr ())) = Inr u \<longleftrightarrow>
     (\<forall>(k, d) \<in> set c. f k d = Inr ())"
  "fst (map_chain (\<lambda>k d st. case f k d of Inl err \<Rightarrow> (-1, Inl err) | Inr _ \<Rightarrow> (0, st)) c (Inr ())) = 0 \<longleftrightarrow>
     (\<forall>(k, d) \<in> set c. f k d = Inr ())"
  "(\<forall>(k, d) \<in> set c. f k d = Inr ()) \<Longrightarrow>
     map_chain (\<lambda>k d st. case f k d of Inl err \<Rightarrow> (-1, Inl err) | Inr _ \<Rightarrow> (0, st)) c (Inr ()) = (0, Inr ())"
  by (induction c) (auto split: sum.splits)

text \<open>The traversal accepts a table exactly if the callback accepts each entry.\<close>

lemma map_check_symtab:
  assumes "wf_symtab s" "map_check f (table s) = Inr u" "sym_map s k = Some d"
  shows "f k d = Inr ()"
proof -
  obtain h where h: "table s = Some h" "sym.wf h" using assms(1) by (auto simp: wf_symtab_def)
  have "\<forall>(k, d) \<in> set (entries h). f k d = Inr ()"
    using assms(2) by (simp add: map_check_def h(1) sym.map_visits[OF h(2)] map_chain_ok)
  moreover have "(k, d) \<in> set (entries h)"
    using assms(3) sym.wf_entries[OF h(2), of k d] by (simp add: sym_map_def h(1))
  ultimately show ?thesis by auto
qed

section \<open>Gaps, values and sets\<close>

definition named :: "string option list \<Rightarrow> u32 \<Rightarrow> u32 \<Rightarrow> bool" where
  "named nms n v \<longleftrightarrow> v \<noteq> 0 \<and> v \<le> n \<and> ptr_arr nms (unat (v - 1)) \<noteq> None"

lemma gap_loop_ok:
  "gap_loop m nms is g = Inr (g', m') \<Longrightarrow> wf_ebitmap g \<Longrightarrow> \<forall>i \<in> set is. i < 2 ^ 32 \<Longrightarrow>
     wf_ebitmap g' \<and> (\<forall>i \<in> set is. i < length nms) \<and>
     ebits g' = ebits g \<union> {of_nat i | i. i \<in> set is \<and> nms ! i = None}"
proof (induction m nms "is" g rule: gap_loop.induct)
  case (2 m nms i ks g)
  then obtain x where x: "arr nms i = Some x" by (cases "arr nms i") auto
  then have i: "i < length nms" "nms ! i = x" by (simp_all add: arr_eq_Some)
  show ?case
  proof (cases x)
    case None
    then obtain g1 m1 where g1: "ebitmap_set_bit m g (of_nat i) True = Inr (g1, m1)"
      "gap_loop m1 nms ks g1 = Inr (g', m')"
      using "2.prems"(1) x by (auto split: sum.splits)
    note sb = ebitmap_set_bit_ok[OF "2.prems"(2) g1(1)]
    have "wf_ebitmap g' \<and> (\<forall>i \<in> set ks. i < length nms) \<and>
        ebits g' = ebits g1 \<union> {of_nat i | i. i \<in> set ks \<and> nms ! i = None}"
      using "2.IH"(1)[OF x None g1(1) refl] g1(2) sb(1) "2.prems"(3) by simp
    then show ?thesis using sb(2) i None by auto
  next
    case (Some a)
    then show ?thesis using "2.IH"(2)[OF x Some] "2.prems" x i by auto
  qed
qed simp

lemma validate_init_ok:
  assumes "validate_init m nms n = Inr (f, m')"
  shows "v_nprim f = n" "wf_ebitmap (gaps f)" "unat n \<le> length nms"
    "i \<in> ebits (gaps f) \<longleftrightarrow> i < n \<and> nms ! unat i = None"
proof -
  obtain g where g: "gap_loop m nms [0..<unat n] ebitmap_init = Inr (g, m')" and f: "f = \<lparr>v_nprim = n, gaps = g\<rparr>"
    using assms by (auto simp: validate_init_def create_gap_ebitmap_def rbind_eq_Inr)
  have r: "wf_ebitmap g \<and> (\<forall>i \<in> set [0..<unat n]. i < length nms) \<and>
     ebits g = ebits ebitmap_init \<union> {of_nat i | i. i \<in> set [0..<unat n] \<and> nms ! i = None}"
    by (rule gap_loop_ok[OF g]) (use unat_u32_bound[of n] in auto)
  show "v_nprim f = n" "wf_ebitmap (gaps f)" using r by (simp_all add: f)
  show "unat n \<le> length nms"
    using r by (cases "unat n") (simp, metis atLeastLessThan_iff bot_nat_0.extremum less_Suc_eq set_upt Suc_leI)
  have u: "unat (of_nat k :: u32) = k" if "k < unat n" for k
    using that unat_u32_bound[of n] by (simp add: unat_of_nat)
  show "i \<in> ebits (gaps f) \<longleftrightarrow> i < n \<and> nms ! unat i = None"
  proof
    assume "i \<in> ebits (gaps f)"
    then obtain k where "i = of_nat k" "k < unat n" "nms ! k = None" using r by (auto simp: f)
    then show "i < n \<and> nms ! unat i = None" using u[of k] by (simp add: word_facts)
  next
    assume "i < n \<and> nms ! unat i = None"
    then show "i \<in> ebits (gaps f)"
      using r by (auto simp: f word_facts intro!: exI[of _ "unat i"])
  qed
qed

lemma validate_value_iff:
  assumes "validate_init m nms n = Inr (f, m')"
  shows "validate_value v f = Inr () \<longleftrightarrow> named nms n v"
proof (cases "v = 0 \<or> v > n")
  case False
  note i = validate_init_ok[OF assms]
  have "unat (v - 1) = unat v - 1" using False by (intro unat_minus_one) simp
  then have "v - 1 < n" "unat (v - 1) < length nms"
    using False i(3) by (auto simp: word_facts unat_gt_0[symmetric])
  then show ?thesis
    using False i(4)[of "v - 1"]
    by (auto simp: validate_value_def i(1) ebitmap_get_bit_iff[OF i(2)] named_def ptr_arr_def)
qed (auto simp: validate_value_def validate_init_ok(1)[OF assms] named_def)

lemma highbit_positive:
  assumes "wf_ebitmap e"
  shows "ebitmap_length e > 0 \<longleftrightarrow> ebits e \<noteq> {}"
proof (cases "node e = []")
  case True
  then show ?thesis using assms by (simp add: wf_ebitmap_def nodes_end_def ebitmap_length_def ebits_def)
next
  case False
  have wf: "wf_nodes (node e)" using assms by (simp add: wf_ebitmap_def)
  then have ok: "node_ok (last (node e))" using False by (auto intro: wf_nodes_node_ok)
  have "ebits e \<noteq> {}"
  proof
    assume "ebits e = {}"
    then have "e = ebitmap_init" using ebits_inject[OF assms wf_ebitmap_init(1)] by simp
    with False show False by (simp add: ebitmap_init_def)
  qed
  moreover have "highbit e \<noteq> 0" using assms False node_end(1)[OF ok] by (auto simp: wf_ebitmap_def nodes_end_def)
  ultimately show ?thesis using False by (simp add: ebitmap_length_def word_neq_0_conv)
qed

lemma validate_ebitmap_iff:
  assumes "validate_init m nms n = Inr (f, m')" and wf: "wf_ebitmap e"
  shows "validate_ebitmap e f = Inr () \<longleftrightarrow> (\<forall>i \<in> ebits e. named nms n (i + 1))"
proof -
  note i = validate_init_ok[OF assms(1)]
  have nm: "named nms n (j + 1) \<longleftrightarrow> j < n \<and> j \<notin> ebits (gaps f)" for j
  proof (cases "j < n")
    case True
    then have "unat (j + 1) = Suc (unat j)" by (rule unat_inc_if_less)
    then have "j + 1 \<noteq> 0" "j + 1 \<le> n" using True by (auto simp: word_facts)
    moreover have "unat j < length nms" using True i(3) by (simp add: word_facts)
    ultimately show ?thesis using True by (simp add: named_def ptr_arr_def i(4))
  next
    case False
    have "j + 1 \<noteq> 0 \<Longrightarrow> unat (j + 1) = Suc (unat j)"
      using unat_u32_bound[of j] by (auto simp: unat_word_ariths mod_Suc word_unat_eq_iff)
    then have "\<not> (j + 1 \<noteq> 0 \<and> j + 1 \<le> n)" using False by (auto simp: word_facts)
    then show ?thesis using False by (auto simp: named_def)
  qed
  show ?thesis
  proof (cases "ebits e = {}")
    case True
    then show ?thesis
      using highbit_positive[OF wf] by (auto simp: validate_ebitmap_def ebitmap_match_any_iff[OF wf i(2)])
  next
    case False
    note hi = ebitmap_highest_set_bit_Max[OF wf False]
    have "validate_ebitmap e f = Inr () \<longleftrightarrow> ebitmap_highest_set_bit e < n \<and> ebits e \<inter> ebits (gaps f) = {}"
      using False highbit_positive[OF wf]
      by (auto simp: validate_ebitmap_def ebitmap_match_any_iff[OF wf i(2)] i(1))
    also have "\<dots> \<longleftrightarrow> (\<forall>j \<in> ebits e. j < n \<and> j \<notin> ebits (gaps f))"
      using hi by (auto intro: le_less_trans)
    finally show ?thesis by (simp add: nm)
  qed
qed

section \<open>Constraints\<close>

text \<open>The plain stack machine: a leaf pushes its value, an operator replaces its arguments.\<close>

definition cexpr_step ::
  "policydb \<Rightarrow> context_struct \<Rightarrow> context_struct \<Rightarrow> context_struct option \<Rightarrow> constraint_expr
     \<Rightarrow> bool list \<Rightarrow> bool list" where
  "cexpr_step p s t x e st =
     (if cexpr_type e = CEXPR_NOT then (\<not> hd st) # tl st
      else if cexpr_type e = CEXPR_AND then (hd (tl st) \<and> hd st) # tl (tl st)
      else if cexpr_type e = CEXPR_OR then (hd (tl st) \<or> hd st) # tl (tl st)
      else the (leaf_value p s t x e) # st)"

definition role_known :: "policydb \<Rightarrow> context_struct \<Rightarrow> bool" where
  "role_known p c \<longleftrightarrow> ptr_arr (role_val_to_struct p) (unat (role c - 1)) \<noteq> None"

lemma role_dominates_known: "role_known p c \<Longrightarrow> \<exists>b. role_dominates p (role c) v = Inr b"
  by (auto simp: role_known_def role_dominates_def)

lemma attr_expr_value:
  assumes "validate_attr_expr e = Inr ()" "role_known p s" "role_known p t"
  shows "\<exists>b. attr_value p s t e = Inr (Some b)"
proof -
  have a: "attr e \<in> {CEXPR_USER, CEXPR_ROLE, CEXPR_TYPE, CEXPR_L1L2, CEXPR_L1H2,
                       CEXPR_H1L2, CEXPR_H1H2, CEXPR_L1H1, CEXPR_L2H2}"
    and c: "cop e \<in> {CEXPR_EQ, CEXPR_NEQ} \<or>
      cop e \<in> {CEXPR_DOM, CEXPR_DOMBY, CEXPR_INCOMP} \<and> attr e AND CEXPR_USER = 0 \<and> attr e AND CEXPR_TYPE = 0"
    using assms(1) by (auto simp: validate_attr_expr_def check_simps split: if_splits)
  obtain b1 b2 where r: "role_dominates p (role s) (role t) = Inr b1" "role_dominates p (role t) (role s) = Inr b2"
    using role_dominates_known assms(2,3) by blast
  have rl: "\<exists>b. role_op p (cop e) (role s) (role t) = Inr (Some b)"
    using c r by (auto simp: role_op_def val_op_def)
  have ml: "\<exists>b. mls_op (cop e) l1 l2 = Some b" for l1 l2
    using c by (auto simp: mls_op_def)
  have vl: "\<exists>b. val_op (cop e) v1 v2 = Some b" if "attr e \<in> {CEXPR_USER, CEXPR_TYPE}" for v1 v2
    using c that by (auto simp: val_op_def)
  consider "attr e \<in> {CEXPR_USER, CEXPR_TYPE}" | "attr e = CEXPR_ROLE"
    | "attr e \<in> {CEXPR_L1L2, CEXPR_L1H2, CEXPR_H1L2, CEXPR_H1H2, CEXPR_L1H1, CEXPR_L2H2}"
    using a by blast
  then show ?thesis
    by cases (use vl rl ml in \<open>auto simp: attr_value_def\<close>)
qed

lemma names_expr_value:
  assumes "validate_names_expr vt e fl = Inr ()" "vt \<longleftrightarrow> x \<noteq> None"
  shows "\<exists>b. names_value s t x e = Some b"
proof -
  have a: "attr e \<in> {CEXPR_USER, CEXPR_USER OR CEXPR_TARGET, CEXPR_USER OR CEXPR_XTARGET,
      CEXPR_ROLE, CEXPR_ROLE OR CEXPR_TARGET, CEXPR_ROLE OR CEXPR_XTARGET,
      CEXPR_TYPE, CEXPR_TYPE OR CEXPR_TARGET, CEXPR_TYPE OR CEXPR_XTARGET}"
    and c: "cop e \<in> {CEXPR_EQ, CEXPR_NEQ}" and x: "attr e AND CEXPR_XTARGET \<noteq> 0 \<Longrightarrow> x \<noteq> None"
    using assms by (auto simp: validate_names_expr_def check_simps split: if_splits)
  show ?thesis
    using a c x by (auto simp: names_value_def split: option.splits)
qed

lemma leaf_expr_value:
  assumes "cexpr_type e = CEXPR_NAMES \<and> validate_names_expr vt e fl = Inr () \<or>
      cexpr_type e = CEXPR_ATTR \<and> validate_attr_expr e = Inr ()"
    and "role_known p s" "role_known p t" "vt \<longleftrightarrow> x \<noteq> None"
  shows "\<exists>b. leaf_value p s t x e = Some b"
  using assms(1)
proof
  assume e: "cexpr_type e = CEXPR_NAMES \<and> validate_names_expr vt e fl = Inr ()"
  then obtain b where "names_value s t x e = Some b" using names_expr_value assms(4) by blast
  then show ?thesis using e by (simp add: leaf_value_def)
next
  assume e: "cexpr_type e = CEXPR_ATTR \<and> validate_attr_expr e = Inr ()"
  then obtain b where "attr_value p s t e = Inr (Some b)" using attr_expr_value assms(2,3) by blast
  then show ?thesis using e by (simp add: leaf_value_def)
qed

lemma validated_cexprs_run:
  assumes "role_known p s" "role_known p t" "vt \<longleftrightarrow> x \<noteq> None"
  shows "validate_cexprs vt fl es (int (length st) - 1) = Inr () \<Longrightarrow>
    cexpr_eval p s t x es st = Inr (hd (fold (cexpr_step p s t x) es st)) \<and>
    length (fold (cexpr_step p s t x) es st) = 1"
proof (induction es arbitrary: st)
  case Nil
  then have "length st = 1" by (simp add: check_simps)
  then show ?case by (cases st) auto
next
  case (Cons e es)
  consider "cexpr_type e \<in> {CEXPR_NAMES, CEXPR_ATTR}" | "cexpr_type e = CEXPR_NOT"
    | "cexpr_type e \<in> {CEXPR_AND, CEXPR_OR}"
    using Cons.prems by (auto split: if_splits)
  then show ?case
  proof cases
    case 1
    then have v: "validate_cexprs vt fl es (int (length st)) = Inr ()" and d: "length st < CEXPR_MAXDEPTH"
      and l: "cexpr_type e = CEXPR_NAMES \<and> validate_names_expr vt e fl = Inr () \<or>
        cexpr_type e = CEXPR_ATTR \<and> validate_attr_expr e = Inr ()"
      using Cons.prems by (auto simp: check_simps split: if_splits)
    obtain b where b: "leaf_value p s t x e = Some b" using leaf_expr_value[OF l assms] by blast
    have "cexpr_eval p s t x (e # es) st = cexpr_eval p s t x es (b # st)"
      by (rule cexpr_eval_leaf[OF b d])
    moreover have "cexpr_step p s t x e st = b # st" using 1 b by (auto simp: cexpr_step_def)
    ultimately show ?thesis using Cons.IH[of "b # st"] v by simp
  next
    case 2
    then have v: "validate_cexprs vt fl es (int (length st) - 1) = Inr ()" "0 < length st"
      using Cons.prems by (auto simp: check_simps split: if_splits)
    then obtain a r where st: "st = a # r" by (cases st) auto
    then show ?thesis using Cons.IH[of "(\<not> a) # r"] v(1) 2 by (simp add: cexpr_step_def)
  next
    case 3
    then have v: "validate_cexprs vt fl es (int (length st) - 2) = Inr ()" "1 < length st"
      using Cons.prems by (auto simp: check_simps split: if_splits)
    then obtain b a r where st: "st = b # a # r" by (cases st; cases "tl st") auto
    then show ?thesis
      using Cons.IH[of "(a \<and> b) # r"] Cons.IH[of "(a \<or> b) # r"] v(1) 3 by (auto simp: cexpr_step_def)
  qed
qed

lemma validated_constraint_length:
  assumes "validate_constraint_node nperms fl c = Inr ()" "role_known p s" "role_known p t"
    "nperms = 0xffffffff \<longleftrightarrow> x \<noteq> None"
  shows "length (fold (cexpr_step p s t x) (cexpr c) []) = 1"
proof -
  have "validate_cexprs (nperms = 0xffffffff) fl (cexpr c) (int (length []) - 1) = Inr ()"
    using assms(1) by (auto simp: validate_constraint_node_def Let_def split: if_splits)
  then show ?thesis using validated_cexprs_run[OF assms(2,3,4)] by simp
qed

lemma validated_constraint_runs:
  assumes "validate_constraint_node nperms fl c = Inr ()" "role_known p s" "role_known p t"
    "nperms = 0xffffffff \<longleftrightarrow> x \<noteq> None"
  shows "constraint_expr_eval p s t x c = Inr (hd (fold (cexpr_step p s t x) (cexpr c) []))"
proof -
  have "validate_cexprs (nperms = 0xffffffff) fl (cexpr c) (int (length []) - 1) = Inr ()"
    using assms(1) by (auto simp: validate_constraint_node_def Let_def split: if_splits)
  then show ?thesis
    using validated_cexprs_run[OF assms(2,3,4)] by (simp add: constraint_expr_eval_def)
qed

section \<open>Conditional expressions\<close>

lemma validated_cond_runs:
  assumes bools: "\<And>v. validate_value v f = Inr () \<Longrightarrow>
      \<exists>d. ptr_arr bools (unat (v - 1)) = Some d \<and> bool_state d \<in> {0, 1}"
  shows "validate_cond_exprs f es (int (length st) - 1) = Inr () \<Longrightarrow> set st \<subseteq> {0, 1} \<Longrightarrow>
    \<exists>k \<in> {0, 1}. cond_eval bools es st = Inr k"
proof (induction es arbitrary: st)
  case Nil
  then have "length st = 1" by (simp add: check_simps)
  then show ?case using Nil(2) by (cases st) auto
next
  case (Cons e es)
  consider "expr_type e = COND_BOOL" | "expr_type e = COND_NOT"
    | "expr_type e \<in> {COND_OR, COND_AND, COND_XOR, COND_EQ, COND_NEQ}"
    using Cons.prems(1) by (auto split: if_splits)
  then show ?case
  proof cases
    case 1
    then have v: "validate_value (boolean e) f = Inr ()" "length st < COND_EXPR_MAXDEPTH"
      "validate_cond_exprs f es (int (length st)) = Inr ()"
      using Cons.prems(1) by (auto simp: check_simps split: if_splits)
    obtain d where d: "ptr_arr bools (unat (boolean e - 1)) = Some d" "bool_state d \<in> {0, 1}"
      using bools[OF v(1)] by blast
    then show ?thesis using Cons.IH[of "bool_state d # st"] Cons.prems(2) v(2,3) 1 by simp
  next
    case 2
    then have v: "validate_cond_exprs f es (int (length st) - 1) = Inr ()" "0 < length st"
      using Cons.prems(1) by (auto simp: check_simps split: if_splits)
    then obtain a r where st: "st = a # r" by (cases st) auto
    then show ?thesis
      using Cons.IH[of "(if a = 0 then 1 else 0) # r"] Cons.prems(2) v(1) 2 by simp
  next
    case 3
    then have v: "validate_cond_exprs f es (int (length st) - 2) = Inr ()" "1 < length st"
      using Cons.prems(1) by (auto simp: check_simps split: if_splits)
    then obtain b a r where st: "st = b # a # r" by (cases st; cases "tl st") auto
    have "\<exists>k \<in> {0, 1}. cond_eval bools es (w # r) = Inr k" if "w \<in> {0, 1}" for w
      using Cons.IH[of "w # r"] Cons.prems(2) v(1) that by (simp add: st)
    moreover have "a OR b \<in> {0, 1}" "a AND b \<in> {0, 1}" "a XOR b \<in> {0, 1}"
      using Cons.prems(2) by (auto simp: st)
    ultimately show ?thesis using 3 by (auto simp: st)
  qed
qed

section \<open>The parts of an accepted policy\<close>

lemma validate_parts:
  assumes "policydb_validate m p = Inr ()" "policy_type p = POLICY_KERN"
  obtains fl where "validate_array_init m p = Inr fl" "validate_datum_array_gaps p fl = Inr ()"
    "validate_datum_array_entries p fl = Inr ()" "validate_typeattr_map p fl = Inr ()"
    "POLICYDB_VERSION_BOOL \<le> policyvers p \<longrightarrow> validate_cond_list (cond_list p) p fl = Inr ()"
proof -
  obtain fl where fl: "validate_array_init m p = Inr fl"
    using assms(1) by (auto simp: policydb_validate_def rbind_eq_Inr)
  show thesis
    by (rule that[OF fl]) (use assms fl in \<open>auto simp: policydb_validate_def rbind_eq_Inr\<close>)
qed

lemma array_init_parts:
  assumes "validate_array_init m p = Inr fl"
  shows "\<exists>m1 m1'. validate_init m1 (p_class_val_to_name p) (nprim (p_classes p)) = Inr (fl_classes fl, m1')"
    "\<exists>m1 m1'. validate_init m1 (p_role_val_to_name p) (nprim (p_roles p)) = Inr (fl_roles fl, m1')"
    "\<not> nameless_attributes p \<longrightarrow>
       (\<exists>m1 m1'. validate_init m1 (p_type_val_to_name p) (nprim (p_types p)) = Inr (fl_types fl, m1'))"
    "\<exists>m1 m1'. validate_init m1 (p_bool_val_to_name p) (nprim (p_bools p)) = Inr (fl_bools fl, m1')"
    "nameless_attributes p \<longrightarrow> fl_types fl = \<lparr>v_nprim = nprim (p_types p), gaps = ebitmap_init\<rparr>"
proof -
  obtain m1 cl m2 ro m3 ty m4 m5 bo m6 where
    "validate_init m1 (p_class_val_to_name p) (nprim (p_classes p)) = Inr (cl, m2)"
    "validate_init m2 (p_role_val_to_name p) (nprim (p_roles p)) = Inr (ro, m3)"
    "(if \<not> nameless_attributes p then validate_init m3 (p_type_val_to_name p) (nprim (p_types p))
      else Inr (\<lparr>v_nprim = nprim (p_types p), gaps = ebitmap_init\<rparr>, m3)) = Inr (ty, m4)"
    "validate_init m5 (p_bool_val_to_name p) (nprim (p_bools p)) = Inr (bo, m6)"
    and "fl_classes fl = cl" "fl_roles fl = ro" "fl_types fl = ty" "fl_bools fl = bo"
    using assms by (clarsimp simp: validate_array_init_def rbind_eq_Inr split del: if_split)
  note facts = this
  have ty: "\<not> nameless_attributes p \<longrightarrow>
      validate_init m3 (p_type_val_to_name p) (nprim (p_types p)) = Inr (fl_types fl, m4)"
    using facts by auto
  show "\<exists>m1 m1'. validate_init m1 (p_class_val_to_name p) (nprim (p_classes p)) = Inr (fl_classes fl, m1')"
    "\<exists>m1 m1'. validate_init m1 (p_role_val_to_name p) (nprim (p_roles p)) = Inr (fl_roles fl, m1')"
    "\<exists>m1 m1'. validate_init m1 (p_bool_val_to_name p) (nprim (p_bools p)) = Inr (fl_bools fl, m1')"
    using facts by blast+
  show "\<not> nameless_attributes p \<longrightarrow>
       (\<exists>m1 m1'. validate_init m1 (p_type_val_to_name p) (nprim (p_types p)) = Inr (fl_types fl, m1'))"
    using ty by blast
  show "nameless_attributes p \<longrightarrow> fl_types fl = \<lparr>v_nprim = nprim (p_types p), gaps = ebitmap_init\<rparr>"
    using facts by auto
qed

lemma array_gaps_ok:
  assumes "validate_init m nms n = Inr (f, m')" "array_gaps structs n (gaps f) = Inr ()"
    and "v \<noteq> 0" "v \<le> n"
  shows "unat (v - 1) < length structs"
    "ptr_arr structs (unat (v - 1)) \<noteq> None \<longleftrightarrow> named nms n v"
proof -
  note i = validate_init_ok[OF assms(1)]
  have u: "unat (v - 1) = unat v - 1" using assms(3) by (intro unat_minus_one) simp
  then have k: "unat (v - 1) < unat n"
    using assms(3,4) by (auto simp: word_facts unat_gt_0[symmetric])
  then have "(case arr structs (unat (v - 1)) of None \<Rightarrow> Inl UNDEF
      | Some d \<Rightarrow> bad_if ((d \<noteq> None) = ebitmap_get_bit (gaps f) (of_nat (unat (v - 1))))) = Inr ()"
    using assms(2) unfolding array_gaps_def check_all_ok by auto
  then have "unat (v - 1) < length structs \<and>
      (structs ! unat (v - 1) \<noteq> None) \<noteq> ebitmap_get_bit (gaps f) (v - 1)"
    by (auto simp: arr_def check_simps split: if_splits)
  then show "unat (v - 1) < length structs"
    "ptr_arr structs (unat (v - 1)) \<noteq> None \<longleftrightarrow> named nms n v"
    using assms(3,4) k i(3) i(4)[of "v - 1"]
    by (auto simp: ptr_arr_def named_def ebitmap_get_bit_iff[OF i(2)] word_facts)
qed

text \<open>The entries of an array of datums are the datums of the table.\<close>

definition structs_in :: "'d option list \<Rightarrow> 'd symtab \<Rightarrow> bool" where
  "structs_in structs s \<longleftrightarrow> wf_symtab s \<and> (\<forall>d. Some d \<in> set structs \<longrightarrow> (\<exists>k. sym_map s k = Some d))"

lemma struct_entry:
  assumes "structs_in structs s" "ptr_arr structs i = Some d" "map_check f (table s) = Inr ()"
  shows "\<exists>k. f k d = Inr ()"
proof -
  have "Some d \<in> set structs" using assms(2) by (auto simp: ptr_arr_def split: if_splits) (metis nth_mem)
  then obtain k where "sym_map s k = Some d" using assms(1) by (auto simp: structs_in_def)
  then show ?thesis using map_check_symtab[OF _ assms(3)] assms(1) by (auto simp: structs_in_def)
qed

definition indexed :: "policydb \<Rightarrow> bool" where
  "indexed p \<longleftrightarrow> structs_in (class_val_to_struct p) (p_classes p) \<and>
     structs_in (role_val_to_struct p) (p_roles p) \<and>
     structs_in (type_val_to_struct p) (p_types p) \<and> structs_in (bool_val_to_struct p) (p_bools p)"

section \<open>Conditionals of an accepted policy\<close>

lemma validated_conditional:
  assumes ok: "policydb_validate m p = Inr ()" and kern: "policy_type p = POLICY_KERN"
    "POLICYDB_VERSION_BOOL \<le> policyvers p" and ix: "indexed p" and c: "c \<in> set (cond_list p)"
  shows "\<exists>k \<in> {0, 1}. cond_evaluate_expr p (expr c) = Inr k"
proof -
  obtain fl where fl: "validate_array_init m p = Inr fl" "validate_datum_array_gaps p fl = Inr ()"
    "validate_datum_array_entries p fl = Inr ()" "validate_cond_list (cond_list p) p fl = Inr ()"
    using validate_parts[OF ok kern(1)] kern(2) by metis
  obtain m1 m1' where b: "validate_init m1 (p_bool_val_to_name p) (nprim (p_bools p)) = Inr (fl_bools fl, m1')"
    using array_init_parts(4)[OF fl(1)] by blast
  have g: "array_gaps (bool_val_to_struct p) (nprim (p_bools p)) (gaps (fl_bools fl)) = Inr ()"
    using fl(2) by (auto simp: validate_datum_array_gaps_def rbind_eq_Inr)
  have e: "map_check (\<lambda>k. validate_bool_datum fl) (table (p_bools p)) = Inr ()"
    using fl(3) by (auto simp: validate_datum_array_entries_def rbind_eq_Inr)
  have "\<exists>d. ptr_arr (bool_val_to_struct p) (unat (v - 1)) = Some d \<and> bool_state d \<in> {0, 1}"
    if "validate_value v (fl_bools fl) = Inr ()" for v
  proof -
    have v: "named (p_bool_val_to_name p) (nprim (p_bools p)) v" using that validate_value_iff[OF b] by simp
    then have "v \<noteq> 0" "v \<le> nprim (p_bools p)" by (auto simp: named_def)
    from array_gaps_ok(2)[OF b g this] v obtain d where
      d: "ptr_arr (bool_val_to_struct p) (unat (v - 1)) = Some d" by auto
    have "structs_in (bool_val_to_struct p) (p_bools p)" using ix by (simp add: indexed_def)
    from struct_entry[OF this d e] have "bool_state d \<in> {0, 1}"
      by (auto simp: validate_bool_datum_def check_simps)
    with d show ?thesis by blast
  qed
  moreover have "validate_cond_exprs (fl_bools fl) (expr c) (int (length ([] :: int list)) - 1) = Inr ()"
    using fl(4) c by (auto simp: validate_cond_list_def validate_cond_node_def validate_cond_expr_def check_simps)
  ultimately show ?thesis
    unfolding cond_evaluate_expr_def by (rule validated_cond_runs) simp_all
qed

section \<open>Decisions on an accepted policy\<close>

text \<open>What a context must have: a datum for its type, and one for its role.\<close>

definition context_known :: "policydb \<Rightarrow> context_struct \<Rightarrow> bool" where
  "context_known p c \<longleftrightarrow> role_known p c \<and> type c \<noteq> 0 \<and> type c \<le> nprim (p_types p) \<and>
     ptr_arr (type_val_to_struct p) (unat (type c - 1)) \<noteq> None"

lemma apply_constraints_defined:
  assumes "\<forall>c \<in> set cs. \<exists>b. constraint_expr_eval p s t None c = Inr b"
  shows "\<exists>avd'. apply_constraints p s t cs avd = Inr avd'"
  using assms
proof (induction p s t cs avd rule: apply_constraints.induct)
  case (2 p s t c cs avd)
  then obtain b where "constraint_granted p s t None c = Inr b" by (auto simp: constraint_granted_def)
  then show ?case using 2 by auto
qed simp

lemma type_attrs_present:
  assumes "validate_typeattr_map p fl = Inr ()" "policy_type p = POLICY_KERN" "v \<noteq> 0" "v \<le> nprim (p_types p)"
  shows "\<exists>e. arr (type_attr_map p) (unat (v - 1)) = Some e"
proof -
  have "unat (v - 1) = unat v - 1" using assms(3) by (intro unat_minus_one) simp
  then have "unat (v - 1) \<in> set [0..<unat (nprim (p_types p))]"
    using assms(3,4) by (auto simp: word_facts unat_gt_0[symmetric])
  then show ?thesis
    using assms(1,2) by (force simp: validate_typeattr_map_def validate_type_maps_def check_all_ok split: option.splits)
qed

lemma unbounded_av_defined:
  assumes ok: "policydb_validate m p = Inr ()" and kern: "policy_type p = POLICY_KERN" and ix: "indexed p"
    and s: "context_known p s" and t: "context_known p t"
    and c: "ptr_arr (class_val_to_struct p) (unat tclass - 1) \<noteq> None"
    and r: "tclass \<noteq> 0" "ucast tclass \<le> nprim (p_classes p)"
  shows "\<exists>x. unbounded_av p s t tclass requested = Inr x"
proof -
  obtain fl where fl: "validate_array_init m p = Inr fl" "validate_datum_array_entries p fl = Inr ()"
    "validate_typeattr_map p fl = Inr ()"
    using validate_parts[OF ok kern] by metis
  obtain d where d: "ptr_arr (class_val_to_struct p) (unat tclass - 1) = Some d" using c by auto
  obtain sa where sa: "arr (type_attr_map p) (unat (type s - 1)) = Some sa"
    using type_attrs_present[OF fl(3) kern] s by (auto simp: context_known_def)
  obtain ta where ta: "arr (type_attr_map p) (unat (type t - 1)) = Some ta"
    using type_attrs_present[OF fl(3) kern] t by (auto simp: context_known_def)
  have e: "map_check (\<lambda>k. validate_class_datum fl) (table (p_classes p)) = Inr ()"
    using fl(2) by (auto simp: validate_datum_array_entries_def rbind_eq_Inr)
  have "structs_in (class_val_to_struct p) (p_classes p)" using ix by (simp add: indexed_def)
  from struct_entry[OF this d e] have v: "validate_class_datum fl d = Inr ()" by blast
  then have n: "validate_constraint_nodes (nprim (class_permissions d)) (constraints d) fl = Inr ()"
    and np: "nprim (class_permissions d) \<noteq> 0xffffffff"
    by (auto simp: validate_class_datum_def Let_def table_nel_def check_simps split: option.splits if_splits)
  have "\<exists>b. constraint_expr_eval p s t None cn = Inr b" if "cn \<in> set (constraints d)" for cn
  proof -
    have "validate_constraint_node (nprim (class_permissions d)) fl cn = Inr ()"
      using n that by (auto simp: validate_constraint_nodes_def check_simps split: if_splits)
    from validated_constraint_runs[OF this, of p s t None] np s t
    show ?thesis by (auto simp: context_known_def)
  qed
  then have "\<exists>avd'. apply_constraints p s t (constraints d) avd = Inr avd'" for avd
    by (intro apply_constraints_defined) blast
  then obtain avd' where "apply_constraints p s t (constraints d) (te_decision p tclass sa ta) = Inr avd'"
    by blast
  then show ?thesis using r by (auto simp: unbounded_av_def sa ta d[unfolded One_nat_def] Let_def not_less)
qed

text \<open>The bounding pair exists, and its contexts are known again.\<close>

lemma bounds_known:
  assumes ok: "policydb_validate m p = Inr ()" and kern: "policy_type p = POLICY_KERN" and ix: "indexed p"
    and c: "context_known p c" "bound_of p (type c) \<noteq> 0"
  shows "context_known p (c\<lparr>type := bound_of p (type c)\<rparr>)"
proof -
  obtain fl where fl: "validate_array_init m p = Inr fl" "validate_datum_array_entries p fl = Inr ()"
    using validate_parts[OF ok kern] by metis
  obtain d where d: "ptr_arr (type_val_to_struct p) (unat (type c - 1)) = Some d"
    using c(1) by (auto simp: context_known_def)
  have e: "map_check (\<lambda>k. validate_type_datum p fl) (table (p_types p)) = Inr ()"
    using fl(2) by (auto simp: validate_datum_array_entries_def rbind_eq_Inr)
  have b: "bound_of p (type c) = bounds d" by (simp add: bound_of_def d)
  have "structs_in (type_val_to_struct p) (p_types p)" using ix by (simp add: indexed_def)
  from struct_entry[OF this d e] have "validate_simpletype (bounds d) p fl = Inr ()"
    using c(2) b by (auto simp: validate_type_datum_def check_simps split: if_splits)
  then have v: "validate_value (bounds d) (fl_types fl) = Inr ()"
    and p: "ptr_arr (type_val_to_struct p) (unat (bounds d - 1)) \<noteq> None"
    by (auto simp: validate_simpletype_def check_simps arr_def ptr_arr_def split: option.splits if_splits)
  have "v_nprim (fl_types fl) = nprim (p_types p)"
    using array_init_parts(3,5)[OF fl(1)] validate_init_ok(1) by (cases "nameless_attributes p") auto
  then have "bounds d \<noteq> 0" "bounds d \<le> nprim (p_types p)"
    using v by (auto simp: validate_value_def split: if_splits)
  then show ?thesis using c(1) p b by (simp add: context_known_def role_known_def)
qed

lemma validated_decision:
  assumes ok: "policydb_validate m p = Inr ()" and kern: "policy_type p = POLICY_KERN" and ix: "indexed p"
    and cls: "ptr_arr (class_val_to_struct p) (unat tclass - 1) \<noteq> None" "tclass \<noteq> 0"
      "ucast tclass \<le> nprim (p_classes p)"
  shows "context_known p s \<Longrightarrow> context_known p t \<Longrightarrow>
    context_struct_compute_av fuel p s t tclass requested = Some r \<Longrightarrow> \<exists>x. r = Inr x"
proof (induction fuel arbitrary: s t requested r)
  case (Suc fuel)
  obtain avd req reason where u: "unbounded_av p s t tclass requested = Inr (avd, req, reason)"
    using unbounded_av_defined[OF ok kern ix Suc.prems(1,2) cls] by (metis prod.exhaust)
  have "ptr_arr (type_val_to_struct p) (unat (type s - 1)) \<noteq> None"
    "ptr_arr (type_val_to_struct p) (unat (type t - 1)) \<noteq> None"
    using Suc.prems(1,2) by (auto simp: context_known_def)
  then obtain ds dt where "ptr_arr (type_val_to_struct p) (unat (type s - 1)) = Some ds"
    "ptr_arr (type_val_to_struct p) (unat (type t - 1)) = Some dt" by auto
  then have "\<exists>bp. bounding_pair p s t = Inr bp" by (simp add: bounding_pair_def)
  then obtain bp where bp: "bounding_pair p s t = Inr bp" by blast
  show ?case
  proof (cases bp)
    case None
    then show ?thesis using Suc.prems(3) u bp by auto
  next
    case (Some st)
    obtain s' t' where st: "st = (s', t')" by (cases st)
    note b = bounding_pair_Some[OF bp[unfolded Some st]]
    have k: "context_known p s'" "context_known p t'"
      using b bounds_known[OF ok kern ix] Suc.prems(1,2) by auto
    obtain r' where "context_struct_compute_av fuel p s' t' tclass req = Some r'"
      using Suc.prems(3) u bp Some st by (auto split: option.splits)
    moreover from Suc.IH[OF k this] obtain x where "r' = Inr x" by blast
    ultimately show ?thesis using Suc.prems(3) u bp Some st by (auto split: prod.splits)
  qed
qed simp

end
