(* ===== verification/Validate_Properties.thy ===== *)
theory Validate_Properties
  imports Validate_Props Example_Policy
begin

text \<open>
  The properties of the policy validator, with the demo policy as the witness of each, and the
  two gaps that it leaves: cycles of type bounds and classes without a datum.
\<close>

lemma one_slot_table:
  assumes "sorted_wrt (\<lambda>a b. strcmp (fst a) (fst b) < 0) xs" "length xs < 2 ^ 32"
  shows "wf_symtab (one_slot n xs)" "sym_map (one_slot n xs) = map_of xs"
proof -
  have "sym.wf \<lparr>htable = [xs], hsize = 1, nel = of_nat (length xs)\<rparr>"
    using assms pow2_sizeI[of 0]
    by (simp add: sym.wf_def sym.slots_ok_def sym.chain_ok_def entries_def symhash_def symcmp_def
        unat_of_nat sorted_wrt_map)
  then show "wf_symtab (one_slot n xs)" by (simp add: wf_symtab_def one_slot_def)
  show "sym_map (one_slot n xs) = map_of xs"
    by (simp add: sym_map_def one_slot_def sym.lookup_def fun_eq_iff symhash_def)
qed

lemma demo_flavors:
  "validate_array_init 10 demo = Inr
     \<lparr>fl_commons = \<lparr>v_nprim = 0, gaps = ebitmap_init\<rparr>, fl_classes = \<lparr>v_nprim = 1, gaps = ebitmap_init\<rparr>,
      fl_roles = \<lparr>v_nprim = 2, gaps = ebitmap_init\<rparr>, fl_types = \<lparr>v_nprim = 2, gaps = ebitmap_init\<rparr>,
      fl_users = \<lparr>v_nprim = 1, gaps = ebitmap_init\<rparr>, fl_bools = \<lparr>v_nprim = 2, gaps = ebitmap_init\<rparr>,
      fl_levels = \<lparr>v_nprim = 1, gaps = ebitmap_init\<rparr>, fl_cats = \<lparr>v_nprim = 3, gaps = ebitmap_init\<rparr>\<rparr>"
  by code_simp

lemma demo_validates: "policydb_validate 10 demo = Inr ()"
  by code_simp

lemma one_slot_structs:
  assumes "sorted_wrt (\<lambda>a b. strcmp (fst a) (fst b) < 0) xs" "length xs < 2 ^ 32"
    and "set structs \<subseteq> insert None (Some ` snd ` set xs)"
  shows "structs_in structs (one_slot n xs)"
proof -
  have "distinct (map fst xs)"
    using assms(1) by (induction xs) (auto simp: strcmp_eq_0[THEN iffD2])
  then have "d \<in> snd ` set xs \<Longrightarrow> \<exists>k. map_of xs k = Some d" for d
    by (auto simp: map_of_eq_Some_iff)
  moreover have "d \<in> snd ` set xs" if "Some d \<in> set structs" for d
    using subsetD[OF assms(3) that] by auto
  ultimately show ?thesis by (simp add: structs_in_def one_slot_table[OF assms(1,2)])
qed

lemma demo_indexed: "indexed demo"
  unfolding indexed_def demo_def policydb.simps
  by (intro conjI one_slot_structs) (simp_all add: strcmp.simps)

section \<open>What an accepted policy guarantees\<close>

text \<open>C6: on a kernel policy that the validator accepts and whose type bounds form a hierarchy (a rank
  decreases from a type to its bound), an access decision for a known class and two contexts with
  known types and roles never fails and never reads a missing datum: every number of nested calls
  above the rank of the source type gives one and the same access vector, and fewer calls give this
  vector or are too few. The validator does not check that the bounds have no cycle; C36 shows what
  happens then.\<close>

theorem validated_access_decision:
  assumes "policydb_validate m p = Inr ()" and "policy_type p = POLICY_KERN" and "indexed p"
    and "class_ok p tclass" and "ptr_arr (class_val_to_struct p) (unat tclass - 1) \<noteq> None"
    and "context_known p s" and "context_known p t"
    and "\<And>b. bound_of p b \<noteq> 0 \<Longrightarrow> rk (bound_of p b) < rk b"
  shows "\<exists>avd reason. \<forall>fuel.
    (rk (type s) < fuel \<longrightarrow> context_struct_compute_av fuel p s t tclass requested = Some (Inr (avd, reason))) \<and>
    context_struct_compute_av fuel p s t tclass requested \<in> {None, Some (Inr (avd, reason))}"
proof -
  obtain r where r: "context_struct_compute_av (Suc (rk (type s))) p s t tclass requested = Some r"
    using compute_av_returns[of p rk s "Suc (rk (type s))"] assms(8) by blast
  then obtain avd reason where x: "r = Inr (avd, reason)"
    using validated_decision[OF assms(1,2,3,5) _ _ assms(6,7) r] assms(4) by (auto simp: class_ok_def not_less)
  note mono = compute_av_mono[where p = p and s = s and t = t and tclass = tclass and requested = requested]
  have "context_struct_compute_av fuel p s t tclass requested = Some r" if "rk (type s) < fuel" for fuel
    using mono[OF r] that by simp
  moreover have "context_struct_compute_av fuel p s t tclass requested \<in> {None, Some r}" for fuel
    using mono[of fuel _ "Suc (rk (type s))"] mono[OF r, of fuel] r
    by (cases "context_struct_compute_av fuel p s t tclass requested") (metis insert_iff nle_le option.inject)+
  ultimately show ?thesis using x by blast
qed

lemma demo_known: "context_known demo (demo_context 2 1)" "context_known demo (demo_context 2 2)"
  by code_simp+

lemma demo_class_known: "class_ok demo 1" "ptr_arr (class_val_to_struct demo) (unat (1 :: u16) - 1) \<noteq> None"
  by code_simp+

lemma demo_ranked: "bound_of demo b \<noteq> 0 \<Longrightarrow> (if bound_of demo b = 2 then 1 else 0 :: nat) < (if b = 2 then 1 else 0)"
proof -
  have "type_val_to_struct demo = [Some (demo_type 1 0), Some (demo_type 2 1)]" by (simp add: demo_def)
  moreover have "unat (b - 1) = 0 \<longleftrightarrow> b = 1" "unat (b - 1) = 1 \<longleftrightarrow> b = 2"
    using word_unat_eq_iff[of "b - 1" 0] word_unat_eq_iff[of "b - 1" 1] by (auto simp: diff_eq_eq)
  ultimately show "bound_of demo b \<noteq> 0 \<Longrightarrow> (if bound_of demo b = 2 then 1 else 0 :: nat) < (if b = 2 then 1 else 0)"
    by (auto simp: bound_of_def ptr_arr_def demo_type_def less_2_cases_iff nth_Cons' split: option.splits if_splits)
qed

theorem validated_access_decision_witness:
  "\<exists>avd reason. \<forall>fuel > 1.
     context_struct_compute_av fuel demo (demo_context 2 2) (demo_context 2 1) 1 7 = Some (Inr (avd, reason))"
  using validated_access_decision[where rk = "\<lambda>b. if b = 2 then 1 else 0" and requested = 7,
      OF demo_validates _ demo_indexed demo_class_known demo_known(2,1) demo_ranked]
  by (fastforce simp: demo_def demo_context_def simp del: context_struct_compute_av.simps)

text \<open>C7: the validator decides which numbers and sets have names: it accepts a value exactly if
  it lies between 1 and \<^verbatim>\<open>nprim\<close> and its name is set, and a bitmap exactly if every bit stands
  for such a value.\<close>

theorem validate_decides_names:
  assumes "validate_init m val_to_name n = Inr (flavor, m')" and "wf_ebitmap e"
  shows "(validate_value v flavor = Inr () \<longleftrightarrow>
       v \<noteq> 0 \<and> v \<le> n \<and> ptr_arr val_to_name (unat (v - 1)) \<noteq> None) \<and>
    (validate_ebitmap e flavor = Inr () \<longleftrightarrow>
       (\<forall>i \<in> ebits e. validate_value (i + 1) flavor = Inr ()))"
  using validate_value_iff[OF assms(1)] validate_ebitmap_iff[OF assms]
  by (simp_all add: named_def)

theorem validate_decides_names_witness:
  "\<exists>f m'. validate_init 3 [Some ''a'', None, Some ''c''] 3 = Inr (f, m') \<and>
     validate_value 3 f = Inr () \<and> validate_value 2 f \<noteq> Inr () \<and> validate_value 4 f \<noteq> Inr () \<and>
     validate_ebitmap (bits64 4) f = Inr ()"
proof -
  let ?f = "\<lparr>v_nprim = 3, gaps = \<lparr>node = [\<lparr>startbit = 0, nmap = 2\<rparr>], highbit = 64\<rparr>\<rparr>"
  have f: "validate_init 3 [Some ''a'', None, Some ''c''] 3 = Inr (?f, 2)" by code_simp
  have b: "ebits (bits64 4) = {2}" using bits64_single[of 2] by simp
  note r = validate_decides_names[OF f wf_bits64[of 4]]
  have v: "validate_value 3 ?f = Inr ()" "validate_value 2 ?f \<noteq> Inr ()" "validate_value 4 ?f \<noteq> Inr ()"
    using r[THEN conjunct1, of 3] r[THEN conjunct1, of 2] r[THEN conjunct1, of 4] by (simp_all add: ptr_arr_def)
  have "validate_ebitmap (bits64 4) ?f = Inr ()"
    unfolding r[THEN conjunct2] b using v(1) by simp
  with f v show ?thesis by blast
qed

text \<open>C8: a constraint that the validator accepts always evaluates: the stack of five values
  neither overflows nor underflows, every leaf has a value, and the result is that of the plain
  stack machine over the whole expression.\<close>

theorem validated_constraint_evaluates:
  assumes "validate_constraint_node nperms fl c = Inr ()" and "role_known p s" and "role_known p t"
    and "nperms = 0xffffffff \<longleftrightarrow> x \<noteq> None"
  shows "constraint_expr_eval p s t x c = Inr (hd (fold (cexpr_step p s t x) (cexpr c) [])) \<and>
    length (fold (cexpr_step p s t x) (cexpr c) []) = 1"
  using validated_constraint_runs[OF assms] validated_constraint_length[OF assms] by simp

theorem validated_constraint_evaluates_witness:
  "\<forall>fl. validate_constraint_node 5 fl \<lparr>permissions = 2, cexpr = [demo_leaf CEXPR_USER CEXPR_EQ]\<rparr> = Inr () \<and>
     constraint_expr_eval demo (demo_context 2 1) (demo_context 2 2) None
       \<lparr>permissions = 2, cexpr = [demo_leaf CEXPR_USER CEXPR_EQ]\<rparr> = Inr True"
proof
  fix fl
  let ?c = "\<lparr>permissions = 2, cexpr = [demo_leaf CEXPR_USER CEXPR_EQ]\<rparr>"
  have v: "validate_constraint_node 5 fl ?c = Inr ()" by code_simp
  have "cexpr_step demo (demo_context 2 1) (demo_context 2 2) None (demo_leaf CEXPR_USER CEXPR_EQ) [] = [True]"
    by code_simp
  then show "validate_constraint_node 5 fl ?c = Inr () \<and>
      constraint_expr_eval demo (demo_context 2 1) (demo_context 2 2) None ?c = Inr True"
    using v validated_constraint_evaluates[OF v, of demo "demo_context 2 1" "demo_context 2 2" None] demo_known
    by (simp add: context_known_def)
qed

text \<open>C9: a conditional of an accepted kernel policy always has a truth value: the expression
  neither overflows nor underflows its stack of ten values and reads only booleans that exist.\<close>

theorem validated_conditional_evaluates:
  assumes "policydb_validate m p = Inr ()" and "policy_type p = POLICY_KERN"
    and "POLICYDB_VERSION_BOOL \<le> policyvers p" and "indexed p" and "c \<in> set (cond_list p)"
  shows "cond_evaluate_expr p (expr c) = Inr 0 \<or> cond_evaluate_expr p (expr c) = Inr 1"
  using validated_conditional[OF assms] by auto

theorem validated_conditional_evaluates_witness:
  "cond_evaluate_expr demo (expr demo_cond) = Inr 0 \<or> cond_evaluate_expr demo (expr demo_cond) = Inr 1"
  by (rule validated_conditional_evaluates[OF demo_validates _ _ demo_indexed]) (simp_all add: demo_def)

section \<open>What the validator does not exclude\<close>

text \<open>C36: the validator checks each type bound but not their cycles: on an accepted kernel policy
  whose source type bounds itself, no depth of nested calls is enough for an access decision.\<close>

theorem validated_bounds_cycle:
  assumes "policydb_validate m p = Inr ()" and "policy_type p = POLICY_KERN" and "indexed p"
    and "class_ok p tclass" and "ptr_arr (class_val_to_struct p) (unat tclass - 1) \<noteq> None"
    and "context_known p s" and "context_known p t"
    and "bound_of p (type s) = type s" and "bound_of p (type t) \<in> {0, type t}"
  shows "context_struct_compute_av fuel p s t tclass requested = None"
proof (rule compute_av_endless[OF assms(8,9)])
  show "\<exists>r. unbounded_av p s t tclass req = Inr r" for req
    using unbounded_av_defined[OF assms(1,2,3,6,7,5)] assms(4) by (auto simp: class_ok_def)
qed (use assms(6,7) in \<open>auto simp: context_known_def\<close>)

definition cyclic_demo :: policydb where
  "cyclic_demo = demo
     \<lparr>p_types := one_slot 2 [(''app_t'', demo_type 2 1), (''user_t'', demo_type 1 1)],
      type_val_to_struct := [Some (demo_type 1 1), Some (demo_type 2 1)]\<rparr>"

lemma cyclic_demo_indexed: "indexed cyclic_demo"
  unfolding indexed_def cyclic_demo_def demo_def policydb.simps policydb.update_convs
  by (intro conjI one_slot_structs) (simp_all add: strcmp.simps)

theorem validated_bounds_cycle_witness:
  "policydb_validate 10 cyclic_demo = Inr () \<and>
   (\<forall>fuel. context_struct_compute_av fuel cyclic_demo (demo_context 2 1) (demo_context 2 1) 1 3 = None)"
proof -
  have v: "policydb_validate 10 cyclic_demo = Inr ()" by code_simp
  have k: "context_known cyclic_demo (demo_context 2 1)" by code_simp
  have c: "class_ok cyclic_demo 1" "ptr_arr (class_val_to_struct cyclic_demo) (unat (1 :: u16) - 1) \<noteq> None"
    by code_simp+
  have b: "bound_of cyclic_demo (type (demo_context 2 1)) = type (demo_context 2 1)" by code_simp
  have t: "policy_type cyclic_demo = POLICY_KERN" by (simp add: cyclic_demo_def demo_def)
  show ?thesis
    using v validated_bounds_cycle[OF v t cyclic_demo_indexed c k k b] b by simp
qed

text \<open>C37: the validator accepts a number below \<^verbatim>\<open>nprim\<close> that has no class, and an access decision
  for such a class reads a null pointer: on the example with a second, unused class number, the
  policy is valid and the decision for class 2 is undefined.\<close>

theorem validated_class_gap_undefined:
  "let p = demo\<lparr>p_classes := (p_classes demo)\<lparr>nprim := 2\<rparr>,
             p_class_val_to_name := [Some ''process'', None],
             class_val_to_struct := [Some demo_class, None]\<rparr>
   in policydb_validate 10 p = Inr () \<and> class_ok p 2 \<and>
      context_struct_compute_av (Suc fuel) p (demo_context 2 1) (demo_context 2 1) 2 1 = Some (Inl UNDEF)"
  unfolding Let_def
  by (intro conjI, code_simp, code_simp,
      simp add: unbounded_av_def ptr_arr_def demo_def one_slot_def demo_context_def arr_def)

end
