(* ===== verification/Optimize.thy ===== *)
theory Optimize
  imports Access
begin

text \<open>
  Policy optimisation, \<^verbatim>\<open>src/optimize.c\<close>: rules that a more general rule covers are removed from
  the tables of a kernel policy, and rules that are covered in part lose the covered
  permissions.

  A rule of the table being scanned is passed by value and written back after the search for
  rules that cover it: none of the rules it is compared with is the rule itself. Rules of a
  conditional are named by their addresses.
\<close>

abbreviation (input) "POLICYDB_VERSION_PERMISSIVE \<equiv> 23"
abbreviation (input) "AVTAB_XPERMS_IOCTLFUNCTION \<equiv> 1"
abbreviation (input) "AVTAB_XPERMS_IOCTLDRIVER \<equiv> 2"
abbreviation (input) "AVTAB_XPERMS_NLMSG \<equiv> 3"
abbreviation (input) "TYPE_VEC_INIT_SIZE \<equiv> 16"

section \<open>Vectors of types\<close>

text \<open>\<open>tv_types\<close> holds the entries in use, so \<^verbatim>\<open>count\<close> is its length.\<close>

record type_vec =
  tv_types :: "u32 list"
  tv_capacity :: u32

definition type_vec_init :: "mem \<Rightarrow> errcode + type_vec \<times> mem" where
  "type_vec_init m =
     (case malloc m of
        None \<Rightarrow> Inl EFAIL
      | Some m' \<Rightarrow> Inr (\<lparr>tv_types = [], tv_capacity = TYPE_VEC_INIT_SIZE\<rparr>, m'))"

text \<open>The doubled capacity may wrap to zero; the store is then outside the array.\<close>

definition type_vec_append :: "mem \<Rightarrow> type_vec \<Rightarrow> u32 \<Rightarrow> errcode + type_vec \<times> mem" where
  "type_vec_append m v t =
     rbind (if unat (tv_capacity v) = length (tv_types v)
            then (case malloc m of
                    None \<Rightarrow> Inl EFAIL
                  | Some m' \<Rightarrow> Inr (v\<lparr>tv_capacity := tv_capacity v * 2\<rparr>, m'))
            else Inr (v, m)) (\<lambda>(v, m).
       if unat (tv_capacity v) \<le> length (tv_types v) then Inl UNDEF
       else Inr (v\<lparr>tv_types := tv_types v @ [t]\<rparr>, m))"

text \<open>
  The binary search. At most 2^31 entries fit (the next doubling wraps), so \<^verbatim>\<open>s + e\<close> stays below
  2^32 and the indices can be natural numbers.
\<close>

function vec_search :: "u32 list \<Rightarrow> u32 \<Rightarrow> nat \<Rightarrow> nat \<Rightarrow> bool" where
  "vec_search xs t s e =
     (if e \<le> s then False
      else let mid = (s + e) div 2
           in if xs ! mid = t then True
              else if xs ! mid < t then vec_search xs t (mid + 1) e
              else vec_search xs t s mid)"
  by pat_completeness auto
termination
  by (relation "measure (\<lambda>(xs, t, s, e). e - s)") auto

declare vec_search.simps [simp del]

definition type_vec_contains :: "type_vec \<Rightarrow> u32 \<Rightarrow> bool" where
  "type_vec_contains v t = vec_search (tv_types v) t 0 (length (tv_types v))"

fun append_types :: "mem \<Rightarrow> type_vec \<Rightarrow> u32 list \<Rightarrow> errcode + type_vec \<times> mem" where
  "append_types m v [] = Inr (v, m)"
| "append_types m v (k # ks) =
     rbind (type_vec_append m v k) (\<lambda>(v, m). append_types m v ks)"

section \<open>The map of covering types\<close>

definition is_attribute :: "policydb \<Rightarrow> nat \<Rightarrow> bool" where
  "is_attribute p k \<longleftrightarrow>
     (case arr (type_val_to_struct p) k of Some (Some td) \<Rightarrow> type_flavor td = TYPE_ATTRIB | _ \<Rightarrow> False)"

text \<open>The attributes that contain all types of the attribute \<open>i\<close>: the inner loop over \<open>k\<close>.\<close>

fun covering_attributes ::
  "policydb \<Rightarrow> ebitmap \<Rightarrow> nat list \<Rightarrow> mem \<Rightarrow> type_vec \<Rightarrow> errcode + type_vec \<times> mem" where
  "covering_attributes p types_i [] m v = Inr (v, m)"
| "covering_attributes p types_i (k # ks) m v =
     (if arr (type_val_to_struct p) k = None then Inl UNDEF
      else if \<not> is_attribute p k then covering_attributes p types_i ks m v
      else case arr (attr_type_map p) k of
        None \<Rightarrow> Inl UNDEF
      | Some types_k \<Rightarrow>
          if ebitmap_contains types_k types_i
          then rbind (type_vec_append m v (of_nat k)) (\<lambda>(v, m). covering_attributes p types_i ks m v)
          else covering_attributes p types_i ks m v)"

definition type_map_entry :: "mem \<Rightarrow> policydb \<Rightarrow> nat \<Rightarrow> errcode + type_vec \<times> mem" where
  "type_map_entry m p i =
     rbind (type_vec_init m) (\<lambda>(v, m).
       case arr (type_val_to_struct p) i of
         None \<Rightarrow> Inl UNDEF
       | Some None \<Rightarrow> Inr (v, m)
       | Some (Some td) \<Rightarrow>
           if type_flavor td \<noteq> TYPE_ATTRIB then
             (case arr (type_attr_map p) i of
                None \<Rightarrow> Inl UNDEF
              | Some attrs \<Rightarrow> append_types m v (ebitmap_positive_bits attrs))
           else
             (case arr (attr_type_map p) i of
                None \<Rightarrow> Inl UNDEF
              | Some types_i \<Rightarrow> covering_attributes p types_i [0..<unat (nprim (p_types p))] m v))"

fun type_map_entries :: "mem \<Rightarrow> policydb \<Rightarrow> nat list \<Rightarrow> errcode + type_vec list \<times> mem" where
  "type_map_entries m p [] = Inr ([], m)"
| "type_map_entries m p (i # is) =
     rbind (type_map_entry m p i) (\<lambda>(v, m).
     rbind (type_map_entries m p is) (\<lambda>(vs, m). Inr (v # vs, m)))"

definition build_type_map :: "mem \<Rightarrow> policydb \<Rightarrow> errcode + type_vec list \<times> mem" where
  "build_type_map m p =
     (case malloc m of
        None \<Rightarrow> Inl EFAIL
      | Some m' \<Rightarrow> type_map_entries m' p [0..<unat (nprim (p_types p))])"

section \<open>Covered rules\<close>

definition process_xperms :: "u32 list \<Rightarrow> u32 list \<Rightarrow> bool \<times> u32 list" where
  "process_xperms p1 p2 =
     (let p1 = map2 (\<lambda>a b. a AND NOT b) p1 p2 in (list_all (\<lambda>a. a = 0) p1, p1))"

definition xperm_test :: "u8 \<Rightarrow> u32 list \<Rightarrow> bool" where
  "xperm_test x ps = (1 AND drop_bit (unat (x AND 0x1f)) (ps ! unat (drop_bit 5 x)) \<noteq> 0)"

definition process_xperms_datum ::
  "avtab_extended_perms \<Rightarrow> avtab_extended_perms \<Rightarrow> bool \<times> avtab_extended_perms" where
  "process_xperms_datum x1 x2 =
     (let covered = (case process_xperms (perms x1) (perms x2) of (ret, ps) \<Rightarrow> (ret, x1\<lparr>perms := ps\<rparr>))
      in if xspecified x1 = AVTAB_XPERMS_IOCTLFUNCTION then
           (if xspecified x2 = AVTAB_XPERMS_IOCTLFUNCTION then
              (if driver x1 \<noteq> driver x2 then (False, x1) else covered)
            else if xspecified x2 = AVTAB_XPERMS_IOCTLDRIVER then (xperm_test (driver x1) (perms x2), x1)
            else (False, x1))
         else if xspecified x1 = AVTAB_XPERMS_IOCTLDRIVER then
           (if xspecified x2 = AVTAB_XPERMS_IOCTLFUNCTION then (False, x1)
            else if xspecified x2 = AVTAB_XPERMS_IOCTLDRIVER then covered
            else (False, x1))
         else if xspecified x1 = AVTAB_XPERMS_NLMSG \<and> xspecified x2 = AVTAB_XPERMS_NLMSG then
           (if driver x1 \<noteq> driver x2 then (False, x1) else covered)
         else (False, x1))"

text \<open>Is \<open>d1\<close> covered by \<open>d2\<close>? What is covered is taken out of \<open>d1\<close>.\<close>

definition process_avtab_datum ::
  "u16 \<Rightarrow> avtab_datum \<Rightarrow> avtab_datum \<Rightarrow> errcode + bool \<times> avtab_datum" where
  "process_avtab_datum spec d1 d2 =
     (if spec AND AVTAB_AUDITDENY \<noteq> 0 then
        (let x = data d1 OR NOT (data d2) in Inr (x = 0xFFFFFFFF, d1\<lparr>data := x\<rparr>))
      else if spec AND AVTAB_AV \<noteq> 0 then
        (let x = data d1 AND NOT (data d2) in Inr (x = 0, d1\<lparr>data := x\<rparr>))
      else if spec AND AVTAB_XPERMS \<noteq> 0 then
        (case (xperms d1, xperms d2) of
           (Some x1, Some x2) \<Rightarrow>
             (case process_xperms_datum x1 x2 of (ret, x) \<Rightarrow> Inr (ret, d1\<lparr>xperms := Some x\<rparr>))
         | _ \<Rightarrow> Inl UNDEF)
      else Inr (False, d1))"

text \<open>The two loops over the types that cover the source and the target.\<close>

fun redundant_loop ::
  "avtab \<Rightarrow> avtab_key \<Rightarrow> bool \<Rightarrow> (u32 \<times> u32) list \<Rightarrow> avtab_datum \<Rightarrow> errcode + bool \<times> avtab_datum" where
  "redundant_loop tab k not_cond [] d1 = Inr (False, d1)"
| "redundant_loop tab k not_cond ((st, tt) # ps) d1 =
     (if not_cond \<and> ucast (source_type k) - 1 = st \<and> ucast (target_type k) - 1 = tt
      then redundant_loop tab k not_cond ps d1
      else case avtab_search tab (k\<lparr>source_type := ucast (st + 1), target_type := ucast (tt + 1)\<rparr>) of
        None \<Rightarrow> redundant_loop tab k not_cond ps d1
      | Some d2 \<Rightarrow>
          rbind (process_avtab_datum (specified k) d1 d2) (\<lambda>(ret, d1).
            if ret then Inr (True, d1) else redundant_loop tab k not_cond ps d1))"

definition type_index :: "u16 \<Rightarrow> nat" where
  "type_index t = unat (ucast t - 1 :: u32)"

definition is_avrule_redundant ::
  "avtab_node \<Rightarrow> avtab \<Rightarrow> type_vec list \<Rightarrow> bool \<Rightarrow> errcode + bool \<times> avtab_datum" where
  "is_avrule_redundant entry tab tm not_cond =
     (if specified (key entry) AND (AVTAB_AV OR AVTAB_XPERMS) = 0 then Inr (False, datum entry)
      else case arr tm (type_index (source_type (key entry))) of
        None \<Rightarrow> Inl UNDEF
      | Some sv \<Rightarrow>
          if tv_types sv = [] then Inr (False, datum entry)
          else case arr tm (type_index (target_type (key entry))) of
            None \<Rightarrow> Inl UNDEF
          | Some tv \<Rightarrow>
              redundant_loop tab (key entry) not_cond (List.product (tv_types sv) (tv_types tv))
                (datum entry))"

definition is_type_attr :: "policydb \<Rightarrow> nat \<Rightarrow> errcode + bool" where
  "is_type_attr p i =
     (case ptr_arr (type_val_to_struct p) i of
        None \<Rightarrow> Inl UNDEF
      | Some td \<Rightarrow> Inr (type_flavor td = TYPE_ATTRIB))"

definition is_avrule_with_attr :: "avtab_node \<Rightarrow> policydb \<Rightarrow> errcode + bool" where
  "is_avrule_with_attr entry p =
     rbind (is_type_attr p (type_index (source_type (key entry)))) (\<lambda>a.
       if a then Inr True else is_type_attr p (type_index (target_type (key entry))))"

section \<open>The unconditional rules\<close>

text \<open>The chain of slot \<open>i\<close> is \<open>pre @ rest\<close>; \<open>rest\<close> starts at \<^verbatim>\<open>*cur\<close>.\<close>

definition set_chain :: "avtab \<Rightarrow> nat \<Rightarrow> avtab_node list \<Rightarrow> avtab" where
  "set_chain h i c = h\<lparr>avtable := map_option (\<lambda>t. t[i := c]) (avtable h)\<rparr>"

fun optimize_chain ::
  "type_vec list \<Rightarrow> nat \<Rightarrow> avtab_node list \<Rightarrow> avtab_node list \<Rightarrow> avtab \<Rightarrow> errcode + avtab" where
  "optimize_chain tm i pre [] h = Inr h"
| "optimize_chain tm i pre (c # rest) h =
     rbind (is_avrule_redundant c h tm True) (\<lambda>(red, d).
       if red then optimize_chain tm i pre rest ((set_chain h i (pre @ rest))\<lparr>avnel := avnel h - 1\<rparr>)
       else let c = c\<lparr>datum := d\<rparr>
            in optimize_chain tm i (pre @ [c]) rest (set_chain h i (pre @ c # rest)))"

fun optimize_slots :: "type_vec list \<Rightarrow> nat list \<Rightarrow> avtab \<Rightarrow> errcode + avtab" where
  "optimize_slots tm [] h = Inr h"
| "optimize_slots tm (i # is) h =
     (case arr (case avtable h of None \<Rightarrow> [] | Some t \<Rightarrow> t) i of
        None \<Rightarrow> Inl UNDEF
      | Some c \<Rightarrow> rbind (optimize_chain tm i [] c h) (optimize_slots tm is))"

definition optimize_avtab :: "type_vec list \<Rightarrow> avtab \<Rightarrow> errcode + avtab" where
  "optimize_avtab tm h = optimize_slots tm [0..<unat (nslot h)] h"

section \<open>The conditional rules\<close>

text \<open>The node a list points to; an address without a node is a dangling pointer.\<close>

definition node_at :: "avtab \<Rightarrow> nat \<Rightarrow> errcode + avtab_node" where
  "node_at h a =
     (case find (\<lambda>n. addr n = a) (av_nodes h) of None \<Rightarrow> Inl UNDEF | Some n \<Rightarrow> Inr n)"

definition set_datum :: "nat \<Rightarrow> avtab_datum \<Rightarrow> avtab \<Rightarrow> avtab" where
  "set_datum a d h = map_nodes (\<lambda>n. if addr n = a then n\<lparr>datum := d\<rparr> else n) h"

text \<open>\<open>e1\<close> is the rule, \<open>d1\<close> its datum so far.\<close>

fun cond_redundant_loop ::
  "avtab \<Rightarrow> type_vec list \<Rightarrow> avtab_key \<Rightarrow> cond_av_list \<Rightarrow> avtab_datum \<Rightarrow> errcode + bool \<times> avtab_datum" where
  "cond_redundant_loop ct tm k [] d1 = Inr (False, d1)"
| "cond_redundant_loop ct tm k (a # l) d1 =
     rbind (node_at ct a) (\<lambda>e2.
       let k2 = key e2 in
       if specified k \<noteq> specified k2 \<or> target_class k \<noteq> target_class k2
       then cond_redundant_loop ct tm k l d1
       else if source_type k = source_type k2 \<and> target_type k = target_type k2
       then cond_redundant_loop ct tm k l d1
       else case arr tm (type_index (source_type k)) of
         None \<Rightarrow> Inl UNDEF
       | Some sv \<Rightarrow>
           if \<not> type_vec_contains sv (ucast (source_type k2) - 1)
           then cond_redundant_loop ct tm k l d1
           else case arr tm (type_index (target_type k)) of
             None \<Rightarrow> Inl UNDEF
           | Some tv \<Rightarrow>
               if \<not> type_vec_contains tv (ucast (target_type k2) - 1)
               then cond_redundant_loop ct tm k l d1
               else rbind (process_avtab_datum (specified k) d1 (datum e2)) (\<lambda>(ret, d1).
                      if ret then Inr (True, d1) else cond_redundant_loop ct tm k l d1))"

definition is_cond_rule_redundant ::
  "avtab \<Rightarrow> type_vec list \<Rightarrow> avtab_node \<Rightarrow> cond_av_list \<Rightarrow> errcode + bool \<times> avtab_datum" where
  "is_cond_rule_redundant ct tm e1 list =
     (if specified (key e1) AND (AVTAB_AV OR AVTAB_XPERMS) = 0 then Inr (False, datum e1)
      else cond_redundant_loop ct tm (key e1) list (datum e1))"

text \<open>
  The first loop of \<^verbatim>\<open>optimize_cond_av_list\<close>: the rules with an attribute are moved to \<open>pcov\<close>,
  in reverse.
\<close>

fun separate_covering ::
  "policydb \<Rightarrow> avtab \<Rightarrow> cond_av_list \<Rightarrow> cond_av_list \<Rightarrow> cond_av_list
     \<Rightarrow> errcode + cond_av_list \<times> cond_av_list" where
  "separate_covering p ct [] plain pcov = Inr (plain, pcov)"
| "separate_covering p ct (a # l) plain pcov =
     rbind (node_at ct a) (\<lambda>n.
     rbind (is_avrule_with_attr n p) (\<lambda>w.
       if w then separate_covering p ct l plain (a # pcov)
       else separate_covering p ct l (plain @ [a]) pcov))"

text \<open>The two tests on one rule, first against the unconditional table, then against \<open>covering\<close>.\<close>

definition cond_rule_covered ::
  "type_vec list \<Rightarrow> avtab \<Rightarrow> avtab \<Rightarrow> cond_av_list \<Rightarrow> nat \<Rightarrow> errcode + bool \<times> avtab" where
  "cond_rule_covered tm te ct covering a =
     rbind (node_at ct a) (\<lambda>n.
     rbind (is_avrule_redundant n te tm False) (\<lambda>(red, d).
       if red then Inr (True, set_datum a d ct)
       else rbind (is_cond_rule_redundant ct tm (n\<lparr>datum := d\<rparr>) covering) (\<lambda>(red, d).
              Inr (red, set_datum a d ct))))"

text \<open>
  The second loop. Before \<^verbatim>\<open>*cond\<close> reaches \<^verbatim>\<open>pcov\<close> the covering rules are all of \<open>pcov\<close>; from
  then on \<^verbatim>\<open>pcov_cur\<close> is the link that led to \<^verbatim>\<open>pcov\<close>, so they are what is left of \<open>pcov\<close>:
  the rules \<open>kept\<close> so far and those still to be scanned. The result has the rules that stay,
  the list \<open>del\<close> and the table.
\<close>

fun scan_covered ::
  "(cond_av_list \<Rightarrow> cond_av_list \<Rightarrow> cond_av_list) \<Rightarrow> type_vec list \<Rightarrow> avtab \<Rightarrow> cond_av_list
     \<Rightarrow> cond_av_list \<Rightarrow> cond_av_list \<Rightarrow> avtab \<Rightarrow> errcode + cond_av_list \<times> cond_av_list \<times> avtab" where
  "scan_covered covering tm te kept [] del ct = Inr (kept, del, ct)"
| "scan_covered covering tm te kept (a # l) del ct =
     rbind (cond_rule_covered tm te ct (covering kept (a # l)) a) (\<lambda>(red, ct).
       if red then scan_covered covering tm te kept l (a # del) ct
       else scan_covered covering tm te (kept @ [a]) l del ct)"

definition optimize_cond_av_list ::
  "policydb \<Rightarrow> type_vec list \<Rightarrow> cond_av_list \<Rightarrow> cond_av_list \<Rightarrow> avtab
     \<Rightarrow> errcode + cond_av_list \<times> cond_av_list \<times> avtab" where
  "optimize_cond_av_list p tm l del ct =
     rbind (separate_covering p ct l [] []) (\<lambda>(plain, pcov).
     rbind (scan_covered (\<lambda>_ _. pcov) tm (te_avtab p) [] plain del ct) (\<lambda>(kept1, del, ct).
     rbind (scan_covered (\<lambda>kept rest. kept @ rest) tm (te_avtab p) [] pcov del ct)
       (\<lambda>(kept2, del, ct). Inr (kept1 @ kept2, del, ct))))"

fun optimize_cond_list ::
  "policydb \<Rightarrow> type_vec list \<Rightarrow> cond_node list \<Rightarrow> cond_av_list \<Rightarrow> avtab
     \<Rightarrow> errcode + cond_node list \<times> cond_av_list \<times> avtab" where
  "optimize_cond_list p tm [] del ct = Inr ([], del, ct)"
| "optimize_cond_list p tm (c # cs) del ct =
     rbind (optimize_cond_av_list p tm (true_list c) del ct) (\<lambda>(tl, del, ct).
     rbind (optimize_cond_av_list p tm (false_list c) del ct) (\<lambda>(fl, del, ct).
     rbind (optimize_cond_list p tm cs del ct) (\<lambda>(cs, del, ct).
       Inr (if tl = [] \<and> fl = [] then cs else c\<lparr>true_list := tl, false_list := fl\<rparr> # cs, del, ct))))"

text \<open>The sweep: a node on the list \<open>del\<close> is unlinked, and its entry taken off the list.\<close>

fun sweep_chain :: "cond_av_list \<Rightarrow> avtab_node list \<Rightarrow> avtab_node list \<times> cond_av_list" where
  "sweep_chain del [] = ([], del)"
| "sweep_chain del (c # rest) =
     (if addr c \<in> set del then sweep_chain (remove1 (addr c) del) rest
      else case sweep_chain del rest of (r, del) \<Rightarrow> (c # r, del))"

fun sweep_slots ::
  "cond_av_list \<Rightarrow> avtab_node list list \<Rightarrow> avtab_node list list \<times> cond_av_list" where
  "sweep_slots del [] = ([], del)"
| "sweep_slots del (c # cs) =
     (case sweep_chain del c of (c, del) \<Rightarrow>
        (case sweep_slots del cs of (cs, del) \<Rightarrow> (c # cs, del)))"

text \<open>\<^verbatim>\<open>tab->nel\<close> drops by one for each node that is unlinked.\<close>

definition sweep_table :: "cond_av_list \<Rightarrow> avtab \<Rightarrow> avtab" where
  "sweep_table del h =
     (case avtable h of
        None \<Rightarrow> h
      | Some t \<Rightarrow>
          (case sweep_slots del (take (unat (nslot h)) t) of (t', _) \<Rightarrow>
             h\<lparr>avtable := Some (t' @ drop (unat (nslot h)) t),
               avnel := avnel h - of_nat (length (concat (take (unat (nslot h)) t)) - length (concat t'))\<rparr>))"

definition optimize_cond_avtab :: "policydb \<Rightarrow> type_vec list \<Rightarrow> errcode + policydb" where
  "optimize_cond_avtab p tm =
     rbind (optimize_cond_list p tm (cond_list p) [] (te_cond_avtab p)) (\<lambda>(cs, del, ct).
       let p = p\<lparr>cond_list := cs, te_cond_avtab := ct\<rparr>
       in if del = [] then Inr p else Inr (p\<lparr>te_cond_avtab := sweep_table del ct\<rparr>))"

section \<open>The optimiser\<close>

definition policydb_optimize :: "mem \<Rightarrow> policydb \<Rightarrow> errcode + policydb" where
  "policydb_optimize m p =
     (if policy_type p \<noteq> POLICY_KERN then Inl EFAIL
      else if policyvers p \<ge> POLICYDB_VERSION_AVTAB \<and> policyvers p \<le> POLICYDB_VERSION_PERMISSIVE
      then Inl EFAIL
      else rbind (build_type_map m p) (\<lambda>(tm, _).
           rbind (optimize_avtab tm (te_avtab p)) (\<lambda>h.
             optimize_cond_avtab (p\<lparr>te_avtab := h\<rparr>) tm)))"

end
