(* ===== verification/Optimize_Props.thy ===== *)
theory Optimize_Props
  imports Optimize
begin

text \<open>
  The optimiser does not change what the rules of a policy grant. \<open>grants\<close> is what a rule
  contributes; the rules in the scope of a pair of types contribute the union, and each step
  of the optimiser takes out of one rule only what another rule of the same scope contributes.
\<close>

section \<open>What a rule grants\<close>

text \<open>
  \<open>Av\<close> is a permission bit of a kind (for \<^verbatim>\<open>auditdeny\<close> a bit that is masked out), \<open>Xp\<close> an
  extended permission (netlink message or ioctl, driver and function), and \<open>Rule\<close> the presence
  of a rule of a kind.
\<close>

datatype grant = Av u16 nat | Xp u16 bool u8 u8 | Rule u16

definition xgrants :: "avtab_extended_perms \<Rightarrow> (bool \<times> u8 \<times> u8) set" where
  "xgrants x = {(nl, d, f).
     (xspecified x = AVTAB_XPERMS_IOCTLFUNCTION \<and> \<not> nl \<and> d = driver x \<and> xperm_test f (perms x)) \<or>
     (xspecified x = AVTAB_XPERMS_IOCTLDRIVER \<and> \<not> nl \<and> xperm_test d (perms x)) \<or>
     (xspecified x = AVTAB_XPERMS_NLMSG \<and> nl \<and> d = driver x \<and> xperm_test f (perms x))}"

definition datum_grants :: "u16 \<Rightarrow> avtab_datum \<Rightarrow> grant set" where
  "datum_grants kind d = insert (Rule kind)
     (if kind AND AVTAB_AUDITDENY \<noteq> 0 then {Av kind k | k. k < 32 \<and> \<not> bit (data d) k}
      else if kind AND AVTAB_AV \<noteq> 0 then {Av kind k | k. bit (data d) k}
      else if kind AND AVTAB_XPERMS \<noteq> 0
      then {Xp kind nl dr f | nl dr f. \<exists>x. xperms d = Some x \<and> (nl, dr, f) \<in> xgrants x}
      else {})"

definition node_kind :: "avtab_node \<Rightarrow> u16" where
  "node_kind n = rule_kind (specified (key n))"

definition grants :: "avtab_node \<Rightarrow> grant set" where
  "grants n = datum_grants (node_kind n) (datum n)"

text \<open>A rule of one kind whose extended permissions fill the C array.\<close>

definition xperms_full :: "avtab_datum \<Rightarrow> bool" where
  "xperms_full d \<longleftrightarrow> (\<forall>x. xperms d = Some x \<longrightarrow> length (perms x) = 8)"

definition single_kind :: "avtab_node \<Rightarrow> bool" where
  "single_kind n \<longleftrightarrow> (\<exists>b < 15. node_kind n = 2 ^ b) \<and> xperms_full (datum n)"

lemma xperm_index: "unat (drop_bit 5 (x :: u8)) < 8"
proof -
  have "unat x < 2 ^ 8" using unsigned_less[of x] by simp
  then show ?thesis by (simp add: unat_drop_bit_eq drop_bit_eq_div unat_div)
qed

lemma xperm_test_bit:
  "xperm_test x ps \<longleftrightarrow> bit (ps ! unat (drop_bit 5 x)) (unat (x AND 0x1f))"
proof -
  have "1 AND w = (if bit w 0 then 1 else 0 :: u32)" for w
    by (rule bit_word_eqI) (auto simp: bit_and_iff bit_1_iff)
  then show ?thesis by (simp add: xperm_test_def bit_drop_bit_eq)
qed

lemma process_xperms_bits:
  assumes "process_xperms p1 p2 = (ret, ps)" "length p1 = 8" "length p2 = 8"
  shows "length ps = 8" "xperm_test x ps \<longleftrightarrow> xperm_test x p1 \<and> \<not> xperm_test x p2"
    "ret \<Longrightarrow> \<not> xperm_test x ps"
proof -
  have ps: "ps = map2 (\<lambda>a b. a AND NOT b) p1 p2" "ret = list_all (\<lambda>a. a = 0) ps"
    using assms(1) by (auto simp: process_xperms_def Let_def)
  show l: "length ps = 8" using assms by (simp add: ps)
  show "xperm_test x ps \<longleftrightarrow> xperm_test x p1 \<and> \<not> xperm_test x p2"
    using assms xperm_index[of x]
    by (auto simp: xperm_test_bit ps(1) bit_and_iff bit_not_iff possible_bit_word dest: bit_imp_le_length)
  show "ret \<Longrightarrow> \<not> xperm_test x ps"
    using l xperm_index[of x] by (simp add: xperm_test_bit ps(2) list_all_length)
qed

lemma process_xperms_datum_grants:
  assumes "process_xperms_datum x1 x2 = (ret, x)" "length (perms x1) = 8" "length (perms x2) = 8"
  shows "xgrants x1 \<subseteq> xgrants x2 \<union> (if ret then {} else xgrants x)" "xgrants x \<subseteq> xgrants x1"
    "length (perms x) = 8"
proof -
  obtain r ps where ps: "process_xperms (perms x1) (perms x2) = (r, ps)" by fastforce
  note b = process_xperms_bits[OF ps assms(2,3)]
  have c: "(x = x1 \<and> \<not> ret) \<or>
      (ret = xperm_test (driver x1) (perms x2) \<and> x = x1 \<and>
        xspecified x1 = AVTAB_XPERMS_IOCTLFUNCTION \<and> xspecified x2 = AVTAB_XPERMS_IOCTLDRIVER) \<or>
      (ret = r \<and> x = x1\<lparr>perms := ps\<rparr> \<and> xspecified x1 = xspecified x2 \<and>
        xspecified x1 \<in> {AVTAB_XPERMS_IOCTLFUNCTION, AVTAB_XPERMS_IOCTLDRIVER, AVTAB_XPERMS_NLMSG} \<and>
        (xspecified x1 \<noteq> AVTAB_XPERMS_IOCTLDRIVER \<longrightarrow> driver x1 = driver x2))"
    using assms(1) by (auto simp: process_xperms_datum_def Let_def ps split: if_splits)
  from c show "length (perms x) = 8" using assms(2) b(1) by auto
  show "xgrants x \<subseteq> xgrants x1"
    using c by (elim disjE conjE) (auto simp: xgrants_def b(2))
  show "xgrants x1 \<subseteq> xgrants x2 \<union> (if ret then {} else xgrants x)"
    using c
  proof (elim disjE conjE)
    assume e: "ret = r" "x = x1\<lparr>perms := ps\<rparr>" "xspecified x1 = xspecified x2"
      "xspecified x1 \<in> {1, 2, 3}" "xspecified x1 \<noteq> 2 \<longrightarrow> driver x1 = driver x2"
    consider "xspecified x1 = 1" | "xspecified x1 = 2" | "xspecified x1 = 3" using e(4) by auto
    then show ?thesis
      using e(3,5) b(2,3) by cases (auto simp: xgrants_def e(1,2))
  qed (auto simp: xgrants_def)
qed

lemma kind_test:
  "rule_kind s AND AVTAB_AUDITDENY = s AND AVTAB_AUDITDENY"
  "rule_kind s AND AVTAB_AV = s AND AVTAB_AV"
  "rule_kind s AND AVTAB_XPERMS = s AND AVTAB_XPERMS"
  by (simp_all add: rule_kind_def and.assoc)

lemma process_avtab_datum_grants:
  assumes "process_avtab_datum s d1 d2 = Inr (ret, d)" "xperms_full d1" "xperms_full d2"
  shows "datum_grants (rule_kind s) d1 \<subseteq> datum_grants (rule_kind s) d2 \<union>
      (if ret then {} else datum_grants (rule_kind s) d)"
    and "datum_grants (rule_kind s) d \<subseteq> datum_grants (rule_kind s) d1" and "xperms_full d"
proof -
  consider (deny) "s AND AVTAB_AUDITDENY \<noteq> 0" | (av) "s AND AVTAB_AUDITDENY = 0" "s AND AVTAB_AV \<noteq> 0"
    | (xp) "s AND AVTAB_AUDITDENY = 0" "s AND AVTAB_AV = 0" "s AND AVTAB_XPERMS \<noteq> 0"
    | (other) "s AND AVTAB_AUDITDENY = 0" "s AND AVTAB_AV = 0" "s AND AVTAB_XPERMS = 0" by blast
  then have "datum_grants (rule_kind s) d1 \<subseteq> datum_grants (rule_kind s) d2 \<union>
      (if ret then {} else datum_grants (rule_kind s) d) \<and>
      datum_grants (rule_kind s) d \<subseteq> datum_grants (rule_kind s) d1 \<and> xperms_full d"
  proof cases
    case deny
    then have d: "d = d1\<lparr>data := data d1 OR NOT (data d2)\<rparr>"
      and r: "ret \<longleftrightarrow> data d1 OR NOT (data d2) = 0xFFFFFFFF"
      using assms(1) by (auto simp: process_avtab_datum_def Let_def)
    have "bit (data d1) k \<or> \<not> bit (data d2) k" if "ret" "k < 32" for k
    proof -
      have m: "data d1 OR NOT (data d2) = mask 32" using r that by (simp add: mask_eq_exp_minus_1)
      have "bit (data d1 OR NOT (data d2)) k" unfolding m using that by (simp add: bit_mask_iff possible_bit_word)
      then show ?thesis by (auto simp: bit_or_iff bit_not_iff possible_bit_word)
    qed
    then show ?thesis using deny assms(2)
      by (auto simp: datum_grants_def kind_test d xperms_full_def bit_or_iff bit_not_iff possible_bit_word)
  next
    case av
    then have d: "d = d1\<lparr>data := data d1 AND NOT (data d2)\<rparr>"
      and r: "ret \<longleftrightarrow> data d1 AND NOT (data d2) = 0"
      using assms(1) by (auto simp: process_avtab_datum_def Let_def)
    have "\<not> bit (data d1) k \<or> bit (data d2) k" if "ret" for k
    proof -
      have "\<not> bit (data d1 AND NOT (data d2)) k" using r that by simp
      then show ?thesis by (auto simp: bit_and_iff bit_not_iff possible_bit_word dest: bit_imp_le_length)
    qed
    then show ?thesis using av assms(2)
      by (auto simp: datum_grants_def kind_test d xperms_full_def bit_and_iff bit_not_u32 dest: bit_u32_less)
  next
    case xp
    then obtain x1 x2 x where x: "xperms d1 = Some x1" "xperms d2 = Some x2"
      and pr: "process_xperms_datum x1 x2 = (ret, x)" and d: "d = d1\<lparr>xperms := Some x\<rparr>"
      using assms(1) by (auto simp: process_avtab_datum_def split: option.splits prod.splits)
    have "length (perms x1) = 8" "length (perms x2) = 8" using assms(2,3) x by (auto simp: xperms_full_def)
    note g = process_xperms_datum_grants[OF pr this]
    show ?thesis using xp g x
      by (auto simp: datum_grants_def kind_test d xperms_full_def split: if_splits)
  next
    case other
    then show ?thesis using assms by (auto simp: process_avtab_datum_def)
  qed
  then show "datum_grants (rule_kind s) d1 \<subseteq> datum_grants (rule_kind s) d2 \<union>
      (if ret then {} else datum_grants (rule_kind s) d)"
    and "datum_grants (rule_kind s) d \<subseteq> datum_grants (rule_kind s) d1" and "xperms_full d" by blast+
qed

section \<open>Scopes\<close>

text \<open>
  The rules that speak about a pair of types: their source and target lie in the sets of the
  attributes of the two types (bit numbers, as in \<open>type_attr_map\<close>).
\<close>

definition in_scope :: "u32 set \<Rightarrow> u32 set \<Rightarrow> u16 \<Rightarrow> avtab_key \<Rightarrow> bool" where
  "in_scope A B cls k \<longleftrightarrow>
     (\<exists>i \<in> A. \<exists>j \<in> B. triple k = (ucast (i + 1), ucast (j + 1), cls))"

definition scope_grants :: "u32 set \<Rightarrow> u32 set \<Rightarrow> u16 \<Rightarrow> avtab_node set \<Rightarrow> grant set" where
  "scope_grants A B cls ns = (\<Union>n \<in> {n \<in> ns. in_scope A B cls (key n)}. grants n)"

lemma scope_grants_Un: "scope_grants A B cls (M \<union> N) = scope_grants A B cls M \<union> scope_grants A B cls N"
  by (auto simp: scope_grants_def)

lemma scope_grants_mono: "M \<subseteq> N \<Longrightarrow> scope_grants A B cls M \<subseteq> scope_grants A B cls N"
  by (auto simp: scope_grants_def)

lemma scope_grants_insert:
  "scope_grants A B cls (insert n N) =
     (if in_scope A B cls (key n) then grants n else {}) \<union> scope_grants A B cls N"
  by (auto simp: scope_grants_def)

text \<open>A set of types with everything that covers them, all with numbers of 16 bits.\<close>

definition closed_types :: "type_vec list \<Rightarrow> u32 set \<Rightarrow> bool" where
  "closed_types tm A \<longleftrightarrow>
     (\<forall>i \<in> A. unat i < 65535 \<and> (\<forall>v. arr tm (unat i) = Some v \<longrightarrow> set (tv_types v) \<subseteq> A))"

lemma ucast_succ:
  assumes "unat (i :: u32) < 65535"
  shows "ucast (ucast (i + 1) :: u16) - 1 = i" "type_index (ucast (i + 1)) = unat i"
proof -
  have "unat i + unat (1 :: u32) < 2 ^ LENGTH(32)" using assms by simp
  then have "unat (i + 1) = unat i + 1" by (simp only: unat_add_lem) simp
  then have l: "unat (i + 1) < 65536" using assms by simp
  have "unat (ucast (ucast (i + 1) :: u16) :: u32) = unat (i + 1)"
    using l by (simp add: unsigned_ucast_eq take_bit_eq_mod unat_mod)
  then have "ucast (ucast (i + 1) :: u16) = i + 1" by (rule word_unat_eq_iff[THEN iffD2])
  then show "ucast (ucast (i + 1) :: u16) - 1 = i" by simp
  then show "type_index (ucast (i + 1)) = unat i" by (simp add: type_index_def)
qed

section \<open>The searches for a covering rule\<close>

lemma answers_same_kind:
  assumes "answers k n" "single_kind n" "rule_kind (specified k) = 2 ^ b" "b < 15"
  shows "node_kind n = rule_kind (specified k)" "triple (key n) = triple k"
proof -
  obtain c where c: "c < 15" "node_kind n = 2 ^ c" using assms(2) by (auto simp: single_kind_def)
  obtain i where i: "i < 15" "bit (specified k) i" "bit (specified (key n)) i"
    using assms(1) by (auto simp: answers_iff_bit)
  then have "bit (2 ^ b :: u16) i" "bit (2 ^ c :: u16) i"
    using assms(3) c(2) by (metis bit_rule_kind node_kind_def)+
  then have "i = b" "i = c" by (auto simp: bit_exp_iff)
  then show "node_kind n = rule_kind (specified k)" using c assms(3) by simp
  show "triple (key n) = triple k" using assms(1) by (simp add: answers_def same_triple_iff)
qed

definition pair_covers :: "avtab_key \<Rightarrow> bool \<Rightarrow> (u32 \<times> u32) list \<Rightarrow> avtab_node \<Rightarrow> bool" where
  "pair_covers k not_cond ps n \<longleftrightarrow> node_kind n = rule_kind (specified k) \<and>
     (\<exists>(st, tt) \<in> set ps.
        \<not> (not_cond \<and> ucast (source_type k) - 1 = st \<and> ucast (target_type k) - 1 = tt) \<and>
        triple (key n) = (ucast (st + 1), ucast (tt + 1), target_class k))"

text \<open>What a loop that compares the datum of a rule with others guarantees.\<close>

definition taken_out :: "u16 \<Rightarrow> avtab_datum \<Rightarrow> bool \<Rightarrow> avtab_datum \<Rightarrow> avtab_node set \<Rightarrow> bool" where
  "taken_out kind d1 red d N \<longleftrightarrow> xperms_full d \<and> datum_grants kind d \<subseteq> datum_grants kind d1 \<and>
     datum_grants kind d1 \<subseteq> (if red then {} else datum_grants kind d) \<union> (\<Union>n \<in> N. grants n)"

lemma taken_out_none: "xperms_full d \<Longrightarrow> taken_out kind d False d N"
  by (simp add: taken_out_def)

lemma taken_out_mono: "taken_out kind d1 red d M \<Longrightarrow> M \<subseteq> N \<Longrightarrow> taken_out kind d1 red d N"
  by (fastforce simp: taken_out_def)

lemma taken_out_trans:
  "taken_out kind d1 False d N \<Longrightarrow> taken_out kind d red d' N \<Longrightarrow> taken_out kind d1 red d' N"
  by (auto simp: taken_out_def) 

lemma taken_out_process:
  assumes "process_avtab_datum s d1 (datum n) = Inr (ret, d)" "xperms_full d1" "single_kind n"
    "node_kind n = rule_kind s" "n \<in> N"
  shows "taken_out (rule_kind s) d1 ret d N"
proof -
  have "xperms_full (datum n)" using assms(3) by (simp add: single_kind_def)
  note g = process_avtab_datum_grants[OF assms(1,2) this]
  have "datum_grants (rule_kind s) (datum n) \<subseteq> (\<Union>n \<in> N. grants n)"
    using assms(4,5) by (auto simp: grants_def)
  then show ?thesis using g unfolding taken_out_def by blast
qed

lemma redundant_loop_grants:
  assumes "wf_avtab tab" "\<forall>n \<in> set (av_nodes tab). single_kind n"
    "rule_kind (specified k) = 2 ^ b" "b < 15"
  shows "redundant_loop tab k nc ps d1 = Inr (red, d) \<Longrightarrow> xperms_full d1 \<Longrightarrow>
    taken_out (rule_kind (specified k)) d1 red d {n \<in> set (av_nodes tab). pair_covers k nc ps n}"
proof (induction ps arbitrary: d1)
  case (Cons p ps)
  obtain st tt where p: "p = (st, tt)" by (cases p)
  let ?N = "\<lambda>ps. {n \<in> set (av_nodes tab). pair_covers k nc ps n}"
  have mono: "?N ps \<subseteq> ?N (p # ps)" by (auto simp: pair_covers_def)
  let ?skip = "nc \<and> ucast (source_type k) - 1 = st \<and> ucast (target_type k) - 1 = tt"
  let ?k = "k\<lparr>source_type := ucast (st + 1), target_type := ucast (tt + 1)\<rparr>"
  show ?case
  proof (cases "?skip \<or> avtab_search tab ?k = None")
    case True
    then have "redundant_loop tab k nc ps d1 = Inr (red, d)"
      using Cons.prems(1) unfolding p redundant_loop.simps by (elim disjE) (simp_all split: if_splits)
    then show ?thesis using Cons.IH Cons.prems(2) taken_out_mono[OF _ mono] by blast
  next
    case False
    then obtain d2 where d2: "avtab_search tab ?k = Some d2" and ns: "\<not> ?skip" by auto
    obtain n where n: "n \<in> set (av_nodes tab)" "answers ?k n" "datum n = d2"
      using avtab_search_sound[OF assms(1) d2] by blast
    have nk: "single_kind n" using n(1) assms(2) by blast
    have kb: "rule_kind (specified ?k) = 2 ^ b" using assms(3) by simp
    note a = answers_same_kind[OF n(2) nk kb assms(4)]
    have mem: "n \<in> ?N (p # ps)" using n(1) a ns by (auto simp: pair_covers_def triple_def p)
    obtain r d' where pr: "process_avtab_datum (specified k) d1 d2 = Inr (r, d')"
      and rest: "(if r then Inr (True, d') else redundant_loop tab k nc ps d') = Inr (red, d)"
      using Cons.prems(1) d2 ns unfolding p redundant_loop.simps if_not_P[OF ns]
      by (auto simp: rbind_eq_Inr)
    have t: "taken_out (rule_kind (specified k)) d1 r d' (?N (p # ps))"
      using taken_out_process[OF pr[folded n(3)] Cons.prems(2) nk _ mem] a(1) by simp
    show ?thesis
    proof (cases r)
      case True
      then show ?thesis using t rest by simp
    next
      case False
      then have "taken_out (rule_kind (specified k)) d' red d (?N ps)"
        using Cons.IH rest t by (simp add: taken_out_def)
      then show ?thesis using taken_out_trans[OF _ taken_out_mono[OF _ mono]] t False by simp
    qed
  qed
qed (simp add: taken_out_none)

text \<open>A covering rule lies in every closed scope of the rule it covers, and is another rule.\<close>

lemma covering_in_scope:
  assumes cov: "pair_covers k nc (List.product (tv_types sv) (tv_types tv)) n"
    and v: "arr tm (type_index (source_type k)) = Some sv" "arr tm (type_index (target_type k)) = Some tv"
    and cl: "closed_types tm A" "closed_types tm B" and sc: "in_scope A B cls k"
  shows "in_scope A B cls (key n)" "nc \<Longrightarrow> triple (key n) \<noteq> triple k"
proof -
  obtain i j where ij: "i \<in> A" "j \<in> B" "source_type k = ucast (i + 1)" "target_type k = ucast (j + 1)"
    "target_class k = cls"
    using sc by (auto simp: in_scope_def triple_def)
  have b: "unat i < 65535" "unat j < 65535" using ij cl by (auto simp: closed_types_def)
  have sub: "set (tv_types sv) \<subseteq> A" "set (tv_types tv) \<subseteq> B"
    using v ij(1,2) cl by (auto simp: closed_types_def ij(3,4) ucast_succ b)
  obtain st tt where st: "st \<in> set (tv_types sv)" "tt \<in> set (tv_types tv)"
    and ne: "\<not> (nc \<and> ucast (source_type k) - 1 = st \<and> ucast (target_type k) - 1 = tt)"
    and tr: "triple (key n) = (ucast (st + 1), ucast (tt + 1), target_class k)"
    using cov by (auto simp: pair_covers_def)
  show "in_scope A B cls (key n)" using st sub tr ij(5) by (auto simp: in_scope_def)
  have b': "unat st < 65535" "unat tt < 65535" using st sub cl by (auto simp: closed_types_def)
  show "triple (key n) \<noteq> triple k" if nc
  proof
    assume "triple (key n) = triple k"
    then have "ucast (st + 1) = source_type k" "ucast (tt + 1) = target_type k"
      using tr by (auto simp: triple_def)
    then have "ucast (source_type k) - 1 = st" "ucast (target_type k) - 1 = tt"
      using ucast_succ(1)[OF b'(1)] ucast_succ(1)[OF b'(2)] by simp_all
    then show False using ne that by simp
  qed
qed

text \<open>The search in the table of unconditional rules.\<close>

lemma is_avrule_redundant_grants:
  assumes r: "is_avrule_redundant c h tm nc = Inr (red, d)" and wf: "wf_avtab h"
    and ok: "\<forall>n \<in> set (av_nodes h). single_kind n" "single_kind c"
    and cl: "closed_types tm A" "closed_types tm B" and sc: "in_scope A B cls (key c)"
  shows "taken_out (node_kind c) (datum c) red d
    {n \<in> set (av_nodes h). in_scope A B cls (key n) \<and> (nc \<longrightarrow> triple (key n) \<noteq> triple (key c))}"
proof -
  have x: "xperms_full (datum c)" using ok(2) by (simp add: single_kind_def)
  show ?thesis
  proof (cases "red = False \<and> d = datum c")
    case True
    then show ?thesis using x by (simp add: taken_out_none)
  next
    case False
    then obtain sv tv where v: "arr tm (type_index (source_type (key c))) = Some sv"
        "arr tm (type_index (target_type (key c))) = Some tv"
      and l: "redundant_loop h (key c) nc (List.product (tv_types sv) (tv_types tv)) (datum c) = Inr (red, d)"
      using r by (auto simp: is_avrule_redundant_def split: if_splits option.splits)
    obtain b where b: "b < 15" "rule_kind (specified (key c)) = 2 ^ b"
      using ok(2) by (auto simp: single_kind_def node_kind_def)
    have t: "taken_out (node_kind c) (datum c) red d
        {n \<in> set (av_nodes h). pair_covers (key c) nc (List.product (tv_types sv) (tv_types tv)) n}"
      unfolding node_kind_def by (rule redundant_loop_grants[OF wf ok(1) b(2,1) l x])
    show ?thesis
      by (rule taken_out_mono[OF t]) (use covering_in_scope[OF _ v cl sc] in blast)
  qed
qed

lemma is_avrule_redundant_full:
  assumes r: "is_avrule_redundant c h tm nc = Inr (red, d)" and wf: "wf_avtab h"
    and ok: "\<forall>n \<in> set (av_nodes h). single_kind n" "single_kind c"
  shows "xperms_full d"
proof -
  have x: "xperms_full (datum c)" using ok(2) by (simp add: single_kind_def)
  obtain b where b: "b < 15" "rule_kind (specified (key c)) = 2 ^ b"
    using ok(2) by (auto simp: single_kind_def node_kind_def)
  show ?thesis
    using r x redundant_loop_grants[OF wf ok(1) b(2,1)]
    by (auto simp: is_avrule_redundant_def taken_out_def split: if_splits option.splits)
qed

section \<open>The unconditional table\<close>

definition other_slots :: "avtab_node list list \<Rightarrow> nat \<Rightarrow> avtab_node set" where
  "other_slots t i = (\<Union>j \<in> {j. j < length t \<and> j \<noteq> i}. set (t ! j))"

lemma set_concat_slots: "i < length t \<Longrightarrow> set (concat t) = set (t ! i) \<union> other_slots t i"
  by (auto simp: other_slots_def set_conv_nth[of t])

lemma other_slots_update [simp]: "other_slots (t[i := c]) i = other_slots t i"
  by (auto simp: other_slots_def)

lemma length_concat_update:
  "i < length t \<Longrightarrow> length (concat (t[i := c])) + length (t ! i) = length (concat t) + length c"
proof (induction t arbitrary: i)
  case (Cons a t)
  then show ?case by (cases i) auto
qed simp

lemma set_chain_wf:
  assumes wf: "wf_avtab h" and t: "avtable h = Some t" "i < length t"
    and c: "chain_sorted c" "\<forall>n \<in> set c. unat (avtab_hash (key n) (avmask h)) = i"
    and cnt: "cnt = of_nat (length (concat (t[i := c])))"
  shows "wf_avtab ((set_chain h i c)\<lparr>avnel := cnt\<rparr>)"
    and "set (av_nodes ((set_chain h i c)\<lparr>avnel := cnt\<rparr>)) = set c \<union> other_slots t i"
proof -
  have "av_slots_ok (avmask h) (t[i := c])"
    using wf_avtab_slots[OF wf t(1)] c t(2) by (auto simp: av_slots_ok_def nth_list_update)
  moreover have "length t = unat (nslot h)" "\<exists>k \<le> 20. nslot h = 2 ^ k" "avmask h = nslot h - 1"
    using wf t(1) by (auto simp: wf_avtab_def)
  ultimately show "wf_avtab ((set_chain h i c)\<lparr>avnel := cnt\<rparr>)"
    using cnt by (simp add: wf_avtab_def set_chain_def t(1))
  show "set (av_nodes ((set_chain h i c)\<lparr>avnel := cnt\<rparr>)) = set c \<union> other_slots t i"
    using set_concat_slots[of i "t[i := c]"] t(2) by (simp add: av_nodes_def set_chain_def t(1))
qed

text \<open>What the optimiser keeps of a table.\<close>

definition table_kept :: "type_vec list \<Rightarrow> avtab \<Rightarrow> avtab \<Rightarrow> bool" where
  "table_kept tm h h' \<longleftrightarrow> wf_avtab h' \<and> (\<forall>n \<in> set (av_nodes h'). single_kind n) \<and>
     nslot h' = nslot h \<and> key ` set (av_nodes h') \<subseteq> key ` set (av_nodes h) \<and>
     (\<forall>A B cls. closed_types tm A \<longrightarrow> closed_types tm B \<longrightarrow>
        scope_grants A B cls (set (av_nodes h')) = scope_grants A B cls (set (av_nodes h)))"

lemma table_kept_trans: "table_kept tm h h1 \<Longrightarrow> table_kept tm h1 h2 \<Longrightarrow> table_kept tm h h2"
  unfolding table_kept_def by (metis (no_types, lifting) order_trans)

text \<open>One step replaces the rule \<open>c\<close> by \<open>c'\<close> or by nothing.\<close>

lemma scope_grants_step:
  assumes t: "in_scope A B cls (key c) \<Longrightarrow> taken_out (node_kind c) (datum c) red d
      {n \<in> R. in_scope A B cls (key n)}"
  shows "scope_grants A B cls (if red then R else insert (c\<lparr>datum := d\<rparr>) R) =
    scope_grants A B cls (insert c R)"
proof (cases "in_scope A B cls (key c)")
  case True
  have "grants (c\<lparr>datum := d\<rparr>) = datum_grants (node_kind c) d"
    by (simp add: grants_def node_kind_def)
  then have "grants (c\<lparr>datum := d\<rparr>) \<subseteq> grants c"
    "grants c \<subseteq> (if red then {} else grants (c\<lparr>datum := d\<rparr>)) \<union> scope_grants A B cls R"
    using t[OF True] by (auto simp: taken_out_def grants_def[of c] scope_grants_def)
  then show ?thesis using True by (auto simp: scope_grants_insert split: if_splits)
next
  case False
  then show ?thesis by (auto simp: scope_grants_insert)
qed

lemma optimize_chain_kept:
  "optimize_chain tm i pre rest h = Inr h' \<Longrightarrow> wf_avtab h \<Longrightarrow> avtable h = Some t \<Longrightarrow> i < length t \<Longrightarrow>
     t ! i = pre @ rest \<Longrightarrow> \<forall>n \<in> set (av_nodes h). single_kind n \<Longrightarrow> table_kept tm h h'"
proof (induction rest arbitrary: pre h t)
  case Nil
  then show ?case by (simp add: table_kept_def)
next
  case (Cons c rest)
  obtain red d where rd: "is_avrule_redundant c h tm True = Inr (red, d)"
    using Cons.prems(1) by (auto simp: rbind_eq_Inr)
  define c' where "c' = c\<lparr>datum := d\<rparr>"
  define new where "new = (if red then pre @ rest else pre @ c' # rest)"
  define h1 where "h1 = (set_chain h i new)\<lparr>avnel := if red then avnel h - 1 else avnel h\<rparr>"
  have nodes: "set (av_nodes h) = insert c (set pre \<union> set rest \<union> other_slots t i)"
    using set_concat_slots[OF Cons.prems(4)] Cons.prems(3,5) by (auto simp: av_nodes_def)
  have so: "chain_sorted (pre @ c # rest)" "\<forall>n \<in> set (pre @ c # rest). unat (avtab_hash (key n) (avmask h)) = i"
    using wf_avtab_slots[OF Cons.prems(2,3)] Cons.prems(4,5) by (auto simp: av_slots_ok_def)
  have new: "chain_sorted new" "\<forall>n \<in> set new. unat (avtab_hash (key n) (avmask h)) = i"
    using so by (auto simp: new_def c'_def chain_sorted_def sorted_wrt_append)
  have cnt: "avnel h = of_nat (length (concat t))" using Cons.prems(2,3) by (simp add: wf_avtab_def)
  have len: "length (concat (t[i := new])) + Suc (length pre + length rest) = length (concat t) + length new"
    using length_concat_update[OF Cons.prems(4), of new] Cons.prems(5) by simp
  have cnt1: "(if red then avnel h - 1 else avnel h) = of_nat (length (concat (t[i := new])))"
  proof (cases red)
    case True
    then have "length (concat t) = Suc (length (concat (t[i := new])))" using len by (simp add: new_def)
    then show ?thesis using True by (simp add: cnt)
  qed (use len in \<open>simp add: new_def cnt\<close>)
  note w = set_chain_wf[OF Cons.prems(2-4) new cnt1, folded h1_def]
  have R: "set (av_nodes h1) = (if red then set pre \<union> set rest \<union> other_slots t i
      else insert c' (set pre \<union> set rest \<union> other_slots t i))"
    unfolding w(2) by (auto simp: new_def)
  have okc: "single_kind c" using Cons.prems(6) nodes by auto
  have x: "xperms_full d" by (rule is_avrule_redundant_full[OF rd Cons.prems(2,6) okc])
  have ok1: "\<forall>n \<in> set (av_nodes h1). single_kind n"
    unfolding R using Cons.prems(6) nodes x okc by (auto simp: c'_def single_kind_def node_kind_def)
  have "scope_grants A B cls (set (av_nodes h1)) = scope_grants A B cls (set (av_nodes h))"
    if cl: "closed_types tm A" "closed_types tm B" for A B cls
    unfolding R nodes c'_def
    by (rule scope_grants_step)
      (rule taken_out_mono[OF is_avrule_redundant_grants[OF rd Cons.prems(2,6) okc cl]], auto simp: nodes)
  moreover have "key ` set (av_nodes h1) \<subseteq> key ` set (av_nodes h)" unfolding R nodes by (auto simp: c'_def)
  moreover have "nslot h1 = nslot h" by (simp add: h1_def set_chain_def)
  ultimately have kept: "table_kept tm h h1" using w(1) ok1 by (simp add: table_kept_def)
  have t1: "avtable h1 = Some (t[i := new])" "i < length (t[i := new])"
    using Cons.prems(3,4) by (simp_all add: h1_def set_chain_def)
  have "optimize_chain tm i (if red then pre else pre @ [c']) rest h1 = Inr h'"
    using Cons.prems(1) rd by (auto simp: h1_def new_def c'_def set_chain_def Let_def split: if_splits)
  moreover have "t[i := new] ! i = (if red then pre else pre @ [c']) @ rest"
    using Cons.prems(4) by (simp add: new_def)
  ultimately have "table_kept tm h1 h'" using Cons.IH[OF _ w(1) t1 _ ok1] by blast
  then show ?case using table_kept_trans[OF kept] by blast
qed

lemma optimize_slots_kept:
  "optimize_slots tm is h = Inr h' \<Longrightarrow> wf_avtab h \<Longrightarrow> \<forall>n \<in> set (av_nodes h). single_kind n \<Longrightarrow>
     table_kept tm h h'"
proof (induction "is" arbitrary: h)
  case (Cons i "is")
  obtain t h1 where t: "avtable h = Some t" "i < length t" "optimize_chain tm i [] (t ! i) h = Inr h1"
    and r: "optimize_slots tm is h1 = Inr h'"
    using Cons.prems(1) by (auto simp: rbind_eq_Inr arr_eq_Some split: option.splits)
  have k: "table_kept tm h h1" by (rule optimize_chain_kept[OF t(3) Cons.prems(2) t(1,2) _ Cons.prems(3)]) simp
  then show ?case using Cons.IH[OF r] table_kept_trans[OF k] by (simp add: table_kept_def)
qed (simp add: table_kept_def)

lemma optimize_avtab_kept:
  "optimize_avtab tm h = Inr h' \<Longrightarrow> wf_avtab h \<Longrightarrow> \<forall>n \<in> set (av_nodes h). single_kind n \<Longrightarrow>
     table_kept tm h h'"
  unfolding optimize_avtab_def by (rule optimize_slots_kept)

section \<open>The conditional rules\<close>

lemma vec_search_sound: "vec_search xs t s e \<Longrightarrow> e \<le> length xs \<Longrightarrow> t \<in> set xs"
proof (induction xs t s e rule: vec_search.induct)
  case (1 xs t s e)
  let ?mid = "(s + e) div 2"
  have se: "\<not> e \<le> s" using "1.prems"(1) by (subst (asm) vec_search.simps) (simp split: if_splits)
  then have m: "?mid < length xs" using "1.prems"(2) by linarith
  show ?case
  proof (cases "xs ! ?mid = t")
    case True
    then show ?thesis using m nth_mem by metis
  next
    case False
    show ?thesis
    proof (cases "xs ! ?mid < t")
      case True
      then have "vec_search xs t (?mid + 1) e"
        using "1.prems"(1) False se by (subst (asm) vec_search.simps) (simp add: Let_def)
      then show ?thesis using "1.IH"(1)[OF se refl False True] "1.prems"(2) by blast
    next
      case nl: False
      then have "vec_search xs t s ?mid"
        using "1.prems"(1) False se by (subst (asm) vec_search.simps) (simp add: Let_def)
      then show ?thesis using "1.IH"(2)[OF se refl False nl] m by simp
    qed
  qed
qed

lemma type_vec_contains_sound: "type_vec_contains v t \<Longrightarrow> t \<in> set (tv_types v)"
  unfolding type_vec_contains_def using vec_search_sound by blast

definition cond_covers :: "type_vec list \<Rightarrow> avtab_key \<Rightarrow> avtab_node \<Rightarrow> bool" where
  "cond_covers tm k n \<longleftrightarrow> node_kind n = rule_kind (specified k) \<and> triple (key n) \<noteq> triple k \<and>
     target_class (key n) = target_class k \<and>
     (\<exists>sv. arr tm (type_index (source_type k)) = Some sv \<and> ucast (source_type (key n)) - 1 \<in> set (tv_types sv)) \<and>
     (\<exists>tv. arr tm (type_index (target_type k)) = Some tv \<and> ucast (target_type (key n)) - 1 \<in> set (tv_types tv))"

lemma node_at_eq_Inr:
  assumes "node_at h a = Inr n"
  shows "n \<in> set (av_nodes h)" "addr n = a"
  using assms by (auto simp: node_at_def find_Some_iff in_set_conv_nth split: option.splits)

lemma ucast_u16_u32: "ucast (ucast (w :: u16) :: u32) = w"
  by (rule bit_word_eqI) (simp add: bit_ucast_iff)

lemma cond_covers_scope:
  assumes c: "cond_covers tm k n" and cl: "closed_types tm A" "closed_types tm B"
    and sc: "in_scope A B cls k"
  shows "in_scope A B cls (key n)"
proof -
  obtain i j where ij: "i \<in> A" "j \<in> B" "source_type k = ucast (i + 1)" "target_type k = ucast (j + 1)"
    "target_class k = cls"
    using sc by (auto simp: in_scope_def triple_def)
  have "unat i < 65535" "unat j < 65535" using ij cl by (auto simp: closed_types_def)
  then obtain sv tv where v: "arr tm (unat i) = Some sv" "ucast (source_type (key n)) - 1 \<in> set (tv_types sv)"
      "arr tm (unat j) = Some tv" "ucast (target_type (key n)) - 1 \<in> set (tv_types tv)"
    using c unfolding cond_covers_def ij(3,4) by (auto simp: ucast_succ)
  have "set (tv_types sv) \<subseteq> A" "set (tv_types tv) \<subseteq> B"
    using cl ij(1,2) v(1,3) unfolding closed_types_def by blast+
  then have "ucast (source_type (key n)) - 1 \<in> A" "ucast (target_type (key n)) - 1 \<in> B"
    using v by blast+
  moreover have "triple (key n) = (ucast ((ucast (source_type (key n)) - 1 :: u32) + 1),
      ucast ((ucast (target_type (key n)) - 1 :: u32) + 1), cls)"
    using c ij(5) by (simp add: triple_def cond_covers_def ucast_u16_u32)
  ultimately show ?thesis unfolding in_scope_def by blast
qed

lemma cond_redundant_loop_grants:
  assumes ok: "\<forall>n \<in> set (av_nodes ct). single_kind n"
  shows "cond_redundant_loop ct tm k l d1 = Inr (red, d) \<Longrightarrow> xperms_full d1 \<Longrightarrow>
    taken_out (rule_kind (specified k)) d1 red d
      {n \<in> set (av_nodes ct). addr n \<in> set l \<and> cond_covers tm k n}"
proof (induction l arbitrary: d1)
  case (Cons a l)
  let ?N = "\<lambda>l. {n \<in> set (av_nodes ct). addr n \<in> set l \<and> cond_covers tm k n}"
  have mono: "?N l \<subseteq> ?N (a # l)" by auto
  obtain n where n: "node_at ct a = Inr n" using Cons.prems(1) by (auto simp: rbind_eq_Inr)
  note na = node_at_eq_Inr[OF n]
  show ?case
  proof (cases "cond_redundant_loop ct tm k l d1 = Inr (red, d)")
    case True
    then show ?thesis using Cons.IH Cons.prems(2) taken_out_mono[OF _ mono] by blast
  next
    case False
    then obtain sv tv r d' where *: "specified k = specified (key n)" "target_class k = target_class (key n)"
      "\<not> (source_type k = source_type (key n) \<and> target_type k = target_type (key n))"
      "arr tm (type_index (source_type k)) = Some sv" "type_vec_contains sv (ucast (source_type (key n)) - 1)"
      "arr tm (type_index (target_type k)) = Some tv" "type_vec_contains tv (ucast (target_type (key n)) - 1)"
      and pr: "process_avtab_datum (specified k) d1 (datum n) = Inr (r, d')"
      and rest: "(if r then Inr (True, d') else cond_redundant_loop ct tm k l d') = Inr (red, d)"
      using Cons.prems(1) by (auto simp: n Let_def rbind_eq_Inr split: if_splits option.splits)
    have mem: "n \<in> ?N (a # l)"
      using na * by (auto simp: cond_covers_def triple_def node_kind_def dest: type_vec_contains_sound)
    have t: "taken_out (rule_kind (specified k)) d1 r d' (?N (a # l))"
      using taken_out_process[OF pr Cons.prems(2) _ _ mem] na(1) ok *(1) by (simp add: node_kind_def)
    show ?thesis
    proof (cases r)
      case True
      then show ?thesis using t rest by simp
    next
      case False
      then have "taken_out (rule_kind (specified k)) d' red d (?N l)"
        using Cons.IH rest t by (simp add: taken_out_def)
      then show ?thesis using taken_out_trans[OF _ taken_out_mono[OF _ mono]] t False by simp
    qed
  qed
qed (simp add: taken_out_none)

text \<open>Both tests on one rule.\<close>

lemma cond_rule_covered_grants:
  assumes r: "cond_rule_covered tm te ct covering a = Inr (red, ct')"
    and wf: "wf_avtab te" and ok: "\<forall>n \<in> set (av_nodes te). single_kind n" "\<forall>n \<in> set (av_nodes ct). single_kind n"
  obtains c d where "c \<in> set (av_nodes ct)" "addr c = a" "ct' = set_datum a d ct" "xperms_full d"
    "\<And>A B cls. closed_types tm A \<Longrightarrow> closed_types tm B \<Longrightarrow> in_scope A B cls (key c) \<Longrightarrow>
      taken_out (node_kind c) (datum c) red d ({n \<in> set (av_nodes te). in_scope A B cls (key n)} \<union>
        {n \<in> set (av_nodes ct). addr n \<in> set covering \<and> in_scope A B cls (key n) \<and>
          triple (key n) \<noteq> triple (key c)})"
proof -
  obtain c where c: "node_at ct a = Inr c" using r by (auto simp: cond_rule_covered_def rbind_eq_Inr)
  note na = node_at_eq_Inr[OF c]
  have okc: "single_kind c" using ok(2) na(1) by blast
  obtain r1 d1 where d1: "is_avrule_redundant c te tm False = Inr (r1, d1)"
    using r by (auto simp: cond_rule_covered_def rbind_eq_Inr c)
  have x1: "xperms_full d1" by (rule is_avrule_redundant_full[OF d1 wf ok(1) okc])
  have g1: "taken_out (node_kind c) (datum c) r1 d1 {n \<in> set (av_nodes te). in_scope A B cls (key n)}"
    if "closed_types tm A" "closed_types tm B" "in_scope A B cls (key c)" for A B cls
    using is_avrule_redundant_grants[OF d1 wf ok(1) okc that] by (simp add: taken_out_def)
  show ?thesis
  proof (cases r1)
    case True
    then have rd: "red" "ct' = set_datum a d1 ct" using r by (auto simp: cond_rule_covered_def c d1)
    show ?thesis
      by (rule that[OF na rd(2) x1], rule taken_out_mono) (use g1 True rd(1) in auto)
  next
    case False
    then have g1: "taken_out (node_kind c) (datum c) False d1 {n \<in> set (av_nodes te). in_scope A B cls (key n)}"
      if "closed_types tm A" "closed_types tm B" "in_scope A B cls (key c)" for A B cls
      using g1[OF that] by simp
    obtain d where d: "is_cond_rule_redundant ct tm (c\<lparr>datum := d1\<rparr>) covering = Inr (red, d)"
      and ct': "ct' = set_datum a d ct"
      using r False by (auto simp: cond_rule_covered_def c d1 rbind_eq_Inr)
    have g2: "taken_out (node_kind c) d1 red d
        {n \<in> set (av_nodes ct). addr n \<in> set covering \<and> cond_covers tm (key c) n}"
      using d cond_redundant_loop_grants[OF ok(2), of tm "key c" covering d1 red d] x1
      by (auto simp: is_cond_rule_redundant_def node_kind_def taken_out_none split: if_splits)
    show ?thesis
    proof (rule that[OF na ct'])
      show "xperms_full d" using g2 by (simp add: taken_out_def)
      fix A B cls assume cl: "closed_types tm A" "closed_types tm B" "in_scope A B cls (key c)"
      show "taken_out (node_kind c) (datum c) red d ({n \<in> set (av_nodes te). in_scope A B cls (key n)} \<union>
        {n \<in> set (av_nodes ct). addr n \<in> set covering \<and> in_scope A B cls (key n) \<and>
          triple (key n) \<noteq> triple (key c)})"
        by (rule taken_out_trans[OF taken_out_mono[OF g1[OF cl]]
              taken_out_mono[OF g2]])
          (use cond_covers_scope[OF _ cl] in \<open>auto simp: cond_covers_def\<close>)
    qed
  qed
qed

text \<open>
  The rules in force when exactly the rules with an address in \<open>on\<close> are switched on and those in
  \<open>gone\<close> are already on the list of deleted rules.
\<close>

definition in_force :: "nat set \<Rightarrow> avtab \<Rightarrow> avtab \<Rightarrow> nat set \<Rightarrow> avtab_node set" where
  "in_force on te ct gone =
     set (av_nodes te) \<union> {n \<in> set (av_nodes ct). addr n \<notin> gone \<and> addr n \<in> on}"

definition cond_kept ::
  "type_vec list \<Rightarrow> nat set \<Rightarrow> avtab \<Rightarrow> avtab \<Rightarrow> nat set \<Rightarrow> avtab \<Rightarrow> nat set \<Rightarrow> bool" where
  "cond_kept tm on te ct gone ct' gone' \<longleftrightarrow>
     wf_avtab ct' \<and> (\<forall>n \<in> set (av_nodes ct'). single_kind n) \<and> nslot ct' = nslot ct \<and>
     map (\<lambda>n. (key n, addr n)) (av_nodes ct') = map (\<lambda>n. (key n, addr n)) (av_nodes ct) \<and>
     (\<forall>A B cls. closed_types tm A \<longrightarrow> closed_types tm B \<longrightarrow>
        scope_grants A B cls (in_force on te ct' gone') = scope_grants A B cls (in_force on te ct gone))"

lemma cond_kept_trans:
  "cond_kept tm on te ct g ct1 g1 \<Longrightarrow> cond_kept tm on te ct1 g1 ct2 g2 \<Longrightarrow> cond_kept tm on te ct g ct2 g2"
  unfolding cond_kept_def by (metis (no_types, lifting))

lemma av_nodes_set_datum:
  "av_nodes (set_datum a d h) = map (\<lambda>n. if addr n = a then n\<lparr>datum := d\<rparr> else n) (av_nodes h)"
  by (simp add: set_datum_def av_nodes_map)

lemma cond_rule_covered_kept:
  assumes r: "cond_rule_covered tm te ct covering a = Inr (red, ct')"
    and wf: "wf_avtab te" "wf_avtab ct"
    and ok: "\<forall>n \<in> set (av_nodes te). single_kind n" "\<forall>n \<in> set (av_nodes ct). single_kind n"
    and dist: "distinct (map addr (av_nodes ct))"
    and gone: "a \<notin> gone" "set covering \<inter> gone = {}" and on: "\<forall>b \<in> set covering. b \<in> on \<longleftrightarrow> a \<in> on"
  shows "cond_kept tm on te ct gone ct' (if red then insert a gone else gone)"
proof -
  obtain c d where c: "c \<in> set (av_nodes ct)" "addr c = a" "ct' = set_datum a d ct" "xperms_full d"
    and t: "\<And>A B cls. closed_types tm A \<Longrightarrow> closed_types tm B \<Longrightarrow> in_scope A B cls (key c) \<Longrightarrow>
      taken_out (node_kind c) (datum c) red d ({n \<in> set (av_nodes te). in_scope A B cls (key n)} \<union>
        {n \<in> set (av_nodes ct). addr n \<in> set covering \<and> in_scope A B cls (key n) \<and>
          triple (key n) \<noteq> triple (key c)})"
    by (rule cond_rule_covered_grants[OF r wf(1) ok]) (rule that)
  define R where "R = {n \<in> set (av_nodes ct). addr n \<noteq> a}"
  let ?c' = "c\<lparr>datum := d\<rparr>"
  have inj: "inj_on addr (set (av_nodes ct))" using dist by (simp only: distinct_map)
  have only: "n = c" if "n \<in> set (av_nodes ct)" "addr n = a" for n
    by (rule inj_onD[OF inj _ that(1) c(1)]) (simp only: that(2) c(2))
  have nodes: "set (av_nodes ct) = insert c R" unfolding R_def using c(1) only by blast
  have nodes': "set (av_nodes ct') = insert ?c' R"
  proof -
    have "set (av_nodes ct') = (\<lambda>n. if addr n = a then n\<lparr>datum := d\<rparr> else n) ` insert c R"
      unfolding c(3) av_nodes_set_datum set_map nodes[symmetric] ..
    also have "\<dots> = insert ?c' R" using c(2) by (auto simp: image_iff R_def)
    finally show ?thesis .
  qed
  let ?base = "set (av_nodes te) \<union> {n \<in> R. addr n \<notin> gone \<and> addr n \<in> on}"
  have f: "in_force on te ct gone = (if a \<in> on then insert c ?base else ?base)"
    unfolding in_force_def nodes using gone(1) c(2) by (auto simp: R_def)
  have f': "in_force on te ct' (if red then insert a gone else gone) =
      (if a \<in> on then (if red then ?base else insert ?c' ?base) else ?base)"
    unfolding in_force_def nodes' using gone(1) c(2) by (auto simp: R_def)
  have "scope_grants A B cls (in_force on te ct' (if red then insert a gone else gone)) =
      scope_grants A B cls (in_force on te ct gone)"
    if cl: "closed_types tm A" "closed_types tm B" for A B cls
  proof (cases "a \<in> on")
    case True
    have "scope_grants A B cls (if red then ?base else insert ?c' ?base) = scope_grants A B cls (insert c ?base)"
      by (rule scope_grants_step, rule taken_out_mono[OF t[OF cl]])
        (use gone(2) on True c(2) nodes in \<open>auto simp: R_def\<close>)
    then show ?thesis using True f f' by simp
  qed (simp add: f f')
  moreover have "wf_avtab ct'"
    unfolding c(3) set_datum_def by (rule wf_avtab_map_nodes[OF wf(2)]) auto
  moreover have "\<forall>n \<in> set (av_nodes ct'). single_kind n"
    unfolding nodes' using ok(2) c(1,4) by (auto simp: single_kind_def node_kind_def R_def)
  ultimately show ?thesis
    unfolding cond_kept_def c(3) av_nodes_set_datum by (simp add: set_datum_def map_nodes_def)
qed

text \<open>The rules of one list are switched together.\<close>

definition uniform :: "nat set \<Rightarrow> nat set \<Rightarrow> bool" where
  "uniform on X \<longleftrightarrow> (\<forall>a \<in> X. \<forall>b \<in> X. a \<in> on \<longleftrightarrow> b \<in> on)"

lemma uniform_subset: "uniform on X \<Longrightarrow> Y \<subseteq> X \<Longrightarrow> uniform on Y"
  by (auto simp: uniform_def)


definition rules_ok :: "avtab \<Rightarrow> bool" where
  "rules_ok h \<longleftrightarrow> wf_avtab h \<and> (\<forall>n \<in> set (av_nodes h). single_kind n)"

definition cond_rules_ok :: "avtab \<Rightarrow> bool" where
  "cond_rules_ok ct \<longleftrightarrow> rules_ok ct \<and> distinct (map addr (av_nodes ct))"

lemma cond_kept_refl: "cond_rules_ok ct \<Longrightarrow> cond_kept tm on te ct gone ct gone"
  by (simp add: cond_kept_def cond_rules_ok_def rules_ok_def)

lemma cond_kept_ok: "cond_kept tm on te ct g ct' g' \<Longrightarrow> cond_rules_ok ct \<Longrightarrow> cond_rules_ok ct'"
proof -
  assume k: "cond_kept tm on te ct g ct' g'" and ok: "cond_rules_ok ct"
  have "map snd (map (\<lambda>n. (key n, addr n)) (av_nodes ct')) = map snd (map (\<lambda>n. (key n, addr n)) (av_nodes ct))"
    using k by (simp only: cond_kept_def)
  then have "map addr (av_nodes ct') = map addr (av_nodes ct)" by (simp add: comp_def)
  then show "cond_rules_ok ct'" using k ok by (simp add: cond_kept_def cond_rules_ok_def rules_ok_def)
qed

lemma scan_covered_kept:
  assumes te: "rules_ok te"
    and cov: "\<And>k r. set (covering k r) \<subseteq> P \<union> set k \<union> set r"
  shows "scan_covered covering tm te kept l del ct = Inr (kept', del', ct') \<Longrightarrow> cond_rules_ok ct \<Longrightarrow>
    distinct (kept @ l @ del) \<Longrightarrow> P \<inter> (set l \<union> set del) = {} \<Longrightarrow> uniform on (P \<union> set kept \<union> set l) \<Longrightarrow>
    cond_kept tm on te ct (set del) ct' (set del') \<and> mset (kept' @ del') = mset (kept @ l @ del)"
proof (induction l arbitrary: kept del ct)
  case Nil
  then show ?case by (auto simp: cond_kept_refl)
next
  case (Cons a l)
  obtain red ct1 where r: "cond_rule_covered tm te ct (covering kept (a # l)) a = Inr (red, ct1)"
    using Cons.prems(1) by (auto simp: rbind_eq_Inr)
  have c: "set (covering kept (a # l)) \<subseteq> P \<union> set kept \<union> set (a # l)" by (rule cov)
  have gone: "a \<notin> set del" "set (covering kept (a # l)) \<inter> set del = {}"
    using c Cons.prems(3,4) by auto
  have un: "\<forall>b \<in> set (covering kept (a # l)). b \<in> on \<longleftrightarrow> a \<in> on"
    using c Cons.prems(5) by (auto simp: uniform_def)
  have k: "cond_kept tm on te ct (set del) ct1 (if red then insert a (set del) else set del)"
    using cond_rule_covered_kept[OF r _ _ _ _ _ gone un] te Cons.prems(2)
    by (simp add: rules_ok_def cond_rules_ok_def)
  note ok1 = cond_kept_ok[OF k Cons.prems(2)]
  show ?case
  proof (cases red)
    case True
    have "cond_kept tm on te ct1 (set (a # del)) ct' (set del') \<and> mset (kept' @ del') = mset (kept @ l @ a # del)"
      by (rule Cons.IH[OF _ ok1])
        (use Cons.prems r True in \<open>auto elim!: uniform_subset\<close>)
    then show ?thesis using k True cond_kept_trans by auto
  next
    case False
    have "cond_kept tm on te ct1 (set del) ct' (set del') \<and> mset (kept' @ del') = mset ((kept @ [a]) @ l @ del)"
      by (rule Cons.IH[OF _ ok1])
        (use Cons.prems r False in \<open>auto elim!: uniform_subset\<close>)
    then show ?thesis using k False cond_kept_trans by auto
  qed
qed

lemma separate_covering_mset:
  "separate_covering p ct l plain pcov = Inr (plain', pcov') \<Longrightarrow>
     mset (plain' @ pcov') = mset (l @ plain @ pcov)"
  by (induction l arbitrary: plain pcov) (fastforce simp: rbind_eq_Inr split: if_splits)+

lemma optimize_cond_av_list_kept:
  assumes r: "optimize_cond_av_list p tm l del ct = Inr (l', del', ct')"
    and te: "rules_ok (te_avtab p)" and ct: "cond_rules_ok ct"
    and d: "distinct (l @ del)" and u: "uniform on (set l)"
  shows "cond_kept tm on (te_avtab p) ct (set del) ct' (set del') \<and> mset (l' @ del') = mset (l @ del)"
proof -
  obtain plain pcov k1 d1 ct1 k2 where
    s: "separate_covering p ct l [] [] = Inr (plain, pcov)"
    and s1: "scan_covered (\<lambda>_ _. pcov) tm (te_avtab p) [] plain del ct = Inr (k1, d1, ct1)"
    and s2: "scan_covered (\<lambda>kept rest. kept @ rest) tm (te_avtab p) [] pcov d1 ct1 = Inr (k2, del', ct')"
    and l': "l' = k1 @ k2"
    using r by (auto simp: optimize_cond_av_list_def rbind_eq_Inr)
  have m: "mset (plain @ pcov) = mset l" using separate_covering_mset[OF s] by simp
  then have ml: "mset (plain @ pcov @ del) = mset (l @ del)" by (simp add: add.assoc[symmetric])
  then have dd: "distinct (plain @ pcov @ del)" using d by (metis mset_eq_imp_distinct_iff)
  have sl: "set plain \<union> set pcov = set l" using m by (metis mset_eq_setD set_append)
  have a: "cond_kept tm on (te_avtab p) ct (set del) ct1 (set d1) \<and> mset (k1 @ d1) = mset ([] @ plain @ del)"
    by (rule scan_covered_kept[where P = "set pcov", OF te _ s1 ct]) (use dd u sl in \<open>auto simp: Un_commute\<close>)
  have ok1: "cond_rules_ok ct1" using cond_kept_ok a ct by blast
  have m1: "mset (k1 @ d1 @ pcov) = mset (plain @ pcov @ del)" using a by simp
  then have d1: "distinct (k1 @ d1 @ pcov)" using dd by (metis mset_eq_imp_distinct_iff)
  have b: "cond_kept tm on (te_avtab p) ct1 (set d1) ct' (set del') \<and> mset (k2 @ del') = mset ([] @ pcov @ d1)"
    by (rule scan_covered_kept[where P = "{}", OF te _ s2 ok1])
      (use d1 u sl in \<open>auto elim: uniform_subset\<close>)
  have "mset (l' @ del') = mset (k1 @ d1 @ pcov)" using b by (simp add: l' add.commute[of "mset d1"])
  also have "\<dots> = mset (l @ del)" unfolding m1 ml ..
  finally have "mset (l' @ del') = mset (l @ del)" .
  then show ?thesis using a b cond_kept_trans by blast
qed

definition rule_lists :: "cond_node list \<Rightarrow> nat list" where
  "rule_lists cs = concat (map (\<lambda>c. true_list c @ false_list c) cs)"

definition switched_together :: "nat set \<Rightarrow> cond_node list \<Rightarrow> bool" where
  "switched_together on cs \<longleftrightarrow>
     (\<forall>c \<in> set cs. uniform on (set (true_list c)) \<and> uniform on (set (false_list c)))"

lemma optimize_cond_list_kept:
  "optimize_cond_list p tm cs del ct = Inr (cs', del', ct') \<Longrightarrow> rules_ok (te_avtab p) \<Longrightarrow>
     cond_rules_ok ct \<Longrightarrow> distinct (rule_lists cs @ del) \<Longrightarrow> switched_together on cs \<Longrightarrow>
     cond_kept tm on (te_avtab p) ct (set del) ct' (set del') \<and>
     mset (rule_lists cs' @ del') = mset (rule_lists cs @ del)"
proof (induction cs arbitrary: del ct cs')
  case Nil
  then show ?case by (auto simp: cond_kept_refl)
next
  case (Cons c cs)
  obtain tl d1 ct1 fl d2 ct2 cs1 where
    t: "optimize_cond_av_list p tm (true_list c) del ct = Inr (tl, d1, ct1)"
    and f: "optimize_cond_av_list p tm (false_list c) d1 ct1 = Inr (fl, d2, ct2)"
    and r: "optimize_cond_list p tm cs d2 ct2 = Inr (cs1, del', ct')"
    and cs': "cs' = (if tl = [] \<and> fl = [] then cs1 else c\<lparr>true_list := tl, false_list := fl\<rparr> # cs1)"
    using Cons.prems(1) by (fastforce simp: rbind_eq_Inr)
  have u: "uniform on (set (true_list c))" "uniform on (set (false_list c))" "switched_together on cs"
    using Cons.prems(5) by (auto simp: switched_together_def)
  have d: "distinct (true_list c @ del)" "distinct (true_list c @ false_list c @ rule_lists cs @ del)"
    using Cons.prems(4) by (auto simp: rule_lists_def)
  note a = optimize_cond_av_list_kept[OF t Cons.prems(2,3) d(1) u(1)]
  have m1: "mset (tl @ d1) = mset (true_list c @ del)" using a by blast
  have e1: "mset (tl @ false_list c @ rule_lists cs @ d1) = mset (true_list c @ false_list c @ rule_lists cs @ del)"
    using m1 by simp
  then have d1: "distinct (tl @ false_list c @ rule_lists cs @ d1)" using d(2) by (metis mset_eq_imp_distinct_iff)
  have ok1: "cond_rules_ok ct1" using cond_kept_ok a Cons.prems(3) by blast
  have "distinct (false_list c @ d1)" using d1 by auto
  note b = optimize_cond_av_list_kept[OF f Cons.prems(2) ok1 this u(2)]
  have m2: "mset (fl @ d2) = mset (false_list c @ d1)" using b by blast
  have e2: "mset (fl @ tl @ rule_lists cs @ d2) = mset (tl @ false_list c @ rule_lists cs @ d1)"
    using m2 by simp
  then have "distinct (fl @ tl @ rule_lists cs @ d2)" using d1 by (metis mset_eq_imp_distinct_iff)
  then have d2: "distinct (rule_lists cs @ d2)" by auto
  have ok2: "cond_rules_ok ct2" using cond_kept_ok b ok1 by blast
  note e = Cons.IH[OF r Cons.prems(2) ok2 d2 u(3)]
  have "mset (rule_lists cs' @ del') = mset tl + mset fl + mset (rule_lists cs1 @ del')"
    by (simp add: cs' rule_lists_def)
  also have "\<dots> = mset (fl @ tl @ rule_lists cs @ d2)" using e by simp
  also have "\<dots> = mset (rule_lists (c # cs) @ del)" unfolding e2 e1 by (simp add: rule_lists_def)
  finally show ?case using a b e cond_kept_trans by blast
qed

section \<open>The sweep\<close>

lemma sweep_chain_filter:
  "distinct del \<Longrightarrow> distinct (map addr c) \<Longrightarrow>
     sweep_chain del c = (filter (\<lambda>n. addr n \<notin> set del) c, filter (\<lambda>a. a \<notin> addr ` set c) del)"
proof (induction del c rule: sweep_chain.induct)
  case (2 del c rest)
  show ?case
  proof (cases "addr c \<in> set del")
    case True
    have s: "set (remove1 (addr c) del) = set del - {addr c}" using "2.prems"(1) by simp
    have "filter (\<lambda>n. addr n \<notin> set del - {addr c}) rest = filter (\<lambda>n. addr n \<notin> set del) rest"
      by (rule filter_cong) (use "2.prems"(2) in \<open>auto simp: image_iff\<close>)
    moreover have "filter (\<lambda>a. a \<notin> addr ` set rest) (remove1 (addr c) del) =
        filter (\<lambda>a. a \<notin> addr ` set (c # rest)) del"
      using "2.prems"(1)
      by (simp add: distinct_remove1_removeAll removeAll_filter_not_eq) (rule filter_cong; auto)
    ultimately show ?thesis using "2.IH"(1)[OF True] "2.prems" True s by simp
  next
    case False
    then have "filter (\<lambda>a. a \<notin> addr ` set rest) del = filter (\<lambda>a. a \<notin> addr ` set (c # rest)) del"
      by (intro filter_cong) auto
    then show ?thesis using "2.IH"(2)[OF False] "2.prems" False by simp
  qed
qed simp

lemma sweep_slots_filter:
  "distinct del \<Longrightarrow> distinct (map addr (concat t)) \<Longrightarrow>
     fst (sweep_slots del t) = map (filter (\<lambda>n. addr n \<notin> set del)) t"
proof (induction t arbitrary: del)
  case (Cons c t)
  have s: "sweep_chain del c = (filter (\<lambda>n. addr n \<notin> set del) c, filter (\<lambda>a. a \<notin> addr ` set c) del)"
    by (rule sweep_chain_filter) (use Cons.prems in auto)
  have "fst (sweep_slots (filter (\<lambda>a. a \<notin> addr ` set c) del) t) =
      map (filter (\<lambda>n. addr n \<notin> set (filter (\<lambda>a. a \<notin> addr ` set c) del))) t"
    by (rule Cons.IH) (use Cons.prems in auto)
  also have "\<dots> = map (filter (\<lambda>n. addr n \<notin> set del)) t"
    by (intro map_cong refl filter_cong) (use Cons.prems(2) in auto)
  finally show ?case
    by (cases "sweep_slots (filter (\<lambda>a. a \<notin> addr ` set c) del) t") (simp add: s)
qed simp

lemma sweep_table_ok:
  assumes ok: "cond_rules_ok ct" and d: "distinct del"
  shows "rules_ok (sweep_table del ct)"
    and "av_nodes (sweep_table del ct) = filter (\<lambda>n. addr n \<notin> set del) (av_nodes ct)"
proof -
  have both: "rules_ok (sweep_table del ct) \<and>
      av_nodes (sweep_table del ct) = filter (\<lambda>n. addr n \<notin> set del) (av_nodes ct)"
  proof (cases "avtable ct")
    case None
    then show ?thesis using ok by (simp add: sweep_table_def av_nodes_def cond_rules_ok_def)
  next
    case (Some t)
    let ?P = "\<lambda>n. addr n \<notin> set del"
    have wf: "wf_avtab ct" using ok by (simp add: cond_rules_ok_def rules_ok_def)
    have len: "length t = unat (nslot ct)" "avnel ct = of_nat (length (concat t))"
      using wf Some by (simp_all add: wf_avtab_def)
    have "distinct (map addr (concat t))" using ok Some by (simp add: cond_rules_ok_def av_nodes_def)
    then have f: "fst (sweep_slots del t) = map (filter ?P) t" by (rule sweep_slots_filter[OF d])
    have le: "length (concat (map (filter ?P) t)) \<le> length (concat t)"
      by (simp only: filter_concat[symmetric] length_filter_le)
    have sw: "sweep_table del ct = ct\<lparr>avtable := Some (map (filter ?P) t),
        avnel := of_nat (length (concat (map (filter ?P) t)))\<rparr>"
      using f len le
      by (cases "sweep_slots del t") (simp add: sweep_table_def Some of_nat_diff del: length_concat)
    have n: "av_nodes (sweep_table del ct) = filter ?P (av_nodes ct)"
      by (simp add: sw av_nodes_def Some filter_concat)
    have "av_slots_ok (avmask ct) (map (filter ?P) t)"
      using wf_avtab_slots[OF wf Some] by (auto simp: av_slots_ok_def chain_sorted_def sorted_wrt_filter)
    then have "wf_avtab (sweep_table del ct)"
      using wf Some by (simp add: wf_avtab_def sw del: length_concat)
    then show ?thesis using ok n by (auto simp: rules_ok_def cond_rules_ok_def)
  qed
  show "rules_ok (sweep_table del ct)"
    "av_nodes (sweep_table del ct) = filter (\<lambda>n. addr n \<notin> set del) (av_nodes ct)" using both by simp_all
qed

section \<open>The map of covering types\<close>

lemma type_vec_append_types:
  "type_vec_append m v t = Inr (v', m') \<Longrightarrow> tv_types v' = tv_types v @ [t]"
  by (auto simp: type_vec_append_def rbind_eq_Inr split: if_splits option.splits)

lemma append_types_eq: "append_types m v ks = Inr (v', m') \<Longrightarrow> tv_types v' = tv_types v @ ks"
  by (induction ks arbitrary: m v) (auto simp: rbind_eq_Inr dest: type_vec_append_types)

lemma covering_attributes_sound:
  "covering_attributes p ti ks m v = Inr (v', m') \<Longrightarrow> k \<in> set (tv_types v') \<Longrightarrow>
     k \<in> set (tv_types v) \<or> (\<exists>j tk. k = of_nat j \<and> is_attribute p j \<and>
       arr (attr_type_map p) j = Some tk \<and> ebitmap_contains tk ti)"
proof (induction ks arbitrary: m v)
  case (Cons j ks)
  have "\<exists>m1 v1. covering_attributes p ti ks m1 v1 = Inr (v', m') \<and>
      (tv_types v1 = tv_types v \<or> tv_types v1 = tv_types v @ [of_nat j] \<and> is_attribute p j \<and>
        (\<exists>tk. arr (attr_type_map p) j = Some tk \<and> ebitmap_contains tk ti))"
    using Cons.prems(1) type_vec_append_types
    by (simp split: if_splits option.splits) (blast | force simp: rbind_eq_Inr)+
  then obtain m1 v1 where r: "covering_attributes p ti ks m1 v1 = Inr (v', m')"
    and v1: "tv_types v1 = tv_types v \<or> tv_types v1 = tv_types v @ [of_nat j] \<and> is_attribute p j \<and>
        (\<exists>tk. arr (attr_type_map p) j = Some tk \<and> ebitmap_contains tk ti)" by blast
  from Cons.IH[OF r Cons.prems(2)] v1 show ?case by auto
qed simp

lemma type_map_entry_plain:
  assumes "type_map_entry m p i = Inr (v, m')" "arr (type_val_to_struct p) i = Some (Some td)"
    "type_flavor td \<noteq> TYPE_ATTRIB" "arr (type_attr_map p) i = Some e"
  shows "tv_types v = ebitmap_positive_bits e"
  using assms append_types_eq
  by (fastforce simp: type_map_entry_def type_vec_init_def rbind_eq_Inr split: option.splits)

lemma type_map_entry_attribute:
  assumes "type_map_entry m p i = Inr (v, m')" "is_attribute p i"
  obtains ti where "arr (attr_type_map p) i = Some ti"
    "\<forall>k \<in> set (tv_types v). \<exists>j tk. k = of_nat j \<and> is_attribute p j \<and>
       arr (attr_type_map p) j = Some tk \<and> ebitmap_contains tk ti"
proof -
  obtain td where td: "arr (type_val_to_struct p) i = Some (Some td)" "type_flavor td = TYPE_ATTRIB"
    using assms(2) by (auto simp: is_attribute_def split: option.splits)
  then obtain ti m3 where ti: "arr (attr_type_map p) i = Some ti"
    and c: "covering_attributes p ti [0..<unat (nprim (p_types p))] m3
      \<lparr>tv_types = [], tv_capacity = TYPE_VEC_INIT_SIZE\<rparr> = Inr (v, m')"
    using assms(1) by (auto simp: type_map_entry_def type_vec_init_def rbind_eq_Inr split: option.splits)
  show ?thesis by (rule that[OF ti]) (use covering_attributes_sound[OF c] in auto)
qed

lemma type_map_entries_arr:
  "type_map_entries m p is = Inr (tm, m') \<Longrightarrow> arr tm k = Some v \<Longrightarrow>
     k < length is \<and> (\<exists>m1 m2. type_map_entry m1 p (is ! k) = Inr (v, m2))"
proof (induction "is" arbitrary: m tm k)
  case (Cons i "is")
  then show ?case by (cases k) (fastforce simp: rbind_eq_Inr arr_eq_Some)+
qed (simp add: arr_def)

definition plain_type :: "policydb \<Rightarrow> u32 \<Rightarrow> bool" where
  "plain_type p x \<longleftrightarrow> x \<noteq> 0 \<and>
     (\<exists>td. ptr_arr (type_val_to_struct p) (unat (x - 1)) = Some td \<and> type_flavor td \<noteq> TYPE_ATTRIB)"

text \<open>
  The two type maps as the policy reader builds them: a type belongs to itself and to
  attributes, and an attribute lists the types that belong to it.
\<close>

definition type_maps_agree :: "policydb \<Rightarrow> bool" where
  "type_maps_agree p \<longleftrightarrow>
     unat (nprim (p_types p)) \<le> 65535 \<and> length (type_val_to_struct p) = unat (nprim (p_types p)) \<and>
     (\<forall>e \<in> set (type_attr_map p) \<union> set (attr_type_map p). wf_ebitmap e) \<and>
     (\<forall>x e. plain_type p (x + 1) \<longrightarrow> arr (type_attr_map p) (unat x) = Some e \<longrightarrow>
        (\<forall>a \<in> ebits e. unat a < unat (nprim (p_types p)) \<and> (a = x \<or> is_attribute p (unat a) \<and>
           (\<forall>e'. arr (attr_type_map p) (unat a) = Some e' \<longrightarrow> x \<in> ebits e'))) \<and>
        (\<forall>k e'. is_attribute p k \<longrightarrow> arr (attr_type_map p) k = Some e' \<longrightarrow> x \<in> ebits e' \<longrightarrow>
           of_nat k \<in> ebits e))"

lemma attributes_closed:
  assumes b: "build_type_map m p = Inr (tm, m')" and ag: "type_maps_agree p"
    and pl: "plain_type p (x + 1)" and e: "arr (type_attr_map p) (unat x) = Some e"
  shows "closed_types tm (ebits e)"
  unfolding closed_types_def
proof (intro ballI conjI allI impI)
  fix i assume i: "i \<in> ebits e"
  have le: "unat i < unat (nprim (p_types p))"
    and ci: "i = x \<or> is_attribute p (unat i) \<and>
      (\<forall>e'. arr (attr_type_map p) (unat i) = Some e' \<longrightarrow> x \<in> ebits e')"
    using ag pl e i unfolding type_maps_agree_def by blast+
  show "unat i < 65535" using le ag by (simp add: type_maps_agree_def)
  have wfe: "wf_ebitmap e" using ag e by (auto simp: type_maps_agree_def dest: arr_in_set)
  fix v assume v: "arr tm (unat i) = Some v"
  obtain m0 where "type_map_entries m0 p [0..<unat (nprim (p_types p))] = Inr (tm, m')"
    using b by (auto simp: build_type_map_def split: option.splits)
  from type_map_entries_arr[OF this v] obtain m1 m2 where "type_map_entry m1 p (unat i) = Inr (v, m2)"
    by auto
  then have entry: "type_map_entry m1 p (unat i) = Inr (v, m2)" .
  show "set (tv_types v) \<subseteq> ebits e"
  proof (cases "is_attribute p (unat i)")
    case False
    then have ix: "i = x" using ci by blast
    obtain td where td: "arr (type_val_to_struct p) (unat x) = Some (Some td)" "type_flavor td \<noteq> TYPE_ATTRIB"
      using pl by (auto simp: plain_type_def ptr_arr_def arr_def split: if_splits)
    show ?thesis
      using type_map_entry_plain[OF entry[unfolded ix] td e] ebitmap_positive_bits_spec(1)[OF wfe] by simp
  next
    case True
    obtain ti where ti: "arr (attr_type_map p) (unat i) = Some ti"
      and c: "\<forall>k \<in> set (tv_types v). \<exists>j tk. k = of_nat j \<and> is_attribute p j \<and>
         arr (attr_type_map p) j = Some tk \<and> ebitmap_contains tk ti"
      by (rule type_map_entry_attribute[OF entry True])
    have "\<not> is_attribute p (unat x)"
      using pl by (auto simp: plain_type_def is_attribute_def ptr_arr_def arr_def split: if_splits option.splits)
    then have x: "x \<in> ebits ti" using ci ti True by metis
    show ?thesis
    proof
      fix k assume "k \<in> set (tv_types v)"
      with c obtain j tk where j: "k = of_nat j" "is_attribute p j"
        "arr (attr_type_map p) j = Some tk" "ebitmap_contains tk ti" by blast
      have "wf_ebitmap tk" "wf_ebitmap ti"
        using ag j(3) ti by (auto simp: type_maps_agree_def dest: arr_in_set)
      then have "x \<in> ebits tk" using j(4) x by (auto simp: ebitmap_contains_iff)
      then show "k \<in> ebits e" using ag pl e j unfolding type_maps_agree_def by blast
    qed
  qed
qed

section \<open>Access decisions\<close>

text \<open>The policy with exactly the conditional rules in \<open>on\<close> switched on.\<close>

definition flagged :: "nat set \<Rightarrow> avtab_node \<Rightarrow> avtab_node" where
  "flagged on n = switched True on (switched False (- on) n)"

definition switched_to :: "nat set \<Rightarrow> policydb \<Rightarrow> policydb" where
  "switched_to on p = p\<lparr>te_cond_avtab := map_nodes (flagged on) (te_cond_avtab p)\<rparr>"

lemma flagged_simps [simp]:
  "datum (flagged on n) = datum n" "addr (flagged on n) = addr n"
  "triple (key (flagged on n)) = triple (key n)"
  "rule_kind (specified (key (flagged on n))) = rule_kind (specified (key n))"
  by (simp_all add: flagged_def)

lemma enabled_flagged: "enabled (flagged on n) \<longleftrightarrow> addr n \<in> on"
  by (cases "addr n \<in> on") (simp_all add: flagged_def enabled_switched enabled_switched_other)

lemma bit_node_kind: "single_kind n \<Longrightarrow> b < 15 \<Longrightarrow> bit (specified (key n)) b \<longleftrightarrow> node_kind n = 2 ^ b"
proof -
  assume ok: "single_kind n" and b: "b < 15"
  then obtain c where c: "c < 15" "node_kind n = 2 ^ c" by (auto simp: single_kind_def)
  have "bit (specified (key n)) b \<longleftrightarrow> bit (node_kind n) b" using b by (simp add: node_kind_def bit_rule_kind)
  also have "\<dots> \<longleftrightarrow> b = c" using c by (auto simp: bit_exp_iff)
  also have "\<dots> \<longleftrightarrow> node_kind n = 2 ^ b"
  proof
    assume "node_kind n = 2 ^ b"
    then have "bit (2 ^ c :: u16) b" using b c(2) by (simp add: bit_exp_iff)
    then show "b = c" by (simp add: bit_exp_iff)
  qed (simp add: c(2))
  finally show ?thesis .
qed

lemma active_iff:
  assumes "b < 15"
  shows "active (2 ^ b) n \<longleftrightarrow> bit (specified (key n)) b \<and> enabled n"
proof -
  have e: "AVTAB_ENABLED = (2 ^ 15 :: u16)" by simp
  have "s AND m = m \<longleftrightarrow> (\<forall>k. bit m k \<longrightarrow> bit s k)" for s m :: u16
    by (metis bit_and_iff bit_eqI)
  moreover have "bit (2 ^ b OR 2 ^ 15 :: u16) k \<longleftrightarrow> k = b \<or> k = 15" for k
    using assms unfolding bit_or_iff bit_exp_iff possible_bit_word by auto
  ultimately have "active (2 ^ b) n \<longleftrightarrow> bit (specified (key n)) b \<and> bit (specified (key n)) 15"
    unfolding active_def e by auto
  moreover have "enabled n \<longleftrightarrow> bit (specified (key n)) 15"
    using and_single_bit_eq_0[of 15 "specified (key n)"] by (simp add: enabled_def)
  ultimately show ?thesis by simp
qed

lemma answers_av_key:
  assumes "single_kind n" "b < 3" "node_kind n = 2 ^ b"
  shows "answers (av_key cls i j) n \<longleftrightarrow> triple (key n) = (ucast (i + 1), ucast (j + 1), cls)"
proof -
  have "bit (specified (key n)) b" using assms bit_node_kind[OF assms(1), of b] by simp
  moreover have "bit (7 :: u16) b"
  proof -
    have "(7 :: u16) = mask 3" by (simp add: mask_eq_exp_minus_1)
    then show ?thesis using assms(2) by (simp only: bit_mask_iff) simp
  qed
  ultimately have "\<exists>b<15. bit (7 :: u16) b \<and> bit (specified (key n)) b"
    using assms(2) by (intro exI[of _ b]) linarith
  then have "answers (av_key cls i j) n \<longleftrightarrow> triple (av_key cls i j) = triple (key n)"
    by (simp add: answers_iff_bit same_triple_iff av_key_def)
  then show ?thesis by (auto simp: triple_def av_key_def)
qed

lemma kind_grants:
  "Av 1 k \<in> grants n \<longleftrightarrow> node_kind n = 1 \<and> bit (data (datum n)) k"
  "Av 2 k \<in> grants n \<longleftrightarrow> node_kind n = 2 \<and> bit (data (datum n)) k"
  "Av 4 k \<in> grants n \<longleftrightarrow> node_kind n = 4 \<and> k < 32 \<and> \<not> bit (data (datum n)) k"
  by (auto simp: grants_def datum_grants_def)

definition plain_rules :: "avtab \<Rightarrow> bool" where
  "plain_rules h \<longleftrightarrow> rules_ok h \<and> (\<forall>n \<in> set (av_nodes h). specified (key n) = node_kind n)"

lemma cond_compute_av_auditallow:
  assumes "wf_avtab h"
  shows "bit (auditallow (cond_compute_av h k avd)) i \<longleftrightarrow> bit (auditallow avd) i \<or>
    (\<exists>n \<in> set (av_nodes h). answers k n \<and> active AVTAB_AUDITALLOW n \<and> bit (data (datum n)) i)"
  unfolding cond_compute_av_def fold_cond_av
  using rules.collect_or[OF assms, of "active AVTAB_AUDITALLOW" "\<lambda>n. data (datum n)" k "auditallow avd" i]
  by (simp add: avtab_visit_def)

text \<open>The rules of a kind between two attributes, in the tables of the switched policy.\<close>

definition pair_rule :: "u16 \<Rightarrow> u32 \<times> u32 \<Rightarrow> avtab_node \<Rightarrow> bool" where
  "pair_rule cls ij n \<longleftrightarrow> triple (key n) = (ucast (fst ij + 1), ucast (snd ij + 1), cls)"

lemma te_rule_iff:
  assumes "plain_rules h" "n \<in> set (av_nodes h)" "b < 3"
  shows "answers (av_key cls (fst ij) (snd ij)) n \<and> specified (key n) = 2 ^ b \<longleftrightarrow>
    pair_rule cls ij n \<and> node_kind n = 2 ^ b"
  using assms answers_av_key[of n b cls "fst ij" "snd ij"]
  by (auto simp: plain_rules_def rules_ok_def pair_rule_def)

lemma cond_rule_iff:
  assumes "single_kind n" "b < 3"
  shows "answers (av_key cls (fst ij) (snd ij)) (flagged on n) \<and> active (2 ^ b) (flagged on n) \<longleftrightarrow>
    pair_rule cls ij n \<and> node_kind n = 2 ^ b \<and> addr n \<in> on"
proof -
  have k: "node_kind (flagged on n) = node_kind n" by (simp add: node_kind_def)
  have ok: "single_kind (flagged on n)" using assms(1) by (simp add: single_kind_def k)
  have b: "b < 15" using assms(2) by simp
  show ?thesis
    using answers_av_key[OF ok assms(2), of cls "fst ij" "snd ij"]
    by (auto simp: active_iff[OF b] enabled_flagged bit_node_kind[OF ok b] k pair_rule_def)
qed

lemma in_force_pair:
  "(\<exists>n \<in> set (av_nodes te). pair_rule cls ij n \<and> P n) \<or>
   (\<exists>n \<in> set (av_nodes ct). pair_rule cls ij n \<and> addr n \<in> on \<and> P n) \<longleftrightarrow>
   (\<exists>n \<in> in_force on te ct {}. pair_rule cls ij n \<and> P n)"
  by (auto simp: in_force_def)

lemma te_pair_switched:
  fixes p on
  defines "q \<equiv> switched_to on p" and "F \<equiv> in_force on (te_avtab p) (te_cond_avtab p) {}"
  assumes te: "plain_rules (te_avtab p)" and ct: "rules_ok (te_cond_avtab p)"
  shows "bit (allowed (te_pair q cls ij avd)) k \<longleftrightarrow>
      bit (allowed avd) k \<or> (\<exists>n \<in> F. pair_rule cls ij n \<and> Av 1 k \<in> grants n)"
    and "bit (auditallow (te_pair q cls ij avd)) k \<longleftrightarrow>
      bit (auditallow avd) k \<or> (\<exists>n \<in> F. pair_rule cls ij n \<and> Av 2 k \<in> grants n)"
    and "bit (auditdeny (te_pair q cls ij avd)) k \<longleftrightarrow>
      bit (auditdeny avd) k \<and> (k < 32 \<longrightarrow> \<not> (\<exists>n \<in> F. pair_rule cls ij n \<and> Av 4 k \<in> grants n))"
    and "decided (te_pair q cls ij avd) = decided avd" "seqno (te_pair q cls ij avd) = seqno avd"
proof -
  have te': "te_avtab q = te_avtab p" and ct': "te_cond_avtab q = map_nodes (flagged on) (te_cond_avtab p)"
    by (simp_all add: q_def switched_to_def)
  have wt: "wf_avtab (te_avtab p)" using te by (simp add: plain_rules_def rules_ok_def)
  have wc: "wf_avtab (te_cond_avtab q)"
    unfolding ct' using ct by (intro wf_avtab_map_nodes) (simp_all add: rules_ok_def)
  have okc: "single_kind n" if "n \<in> set (av_nodes (te_cond_avtab p))" for n using ct that by (simp add: rules_ok_def)
  let ?k = "av_key cls (fst ij) (snd ij)"
  let ?avd = "fold te_step (avtab_visit (te_avtab p) ?k) avd"
  have split: "te_pair q cls ij avd = cond_compute_av (te_cond_avtab q) ?k ?avd"
    by (simp add: te_pair_def te' Let_def)
  have nodes: "(\<exists>n \<in> set (av_nodes (te_cond_avtab q)). answers ?k n \<and> active (2 ^ b) n \<and> P (datum n)) \<longleftrightarrow>
      (\<exists>n \<in> set (av_nodes (te_cond_avtab p)). pair_rule cls ij n \<and> addr n \<in> on \<and> node_kind n = 2 ^ b \<and> P (datum n))"
    if "b < 3" for b P
    unfolding ct' av_nodes_map using cond_rule_iff[OF okc that, of _ cls ij on] by auto
  have tes: "(\<exists>n \<in> set (av_nodes (te_avtab p)). answers ?k n \<and> specified (key n) = 2 ^ b \<and> P (datum n)) \<longleftrightarrow>
      (\<exists>n \<in> set (av_nodes (te_avtab p)). pair_rule cls ij n \<and> node_kind n = 2 ^ b \<and> P (datum n))"
    if "b < 3" for b P
    using te_rule_iff[OF te _ that, of _ cls ij] by blast
  note te_fold = rules.collect_or[OF wt, where val = "\<lambda>n. data (datum n)" and k = ?k]
  show "bit (allowed (te_pair q cls ij avd)) k \<longleftrightarrow>
      bit (allowed avd) k \<or> (\<exists>n \<in> F. pair_rule cls ij n \<and> Av 1 k \<in> grants n)"
    unfolding split cond_compute_av_allowed[OF wc] fold_te_step
      te_fold[where sel = "\<lambda>n. specified (key n) = 1"] kind_grants F_def in_force_pair[symmetric]
    using nodes[of 0 "\<lambda>d. bit (data d) k"] tes[of 0 "\<lambda>d. bit (data d) k"] by simp
  show "bit (auditallow (te_pair q cls ij avd)) k \<longleftrightarrow>
      bit (auditallow avd) k \<or> (\<exists>n \<in> F. pair_rule cls ij n \<and> Av 2 k \<in> grants n)"
    unfolding split cond_compute_av_auditallow[OF wc] fold_te_step
      te_fold[where sel = "\<lambda>n. specified (key n) = 2"] kind_grants F_def in_force_pair[symmetric]
    using nodes[of 1 "\<lambda>d. bit (data d) k"] tes[of 1 "\<lambda>d. bit (data d) k"] by simp
  show "bit (auditdeny (te_pair q cls ij avd)) k \<longleftrightarrow>
      bit (auditdeny avd) k \<and> (k < 32 \<longrightarrow> \<not> (\<exists>n \<in> F. pair_rule cls ij n \<and> Av 4 k \<in> grants n))"
  proof (cases "k < 32")
    case True
    show ?thesis
      unfolding split cond_compute_av_auditdeny[OF wc] fold_te_step
        rules.collect_and[OF wt, where val = "\<lambda>n. data (datum n)" and k = ?k and sel = "\<lambda>n. specified (key n) = 4"]
        kind_grants F_def in_force_pair[symmetric]
      using nodes[of 2 "\<lambda>d. \<not> bit (data d) k"] tes[of 2 "\<lambda>d. \<not> bit (data d) k"] True by simp blast
  qed (auto dest: bit_u32_less)
  have "decided (fold te_step ns a) = decided a" "seqno (fold te_step ns a) = seqno a" for ns a
    by (induction ns arbitrary: a) (simp_all add: te_step_def)
  then show "decided (te_pair q cls ij avd) = decided avd" "seqno (te_pair q cls ij avd) = seqno avd"
    unfolding split cond_compute_av_def fold_cond_av_other by simp_all
qed

text \<open>What the rules in force grant to a pair of types decides their access vectors.\<close>

lemma te_decision_switched:
  fixes p on
  defines "q \<equiv> switched_to on p"
  assumes te: "plain_rules (te_avtab p)" and ct: "rules_ok (te_cond_avtab p)"
    and a: "wf_ebitmap sattr" "wf_ebitmap tattr"
    and G: "G = scope_grants (ebits sattr) (ebits tattr) cls (in_force on (te_avtab p) (te_cond_avtab p) {})"
  shows "bit (allowed (te_decision q cls sattr tattr)) k \<longleftrightarrow> Av 1 k \<in> G"
    and "bit (auditallow (te_decision q cls sattr tattr)) k \<longleftrightarrow> Av 2 k \<in> G"
    and "bit (auditdeny (te_decision q cls sattr tattr)) k \<longleftrightarrow> k < 32 \<and> Av 4 k \<notin> G"
    and "decided (te_decision q cls sattr tattr) = 0xffffffff" "seqno (te_decision q cls sattr tattr) = 0"
proof -
  let ?F = "in_force on (te_avtab p) (te_cond_avtab p) {}"
  let ?ps = "List.product (ebitmap_positive_bits sattr) (ebitmap_positive_bits tattr)"
  let ?G = "\<lambda>g ps. \<exists>ij \<in> set ps. \<exists>n \<in> ?F. pair_rule cls ij n \<and> g \<in> grants n"
  have g: "?G g ?ps \<longleftrightarrow> g \<in> G" for g
    unfolding G scope_grants_def in_scope_def pair_rule_def
    by (fastforce simp: ebitmap_positive_bits_spec(1)[OF a(1)] ebitmap_positive_bits_spec(1)[OF a(2)])
  have all: "(bit (allowed (fold (te_pair q cls) ps avd)) k \<longleftrightarrow> bit (allowed avd) k \<or> ?G (Av 1 k) ps) \<and>
      (bit (auditallow (fold (te_pair q cls) ps avd)) k \<longleftrightarrow> bit (auditallow avd) k \<or> ?G (Av 2 k) ps) \<and>
      (bit (auditdeny (fold (te_pair q cls) ps avd)) k \<longleftrightarrow>
        bit (auditdeny avd) k \<and> (k < 32 \<longrightarrow> \<not> ?G (Av 4 k) ps)) \<and>
      decided (fold (te_pair q cls) ps avd) = decided avd \<and>
      seqno (fold (te_pair q cls) ps avd) = seqno avd" for ps avd
  proof (induction ps arbitrary: avd)
    case (Cons ij ps)
    note st = te_pair_switched[OF te ct, where cls = cls and ij = ij and avd = avd and on = on, folded q_def]
    show ?case
      unfolding fold_Cons comp_apply Cons.IH[THEN conjunct1]
        Cons.IH[THEN conjunct2, THEN conjunct1]
        Cons.IH[THEN conjunct2, THEN conjunct2, THEN conjunct1]
        Cons.IH[THEN conjunct2, THEN conjunct2, THEN conjunct2, THEN conjunct1]
        Cons.IH[THEN conjunct2, THEN conjunct2, THEN conjunct2, THEN conjunct2] st
      by auto
  qed simp
  have start: "bit (auditdeny av_init) k \<longleftrightarrow> k < 32" "\<not> bit (allowed av_init) k"
    "\<not> bit (auditallow av_init) k" "decided av_init = 0xffffffff" "seqno av_init = 0"
  proof -
    have "auditdeny av_init = mask 32" by (simp add: av_init_def mask_eq_exp_minus_1)
    then show "bit (auditdeny av_init) k \<longleftrightarrow> k < 32"
      by (simp only: bit_mask_iff) (simp add: possible_bit_word)
  qed (simp_all add: av_init_def)
  note d = all[of ?ps av_init, folded te_decision_def, unfolded g]
  show "bit (allowed (te_decision q cls sattr tattr)) k \<longleftrightarrow> Av 1 k \<in> G"
    "bit (auditallow (te_decision q cls sattr tattr)) k \<longleftrightarrow> Av 2 k \<in> G"
    "bit (auditdeny (te_decision q cls sattr tattr)) k \<longleftrightarrow> k < 32 \<and> Av 4 k \<notin> G"
    using d start by blast+
  show "decided (te_decision q cls sattr tattr) = 0xffffffff" "seqno (te_decision q cls sattr tattr) = 0"
    using d[THEN conjunct2, THEN conjunct2, THEN conjunct2] start(4,5) by simp_all
qed

lemma te_decision_switched_eq:
  assumes p: "plain_rules (te_avtab p)" "rules_ok (te_cond_avtab p)"
    and q: "plain_rules (te_avtab q)" "rules_ok (te_cond_avtab q)"
    and a: "wf_ebitmap sattr" "wf_ebitmap tattr"
    and G: "scope_grants (ebits sattr) (ebits tattr) cls (in_force on (te_avtab q) (te_cond_avtab q) {}) =
      scope_grants (ebits sattr) (ebits tattr) cls (in_force on (te_avtab p) (te_cond_avtab p) {})"
  shows "te_decision (switched_to on q) cls sattr tattr = te_decision (switched_to on p) cls sattr tattr"
proof -
  let ?x = "te_decision (switched_to on q) cls sattr tattr"
  let ?y = "te_decision (switched_to on p) cls sattr tattr"
  note x = te_decision_switched[OF q a refl, where cls = cls and on = on, unfolded G]
  note y = te_decision_switched[OF p a refl, where cls = cls and on = on]
  have "allowed ?x = allowed ?y" by (rule bit_word_eqI) (simp only: x y)
  moreover have "auditallow ?x = auditallow ?y" by (rule bit_word_eqI) (simp only: x y)
  moreover have "auditdeny ?x = auditdeny ?y" by (rule bit_word_eqI) (simp only: x y)
  moreover have "decided ?x = decided ?y" "seqno ?x = seqno ?y" by (simp_all only: x y)
  ultimately show ?thesis by (intro av_decision.equality) simp_all
qed

text \<open>Everything but the rules is the same in both policies.\<close>

definition with_rules :: "policydb \<Rightarrow> avtab \<Rightarrow> avtab \<Rightarrow> cond_node list \<Rightarrow> policydb" where
  "with_rules p te ct cl = p\<lparr>te_avtab := te, te_cond_avtab := ct, cond_list := cl\<rparr>"

lemma with_rules_simps [simp]:
  "te_avtab (with_rules p te ct cl) = te" "te_cond_avtab (with_rules p te ct cl) = ct"
  "role_val_to_struct (with_rules p te ct cl) = role_val_to_struct p"
  "type_val_to_struct (with_rules p te ct cl) = type_val_to_struct p"
  "class_val_to_struct (with_rules p te ct cl) = class_val_to_struct p"
  "p_classes (with_rules p te ct cl) = p_classes p"
  "type_attr_map (with_rules p te ct cl) = type_attr_map p"
  "role_allows (with_rules p te ct cl) = role_allows p"
  "process_class (with_rules p te ct cl) = process_class p"
  "process_trans_dyntrans (with_rules p te ct cl) = process_trans_dyntrans p"
  by (simp_all add: with_rules_def)

lemma constraint_with_rules [simp]:
  "constraint_granted (with_rules p te ct cl) s t x c = constraint_granted p s t x c"
proof -
  have a: "attr_value (with_rules p te ct cl) s t e = attr_value p s t e" for e
    by (simp only: attr_value_def role_op_def role_dominates_def with_rules_simps)
  have "cexpr_eval (with_rules p te ct cl) s t x es st = cexpr_eval p s t x es st" for es st
  proof (induction es arbitrary: st)
    case (Cons e es)
    show ?case unfolding cexpr_eval.simps Cons a ..
  qed simp
  then show ?thesis by (simp add: constraint_granted_def constraint_expr_eval_def)
qed

lemma apply_constraints_with_rules [simp]:
  "apply_constraints (with_rules p te ct cl) s t cs avd = apply_constraints p s t cs avd"
  by (induction cs arbitrary: avd) (simp_all cong: rbind_cong)

lemma apply_role_allow_with_rules [simp]:
  "apply_role_allow (with_rules p te ct cl) s t tclass avd = apply_role_allow p s t tclass avd"
  by (simp add: apply_role_allow_def role_allowed_def)

lemma bounding_pair_with_rules [simp]:
  "bounding_pair (with_rules p te ct cl) s t = bounding_pair p s t"
  by (simp only: bounding_pair_def with_rules_simps)

lemma unbounded_av_with_rules:
  assumes "\<And>sattr tattr. arr (type_attr_map p) (unat (type s - 1)) = Some sattr \<Longrightarrow>
      arr (type_attr_map p) (unat (type t - 1)) = Some tattr \<Longrightarrow>
      te_decision (with_rules p te ct cl) tclass sattr tattr = te_decision (with_rules p te1 ct1 cl1) tclass sattr tattr"
  shows "unbounded_av (with_rules p te ct cl) s t tclass r = unbounded_av (with_rules p te1 ct1 cl1) s t tclass r"
  using assms by (simp add: unbounded_av_def Let_def split: option.splits)

text \<open>If the decisions of all pairs of plain types agree, so do the decisions with bounds.\<close>

definition bounds_plain :: "policydb \<Rightarrow> bool" where
  "bounds_plain p \<longleftrightarrow> (\<forall>x. plain_type p x \<longrightarrow> bound_of p x = 0 \<or> plain_type p (bound_of p x))"

lemma compute_av_with_rules:
  assumes b: "bounds_plain p"
    and eq: "\<And>(s :: context_struct) (t :: context_struct) sattr tattr. plain_type p (type s) \<Longrightarrow> plain_type p (type t) \<Longrightarrow>
      arr (type_attr_map p) (unat (type s - 1)) = Some sattr \<Longrightarrow>
      arr (type_attr_map p) (unat (type t - 1)) = Some tattr \<Longrightarrow>
      te_decision (with_rules p te ct cl) tclass sattr tattr = te_decision (with_rules p te1 ct1 cl1) tclass sattr tattr"
  shows "plain_type p (type s) \<Longrightarrow> plain_type p (type t) \<Longrightarrow>
    context_struct_compute_av fuel (with_rules p te ct cl) s t tclass r =
    context_struct_compute_av fuel (with_rules p te1 ct1 cl1) s t tclass r"
proof (induction fuel arbitrary: s t r)
  case (Suc fuel)
  have u: "unbounded_av (with_rules p te ct cl) s t tclass r = unbounded_av (with_rules p te1 ct1 cl1) s t tclass r" for r
    by (rule unbounded_av_with_rules) (rule eq[OF Suc.prems])
  have ih: "context_struct_compute_av fuel (with_rules p te ct cl) s' t' tclass r =
      context_struct_compute_av fuel (with_rules p te1 ct1 cl1) s' t' tclass r"
    if "bounding_pair p s t = Inr (Some (s', t'))" for s' t' r
  proof (rule Suc.IH)
    note bp = bounding_pair_Some[OF that]
    show "plain_type p (type s')" "plain_type p (type t')"
      using bp b Suc.prems by (auto simp: bounds_plain_def)
  qed
  show ?case by (simp add: u ih split: sum.splits option.splits prod.splits)
qed simp

section \<open>The optimised policy\<close>

definition optimizable :: "policydb \<Rightarrow> bool" where
  "optimizable p \<longleftrightarrow> type_maps_agree p \<and> bounds_plain p \<and> plain_rules (te_avtab p) \<and>
     cond_rules_ok (te_cond_avtab p) \<and> distinct (rule_lists (cond_list p))"

lemma policydb_optimize_kept:
  assumes o: "policydb_optimize m p = Inr p'" and p: "optimizable p"
    and on: "switched_together on (cond_list p)"
  obtains tm m1 m2 where "build_type_map m1 p = Inr (tm, m2)"
    "p' = with_rules p (te_avtab p') (te_cond_avtab p') (cond_list p')"
    "plain_rules (te_avtab p')" "rules_ok (te_cond_avtab p')"
    "\<forall>A B cls. closed_types tm A \<longrightarrow> closed_types tm B \<longrightarrow>
      scope_grants A B cls (in_force on (te_avtab p') (te_cond_avtab p') {}) =
      scope_grants A B cls (in_force on (te_avtab p) (te_cond_avtab p) {})"
proof -
  obtain tm m2 h cs del ct where tm: "build_type_map m p = Inr (tm, m2)"
    and h: "optimize_avtab tm (te_avtab p) = Inr h"
    and c: "optimize_cond_list (p\<lparr>te_avtab := h\<rparr>) tm (cond_list p) [] (te_cond_avtab p) = Inr (cs, del, ct)"
    and p': "p' = p\<lparr>te_avtab := h, cond_list := cs, te_cond_avtab := if del = [] then ct else sweep_table del ct\<rparr>"
    using o by (auto simp: policydb_optimize_def optimize_cond_avtab_def rbind_eq_Inr Let_def split: if_splits)
  have te: "rules_ok (te_avtab p)" and ctok: "cond_rules_ok (te_cond_avtab p)"
    using p by (auto simp: optimizable_def plain_rules_def)
  have k: "table_kept tm (te_avtab p) h"
    by (rule optimize_avtab_kept[OF h]) (use te in \<open>auto simp: rules_ok_def\<close>)
  then have hok: "rules_ok h" by (simp add: table_kept_def rules_ok_def)
  have "specified (key n) = node_kind n" if "n \<in> set (av_nodes h)" for n
  proof -
    have "key n \<in> key ` set (av_nodes (te_avtab p))" using k that by (auto simp: table_kept_def)
    then show ?thesis using p by (auto simp: optimizable_def plain_rules_def node_kind_def)
  qed
  then have plain: "plain_rules h" using hok by (simp add: plain_rules_def)
  have ck: "cond_kept tm on h (te_cond_avtab p) {} ct (set del) \<and> mset (rule_lists cs @ del) = mset (rule_lists (cond_list p))"
    using optimize_cond_list_kept[OF c _ ctok _ on] hok p by (simp add: optimizable_def)
  have d: "distinct del"
    using ck p by (metis distinct_append mset_eq_imp_distinct_iff optimizable_def)
  have ok1: "cond_rules_ok ct" using cond_kept_ok ck ctok by blast
  define ct' where "ct' = (if del = [] then ct else sweep_table del ct)"
  have ct': "rules_ok ct'" "set (av_nodes ct') = {n \<in> set (av_nodes ct). addr n \<notin> set del}"
    using sweep_table_ok[OF ok1 d] ok1 by (auto simp: ct'_def cond_rules_ok_def)
  have "in_force on h ct' {} = in_force on h ct (set del)" by (auto simp: in_force_def ct'(2))
  moreover have "scope_grants A B cls (in_force on h (te_cond_avtab p) {}) =
      scope_grants A B cls (in_force on (te_avtab p) (te_cond_avtab p) {})"
    if "closed_types tm A" "closed_types tm B" for A B cls
    using k that by (simp add: in_force_def scope_grants_Un table_kept_def)
  ultimately have "\<forall>A B cls. closed_types tm A \<longrightarrow> closed_types tm B \<longrightarrow>
      scope_grants A B cls (in_force on h ct' {}) =
      scope_grants A B cls (in_force on (te_avtab p) (te_cond_avtab p) {})"
    using ck by (simp add: cond_kept_def)
  then show ?thesis
    using that[OF tm] plain ct'(1) by (simp add: p' ct'_def with_rules_def)
qed

lemma switched_with_rules:
  "switched_to on (with_rules p te ct cl) = with_rules p te (map_nodes (flagged on) ct) cl"
  by (simp add: switched_to_def with_rules_def)

lemma with_rules_self: "with_rules p (te_avtab p) (te_cond_avtab p) (cond_list p) = p"
  by (simp add: with_rules_def)

lemma optimize_preserves:
  fixes s t :: context_struct
  assumes o: "policydb_optimize m p = Inr p'" and p: "optimizable p"
    and on: "switched_together on (cond_list p)" and pl: "plain_type p (type s)" "plain_type p (type t)"
  shows "context_struct_compute_av fuel (switched_to on p') s t tclass r =
      context_struct_compute_av fuel (switched_to on p) s t tclass r"
    and "arr (type_attr_map p) (unat (type s - 1)) = Some sattr \<Longrightarrow>
       arr (type_attr_map p) (unat (type t - 1)) = Some tattr \<Longrightarrow>
       scope_grants (ebits sattr) (ebits tattr) tclass (in_force on (te_avtab p') (te_cond_avtab p') {}) =
       scope_grants (ebits sattr) (ebits tattr) tclass (in_force on (te_avtab p) (te_cond_avtab p) {})"
proof -
  obtain tm m1 m2 where tm: "build_type_map m1 p = Inr (tm, m2)"
    and p': "p' = with_rules p (te_avtab p') (te_cond_avtab p') (cond_list p')"
    and ok': "plain_rules (te_avtab p')" "rules_ok (te_cond_avtab p')"
    and eq: "\<forall>A B cls. closed_types tm A \<longrightarrow> closed_types tm B \<longrightarrow>
      scope_grants A B cls (in_force on (te_avtab p') (te_cond_avtab p') {}) =
      scope_grants A B cls (in_force on (te_avtab p) (te_cond_avtab p) {})"
    by (rule policydb_optimize_kept[OF o p on])
  have ag: "type_maps_agree p" and ok: "plain_rules (te_avtab p)" "rules_ok (te_cond_avtab p)"
    and b: "bounds_plain p"
    using p by (auto simp: optimizable_def cond_rules_ok_def)
  have cl: "closed_types tm (ebits a)" and wf: "wf_ebitmap a"
    if "plain_type p x" "arr (type_attr_map p) (unat (x - 1)) = Some a" for x a
    using attributes_closed[OF tm ag, of "x - 1" a] that ag by (auto simp: type_maps_agree_def dest: arr_in_set)
  have g: "scope_grants (ebits a) (ebits b) tclass (in_force on (te_avtab p') (te_cond_avtab p') {}) =
       scope_grants (ebits a) (ebits b) tclass (in_force on (te_avtab p) (te_cond_avtab p) {})"
    if "plain_type p x" "arr (type_attr_map p) (unat (x - 1)) = Some a"
      "plain_type p y" "arr (type_attr_map p) (unat (y - 1)) = Some b" for x y a b
    using eq cl that by blast
  show "arr (type_attr_map p) (unat (type s - 1)) = Some sattr \<Longrightarrow>
       arr (type_attr_map p) (unat (type t - 1)) = Some tattr \<Longrightarrow>
       scope_grants (ebits sattr) (ebits tattr) tclass (in_force on (te_avtab p') (te_cond_avtab p') {}) =
       scope_grants (ebits sattr) (ebits tattr) tclass (in_force on (te_avtab p) (te_cond_avtab p) {})"
    using g pl by blast
  let ?q = "with_rules p (te_avtab p') (map_nodes (flagged on) (te_cond_avtab p')) (cond_list p')"
  let ?p = "with_rules p (te_avtab p) (map_nodes (flagged on) (te_cond_avtab p)) (cond_list p)"
  have q: "switched_to on p' = ?q" using switched_with_rules p' by metis
  have p0: "switched_to on p = ?p" using switched_with_rules with_rules_self by metis
  show "context_struct_compute_av fuel (switched_to on p') s t tclass r =
      context_struct_compute_av fuel (switched_to on p) s t tclass r"
    unfolding q p0
  proof (rule compute_av_with_rules[OF b _ pl])
    fix s t :: context_struct and a b
    assume st: "plain_type p (type s)" "plain_type p (type t)"
      "arr (type_attr_map p) (unat (type s - 1)) = Some a" "arr (type_attr_map p) (unat (type t - 1)) = Some b"
    show "te_decision ?q tclass a b = te_decision ?p tclass a b"
      using te_decision_switched_eq[OF ok ok' wf[OF st(1,3)] wf[OF st(2,4)] g[OF st(1,3,2,4)]]
      by (simp only: q p0)
  qed
qed

end
