(* ===== verification/Optimize_Properties.thy ===== *)
theory Optimize_Properties
  imports Optimize_Props Example_Policy
begin

text \<open>
  The property of the optimiser, with an example in which a rule for a type is covered by a rule
  for an attribute.
\<close>

text \<open>\<open>user_t\<close> and \<open>app_t\<close> of \<open>demo\<close> belong to the attribute \<open>domain\<close>, which may signal itself.\<close>

definition demo_attr :: policydb where
  "demo_attr = demo\<lparr>
     p_types := one_slot 3 [(''app_t'', demo_type 2 1), (''domain'', (demo_type 3 0)\<lparr>type_flavor := 1, type_types := bits64 3\<rparr>),
       (''user_t'', demo_type 1 0)],
     p_type_val_to_name := [Some ''user_t'', Some ''app_t'', Some ''domain''],
     type_val_to_struct := [Some (demo_type 1 0), Some (demo_type 2 1),
       Some ((demo_type 3 0)\<lparr>type_flavor := 1, type_types := bits64 3\<rparr>)],
     type_attr_map := [bits64 5, bits64 6, bits64 4], attr_type_map := [bits64 1, bits64 2, bits64 3],
     te_avtab := one_chain [demo_rule 1 1 1 AVTAB_ALLOWED 2 1, demo_rule 2 1 1 AVTAB_ALLOWED 6 2,
       demo_rule 3 3 1 AVTAB_ALLOWED 2 3]\<rparr>"

lemma demo_attr_optimized:
  "case policydb_optimize 40 demo_attr of
     Inl _ \<Rightarrow> False
   | Inr p' \<Rightarrow> te_avtab p' = one_chain [demo_rule 2 1 1 AVTAB_ALLOWED 4 2, demo_rule 3 3 1 AVTAB_ALLOWED 2 3]"
  by code_simp

text \<open>C13: optimising a policy does not change what it means. For every pair of types, and whichever
  conditional rules are switched on (as long as the rules of a list are switched together), the
  rules in force grant the same permissions, audit settings and extended permissions before and
  after, and the access decisions of the server, type bounds included, are the same.\<close>

theorem optimized_policy_equivalent:
  assumes "policydb_optimize m p = Inr p'" and "optimizable p" and "switched_together on (cond_list p)"
    and "plain_type p (type s)" and "plain_type p (type t)"
  shows "context_struct_compute_av fuel (switched_to on p') s t tclass requested =
      context_struct_compute_av fuel (switched_to on p) s t tclass requested \<and>
    (\<forall>sattr tattr. arr (type_attr_map p) (unat (type s - 1)) = Some sattr \<longrightarrow>
       arr (type_attr_map p) (unat (type t - 1)) = Some tattr \<longrightarrow>
       scope_grants (ebits sattr) (ebits tattr) tclass (in_force on (te_avtab p') (te_cond_avtab p') {}) =
       scope_grants (ebits sattr) (ebits tattr) tclass (in_force on (te_avtab p) (te_cond_avtab p) {}))"
  using optimize_preserves[OF assms] by blast

lemma demo_attr_plain: "plain_type demo_attr x \<longleftrightarrow> x = 1 \<or> x = 2"
proof -
  have "unat (x - 1) = 0 \<longleftrightarrow> x = 1" by (simp add: unat_eq_zero)
  moreover have "unat (x - 1) = Suc 0 \<longleftrightarrow> x = 2"
  proof -
    have "unat (x - 1) = Suc 0 \<longleftrightarrow> x - 1 = 1" using word_unat_eq_iff[of "x - 1" 1] by simp
    then show ?thesis by (simp add: diff_eq_eq)
  qed
  moreover have "type_val_to_struct demo_attr = [Some (demo_type 1 0), Some (demo_type 2 1),
       Some ((demo_type 3 0)\<lparr>type_flavor := 1, type_types := bits64 3\<rparr>)]"
    by (simp add: demo_attr_def)
  ultimately show ?thesis
    by (auto simp: plain_type_def ptr_arr_def demo_type_def less_Suc_eq numeral_3_eq_3)
qed

lemma small_bits:
  "i \<in> ebits (bits64 1) \<longleftrightarrow> unat i = 0" "i \<in> ebits (bits64 2) \<longleftrightarrow> unat i = 1"
  "i \<in> ebits (bits64 3) \<longleftrightarrow> unat i = 0 \<or> unat i = 1" "i \<in> ebits (bits64 5) \<longleftrightarrow> unat i = 0 \<or> unat i = 2"
  "i \<in> ebits (bits64 6) \<longleftrightarrow> unat i = 1 \<or> unat i = 2"
proof -
  have b: "i \<in> ebits (bits64 (2 ^ k)) \<longleftrightarrow> unat i = k" if "k < 64" for k
    using that unfolding in_bits64 bit_exp_iff possible_bit_word by auto
  have c: "i \<in> ebits (bits64 (2 ^ k OR 2 ^ j)) \<longleftrightarrow> unat i = k \<or> unat i = j" if "k < 64" "j < 64" for k j
    using that unfolding in_bits64 bit_or_iff bit_exp_iff possible_bit_word by auto
  show "i \<in> ebits (bits64 1) \<longleftrightarrow> unat i = 0" "i \<in> ebits (bits64 2) \<longleftrightarrow> unat i = 1"
    using b[of 0] b[of 1] by simp_all
  show "i \<in> ebits (bits64 3) \<longleftrightarrow> unat i = 0 \<or> unat i = 1" using c[of 0 1] by simp
  show "i \<in> ebits (bits64 5) \<longleftrightarrow> unat i = 0 \<or> unat i = 2" using c[of 0 2] by simp
  show "i \<in> ebits (bits64 6) \<longleftrightarrow> unat i = 1 \<or> unat i = 2" using c[of 1 2] by simp
qed

lemma demo_attr_maps: "type_maps_agree demo_attr"
proof -
  have x: "x = 0 \<or> x = 1" if "plain_type demo_attr (x + 1)" for x
    using that by (auto simp: demo_attr_plain eq_diff_eq[symmetric])
  have attr: "is_attribute demo_attr k \<longleftrightarrow> k = 2" for k
    by (auto simp: is_attribute_def arr_def demo_attr_def demo_type_def less_Suc_eq numeral_3_eq_3)
  have maps: "type_attr_map demo_attr = [bits64 5, bits64 6, bits64 4]"
    "attr_type_map demo_attr = [bits64 1, bits64 2, bits64 3]" "nprim (p_types demo_attr) = 3"
    "length (type_val_to_struct demo_attr) = 3"
    by (simp_all add: demo_attr_def one_slot_def)
  have u: "unat (a :: u32) = 0 \<longleftrightarrow> a = 0" "unat a = Suc 0 \<longleftrightarrow> a = 1" "unat a = 2 \<longleftrightarrow> a = 2" for a :: u32
    using word_unat_eq_iff[of a 0] word_unat_eq_iff[of a 1] word_unat_eq_iff[of a 2] by simp_all
  show ?thesis
    unfolding type_maps_agree_def maps attr
    by (auto dest!: x simp: arr_def small_bits u)
qed

lemma demo_kind [simp]: "node_kind (demo_rule s t c 1 d a) = 1" "single_kind (demo_rule s t c 1 d a)"
proof -
  show k: "node_kind (demo_rule s t c 1 d a) = 1" by (simp add: node_kind_def demo_rule_def rule_kind_def)
  show "single_kind (demo_rule s t c 1 d a)"
    unfolding single_kind_def k by (auto simp: xperms_full_def demo_rule_def intro!: exI[of _ 0])
qed

lemma wf_one_chain:
  "chain_sorted ns \<Longrightarrow> wf_avtab (one_chain ns)"
  by (auto simp: wf_avtab_def one_chain_def av_slots_ok_def avtab_hash_def Let_def intro!: exI[of _ 0])

lemma demo_attr_ok: "optimizable demo_attr"
proof -
  have te: "te_avtab demo_attr = one_chain [demo_rule 1 1 1 1 2 1, demo_rule 2 1 1 1 6 2, demo_rule 3 3 1 1 2 3]"
    and ct: "te_cond_avtab demo_attr = one_chain [demo_rule 1 1 1 1 8 11, demo_rule 2 1 1 1 16 12]"
    by (simp_all add: demo_attr_def demo_def)
  have sorted: "chain_sorted [demo_rule 1 1 1 1 2 1, demo_rule 2 1 1 1 6 2, demo_rule 3 3 1 1 2 3]"
    "chain_sorted [demo_rule 1 1 1 1 8 11, demo_rule 2 1 1 1 16 12]"
    by (simp_all add: chain_sorted_Cons key_before_def demo_rule_def)
  have "plain_rules (te_avtab demo_attr)"
    unfolding te plain_rules_def rules_ok_def using wf_one_chain[OF sorted(1)]
    by (simp add: av_nodes_def one_chain_def) (simp add: demo_rule_def)
  moreover have "cond_rules_ok (te_cond_avtab demo_attr)"
    unfolding ct cond_rules_ok_def rules_ok_def using wf_one_chain[OF sorted(2)]
    by (simp add: av_nodes_def one_chain_def) (simp add: demo_rule_def)
  moreover have "bounds_plain demo_attr"
  proof -
    have "bound_of demo_attr 1 = 0" "bound_of demo_attr 2 = 1" by code_simp+
    then show ?thesis by (auto simp: bounds_plain_def demo_attr_plain)
  qed
  moreover have "distinct (rule_lists (cond_list demo_attr))"
    by (simp add: rule_lists_def demo_attr_def demo_def demo_cond_def)
  ultimately show ?thesis using demo_attr_maps by (simp add: optimizable_def)
qed

theorem optimized_policy_equivalent_witness:
  "\<exists>p'. policydb_optimize 40 demo_attr = Inr p' \<and> length (av_nodes (te_avtab p')) = 2 \<and>
     (\<forall>fuel r. context_struct_compute_av fuel (switched_to {12} p') (demo_context 2 1) (demo_context 2 1) 1 r =
        context_struct_compute_av fuel (switched_to {12} demo_attr) (demo_context 2 1) (demo_context 2 1) 1 r)"
proof -
  obtain p' where o: "policydb_optimize 40 demo_attr = Inr p'"
    and t: "te_avtab p' = one_chain [demo_rule 2 1 1 AVTAB_ALLOWED 4 2, demo_rule 3 3 1 AVTAB_ALLOWED 2 3]"
    using demo_attr_optimized by (auto split: sum.splits)
  have "switched_together {12} (cond_list demo_attr)"
    by (simp add: switched_together_def uniform_def demo_attr_def demo_def demo_cond_def)
  then have "context_struct_compute_av fuel (switched_to {12} p') (demo_context 2 1) (demo_context 2 1) 1 r =
      context_struct_compute_av fuel (switched_to {12} demo_attr) (demo_context 2 1) (demo_context 2 1) 1 r" for fuel r
    using optimized_policy_equivalent[OF o demo_attr_ok, of "{12}" "demo_context 2 1" "demo_context 2 1" fuel 1 r]
    by (simp add: demo_attr_plain demo_context_def)
  then show ?thesis using o t by (intro exI[of _ p']) (simp add: av_nodes_def one_chain_def)
qed

end
