(* ===== verification/Assertion.thy ===== *)
theory Assertion
  imports Optimize
begin

text \<open>
  The neverallow check, \<^verbatim>\<open>src/assertion.c\<close>: the assertions of the base module are compared with
  the rules of the expanded policy. \<open>check_assertion\<close> decides whether a rule violates an
  assertion, the reporting functions count the violations (their messages are left out), and
  \<open>check_assertions\<close> fails when the count is not zero.

  The callbacks of \<^verbatim>\<open>avtab_map\<close> thread the allocation budget and the counter \<^verbatim>\<open>errors\<close> of
  \<^verbatim>\<open>struct avtab_match_args\<close>; an error code is kept beside them, since the callback returns
  an integer.
\<close>

abbreviation (input) "AVRULE_NEVERALLOW \<equiv> 0x0080"
abbreviation (input) "AVRULE_XPERMS_NEVERALLOW \<equiv> 0x0800"

definition is_self :: "avrule \<Rightarrow> bool" where
  "is_self r \<longleftrightarrow> avr_flags r AND RULE_SELF \<noteq> 0"

definition is_notself :: "avrule \<Rightarrow> bool" where
  "is_notself r \<longleftrightarrow> avr_flags r AND RULE_NOTSELF \<noteq> 0"

definition match_any_class_permissions :: "class_perm_node list \<Rightarrow> u32 \<Rightarrow> u32 \<Rightarrow> bool" where
  "match_any_class_permissions cps cls d =
     list_ex (\<lambda>c. cp_tclass c = cls \<and> cp_data c AND d \<noteq> 0) cps"

text \<open>\<^verbatim>\<open>&p->attr_type_map[t - 1]\<close>.\<close>

definition attr_types :: "policydb \<Rightarrow> u16 \<Rightarrow> errcode + ebitmap" where
  "attr_types p t =
     (if t = 0 then Inl UNDEF
      else case arr (attr_type_map p) (unat t - 1) of None \<Rightarrow> Inl UNDEF | Some e \<Rightarrow> Inr e)"

section \<open>Extended permissions\<close>

definition extended_permissions_and :: "u32 list \<Rightarrow> u32 list \<Rightarrow> bool" where
  "extended_permissions_and p1 p2 = list_ex (\<lambda>(a, b). a AND b \<noteq> 0) (zip p1 p2)"

definition check_extended_permissions :: "av_extended_perms \<Rightarrow> avtab_extended_perms \<Rightarrow> bool" where
  "check_extended_permissions na al =
     (if avx_specified na = AVTAB_XPERMS_IOCTLFUNCTION \<and> xspecified al = AVTAB_XPERMS_IOCTLFUNCTION
      then avx_driver na = driver al \<and> extended_permissions_and (avx_perms na) (perms al)
      else if avx_specified na = AVTAB_XPERMS_IOCTLFUNCTION \<and> xspecified al = AVTAB_XPERMS_IOCTLDRIVER
      then xperm_test (avx_driver na) (perms al)
      else if avx_specified na = AVTAB_XPERMS_IOCTLDRIVER \<and> xspecified al = AVTAB_XPERMS_IOCTLFUNCTION
      then xperm_test (driver al) (avx_perms na)
      else if avx_specified na = AVTAB_XPERMS_IOCTLDRIVER \<and> xspecified al = AVTAB_XPERMS_IOCTLDRIVER
      then extended_permissions_and (avx_perms na) (perms al)
      else if avx_specified na = AVTAB_XPERMS_NLMSG \<and> xspecified al = AVTAB_XPERMS_NLMSG
      then avx_driver na = driver al \<and> extended_permissions_and (avx_perms na) (perms al)
      else False)"

text \<open>The part of the rule that violates the assertion; \<open>res\<close> is the buffer before the call.\<close>

definition extended_permissions_violated ::
  "avtab_extended_perms \<Rightarrow> av_extended_perms \<Rightarrow> avtab_extended_perms \<Rightarrow> avtab_extended_perms" where
  "extended_permissions_violated res na al =
     (let both = map2 (AND) (avx_perms na) (perms al)
      in if avx_specified na = AVTAB_XPERMS_IOCTLFUNCTION \<and> xspecified al = AVTAB_XPERMS_IOCTLFUNCTION
         then res\<lparr>xspecified := AVTAB_XPERMS_IOCTLFUNCTION, driver := driver al, perms := both\<rparr>
         else if avx_specified na = AVTAB_XPERMS_IOCTLFUNCTION \<and> xspecified al = AVTAB_XPERMS_IOCTLDRIVER
         then res\<lparr>xspecified := AVTAB_XPERMS_IOCTLFUNCTION, driver := avx_driver na, perms := avx_perms na\<rparr>
         else if avx_specified na = AVTAB_XPERMS_IOCTLDRIVER \<and> xspecified al = AVTAB_XPERMS_IOCTLFUNCTION
         then res\<lparr>xspecified := AVTAB_XPERMS_IOCTLFUNCTION, driver := driver al, perms := perms al\<rparr>
         else if avx_specified na = AVTAB_XPERMS_IOCTLDRIVER \<and> xspecified al = AVTAB_XPERMS_IOCTLDRIVER
         then res\<lparr>xspecified := AVTAB_XPERMS_IOCTLDRIVER, perms := both\<rparr>
         else if avx_specified na = AVTAB_XPERMS_NLMSG \<and> xspecified al = AVTAB_XPERMS_NLMSG
         then res\<lparr>xspecified := AVTAB_XPERMS_NLMSG, driver := driver al, perms := both\<rparr>
         else res)"

definition match_node_key :: "avtab_node \<Rightarrow> avtab_key \<Rightarrow> bool" where
  "match_node_key n k \<longleftrightarrow> source_type (key n) = source_type k \<and> target_type (key n) = target_type k \<and>
     target_class (key n) = target_class k"

definition known_xperms :: "avtab_extended_perms \<Rightarrow> bool" where
  "known_xperms x \<longleftrightarrow> \<not> (xspecified x \<noteq> AVTAB_XPERMS_IOCTLFUNCTION \<and>
     xspecified x \<noteq> AVTAB_XPERMS_IOCTLDRIVER \<and> xspecified x \<noteq> AVTAB_XPERMS_NLMSG)"

text \<open>
  \<^verbatim>\<open>check_extended_permissions(narule->xperms, xperms)\<close>, with a null pointer followed when the
  assertion has no extended permissions.
\<close>

definition xperms_hit :: "avrule \<Rightarrow> avtab_extended_perms \<Rightarrow> errcode + bool" where
  "xperms_hit r x =
     (case avr_xperms r of None \<Rightarrow> Inl UNDEF | Some na \<Rightarrow> Inr (check_extended_permissions na x))"

text \<open>
  The functions below scan the rules for a source and a target type. \<open>report\<close> selects the
  version of the report, which counts all violations; the check returns at the first one.
  First the loop over the unconditional rules of a key: was a rule with extended permissions
  found, and how many violations?
\<close>

fun scan_xperms :: "bool \<Rightarrow> avrule \<Rightarrow> avtab_node list \<Rightarrow> errcode + bool \<times> nat" where
  "scan_xperms report r [] = Inr (False, 0)"
| "scan_xperms report r (n # ns) =
     (case xperms (datum n) of
        None \<Rightarrow> Inl UNDEF
      | Some x \<Rightarrow>
          if \<not> known_xperms x then scan_xperms report r ns
          else rbind (xperms_hit r x) (\<lambda>hit.
            if hit \<and> \<not> report then Inr (True, 1)
            else rbind (scan_xperms report r ns) (\<lambda>(_, bad).
              Inr (True, if hit then Suc bad else bad))))"

text \<open>
  One list of a conditional: the flags \<^verbatim>\<open>found_*_base\<close> and \<^verbatim>\<open>found_*_xperm\<close>, and the number of
  violations. The report does not look at \<^verbatim>\<open>AVTAB_ALLOWED\<close>.
\<close>

fun scan_cond_side ::
  "bool \<Rightarrow> avtab \<Rightarrow> avrule \<Rightarrow> avtab_key \<Rightarrow> cond_av_list \<Rightarrow> errcode + bool \<times> bool \<times> nat" where
  "scan_cond_side report ct r k [] = Inr (False, False, 0)"
| "scan_cond_side report ct r k (a # l) =
     rbind (node_at ct a) (\<lambda>n.
       if \<not> match_node_key n k then scan_cond_side report ct r k l
       else if (report \<or> specified (key n) AND AVTAB_ALLOWED \<noteq> 0) \<and>
               match_any_class_permissions (avr_perms r) (ucast (target_class (key n))) (data (datum n))
       then rbind (scan_cond_side report ct r k l) (\<lambda>(_, xp, bad). Inr (True, xp, bad))
       else if specified (key n) AND AVTAB_XPERMS_ALLOWED = 0 then scan_cond_side report ct r k l
       else case xperms (datum n) of
         None \<Rightarrow> Inl UNDEF
       | Some x \<Rightarrow>
           if \<not> known_xperms x then scan_cond_side report ct r k l
           else rbind (xperms_hit r x) (\<lambda>hit.
             if hit \<and> \<not> report then Inr (False, True, 1)
             else rbind (scan_cond_side report ct r k l) (\<lambda>(base, _, bad).
               Inr (base, True, if hit then Suc bad else bad))))"

text \<open>The loop over the conditionals: \<^verbatim>\<open>found_xperm\<close>, \<^verbatim>\<open>found_cond_conflict\<close>, violations.\<close>

fun scan_conds ::
  "bool \<Rightarrow> bool \<Rightarrow> avtab \<Rightarrow> avrule \<Rightarrow> avtab_key \<Rightarrow> cond_node list \<Rightarrow> errcode + bool \<times> bool \<times> nat" where
  "scan_conds report conditional ct r k [] = Inr (False, False, 0)"
| "scan_conds report conditional ct r k (c # cs) =
     rbind (scan_cond_side report ct r k (true_list c)) (\<lambda>(true_base, true_xperm, bad1).
     if 0 < bad1 \<and> \<not> report then Inr (False, False, bad1)
     else rbind (scan_cond_side report ct r k (false_list c)) (\<lambda>(false_base, false_xperm, bad2).
     if 0 < bad2 \<and> \<not> report then Inr (False, False, bad2)
     else rbind (scan_conds report conditional ct r k cs) (\<lambda>(found, conflict, bad).
       if true_xperm \<and> false_xperm then Inr (True, conflict, bad1 + bad2 + bad)
       else if conditional \<and> (true_base \<and> \<not> true_xperm \<or> false_base \<and> \<not> false_xperm)
       then Inr (found, True, bad1 + bad2 + bad)
       else Inr (found, conflict, bad1 + bad2 + bad))))"

fun scan_pairs ::
  "bool \<Rightarrow> bool \<Rightarrow> policydb \<Rightarrow> avrule \<Rightarrow> u16 \<Rightarrow> (u32 \<times> u32) list \<Rightarrow> errcode + bool \<times> bool \<times> nat" where
  "scan_pairs report conditional p r cls [] = Inr (False, False, 0)"
| "scan_pairs report conditional p r cls ((i, j) # ps) =
     (let k = \<lparr>source_type = ucast (i + 1), target_type = ucast (j + 1), target_class = cls,
               specified = AVTAB_XPERMS_ALLOWED\<rparr>
      in rbind (scan_xperms report r (avtab_visit (te_avtab p) k)) (\<lambda>(found1, bad1).
         if 0 < bad1 \<and> \<not> report then Inr (found1, False, bad1)
         else rbind (scan_conds report conditional (te_cond_avtab p) r k (cond_list p)) (\<lambda>(found2, conflict2, bad2).
         if 0 < bad2 \<and> \<not> report then Inr (found2, conflict2, bad2)
         else rbind (scan_pairs report conditional p r cls ps) (\<lambda>(found, conflict, bad).
           Inr (found1 \<or> found2 \<or> found, conflict2 \<or> conflict, bad1 + bad2 + bad)))))"

text \<open>The scan over all attributes of a source and a target type (bit numbers).\<close>

definition scan_assertion ::
  "bool \<Rightarrow> bool \<Rightarrow> policydb \<Rightarrow> avrule \<Rightarrow> u32 \<Rightarrow> u32 \<Rightarrow> u16 \<Rightarrow> errcode + bool \<times> bool \<times> nat" where
  "scan_assertion report conditional p r stype ttype cls =
     (case (arr (type_attr_map p) (unat stype), arr (type_attr_map p) (unat ttype)) of
        (Some sattr, Some tattr) \<Rightarrow>
          scan_pairs report conditional p r cls
            (List.product (ebitmap_positive_bits sattr) (ebitmap_positive_bits tattr))
      | _ \<Rightarrow> Inl UNDEF)"

definition check_assertion_extended_permissions_avtab ::
  "avrule \<Rightarrow> u32 \<Rightarrow> u32 \<Rightarrow> avtab_key \<Rightarrow> policydb \<Rightarrow> bool \<Rightarrow> errcode + bool" where
  "check_assertion_extended_permissions_avtab r stype ttype k p conditional =
     rbind (scan_assertion False conditional p r stype ttype (target_class k)) (\<lambda>(found, conflict, bad).
       Inr (0 < bad \<or> \<not> conditional \<and> \<not> found \<or> conflict))"

definition report_assertion_extended_permissions ::
  "policydb \<Rightarrow> avrule \<Rightarrow> u32 \<Rightarrow> u32 \<Rightarrow> avtab_key \<Rightarrow> bool \<Rightarrow> errcode + nat" where
  "report_assertion_extended_permissions p r stype ttype k conditional =
     rbind (scan_assertion True conditional p r stype ttype (target_class k)) (\<lambda>(found, conflict, bad).
       Inr (if \<not> found \<and> \<not> conditional \<or> conflict then Suc bad else bad))"

section \<open>Matching types\<close>

text \<open>The targets: of the form \<^verbatim>\<open>~self\<close>, \<^verbatim>\<open>{ATTR -self}\<close>, or a set that may contain \<^verbatim>\<open>self\<close>.\<close>

definition notself_targets :: "mem \<Rightarrow> avrule \<Rightarrow> ebitmap \<Rightarrow> errcode + ebitmap \<times> mem" where
  "notself_targets m r ta =
     (if ebitmap_is_empty (ts_types (avr_ttypes r)) then ebitmap_cpy m ta
      else ebitmap_and m (ts_types (avr_ttypes r)) ta)"

definition assertion_targets :: "mem \<Rightarrow> avrule \<Rightarrow> ebitmap \<Rightarrow> ebitmap \<Rightarrow> errcode + ebitmap \<times> mem" where
  "assertion_targets m r src ta =
     (if is_notself r then notself_targets m r ta
      else rbind (ebitmap_and m (ts_types (avr_ttypes r)) ta) (\<lambda>(tgt, m).
        if is_self r then
          rbind (ebitmap_and m src ta) (\<lambda>(slf, m).
            if \<not> ebitmap_is_empty slf then ebitmap_union m tgt slf else Inr (tgt, m))
        else Inr (tgt, m)))"

text \<open>
  The types of the assertion that a rule speaks about, as the check of extended permissions and
  the report compute them: \<open>None\<close> when one of the sets is empty.
\<close>

definition assertion_matches ::
  "mem \<Rightarrow> policydb \<Rightarrow> avrule \<Rightarrow> avtab_key \<Rightarrow> errcode + (ebitmap \<times> ebitmap) option \<times> mem" where
  "assertion_matches m p r k =
     rbind (attr_types p (source_type k)) (\<lambda>sa.
     rbind (ebitmap_and m (ts_types (avr_stypes r)) sa) (\<lambda>(src, m).
       if ebitmap_is_empty src then Inr (None, m)
       else rbind (attr_types p (target_type k)) (\<lambda>ta.
       rbind (assertion_targets m r src ta) (\<lambda>(tgt, m).
         Inr (if ebitmap_is_empty tgt then None else Some (src, tgt), m)))))"

text \<open>The pairs that are not skipped.\<close>

definition assertion_pairs :: "avrule \<Rightarrow> ebitmap \<Rightarrow> ebitmap \<Rightarrow> (u32 \<times> u32) list" where
  "assertion_pairs r src tgt =
     filter (\<lambda>(i, j). \<not> (is_self r \<and> i \<noteq> j) \<and> \<not> (is_notself r \<and> i = j))
       (List.product (ebitmap_positive_bits src) (ebitmap_positive_bits tgt))"

fun any_xperms_pair :: "avrule \<Rightarrow> (u32 \<times> u32) list \<Rightarrow> avtab_key \<Rightarrow> policydb \<Rightarrow> bool \<Rightarrow> errcode + bool" where
  "any_xperms_pair r [] k p conditional = Inr False"
| "any_xperms_pair r ((i, j) # ps) k p conditional =
     rbind (check_assertion_extended_permissions_avtab r i j k p conditional) (\<lambda>b.
       if b then Inr True else any_xperms_pair r ps k p conditional)"

definition check_assertion_extended_permissions ::
  "mem \<Rightarrow> avrule \<Rightarrow> avtab_key \<Rightarrow> policydb \<Rightarrow> bool \<Rightarrow> errcode + bool \<times> mem" where
  "check_assertion_extended_permissions m r k p conditional =
     rbind (assertion_matches m p r k) (\<lambda>(o', m).
       case o' of
         None \<Rightarrow> Inr (False, m)
       | Some (src, tgt) \<Rightarrow>
           rbind (any_xperms_pair r (assertion_pairs r src tgt) k p conditional) (\<lambda>b. Inr (b, m)))"

definition check_assertion_notself_match ::
  "mem \<Rightarrow> avtab_key \<Rightarrow> avrule \<Rightarrow> policydb \<Rightarrow> errcode + bool \<times> mem" where
  "check_assertion_notself_match m k r p =
     rbind (attr_types p (source_type k)) (\<lambda>sa.
     rbind (ebitmap_and m (ts_types (avr_stypes r)) sa) (\<lambda>(src, m).
     rbind (attr_types p (target_type k)) (\<lambda>ta.
     rbind (notself_targets m r ta) (\<lambda>(tgt, m).
       let ns = ebitmap_cardinality src; nt = ebitmap_cardinality tgt
       in if ns = 0 \<or> nt = 0 then Inr (False, m)
          else if ns = 1 \<and> nt = 1 then
            rbind (ebitmap_and m src tgt) (\<lambda>(both, m). Inr (ebitmap_cardinality both \<noteq> 1, m))
          else Inr (True, m)))))"

definition check_assertion_self_match ::
  "mem \<Rightarrow> avtab_key \<Rightarrow> avrule \<Rightarrow> policydb \<Rightarrow> errcode + bool \<times> mem" where
  "check_assertion_self_match m k r p =
     rbind (attr_types p (source_type k)) (\<lambda>sa.
     rbind (ebitmap_and m (ts_types (avr_stypes r)) sa) (\<lambda>(src, m).
     rbind (attr_types p (target_type k)) (\<lambda>ta. Inr (ebitmap_match_any src ta, m))))"

section \<open>The check of one assertion\<close>

definition check_assertion_avtab_match ::
  "policydb \<Rightarrow> avrule \<Rightarrow> bool \<Rightarrow> avtab_key \<Rightarrow> avtab_datum \<Rightarrow> mem \<Rightarrow> errcode + bool \<times> mem" where
  "check_assertion_avtab_match p r conditional k d m =
     (if specified k AND AVTAB_ALLOWED = 0 then Inr (False, m)
      else if \<not> match_any_class_permissions (avr_perms r) (ucast (target_class k)) (data d) then Inr (False, m)
      else rbind (attr_types p (source_type k)) (\<lambda>sa.
        if \<not> ebitmap_match_any (ts_types (avr_stypes r)) sa then Inr (False, m)
        else rbind (if is_notself r then check_assertion_notself_match m k r p
                    else rbind (attr_types p (target_type k)) (\<lambda>ta.
                      if ebitmap_match_any (ts_types (avr_ttypes r)) ta then Inr (True, m)
                      else if avr_flags r = RULE_SELF then check_assertion_self_match m k r p
                      else Inr (False, m))) (\<lambda>(matched, m).
          if \<not> matched then Inr (False, m)
          else if avr_specified r = AVRULE_XPERMS_NEVERALLOW
          then check_assertion_extended_permissions m r k p conditional
          else Inr (True, m))))"

text \<open>A callback of \<^verbatim>\<open>avtab_map\<close> that may fail: its state is the error and the callback's own.\<close>

definition failing ::
  "(avtab_key \<Rightarrow> avtab_datum \<Rightarrow> 's \<Rightarrow> errcode + bool \<times> 's) \<Rightarrow> avtab_key \<Rightarrow> avtab_datum
     \<Rightarrow> errcode option \<times> 's \<Rightarrow> int \<times> errcode option \<times> 's" where
  "failing f k d s =
     (case f k d (snd s) of
        Inl err \<Rightarrow> (-1, Some err, snd s)
      | Inr (stop, s') \<Rightarrow> (if stop then 1 else 0, None, s'))"

definition avtab_try ::
  "avtab \<Rightarrow> (avtab_key \<Rightarrow> avtab_datum \<Rightarrow> 's \<Rightarrow> errcode + bool \<times> 's) \<Rightarrow> 's \<Rightarrow> errcode + bool \<times> 's" where
  "avtab_try h f s =
     (case avtab_map h (failing f) (None, s) of
        (rc, Some err, s') \<Rightarrow> Inl err
      | (rc, None, s') \<Rightarrow> Inr (rc \<noteq> 0, s'))"

definition check_assertion :: "mem \<Rightarrow> policydb \<Rightarrow> avrule \<Rightarrow> errcode + bool \<times> mem" where
  "check_assertion m p r =
     rbind (avtab_try (te_avtab p) (check_assertion_avtab_match p r False) m) (\<lambda>(found, m).
       if found then Inr (True, m)
       else avtab_try (te_cond_avtab p) (check_assertion_avtab_match p r True) m)"

section \<open>Counting the violations\<close>

text \<open>The counter is an \<^verbatim>\<open>unsigned long\<close>; the report of extended permissions returns an \<^verbatim>\<open>int\<close>.\<close>

fun report_pairs ::
  "policydb \<Rightarrow> avrule \<Rightarrow> avtab_key \<Rightarrow> bool \<Rightarrow> (u32 \<times> u32) list \<Rightarrow> u64 \<Rightarrow> errcode + u64" where
  "report_pairs p r k conditional [] errors = Inr errors"
| "report_pairs p r k conditional ((i, j) # ps) errors =
     (if avr_specified r = AVRULE_XPERMS_NEVERALLOW then
        rbind (report_assertion_extended_permissions p r i j k conditional) (\<lambda>n.
          report_pairs p r k conditional ps (errors + scast (of_nat n :: u32)))
      else report_pairs p r k conditional ps (errors + 1))"

fun report_perms ::
  "policydb \<Rightarrow> avrule \<Rightarrow> avtab_key \<Rightarrow> u32 \<Rightarrow> bool \<Rightarrow> (u32 \<times> u32) list \<Rightarrow> class_perm_node list \<Rightarrow> u64
     \<Rightarrow> errcode + u64" where
  "report_perms p r k d conditional ps [] errors = Inr errors"
| "report_perms p r k d conditional ps (c # cs) errors =
     (if cp_tclass c \<noteq> ucast (target_class k) \<or> cp_data c AND d = 0
      then report_perms p r k d conditional ps cs errors
      else rbind (report_pairs p r k conditional ps errors) (report_perms p r k d conditional ps cs))"

definition report_assertion_avtab_matches ::
  "policydb \<Rightarrow> avrule \<Rightarrow> bool \<Rightarrow> avtab_key \<Rightarrow> avtab_datum \<Rightarrow> mem \<times> u64 \<Rightarrow> errcode + bool \<times> mem \<times> u64" where
  "report_assertion_avtab_matches p r conditional k d st =
     (case st of (m, errors) \<Rightarrow>
        if specified k AND AVTAB_ALLOWED = 0 then Inr (False, m, errors)
        else if \<not> match_any_class_permissions (avr_perms r) (ucast (target_class k)) (data d)
        then Inr (False, m, errors)
        else rbind (assertion_matches m p r k) (\<lambda>(o', m).
          case o' of
            None \<Rightarrow> Inr (False, m, errors)
          | Some (src, tgt) \<Rightarrow>
              rbind (report_perms p r k (data d) conditional (assertion_pairs r src tgt) (avr_perms r) errors)
                (\<lambda>errors. Inr (False, m, errors))))"

text \<open>The count is returned as an \<^verbatim>\<open>int\<close>.\<close>

definition report_assertion_failures :: "mem \<Rightarrow> policydb \<Rightarrow> avrule \<Rightarrow> errcode + int \<times> mem" where
  "report_assertion_failures m p r =
     rbind (avtab_try (te_avtab p) (report_assertion_avtab_matches p r False) (m, 0)) (\<lambda>(_, st).
     rbind (avtab_try (te_cond_avtab p) (report_assertion_avtab_matches p r True) st) (\<lambda>(_, m, errors).
       Inr (sint (ucast errors :: u32), m)))"

section \<open>All assertions\<close>

fun check_rules :: "mem \<Rightarrow> policydb \<Rightarrow> avrule list \<Rightarrow> u64 \<Rightarrow> errcode + u64" where
  "check_rules m p [] errors = Inr errors"
| "check_rules m p (a # as) errors =
     (if avr_specified a AND (AVRULE_NEVERALLOW OR AVRULE_XPERMS_NEVERALLOW) = 0
      then check_rules m p as errors
      else rbind (check_assertion m p a) (\<lambda>(violated, m).
        if \<not> violated then check_rules m p as errors
        else rbind (report_assertion_failures m p a) (\<lambda>(rc, m).
          if rc < 0 then Inl EFAIL else check_rules m p as (errors + of_int rc))))"

definition check_assertions :: "mem \<Rightarrow> policydb \<Rightarrow> avrule list \<Rightarrow> errcode + unit" where
  "check_assertions m p narules =
     (case check_rules m p narules 0 of
        Inl UNDEF \<Rightarrow> Inl UNDEF
      | Inl _ \<Rightarrow> Inl EFAIL
      | Inr errors \<Rightarrow> if errors \<noteq> 0 then Inl EFAIL else Inr ())"

end
