(* ===== verification/Assertion_Props.thy ===== *)
theory Assertion_Props
  imports Assertion Optimize_Props
begin

text \<open>
  Soundness of the neverallow check: if it accepts, then no access decision allows what an
  assertion forbids, whatever the state of the booleans. The check finds every rule that
  contradicts an assertion, and the count of violations of such a rule is positive. For an
  assertion that names both targets and \<^verbatim>\<open>self\<close> the count misses the targets other than the
  source, and the assertion is not enforced for them.
\<close>

section \<open>Traversal\<close>

fun try_nodes ::
  "(avtab_key \<Rightarrow> avtab_datum \<Rightarrow> 's \<Rightarrow> errcode + bool \<times> 's) \<Rightarrow> avtab_node list \<Rightarrow> 's \<Rightarrow> errcode + bool \<times> 's" where
  "try_nodes f [] s = Inr (False, s)"
| "try_nodes f (n # ns) s =
     rbind (f (key n) (datum n) s) (\<lambda>(stop, s). if stop then Inr (True, s) else try_nodes f ns s)"

text \<open>The traversal with a failing callback, as a result.\<close>

definition map_result :: "int \<times> errcode option \<times> 's \<Rightarrow> errcode + bool \<times> 's" where
  "map_result r = (case r of (rc, Some err, s) \<Rightarrow> Inl err | (rc, None, s) \<Rightarrow> Inr (rc \<noteq> 0, s))"

lemma try_nodes_append:
  "try_nodes f (xs @ ys) s = rbind (try_nodes f xs s) (\<lambda>(stop, s). if stop then Inr (True, s) else try_nodes f ys s)"
proof (induction xs arbitrary: s)
  case (Cons n xs)
  then show ?case by (cases "f (key n) (datum n) s") (auto split: prod.splits)
qed simp

lemma map_chain_try:
  "map_result (avmap_chain (failing f) c (None, s)) = try_nodes f c s \<and>
   (fst (avmap_chain (failing f) c (None, s)) = 0 \<longleftrightarrow> (\<exists>s'. try_nodes f c s = Inr (False, s'))) \<and>
   (\<forall>s'. try_nodes f c s = Inr (False, s') \<longrightarrow> avmap_chain (failing f) c (None, s) = (0, None, s'))"
proof (induction c arbitrary: s)
  case (Cons n c)
  show ?case
  proof (cases "f (key n) (datum n) s")
    case (Inr x)
    obtain stop s' where "x = (stop, s')" by (cases x)
    then show ?thesis using Inr Cons.IH[of s'] by (cases stop) (simp_all add: failing_def map_result_def)
  qed (simp add: failing_def map_result_def)
qed (simp add: map_result_def)

lemma map_slots_try:
  "map_result (avmap_slots (failing f) t (None, s)) = try_nodes f (concat t) s"
proof (induction t arbitrary: s)
  case (Cons c t)
  note c = map_chain_try[of f c s]
  show ?case
  proof (cases "\<exists>s'. try_nodes f c s = Inr (False, s')")
    case True
    then obtain s' where s': "try_nodes f c s = Inr (False, s')" by blast
    then have "avmap_chain (failing f) c (None, s) = (0, None, s')" using c by blast
    then show ?thesis using Cons.IH[of s'] s' by (simp add: try_nodes_append)
  next
    case False
    obtain rc st where rc: "avmap_chain (failing f) c (None, s) = (rc, st)"
      by (cases "avmap_chain (failing f) c (None, s)")
    then have "rc \<noteq> 0" using c False by auto
    then have "map_result (avmap_slots (failing f) (c # t) (None, s)) = try_nodes f c s"
      using c by (simp add: rc)
    also have "\<dots> = try_nodes f (concat (c # t)) s"
      using False by (cases "try_nodes f c s") (auto simp: try_nodes_append split: prod.splits)
    finally show ?thesis .
  qed
qed (simp add: map_result_def)

lemma avtab_try_nodes:
  assumes "wf_avtab h"
  shows "avtab_try h f s = try_nodes f (av_nodes h) s"
proof -
  have "avtab_try h f s = map_result (avtab_map h (failing f) (None, s))"
    by (simp add: avtab_try_def map_result_def split: prod.splits option.splits)
  then show ?thesis
    using assms map_slots_try[of f "the (avtable h)" s]
    by (cases "avtable h") (simp_all add: avtab_map_def map_result_def av_nodes_def wf_avtab_def)
qed

section \<open>What an assertion forbids\<close>

definition plain_assertion :: "avrule \<Rightarrow> bool" where
  "plain_assertion r \<longleftrightarrow> avr_specified r = AVRULE_NEVERALLOW \<and> avr_flags r \<in> {0, RULE_SELF, RULE_NOTSELF} \<and>
     wf_ebitmap (ts_types (avr_stypes r)) \<and> wf_ebitmap (ts_types (avr_ttypes r))"

text \<open>
  The source and target (bit numbers) that the assertion forbids: one of its sources, and one of
  its targets or, with \<^verbatim>\<open>RULE_SELF\<close>, the source itself. With \<^verbatim>\<open>RULE_NOTSELF\<close> the targets (all types
  when none is named) but the source itself.
\<close>

definition forbids :: "avrule \<Rightarrow> u32 \<Rightarrow> u32 \<Rightarrow> bool" where
  "forbids r x y \<longleftrightarrow> x \<in> ebits (ts_types (avr_stypes r)) \<and>
     (if avr_flags r = RULE_NOTSELF
      then x \<noteq> y \<and> (ebits (ts_types (avr_ttypes r)) = {} \<or> y \<in> ebits (ts_types (avr_ttypes r)))
      else y \<in> ebits (ts_types (avr_ttypes r)) \<or> avr_flags r = RULE_SELF \<and> x = y)"

text \<open>
  What the code enforces of it: with \<^verbatim>\<open>RULE_SELF\<close> only the pairs of a type with itself (for the
  named targets see \<open>neverallow_self_not_enforced\<close>).
\<close>

definition enforced :: "avrule \<Rightarrow> u32 \<Rightarrow> u32 \<Rightarrow> bool" where
  "enforced r x y \<longleftrightarrow> x \<in> ebits (ts_types (avr_stypes r)) \<and>
     (if avr_flags r = RULE_SELF then x = y
      else if avr_flags r = RULE_NOTSELF
      then x \<noteq> y \<and> (ebits (ts_types (avr_ttypes r)) = {} \<or> y \<in> ebits (ts_types (avr_ttypes r)))
      else y \<in> ebits (ts_types (avr_ttypes r)))"

lemma forbids_enforced:
  "forbids r x y \<Longrightarrow> avr_flags r = RULE_SELF \<Longrightarrow> x = y \<Longrightarrow> enforced r x y"
  "forbids r x y \<Longrightarrow> avr_flags r \<noteq> RULE_SELF \<Longrightarrow> enforced r x y"
  by (auto simp: forbids_def enforced_def split: if_splits)

lemma plain_flags:
  assumes "plain_assertion r"
  shows "is_self r \<longleftrightarrow> avr_flags r = RULE_SELF" "is_notself r \<longleftrightarrow> avr_flags r = RULE_NOTSELF"
  using assms by (auto simp: plain_assertion_def is_self_def is_notself_def)

definition attr_maps_wf :: "policydb \<Rightarrow> bool" where
  "attr_maps_wf p \<longleftrightarrow> (\<forall>e \<in> set (attr_type_map p). wf_ebitmap e)"

lemma attr_types_wf: "attr_maps_wf p \<Longrightarrow> attr_types p t = Inr e \<Longrightarrow> wf_ebitmap e"
  by (auto simp: attr_types_def attr_maps_wf_def split: if_splits option.splits dest: arr_in_set)

lemma is_empty_iff:
  assumes "wf_ebitmap e"
  shows "ebitmap_is_empty e \<longleftrightarrow> ebits e = {}"
proof
  assume "ebits e = {}"
  then have "e = ebitmap_init" using ebits_inject[OF assms wf_ebitmap_init(1)] by simp
  then show "ebitmap_is_empty e" by (simp add: ebitmap_is_empty_def ebitmap_init_def)
qed (simp add: ebitmap_is_empty_def ebits_def)

lemma cardinality_iff:
  assumes "wf_ebitmap e"
  shows "ebitmap_cardinality e = 0 \<longleftrightarrow> ebits e = {}" "ebitmap_cardinality e = 1 \<longleftrightarrow> card (ebits e) = 1"
proof -
  have u: "unat (ebitmap_cardinality e) = card (ebits e)"
    using card_ebits_bound[OF assms] by (simp add: ebitmap_cardinality_of_nat[OF assms] unat_of_nat)
  have "ebitmap_cardinality e = 0 \<longleftrightarrow> unat (ebitmap_cardinality e) = 0" by (simp add: unat_eq_zero)
  then show "ebitmap_cardinality e = 0 \<longleftrightarrow> ebits e = {}" unfolding u by (simp add: card_eq_0_iff)
  have "ebitmap_cardinality e = 1 \<longleftrightarrow> unat (ebitmap_cardinality e) = 1"
    using word_unat_eq_iff[of "ebitmap_cardinality e" 1] by simp
  then show "ebitmap_cardinality e = 1 \<longleftrightarrow> card (ebits e) = 1" unfolding u .
qed

text \<open>The pairs of types for which a rule contradicts the assertion.\<close>

definition bad_pairs :: "avrule \<Rightarrow> ebitmap \<Rightarrow> ebitmap \<Rightarrow> (u32 \<times> u32) set" where
  "bad_pairs r sa ta = {(x, y). x \<in> ebits sa \<and> y \<in> ebits ta \<and> enforced r x y}"

lemma finite_bad_pairs: "finite (bad_pairs r sa ta)"
  by (rule finite_subset[of _ UNIV]) simp_all

lemma notself_targets_ok:
  assumes "notself_targets m r ta = Inr (tgt, m')" "wf_ebitmap ta" "wf_ebitmap (ts_types (avr_ttypes r))"
  shows "wf_ebitmap tgt" and "ebits tgt = (if ebits (ts_types (avr_ttypes r)) = {} then ebits ta
      else ebits (ts_types (avr_ttypes r)) \<inter> ebits ta)"
  using assms ebitmap_and_ok[OF assms(3,2)]
  by (auto simp: notself_targets_def is_empty_iff dest: ebitmap_cpy_ok split: if_splits)

lemma assertion_targets_ok:
  assumes t: "assertion_targets m r src ta = Inr (tgt, m')"
    and wf: "wf_ebitmap src" "wf_ebitmap ta" "wf_ebitmap (ts_types (avr_ttypes r))"
  shows "wf_ebitmap tgt \<and> ebits tgt =
      (if is_notself r then (if ebits (ts_types (avr_ttypes r)) = {} then ebits ta
         else ebits (ts_types (avr_ttypes r)) \<inter> ebits ta)
       else (ebits (ts_types (avr_ttypes r)) \<inter> ebits ta) \<union> (if is_self r then ebits src \<inter> ebits ta else {}))"
proof (cases "is_notself r")
  case True
  then show ?thesis using t notself_targets_ok[OF _ wf(2,3)] by (auto simp: assertion_targets_def)
next
  case False
  then obtain tgt1 m1 where t1: "ebitmap_and m (ts_types (avr_ttypes r)) ta = Inr (tgt1, m1)"
    using t by (auto simp: assertion_targets_def rbind_eq_Inr)
  note o1 = ebitmap_and_ok[OF wf(3,2) t1]
  show ?thesis
  proof (cases "is_self r")
    case True
    then obtain slf m2 where s: "ebitmap_and m1 src ta = Inr (slf, m2)"
      and u: "(if \<not> ebitmap_is_empty slf then ebitmap_union m2 tgt1 slf else Inr (tgt1, m2)) = Inr (tgt, m')"
      using t False by (auto simp: assertion_targets_def t1 rbind_eq_Inr)
    note o2 = ebitmap_and_ok[OF wf(1,2) s]
    show ?thesis
      using u o1 o2 ebitmap_union_ok[OF o1(1) o2(1)] False True is_empty_iff[OF o2(1)]
      by (cases "ebitmap_is_empty slf") auto
  qed (use t False o1 in \<open>auto simp: assertion_targets_def t1\<close>)
qed

lemma assertion_pairs_set:
  assumes "wf_ebitmap src" "wf_ebitmap tgt"
  shows "set (assertion_pairs r src tgt) =
      {(i, j). i \<in> ebits src \<and> j \<in> ebits tgt \<and> \<not> (is_self r \<and> i \<noteq> j) \<and> \<not> (is_notself r \<and> i = j)}"
    and "distinct (assertion_pairs r src tgt)"
proof -
  note p = ebitmap_positive_bits_spec[OF assms(1)] ebitmap_positive_bits_spec[OF assms(2)]
  show "set (assertion_pairs r src tgt) =
      {(i, j). i \<in> ebits src \<and> j \<in> ebits tgt \<and> \<not> (is_self r \<and> i \<noteq> j) \<and> \<not> (is_notself r \<and> i = j)}"
    using p by (auto simp: assertion_pairs_def)
  show "distinct (assertion_pairs r src tgt)"
    unfolding assertion_pairs_def
    by (intro distinct_filter distinct_product sorted_less_distinct p)
qed

lemma assertion_matches_pairs:
  assumes r: "plain_assertion r" and wf: "attr_maps_wf p"
    and a: "assertion_matches m p r k = Inr (o', m')"
    and sa: "attr_types p (source_type k) = Inr sa" and ta: "attr_types p (target_type k) = Inr ta"
  shows "(case o' of None \<Rightarrow> {} | Some (src, tgt) \<Rightarrow> set (assertion_pairs r src tgt)) = bad_pairs r sa ta"
    and "\<And>src tgt. o' = Some (src, tgt) \<Longrightarrow> distinct (assertion_pairs r src tgt)"
proof -
  note w = attr_types_wf[OF wf sa] attr_types_wf[OF wf ta]
  let ?S = "ts_types (avr_stypes r)" and ?T = "ts_types (avr_ttypes r)"
  have wr: "wf_ebitmap ?S" "wf_ebitmap ?T" using r by (auto simp: plain_assertion_def)
  have fl: "avr_flags r \<in> {0, 1, 2}" using r by (simp add: plain_assertion_def)
  obtain src m1 where src: "ebitmap_and m ?S sa = Inr (src, m1)"
    using a by (auto simp: assertion_matches_def sa rbind_eq_Inr)
  note s = ebitmap_and_ok[OF wr(1) w(1) src]
  have both: "(case o' of None \<Rightarrow> {} | Some (src, tgt) \<Rightarrow> set (assertion_pairs r src tgt)) = bad_pairs r sa ta \<and>
    (\<forall>src tgt. o' = Some (src, tgt) \<longrightarrow> distinct (assertion_pairs r src tgt))"
  proof (cases "ebits src = {}")
    case True
    then have "o' = None" using a s is_empty_iff[OF s(1)] by (auto simp: assertion_matches_def sa src)
    then show ?thesis using True s by (auto simp: bad_pairs_def enforced_def)
  next
    case False
    then obtain tgt m2 where t: "assertion_targets m1 r src ta = Inr (tgt, m2)"
      and o': "o' = (if ebitmap_is_empty tgt then None else Some (src, tgt))"
      using a s is_empty_iff[OF s(1)] by (auto simp: assertion_matches_def sa ta src rbind_eq_Inr)
    note t = assertion_targets_ok[OF t s(1) w(2) wr(2)]
    have tw: "wf_ebitmap tgt" using t by blast
    note ps = assertion_pairs_set[OF s(1) tw, of r]
    have "{(i, j). i \<in> ebits src \<and> j \<in> ebits tgt \<and> \<not> (is_self r \<and> i \<noteq> j) \<and> \<not> (is_notself r \<and> i = j)} =
        bad_pairs r sa ta"
      unfolding plain_flags[OF r] s(2) t[THEN conjunct2] bad_pairs_def enforced_def
      using fl by (auto split: if_splits)
    then show ?thesis using ps is_empty_iff[OF tw] by (auto simp: o' bad_pairs_def)
  qed
  then show "(case o' of None \<Rightarrow> {} | Some (src, tgt) \<Rightarrow> set (assertion_pairs r src tgt)) = bad_pairs r sa ta"
    "\<And>src tgt. o' = Some (src, tgt) \<Longrightarrow> distinct (assertion_pairs r src tgt)" by auto
qed

section \<open>Counting\<close>

definition hit_perms :: "avrule \<Rightarrow> avtab_node \<Rightarrow> class_perm_node list" where
  "hit_perms r n = filter (\<lambda>c. cp_tclass c = ucast (target_class (key n)) \<and> cp_data c AND data (datum n) \<noteq> 0)
     (avr_perms r)"

definition node_violations :: "policydb \<Rightarrow> avrule \<Rightarrow> avtab_node \<Rightarrow> nat" where
  "node_violations p r n =
     (if specified (key n) AND AVTAB_ALLOWED = 0 then 0
      else case (attr_types p (source_type (key n)), attr_types p (target_type (key n))) of
        (Inr sa, Inr ta) \<Rightarrow> length (hit_perms r n) * card (bad_pairs r sa ta)
      | _ \<Rightarrow> 0)"

definition violations :: "policydb \<Rightarrow> avrule \<Rightarrow> nat" where
  "violations p r = sum_list (map (node_violations p r) (av_nodes (te_avtab p) @ av_nodes (te_cond_avtab p)))"

lemma match_perms_iff:
  "match_any_class_permissions (avr_perms r) (ucast (target_class (key n))) (data (datum n)) \<longleftrightarrow> hit_perms r n \<noteq> []"
  by (auto simp: match_any_class_permissions_def hit_perms_def list_ex_iff filter_empty_conv)

lemma report_pairs_plain:
  "avr_specified r \<noteq> AVRULE_XPERMS_NEVERALLOW \<Longrightarrow>
     report_pairs p r k cond ps e = Inr (e + of_nat (length ps))"
  by (induction ps arbitrary: e) auto

lemma report_perms_plain:
  "avr_specified r \<noteq> AVRULE_XPERMS_NEVERALLOW \<Longrightarrow> report_perms p r k d cond ps cs e =
     Inr (e + of_nat (length (filter (\<lambda>c. cp_tclass c = ucast (target_class k) \<and> cp_data c AND d \<noteq> 0) cs) * length ps))"
  by (induction cs arbitrary: e) (auto simp: report_pairs_plain algebra_simps)

lemma report_node:
  assumes r: "plain_assertion r" and wf: "attr_maps_wf p"
    and rep: "report_assertion_avtab_matches p r cond (key n) (datum n) (m, e) = Inr (stop, m', e')"
  shows "\<not> stop \<and> e' = e + of_nat (node_violations p r n)"
proof (cases "specified (key n) AND AVTAB_ALLOWED = 0 \<or> hit_perms r n = []")
  case True
  then have z: "node_violations p r n = 0" by (auto simp: node_violations_def split: sum.splits)
  have "report_assertion_avtab_matches p r cond (key n) (datum n) (m, e) = Inr (False, m, e)"
    using True by (auto simp: report_assertion_avtab_matches_def match_perms_iff)
  then show ?thesis using rep z by simp
next
  case False
  then obtain o' m1 where a: "assertion_matches m p r (key n) = Inr (o', m1)"
    and rest: "(case o' of None \<Rightarrow> Inr (False, m1, e)
       | Some (src, tgt) \<Rightarrow> rbind (report_perms p r (key n) (data (datum n)) cond (assertion_pairs r src tgt) (avr_perms r) e)
           (\<lambda>e. Inr (False, m1, e))) = Inr (stop, m', e')"
    using rep by (auto simp: report_assertion_avtab_matches_def match_perms_iff rbind_eq_Inr split: if_splits)
  have spec: "avr_specified r \<noteq> AVRULE_XPERMS_NEVERALLOW" using r by (simp add: plain_assertion_def)
  obtain sa where sa: "attr_types p (source_type (key n)) = Inr sa"
    using a by (auto simp: assertion_matches_def rbind_eq_Inr)
  show ?thesis
  proof (cases "attr_types p (target_type (key n))")
    case (Inl err)
    then have "o' = None" using a by (auto simp: assertion_matches_def sa rbind_eq_Inr split: if_splits)
    then show ?thesis using rest Inl by (simp add: node_violations_def sa)
  next
    case (Inr ta)
    note m = assertion_matches_pairs[OF r wf a sa Inr]
    show ?thesis
    proof (cases o')
      case None
      then show ?thesis using rest m(1) by (auto simp: node_violations_def sa Inr)
    next
      case (Some st)
      obtain src tgt where st: "st = (src, tgt)" by (cases st)
      have c: "length (assertion_pairs r src tgt) = card (bad_pairs r sa ta)"
        using m distinct_card[of "assertion_pairs r src tgt"] by (simp add: Some st)
      have "stop = False \<and> e' = e + of_nat (length (hit_perms r n) * length (assertion_pairs r src tgt))"
        using rest report_perms_plain[OF spec, of p "key n" "data (datum n)"]
        by (simp add: Some st hit_perms_def)
      then show ?thesis using False by (simp add: node_violations_def sa Inr c)
    qed
  qed
qed

lemma report_nodes:
  assumes r: "plain_assertion r" and wf: "attr_maps_wf p"
  shows "try_nodes (report_assertion_avtab_matches p r cond) ns (m, e) = Inr (stop, m', e') \<Longrightarrow>
    e' = e + of_nat (sum_list (map (node_violations p r) ns))"
proof (induction ns arbitrary: m e)
  case (Cons n ns)
  obtain st m1 e1 where n: "report_assertion_avtab_matches p r cond (key n) (datum n) (m, e) = Inr (st, m1, e1)"
    and rest: "(if st then Inr (True, m1, e1) else try_nodes (report_assertion_avtab_matches p r cond) ns (m1, e1)) =
      Inr (stop, m', e')"
    using Cons.prems by (auto simp: rbind_eq_Inr)
  have "\<not> st" "e1 = e + of_nat (node_violations p r n)" using report_node[OF r wf n] by auto
  then show ?case using Cons.IH[of m1 e1] rest by (simp add: add.assoc)
qed simp

section \<open>The check finds every violation\<close>

lemma notself_match_ok:
  assumes "check_assertion_notself_match m k r p = Inr (b, m')" "attr_maps_wf p"
    "attr_types p (source_type k) = Inr sa" "attr_types p (target_type k) = Inr ta"
    "wf_ebitmap (ts_types (avr_stypes r))" "wf_ebitmap (ts_types (avr_ttypes r))"
    "x \<in> ebits (ts_types (avr_stypes r))" "x \<in> ebits sa" "y \<in> ebits ta"
    "ebits (ts_types (avr_ttypes r)) = {} \<or> y \<in> ebits (ts_types (avr_ttypes r))" "x \<noteq> y"
  shows b
proof -
  note w = attr_types_wf[OF assms(2,3)] attr_types_wf[OF assms(2,4)]
  obtain src m1 tgt m2 where s: "ebitmap_and m (ts_types (avr_stypes r)) sa = Inr (src, m1)"
    and t: "notself_targets m1 r ta = Inr (tgt, m2)"
    using assms(1) by (auto simp: check_assertion_notself_match_def assms(3,4) rbind_eq_Inr)
  note so = ebitmap_and_ok[OF assms(5) w(1) s]
  note tto = notself_targets_ok[OF t w(2) assms(6)]
  have x: "x \<in> ebits src" and y: "y \<in> ebits tgt" using so tto assms by auto
  note cs = cardinality_iff[OF so(1)] and ct = cardinality_iff[OF tto(1)]
  show b
  proof (cases "ebitmap_cardinality src = 1 \<and> ebitmap_cardinality tgt = 1")
    case True
    then have "ebits src = {x}" "ebits tgt = {y}" using x y cs(2) ct(2) by (auto simp: card_1_singleton_iff)
    then have none: "ebits src \<inter> ebits tgt = {}" using assms(11) by simp
    obtain both m3 where bm: "ebitmap_and m2 src tgt = Inr (both, m3)" and b: "b \<longleftrightarrow> ebitmap_cardinality both \<noteq> 1"
      using assms(1) True by (auto simp: check_assertion_notself_match_def assms(3,4) s t rbind_eq_Inr Let_def)
    have "ebitmap_cardinality both = 0"
      using ebitmap_and_ok[OF so(1) tto(1) bm] none cardinality_iff(1) by metis
    then show b using b by simp
  next
    case False
    have "ebitmap_cardinality src \<noteq> 0" "ebitmap_cardinality tgt \<noteq> 0" using x y cs(1) ct(1) by auto
    then show b using assms(1) False by (auto simp: check_assertion_notself_match_def assms(3,4) s t Let_def)
  qed
qed

lemma check_node:
  assumes r: "plain_assertion r" and wf: "attr_maps_wf p"
    and chk: "check_assertion_avtab_match p r cond (key n) (datum n) m = Inr (b, m')"
    and v: "0 < node_violations p r n"
  shows b
proof -
  obtain sa ta where sa: "attr_types p (source_type (key n)) = Inr sa"
    and ta: "attr_types p (target_type (key n)) = Inr ta"
    and al: "specified (key n) AND AVTAB_ALLOWED \<noteq> 0" and h: "hit_perms r n \<noteq> []"
    and bp: "bad_pairs r sa ta \<noteq> {}"
    using v by (auto simp: node_violations_def card_gt_0_iff split: if_splits sum.splits)
  from bp obtain x y where xy: "x \<in> ebits sa" "y \<in> ebits ta" "enforced r x y" by (auto simp: bad_pairs_def)
  note w = attr_types_wf[OF wf sa] attr_types_wf[OF wf ta]
  have wr: "wf_ebitmap (ts_types (avr_stypes r))" "wf_ebitmap (ts_types (avr_ttypes r))"
    and fl: "avr_flags r \<in> {0, 1, 2}" and spec: "avr_specified r \<noteq> AVRULE_XPERMS_NEVERALLOW"
    using r by (simp_all add: plain_assertion_def)
  have xs: "x \<in> ebits (ts_types (avr_stypes r))" using xy(3) by (simp add: enforced_def)
  then have "ebitmap_match_any (ts_types (avr_stypes r)) sa" using ebitmap_match_any_iff[OF wr(1) w(1)] xy(1) by blast
  then obtain matched m1 where mt: "(if is_notself r then check_assertion_notself_match m (key n) r p
      else if ebitmap_match_any (ts_types (avr_ttypes r)) ta then Inr (True, m)
      else if avr_flags r = RULE_SELF then check_assertion_self_match m (key n) r p
      else Inr (False, m)) = Inr (matched, m1)"
    and b: "b \<longleftrightarrow> matched"
    using chk al h by (auto simp: check_assertion_avtab_match_def match_perms_iff sa ta rbind_eq_Inr spec split: if_splits)
  have matched
  proof (cases "is_notself r")
    case True
    then have "x \<noteq> y" "ebits (ts_types (avr_ttypes r)) = {} \<or> y \<in> ebits (ts_types (avr_ttypes r))"
      using xy(3) plain_flags(2)[OF r] by (auto simp: enforced_def)
    then show ?thesis using notself_match_ok[OF _ wf sa ta wr xs xy(1,2)] mt True by simp
  next
    case ns: False
    show ?thesis
    proof (cases "ebitmap_match_any (ts_types (avr_ttypes r)) ta")
      case False
      then have "y \<notin> ebits (ts_types (avr_ttypes r))" using ebitmap_match_any_iff[OF wr(2) w(2)] xy(2) by blast
      then have self: "avr_flags r = RULE_SELF" "x = y"
        using xy(3) fl ns plain_flags(2)[OF r] by (auto simp: enforced_def split: if_splits)
      then obtain src m2 where s: "ebitmap_and m (ts_types (avr_stypes r)) sa = Inr (src, m2)"
        and mm: "matched = ebitmap_match_any src ta"
        using mt ns False by (auto simp: check_assertion_self_match_def sa ta rbind_eq_Inr)
      note so = ebitmap_and_ok[OF wr(1) w(1) s]
      show ?thesis using ebitmap_match_any_iff[OF so(1) w(2)] so(2) xs xy self(2) by (auto simp: mm)
    qed (use mt ns in auto)
  qed
  then show b using b by simp
qed

lemma check_nodes:
  assumes r: "plain_assertion r" and wf: "attr_maps_wf p"
  shows "try_nodes (check_assertion_avtab_match p r cond) ns m = Inr (False, m') \<Longrightarrow>
    sum_list (map (node_violations p r) ns) = 0"
proof (induction ns arbitrary: m)
  case (Cons n ns)
  obtain b m1 where n: "check_assertion_avtab_match p r cond (key n) (datum n) m = Inr (b, m1)"
    and rest: "(if b then Inr (True, m1) else try_nodes (check_assertion_avtab_match p r cond) ns m1) = Inr (False, m')"
    using Cons.prems by (auto simp: rbind_eq_Inr)
  then have "\<not> b" by auto
  then have "node_violations p r n = 0" using check_node[OF r wf n] by blast
  then show ?case using Cons.IH rest \<open>\<not> b\<close> by simp
qed simp

section \<open>All assertions\<close>

definition asserted :: "avrule \<Rightarrow> bool" where
  "asserted r \<longleftrightarrow> avr_specified r AND (AVRULE_NEVERALLOW OR AVRULE_XPERMS_NEVERALLOW) \<noteq> 0"

lemma check_assertion_none:
  assumes "plain_assertion r" "attr_maps_wf p" "wf_avtab (te_avtab p)" "wf_avtab (te_cond_avtab p)"
    and c: "check_assertion m p r = Inr (False, m')"
  shows "violations p r = 0"
proof -
  obtain m1 where "try_nodes (check_assertion_avtab_match p r False) (av_nodes (te_avtab p)) m = Inr (False, m1)"
    "try_nodes (check_assertion_avtab_match p r True) (av_nodes (te_cond_avtab p)) m1 = Inr (False, m')"
    using c by (auto simp: check_assertion_def avtab_try_nodes assms(3,4) rbind_eq_Inr split: if_splits)
  then show ?thesis using check_nodes[OF assms(1,2)] by (simp add: violations_def)
qed

lemma report_total:
  assumes "plain_assertion r" "attr_maps_wf p" "wf_avtab (te_avtab p)" "wf_avtab (te_cond_avtab p)"
    and rep: "report_assertion_failures m p r = Inr (rc, m')" and small: "violations p r < 2 ^ 31"
  shows "rc = int (violations p r)"
proof -
  obtain s1 m1 e1 s2 e2 where
    a: "try_nodes (report_assertion_avtab_matches p r False) (av_nodes (te_avtab p)) (m, 0) = Inr (s1, m1, e1)"
    and b: "try_nodes (report_assertion_avtab_matches p r True) (av_nodes (te_cond_avtab p)) (m1, e1) = Inr (s2, m', e2)"
    and rc: "rc = sint (ucast e2 :: u32)"
    using rep by (auto simp: report_assertion_failures_def avtab_try_nodes assms(3,4) rbind_eq_Inr)
  have e2: "e2 = of_nat (violations p r)"
    using report_nodes[OF assms(1,2) a] report_nodes[OF assms(1,2) b] by (simp add: violations_def)
  have "(ucast (of_nat (violations p r) :: u64) :: u32) = of_nat (violations p r)"
    by (rule bit_word_eqI) (simp add: bit_ucast_iff bit_of_nat_iff)
  moreover have "uint (of_nat (violations p r) :: u32) = int (violations p r)"
    using small by (simp add: uint_nat unat_of_nat)
  ultimately show ?thesis using small sint_if_small[of "of_nat (violations p r)"] by (simp add: rc e2)
qed

definition total_violations :: "policydb \<Rightarrow> avrule list \<Rightarrow> nat" where
  "total_violations p rs = sum_list (map (violations p) (filter asserted rs))"

lemma check_rules_total:
  assumes wf: "attr_maps_wf p" "wf_avtab (te_avtab p)" "wf_avtab (te_cond_avtab p)"
  shows "check_rules m p rs e = Inr e' \<Longrightarrow> \<forall>r \<in> set rs. asserted r \<longrightarrow> plain_assertion r \<Longrightarrow>
    total_violations p rs < 2 ^ 31 \<Longrightarrow> e' = e + of_nat (total_violations p rs)"
proof (induction rs arbitrary: m e)
  case (Cons r rs)
  show ?case
  proof (cases "asserted r")
    case False
    then have "check_rules m p rs e = Inr e'" using Cons.prems(1) by (simp add: asserted_def)
    then show ?thesis using Cons.IH Cons.prems(2,3) False by (simp add: total_violations_def)
  next
    case True
    then have pl: "plain_assertion r" using Cons.prems(2) by simp
    have lt: "violations p r < 2 ^ 31" "total_violations p rs < 2 ^ 31"
      using Cons.prems(3) True by (simp_all add: total_violations_def)
    have tot: "total_violations p (r # rs) = violations p r + total_violations p rs"
      using True by (simp add: total_violations_def)
    obtain b m1 where b: "check_assertion m p r = Inr (b, m1)"
      and rest: "(if \<not> b then check_rules m1 p rs e
        else rbind (report_assertion_failures m1 p r) (\<lambda>(rc, m).
          if rc < 0 then Inl EFAIL else check_rules m p rs (e + of_int rc))) = Inr e'"
      using Cons.prems(1) True by (auto simp: asserted_def rbind_eq_Inr)
    show ?thesis
    proof (cases b)
      case False
      then have "violations p r = 0" using check_assertion_none[OF pl wf] b by simp
      then show ?thesis using Cons.IH[of m1 e] rest False Cons.prems(2) lt tot by simp
    next
      case True
      then obtain rc m2 where rep: "report_assertion_failures m1 p r = Inr (rc, m2)"
        and r2: "(if rc < 0 then Inl EFAIL else check_rules m2 p rs (e + of_int rc)) = Inr e'"
        using rest by (auto simp: rbind_eq_Inr)
      have "rc = int (violations p r)" by (rule report_total[OF pl wf rep lt(1)])
      then show ?thesis using Cons.IH[of m2 "e + of_int rc"] r2 Cons.prems(2) lt tot by (simp add: add.assoc)
    qed
  qed
qed (simp add: total_violations_def)

lemma check_assertions_iff:
  assumes "attr_maps_wf p" "wf_avtab (te_avtab p)" "wf_avtab (te_cond_avtab p)"
    and "\<forall>r \<in> set rs. asserted r \<longrightarrow> plain_assertion r" and small: "total_violations p rs < 2 ^ 31"
    and c: "check_rules m p rs 0 = Inr e"
  shows "check_assertions m p rs = Inr () \<longleftrightarrow> total_violations p rs = 0"
proof -
  have "e = of_nat (total_violations p rs)" using check_rules_total[OF assms(1-3) c assms(4) small] by simp
  moreover have "unat (of_nat (total_violations p rs) :: u64) = total_violations p rs"
    using small by (simp add: unat_of_nat)
  ultimately have "unat e = total_violations p rs" by simp
  then have "e = 0 \<longleftrightarrow> total_violations p rs = 0" using unat_eq_zero[of e] by simp
  then show ?thesis by (simp add: check_assertions_def c)
qed

section \<open>What the check guarantees\<close>

text \<open>
  A type is in the list of types of every attribute it belongs to, and of itself; all type
  numbers fit into the 16 bits of a rule.
\<close>

definition types_listed :: "policydb \<Rightarrow> bool" where
  "types_listed p \<longleftrightarrow> length (attr_type_map p) \<le> 65535 \<and> attr_maps_wf p \<and>
     (\<forall>e \<in> set (type_attr_map p). wf_ebitmap e) \<and>
     (\<forall>x e. arr (type_attr_map p) (unat x) = Some e \<longrightarrow>
        (\<forall>a \<in> ebits e. \<exists>e'. arr (attr_type_map p) (unat a) = Some e' \<and> x \<in> ebits e'))"

lemma scope_types:
  assumes p: "types_listed p" and s: "arr (type_attr_map p) (unat x) = Some sattr"
    and a: "a \<in> ebits sattr"
  obtains e where "attr_types p (ucast (a + 1)) = Inr e" "x \<in> ebits e"
proof -
  have all: "\<forall>x e. arr (type_attr_map p) (unat x) = Some e \<longrightarrow>
        (\<forall>a \<in> ebits e. \<exists>e'. arr (attr_type_map p) (unat a) = Some e' \<and> x \<in> ebits e')"
    using p unfolding types_listed_def by (elim conjE)
  from all[rule_format, OF s a] obtain e where e: "arr (attr_type_map p) (unat a) = Some e" "x \<in> ebits e"
    by blast
  then have "unat a < 65535" using p by (auto simp: types_listed_def arr_def split: if_splits)
  then have t: "type_index (ucast (a + 1)) = unat a" "ucast (ucast (a + 1) :: u16) - 1 = a" by (simp_all add: ucast_succ)
  have u: "unat (ucast (a + 1) :: u16) = Suc (unat a)"
  proof -
    have "unat (a + 1) = Suc (unat a)" using \<open>unat a < 65535\<close> by (intro unat_inc_if_less[of a "a + 1"]) (simp add: word_less_nat_alt unat_word_ariths)
    then show ?thesis using \<open>unat a < 65535\<close> by (simp add: unsigned_ucast_eq take_bit_eq_mod)
  qed
  then have "ucast (a + 1) \<noteq> (0 :: u16)" by (metis nat.distinct(1) unat_0)
  then have "attr_types p (ucast (a + 1)) = Inr e" using e(1) u by (simp add: attr_types_def)
  then show ?thesis using that e(2) by blast
qed

text \<open>Without violations no rule in force grants a forbidden permission.\<close>

lemma no_violation_no_grant:
  assumes v: "violations p r = 0" and p: "types_listed p" and ok: "rules_ok (te_avtab p)" "rules_ok (te_cond_avtab p)"
    and s: "arr (type_attr_map p) (unat x) = Some sattr" and t: "arr (type_attr_map p) (unat y) = Some tattr"
    and f: "enforced r x y" and c: "c \<in> set (avr_perms r)" "cp_tclass c = ucast cls" "bit (cp_data c) k"
  shows "Av 1 k \<notin> scope_grants (ebits sattr) (ebits tattr) cls (in_force on (te_avtab p) (te_cond_avtab p) {})"
proof
  assume "Av 1 k \<in> scope_grants (ebits sattr) (ebits tattr) cls (in_force on (te_avtab p) (te_cond_avtab p) {})"
  then obtain n where n: "n \<in> set (av_nodes (te_avtab p) @ av_nodes (te_cond_avtab p))"
    and sc: "in_scope (ebits sattr) (ebits tattr) cls (key n)" and g: "Av 1 k \<in> grants n"
    by (auto simp: scope_grants_def in_force_def)
  have nk: "node_kind n = 1" and d: "bit (data (datum n)) k" using g by (simp_all add: kind_grants)
  have "single_kind n" using n ok by (auto simp: rules_ok_def)
  then have "bit (specified (key n)) 0" using bit_node_kind[of n 0] nk by simp
  then have al: "specified (key n) AND AVTAB_ALLOWED \<noteq> 0"
    using and_single_bit_eq_0[of 0 "specified (key n)"] by simp
  obtain i j where ij: "i \<in> ebits sattr" "j \<in> ebits tattr" "source_type (key n) = ucast (i + 1)"
    "target_type (key n) = ucast (j + 1)" "target_class (key n) = cls"
    using sc by (auto simp: in_scope_def triple_def)
  obtain sa where sa: "attr_types p (source_type (key n)) = Inr sa" "x \<in> ebits sa"
    using scope_types[OF p s ij(1)] ij(3) by metis
  obtain ta where ta: "attr_types p (target_type (key n)) = Inr ta" "y \<in> ebits ta"
    using scope_types[OF p t ij(2)] ij(4) by metis
  have "c \<in> set (hit_perms r n)"
    using c d ij(5) and_nonzero_if_bit by (auto simp: hit_perms_def)
  then have "0 < length (hit_perms r n)" by (cases "hit_perms r n") auto
  moreover have "(x, y) \<in> bad_pairs r sa ta" using sa ta f by (simp add: bad_pairs_def)
  then have "0 < card (bad_pairs r sa ta)" using finite_bad_pairs by (metis card_gt_0_iff empty_iff)
  ultimately have "0 < node_violations p r n" using al by (simp add: node_violations_def sa(1) ta(1))
  moreover have "node_violations p r n \<in> set (map (node_violations p r) (av_nodes (te_avtab p) @ av_nodes (te_cond_avtab p)))"
    unfolding set_map using n by (rule imageI)
  ultimately show False using v unfolding violations_def sum_list_eq_0_iff by (metis less_irrefl)
qed

lemma neverallow_holds:
  assumes v: "violations p r = 0" and p: "types_listed p"
    and ok: "plain_rules (te_avtab p)" "rules_ok (te_cond_avtab p)"
    and f: "enforced r (type s - 1) (type t - 1)"
    and c: "c \<in> set (avr_perms r)" "cp_tclass c = ucast cls" "bit (cp_data c) k"
    and d: "context_struct_compute_av fuel (switched_to on p) s t cls requested = Some (Inr (avd, reason))"
  shows "\<not> bit (allowed avd) k"
proof
  let ?q = "switched_to on p"
  have te: "te_avtab ?q = te_avtab p" "type_attr_map ?q = type_attr_map p"
    "te_cond_avtab ?q = map_nodes (flagged on) (te_cond_avtab p)" by (simp_all add: switched_to_def)
  have rok: "rules_ok (te_avtab p)" using ok(1) by (simp add: plain_rules_def)
  have "wf_avtab (te_cond_avtab ?q)"
    unfolding te using ok(2) by (intro wf_avtab_map_nodes) (simp_all add: rules_ok_def)
  then have wf: "wf_te ?q" using rok p by (simp add: wf_te_def te rules_ok_def types_listed_def)
  assume "bit (allowed avd) k"
  then have "permits ?q s t cls k" using compute_av_permits[OF wf d] by simp
  then have "locally_permits ?q s t cls k" by (cases rule: permits.cases) auto
  then obtain sattr tattr where st: "arr (type_attr_map p) (unat (type s - 1)) = Some sattr"
    "arr (type_attr_map p) (unat (type t - 1)) = Some tattr"
    and ra: "\<exists>i \<in> ebits sattr. \<exists>j \<in> ebits tattr. rule_allows ?q cls i j k"
    by (auto simp: locally_permits_def te)
  have w: "wf_ebitmap sattr" "wf_ebitmap tattr"
    using st p by (auto simp: types_listed_def dest: arr_in_set)
  have "bit (allowed (te_decision ?q cls sattr tattr)) k" using te_decision_allowed[OF wf w] ra by simp
  then show False
    using te_decision_switched(1)[OF ok w refl] no_violation_no_grant[OF v p rok ok(2) st f c] by blast
qed

end
