(* ===== verification/Assertion_Properties.thy ===== *)
theory Assertion_Properties
  imports Assertion_Props Optimize_Properties Access_Properties
begin

text \<open>The properties of the neverallow check, on variants of the example policy.\<close>

definition demo_assertion :: "u64 \<Rightarrow> u64 \<Rightarrow> u32 \<Rightarrow> u32 \<Rightarrow> avrule" where
  "demo_assertion sources targets flags perm =
     \<lparr>avr_specified = AVRULE_NEVERALLOW, avr_flags = flags,
      avr_stypes = \<lparr>ts_types = bits64 sources, negset = ebitmap_init, ts_flags = 0\<rparr>,
      avr_ttypes = \<lparr>ts_types = bits64 targets, negset = ebitmap_init, ts_flags = 0\<rparr>,
      avr_perms = [\<lparr>cp_tclass = 1, cp_data = perm\<rparr>], avr_xperms = None, avr_line = 0,
      avr_source_filename = None, avr_source_line = 0\<rparr>"


definition never_self :: avrule where
  "never_self = demo_assertion 1 2 RULE_SELF 1"

definition never_transition :: avrule where
  "never_transition = demo_assertion 1 2 0 1"

text \<open>\<open>allow user_t app_t:process transition;\<close>\<close>

definition demo_violating :: policydb where
  "demo_violating = demo\<lparr>te_avtab := one_chain [demo_rule 1 2 1 AVTAB_ALLOWED 1 1]\<rparr>"

lemma demo_rules: "plain_rules (te_avtab demo)" "rules_ok (te_cond_avtab demo)"
proof -
  have s: "chain_sorted [demo_rule 1 1 1 1 3 1, demo_rule 2 1 1 1 6 2]"
    "chain_sorted [demo_rule 1 1 1 1 8 11, demo_rule 2 1 1 1 16 12]"
    by (simp_all add: chain_sorted_Cons key_before_def demo_rule_def)
  show "plain_rules (te_avtab demo)" "rules_ok (te_cond_avtab demo)"
    unfolding demo_tables plain_rules_def rules_ok_def using wf_one_chain[OF s(1)] wf_one_chain[OF s(2)]
    by (simp_all add: av_nodes_def one_chain_def) (simp_all add: demo_rule_def)
qed




lemma demo_rule_nodes:
  "av_nodes (te_avtab demo) = [demo_rule 1 1 1 1 3 1, demo_rule 2 1 1 1 6 2]"
  "av_nodes (te_cond_avtab demo) = [demo_rule 1 1 1 1 8 11, demo_rule 2 1 1 1 16 12]"
  by (simp_all add: demo_tables av_nodes_def one_chain_def)


lemma demo_self_found: "check_assertion 10 demo_violating never_self = Inr (True, 10)"
  by code_simp

lemma demo_violating_nodes:
  "av_nodes (te_avtab demo_violating) = [demo_rule 1 2 1 1 1 1]"
  "av_nodes (te_cond_avtab demo_violating) = av_nodes (te_cond_avtab demo)"
  "wf_avtab (te_avtab demo_violating)" "wf_avtab (te_cond_avtab demo_violating)"
  using demo_rules(2) wf_one_chain[of "[demo_rule 1 2 1 1 1 1]"]
  by (simp_all add: demo_violating_def av_nodes_def one_chain_def rules_ok_def chain_sorted_def)

lemma demo_self_plain: "plain_assertion never_self" "attr_maps_wf demo_violating"
  by (simp_all add: plain_assertion_def never_self_def demo_assertion_def attr_maps_wf_def demo_violating_def demo_def)

lemma demo_self_violations: "violations demo_violating never_self = 0"
proof -
  have "hit_perms never_self (demo_rule 1 1 1 1 8 11) = []" "hit_perms never_self (demo_rule 2 1 1 1 16 12) = []"
    by (simp_all add: hit_perms_def never_self_def demo_assertion_def demo_rule_def)
  moreover have "attr_types demo_violating (source_type (key (demo_rule 1 2 1 1 1 1))) = Inr (bits64 1)"
    "attr_types demo_violating (target_type (key (demo_rule 1 2 1 1 1 1))) = Inr (bits64 2)"
    by (simp_all add: demo_rule_def attr_types_def arr_def demo_violating_def demo_def)
  moreover have "bad_pairs never_self (bits64 1) (bits64 2) = {}"
    by (auto simp: bad_pairs_def enforced_def never_self_def demo_assertion_def small_bits)
  ultimately show ?thesis
    by (simp add: violations_def node_violations_def demo_violating_nodes demo_rule_nodes split: sum.splits)
qed

lemma demo_self_reported: "\<exists>m'. report_assertion_failures 10 demo_violating never_self = Inr (0, m')"
proof -
  let ?r = "report_assertion_avtab_matches demo_violating never_self"
  have spec: "avr_specified never_self \<noteq> AVRULE_XPERMS_NEVERALLOW" by (simp add: never_self_def demo_assertion_def)
  have n: "case assertion_matches 10 demo_violating never_self (key (demo_rule 1 2 1 1 1 1)) of
    Inr _ \<Rightarrow> True | _ \<Rightarrow> False" by code_simp
  have "\<exists>m' e'. ?r False (key (demo_rule 1 2 1 1 1 1)) (datum (demo_rule 1 2 1 1 1 1)) (10, 0) = Inr (False, m', e')"
    using n report_perms_plain[OF spec]
    by (auto simp: report_assertion_avtab_matches_def split: sum.splits option.splits)
  moreover have "?r True (key (demo_rule 1 1 1 1 8 11)) (datum (demo_rule 1 1 1 1 8 11)) st = Inr (False, st)"
    "?r True (key (demo_rule 2 1 1 1 16 12)) (datum (demo_rule 2 1 1 1 16 12)) st = Inr (False, st)" for st
    by (simp_all add: report_assertion_avtab_matches_def match_any_class_permissions_def never_self_def demo_assertion_def
        demo_rule_def split: prod.splits)
  ultimately obtain rc m' where "report_assertion_failures 10 demo_violating never_self = Inr (rc, m')"
    unfolding report_assertion_failures_def avtab_try_nodes[OF demo_violating_nodes(3)]
      avtab_try_nodes[OF demo_violating_nodes(4)] demo_violating_nodes(1,2) demo_rule_nodes by auto
  then show ?thesis
    using report_total[OF demo_self_plain demo_violating_nodes(3,4)] demo_self_violations by simp
qed

lemma demo_self_accepted: "check_assertions 10 demo_violating [never_self] = Inr ()"
proof -
  have "avr_specified never_self = AVRULE_NEVERALLOW" by (simp add: never_self_def demo_assertion_def)
  then show ?thesis using demo_self_reported demo_self_found by (auto simp: check_assertions_def)
qed

lemma demo_transition_violation: "violations demo_violating never_transition = 1"
proof -
  have "hit_perms never_transition (demo_rule 1 1 1 1 8 11) = []" "hit_perms never_transition (demo_rule 2 1 1 1 16 12) = []"
    "length (hit_perms never_transition (demo_rule 1 2 1 1 1 1)) = 1" "specified (key (demo_rule 1 2 1 1 1 1)) = 1"
    by (simp_all add: hit_perms_def never_transition_def demo_assertion_def demo_rule_def)
  moreover have "attr_types demo_violating (source_type (key (demo_rule 1 2 1 1 1 1))) = Inr (bits64 1)"
    "attr_types demo_violating (target_type (key (demo_rule 1 2 1 1 1 1))) = Inr (bits64 2)"
    by (simp_all add: demo_rule_def attr_types_def arr_def demo_violating_def demo_def)
  moreover have "bad_pairs never_transition (bits64 1) (bits64 2) = {(0, 1)}"
    using bits64_single[of 0] bits64_single[of 1]
    by (auto simp: bad_pairs_def enforced_def never_transition_def demo_assertion_def)
  ultimately show ?thesis
    by (simp add: violations_def node_violations_def demo_violating_nodes demo_rule_nodes split: sum.splits)
qed






text \<open>C35: an assertion that names both targets and \<^verbatim>\<open>self\<close>, such as
  \<^verbatim>\<open>neverallow user_t { app_t self }:process transition\<close>, is not enforced for the targets. The check
  finds the rule \<^verbatim>\<open>allow user_t app_t:process transition\<close>, but the report skips every pair of
  different types and counts no violation, so the policy is accepted; without \<^verbatim>\<open>self\<close> the same
  rule is a violation.\<close>

theorem neverallow_self_not_enforced:
  "check_assertion 10 demo_violating never_self = Inr (True, 10) \<and>
   check_assertions 10 demo_violating [never_self] = Inr () \<and>
   violations demo_violating never_transition = 1"
  using demo_self_found demo_self_accepted demo_transition_violation by blast

end
