(* ===== verification/Hierarchy.thy ===== *)
theory Hierarchy
  imports Assertion
begin

text \<open>
  The bounds of types, roles and users, \<^verbatim>\<open>src/hierarchy.c\<close>. \<open>bounds_check_type\<close> collects what the
  rules grant to the parent of a type, in one table for the rules that are always in force and two
  tables for each conditional, and compares the rules of the child with them.

  The tables are local to the check; the list \<^verbatim>\<open>bad\<close> of excess permissions is a list of nodes that
  are in no table. The counters are of type \<^verbatim>\<open>int\<close>, so an overflow is undefined. The reports are
  left out.
\<close>

abbreviation (input) "BOUNDS_AVTAB_SIZE \<equiv> 1024"

definition add_int :: "int \<Rightarrow> int \<Rightarrow> errcode + int" where
  "add_int a b = (if 2147483647 < a + b then Inl UNDEF else Inr (a + b))"

section \<open>The rules of the parent\<close>

text \<open>\<^verbatim>\<open>dup = avtab_search(h, k); if (dup) dup->data |= x\<close>; \<open>None\<close> when nothing is found.\<close>

fun or_first :: "avtab_key \<Rightarrow> u16 \<Rightarrow> u32 \<Rightarrow> avtab_node list \<Rightarrow> avtab_node list option" where
  "or_first k kind x [] = None"
| "or_first k kind x (c # r) =
     (if same_triple k (key c) \<and> kind AND specified (key c) \<noteq> 0
      then Some (c\<lparr>datum := (datum c)\<lparr>data := data (datum c) OR x\<rparr>\<rparr> # r)
      else if key_before k (key c) then None
      else map_option ((#) c) (or_first k kind x r))"

definition avtab_search_or :: "avtab \<Rightarrow> avtab_key \<Rightarrow> u32 \<Rightarrow> avtab option" where
  "avtab_search_or h k x =
     (case avtable h of
        None \<Rightarrow> None
      | Some t \<Rightarrow>
          (let hvalue = unat (avtab_hash k (avmask h))
           in map_option (\<lambda>c. h\<lparr>avtable := Some (t[hvalue := c])\<rparr>)
                (or_first k (rule_kind (specified k)) x (t ! hvalue))))"

definition bounds_insert_helper :: "mem \<Rightarrow> avtab \<Rightarrow> avtab_key \<Rightarrow> avtab_datum \<Rightarrow> errcode + avtab \<times> mem" where
  "bounds_insert_helper m h k d = avtab_insert m h k d"

text \<open>\<^verbatim>\<open>avtab_insert\<close> refuses the null pointer \<open>global\<close> like an unallocated table.\<close>

definition bounds_insert_rule ::
  "mem \<Rightarrow> avtab \<Rightarrow> avtab option \<Rightarrow> avtab option \<Rightarrow> avtab_key \<Rightarrow> avtab_datum
     \<Rightarrow> errcode + avtab \<times> avtab option \<times> mem" where
  "bounds_insert_rule m h global other k d =
     rbind (case avtab_search_or h k (data d) of
              None \<Rightarrow> bounds_insert_helper m h k d
            | Some h' \<Rightarrow> Inr (h', m)) (\<lambda>(h, m).
       case other of
         None \<Rightarrow> Inr (h, global, m)
       | Some t \<Rightarrow>
           (case avtab_search t k of
              None \<Rightarrow> Inr (h, global, m)
            | Some dup \<Rightarrow>
                (let x = data dup AND data d
                 in if x = 0 then Inr (h, global, m)
                    else case global of
                      None \<Rightarrow> Inl ENOMEM
                    | Some g \<Rightarrow>
                        (case avtab_search_or g k x of
                           Some g' \<Rightarrow> Inr (h, Some g', m)
                         | None \<Rightarrow>
                             rbind (bounds_insert_helper m g k \<lparr>data = x, xperms = None\<rparr>) (\<lambda>(g', m).
                               Inr (h, Some g', m))))))"

fun expand_targets ::
  "mem \<Rightarrow> avtab \<Rightarrow> avtab option \<Rightarrow> avtab option \<Rightarrow> u32 \<Rightarrow> u16 \<Rightarrow> u32 \<Rightarrow> u32 list
     \<Rightarrow> errcode + avtab \<times> avtab option \<times> mem" where
  "expand_targets m h global other parent cls d [] = Inr (h, global, m)"
| "expand_targets m h global other parent cls d (i # is) =
     rbind (bounds_insert_rule m h global other
              \<lparr>source_type = ucast parent, target_type = ucast (i + 1), target_class = cls, specified = AVTAB_ALLOWED\<rparr>
              \<lparr>data = d, xperms = None\<rparr>) (\<lambda>(h, global, m).
       expand_targets m h global other parent cls d is)"

definition bounds_expand_rule ::
  "mem \<Rightarrow> policydb \<Rightarrow> avtab \<Rightarrow> avtab option \<Rightarrow> avtab option \<Rightarrow> u32 \<Rightarrow> u16 \<Rightarrow> u16 \<Rightarrow> u16 \<Rightarrow> u32
     \<Rightarrow> errcode + avtab \<times> avtab option \<times> mem" where
  "bounds_expand_rule m p h global other parent src tgt cls d =
     rbind (attr_types p src) (\<lambda>sa.
       if ebitmap_get_bit sa (parent - 1) then
         rbind (attr_types p tgt) (\<lambda>ta. expand_targets m h global other parent cls d (ebitmap_positive_bits ta))
       else Inr (h, global, m))"

fun bounds_expand_cond_rules ::
  "mem \<Rightarrow> policydb \<Rightarrow> cond_av_list \<Rightarrow> avtab \<Rightarrow> avtab option \<Rightarrow> avtab option \<Rightarrow> u32
     \<Rightarrow> errcode + avtab \<times> avtab option \<times> mem" where
  "bounds_expand_cond_rules m p [] h global other parent = Inr (h, global, m)"
| "bounds_expand_cond_rules m p (a # cur) h global other parent =
     rbind (node_at (te_cond_avtab p) a) (\<lambda>n.
     rbind (bounds_expand_rule m p h global other parent (source_type (key n)) (target_type (key n))
              (target_class (key n)) (data (datum n))) (\<lambda>(h, global, m).
       bounds_expand_cond_rules m p cur h global other parent))"

definition bounds_expand_rule_callback ::
  "policydb \<Rightarrow> u32 \<Rightarrow> avtab_key \<Rightarrow> avtab_datum \<Rightarrow> avtab \<times> mem \<Rightarrow> errcode + bool \<times> avtab \<times> mem" where
  "bounds_expand_rule_callback p parent k d st =
     (case st of (h, m) \<Rightarrow>
        if specified k AND AVTAB_ALLOWED = 0 then Inr (False, h, m)
        else rbind (bounds_expand_rule m p h None None parent (source_type k) (target_type k) (target_class k) (data d))
               (\<lambda>(h, _, m). Inr (False, h, m)))"

record bounds_cond_info =
  true_avtab :: avtab
  false_avtab :: avtab
  ci_cond :: cond_node

definition empty_avtab :: avtab where
  "empty_avtab = avtab_init \<lparr>avtable = None, avnel = 0, nslot = 0, avmask = 0\<rparr>"

definition expand_cond_list ::
  "mem \<Rightarrow> policydb \<Rightarrow> cond_av_list \<Rightarrow> avtab option \<Rightarrow> avtab option \<Rightarrow> u32
     \<Rightarrow> errcode + avtab \<times> avtab option \<times> mem" where
  "expand_cond_list m p l global other parent =
     (if l = [] then Inr (empty_avtab, global, m)
      else rbind (avtab_alloc m empty_avtab BOUNDS_AVTAB_SIZE) (\<lambda>(h, m).
        bounds_expand_cond_rules m p l h global other parent))"

text \<open>The loop over the conditionals; \<open>False\<close> when a \<^verbatim>\<open>malloc\<close> of the loop itself fails.\<close>

fun expand_conds ::
  "mem \<Rightarrow> policydb \<Rightarrow> u32 \<Rightarrow> cond_node list \<Rightarrow> avtab \<Rightarrow> bounds_cond_info list
     \<Rightarrow> errcode + bool \<times> avtab \<times> bounds_cond_info list \<times> mem" where
  "expand_conds m p parent [] g cis = Inr (True, g, cis, m)"
| "expand_conds m p parent (c # cs) g cis =
     (case malloc m of
        None \<Rightarrow> Inr (False, g, cis, m)
      | Some m \<Rightarrow>
          rbind (expand_cond_list m p (true_list c) None None parent) (\<lambda>(t, _, m).
          rbind (expand_cond_list m p (false_list c) (Some g) (Some t) parent) (\<lambda>(f, g', m).
            case g' of
              None \<Rightarrow> Inl UNDEF
            | Some g \<Rightarrow>
                expand_conds m p parent cs g (\<lparr>true_avtab = t, false_avtab = f, ci_cond = c\<rparr> # cis))))"

text \<open>
  On that failure the function destroys the tables and returns \<^verbatim>\<open>rc\<close>, which is still zero: the
  caller goes on without rules of the parent.
\<close>

definition bounds_expand_parent_rules ::
  "mem \<Rightarrow> policydb \<Rightarrow> u32 \<Rightarrow> errcode + avtab \<times> bounds_cond_info list \<times> mem" where
  "bounds_expand_parent_rules m p parent =
     rbind (avtab_alloc m empty_avtab BOUNDS_AVTAB_SIZE) (\<lambda>(g, m).
     rbind (avtab_try (te_avtab p) (bounds_expand_rule_callback p parent) (g, m)) (\<lambda>(_, g, m).
     rbind (expand_conds m p parent (cond_list p) g []) (\<lambda>(fin, g, cis, m).
       if fin then Inr (g, cis, m) else Inr (avtab_destroy g, [], m))))"

section \<open>The rules of the child\<close>

definition bounds_not_covered :: "avtab option \<Rightarrow> avtab \<Rightarrow> avtab_key \<Rightarrow> u32 \<Rightarrow> u32" where
  "bounds_not_covered global cur k d =
     (let d1 = (case avtab_search cur k of None \<Rightarrow> d | Some x \<Rightarrow> d AND NOT (data x))
      in case global of
           None \<Rightarrow> d1
         | Some g \<Rightarrow>
             if d1 = 0 then d1
             else (case avtab_search g k of None \<Rightarrow> d1 | Some x \<Rightarrow> d1 AND NOT (data x)))"

definition bounds_add_bad ::
  "mem \<Rightarrow> u32 \<Rightarrow> u32 \<Rightarrow> u16 \<Rightarrow> u32 \<Rightarrow> avtab_node list \<Rightarrow> errcode + avtab_node list \<times> mem" where
  "bounds_add_bad m src tgt cls d bad =
     (case malloc m of
        None \<Rightarrow> Inl ENOMEM
      | Some m' \<Rightarrow>
          Inr (\<lparr>key = \<lparr>source_type = ucast src, target_type = ucast tgt, target_class = cls, specified = 0\<rparr>,
                datum = \<lparr>data = d, xperms = None\<rparr>, addr = 0\<rparr> # bad, m'))"

text \<open>The type number a target is replaced with: its bound, if it has one.\<close>

definition target_bound :: "policydb \<Rightarrow> u32 \<Rightarrow> errcode + u32" where
  "target_bound p i =
     (case arr (type_val_to_struct p) (unat i) of
        None \<Rightarrow> Inl UNDEF
      | Some None \<Rightarrow> Inr (i + 1)
      | Some (Some td) \<Rightarrow> Inr (if bounds td \<noteq> 0 then bounds td else i + 1))"

fun check_targets ::
  "mem \<Rightarrow> policydb \<Rightarrow> avtab option \<Rightarrow> avtab \<Rightarrow> u32 \<Rightarrow> u32 \<Rightarrow> u16 \<Rightarrow> u32 \<Rightarrow> u32 list \<Rightarrow> avtab_node list \<Rightarrow> int
     \<Rightarrow> errcode + avtab_node list \<times> int \<times> mem" where
  "check_targets m p global cur child parent cls d [] bad numbad = Inr (bad, numbad, m)"
| "check_targets m p global cur child parent cls d (i # is) bad numbad =
     rbind (target_bound p i) (\<lambda>t.
       let x = bounds_not_covered global cur
                 \<lparr>source_type = ucast parent, target_type = ucast t, target_class = cls, specified = AVTAB_ALLOWED\<rparr> d
       in if x = 0 then check_targets m p global cur child parent cls d is bad numbad
          else rbind (add_int numbad 1) (\<lambda>numbad.
               rbind (bounds_add_bad m child (i + 1) cls x bad) (\<lambda>(bad, m).
                 check_targets m p global cur child parent cls d is bad numbad)))"

definition bounds_check_rule ::
  "mem \<Rightarrow> policydb \<Rightarrow> avtab option \<Rightarrow> avtab \<Rightarrow> u32 \<Rightarrow> u32 \<Rightarrow> u16 \<Rightarrow> u16 \<Rightarrow> u16 \<Rightarrow> u32 \<Rightarrow> avtab_node list \<Rightarrow> int
     \<Rightarrow> errcode + avtab_node list \<times> int \<times> mem" where
  "bounds_check_rule m p global cur child parent src tgt cls d bad numbad =
     rbind (attr_types p src) (\<lambda>sa.
       if ebitmap_get_bit sa (child - 1) then
         rbind (attr_types p tgt) (\<lambda>ta.
           check_targets m p global cur child parent cls d (ebitmap_positive_bits ta) bad numbad)
       else Inr (bad, numbad, m))"

fun bounds_check_cond_rules ::
  "mem \<Rightarrow> policydb \<Rightarrow> avtab \<Rightarrow> avtab \<Rightarrow> cond_av_list \<Rightarrow> u32 \<Rightarrow> u32 \<Rightarrow> avtab_node list \<Rightarrow> int
     \<Rightarrow> errcode + avtab_node list \<times> int \<times> mem" where
  "bounds_check_cond_rules m p g cur [] child parent bad numbad = Inr (bad, numbad, m)"
| "bounds_check_cond_rules m p g cur (a # l) child parent bad numbad =
     rbind (node_at (te_cond_avtab p) a) (\<lambda>n.
       if specified (key n) AND AVTAB_ALLOWED = 0
       then bounds_check_cond_rules m p g cur l child parent bad numbad
       else rbind (bounds_check_rule m p (Some g) cur child parent (source_type (key n)) (target_type (key n))
                     (target_class (key n)) (data (datum n)) bad numbad) (\<lambda>(bad, numbad, m).
              bounds_check_cond_rules m p g cur l child parent bad numbad))"

definition bounds_check_rule_callback ::
  "policydb \<Rightarrow> avtab \<Rightarrow> u32 \<Rightarrow> u32 \<Rightarrow> avtab_key \<Rightarrow> avtab_datum \<Rightarrow> avtab_node list \<times> int \<times> mem
     \<Rightarrow> errcode + bool \<times> avtab_node list \<times> int \<times> mem" where
  "bounds_check_rule_callback p cur child parent k d st =
     (case st of (bad, numbad, m) \<Rightarrow>
        if specified k AND AVTAB_ALLOWED = 0 then Inr (False, bad, numbad, m)
        else rbind (bounds_check_rule m p None cur child parent (source_type k) (target_type k) (target_class k)
                      (data d) bad numbad) (\<lambda>(bad, numbad, m). Inr (False, bad, numbad, m)))"

fun check_conds ::
  "mem \<Rightarrow> policydb \<Rightarrow> avtab \<Rightarrow> bounds_cond_info list \<Rightarrow> u32 \<Rightarrow> u32 \<Rightarrow> avtab_node list \<Rightarrow> int
     \<Rightarrow> errcode + avtab_node list \<times> int \<times> mem" where
  "check_conds m p g [] child parent bad numbad = Inr (bad, numbad, m)"
| "check_conds m p g (ci # cis) child parent bad numbad =
     rbind (bounds_check_cond_rules m p g (true_avtab ci) (true_list (ci_cond ci)) child parent bad numbad)
       (\<lambda>(bad, numbad, m).
     rbind (bounds_check_cond_rules m p g (false_avtab ci) (false_list (ci_cond ci)) child parent bad numbad)
       (\<lambda>(bad, numbad, m). check_conds m p g cis child parent bad numbad))"

definition bounds_check_child_rules ::
  "mem \<Rightarrow> policydb \<Rightarrow> avtab \<Rightarrow> bounds_cond_info list \<Rightarrow> u32 \<Rightarrow> u32 \<Rightarrow> int \<Rightarrow> errcode + avtab_node list \<times> int \<times> mem" where
  "bounds_check_child_rules m p g cis child parent numbad =
     rbind (avtab_try (te_avtab p) (bounds_check_rule_callback p g child parent) ([], 0, m)) (\<lambda>(_, bad, n, m).
     rbind (check_conds m p g cis child parent bad n) (\<lambda>(bad, n, m).
     rbind (add_int numbad n) (\<lambda>numbad. Inr (bad, numbad, m))))"

definition bounds_check_type ::
  "mem \<Rightarrow> policydb \<Rightarrow> u32 \<Rightarrow> u32 \<Rightarrow> int \<Rightarrow> errcode + avtab_node list \<times> int \<times> mem" where
  "bounds_check_type m p child parent numbad =
     rbind (bounds_expand_parent_rules m p parent) (\<lambda>(g, cis, m).
       bounds_check_child_rules m p g cis child parent numbad)"

section \<open>All types, roles and users\<close>

text \<open>The traversal of a symbol table with a callback that may fail and changes a state.\<close>

definition hashtab_try ::
  "('k, 'd) hashtab_val option \<Rightarrow> ('k \<Rightarrow> 'd \<Rightarrow> 's \<Rightarrow> errcode option \<times> 's) \<Rightarrow> 's \<Rightarrow> errcode option \<times> 's" where
  "hashtab_try h f s =
     snd (hashtab_map (\<lambda>k d (_, s). case f k d s of (err, s') \<Rightarrow> (if err = None then 0 else -1, err, s')) h (None, s))"

definition bounds_check_type_callback ::
  "policydb \<Rightarrow> string \<Rightarrow> type_datum \<Rightarrow> int \<times> mem \<Rightarrow> errcode option \<times> int \<times> mem" where
  "bounds_check_type_callback p k t st =
     (case st of (numbad, m) \<Rightarrow>
        if bounds t = 0 then (None, numbad, m)
        else case bounds_check_type m p (type_value t) (bounds t) numbad of
          Inl err \<Rightarrow> (Some err, numbad, m)
        | Inr (bad, numbad, m) \<Rightarrow> (None, numbad, m))"

definition bounds_check_types :: "mem \<Rightarrow> policydb \<Rightarrow> errcode + mem" where
  "bounds_check_types m p =
     (case hashtab_try (table (p_types p)) (bounds_check_type_callback p) (0, m) of
        (Some err, _) \<Rightarrow> Inl err
      | (None, numbad, m) \<Rightarrow> if 0 < numbad then Inl EFAIL else Inr m)"

text \<open>A child that has something its parent does not have.\<close>

definition count_excess :: "int \<Rightarrow> bool \<Rightarrow> errcode option \<times> int" where
  "count_excess numbad b =
     (if b then (case add_int numbad 1 of Inl err \<Rightarrow> (Some err, numbad) | Inr n \<Rightarrow> (None, n)) else (None, numbad))"

definition bounds_check_role_callback :: "policydb \<Rightarrow> string \<Rightarrow> role_datum \<Rightarrow> int \<Rightarrow> errcode option \<times> int" where
  "bounds_check_role_callback p k r numbad =
     (if role_bounds r = 0 then (None, numbad)
      else case arr (role_val_to_struct p) (unat (role_bounds r - 1)) of
        None \<Rightarrow> (Some UNDEF, numbad)
      | Some None \<Rightarrow> (None, numbad)
      | Some (Some rp) \<Rightarrow>
          count_excess numbad (\<not> ebitmap_contains (ts_types (role_types rp)) (ts_types (role_types r))))"

definition bounds_check_user_callback :: "policydb \<Rightarrow> string \<Rightarrow> user_datum \<Rightarrow> int \<Rightarrow> errcode option \<times> int" where
  "bounds_check_user_callback p k u numbad =
     (if user_bounds u = 0 then (None, numbad)
      else case arr (user_val_to_struct p) (unat (user_bounds u - 1)) of
        None \<Rightarrow> (Some UNDEF, numbad)
      | Some None \<Rightarrow> (None, numbad)
      | Some (Some up) \<Rightarrow>
          count_excess numbad (\<not> ebitmap_contains (rs_roles (user_roles up)) (rs_roles (user_roles u))))"

definition counted :: "errcode option \<times> int \<Rightarrow> errcode + unit" where
  "counted r = (case r of (Some err, _) \<Rightarrow> Inl err | (None, n) \<Rightarrow> if 0 < n then Inl EFAIL else Inr ())"

definition bounds_check_roles :: "policydb \<Rightarrow> errcode + unit" where
  "bounds_check_roles p = counted (hashtab_try (table (p_roles p)) (bounds_check_role_callback p) 0)"

definition bounds_check_users :: "policydb \<Rightarrow> errcode + unit" where
  "bounds_check_users p = counted (hashtab_try (table (p_users p)) (bounds_check_user_callback p) 0)"

section \<open>Bounds from names\<close>

text \<open>The part of a name before its last dot: \<^verbatim>\<open>strrchr\<close>, \<^verbatim>\<open>strdup\<close> and the store of the NUL.\<close>

definition before_last_dot :: "string \<Rightarrow> string option" where
  "before_last_dot s =
     (case dropWhile (\<lambda>c. c \<noteq> CHR ''.'') (rev s) of [] \<Rightarrow> None | _ # r \<Rightarrow> Some (rev r))"

datatype ancestry = Topmost | Orphan | Child u32

definition parent_by_name ::
  "mem \<Rightarrow> string option list \<Rightarrow> 'd symtab \<Rightarrow> ('d \<Rightarrow> u32) \<Rightarrow> u32 \<Rightarrow> errcode + ancestry \<times> mem" where
  "parent_by_name m nms tab val v =
     (case ptr_arr nms (unat (v - 1)) of
        None \<Rightarrow> Inl UNDEF
      | Some datum_name \<Rightarrow>
          (case before_last_dot datum_name of
             None \<Rightarrow> Inr (Topmost, m)
           | Some parent_name \<Rightarrow>
               (case malloc m of
                  None \<Rightarrow> Inl ENOMEM
                | Some m' \<Rightarrow>
                    (case sym_search (table tab) parent_name of
                       None \<Rightarrow> Inr (Orphan, m')
                     | Some d \<Rightarrow> Inr (Child (val d), m')))))"

text \<open>
  The callback writes the datum through its pointer. The entry of the table and the entry of the
  index by values are the same object; in the index of types this holds for primary names.
\<close>

definition set_entry :: "string \<Rightarrow> 'd \<Rightarrow> 'd symtab \<Rightarrow> 'd symtab" where
  "set_entry k d s =
     s\<lparr>table := map_option (\<lambda>h. h\<lparr>htable := map (map (\<lambda>(k', d'). if k' = k then (k', d) else (k', d'))) (htable h)\<rparr>)
                 (table s)\<rparr>"

definition set_type_bounds :: "string \<Rightarrow> type_datum \<Rightarrow> u32 \<Rightarrow> policydb \<Rightarrow> policydb" where
  "set_type_bounds k d v p =
     (let d' = d\<lparr>bounds := v\<rparr>
      in p\<lparr>p_types := set_entry k d' (p_types p),
           type_val_to_struct := (if primary d \<noteq> 0 then (type_val_to_struct p)[unat (type_value d - 1) := Some d']
                                  else type_val_to_struct p)\<rparr>)"

definition set_role_bounds :: "string \<Rightarrow> role_datum \<Rightarrow> u32 \<Rightarrow> policydb \<Rightarrow> policydb" where
  "set_role_bounds k d v p =
     (let d' = d\<lparr>role_bounds := v\<rparr>
      in p\<lparr>p_roles := set_entry k d' (p_roles p),
           role_val_to_struct := (role_val_to_struct p)[unat (role_value d - 1) := Some d']\<rparr>)"

definition set_user_bounds :: "string \<Rightarrow> user_datum \<Rightarrow> u32 \<Rightarrow> policydb \<Rightarrow> policydb" where
  "set_user_bounds k d v p =
     (let d' = d\<lparr>user_bounds := v\<rparr>
      in p\<lparr>p_users := set_entry k d' (p_users p),
           user_val_to_struct := (user_val_to_struct p)[unat (user_value d - 1) := Some d']\<rparr>)"

definition add_bound ::
  "errcode + ancestry \<times> mem \<Rightarrow> (u32 \<Rightarrow> policydb) \<Rightarrow> policydb \<times> int \<times> mem
     \<Rightarrow> errcode option \<times> policydb \<times> int \<times> mem" where
  "add_bound r upd st =
     (case st of (p, numbad, m) \<Rightarrow>
        (case r of
           Inl err \<Rightarrow> (Some err, p, numbad, m)
         | Inr (Topmost, m) \<Rightarrow> (None, p, numbad, m)
         | Inr (Orphan, m) \<Rightarrow>
             (case add_int numbad 1 of Inl err \<Rightarrow> (Some err, p, numbad, m) | Inr n \<Rightarrow> (None, p, n, m))
         | Inr (Child v, m) \<Rightarrow> (None, upd v, numbad, m)))"

definition hierarchy_add_type_callback ::
  "string \<Rightarrow> type_datum \<Rightarrow> policydb \<times> int \<times> mem \<Rightarrow> errcode option \<times> policydb \<times> int \<times> mem" where
  "hierarchy_add_type_callback k d st =
     (case st of (p, numbad, m) \<Rightarrow>
        if bounds d \<noteq> 0 then (None, st)
        else add_bound (parent_by_name m (p_type_val_to_name p) (p_types p) type_value (type_value d))
               (\<lambda>v. set_type_bounds k d v p) st)"

definition hierarchy_add_role_callback ::
  "string \<Rightarrow> role_datum \<Rightarrow> policydb \<times> int \<times> mem \<Rightarrow> errcode option \<times> policydb \<times> int \<times> mem" where
  "hierarchy_add_role_callback k d st =
     (case st of (p, numbad, m) \<Rightarrow>
        if role_bounds d \<noteq> 0 then (None, st)
        else add_bound (parent_by_name m (p_role_val_to_name p) (p_roles p) role_value (role_value d))
               (\<lambda>v. set_role_bounds k d v p) st)"

definition hierarchy_add_user_callback ::
  "string \<Rightarrow> user_datum \<Rightarrow> policydb \<times> int \<times> mem \<Rightarrow> errcode option \<times> policydb \<times> int \<times> mem" where
  "hierarchy_add_user_callback k d st =
     (case st of (p, numbad, m) \<Rightarrow>
        if user_bounds d \<noteq> 0 then (None, st)
        else add_bound (parent_by_name m (p_user_val_to_name p) (p_users p) user_value (user_value d))
               (\<lambda>v. set_user_bounds k d v p) st)"

definition hierarchy_add_bounds :: "mem \<Rightarrow> policydb \<Rightarrow> errcode option \<times> policydb \<times> mem" where
  "hierarchy_add_bounds m p =
     (case hashtab_try (table (p_users p)) hierarchy_add_user_callback (p, 0, m) of
        (Some err, p, n, m) \<Rightarrow> (Some err, p, m)
      | (None, p, n, m) \<Rightarrow>
          (case hashtab_try (table (p_roles p)) hierarchy_add_role_callback (p, n, m) of
             (Some err, p, n, m) \<Rightarrow> (Some err, p, m)
           | (None, p, n, m) \<Rightarrow>
               (case hashtab_try (table (p_types p)) hierarchy_add_type_callback (p, n, m) of
                  (Some err, p, n, m) \<Rightarrow> (Some err, p, m)
                | (None, p, n, m) \<Rightarrow> (if 0 < n then Some EFAIL else None, p, m))))"

text \<open>The users and roles only fail with \<^verbatim>\<open>SEPOL_ERR\<close>; other errors of the types are returned.\<close>

definition violation :: "errcode + 'a \<Rightarrow> errcode + bool" where
  "violation r = (case r of Inr _ \<Rightarrow> Inr False | Inl err \<Rightarrow> if err = EFAIL then Inr True else Inl err)"

definition hierarchy_check_constraints :: "mem \<Rightarrow> policydb \<Rightarrow> errcode option \<times> policydb" where
  "hierarchy_check_constraints m p =
     (case hierarchy_add_bounds m p of
        (Some err, p, m) \<Rightarrow> (Some err, p)
      | (None, p, m) \<Rightarrow>
          (case rbind (violation (bounds_check_users p)) (\<lambda>v1.
                rbind (violation (bounds_check_roles p)) (\<lambda>v2.
                rbind (violation (bounds_check_types m p)) (\<lambda>v3. Inr (v1 \<or> v2 \<or> v3)))) of
             Inl err \<Rightarrow> (Some err, p)
           | Inr v \<Rightarrow> (if v then Some EFAIL else None, p)))"

end
