(* ===== verification/Hierarchy_Props.thy ===== *)
theory Hierarchy_Props
  imports Hierarchy Assertion_Props
begin

text \<open>
  Soundness of the check of type bounds: if it accepts, and memory did not run out, then whatever
  the booleans, the rules in force grant to a bounded type only what they grant to its parent.
\<close>

section \<open>Sound tables\<close>

text \<open>Every permission bit in the table is justified by \<open>R\<close>.\<close>

definition table_sound :: "(u16 \<times> u16 \<times> u16 \<Rightarrow> nat \<Rightarrow> bool) \<Rightarrow> avtab \<Rightarrow> bool" where
  "table_sound R h \<longleftrightarrow> wf_avtab h \<and> (\<forall>n \<in> set (av_nodes h). \<forall>b. bit (data (datum n)) b \<longrightarrow> R (triple (key n)) b)"

lemma sound_search:
  assumes "table_sound R h" "avtab_search h k = Some d" "bit (data d) b"
  shows "R (triple k) b"
  using avtab_search_sound[of h k d] assms by (auto simp: table_sound_def answers_def same_triple_iff)

lemma sound_insert:
  assumes "table_sound R h" "avtab_insert m h k d = Inr (h', m')" "\<And>b. bit (data d) b \<Longrightarrow> R (triple k) b"
  shows "table_sound R h'"
proof -
  note i = avtab_insert_cases[OF _ assms(2)]
  have wf: "wf_avtab h" using assms(1) by (simp add: table_sound_def)
  obtain n where n: "key n = k" "data (datum n) = data d" "mset (av_nodes h') = add_mset n (mset (av_nodes h))"
    using i(2)[OF wf] stored_datum_data by metis
  show ?thesis using avtab_insert_answers[OF n(3)] i(1)[OF wf] n assms by (auto simp: table_sound_def)
qed

lemma or_first_split:
  "or_first k kind x c = Some c' \<Longrightarrow> \<exists>pre n post. c = pre @ n # post \<and> same_triple k (key n) \<and>
     c' = pre @ n\<lparr>datum := (datum n)\<lparr>data := data (datum n) OR x\<rparr>\<rparr> # post"
proof (induction k kind x c arbitrary: c' rule: or_first.induct)
  case (2 k kind x c r)
  show ?case
  proof (cases "same_triple k (key c) \<and> kind AND specified (key c) \<noteq> 0")
    case True
    then show ?thesis using 2(2) by (intro exI[of _ "[]"]) auto
  next
    case False
    then obtain r' where r: "or_first k kind x r = Some r'" and c': "c' = c # r'" and nb: "\<not> key_before k (key c)"
      using 2(2) by (simp only: or_first.simps if_False) (auto split: if_splits)
    obtain pre n post where "r = pre @ n # post" "same_triple k (key n)"
      "r' = pre @ n\<lparr>datum := (datum n)\<lparr>data := data (datum n) OR x\<rparr>\<rparr> # post"
      using 2(1)[OF False nb r] by blast
    then show ?thesis using c' by (intro exI[of _ "c # pre"]) auto
  qed
qed simp

lemma chain_sorted_keys: "map key c = map key c' \<Longrightarrow> chain_sorted c = chain_sorted c'"
proof -
  have "chain_sorted c = sorted_wrt (\<lambda>a b. \<not> key_before b a) (map key c)" for c
    by (simp add: chain_sorted_def sorted_wrt_map)
  then show "map key c = map key c' \<Longrightarrow> chain_sorted c = chain_sorted c'" by metis
qed

text \<open>A chain replaced with one of the same keys.\<close>

lemma wf_same_keys:
  assumes wf: "wf_avtab h" and t: "avtable h = Some t" and i: "i < length t" and k: "map key c = map key (t ! i)"
  shows "wf_avtab (h\<lparr>avtable := Some (t[i := c])\<rparr>)"
proof -
  have w: "length t = unat (nslot h)" "\<exists>k \<le> 20. nslot h = 2 ^ k" "avmask h = nslot h - 1"
    "avnel h = of_nat (length (concat t))" using wf by (simp_all add: wf_avtab_def t)
  have s: "av_slots_ok (avmask h) t" by (rule wf_avtab_slots[OF wf t])
  have keys: "key ` set c = key ` set (t ! i)" using k by (metis set_map)
  have "av_slots_ok (avmask h) (t[i := c])"
    unfolding av_slots_ok_def
  proof (intro allI impI)
    fix j assume j: "j < length (t[i := c])"
    show "chain_sorted (t[i := c] ! j) \<and> (\<forall>n\<in>set (t[i := c] ! j). unat (avtab_hash (key n) (avmask h)) = j)"
    proof (cases "j = i")
      case True
      have "\<forall>k \<in> key ` set (t ! i). unat (avtab_hash k (avmask h)) = i" using s i by (auto simp: av_slots_ok_def)
      then show ?thesis using True i s chain_sorted_keys[OF k] unfolding keys[symmetric] by (auto simp: av_slots_ok_def)
    qed (use s j in \<open>auto simp: av_slots_ok_def\<close>)
  qed
  moreover have "length (concat (t[i := c])) = length (concat t)"
  proof -
    have "length c = length (t ! i)" using k by (metis length_map)
    then have "map length (t[i := c]) = map length t" by (simp add: map_update) (metis i list_update_id map_update nth_map)
    then show ?thesis by (simp add: length_concat)
  qed
  ultimately show ?thesis using w by (simp add: wf_avtab_def)
qed

lemma sound_or:
  assumes "table_sound R h" "avtab_search_or h k x = Some h'" "\<And>b. bit x b \<Longrightarrow> R (triple k) b"
  shows "table_sound R h'"
proof -
  have wf: "wf_avtab h" using assms(1) by (simp add: table_sound_def)
  obtain t c where t: "avtable h = Some t"
    and c: "or_first k (rule_kind (specified k)) x (t ! unat (avtab_hash k (avmask h))) = Some c"
    and h': "h' = h\<lparr>avtable := Some (t[unat (avtab_hash k (avmask h)) := c])\<rparr>"
    using assms(2) by (auto simp: avtab_search_or_def Let_def split: option.splits)
  let ?i = "unat (avtab_hash k (avmask h))"
  have i: "?i < length t" by (rule avtab_hash_index[OF wf t])
  obtain pre n post where s: "t ! ?i = pre @ n # post" "same_triple k (key n)"
    "c = pre @ n\<lparr>datum := (datum n)\<lparr>data := data (datum n) OR x\<rparr>\<rparr> # post"
    using or_first_split[OF c] by blast
  have "wf_avtab h'" unfolding h' by (rule wf_same_keys[OF wf t i]) (simp add: s)
  moreover have "R (triple (key a)) b" if a: "a \<in> set (av_nodes h')" and b: "bit (data (datum a)) b" for a b
  proof -
    have old: "R (triple (key a)) b" if "a \<in> set (concat t)" "bit (data (datum a)) b" for a
      using assms(1) that by (auto simp: table_sound_def av_nodes_def t)
    have "set (t[?i := c]) \<subseteq> insert c (set t)" by (rule set_update_subset_insert)
    then have "a \<in> set c \<or> a \<in> set (concat t)" using a by (auto simp: av_nodes_def h')
    moreover have "set (t ! ?i) \<subseteq> set (concat t)" using nth_mem[OF i] by auto
    ultimately consider "a \<in> set (concat t)" | "a = n\<lparr>datum := (datum n)\<lparr>data := data (datum n) OR x\<rparr>\<rparr>"
      using s(1,3) by auto
    then show ?thesis
    proof cases
      case 2
      have "n \<in> set (concat t)" using s(1) \<open>set (t ! ?i) \<subseteq> _\<close> by auto
      then show ?thesis using b s(2) assms(3) old[of n] by (auto simp: 2 bit_or_iff same_triple_iff)
    qed (use old b in blast)
  qed
  ultimately show ?thesis by (simp add: table_sound_def)
qed

text \<open>The insertion of a rule of the parent into its own table and into the global one.\<close>

lemma bounds_insert_rule_sound:
  assumes i: "bounds_insert_rule m h global other k d = Inr (h', global', m')"
    and h: "table_sound R h" and d: "\<And>b. bit (data d) b \<Longrightarrow> R (triple k) b"
    and g: "\<And>g. global = Some g \<Longrightarrow> table_sound G g" and t: "\<And>t. other = Some t \<Longrightarrow> table_sound T t"
    and both: "\<And>b. T (triple k) b \<Longrightarrow> R (triple k) b \<Longrightarrow> G (triple k) b"
  shows "table_sound R h' \<and> (\<forall>g'. global' = Some g' \<longrightarrow> table_sound G g')"
proof -
  obtain h1 m1 where h1: "(case avtab_search_or h k (data d) of
        None \<Rightarrow> bounds_insert_helper m h k d | Some h' \<Rightarrow> Inr (h', m)) = Inr (h1, m1)"
    and rest: "(case other of None \<Rightarrow> Inr (h1, global, m1)
       | Some t \<Rightarrow>
           (case avtab_search t k of
              None \<Rightarrow> Inr (h1, global, m1)
            | Some dup \<Rightarrow>
                (let x = data dup AND data d
                 in if x = 0 then Inr (h1, global, m1)
                    else case global of
                      None \<Rightarrow> Inl ENOMEM
                    | Some g \<Rightarrow>
                        (case avtab_search_or g k x of
                           Some g' \<Rightarrow> Inr (h1, Some g', m1)
                         | None \<Rightarrow>
                             rbind (bounds_insert_helper m1 g k \<lparr>data = x, xperms = None\<rparr>) (\<lambda>(g', m).
                               Inr (h1, Some g', m)))))) = Inr (h', global', m')"
    using i by (auto simp: bounds_insert_rule_def rbind_eq_Inr)
  have s1: "table_sound R h1"
    using h1 sound_or[OF h _ d] sound_insert[OF h _ d] by (auto simp: bounds_insert_helper_def split: option.splits)
  show ?thesis
  proof (cases other)
    case None
    then show ?thesis using rest s1 g by auto
  next
    case (Some t0)
    show ?thesis
    proof (cases "avtab_search t0 k")
      case None
      then show ?thesis using rest Some s1 g by auto
    next
      case dup: (Some dup)
      let ?x = "data dup AND data d"
      have x: "G (triple k) b" if "bit ?x b" for b
        using that sound_search[OF t[OF Some] dup] d both by (auto simp: bit_and_iff)
      show ?thesis
      proof (cases "?x = 0 \<or> global = None")
        case True
        then show ?thesis using rest Some dup s1 g by (auto simp: Let_def split: if_splits)
      next
        case False
        then obtain g0 where g0: "global = Some g0" by auto
        note gs = g[OF g0]
        show ?thesis
          using rest Some dup False s1 g0 sound_or[OF gs _ x] sound_insert[OF gs, of m1 k "\<lparr>data = ?x, xperms = None\<rparr>"] x
          by (auto simp: Let_def bounds_insert_helper_def rbind_eq_Inr split: option.splits)
      qed
    qed
  qed
qed

lemma bounds_insert_rule_global: "bounds_insert_rule m h global other k d = Inr (h', global', m') \<Longrightarrow>
    (global' = None) = (global = None)"
  by (auto simp: bounds_insert_rule_def rbind_eq_Inr Let_def dest: sym split: option.splits if_splits)

section \<open>What the parent may do\<close>

text \<open>The keys under which the rule of a node is entered for the type \<open>q\<close>.\<close>

definition reached :: "policydb \<Rightarrow> u32 \<Rightarrow> avtab_node \<Rightarrow> u16 \<times> u16 \<times> u16 \<Rightarrow> bool" where
  "reached p q n tr \<longleftrightarrow>
     (\<exists>sa ta i. attr_types p (source_type (key n)) = Inr sa \<and> attr_types p (target_type (key n)) = Inr ta \<and>
        q - 1 \<in> ebits sa \<and> i \<in> ebits ta \<and> tr = (ucast q, ucast (i + 1), target_class (key n)))"

definition holds_for :: "policydb \<Rightarrow> u32 \<Rightarrow> avtab_node set \<Rightarrow> u16 \<times> u16 \<times> u16 \<Rightarrow> nat \<Rightarrow> bool" where
  "holds_for p q N tr b \<longleftrightarrow> (\<exists>n \<in> N. reached p q n tr \<and> bit (data (datum n)) b)"

definition te_allows :: "policydb \<Rightarrow> avtab_node set" where
  "te_allows p = {n \<in> set (av_nodes (te_avtab p)). specified (key n) AND AVTAB_ALLOWED \<noteq> 0}"

definition list_nodes :: "policydb \<Rightarrow> cond_av_list \<Rightarrow> avtab_node set" where
  "list_nodes p l = {n. \<exists>a \<in> set l. node_at (te_cond_avtab p) a = Inr n}"

text \<open>What the parent may do whatever the booleans.\<close>

definition always :: "policydb \<Rightarrow> u32 \<Rightarrow> u16 \<times> u16 \<times> u16 \<Rightarrow> nat \<Rightarrow> bool" where
  "always p q tr b \<longleftrightarrow> holds_for p q (te_allows p) tr b \<or>
     (\<exists>c \<in> set (cond_list p). holds_for p q (list_nodes p (true_list c)) tr b \<and>
        holds_for p q (list_nodes p (false_list c)) tr b)"

lemma table_sound_mono: "table_sound R h \<Longrightarrow> (\<And>tr b. R tr b \<Longrightarrow> R' tr b) \<Longrightarrow> table_sound R' h"
  by (auto simp: table_sound_def)

lemma triple_make [simp]: "triple \<lparr>source_type = s, target_type = t, target_class = c, specified = k\<rparr> = (s, t, c)"
  by (simp add: triple_def)

lemma expand_targets_sound:
  assumes G: "\<And>tr b. T tr b \<Longrightarrow> R tr b \<Longrightarrow> G tr b" and t: "\<And>t. other = Some t \<Longrightarrow> table_sound T t"
  shows "expand_targets m h global other parent cls d is = Inr (h', global', m') \<Longrightarrow> table_sound R h \<Longrightarrow>
    (\<And>g. global = Some g \<Longrightarrow> table_sound G g) \<Longrightarrow>
    (\<And>i b. i \<in> set is \<Longrightarrow> bit d b \<Longrightarrow> R (ucast parent, ucast (i + 1), cls) b) \<Longrightarrow>
    table_sound R h' \<and> (\<forall>g'. global' = Some g' \<longrightarrow> table_sound G g')"
proof (induction "is" arbitrary: m h global)
  case (Cons i "is")
  let ?k = "\<lparr>source_type = ucast parent, target_type = ucast (i + 1), target_class = cls, specified = AVTAB_ALLOWED\<rparr>"
  obtain h1 g1 m1 where r: "bounds_insert_rule m h global other ?k \<lparr>data = d, xperms = None\<rparr> = Inr (h1, g1, m1)"
    and rest: "expand_targets m1 h1 g1 other parent cls d is = Inr (h', global', m')"
    using Cons.prems(1) by (auto simp: rbind_eq_Inr)
  have "table_sound R h1 \<and> (\<forall>g'. g1 = Some g' \<longrightarrow> table_sound G g')"
    by (rule bounds_insert_rule_sound[OF r Cons.prems(2) _ Cons.prems(3) t]) (use Cons.prems(4) G in auto)
  then show ?case using Cons.IH[OF rest] Cons.prems(4) by auto
qed auto

lemma expand_targets_global: "expand_targets m h global other parent cls d is = Inr (h', global', m') \<Longrightarrow>
    (global' = None) = (global = None)"
  by (induction "is" arbitrary: m h global) (auto simp: rbind_eq_Inr dest!: bounds_insert_rule_global)

lemma attr_types_bits:
  "attr_maps_wf p \<Longrightarrow> attr_types p t = Inr e \<Longrightarrow> set (ebitmap_positive_bits e) = ebits e"
  using ebitmap_positive_bits_spec(1) attr_types_wf by blast

lemma bounds_expand_rule_sound:
  assumes r: "bounds_expand_rule m p h global other q (source_type (key n)) (target_type (key n)) (target_class (key n))
      (data (datum n)) = Inr (h', global', m')"
    and wf: "attr_maps_wf p" and n: "\<And>tr b. reached p q n tr \<Longrightarrow> bit (data (datum n)) b \<Longrightarrow> R tr b"
    and G: "\<And>tr b. T tr b \<Longrightarrow> R tr b \<Longrightarrow> G tr b" and t: "\<And>t. other = Some t \<Longrightarrow> table_sound T t"
    and h: "table_sound R h" and g: "\<And>g. global = Some g \<Longrightarrow> table_sound G g"
  shows "table_sound R h' \<and> (\<forall>g'. global' = Some g' \<longrightarrow> table_sound G g')"
proof -
  obtain sa where sa: "attr_types p (source_type (key n)) = Inr sa"
    using r by (auto simp: bounds_expand_rule_def rbind_eq_Inr)
  show ?thesis
  proof (cases "ebitmap_get_bit sa (q - 1)")
    case True
    then obtain ta where ta: "attr_types p (target_type (key n)) = Inr ta"
      and e: "expand_targets m h global other q (target_class (key n)) (data (datum n)) (ebitmap_positive_bits ta) =
        Inr (h', global', m')"
      using r sa by (auto simp: bounds_expand_rule_def rbind_eq_Inr)
    have q: "q - 1 \<in> ebits sa" using True ebitmap_get_bit_iff[OF attr_types_wf[OF wf sa]] by simp
    have "R (ucast q, ucast (i + 1), target_class (key n)) b"
      if "i \<in> set (ebitmap_positive_bits ta)" "bit (data (datum n)) b" for i b
    proof (rule n[OF _ that(2)])
      show "reached p q n (ucast q, ucast (i + 1), target_class (key n))"
        using sa ta q that(1) attr_types_bits[OF wf ta] unfolding reached_def by blast
    qed
    then show ?thesis by (intro expand_targets_sound[OF G t e h g]) blast+
  qed (use r sa h g in \<open>auto simp: bounds_expand_rule_def\<close>)
qed

lemma bounds_expand_rule_global:
  "bounds_expand_rule m p h global other q s t c d = Inr (h', global', m') \<Longrightarrow> (global' = None) = (global = None)"
  by (auto simp: bounds_expand_rule_def rbind_eq_Inr dest: expand_targets_global split: if_splits)

lemma bounds_expand_cond_rules_sound:
  assumes wf: "attr_maps_wf p"
    and n: "\<And>a n tr b. a \<in> set l \<Longrightarrow> node_at (te_cond_avtab p) a = Inr n \<Longrightarrow> reached p q n tr \<Longrightarrow>
      bit (data (datum n)) b \<Longrightarrow> R tr b"
    and G: "\<And>tr b. T tr b \<Longrightarrow> R tr b \<Longrightarrow> G tr b" and t: "\<And>t. other = Some t \<Longrightarrow> table_sound T t"
  shows "bounds_expand_cond_rules m p l h global other q = Inr (h', global', m') \<Longrightarrow> table_sound R h \<Longrightarrow>
    (\<And>g. global = Some g \<Longrightarrow> table_sound G g) \<Longrightarrow>
    table_sound R h' \<and> (\<forall>g'. global' = Some g' \<longrightarrow> table_sound G g')"
  using n
proof (induction l arbitrary: m h global)
  case (Cons a l)
  obtain n h1 g1 m1 where na: "node_at (te_cond_avtab p) a = Inr n"
    and r: "bounds_expand_rule m p h global other q (source_type (key n)) (target_type (key n)) (target_class (key n))
      (data (datum n)) = Inr (h1, g1, m1)"
    and rest: "bounds_expand_cond_rules m1 p l h1 g1 other q = Inr (h', global', m')"
    using Cons.prems(1) by (auto simp: rbind_eq_Inr)
  have "table_sound R h1 \<and> (\<forall>g'. g1 = Some g' \<longrightarrow> table_sound G g')"
    by (rule bounds_expand_rule_sound[OF r wf _ G t Cons.prems(2,3)]) (use Cons.prems(4)[OF _ na] in auto)
  then have h1: "table_sound R h1" and g1: "\<And>g. g1 = Some g \<Longrightarrow> table_sound G g" by blast+
  show ?case by (rule Cons.IH[OF rest h1 g1]) (simp, rule Cons.prems(4)[OF list.set_intros(2)])
qed auto

lemma bounds_expand_cond_rules_global:
  "bounds_expand_cond_rules m p l h global other q = Inr (h', global', m') \<Longrightarrow> (global' = None) = (global = None)"
  by (induction l arbitrary: m h global) (auto simp: rbind_eq_Inr dest!: bounds_expand_rule_global)

lemma empty_table: "wf_avtab empty_avtab" "av_nodes empty_avtab = []"
  by (simp_all add: empty_avtab_def avtab_init_def wf_avtab_def av_nodes_def)

lemma expand_cond_list_sound:
  assumes "expand_cond_list m p l global other q = Inr (h', global', m')" "attr_maps_wf p"
    and G: "\<And>tr b. T tr b \<Longrightarrow> holds_for p q (list_nodes p l) tr b \<Longrightarrow> G tr b"
    and t: "\<And>t. other = Some t \<Longrightarrow> table_sound T t" and g: "\<And>g. global = Some g \<Longrightarrow> table_sound G g"
  shows "table_sound (holds_for p q (list_nodes p l)) h' \<and> (\<forall>g'. global' = Some g' \<longrightarrow> table_sound G g')"
proof (cases "l = []")
  case True
  then show ?thesis using assms(1) g by (auto simp: expand_cond_list_def table_sound_def empty_table)
next
  case False
  then obtain h0 m0 where al: "avtab_alloc m empty_avtab BOUNDS_AVTAB_SIZE = Inr (h0, m0)"
    and r: "bounds_expand_cond_rules m0 p l h0 global other q = Inr (h', global', m')"
    using assms(1) by (auto simp: expand_cond_list_def rbind_eq_Inr)
  have "table_sound (holds_for p q (list_nodes p l)) h0"
    using avtab_alloc_ok[OF al] by (simp add: table_sound_def)
  then show ?thesis
    by (intro bounds_expand_cond_rules_sound[OF assms(2) _ G t r _ g]) (auto simp: holds_for_def list_nodes_def)
qed

text \<open>The tables of a conditional.\<close>

definition info_sound :: "policydb \<Rightarrow> u32 \<Rightarrow> bounds_cond_info \<Rightarrow> bool" where
  "info_sound p q ci \<longleftrightarrow>
     table_sound (holds_for p q (list_nodes p (true_list (ci_cond ci)))) (true_avtab ci) \<and>
     table_sound (holds_for p q (list_nodes p (false_list (ci_cond ci)))) (false_avtab ci)"

lemma expand_conds_sound:
  assumes wf: "attr_maps_wf p"
  shows "expand_conds m p q cs g cis = Inr (done, g', cis', m') \<Longrightarrow> set cs \<subseteq> set (cond_list p) \<Longrightarrow>
    table_sound (always p q) g \<Longrightarrow> (\<forall>ci \<in> set cis. info_sound p q ci) \<Longrightarrow>
    table_sound (always p q) g' \<and> (\<forall>ci \<in> set cis'. info_sound p q ci) \<and>
    (done \<longrightarrow> ci_cond ` set cis' = set cs \<union> ci_cond ` set cis) \<and> (\<not> done \<longrightarrow> m' = 0)"
proof (induction cs arbitrary: m g cis)
  case (Cons c cs)
  show ?case
  proof (cases m)
    case 0
    then show ?thesis using Cons.prems by auto
  next
    case (Suc m1)
    obtain t g1 m2 f g2 m3 where t: "expand_cond_list m1 p (true_list c) None None q = Inr (t, g1, m2)"
      and f: "expand_cond_list m2 p (false_list c) (Some g) (Some t) q = Inr (f, g2, m3)"
      and rest: "(case g2 of None \<Rightarrow> Inl UNDEF
        | Some g \<Rightarrow> expand_conds m3 p q cs g (\<lparr>true_avtab = t, false_avtab = f, ci_cond = c\<rparr> # cis)) =
        Inr (done, g', cis', m')"
      using Cons.prems(1) Suc by (auto simp: rbind_eq_Inr)
    have ts: "table_sound (holds_for p q (list_nodes p (true_list c))) t"
      using expand_cond_list_sound[OF t wf, of "\<lambda>_ _. False" "\<lambda>_ _. True"] by auto
    have fs: "table_sound (holds_for p q (list_nodes p (false_list c))) f \<and>
        (\<forall>g'. g2 = Some g' \<longrightarrow> table_sound (always p q) g')"
    proof (rule expand_cond_list_sound[OF f wf])
      show "always p q tr b" if "holds_for p q (list_nodes p (true_list c)) tr b"
        "holds_for p q (list_nodes p (false_list c)) tr b" for tr b
        using that Cons.prems(2) unfolding always_def by auto
    qed (use ts Cons.prems(3) in auto)
    obtain g3 where g3: "g2 = Some g3" using rest by (cases g2) auto
    show ?thesis
      using Cons.IH[of m3 g3 "\<lparr>true_avtab = t, false_avtab = f, ci_cond = c\<rparr> # cis"] rest g3 fs ts Cons.prems(2,4)
      by (auto simp: info_sound_def)
  qed
qed auto

lemma try_expand_sound:
  assumes wf: "attr_maps_wf p"
  shows "try_nodes (bounds_expand_rule_callback p q) ns (h, m) = Inr (stop, h', m') \<Longrightarrow>
    set ns \<subseteq> set (av_nodes (te_avtab p)) \<Longrightarrow> table_sound (always p q) h \<Longrightarrow> table_sound (always p q) h'"
proof (induction ns arbitrary: h m)
  case (Cons n ns)
  show ?case
  proof (cases "specified (key n) AND AVTAB_ALLOWED = 0")
    case True
    then show ?thesis using Cons by (auto simp: bounds_expand_rule_callback_def)
  next
    case False
    obtain h1 g1 m1 where r: "bounds_expand_rule m p h None None q (source_type (key n)) (target_type (key n))
        (target_class (key n)) (data (datum n)) = Inr (h1, g1, m1)"
      and rest: "try_nodes (bounds_expand_rule_callback p q) ns (h1, m1) = Inr (stop, h', m')"
      using Cons.prems(1) False by (auto simp: bounds_expand_rule_callback_def[of p q "key n" "datum n" "(h, m)"] rbind_eq_Inr)
    have n: "n \<in> te_allows p" using False Cons.prems(2) by (auto simp: te_allows_def)
    have "table_sound (always p q) h1 \<and> (\<forall>g'. g1 = Some g' \<longrightarrow> table_sound (\<lambda>_ _. True) g')"
    proof (rule bounds_expand_rule_sound[OF r wf _ _ _ Cons.prems(3)])
      show "always p q tr b" if "reached p q n tr" "bit (data (datum n)) b" for tr b
        unfolding always_def holds_for_def using that n by blast
    qed auto
    then show ?thesis using Cons.IH[OF rest] Cons.prems(2) by auto
  qed
qed simp

lemma parent_rules_sound:
  assumes e: "bounds_expand_parent_rules m p q = Inr (g, cis, m')" and "0 < m'"
    and wf: "attr_maps_wf p" "wf_avtab (te_avtab p)"
  shows "table_sound (always p q) g" "\<forall>ci \<in> set cis. info_sound p q ci" "ci_cond ` set cis = set (cond_list p)"
proof -
  obtain g0 m0 where a: "avtab_alloc m empty_avtab BOUNDS_AVTAB_SIZE = Inr (g0, m0)"
    using e by (auto simp: bounds_expand_parent_rules_def rbind_eq_Inr)
  obtain s1 g1 m1 where t: "try_nodes (bounds_expand_rule_callback p q) (av_nodes (te_avtab p)) (g0, m0) = Inr (s1, g1, m1)"
    using e a by (auto simp: bounds_expand_parent_rules_def rbind_eq_Inr avtab_try_nodes[OF wf(2)])
  obtain fin g2 cis2 m2 where c: "expand_conds m1 p q (cond_list p) g1 [] = Inr (fin, g2, cis2, m2)"
    using e a t by (auto simp: bounds_expand_parent_rules_def rbind_eq_Inr avtab_try_nodes[OF wf(2)])
  have r: "(if fin then Inr (g2, cis2, m2) else Inr (avtab_destroy g2, [], m2)) = Inr (g, cis, m')"
    using e a t c by (auto simp: bounds_expand_parent_rules_def rbind_eq_Inr avtab_try_nodes[OF wf(2)])
  have "table_sound (always p q) g0" using avtab_alloc_ok[OF a] by (simp add: table_sound_def)
  then have "table_sound (always p q) g1" by (rule try_expand_sound[OF wf(1) t subset_refl])
  then have *: "table_sound (always p q) g2 \<and> (\<forall>ci \<in> set cis2. info_sound p q ci) \<and>
      (fin \<longrightarrow> ci_cond ` set cis2 = set (cond_list p)) \<and> (\<not> fin \<longrightarrow> m2 = 0)"
    using expand_conds_sound[OF wf(1) c] by auto
  then have fin using r assms(2) by (cases fin) auto
  then show "table_sound (always p q) g" "\<forall>ci \<in> set cis. info_sound p q ci" "ci_cond ` set cis = set (cond_list p)"
    using * r by auto
qed

section \<open>What the check compares\<close>

text \<open>No permission of a rule exceeds the tables.\<close>

definition within_tables :: "policydb \<Rightarrow> u32 \<Rightarrow> u32 \<Rightarrow> avtab option \<Rightarrow> avtab \<Rightarrow> avtab_node \<Rightarrow> bool" where
  "within_tables p child q global cur n \<longleftrightarrow>
     (\<forall>sa ta i t. attr_types p (source_type (key n)) = Inr sa \<longrightarrow> child - 1 \<in> ebits sa \<longrightarrow>
        attr_types p (target_type (key n)) = Inr ta \<longrightarrow> i \<in> ebits ta \<longrightarrow> target_bound p i = Inr t \<longrightarrow>
        bounds_not_covered global cur
          \<lparr>source_type = ucast q, target_type = ucast t, target_class = target_class (key n), specified = AVTAB_ALLOWED\<rparr>
          (data (datum n)) = 0)"

lemma add_int_Inr: "add_int a b = Inr c \<longleftrightarrow> c = a + b \<and> a + b \<le> 2147483647"
  by (auto simp: add_int_def)

lemma check_targets_grow:
  "check_targets m p global cur child q cls d is bad n = Inr (bad', n', m') \<Longrightarrow> n \<le> n' \<and> m' \<le> m \<and>
     (n' = n \<longrightarrow> (\<forall>i \<in> set is. \<forall>t. target_bound p i = Inr t \<longrightarrow>
        bounds_not_covered global cur
          \<lparr>source_type = ucast q, target_type = ucast t, target_class = cls, specified = AVTAB_ALLOWED\<rparr> d = 0))"
proof (induction "is" arbitrary: bad n m)
  case (Cons i "is")
  obtain t where t: "target_bound p i = Inr t" using Cons.prems by (auto simp: rbind_eq_Inr)
  let ?x = "bounds_not_covered global cur
          \<lparr>source_type = ucast q, target_type = ucast t, target_class = cls, specified = AVTAB_ALLOWED\<rparr> d"
  show ?case
  proof (cases "?x = 0")
    case True
    then show ?thesis using Cons.IH[of m bad n] Cons.prems t by auto
  next
    case False
    then obtain bad1 m1 where a: "bounds_add_bad m child (i + 1) cls ?x bad = Inr (bad1, m1)"
      and r: "check_targets m1 p global cur child q cls d is bad1 (n + 1) = Inr (bad', n', m')"
      using Cons.prems t by (auto simp: rbind_eq_Inr Let_def add_int_Inr)
    then show ?thesis using Cons.IH[OF r] by (auto simp: bounds_add_bad_def split: option.splits)
  qed
qed auto

lemma bounds_check_rule_grow:
  assumes "bounds_check_rule m p global cur child q (source_type (key nd)) (target_type (key nd)) (target_class (key nd))
      (data (datum nd)) bad n = Inr (bad', n', m')" "attr_maps_wf p"
  shows "n \<le> n' \<and> m' \<le> m \<and> (n' = n \<longrightarrow> within_tables p child q global cur nd)"
proof -
  obtain sa where sa: "attr_types p (source_type (key nd)) = Inr sa"
    using assms(1) by (auto simp: bounds_check_rule_def rbind_eq_Inr)
  note b = ebitmap_get_bit_iff[OF attr_types_wf[OF assms(2) sa]]
  show ?thesis
  proof (cases "ebitmap_get_bit sa (child - 1)")
    case True
    then obtain ta where ta: "attr_types p (target_type (key nd)) = Inr ta"
      and r: "check_targets m p global cur child q (target_class (key nd)) (data (datum nd)) (ebitmap_positive_bits ta) bad n =
        Inr (bad', n', m')"
      using assms(1) sa by (auto simp: bounds_check_rule_def rbind_eq_Inr)
    show ?thesis using check_targets_grow[OF r] sa ta attr_types_bits[OF assms(2) ta] by (auto simp: within_tables_def)
  qed (use assms(1) sa b in \<open>auto simp: bounds_check_rule_def within_tables_def\<close>)
qed

lemma bounds_check_cond_rules_grow:
  assumes "attr_maps_wf p"
  shows "bounds_check_cond_rules m p g cur l child q bad n = Inr (bad', n', m') \<Longrightarrow> n \<le> n' \<and> m' \<le> m \<and>
    (n' = n \<longrightarrow> (\<forall>nd \<in> list_nodes p l. specified (key nd) AND AVTAB_ALLOWED \<noteq> 0 \<longrightarrow>
       within_tables p child q (Some g) cur nd))"
proof (induction l arbitrary: bad n m)
  case (Cons a l)
  obtain nd where nd: "node_at (te_cond_avtab p) a = Inr nd" using Cons.prems by (auto simp: rbind_eq_Inr)
  have ln: "list_nodes p (a # l) = insert nd (list_nodes p l)" using nd by (auto simp: list_nodes_def)
  show ?case
  proof (cases "specified (key nd) AND AVTAB_ALLOWED = 0")
    case True
    then show ?thesis using Cons.IH[of m bad n] Cons.prems nd ln by auto
  next
    case False
    then obtain bad1 n1 m1 where r: "bounds_check_rule m p (Some g) cur child q (source_type (key nd)) (target_type (key nd))
        (target_class (key nd)) (data (datum nd)) bad n = Inr (bad1, n1, m1)"
      and rest: "bounds_check_cond_rules m1 p g cur l child q bad1 n1 = Inr (bad', n', m')"
      using Cons.prems nd by (auto simp: rbind_eq_Inr)
    show ?thesis using bounds_check_rule_grow[OF r assms] Cons.IH[OF rest] ln by fastforce
  qed
qed (simp add: list_nodes_def)

lemma check_conds_grow:
  assumes "attr_maps_wf p"
  shows "check_conds m p g cis child q bad n = Inr (bad', n', m') \<Longrightarrow> n \<le> n' \<and> m' \<le> m \<and>
    (n' = n \<longrightarrow> (\<forall>ci \<in> set cis.
       (\<forall>nd \<in> list_nodes p (true_list (ci_cond ci)). specified (key nd) AND AVTAB_ALLOWED \<noteq> 0 \<longrightarrow>
          within_tables p child q (Some g) (true_avtab ci) nd) \<and>
       (\<forall>nd \<in> list_nodes p (false_list (ci_cond ci)). specified (key nd) AND AVTAB_ALLOWED \<noteq> 0 \<longrightarrow>
          within_tables p child q (Some g) (false_avtab ci) nd)))"
proof (induction cis arbitrary: bad n m)
  case (Cons ci cis)
  obtain b1 n1 m1 b2 n2 m2 where
    t: "bounds_check_cond_rules m p g (true_avtab ci) (true_list (ci_cond ci)) child q bad n = Inr (b1, n1, m1)"
    and f: "bounds_check_cond_rules m1 p g (false_avtab ci) (false_list (ci_cond ci)) child q b1 n1 = Inr (b2, n2, m2)"
    and r: "check_conds m2 p g cis child q b2 n2 = Inr (bad', n', m')"
    using Cons.prems by (auto simp: rbind_eq_Inr)
  note t = bounds_check_cond_rules_grow[OF assms t] and f = bounds_check_cond_rules_grow[OF assms f] and r = Cons.IH[OF r]
  show ?case
  proof (intro conjI impI)
    assume "n' = n"
    then have "n1 = n" "n2 = n1" "n' = n2" using t f r by auto
    then show "\<forall>ci \<in> set (ci # cis).
       (\<forall>nd \<in> list_nodes p (true_list (ci_cond ci)). specified (key nd) AND AVTAB_ALLOWED \<noteq> 0 \<longrightarrow>
          within_tables p child q (Some g) (true_avtab ci) nd) \<and>
       (\<forall>nd \<in> list_nodes p (false_list (ci_cond ci)). specified (key nd) AND AVTAB_ALLOWED \<noteq> 0 \<longrightarrow>
          within_tables p child q (Some g) (false_avtab ci) nd)"
      using t f r by simp
  qed (use t f r in linarith)+
qed simp

lemma try_check_grow:
  assumes "attr_maps_wf p"
  shows "try_nodes (bounds_check_rule_callback p cur child q) ns (bad, n, m) = Inr (stop, bad', n', m') \<Longrightarrow>
    n \<le> n' \<and> m' \<le> m \<and> (n' = n \<longrightarrow> (\<forall>nd \<in> set ns. specified (key nd) AND AVTAB_ALLOWED \<noteq> 0 \<longrightarrow>
      within_tables p child q None cur nd))"
proof (induction ns arbitrary: bad n m)
  case (Cons nd ns)
  show ?case
  proof (cases "specified (key nd) AND AVTAB_ALLOWED = 0")
    case True
    then show ?thesis using Cons.IH[of bad n m] Cons.prems by (auto simp: bounds_check_rule_callback_def)
  next
    case False
    then obtain bad1 n1 m1 where r: "bounds_check_rule m p None cur child q (source_type (key nd)) (target_type (key nd))
        (target_class (key nd)) (data (datum nd)) bad n = Inr (bad1, n1, m1)"
      and rest: "try_nodes (bounds_check_rule_callback p cur child q) ns (bad1, n1, m1) = Inr (stop, bad', n', m')"
      using Cons.prems
      by (auto simp: bounds_check_rule_callback_def[of p cur child q "key nd" "datum nd" "(bad, n, m)"] rbind_eq_Inr)
    show ?thesis using bounds_check_rule_grow[OF r assms] Cons.IH[OF rest] by fastforce
  qed
qed simp

section \<open>One type\<close>

text \<open>The permissions of the child are among those of the parent, rule by rule.\<close>

definition rule_covered :: "policydb \<Rightarrow> u32 \<Rightarrow> u32 \<Rightarrow> (u16 \<times> u16 \<times> u16 \<Rightarrow> nat \<Rightarrow> bool) \<Rightarrow> avtab_node \<Rightarrow> bool" where
  "rule_covered p child q R n \<longleftrightarrow>
     (\<forall>sa ta i t b. attr_types p (source_type (key n)) = Inr sa \<longrightarrow> child - 1 \<in> ebits sa \<longrightarrow>
        attr_types p (target_type (key n)) = Inr ta \<longrightarrow> i \<in> ebits ta \<longrightarrow> target_bound p i = Inr t \<longrightarrow>
        bit (data (datum n)) b \<longrightarrow> R (ucast q, ucast t, target_class (key n)) b)"

lemma bits_not_covered:
  assumes "bounds_not_covered global cur k d = 0" "bit d b" "table_sound R cur"
    and "\<And>g. global = Some g \<Longrightarrow> table_sound G g"
  shows "R (triple k) b \<or> G (triple k) b"
proof (rule ccontr)
  assume n: "\<not> (R (triple k) b \<or> G (triple k) b)"
  define d1 where "d1 = (case avtab_search cur k of None \<Rightarrow> d | Some x \<Rightarrow> d AND NOT (data x))"
  have bl: "b < 32" using assms(2) by (rule bit_u32_less)
  have d1: "bit d1 b" using assms(2) n sound_search[OF assms(3)] bl
    by (auto simp: d1_def bit_simps split: option.splits)
  have "bit (bounds_not_covered global cur k d) b"
  proof (cases global)
    case None
    then show ?thesis using d1 by (simp add: bounds_not_covered_def d1_def)
  next
    case (Some g)
    show ?thesis
      using d1 n sound_search[OF assms(4)[OF Some]] bl unfolding bounds_not_covered_def Let_def d1_def[symmetric]
      by (auto simp: Some bit_simps split: option.splits)
  qed
  then show False using assms(1) by simp
qed

lemma within_tables_covered:
  assumes "within_tables p child q global cur n" "table_sound R cur" "\<And>g. global = Some g \<Longrightarrow> table_sound G g"
  shows "rule_covered p child q (\<lambda>tr b. R tr b \<or> G tr b) n"
  unfolding rule_covered_def
proof (intro allI impI)
  fix sa ta i t b
  assume a: "attr_types p (source_type (key n)) = Inr sa" "child - 1 \<in> ebits sa"
    "attr_types p (target_type (key n)) = Inr ta" "i \<in> ebits ta" "target_bound p i = Inr t" "bit (data (datum n)) b"
  let ?k = "\<lparr>source_type = ucast q, target_type = ucast t, target_class = target_class (key n), specified = AVTAB_ALLOWED\<rparr>"
  have "bounds_not_covered global cur ?k (data (datum n)) = 0" using assms(1) a by (simp add: within_tables_def)
  then have "R (triple ?k) b \<or> G (triple ?k) b" by (rule bits_not_covered[OF _ a(6) assms(2,3)])
  then show "R (ucast q, ucast t, target_class (key n)) b \<or> G (ucast q, ucast t, target_class (key n)) b" by simp
qed

definition cond_allows :: "policydb \<Rightarrow> cond_av_list \<Rightarrow> avtab_node set" where
  "cond_allows p l = {n \<in> list_nodes p l. specified (key n) AND AVTAB_ALLOWED \<noteq> 0}"

text \<open>The unconditional rules against what always holds; the rules of a branch also against the branch.\<close>

definition type_bounded :: "policydb \<Rightarrow> u32 \<Rightarrow> u32 \<Rightarrow> bool" where
  "type_bounded p child q \<longleftrightarrow>
     (\<forall>n \<in> te_allows p. rule_covered p child q (always p q) n) \<and>
     (\<forall>c \<in> set (cond_list p). \<forall>l \<in> {true_list c, false_list c}. \<forall>n \<in> cond_allows p l.
        rule_covered p child q (\<lambda>tr b. holds_for p q (list_nodes p l) tr b \<or> always p q tr b) n)"

lemma bounds_check_type_bounded:
  assumes c: "bounds_check_type m p child q n = Inr (bad, n', m')" and "0 < m'"
    and wf: "attr_maps_wf p" "wf_avtab (te_avtab p)"
  shows "n \<le> n' \<and> (n' = n \<longrightarrow> type_bounded p child q)"
proof -
  obtain g cis m1 where e: "bounds_expand_parent_rules m p q = Inr (g, cis, m1)"
    and k: "bounds_check_child_rules m1 p g cis child q n = Inr (bad, n', m')"
    using c by (auto simp: bounds_check_type_def rbind_eq_Inr)
  obtain s1 b1 n1 m2 b2 n2 where
    t: "try_nodes (bounds_check_rule_callback p g child q) (av_nodes (te_avtab p)) ([], 0, m1) = Inr (s1, b1, n1, m2)"
    and d: "check_conds m2 p g cis child q b1 n1 = Inr (b2, n2, m')" and n': "n' = n + n2"
    using k by (simp add: bounds_check_child_rules_def rbind_eq_Inr avtab_try_nodes[OF wf(2)] add_int_Inr split: prod.splits)
      blast
  note t = try_check_grow[OF wf(1) t] and d = check_conds_grow[OF wf(1) d]
  have "0 < m1" using t d assms(2) by simp
  note s = parent_rules_sound[OF e this wf]
  have "type_bounded p child q" if "n2 = 0"
    unfolding type_bounded_def
  proof (intro conjI ballI)
    fix nd assume nd: "nd \<in> te_allows p"
    have "n1 = 0" using t d that by simp
    then have "within_tables p child q None g nd" using t nd by (auto simp: te_allows_def)
    then show "rule_covered p child q (always p q) nd"
      using within_tables_covered[of p child q None g nd "always p q" "always p q"] s(1) by simp
  next
    fix cn l nd assume cl: "cn \<in> set (cond_list p)" "l \<in> {true_list cn, false_list cn}" "nd \<in> cond_allows p l"
    obtain ci where ci: "ci \<in> set cis" "ci_cond ci = cn" using s(3) cl(1) by (metis imageE)
    have eq: "n2 = n1" using t d that by simp
    have i: "info_sound p q ci" using s(2) ci(1) by blast
    obtain cur where cur: "table_sound (holds_for p q (list_nodes p l)) cur" "within_tables p child q (Some g) cur nd"
      using cl(2,3) d eq ci i by (auto simp: info_sound_def cond_allows_def)
    show "rule_covered p child q (\<lambda>tr b. holds_for p q (list_nodes p l) tr b \<or> always p q tr b) nd"
      by (rule within_tables_covered[OF cur(2,1)]) (use s(1) in auto)
  qed
  then show ?thesis using t d n' by auto
qed

section \<open>Memory\<close>

lemma avtab_insert_mem: "avtab_insert m h k d = Inr (h', m') \<Longrightarrow> m' \<le> m"
  by (auto simp: avtab_insert_def avtab_insert_node_def new_datum_def Let_def split: option.splits prod.splits if_splits)

lemma avtab_alloc_mem: "avtab_alloc m h n = Inr (h', m') \<Longrightarrow> m' \<le> m"
  by (auto simp: avtab_alloc_def split: option.splits if_splits)

lemma bounds_insert_rule_mem:
  assumes "bounds_insert_rule m h global other k d = Inr (h', global', m')"
  shows "m' \<le> m"
proof -
  obtain h1 m1 where h1: "(case avtab_search_or h k (data d) of
        None \<Rightarrow> bounds_insert_helper m h k d | Some h' \<Rightarrow> Inr (h', m)) = Inr (h1, m1)"
    using assms by (auto simp: bounds_insert_rule_def rbind_eq_Inr)
  have "m1 \<le> m" using h1 by (auto simp: bounds_insert_helper_def dest: avtab_insert_mem split: option.splits)
  moreover have "m' \<le> m1"
    using assms unfolding bounds_insert_rule_def h1
    by (auto simp: bounds_insert_helper_def rbind_eq_Inr Let_def dest: avtab_insert_mem split: option.splits if_splits)
  ultimately show ?thesis by simp
qed

lemma expand_targets_mem: "expand_targets m h global other q cls d is = Inr (h', global', m') \<Longrightarrow> m' \<le> m"
  by (induction "is" arbitrary: m h global) (fastforce simp: rbind_eq_Inr dest!: bounds_insert_rule_mem)+

lemma bounds_expand_rule_mem: "bounds_expand_rule m p h global other q s t c d = Inr (h', global', m') \<Longrightarrow> m' \<le> m"
  by (auto simp: bounds_expand_rule_def rbind_eq_Inr dest: expand_targets_mem split: if_splits)

lemma bounds_expand_cond_rules_mem:
  "bounds_expand_cond_rules m p l h global other q = Inr (h', global', m') \<Longrightarrow> m' \<le> m"
  by (induction l arbitrary: m h global) (fastforce simp: rbind_eq_Inr dest!: bounds_expand_rule_mem)+

lemma expand_cond_list_mem: "expand_cond_list m p l global other q = Inr (h', global', m') \<Longrightarrow> m' \<le> m"
  by (fastforce simp: expand_cond_list_def rbind_eq_Inr dest!: avtab_alloc_mem bounds_expand_cond_rules_mem split: if_splits)

lemma expand_conds_mem: "expand_conds m p q cs g cis = Inr (r, g', cis', m') \<Longrightarrow> m' \<le> m"
proof (induction cs arbitrary: m g cis)
  case (Cons c cs)
  show ?case
  proof (cases m)
    case (Suc m1)
    obtain t g1 m2 where t: "expand_cond_list m1 p (true_list c) None None q = Inr (t, g1, m2)"
      using Cons.prems Suc by (auto simp: rbind_eq_Inr)
    obtain f g2 m3 where f: "expand_cond_list m2 p (false_list c) (Some g) (Some t) q = Inr (f, g2, m3)"
      using Cons.prems Suc t by (auto simp: rbind_eq_Inr)
    obtain g3 where g3: "g2 = Some g3" using Cons.prems Suc t f by (cases g2) auto
    have "expand_conds m3 p q cs g3 (\<lparr>true_avtab = t, false_avtab = f, ci_cond = c\<rparr> # cis) = Inr (r, g', cis', m')"
      using Cons.prems by (simp add: Suc t f g3)
    from Cons.IH[OF this] show ?thesis using expand_cond_list_mem[OF t] expand_cond_list_mem[OF f] Suc by linarith
  qed (use Cons.prems in auto)
qed simp

lemma try_expand_mem:
  "try_nodes (bounds_expand_rule_callback p q) ns (h, m) = Inr (stop, h', m') \<Longrightarrow> m' \<le> m"
proof (induction ns arbitrary: h m)
  case (Cons n ns)
  obtain st h1 m1 where r: "bounds_expand_rule_callback p q (key n) (datum n) (h, m) = Inr (st, h1, m1)"
    using Cons.prems by (auto simp: rbind_eq_Inr)
  have "m1 \<le> m" using r by (auto simp: bounds_expand_rule_callback_def rbind_eq_Inr dest: bounds_expand_rule_mem split: if_splits)
  moreover have "\<not> st" using r by (auto simp: bounds_expand_rule_callback_def rbind_eq_Inr split: if_splits)
  moreover have "m' \<le> m1" using Cons.IH[of h1 m1] Cons.prems r \<open>\<not> st\<close> by simp
  ultimately show ?case by simp
qed simp

lemma bounds_expand_parent_rules_mem:
  assumes "bounds_expand_parent_rules m p q = Inr (g, cis, m')" "wf_avtab (te_avtab p)"
  shows "m' \<le> m"
proof -
  note d = assms(1)[unfolded bounds_expand_parent_rules_def avtab_try_nodes[OF assms(2)]]
  obtain g0 m0 where a: "avtab_alloc m empty_avtab BOUNDS_AVTAB_SIZE = Inr (g0, m0)" using d by (auto simp: rbind_eq_Inr)
  obtain s1 g1 m1 where t: "try_nodes (bounds_expand_rule_callback p q) (av_nodes (te_avtab p)) (g0, m0) = Inr (s1, g1, m1)"
    using d a by (auto simp: rbind_eq_Inr)
  obtain fin g2 cis2 m2 where c: "expand_conds m1 p q (cond_list p) g1 [] = Inr (fin, g2, cis2, m2)"
    using d a t by (auto simp: rbind_eq_Inr)
  have "m' = m2" using d a t c by (cases fin) auto
  then show ?thesis using avtab_alloc_mem[OF a] try_expand_mem[OF t] expand_conds_mem[OF c] by linarith
qed

section \<open>All types\<close>

lemma bounds_check_type_mem:
  assumes "bounds_check_type m p child q n = Inr (bad, n', m')" "attr_maps_wf p" "wf_avtab (te_avtab p)"
  shows "n \<le> n' \<and> m' \<le> m"
proof -
  obtain g cis m1 where e: "bounds_expand_parent_rules m p q = Inr (g, cis, m1)"
    and k: "bounds_check_child_rules m1 p g cis child q n = Inr (bad, n', m')"
    using assms(1) by (auto simp: bounds_check_type_def rbind_eq_Inr)
  note k = k[unfolded bounds_check_child_rules_def avtab_try_nodes[OF assms(3)]]
  obtain s1 b1 n1 m2 where
    t: "try_nodes (bounds_check_rule_callback p g child q) (av_nodes (te_avtab p)) ([], 0, m1) = Inr (s1, b1, n1, m2)"
    using k by (auto simp: rbind_eq_Inr)
  obtain b2 n2 where d: "check_conds m2 p g cis child q b1 n1 = Inr (b2, n2, m')" and n': "n' = n + n2"
    using k t by (auto simp: rbind_eq_Inr add_int_Inr)
  show ?thesis
    using try_check_grow[OF assms(2) t] check_conds_grow[OF assms(2) d] n' bounds_expand_parent_rules_mem[OF e assms(3)]
    by linarith
qed

fun try_entries :: "('k \<Rightarrow> 'd \<Rightarrow> 's \<Rightarrow> errcode option \<times> 's) \<Rightarrow> ('k \<times> 'd) list \<Rightarrow> 's \<Rightarrow> errcode option \<times> 's" where
  "try_entries f [] s = (None, s)"
| "try_entries f ((k, d) # es) s = (case f k d s of (None, s') \<Rightarrow> try_entries f es s' | (Some err, s') \<Rightarrow> (Some err, s'))"

lemma hashtab_try_entries: "hashtab_try h f s = try_entries f (visited_entries h) s"
proof -
  have "snd (map_chain (\<lambda>k d (_, s). case f k d s of (err, s') \<Rightarrow> (if err = None then 0 else -1, err, s')) es (None, s)) =
      try_entries f es s" for es
    by (induction f es s rule: try_entries.induct) (auto split: prod.splits option.splits)
  then show ?thesis
    by (simp add: hashtab_try_def hashtab_map_def visited_entries_def map_slots_concat split: option.split)
qed

lemma try_entries_invariant:
  assumes "\<And>k d s s'. f k d s = (None, s') \<Longrightarrow> le s s'" "\<And>s. le s s" "\<And>a b c. le a b \<Longrightarrow> le b c \<Longrightarrow> le a c"
  shows "try_entries f es s = (None, s') \<Longrightarrow> le s s' \<and>
    (\<forall>(k, d) \<in> set es. \<exists>s1 s2. le s s1 \<and> f k d s1 = (None, s2) \<and> le s2 s')"
proof (induction es arbitrary: s)
  case (Cons e es)
  obtain k d where e: "e = (k, d)" by (cases e)
  obtain s1 where s1: "f k d s = (None, s1)" and r: "try_entries f es s1 = (None, s')"
    using Cons.prems by (auto simp: e split: prod.splits option.splits)
  note IH = Cons.IH[OF r]
  have le: "le s s1" by (rule assms(1)[OF s1])
  show ?case
  proof (intro conjI ballI)
    show "le s s'" using assms(3)[OF le] IH by blast
    fix x assume "x \<in> set (e # es)"
    then consider "x = (k, d)" | "x \<in> set es" by (auto simp: e)
    then show "case x of (k, d) \<Rightarrow> \<exists>s2 s3. le s s2 \<and> f k d s2 = (None, s3) \<and> le s3 s'"
    proof cases
      case 1
      then show ?thesis using s1 IH assms(2)[of s] by auto
    next
      case 2
      then obtain s2 s3 where "le s1 s2" "f (fst x) (snd x) s2 = (None, s3)" "le s3 s'"
        using bspec[OF IH[THEN conjunct2] 2] unfolding case_prod_beta by blast
      then show ?thesis using assms(3)[OF le] unfolding case_prod_beta by blast
    qed
  qed
qed (use assms in auto)

text \<open>An accepted policy has no type that exceeds its bound.\<close>

lemma bounds_check_types_bounded:
  assumes c: "bounds_check_types m p = Inr m'" and "0 < m'" and wf: "attr_maps_wf p" "wf_avtab (te_avtab p)"
    and t: "(k, t) \<in> set (visited_entries (table (p_types p)))" "bounds t \<noteq> 0"
  shows "type_bounded p (type_value t) (bounds t)"
proof -
  obtain n where e: "try_entries (bounds_check_type_callback p) (visited_entries (table (p_types p))) (0, m) = (None, n, m')"
    and n: "n \<le> 0"
    using c by (auto simp: bounds_check_types_def hashtab_try_entries split: prod.splits option.splits if_splits)
  define le :: "int \<times> mem \<Rightarrow> int \<times> mem \<Rightarrow> bool" where "le a b \<longleftrightarrow> fst a \<le> fst b \<and> snd b \<le> snd a" for a b
  have step: "le s s'" if "bounds_check_type_callback p k d s = (None, s')" for k d s s'
    using that by (auto simp: bounds_check_type_callback_def le_def dest: bounds_check_type_mem[OF _ wf]
        split: prod.splits if_splits sum.splits)
  have "le s s" "le a b \<Longrightarrow> le b c \<Longrightarrow> le a c" for s a b c by (auto simp: le_def)
  note le = this
  have inv: "\<forall>(k, d) \<in> set (visited_entries (table (p_types p))). \<exists>s1 s2. le (0, m) s1 \<and>
      bounds_check_type_callback p k d s1 = (None, s2) \<and> le s2 (n, m')"
    by (rule try_entries_invariant[THEN conjunct2, OF _ _ _ e]) (use step le in blast)+
  from inv t(1) obtain s1 s2 where s: "le (0, m) s1" "bounds_check_type_callback p k t s1 = (None, s2)" "le s2 (n, m')"
    by blast
  obtain n1 m1 bad n2 m2 where "s1 = (n1, m1)" "s2 = (n2, m2)"
    "bounds_check_type m1 p (type_value t) (bounds t) n1 = Inr (bad, n2, m2)"
    using s(2) t(2) by (cases s1) (auto simp: bounds_check_type_callback_def split: sum.splits)
  moreover from this have "0 \<le> n1" "n2 \<le> n" "0 < m2" using s(1,3) assms(2) by (auto simp: le_def)
  ultimately show ?thesis using bounds_check_type_bounded[OF _ \<open>0 < m2\<close> wf] n by fastforce
qed

section \<open>Access decisions\<close>

text \<open>The two type maps are inverse to each other, and the types fit into the 16 bits of a rule.\<close>

definition types_inverse :: "policydb \<Rightarrow> bool" where
  "types_inverse p \<longleftrightarrow> types_listed p \<and> length (type_attr_map p) \<le> 65535 \<and>
     (\<forall>e \<in> set (attr_type_map p). \<forall>i \<in> ebits e. unat i < 65535) \<and>
     (\<forall>x a ea ex. arr (attr_type_map p) (unat a) = Some ea \<longrightarrow> x \<in> ebits ea \<longrightarrow>
        arr (type_attr_map p) (unat x) = Some ex \<longrightarrow> a \<in> ebits ex)"

text \<open>One branch of every conditional is in force, and no other rule.\<close>

definition one_branch :: "nat set \<Rightarrow> cond_node list \<Rightarrow> bool" where
  "one_branch on cs \<longleftrightarrow> on \<subseteq> set (rule_lists cs) \<and>
     (\<forall>c \<in> set cs. set (true_list c) \<subseteq> on \<and> set (false_list c) \<inter> on = {} \<or>
        set (false_list c) \<subseteq> on \<and> set (true_list c) \<inter> on = {})"

lemma u16_of_u32: "ucast (ucast (s :: u16) :: u32) = s"
  by transfer (simp add: take_bit_take_bit)

lemma attr_types_entry:
  assumes "attr_types p s = Inr e"
  shows "\<exists>a :: u32. arr (attr_type_map p) (unat a) = Some e \<and> ucast (a + 1) = s"
proof -
  have s: "s \<noteq> 0" and e: "arr (attr_type_map p) (unat s - 1) = Some e"
    using assms by (auto simp: attr_types_def split: if_splits option.splits)
  have "unat s \<noteq> 0" using s by (simp add: unat_eq_zero)
  then have pos: "0 < unat s" by simp
  have b: "unat s < 65536" using unsigned_less[of s] by simp
  then have u: "unat (of_nat (unat s - 1) :: u32) = unat s - 1" by (simp add: unat_of_nat)
  have "of_nat (unat s - 1) + (1 :: u32) = of_nat (unat s)" using pos by (simp add: of_nat_diff)
  then have "ucast (of_nat (unat s - 1) + (1 :: u32)) = s" by (simp add: u16_of_u32)
  then show ?thesis using e u by (intro exI[of _ "of_nat (unat s - 1)"]) simp
qed

lemma parent_in_scope:
  fixes t :: u32
  assumes r: "reached p q n (ucast q, ucast t, cls)" and p: "types_inverse p"
    and q: "arr (type_attr_map p) (unat (q - 1)) = Some qattr" and t: "arr (type_attr_map p) (unat (t - 1)) = Some tattr"
  shows "in_scope (ebits qattr) (ebits tattr) cls (key n)"
proof -
  obtain sa ta i where sa: "attr_types p (source_type (key n)) = Inr sa" "q - 1 \<in> ebits sa"
    and ta: "attr_types p (target_type (key n)) = Inr ta" "i \<in> ebits ta"
    and i: "ucast t = (ucast (i + 1) :: u16)" and c: "cls = target_class (key n)"
    using r by (auto simp: reached_def)
  have inv: "a \<in> ebits ex" if "arr (attr_type_map p) (unat a) = Some ea" "x \<in> ebits ea"
      "arr (type_attr_map p) (unat x) = Some ex" for a x ea ex
    using p that unfolding types_inverse_def by blast
  obtain a :: u32 where a: "arr (attr_type_map p) (unat a) = Some sa" "ucast (a + 1) = source_type (key n)"
    using attr_types_entry[OF sa(1)] by blast
  obtain b :: u32 where b: "arr (attr_type_map p) (unat b) = Some ta" "ucast (b + 1) = target_type (key n)"
    using attr_types_entry[OF ta(1)] by blast
  have "unat i < 65535" using arr_in_set[OF b(1)] ta(2) p unfolding types_inverse_def by blast
  moreover have "unat (t - 1) < 65535" using t p by (auto simp: arr_def types_inverse_def split: if_splits)
  ultimately have "i = t - 1" using ucast_succ(1)[of i] ucast_succ(1)[of "t - 1"] i by simp
  then have "b \<in> ebits tattr" using inv[OF b(1) ta(2)] t by simp
  moreover have "a \<in> ebits qattr" using inv[OF a(1) sa(2) q] .
  ultimately show ?thesis using a(2)[symmetric] b(2)[symmetric] c unfolding in_scope_def triple_def by blast
qed

lemma node_at_self:
  assumes "distinct (map addr (av_nodes h))" "n \<in> set (av_nodes h)"
  shows "node_at h (addr n) = Inr n"
proof -
  have "find (\<lambda>m. addr m = addr n) (av_nodes h) \<noteq> None" using assms(2) by (auto simp: find_None_iff)
  then obtain m where m: "find (\<lambda>m. addr m = addr n) (av_nodes h) = Some m" by auto
  then have "m \<in> set (av_nodes h)" "addr m = addr n" by (auto simp: find_Some_iff)
  then have "m = n" using assms by (auto simp: distinct_map dest: inj_onD)
  then show ?thesis using m by (simp add: node_at_def)
qed

lemma list_nodes_in_force:
  assumes "set l \<subseteq> on"
  shows "list_nodes p l \<subseteq> in_force on (te_avtab p) (te_cond_avtab p) {}"
  using assms node_at_eq_Inr[of "te_cond_avtab p"] by (fastforce simp: list_nodes_def in_force_def)

text \<open>What always holds is in force, whichever branches are.\<close>

lemma holds_for_mono: "holds_for p q N tr b \<Longrightarrow> N \<subseteq> M \<Longrightarrow> holds_for p q M tr b"
  by (auto simp: holds_for_def)

lemma always_in_force:
  assumes "always p q tr b" "one_branch on (cond_list p)" "te_allows p \<subseteq> M"
    and "\<And>l. set l \<subseteq> on \<Longrightarrow> list_nodes p l \<subseteq> M"
  shows "holds_for p q M tr b"
proof -
  from assms(1) consider "holds_for p q (te_allows p) tr b"
    | c where "c \<in> set (cond_list p)" "holds_for p q (list_nodes p (true_list c)) tr b"
      "holds_for p q (list_nodes p (false_list c)) tr b"
    unfolding always_def by blast
  then show ?thesis
  proof cases
    case 2
    then have "set (true_list c) \<subseteq> on \<or> set (false_list c) \<subseteq> on" using assms(2) by (auto simp: one_branch_def)
    then show ?thesis using holds_for_mono assms(4) 2 by blast
  qed (rule holds_for_mono[OF _ assms(3)])
qed

text \<open>
  What the reader establishes of a policy: plain rules, inverse type maps, and an index of types that
  agrees with the symbol table.
\<close>

definition bounds_ready :: "policydb \<Rightarrow> bool" where
  "bounds_ready p \<longleftrightarrow> types_inverse p \<and> plain_rules (te_avtab p) \<and> cond_rules_ok (te_cond_avtab p) \<and>
     (\<forall>x d. ptr_arr (type_val_to_struct p) (unat x) = Some d \<longrightarrow>
        type_value d = x + 1 \<and> (\<exists>k. (k, d) \<in> set (visited_entries (table (p_types p)))))"

lemma kind_allowed: "single_kind n \<Longrightarrow> node_kind n = AVTAB_ALLOWED \<longleftrightarrow> specified (key n) AND AVTAB_ALLOWED \<noteq> 0"
proof -
  assume n: "single_kind n"
  have "bit (specified (key n)) 0 \<longleftrightarrow> node_kind n = 2 ^ 0" by (rule bit_node_kind[OF n]) simp
  then show ?thesis using and_single_bit_eq_0[of 0 "specified (key n)"] by simp
qed

lemma child_within_parent:
  assumes c: "bounds_check_types m p = Inr m'" "0 < m'" and p: "bounds_ready p"
    and al: "\<forall>n \<in> set (av_nodes (te_cond_avtab p)). node_kind n = AVTAB_ALLOWED" and on: "one_branch on (cond_list p)"
    and b: "bounding_pair p s t = Inr (Some (s', t'))"
    and s: "arr (type_attr_map p) (unat (type s - 1)) = Some sattr" and t: "arr (type_attr_map p) (unat (type t - 1)) = Some tattr"
    and s': "arr (type_attr_map p) (unat (type s' - 1)) = Some sattr'" and t': "arr (type_attr_map p) (unat (type t' - 1)) = Some tattr'"
    and k: "bit (allowed (te_decision (switched_to on p) cls sattr tattr)) k"
  shows "bit (allowed (te_decision (switched_to on p) cls sattr' tattr')) k"
proof -
  let ?F = "in_force on (te_avtab p) (te_cond_avtab p) {}"
  have inv: "types_inverse p" and pl: "plain_rules (te_avtab p)" and cr: "cond_rules_ok (te_cond_avtab p)"
    and all: "\<And>n. n \<in> set (av_nodes (te_cond_avtab p)) \<Longrightarrow> node_kind n = AVTAB_ALLOWED"
    and idx: "\<And>x d. ptr_arr (type_val_to_struct p) (unat x) = Some d \<Longrightarrow>
        type_value d = x + 1 \<and> (\<exists>k. (k, d) \<in> set (visited_entries (table (p_types p))))"
    using p al by (simp_all add: bounds_ready_def)
  have ti: "types_listed p" and rok: "rules_ok (te_avtab p)" "rules_ok (te_cond_avtab p)"
    using inv pl cr by (simp_all add: types_inverse_def plain_rules_def cond_rules_ok_def)
  have w: "wf_ebitmap sattr" "wf_ebitmap tattr" "wf_ebitmap sattr'" "wf_ebitmap tattr'"
    using s t s' t' ti by (auto simp: types_listed_def dest: arr_in_set)
  have sk: "single_kind n" if "n \<in> ?F" for n using that rok by (auto simp: in_force_def rules_ok_def)
  obtain ds dt where ds: "ptr_arr (type_val_to_struct p) (unat (type s - 1)) = Some ds" "bounds ds \<noteq> 0"
    and dt: "ptr_arr (type_val_to_struct p) (unat (type t - 1)) = Some dt"
    and st': "s' = s\<lparr>type := bounds ds\<rparr>" "t' = (if bounds dt \<noteq> 0 then t\<lparr>type := bounds dt\<rparr> else t)"
    using b by (auto simp: bounding_pair_def split: option.splits if_splits)
  obtain nm where nm: "(nm, ds) \<in> set (visited_entries (table (p_types p)))" and v: "type_value ds = type s"
    using idx[OF ds(1)] by auto
  have q: "type s' = bounds ds" by (simp add: st')
  have tb: "target_bound p (type t - 1) = Inr (type t')"
    using dt by (auto simp: target_bound_def ptr_arr_def arr_def st' split: if_splits)
  have bd: "type_bounded p (type s) (type s')"
    using bounds_check_types_bounded[OF c _ _ nm ds(2)] ti rok v q by (simp add: types_listed_def rules_ok_def)
  obtain n where n: "n \<in> ?F" "in_scope (ebits sattr) (ebits tattr) cls (key n)" "node_kind n = 1" "bit (data (datum n)) k"
    using k te_decision_switched(1)[OF pl rok(2) w(1,2) refl] by (auto simp: scope_grants_def kind_grants)
  obtain i j where ij: "i \<in> ebits sattr" "j \<in> ebits tattr" "source_type (key n) = ucast (i + 1)"
    "target_type (key n) = ucast (j + 1)" "target_class (key n) = cls"
    using n(2) by (auto simp: in_scope_def triple_def)
  obtain sa where sa: "attr_types p (source_type (key n)) = Inr sa" "type s - 1 \<in> ebits sa"
    using scope_types[OF ti s ij(1)] ij(3) by metis
  obtain ta where ta: "attr_types p (target_type (key n)) = Inr ta" "type t - 1 \<in> ebits ta"
    using scope_types[OF ti t ij(2)] ij(4) by metis
  have cov: "R (ucast (type s'), ucast (type t'), cls) k" if "rule_covered p (type s) (type s') R n" for R
    using that sa ta tb n(4) ij(5) unfolding rule_covered_def by blast
  have al: "specified (key n) AND AVTAB_ALLOWED \<noteq> 0" using n(3) kind_allowed[OF sk[OF n(1)]] by simp
  let ?A = "{n \<in> ?F. node_kind n = 1}"
  have A: "te_allows p \<subseteq> ?A" "\<And>l. set l \<subseteq> on \<Longrightarrow> list_nodes p l \<subseteq> ?A"
  proof -
    show "te_allows p \<subseteq> ?A"
      using kind_allowed rok(1) by (auto simp: te_allows_def in_force_def rules_ok_def)
    show "list_nodes p l \<subseteq> ?A" if "set l \<subseteq> on" for l
      using list_nodes_in_force[OF that, of p] all node_at_eq_Inr[of "te_cond_avtab p"] by (fastforce simp: list_nodes_def)
  qed
  have hold: "holds_for p (type s') ?A (ucast (type s'), ucast (type t'), cls) k"
  proof (cases "n \<in> set (av_nodes (te_avtab p))")
    case True
    then have "n \<in> te_allows p" using al by (simp add: te_allows_def)
    then have "always p (type s') (ucast (type s'), ucast (type t'), cls) k" using bd cov by (auto simp: type_bounded_def)
    then show ?thesis by (rule always_in_force[OF _ on A])
  next
    case False
    then have nc: "n \<in> set (av_nodes (te_cond_avtab p))" "addr n \<in> on" using n(1) by (auto simp: in_force_def)
    then obtain cn l where l: "cn \<in> set (cond_list p)" "l \<in> {true_list cn, false_list cn}" "addr n \<in> set l"
      using on unfolding one_branch_def rule_lists_def by fastforce
    have "node_at (te_cond_avtab p) (addr n) = Inr n"
      using node_at_self[OF _ nc(1)] cr by (simp add: cond_rules_ok_def)
    then have "n \<in> cond_allows p l" using l(3) al by (auto simp: cond_allows_def list_nodes_def)
    then have "holds_for p (type s') (list_nodes p l) (ucast (type s'), ucast (type t'), cls) k \<or>
        always p (type s') (ucast (type s'), ucast (type t'), cls) k"
      using bd l(1,2) cov unfolding type_bounded_def by blast
    moreover have "set l \<subseteq> on" using on l nc(2) unfolding one_branch_def by blast
    ultimately show ?thesis
      using always_in_force[OF _ on A] holds_for_mono A(2) by blast
  qed
  then obtain n' where n': "n' \<in> ?F" "node_kind n' = 1" "reached p (type s') n' (ucast (type s'), ucast (type t'), cls)" "bit (data (datum n')) k"
    by (auto simp: holds_for_def)
  have "in_scope (ebits sattr') (ebits tattr') cls (key n')" by (rule parent_in_scope[OF n'(3) inv s' t'])
  then have "Av 1 k \<in> scope_grants (ebits sattr') (ebits tattr') cls ?F"
    using n' by (auto simp: scope_grants_def kind_grants)
  then show ?thesis using te_decision_switched(1)[OF pl rok(2) w(3,4) refl] by blast
qed

end
