(* ===== verification/Hierarchy_Properties.thy ===== *)
theory Hierarchy_Properties
  imports Hierarchy_Props Assertion_Properties
begin




lemma demo_decision:
  assumes "plain_rules (te_avtab p)" "rules_ok (te_cond_avtab p)" "a \<in> {1, 2}"
  shows "bit (allowed (te_decision (switched_to on p) 1 (bits64 a) (bits64 1))) k \<longleftrightarrow>
    list_ex (\<lambda>n. triple (key n) = (ucast a, 1, 1) \<and> node_kind n = 1 \<and> bit (data (datum n)) k)
      (av_nodes (te_avtab p) @ filter (\<lambda>n. addr n \<in> on) (av_nodes (te_cond_avtab p)))"
proof -
  have one: "ebits (bits64 1) = {0}" "ebits (bits64 2) = {1}" using bits64_single[of 0] bits64_single[of 1] by simp_all
  have "in_scope (ebits (bits64 a)) (ebits (bits64 1)) 1 x \<longleftrightarrow> triple x = (ucast a, 1, 1)" for x
    using assms(3) by (auto simp: in_scope_def one)
  then show ?thesis
    unfolding te_decision_switched(1)[OF assms(1,2) wf_bits64 wf_bits64 refl] scope_grants_def
    by (auto simp: kind_grants in_force_def list_ex_iff)
qed

lemma demo_rule_kind: "s \<in> {1, 2, 4} \<Longrightarrow> node_kind (demo_rule x y c s d a) = s \<and> single_kind (demo_rule x y c s d a)"
  unfolding single_kind_def
  by (auto simp: node_kind_def demo_rule_def rule_kind_def xperms_full_def intro: exI[of _ 0] exI[of _ "1::nat"] exI[of _ "2::nat"])





text \<open>A conditional rule gives \<open>app_t\<close> more than \<open>user_t\<close> has.\<close>

definition demo_excess :: policydb where
  "demo_excess = demo\<lparr>
     te_avtab := one_chain [demo_rule 1 1 1 AVTAB_ALLOWED 3 1],
     te_cond_avtab := one_chain [demo_rule 2 1 1 AVTAB_ALLOWED 16 12],
     cond_list := [demo_cond\<lparr>true_list := [], false_list := [12]\<rparr>]\<rparr>"

text \<open>C33: when memory runs out at the start of a conditional, \<^verbatim>\<open>bounds_expand_parent_rules\<close> returns its
  status zero, the caller goes on without the conditionals, and the check accepts a policy that it
  refuses when it has memory.\<close>

theorem bounds_out_of_memory_accepts:
  "bounds_check_types 40 demo_excess = Inl EFAIL \<and> bounds_check_types 2 demo_excess = Inr 0"
proof
  show "bounds_check_types 40 demo_excess = Inl EFAIL" by code_simp
  show "bounds_check_types 2 demo_excess = Inr 0" by code_simp
qed

text \<open>The same conditional has an \<^verbatim>\<open>auditallow\<close> rule for the parent.\<close>

definition demo_audited :: policydb where
  "demo_audited = demo\<lparr>
     te_avtab := one_chain [],
     te_cond_avtab := one_chain [demo_rule 1 1 1 AVTAB_AUDITALLOW 16 11, demo_rule 2 1 1 AVTAB_ALLOWED 16 12],
     cond_list := [demo_cond\<lparr>true_list := [11, 12], false_list := []\<rparr>]\<rparr>"

text \<open>C34: conditional rules of the parent count as permissions whatever their kind. With
  \<^verbatim>\<open>auditallow user_t ...\<close> and \<^verbatim>\<open>allow app_t ...\<close> in one branch the check accepts, although \<open>app_t\<close> has
  the permission and its parent \<open>user_t\<close> does not.\<close>

theorem bounds_audit_rule_counts:
  "(\<exists>m. bounds_check_types 40 demo_audited = Inr m \<and> 0 < m) \<and>
   bit (allowed (te_decision (switched_to {11, 12} demo_audited) 1 (bits64 2) (bits64 1))) 4 \<and>
   \<not> bit (allowed (te_decision (switched_to {11, 12} demo_audited) 1 (bits64 1) (bits64 1))) 4"
proof (intro conjI)
  have "case bounds_check_types 40 demo_audited of Inr m \<Rightarrow> 0 < m | _ \<Rightarrow> False" by code_simp
  then show "\<exists>m. bounds_check_types 40 demo_audited = Inr m \<and> 0 < m" by (auto split: sum.splits)
  have te: "te_avtab demo_audited = one_chain []"
    and ct: "te_cond_avtab demo_audited = one_chain [demo_rule 1 1 1 2 16 11, demo_rule 2 1 1 1 16 12]"
    by (simp_all add: demo_audited_def)
  have s: "chain_sorted []" "chain_sorted [demo_rule 1 1 1 2 16 11, demo_rule 2 1 1 1 16 12]"
    by (simp_all add: chain_sorted_Cons key_before_def demo_rule_def)
  have ok: "plain_rules (te_avtab demo_audited)" "rules_ok (te_cond_avtab demo_audited)"
    unfolding te ct plain_rules_def rules_ok_def using wf_one_chain[OF s(1)] wf_one_chain[OF s(2)]
    by (simp_all add: av_nodes_def one_chain_def demo_rule_kind)
  note d = demo_decision[OF ok, of _ "{11, 12}" 4]
  show "bit (allowed (te_decision (switched_to {11, 12} demo_audited) 1 (bits64 2) (bits64 1))) 4"
    "\<not> bit (allowed (te_decision (switched_to {11, 12} demo_audited) 1 (bits64 1) (bits64 1))) 4"
    using d[of 2] d[of 1]
    by (simp_all add: te ct av_nodes_def one_chain_def)
      (simp_all add: demo_rule_def triple_def bit_numeral_rec node_kind_def rule_kind_def)
qed

end
