(* ===== verification/Datum_IO.thy ===== *)
theory Datum_IO
  imports Validate_Policy
begin

text \<open>
  The readers of the symbols of a policy in \<^verbatim>\<open>src/policydb.c\<close>: levels, ranges and contexts, and
  one reader for each kind of symbol (\<^verbatim>\<open>read_f\<close>), which reads a key and a datum and inserts them
  into a symbol table.

  A reader takes the memory budget, the database, the table and the file, and gives the new table,
  the rest of the file and the rest of the budget. Whatever goes wrong, its status is -1
  (\<open>EFAIL\<close>); the database is given up, so nothing else of it is kept. \<^verbatim>\<open>*_item\<close> is what a reader
  does before it inserts. Integers that are kept in network order are read as a little-endian host
  reads them.
\<close>

abbreviation (input) "POLICYDB_VERSION_VALIDATETRANS \<equiv> 19"
abbreviation (input) "POLICYDB_VERSION_BOUNDARY \<equiv> 24"
abbreviation (input) "POLICYDB_VERSION_NEW_OBJECT_DEFAULTS \<equiv> 27"
abbreviation (input) "POLICYDB_VERSION_DEFAULT_TYPE \<equiv> 28"
abbreviation (input) "POLICYDB_VERSION_CONSTRAINT_NAMES \<equiv> 29"
abbreviation (input) "MOD_POLICYDB_VERSION_VALIDATETRANS \<equiv> 5"
abbreviation (input) "MOD_POLICYDB_VERSION_MLS_USERS \<equiv> 6"
abbreviation (input) "MOD_POLICYDB_VERSION_PERMISSIVE \<equiv> 8"
abbreviation (input) "MOD_POLICYDB_VERSION_BOUNDARY \<equiv> 9"
abbreviation (input) "MOD_POLICYDB_VERSION_BOUNDARY_ALIAS \<equiv> 10"
abbreviation (input) "MOD_POLICYDB_VERSION_ROLEATTRIB \<equiv> 13"
abbreviation (input) "MOD_POLICYDB_VERSION_NEW_OBJECT_DEFAULTS \<equiv> 15"
abbreviation (input) "MOD_POLICYDB_VERSION_DEFAULT_TYPE \<equiv> 16"
abbreviation (input) "TYPEDATUM_PROPERTY_PRIMARY \<equiv> 1"
abbreviation (input) "TYPEDATUM_PROPERTY_ATTRIBUTE \<equiv> 2"
abbreviation (input) "TYPEDATUM_PROPERTY_ALIAS \<equiv> 4"
abbreviation (input) "TYPEDATUM_PROPERTY_PERMISSIVE \<equiv> 8"
abbreviation (input) "TYPE_FLAGS_PERMISSIVE \<equiv> 1"
abbreviation (input) "OBJECT_R \<equiv> ''object_r''"

definition policydb_has_boundary_feature :: "policydb \<Rightarrow> bool" where
  "policydb_has_boundary_feature p \<longleftrightarrow>
     (policy_type p = POLICY_KERN \<and> policyvers p \<ge> POLICYDB_VERSION_BOUNDARY) \<or>
     (policy_type p \<noteq> POLICY_KERN \<and> policyvers p \<ge> MOD_POLICYDB_VERSION_BOUNDARY)"

text \<open>The test of the version for kernel policies and for base modules.\<close>

definition kern_or_base :: "policydb \<Rightarrow> u32 \<Rightarrow> u32 \<Rightarrow> bool" where
  "kern_or_base p kern base \<longleftrightarrow>
     (policy_type p = POLICY_KERN \<and> policyvers p \<ge> kern) \<or>
     (policy_type p = POLICY_BASE \<and> policyvers p \<ge> base)"

definition as_inval :: "errcode + 'a \<Rightarrow> errcode + 'a" where
  "as_inval r = (case r of Inl UNDEF \<Rightarrow> Inl UNDEF | Inl _ \<Rightarrow> Inl EINVAL | Inr x \<Rightarrow> Inr x)"

text \<open>A loop of \<open>n\<close> rounds of a reader that changes a state.\<close>

fun read_loop ::
  "(mem \<Rightarrow> 's \<Rightarrow> policy_file \<Rightarrow> errcode + 's \<times> policy_file \<times> mem) \<Rightarrow> nat \<Rightarrow> mem \<Rightarrow> 's \<Rightarrow> policy_file
     \<Rightarrow> errcode + 's \<times> policy_file \<times> mem" where
  "read_loop rd 0 m s fp = Inr (s, fp, m)"
| "read_loop rd (Suc n) m s fp = rbind (rd m s fp) (\<lambda>(s, fp, m). read_loop rd n m s fp)"

text \<open>A string of \<open>len\<close> bytes, and the insertion at the end of the readers.\<close>

definition read_str :: "mem \<Rightarrow> policy_file \<Rightarrow> u32 \<Rightarrow> errcode + string \<times> policy_file \<times> mem" where
  "read_str m fp len = rbind (str_read m fp (ucast len)) (\<lambda>(bs, fp, m). Inr (c_string bs, fp, m))"

definition sym_put ::
  "(string, 'd) hashtab \<Rightarrow> string \<Rightarrow> 'd \<Rightarrow> policy_file \<Rightarrow> mem
     \<Rightarrow> errcode + (string, 'd) hashtab \<times> policy_file \<times> mem" where
  "sym_put h k d fp m =
     (case hashtab_insert symhash symcmp m h k d of
        (Some _, _, _) \<Rightarrow> Inl EFAIL
      | (None, h', m) \<Rightarrow> Inr (h', fp, m))"

section \<open>Levels, ranges and contexts\<close>

text \<open>With no item \<^verbatim>\<open>buf[0]\<close> is still the number of items.\<close>

definition mls_read_range_helper :: "mem \<Rightarrow> policy_file \<Rightarrow> errcode + mls_range \<times> policy_file \<times> mem" where
  "mls_read_range_helper m fp =
     rbind (next_u32s fp 1) (\<lambda>(buf, fp).
     let items = buf ! 0 in
     if items > 2 then Inl EINVAL
     else
       rbind (next_u32s fp (unat items)) (\<lambda>(buf', fp).
       let s0 = (if items = 0 then buf ! 0 else buf' ! 0);
           s1 = (if items > 1 then buf' ! 1 else s0)
       in
         rbind (ebitmap_read m fp) (\<lambda>(c0, fp, m).
         rbind (if items > 1 then ebitmap_read m fp
                else rbind (ebitmap_cpy m c0) (\<lambda>(c1, m). Inr (c1, fp, m))) (\<lambda>(c1, fp, m).
           Inr (\<lparr>low = \<lparr>sens = s0, cat = c0\<rparr>, high = \<lparr>sens = s1, cat = c1\<rparr>\<rparr>, fp, m)))))"

text \<open>Every category is put in front of the list.\<close>

definition semantic_cat_read ::
  "mem \<Rightarrow> mls_semantic_cat list \<Rightarrow> policy_file \<Rightarrow> errcode + mls_semantic_cat list \<times> policy_file \<times> mem" where
  "semantic_cat_read m cs fp =
     (case malloc m of
        None \<Rightarrow> Inl EFAIL
      | Some m \<Rightarrow>
          rbind (next_u32s fp 2) (\<lambda>(buf, fp).
            Inr (\<lparr>scat_low = buf ! 0, scat_high = buf ! 1\<rparr> # cs, fp, m)))"

definition mls_read_semantic_level_helper ::
  "mem \<Rightarrow> policy_file \<Rightarrow> errcode + mls_semantic_level \<times> policy_file \<times> mem" where
  "mls_read_semantic_level_helper m fp =
     as_inval
       (rbind (next_u32s fp 2) (\<lambda>(buf, fp).
        rbind (read_loop semantic_cat_read (unat (buf ! 1)) m [] fp) (\<lambda>(cs, fp, m).
          Inr (\<lparr>ssens = buf ! 0, scat = cs\<rparr>, fp, m))))"

definition mls_read_semantic_range_helper ::
  "mem \<Rightarrow> policy_file \<Rightarrow> errcode + mls_semantic_range \<times> policy_file \<times> mem" where
  "mls_read_semantic_range_helper m fp =
     rbind (mls_read_semantic_level_helper m fp) (\<lambda>(l0, fp, m).
     rbind (mls_read_semantic_level_helper m fp) (\<lambda>(l1, fp, m).
       Inr (\<lparr>slow = l0, shigh = l1\<rparr>, fp, m)))"

text \<open>
  The loop over the bits of a map: \<open>i\<close> is the loop variable, \<open>opn\<close> tells whether \<^verbatim>\<open>open_cat\<close>,
  the head of the list, is still to be closed.
\<close>

definition close_cat :: "u32 \<Rightarrow> mls_semantic_cat list \<Rightarrow> mls_semantic_cat list" where
  "close_cat i cs = (case cs of [] \<Rightarrow> [] | c # r \<Rightarrow> c\<lparr>scat_high := i\<rparr> # r)"

fun semantic_cats ::
  "mem \<Rightarrow> (ebitmap_node \<times> u32) list \<Rightarrow> u32 \<Rightarrow> bool \<Rightarrow> mls_semantic_cat list
     \<Rightarrow> errcode + mls_semantic_cat list \<times> mem" where
  "semantic_cats m [] i opn cs = Inr (if opn then close_cat i cs else cs, m)"
| "semantic_cats m ((n, b) # v) i opn cs =
     (if ebitmap_node_get_bit n b then
        (if opn then semantic_cats m v (b + 1) True cs
         else case malloc m of
           None \<Rightarrow> Inl EFAIL
         | Some m \<Rightarrow> semantic_cats m v (b + 1) True (\<lparr>scat_low = b + 1, scat_high = 0\<rparr> # cs))
      else if \<not> opn then semantic_cats m v (b + 1) False cs
      else semantic_cats m v (b + 1) False (close_cat b cs))"

definition mls_level_to_semantic :: "mem \<Rightarrow> mls_level \<Rightarrow> errcode + mls_semantic_level \<times> mem" where
  "mls_level_to_semantic m l =
     rbind (semantic_cats m (ebitmap_bits_visited (cat l)) 0 False []) (\<lambda>(cs, m).
       Inr (\<lparr>ssens = sens l, scat = cs\<rparr>, m))"

definition mls_range_to_semantic :: "mem \<Rightarrow> mls_range \<Rightarrow> errcode + mls_semantic_range \<times> mem" where
  "mls_range_to_semantic m r =
     rbind (mls_level_to_semantic m (low r)) (\<lambda>(l0, m).
     rbind (mls_level_to_semantic m (high r)) (\<lambda>(l1, m). Inr (\<lparr>slow = l0, shigh = l1\<rparr>, m)))"

definition context_read_and_validate ::
  "policydb \<Rightarrow> mem \<Rightarrow> policy_file \<Rightarrow> errcode + context_struct \<times> policy_file \<times> mem" where
  "context_read_and_validate p m fp =
     as_fail
       (rbind (next_u32s fp 3) (\<lambda>(buf, fp).
        let c = context_init\<lparr>user := buf ! 0, role := buf ! 1, type := buf ! 2\<rparr> in
        rbind (if kern_or_base p POLICYDB_VERSION_MLS MOD_POLICYDB_VERSION_MLS
               then rbind (mls_read_range_helper m fp) (\<lambda>(r, fp, m). Inr (c\<lparr>range := r\<rparr>, fp, m))
               else Inr (c, fp, m)) (\<lambda>(c, fp, m).
          if \<not> context_is_valid p c then Inl EFAIL else Inr (c, fp, m))))"

definition mls_read_level :: "mem \<Rightarrow> policy_file \<Rightarrow> errcode + mls_level \<times> policy_file \<times> mem" where
  "mls_read_level m fp =
     as_inval
       (rbind (next_u32s fp 1) (\<lambda>(buf, fp).
        rbind (ebitmap_read m fp) (\<lambda>(c, fp, m). Inr (\<lparr>sens = buf ! 0, cat = c\<rparr>, fp, m))))"

section \<open>Permissions and commons\<close>

definition perm_item :: "u32 \<Rightarrow> mem \<Rightarrow> policy_file \<Rightarrow> errcode + (string \<times> perm_datum) \<times> policy_file \<times> mem" where
  "perm_item n m fp =
     (case malloc m of
        None \<Rightarrow> Inl EFAIL
      | Some m \<Rightarrow>
          rbind (next_u32s fp 2) (\<lambda>(buf, fp).
          rbind (read_str m fp (buf ! 0)) (\<lambda>(k, fp, m).
            if \<not> value_isvalid (buf ! 1) n then Inl EFAIL
            else Inr ((k, \<lparr>perm_value = buf ! 1\<rparr>), fp, m))))"

text \<open>A reader of items, and the insertion of what it read.\<close>

definition read_put ::
  "(mem \<Rightarrow> policy_file \<Rightarrow> errcode + (string \<times> 'd) \<times> policy_file \<times> mem)
     \<Rightarrow> mem \<Rightarrow> (string, 'd) hashtab \<Rightarrow> policy_file \<Rightarrow> errcode + (string, 'd) hashtab \<times> policy_file \<times> mem" where
  "read_put rd m h fp = as_fail (rbind (rd m fp) (\<lambda>((k, d), fp, m). sym_put h k d fp m))"

definition perm_read ::
  "u32 \<Rightarrow> mem \<Rightarrow> (string, perm_datum) hashtab \<Rightarrow> policy_file
     \<Rightarrow> errcode + (string, perm_datum) hashtab \<times> policy_file \<times> mem" where
  "perm_read n = read_put (perm_item n)"

text \<open>The table of the permissions of a class or of a common.\<close>

definition perms_init :: "u32 \<Rightarrow> mem \<Rightarrow> errcode + perm_datum symtab \<times> mem" where
  "perms_init n m =
     rbind (symtab_init m PERM_SYMTAB_SIZE) (\<lambda>(s, m).
       if n > PERM_SYMTAB_SIZE then Inl EFAIL else Inr (s\<lparr>nprim := n\<rparr>, m))"

definition perms_read ::
  "perm_datum symtab \<Rightarrow> u32 \<Rightarrow> mem \<Rightarrow> policy_file \<Rightarrow> errcode + perm_datum symtab \<times> policy_file \<times> mem" where
  "perms_read s n m fp =
     rbind (read_loop (perm_read (nprim s)) (unat n) m (table s) fp) (\<lambda>(h, fp, m).
       Inr (s\<lparr>table := h\<rparr>, fp, m))"

definition common_item :: "mem \<Rightarrow> policy_file \<Rightarrow> errcode + (string \<times> common_datum) \<times> policy_file \<times> mem" where
  "common_item m fp =
     (case malloc m of
        None \<Rightarrow> Inl EFAIL
      | Some m \<Rightarrow>
          rbind (next_u32s fp 4) (\<lambda>(buf, fp).
          rbind (read_str m fp (buf ! 0)) (\<lambda>(k, fp, m).
          rbind (perms_init (buf ! 2) m) (\<lambda>(s, m).
          rbind (perms_read s (buf ! 3) m fp) (\<lambda>(s, fp, m).
            Inr ((k, \<lparr>common_value = buf ! 1, common_permissions = s\<rparr>), fp, m))))))"

definition common_read ::
  "policydb \<Rightarrow> mem \<Rightarrow> (string, common_datum) hashtab \<Rightarrow> policy_file
     \<Rightarrow> errcode + (string, common_datum) hashtab \<times> policy_file \<times> mem" where
  "common_read p = read_put common_item"

section \<open>Constraints and classes\<close>

text \<open>
  The depth of the stack after an expression, which starts at -1; \<^verbatim>\<open>None\<close> is the error of an
  operator without operands, of a stack that is full and of an unknown kind.
\<close>

definition cexpr_depth :: "bool \<Rightarrow> constraint_expr \<Rightarrow> int \<Rightarrow> int option" where
  "cexpr_depth allowxtarget e depth =
     (if cexpr_type e = CEXPR_NOT then (if depth < 0 then None else Some depth)
      else if cexpr_type e = CEXPR_AND \<or> cexpr_type e = CEXPR_OR then
        (if depth < 1 then None else Some (depth - 1))
      else if cexpr_type e = CEXPR_ATTR then
        (if depth = CEXPR_MAXDEPTH - 1 then None else Some (depth + 1))
      else if cexpr_type e = CEXPR_NAMES then
        (if \<not> allowxtarget \<and> attr e AND CEXPR_XTARGET \<noteq> 0 then None
         else if depth = CEXPR_MAXDEPTH - 1 then None
         else Some (depth + 1))
      else None)"

definition reads_type_names :: "policydb \<Rightarrow> bool" where
  "reads_type_names p \<longleftrightarrow>
     policy_type p \<noteq> POLICY_KERN \<or>
     policy_type p = POLICY_KERN \<and> policyvers p \<ge> POLICYDB_VERSION_CONSTRAINT_NAMES"

definition constraint_expr_init :: "mem \<Rightarrow> errcode + constraint_expr \<times> mem" where
  "constraint_expr_init m =
     (case malloc m of
        None \<Rightarrow> Inl EFAIL
      | Some m \<Rightarrow>
          Inr (\<lparr>cexpr_type = 0, attr = 0, cop = 0, names = ebitmap_init, type_names = Some type_set_init\<rparr>, m))"

definition cexpr_read ::
  "policydb \<Rightarrow> bool \<Rightarrow> mem \<Rightarrow> constraint_expr list \<times> int \<Rightarrow> policy_file
     \<Rightarrow> errcode + (constraint_expr list \<times> int) \<times> policy_file \<times> mem" where
  "cexpr_read p allowxtarget m st fp =
     (case malloc m of
        None \<Rightarrow> Inl EFAIL
      | Some m \<Rightarrow>
          rbind (constraint_expr_init m) (\<lambda>(e, m).
          rbind (next_u32s fp 3) (\<lambda>(buf, fp).
          let e = e\<lparr>cexpr_type := buf ! 0, attr := buf ! 1, cop := buf ! 2\<rparr> in
          case cexpr_depth allowxtarget e (snd st) of
            None \<Rightarrow> Inl EFAIL
          | Some depth \<Rightarrow>
              rbind (if cexpr_type e = CEXPR_NAMES then
                       rbind (ebitmap_read m fp) (\<lambda>(ns, fp, m).
                         if reads_type_names p then
                           rbind (type_set_read m fp) (\<lambda>(ts, fp, m).
                             Inr (e\<lparr>names := ns, type_names := Some ts\<rparr>, fp, m))
                         else Inr (e\<lparr>names := ns\<rparr>, fp, m))
                     else Inr (e, fp, m)) (\<lambda>(e, fp, m).
                Inr ((fst st @ [e], depth), fp, m)))))"

definition cons_read ::
  "policydb \<Rightarrow> bool \<Rightarrow> mem \<Rightarrow> policy_file \<Rightarrow> errcode + constraint_node \<times> policy_file \<times> mem" where
  "cons_read p allowxtarget m fp =
     (case malloc m of
        None \<Rightarrow> Inl EFAIL
      | Some m \<Rightarrow>
          rbind (next_u32s fp 2) (\<lambda>(buf, fp).
          rbind (read_loop (cexpr_read p allowxtarget) (unat (buf ! 1)) m ([], -1) fp) (\<lambda>((es, depth), fp, m).
            if depth \<noteq> 0 then Inl EFAIL
            else Inr (\<lparr>permissions = buf ! 0, cexpr = es\<rparr>, fp, m))))"

definition read_cons_helper ::
  "policydb \<Rightarrow> u32 \<Rightarrow> bool \<Rightarrow> mem \<Rightarrow> policy_file \<Rightarrow> errcode + constraint_node list \<times> policy_file \<times> mem" where
  "read_cons_helper p ncons allowxtarget m fp =
     as_fail (read_many (cons_read p allowxtarget) (unat ncons) m fp)"

text \<open>The common of a class, which has to be known.\<close>

definition comkey_read ::
  "policydb \<Rightarrow> u32 \<Rightarrow> mem \<Rightarrow> policy_file
     \<Rightarrow> errcode + (string option \<times> common_datum option) \<times> policy_file \<times> mem" where
  "comkey_read p len2 m fp =
     (if len2 = 0 then Inr ((None, None), fp, m)
      else
        rbind (read_str m fp len2) (\<lambda>(ck, fp, m).
          case sym_search (table (p_commons p)) ck of
            None \<Rightarrow> Inl EFAIL
          | Some cd \<Rightarrow> Inr ((Some ck, Some cd), fp, m)))"

definition class_item ::
  "policydb \<Rightarrow> mem \<Rightarrow> policy_file \<Rightarrow> errcode + (string \<times> class_datum) \<times> policy_file \<times> mem" where
  "class_item p m fp =
     (case malloc m of
        None \<Rightarrow> Inl EFAIL
      | Some m \<Rightarrow>
          rbind (next_u32s fp 6) (\<lambda>(buf, fp).
          rbind (read_str m fp (buf ! 0)) (\<lambda>(k, fp, m).
          if buf ! 2 > 0xffff then Inl EFAIL
          else
            rbind (perms_init (buf ! 3) m) (\<lambda>(s, m).
            rbind (comkey_read p (buf ! 1) m fp) (\<lambda>((ck, cd), fp, m).
            rbind (perms_read s (buf ! 4) m fp) (\<lambda>(s, fp, m).
            rbind (read_cons_helper p (buf ! 5) False m fp) (\<lambda>(cons, fp, m).
            rbind (if kern_or_base p POLICYDB_VERSION_VALIDATETRANS MOD_POLICYDB_VERSION_VALIDATETRANS
                   then rbind (next_u32s fp 1) (\<lambda>(ncons, fp). read_cons_helper p (ncons ! 0) True m fp)
                   else Inr ([], fp, m)) (\<lambda>(vt, fp, m).
            rbind (if kern_or_base p POLICYDB_VERSION_NEW_OBJECT_DEFAULTS MOD_POLICYDB_VERSION_NEW_OBJECT_DEFAULTS
                   then next_u32s fp 3 else Inr ([0, 0, 0], fp)) (\<lambda>(dflt, fp).
            rbind (if kern_or_base p POLICYDB_VERSION_DEFAULT_TYPE MOD_POLICYDB_VERSION_DEFAULT_TYPE
                   then next_u32s fp 1 else Inr ([0], fp)) (\<lambda>(dtype, fp).
              Inr ((k, \<lparr>class_value = buf ! 2, comkey = ck, comdatum = cd, class_permissions = s,
                        constraints = cons, validatetrans = vt,
                        default_user = ucast (dflt ! 0), default_role = ucast (dflt ! 1),
                        default_type = ucast (dtype ! 0), default_range = ucast (dflt ! 2)\<rparr>), fp, m)))))))))))"

definition class_read ::
  "policydb \<Rightarrow> mem \<Rightarrow> (string, class_datum) hashtab \<Rightarrow> policy_file
     \<Rightarrow> errcode + (string, class_datum) hashtab \<times> policy_file \<times> mem" where
  "class_read p = read_put (class_item p)"

section \<open>Roles and types\<close>

definition role_item ::
  "policydb \<Rightarrow> mem \<Rightarrow> policy_file \<Rightarrow> errcode + (string \<times> role_datum) \<times> policy_file \<times> mem" where
  "role_item p m fp =
     (case malloc m of
        None \<Rightarrow> Inl EFAIL
      | Some m \<Rightarrow>
          rbind (next_u32s fp (if policydb_has_boundary_feature p then 3 else 2)) (\<lambda>(buf, fp).
          rbind (read_str m fp (buf ! 0)) (\<lambda>(k, fp, m).
          rbind (ebitmap_read m fp) (\<lambda>(dom, fp, m).
          rbind (if policy_type p = POLICY_KERN
                 then rbind (ebitmap_read m fp) (\<lambda>(ts, fp, m). Inr (type_set_init\<lparr>ts_types := ts\<rparr>, fp, m))
                 else type_set_read m fp) (\<lambda>(ts, fp, m).
          rbind (if policy_type p \<noteq> POLICY_KERN \<and> policyvers p \<ge> MOD_POLICYDB_VERSION_ROLEATTRIB
                 then rbind (next_u32s fp 1) (\<lambda>(fl, fp).
                      rbind (ebitmap_read m fp) (\<lambda>(rs, fp, m). Inr ((fl ! 0, rs), fp, m)))
                 else Inr ((0, ebitmap_init), fp, m)) (\<lambda>((fl, rs), fp, m).
            Inr ((k, \<lparr>role_value = buf ! 1, dominates = dom, role_types = ts, role_cache = ebitmap_init,
                      role_bounds = (if policydb_has_boundary_feature p then buf ! 2 else 0),
                      role_flavor = fl, role_roles = rs\<rparr>), fp, m)))))))"

text \<open>The role \<^verbatim>\<open>object_r\<close> is in the table since \<^verbatim>\<open>roles_init\<close>: it is only checked.\<close>

definition role_read ::
  "policydb \<Rightarrow> mem \<Rightarrow> (string, role_datum) hashtab \<Rightarrow> policy_file
     \<Rightarrow> errcode + (string, role_datum) hashtab \<times> policy_file \<times> mem" where
  "role_read p m h fp =
     as_fail
       (rbind (role_item p m fp) (\<lambda>((k, d), fp, m).
          if k = OBJECT_R then
            (if role_value d \<noteq> OBJECT_R_VAL then Inl EFAIL else Inr (h, fp, m))
          else sym_put h k d fp m))"

text \<open>The words of a type after its length and value: the flags of version 24 or the single fields.\<close>

definition type_fields :: "policydb \<Rightarrow> u32 list \<Rightarrow> type_datum" where
  "type_fields p buf =
     (let d = \<lparr>type_value = buf ! 1, primary = 0, type_flavor = 0, type_types = ebitmap_init,
               type_flags = 0, bounds = 0\<rparr>;
          kern = (policy_type p = POLICY_KERN)
      in if policydb_has_boundary_feature p then
           (let alias = (\<not> kern \<and> policyvers p \<ge> MOD_POLICYDB_VERSION_BOUNDARY_ALIAS);
                properties = (if alias then buf ! 3 else buf ! 2);
                d = (if alias then d\<lparr>primary := buf ! 2\<rparr>
                     else if properties AND TYPEDATUM_PROPERTY_PRIMARY \<noteq> 0 then d\<lparr>primary := 1\<rparr> else d);
                d = (if properties AND TYPEDATUM_PROPERTY_ATTRIBUTE \<noteq> 0 then d\<lparr>type_flavor := TYPE_ATTRIB\<rparr> else d);
                d = (if properties AND TYPEDATUM_PROPERTY_ALIAS \<noteq> 0 \<and> \<not> kern
                     then d\<lparr>type_flavor := TYPE_ALIAS\<rparr> else d);
                d = (if properties AND TYPEDATUM_PROPERTY_PERMISSIVE \<noteq> 0 \<and> \<not> kern
                     then d\<lparr>type_flags := type_flags d OR TYPE_FLAGS_PERMISSIVE\<rparr> else d)
            in d\<lparr>bounds := (if alias then buf ! 4 else buf ! 3)\<rparr>)
         else
           (let d = d\<lparr>primary := buf ! 2\<rparr>
            in if kern then d
               else
                 (let d = d\<lparr>type_flavor := buf ! 3\<rparr>
                  in if policyvers p \<ge> MOD_POLICYDB_VERSION_PERMISSIVE then d\<lparr>type_flags := buf ! 4\<rparr> else d)))"

definition type_words :: "policydb \<Rightarrow> nat" where
  "type_words p =
     (if policydb_has_boundary_feature p then
        (if policy_type p \<noteq> POLICY_KERN \<and> policyvers p \<ge> MOD_POLICYDB_VERSION_BOUNDARY_ALIAS then 5 else 4)
      else if policy_type p = POLICY_KERN then 3
      else if policyvers p \<ge> MOD_POLICYDB_VERSION_PERMISSIVE then 5
      else 4)"

definition type_item ::
  "policydb \<Rightarrow> mem \<Rightarrow> policy_file \<Rightarrow> errcode + (string \<times> type_datum) \<times> policy_file \<times> mem" where
  "type_item p m fp =
     (case malloc m of
        None \<Rightarrow> Inl EFAIL
      | Some m \<Rightarrow>
          rbind (next_u32s fp (type_words p)) (\<lambda>(buf, fp).
          rbind (if policy_type p \<noteq> POLICY_KERN then ebitmap_read m fp
                 else Inr (ebitmap_init, fp, m)) (\<lambda>(ts, fp, m).
          rbind (read_str m fp (buf ! 0)) (\<lambda>(k, fp, m).
            Inr ((k, (type_fields p buf)\<lparr>type_types := ts\<rparr>), fp, m)))))"

definition type_read ::
  "policydb \<Rightarrow> mem \<Rightarrow> (string, type_datum) hashtab \<Rightarrow> policy_file
     \<Rightarrow> errcode + (string, type_datum) hashtab \<times> policy_file \<times> mem" where
  "type_read p = read_put (type_item p)"

section \<open>Users\<close>

definition user_datum_init :: user_datum where
  "user_datum_init =
     \<lparr>user_value = 0, user_roles = role_set_init,
      user_range = \<lparr>slow = \<lparr>ssens = 0, scat = []\<rparr>, shigh = \<lparr>ssens = 0, scat = []\<rparr>\<rparr>,
      dfltlevel = \<lparr>ssens = 0, scat = []\<rparr>, user_cache = ebitmap_init, exp_range = mls_range_init,
      exp_dfltlevel = mls_level_init, user_bounds = 0\<rparr>"

definition module_vers :: "policydb \<Rightarrow> u32 \<Rightarrow> bool" where
  "module_vers p v \<longleftrightarrow>
     (policy_type p = POLICY_MOD \<and> policyvers p \<ge> v) \<or> (policy_type p = POLICY_BASE \<and> policyvers p \<ge> v)"

definition user_mls_read ::
  "policydb \<Rightarrow> user_datum \<Rightarrow> mem \<Rightarrow> policy_file \<Rightarrow> errcode + user_datum \<times> policy_file \<times> mem" where
  "user_mls_read p u m fp =
     (if (policy_type p = POLICY_KERN \<and> policyvers p \<ge> POLICYDB_VERSION_MLS) \<or>
         (module_vers p MOD_POLICYDB_VERSION_MLS \<and> policyvers p < MOD_POLICYDB_VERSION_MLS_USERS) then
        rbind (mls_read_range_helper m fp) (\<lambda>(r, fp, m).
        rbind (mls_read_level m fp) (\<lambda>(l, fp, m).
        let u = u\<lparr>exp_range := r, exp_dfltlevel := l\<rparr> in
        if policy_type p \<noteq> POLICY_KERN then
          rbind (mls_range_to_semantic m r) (\<lambda>(sr, m).
          rbind (mls_level_to_semantic m l) (\<lambda>(sl, m).
            Inr (u\<lparr>user_range := sr, dfltlevel := sl\<rparr>, fp, m)))
        else Inr (u, fp, m)))
      else if module_vers p MOD_POLICYDB_VERSION_MLS_USERS then
        rbind (mls_read_semantic_range_helper m fp) (\<lambda>(sr, fp, m).
        rbind (mls_read_semantic_level_helper m fp) (\<lambda>(sl, fp, m).
          Inr (u\<lparr>user_range := sr, dfltlevel := sl\<rparr>, fp, m)))
      else Inr (u, fp, m))"

definition user_item ::
  "policydb \<Rightarrow> mem \<Rightarrow> policy_file \<Rightarrow> errcode + (string \<times> user_datum) \<times> policy_file \<times> mem" where
  "user_item p m fp =
     (case malloc m of
        None \<Rightarrow> Inl EFAIL
      | Some m \<Rightarrow>
          rbind (next_u32s fp (if policydb_has_boundary_feature p then 3 else 2)) (\<lambda>(buf, fp).
          rbind (read_str m fp (buf ! 0)) (\<lambda>(k, fp, m).
          rbind (if policy_type p = POLICY_KERN
                 then rbind (ebitmap_read m fp) (\<lambda>(rs, fp, m). Inr (role_set_init\<lparr>rs_roles := rs\<rparr>, fp, m))
                 else role_set_read m fp) (\<lambda>(rs, fp, m).
          rbind (user_mls_read p (user_datum_init
                   \<lparr>user_value := buf ! 1, user_roles := rs,
                    user_bounds := (if policydb_has_boundary_feature p then buf ! 2 else 0)\<rparr>) m fp)
            (\<lambda>(u, fp, m). Inr ((k, u), fp, m))))))"

definition user_read ::
  "policydb \<Rightarrow> mem \<Rightarrow> (string, user_datum) hashtab \<Rightarrow> policy_file
     \<Rightarrow> errcode + (string, user_datum) hashtab \<times> policy_file \<times> mem" where
  "user_read p = read_put (user_item p)"

section \<open>Sensitivities and categories\<close>

definition sens_item :: "mem \<Rightarrow> policy_file \<Rightarrow> errcode + (string \<times> level_datum) \<times> policy_file \<times> mem" where
  "sens_item m fp =
     (case malloc m of
        None \<Rightarrow> Inl EFAIL
      | Some m \<Rightarrow>
          rbind (next_u32s fp 2) (\<lambda>(buf, fp).
          rbind (read_str m fp (buf ! 0)) (\<lambda>(k, fp, m).
          case malloc m of
            None \<Rightarrow> Inl EFAIL
          | Some m \<Rightarrow>
              rbind (mls_read_level m fp) (\<lambda>(l, fp, m).
                Inr ((k, \<lparr>lev = l, lev_isalias = ucast (buf ! 1), notdefined = 0\<rparr>), fp, m)))))"

definition sens_read ::
  "policydb \<Rightarrow> mem \<Rightarrow> (string, level_datum) hashtab \<Rightarrow> policy_file
     \<Rightarrow> errcode + (string, level_datum) hashtab \<times> policy_file \<times> mem" where
  "sens_read p = read_put sens_item"

definition cat_item :: "mem \<Rightarrow> policy_file \<Rightarrow> errcode + (string \<times> cat_datum) \<times> policy_file \<times> mem" where
  "cat_item m fp =
     (case malloc m of
        None \<Rightarrow> Inl EFAIL
      | Some m \<Rightarrow>
          rbind (next_u32s fp 3) (\<lambda>(buf, fp).
          rbind (read_str m fp (buf ! 0)) (\<lambda>(k, fp, m).
            Inr ((k, \<lparr>cat_value = buf ! 1, cat_isalias = ucast (buf ! 2)\<rparr>), fp, m))))"

definition cat_read ::
  "policydb \<Rightarrow> mem \<Rightarrow> (string, cat_datum) hashtab \<Rightarrow> policy_file
     \<Rightarrow> errcode + (string, cat_datum) hashtab \<times> policy_file \<times> mem" where
  "cat_read p = read_put cat_item"

end
