(* ===== verification/Object_IO.thy ===== *)
theory Object_IO
  imports Datum_IO
begin

text \<open>
  The readers of \<^verbatim>\<open>src/policydb.c\<close> for what a kernel policy holds besides its symbols and its rule
  tables: role transitions and role allows, the table of file name transitions with
  \<^verbatim>\<open>policydb_filetrans_insert\<close>, the object contexts, the generic file systems and the range
  transitions. The contexts are checked against the symbols as they are read, so these readers
  take the indexed database.
\<close>

abbreviation (input) "POLICYDB_VERSION_ROLETRANS \<equiv> 26"
abbreviation (input) "POLICYDB_VERSION_RANGETRANS \<equiv> 21"
abbreviation (input) "POLICYDB_VERSION_COMP_FTRANS \<equiv> 33"
abbreviation (input) "IB_DEVICE_NAME_MAX \<equiv> 64"

definition is_saturated :: "'a::len word \<Rightarrow> bool" where
  "is_saturated x \<longleftrightarrow> x = - 1"

text \<open>A datum of a hash table that is written through its pointer.\<close>

definition put_datum :: "'k \<Rightarrow> 'd \<Rightarrow> ('k, 'd) hashtab \<Rightarrow> ('k, 'd) hashtab" where
  "put_datum k d h =
     map_option (\<lambda>h. h\<lparr>htable := map (map (\<lambda>(k', d'). if k' = k then (k', d) else (k', d'))) (htable h)\<rparr>) h"

section \<open>Role transitions and role allows\<close>

definition role_trans_entry ::
  "policydb \<Rightarrow> mem \<Rightarrow> policy_file \<Rightarrow> errcode + role_trans \<times> policy_file \<times> mem" where
  "role_trans_entry p m fp =
     (case malloc m of
        None \<Rightarrow> Inl EFAIL
      | Some m \<Rightarrow>
          rbind (next_u32s fp 3) (\<lambda>(buf, fp).
          rbind (if policy_type p = POLICY_KERN \<and> policyvers p \<ge> POLICYDB_VERSION_ROLETRANS
                 then rbind (next_u32s fp 1) (\<lambda>(b, fp). Inr (b ! 0, fp))
                 else Inr (ucast (process_class p), fp)) (\<lambda>(tclass, fp).
            Inr (\<lparr>rt_role = buf ! 0, rt_type = buf ! 1, rt_tclass = tclass, new_role = buf ! 2\<rparr>, fp, m))))"

definition role_trans_read :: "mem \<Rightarrow> policydb \<Rightarrow> policy_file \<Rightarrow> errcode + policydb \<times> policy_file \<times> mem" where
  "role_trans_read m p fp =
     rbind (next_u32s fp 1) (\<lambda>(nel, fp).
     rbind (read_many (role_trans_entry p) (unat (nel ! 0)) m fp) (\<lambda>(rs, fp, m).
       Inr (p\<lparr>role_tr := (if rs = [] then role_tr p else rs)\<rparr>, fp, m)))"

definition role_allow_entry :: "mem \<Rightarrow> policy_file \<Rightarrow> errcode + role_allow \<times> policy_file \<times> mem" where
  "role_allow_entry m fp =
     (case malloc m of
        None \<Rightarrow> Inl EFAIL
      | Some m \<Rightarrow>
          rbind (next_u32s fp 2) (\<lambda>(buf, fp). Inr (\<lparr>ra_role = buf ! 0, ra_new_role = buf ! 1\<rparr>, fp, m)))"

definition role_allow_read :: "mem \<Rightarrow> policydb \<Rightarrow> policy_file \<Rightarrow> errcode + policydb \<times> policy_file \<times> mem" where
  "role_allow_read m p fp =
     rbind (next_u32s fp 1) (\<lambda>(nel, fp).
     rbind (read_many role_allow_entry (unat (nel ! 0)) m fp) (\<lambda>(ras, fp, m).
       Inr (p\<lparr>role_allows := (if ras = [] then role_allows p else ras)\<rparr>, fp, m)))"

section \<open>File name transitions\<close>

definition partial_name_hash :: "u64 \<Rightarrow> u64 \<Rightarrow> u64" where
  "partial_name_hash c prevhash = (prevhash + push_bit 4 c + drop_bit 4 c) * 11"

definition filenametr_hash :: "u32 \<Rightarrow> filename_trans_key \<Rightarrow> u32" where
  "filenametr_hash sz ft =
     ucast (foldl (\<lambda>h c. partial_name_hash (ucast (char_u32 c)) h) (ucast (ftk_ttype ft XOR ftk_tclass ft))
              (ftk_name ft) AND ucast (sz - 1))"

definition filenametr_cmp :: "filename_trans_key \<Rightarrow> filename_trans_key \<Rightarrow> int" where
  "filenametr_cmp ft1 ft2 =
     (let v = spaceship_cmp (ftk_ttype ft1) (ftk_ttype ft2)
      in if v \<noteq> 0 then v
         else let v = spaceship_cmp (ftk_tclass ft1) (ftk_tclass ft2)
              in if v \<noteq> 0 then v else strcmp (ftk_name ft1) (ftk_name ft2))"

text \<open>
  The scan of the data of a key: a source type that is already there, with its default type; or
  the position of the datum for \<open>otype\<close>, if there is one.
\<close>

fun ft_find :: "filename_trans_datum list \<Rightarrow> u32 \<Rightarrow> u32 \<Rightarrow> nat \<Rightarrow> u32 + nat option" where
  "ft_find [] b otype i = Inr None"
| "ft_find (d # ds) b otype i =
     (if ebitmap_get_bit (ftd_stypes d) b then Inl (ftd_otype d)
      else if ftd_otype d = otype then Inr (Some i)
      else ft_find ds b otype (Suc i))"

text \<open>The end of the function: \<open>ds\<close> is the list of the key, and its datum \<open>i\<close> gets the source type.\<close>

definition ft_add ::
  "mem \<Rightarrow> policydb \<Rightarrow> filename_trans_key \<Rightarrow> filename_trans_datum list \<Rightarrow> nat \<Rightarrow> u32
     \<Rightarrow> (errcode option \<times> u32 option) \<times> policydb \<times> mem" where
  "ft_add m p k ds i b =
     (let p = p\<lparr>filename_trans_count := filename_trans_count p + 1,
                filename_trans := put_datum k ds (filename_trans p)\<rparr>
      in case ebitmap_set_bit m (ftd_stypes (ds ! i)) b True of
           Inl err \<Rightarrow> ((Some err, None), p, m)
         | Inr (s, m) \<Rightarrow>
             ((None, None),
              p\<lparr>filename_trans := put_datum k (ds[i := (ds ! i)\<lparr>ftd_stypes := s\<rparr>]) (filename_trans p)\<rparr>, m))"

text \<open>
  The result: the status and \<^verbatim>\<open>present_otype\<close>, the database and the budget. \<open>name_alloc\<close> tells
  whether the caller gives its copy of the name away.
\<close>

definition policydb_filetrans_insert ::
  "mem \<Rightarrow> policydb \<Rightarrow> u32 \<Rightarrow> u32 \<Rightarrow> u32 \<Rightarrow> string \<Rightarrow> bool \<Rightarrow> u32
     \<Rightarrow> (errcode option \<times> u32 option) \<times> policydb \<times> mem" where
  "policydb_filetrans_insert m p stype ttype tclass name name_alloc otype =
     (let k = \<lparr>ftk_ttype = ttype, ftk_tclass = tclass, ftk_name = name\<rparr>;
          ds = (case hashtab_search filenametr_hash filenametr_cmp (filename_trans p) k of
                  None \<Rightarrow> [] | Some ds \<Rightarrow> ds);
          d = \<lparr>ftd_stypes = ebitmap_init, ftd_otype = otype\<rparr>
      in case ft_find ds (stype - 1) otype 0 of
           Inl present \<Rightarrow> ((Some EEXIST, Some present), p, m)
         | Inr (Some i) \<Rightarrow> ft_add m p k ds i (stype - 1)
         | Inr None \<Rightarrow>
             (case malloc m of
                None \<Rightarrow> ((Some ENOMEM, None), p, m)
              | Some m \<Rightarrow>
                  if ds \<noteq> [] then ft_add m p k (ds @ [d]) (length ds) (stype - 1)
                  else
                    (case (if name_alloc then Some m else malloc m) of
                       None \<Rightarrow> ((Some ENOMEM, None), p, m)
                     | Some m \<Rightarrow>
                         (case malloc m of
                            None \<Rightarrow> ((Some ENOMEM, None), p, m)
                          | Some m \<Rightarrow>
                              (case hashtab_insert filenametr_hash filenametr_cmp m (filename_trans p) k [d] of
                                 (Some _, h, m) \<Rightarrow> ((Some ENOMEM, None), p\<lparr>filename_trans := h\<rparr>, m)
                               | (None, h, m) \<Rightarrow> ft_add m (p\<lparr>filename_trans := h\<rparr>) k [d] 0 (stype - 1))))))"

definition filename_trans_read_one_compat ::
  "mem \<Rightarrow> policydb \<Rightarrow> policy_file \<Rightarrow> errcode + policydb \<times> policy_file \<times> mem" where
  "filename_trans_read_one_compat m p fp =
     rbind (next_u32s fp 1) (\<lambda>(buf, fp).
     rbind (read_str m fp (buf ! 0)) (\<lambda>(name, fp, m).
     rbind (next_u32s fp 4) (\<lambda>(buf, fp).
       if buf ! 0 = 0 then Inl EFAIL
       else
         (case policydb_filetrans_insert m p (buf ! 0) (buf ! 1) (buf ! 2) name True (buf ! 3) of
            ((rc, _), p, m) \<Rightarrow>
              if rc \<noteq> None \<and> rc \<noteq> Some EEXIST then Inl EFAIL else Inr (p, fp, m)))))"

fun filename_trans_check ::
  "mem \<Rightarrow> ebitmap \<Rightarrow> ebitmap \<Rightarrow> filename_trans_datum list \<Rightarrow> errcode + mem" where
  "filename_trans_check m stypes otypes [] = Inr m"
| "filename_trans_check m stypes otypes (d # ds) =
     (if ebitmap_get_bit otypes (ftd_otype d) then Inl EFAIL
      else
        rbind (ebitmap_set_bit m otypes (ftd_otype d) True) (\<lambda>(otypes, m).
        if ebitmap_match_any stypes (ftd_stypes d) then Inl EFAIL
        else
          rbind (ebitmap_union m stypes (ftd_stypes d)) (\<lambda>(stypes, m).
            filename_trans_check m stypes otypes ds)))"

definition filename_trans_check_datum :: "mem \<Rightarrow> filename_trans_datum list \<Rightarrow> errcode + mem" where
  "filename_trans_check_datum m ds = as_fail (filename_trans_check m ebitmap_init ebitmap_init ds)"

definition ft_datum_read :: "mem \<Rightarrow> policy_file \<Rightarrow> errcode + filename_trans_datum \<times> policy_file \<times> mem" where
  "ft_datum_read m fp =
     (case malloc m of
        None \<Rightarrow> Inl EFAIL
      | Some m \<Rightarrow>
          rbind (ebitmap_read m fp) (\<lambda>(s, fp, m).
          rbind (next_u32s fp 1) (\<lambda>(buf, fp). Inr (\<lparr>ftd_stypes = s, ftd_otype = buf ! 0\<rparr>, fp, m))))"

definition filename_trans_read_one ::
  "mem \<Rightarrow> policydb \<Rightarrow> policy_file \<Rightarrow> errcode + policydb \<times> policy_file \<times> mem" where
  "filename_trans_read_one m p fp =
     as_fail
       (rbind (next_u32s fp 1) (\<lambda>(buf, fp).
        rbind (read_str m fp (buf ! 0)) (\<lambda>(name, fp, m).
        rbind (next_u32s fp 3) (\<lambda>(buf, fp).
        let ndatum = buf ! 2 in
        if ndatum = 0 then Inl EFAIL
        else
          rbind (read_many ft_datum_read (unat ndatum) m fp) (\<lambda>(ds, fp, m).
          rbind (if ndatum > 1 then filename_trans_check_datum m ds else Inr m) (\<lambda>m.
            case malloc m of
              None \<Rightarrow> Inl EFAIL
            | Some m \<Rightarrow>
                (case hashtab_insert filenametr_hash filenametr_cmp m (filename_trans p)
                        \<lparr>ftk_ttype = buf ! 0, ftk_tclass = buf ! 1, ftk_name = name\<rparr> ds of
                   (Some _, _, _) \<Rightarrow> Inl EFAIL
                 | (None, h, m) \<Rightarrow>
                     Inr (p\<lparr>filename_trans := h,
                            filename_trans_count :=
                              fold (\<lambda>d n. n + ebitmap_cardinality (ftd_stypes d)) ds (filename_trans_count p)\<rparr>,
                          fp, m)))))))) "

definition filename_trans_read :: "mem \<Rightarrow> policydb \<Rightarrow> policy_file \<Rightarrow> errcode + policydb \<times> policy_file \<times> mem" where
  "filename_trans_read m p fp =
     as_fail
       (rbind (next_u32s fp 1) (\<lambda>(nel, fp).
          read_loop (if policyvers p < POLICYDB_VERSION_COMP_FTRANS then filename_trans_read_one_compat
                     else filename_trans_read_one) (unat (nel ! 0)) m p fp))"

section \<open>Object contexts\<close>

definition ocontext_zero :: ocontext where
  "ocontext_zero =
     \<lparr>ou = ONull, ov = 0, context0 = context_init, context1 = context_init, sid0 = 0, sid1 = 0\<rparr>"

definition set_ocontexts :: "nat \<Rightarrow> ocontext list \<Rightarrow> policydb \<Rightarrow> policydb" where
  "set_ocontexts i cs p =
     (if i = 0 then p\<lparr>ocon_isid := cs\<rparr>
      else if i = 1 then p\<lparr>ocon_fs := cs\<rparr>
      else if i = 2 then p\<lparr>ocon_port := cs\<rparr>
      else if i = 3 then p\<lparr>ocon_netif := cs\<rparr>
      else if i = 4 then p\<lparr>ocon_node := cs\<rparr>
      else if i = 5 then p\<lparr>ocon_fsuse := cs\<rparr>
      else if i = 6 then p\<lparr>ocon_node6 := cs\<rparr>
      else if i = 7 then p\<lparr>ocon_ibpkey := cs\<rparr>
      else p\<lparr>ocon_ibendport := cs\<rparr>)"

definition read_context0 ::
  "policydb \<Rightarrow> ocontext \<Rightarrow> mem \<Rightarrow> policy_file \<Rightarrow> errcode + ocontext \<times> policy_file \<times> mem" where
  "read_context0 p c m fp =
     rbind (context_read_and_validate p m fp) (\<lambda>(x, fp, m). Inr (c\<lparr>context0 := x\<rparr>, fp, m))"

definition ocontext_entry_xen ::
  "policydb \<Rightarrow> nat \<Rightarrow> mem \<Rightarrow> policy_file \<Rightarrow> errcode + ocontext \<times> policy_file \<times> mem" where
  "ocontext_entry_xen p i m fp =
     (case malloc m of
        None \<Rightarrow> Inl EFAIL
      | Some m \<Rightarrow>
          if i = 0 then
            rbind (next_u32s fp 1) (\<lambda>(buf, fp).
              if is_saturated (buf ! 0) then Inl EFAIL
              else read_context0 p (ocontext_zero\<lparr>sid0 := buf ! 0\<rparr>) m fp)
          else if i = 1 then
            rbind (next_u32s fp 1) (\<lambda>(buf, fp).
              read_context0 p (ocontext_zero\<lparr>ou := OPirq (ucast (buf ! 0))\<rparr>) m fp)
          else if i = 2 then
            rbind (next_u32s fp 2) (\<lambda>(buf, fp).
              read_context0 p (ocontext_zero\<lparr>ou := OIoport (buf ! 0) (buf ! 1)\<rparr>) m fp)
          else if i = 3 then
            (if policyvers p \<ge> POLICYDB_VERSION_XEN_DEVICETREE then
               rbind (next_u64 fp) (\<lambda>(lo, fp).
               rbind (next_u64 fp) (\<lambda>(hi, fp).
                 read_context0 p (ocontext_zero\<lparr>ou := OIomem lo hi\<rparr>) m fp))
             else
               rbind (next_u32s fp 2) (\<lambda>(buf, fp).
                 read_context0 p (ocontext_zero\<lparr>ou := OIomem (ucast (buf ! 0)) (ucast (buf ! 1))\<rparr>) m fp))
          else if i = 4 then
            rbind (next_u32s fp 1) (\<lambda>(buf, fp).
              read_context0 p (ocontext_zero\<lparr>ou := ODevice (buf ! 0)\<rparr>) m fp)
          else if i = 5 then
            rbind (next_u32s fp 1) (\<lambda>(buf, fp).
            rbind (read_str m fp (buf ! 0)) (\<lambda>(name, fp, m).
              read_context0 p (ocontext_zero\<lparr>ou := OName name\<rparr>) m fp))
          else Inl EFAIL)"

definition ocontext_entry_selinux ::
  "policydb \<Rightarrow> nat \<Rightarrow> mem \<Rightarrow> policy_file \<Rightarrow> errcode + ocontext \<times> policy_file \<times> mem" where
  "ocontext_entry_selinux p i m fp =
     (case malloc m of
        None \<Rightarrow> Inl EFAIL
      | Some m \<Rightarrow>
          if i = 0 then
            rbind (next_u32s fp 1) (\<lambda>(buf, fp).
              if is_saturated (buf ! 0) then Inl EFAIL
              else read_context0 p (ocontext_zero\<lparr>sid0 := buf ! 0\<rparr>) m fp)
          else if i = 1 \<or> i = 3 then
            rbind (next_u32s fp 1) (\<lambda>(buf, fp).
              if buf ! 0 > 63 then Inl EFAIL
              else
                rbind (read_str m fp (buf ! 0)) (\<lambda>(name, fp, m).
                rbind (read_context0 p (ocontext_zero\<lparr>ou := OName name\<rparr>) m fp) (\<lambda>(c, fp, m).
                rbind (context_read_and_validate p m fp) (\<lambda>(x, fp, m).
                  Inr (c\<lparr>context1 := x\<rparr>, fp, m)))))
          else if i = 7 then
            rbind (next_u32s fp 4) (\<lambda>(buf, fp).
              if buf ! 2 > 0xffff \<or> buf ! 3 > 0xffff then Inl EFAIL
              else
                read_context0 p (ocontext_zero\<lparr>ou := OIbpkey (ucast (buf ! 0) OR push_bit 32 (ucast (buf ! 1)))
                    (ucast (buf ! 2)) (ucast (buf ! 3))\<rparr>) m fp)
          else if i = 8 then
            rbind (next_u32s fp 2) (\<lambda>(buf, fp).
              if buf ! 0 = 0 \<or> buf ! 0 > IB_DEVICE_NAME_MAX - 1 then Inl EFAIL
              else if buf ! 1 > 0xff \<or> buf ! 1 = 0 then Inl EFAIL
              else
                rbind (read_str m fp (buf ! 0)) (\<lambda>(dev, fp, m).
                  read_context0 p (ocontext_zero\<lparr>ou := OIbendport dev (ucast (buf ! 1))\<rparr>) m fp))
          else if i = 2 then
            rbind (next_u32s fp 3) (\<lambda>(buf, fp).
              read_context0 p
                (ocontext_zero\<lparr>ou := OPort (ucast (buf ! 0)) (ucast (buf ! 1)) (ucast (buf ! 2))\<rparr>) m fp)
          else if i = 4 then
            rbind (next_u32s fp 2) (\<lambda>(buf, fp).
              read_context0 p (ocontext_zero\<lparr>ou := ONode (buf ! 0) (buf ! 1)\<rparr>) m fp)
          else if i = 5 then
            rbind (next_u32s fp 2) (\<lambda>(buf, fp).
            rbind (read_str m fp (buf ! 1)) (\<lambda>(name, fp, m).
              read_context0 p (ocontext_zero\<lparr>ou := OName name, ov := buf ! 0\<rparr>) m fp))
          else if i = 6 then
            rbind (next_u32s fp 8) (\<lambda>(buf, fp).
              read_context0 p (ocontext_zero\<lparr>ou := ONode6 (take 4 buf) (drop 4 buf)\<rparr>) m fp)
          else Inl EFAIL)"

text \<open>The loop over the kinds. A kind without entries keeps its list.\<close>

fun read_ocontexts ::
  "(policydb \<Rightarrow> nat \<Rightarrow> mem \<Rightarrow> policy_file \<Rightarrow> errcode + ocontext \<times> policy_file \<times> mem) \<Rightarrow> nat list
     \<Rightarrow> mem \<Rightarrow> policydb \<Rightarrow> policy_file \<Rightarrow> errcode + policydb \<times> policy_file \<times> mem" where
  "read_ocontexts rd [] m p fp = Inr (p, fp, m)"
| "read_ocontexts rd (i # is) m p fp =
     rbind (next_u32s fp 1) (\<lambda>(nel, fp).
     rbind (read_many (rd p i) (unat (nel ! 0)) m fp) (\<lambda>(cs, fp, m).
       read_ocontexts rd is m (if cs = [] then p else set_ocontexts i cs p) fp))"

definition ocontext_read_xen ::
  "nat \<Rightarrow> mem \<Rightarrow> policydb \<Rightarrow> policy_file \<Rightarrow> errcode + policydb \<times> policy_file \<times> mem" where
  "ocontext_read_xen ocon_num m p fp = as_fail (read_ocontexts ocontext_entry_xen [0..<ocon_num] m p fp)"

definition ocontext_read_selinux ::
  "nat \<Rightarrow> mem \<Rightarrow> policydb \<Rightarrow> policy_file \<Rightarrow> errcode + policydb \<times> policy_file \<times> mem" where
  "ocontext_read_selinux ocon_num m p fp =
     as_fail (read_ocontexts ocontext_entry_selinux [0..<ocon_num] m p fp)"

definition ocontext_read ::
  "nat \<Rightarrow> mem \<Rightarrow> policydb \<Rightarrow> policy_file \<Rightarrow> errcode + policydb \<times> policy_file \<times> mem" where
  "ocontext_read ocon_num m p fp =
     (if target_platform p = SEPOL_TARGET_SELINUX then ocontext_read_selinux ocon_num m p fp
      else if target_platform p = SEPOL_TARGET_XEN then ocontext_read_xen ocon_num m p fp
      else Inl EFAIL)"

section \<open>Generic file systems\<close>

text \<open>The list is kept sorted by file system type; \<open>genfs_place\<close> is the position of a new one.\<close>

fun genfs_place :: "string \<Rightarrow> genfs list \<Rightarrow> errcode + nat" where
  "genfs_place t [] = Inr 0"
| "genfs_place t (g # gs) =
     (if strcmp t (fstype g) = 0 then Inl EFAIL
      else if strcmp t (fstype g) < 0 then Inr 0
      else rbind (genfs_place t gs) (\<lambda>i. Inr (Suc i)))"

definition oname :: "ocontext \<Rightarrow> errcode + string" where
  "oname c = (case ou c of OName s \<Rightarrow> Inr s | _ \<Rightarrow> Inl UNDEF)"

text \<open>The entries of a file system are sorted by falling length of their paths.\<close>

fun genfs_entry_insert :: "string \<Rightarrow> ocontext \<Rightarrow> ocontext list \<Rightarrow> errcode + ocontext list" where
  "genfs_entry_insert name c [] = Inr [c]"
| "genfs_entry_insert name c (x # xs) =
     rbind (oname x) (\<lambda>s.
       if strcmp name s = 0 \<and> (ov x = 0 \<or> ov c = 0 \<or> ov c = ov x) then Inl EFAIL
       else if length name > length s then Inr (c # x # xs)
       else rbind (genfs_entry_insert name c xs) (\<lambda>ys. Inr (x # ys)))"

definition genfs_entry_read ::
  "policydb \<Rightarrow> mem \<Rightarrow> ocontext list \<Rightarrow> policy_file \<Rightarrow> errcode + ocontext list \<times> policy_file \<times> mem" where
  "genfs_entry_read p m cs fp =
     (case malloc m of
        None \<Rightarrow> Inl EFAIL
      | Some m \<Rightarrow>
          rbind (next_u32s fp 1) (\<lambda>(len, fp).
          rbind (read_str m fp (len ! 0)) (\<lambda>(name, fp, m).
          rbind (next_u32s fp 1) (\<lambda>(buf, fp).
          rbind (read_context0 p (ocontext_zero\<lparr>ou := OName name, ov := buf ! 0\<rparr>) m fp) (\<lambda>(c, fp, m).
          rbind (genfs_entry_insert name c cs) (\<lambda>cs. Inr (cs, fp, m)))))))"

definition genfs_item_read ::
  "mem \<Rightarrow> policydb \<Rightarrow> policy_file \<Rightarrow> errcode + policydb \<times> policy_file \<times> mem" where
  "genfs_item_read m p fp =
     rbind (next_u32s fp 1) (\<lambda>(len, fp).
       case malloc m of
         None \<Rightarrow> Inl EFAIL
       | Some m \<Rightarrow>
           rbind (read_str m fp (len ! 0)) (\<lambda>(t, fp, m).
           rbind (genfs_place t (genfs_list p)) (\<lambda>i.
           rbind (next_u32s fp 1) (\<lambda>(nel2, fp).
           rbind (read_loop (genfs_entry_read p) (unat (nel2 ! 0)) m [] fp) (\<lambda>(cs, fp, m).
             Inr (p\<lparr>genfs_list := take i (genfs_list p) @ \<lparr>fstype = t, gen_head = cs\<rparr> # drop i (genfs_list p)\<rparr>,
                  fp, m))))))"

definition genfs_read :: "mem \<Rightarrow> policydb \<Rightarrow> policy_file \<Rightarrow> errcode + policydb \<times> policy_file \<times> mem" where
  "genfs_read m p fp =
     as_fail (rbind (next_u32s fp 1) (\<lambda>(nel, fp). read_loop genfs_item_read (unat (nel ! 0)) m p fp))"

section \<open>Range transitions\<close>

definition range_trans_rule_init :: range_trans_rule where
  "range_trans_rule_init =
     \<lparr>rgr_stypes = type_set_init, rgr_ttypes = type_set_init, rgr_tclasses = ebitmap_init,
      rgr_trange = \<lparr>slow = \<lparr>ssens = 0, scat = []\<rparr>, shigh = \<lparr>ssens = 0, scat = []\<rparr>\<rparr>\<rparr>"

text \<open>
  The rules of \<^verbatim>\<open>p->global->enabled\<close>, undefined if no declaration of the first block is
  enabled. The declaration is shared with \<^verbatim>\<open>decl_val_to_struct\<close>.
\<close>

definition set_global_ranges :: "range_trans_rule list \<Rightarrow> policydb \<Rightarrow> errcode + policydb" where
  "set_global_ranges rs p =
     (case global_blocks p of
        [] \<Rightarrow> Inl UNDEF
      | b # bs \<Rightarrow>
          (case block_enabled b of
             None \<Rightarrow> Inl UNDEF
           | Some k \<Rightarrow>
               (case arr (branch_list b) k of
                  None \<Rightarrow> Inl UNDEF
                | Some d \<Rightarrow>
                    (let d' = d\<lparr>decl_range_tr_rules := rs\<rparr>
                     in Inr (p\<lparr>global_blocks := b\<lparr>branch_list := (branch_list b)[k := d']\<rparr> # bs,
                               decl_val_to_struct := (decl_val_to_struct p)[unat (decl_id d - 1) := Some d']\<rparr>)))))"

definition range_rule_of ::
  "range_trans \<Rightarrow> mls_range \<Rightarrow> mem \<Rightarrow> errcode + range_trans_rule \<times> mem" where
  "range_rule_of rt r m =
     (case malloc m of
        None \<Rightarrow> Inl EFAIL
      | Some m \<Rightarrow>
          rbind (ebitmap_set_bit m ebitmap_init (rtr_source_type rt - 1) True) (\<lambda>(s, m).
          rbind (ebitmap_set_bit m ebitmap_init (rtr_target_type rt - 1) True) (\<lambda>(t, m).
          rbind (ebitmap_set_bit m ebitmap_init (rtr_target_class rt - 1) True) (\<lambda>(c, m).
          rbind (mls_range_to_semantic m r) (\<lambda>(sr, m).
            Inr (range_trans_rule_init
                   \<lparr>rgr_stypes := type_set_init\<lparr>ts_types := s\<rparr>, rgr_ttypes := type_set_init\<lparr>ts_types := t\<rparr>,
                    rgr_tclasses := c, rgr_trange := sr\<rparr>, m))))))"

text \<open>The state of the loop: the database and the rules that were made for a module.\<close>

definition range_entry_read ::
  "mem \<Rightarrow> policydb \<times> range_trans_rule list \<Rightarrow> policy_file
     \<Rightarrow> errcode + (policydb \<times> range_trans_rule list) \<times> policy_file \<times> mem" where
  "range_entry_read m st fp =
     (case st of (p, rs) \<Rightarrow>
        case malloc m of
          None \<Rightarrow> Inl EFAIL
        | Some m \<Rightarrow>
            rbind (next_u32s fp 2) (\<lambda>(buf, fp).
            if \<not> value_isvalid (buf ! 0) (nprim (p_types p)) then Inl EFAIL
            else if \<not> value_isvalid (buf ! 1) (nprim (p_types p)) then Inl EFAIL
            else
              rbind (if policy_type p = POLICY_KERN \<and> policyvers p \<ge> POLICYDB_VERSION_RANGETRANS
                     then rbind (next_u32s fp 1) (\<lambda>(b, fp). Inr (b ! 0, fp))
                     else Inr (ucast (process_class p), fp)) (\<lambda>(tclass, fp).
              if \<not> value_isvalid tclass (nprim (p_classes p)) then Inl EFAIL
              else
                case malloc m of
                  None \<Rightarrow> Inl EFAIL
                | Some m \<Rightarrow>
                    rbind (mls_read_range_helper m fp) (\<lambda>(r, fp, m).
                    let rt = \<lparr>rtr_source_type = buf ! 0, rtr_target_type = buf ! 1, rtr_target_class = tclass\<rparr> in
                    if policy_type p = POLICY_KERN then
                      (case hashtab_insert rangetr_hash rangetr_cmp m (range_tr p) rt r of
                         (Some _, _, _) \<Rightarrow> Inl EFAIL
                       | (None, h, m) \<Rightarrow> Inr ((p\<lparr>range_tr := h\<rparr>, rs), fp, m))
                    else
                      rbind (range_rule_of rt r m) (\<lambda>(rule, m).
                      rbind (set_global_ranges (rs @ [rule]) p) (\<lambda>p. Inr ((p, rs @ [rule]), fp, m)))))))"

definition range_read :: "mem \<Rightarrow> policydb \<Rightarrow> policy_file \<Rightarrow> errcode + policydb \<times> policy_file \<times> mem" where
  "range_read m p fp =
     as_fail
       (rbind (next_u32s fp 1) (\<lambda>(nel, fp).
        rbind (read_loop range_entry_read (unat (nel ! 0)) m (p, []) fp) (\<lambda>((p, _), fp, m).
          Inr (p, fp, m))))"

end
