(* ===== verification/Module_IO.thy ===== *)
theory Module_IO
  imports Object_IO
begin

text \<open>
  The readers of \<^verbatim>\<open>src/policydb.c\<close> for the module form of a policy: the rules over sets, the scope
  indexes, the declarations and their blocks, and the scope tables; with the blocks of
  \<^verbatim>\<open>src/avrule_block.c\<close>. The readers of a declaration pass the database on, since
  \<^verbatim>\<open>cond_read_list\<close> allocates the table of conditional rules in it.
\<close>

abbreviation (input) "MOD_POLICYDB_VERSION_RANGETRANS \<equiv> 6"
abbreviation (input) "MOD_POLICYDB_VERSION_FILENAME_TRANS \<equiv> 11"
abbreviation (input) "MOD_POLICYDB_VERSION_ROLETRANS \<equiv> 12"
abbreviation (input) "AVRULE_OPTIONAL \<equiv> 1"
abbreviation (input) "SYM_ROLES \<equiv> 2"
abbreviation (input) "SYM_USERS \<equiv> 4"
abbreviation (input) "SYM_NUM \<equiv> 8"

section \<open>Rules\<close>

definition role_trans_rule_entry ::
  "policydb \<Rightarrow> mem \<Rightarrow> policy_file \<Rightarrow> errcode + role_trans_rule \<times> policy_file \<times> mem" where
  "role_trans_rule_entry p m fp =
     (case malloc m of
        None \<Rightarrow> Inl EFAIL
      | Some m \<Rightarrow>
          rbind (role_set_read m fp) (\<lambda>(rs, fp, m).
          rbind (type_set_read m fp) (\<lambda>(ts, fp, m).
          rbind (if policyvers p \<ge> MOD_POLICYDB_VERSION_ROLETRANS then ebitmap_read m fp
                 else if process_class p = 0 then Inl EFAIL
                 else rbind (ebitmap_set_bit m ebitmap_init (ucast (process_class p) - 1) True)
                        (\<lambda>(c, m). Inr (c, fp, m))) (\<lambda>(cs, fp, m).
          rbind (next_u32s fp 1) (\<lambda>(buf, fp).
            Inr (\<lparr>rtu_roles = rs, rtu_types = ts, rtu_classes = cs, rtu_new_role = buf ! 0\<rparr>, fp, m))))))"

definition role_trans_rule_read ::
  "policydb \<Rightarrow> mem \<Rightarrow> policy_file \<Rightarrow> errcode + role_trans_rule list \<times> policy_file \<times> mem" where
  "role_trans_rule_read p m fp =
     as_fail (rbind (next_u32s fp 1) (\<lambda>(nel, fp). read_many (role_trans_rule_entry p) (unat (nel ! 0)) m fp))"

definition role_allow_rule_entry ::
  "mem \<Rightarrow> policy_file \<Rightarrow> errcode + role_allow_rule \<times> policy_file \<times> mem" where
  "role_allow_rule_entry m fp =
     (case malloc m of
        None \<Rightarrow> Inl EFAIL
      | Some m \<Rightarrow>
          rbind (role_set_read m fp) (\<lambda>(rs, fp, m).
          rbind (role_set_read m fp) (\<lambda>(ns, fp, m). Inr (\<lparr>rau_roles = rs, rau_new_roles = ns\<rparr>, fp, m))))"

definition role_allow_rule_read ::
  "mem \<Rightarrow> policy_file \<Rightarrow> errcode + role_allow_rule list \<times> policy_file \<times> mem" where
  "role_allow_rule_read m fp =
     rbind (next_u32s fp 1) (\<lambda>(nel, fp). read_many role_allow_rule_entry (unat (nel ! 0)) m fp)"

definition filename_trans_rule_entry ::
  "policydb \<Rightarrow> mem \<Rightarrow> policy_file \<Rightarrow> errcode + filename_trans_rule \<times> policy_file \<times> mem" where
  "filename_trans_rule_entry p m fp =
     (case malloc m of
        None \<Rightarrow> Inl EFAIL
      | Some m \<Rightarrow>
          rbind (next_u32s fp 1) (\<lambda>(len, fp).
          rbind (read_str m fp (len ! 0)) (\<lambda>(name, fp, m).
          rbind (type_set_read m fp) (\<lambda>(st, fp, m).
          rbind (type_set_read m fp) (\<lambda>(tt, fp, m).
          rbind (next_u32s fp (if policyvers p \<ge> MOD_POLICYDB_VERSION_SELF_TYPETRANS then 3 else 2)) (\<lambda>(buf, fp).
            Inr (\<lparr>ftr_flags = (if policyvers p \<ge> MOD_POLICYDB_VERSION_SELF_TYPETRANS then buf ! 2 else 0),
                  ftr_stypes = st, ftr_ttypes = tt, ftr_tclass = buf ! 0, ftr_name = name,
                  ftr_otype = buf ! 1\<rparr>, fp, m)))))))"

definition filename_trans_rule_read ::
  "policydb \<Rightarrow> mem \<Rightarrow> policy_file \<Rightarrow> errcode + filename_trans_rule list \<times> policy_file \<times> mem" where
  "filename_trans_rule_read p m fp =
     rbind (next_u32s fp 1) (\<lambda>(nel, fp). read_many (filename_trans_rule_entry p) (unat (nel ! 0)) m fp)"

definition range_trans_rule_entry ::
  "mem \<Rightarrow> policy_file \<Rightarrow> errcode + range_trans_rule \<times> policy_file \<times> mem" where
  "range_trans_rule_entry m fp =
     (case malloc m of
        None \<Rightarrow> Inl EFAIL
      | Some m \<Rightarrow>
          rbind (type_set_read m fp) (\<lambda>(st, fp, m).
          rbind (type_set_read m fp) (\<lambda>(tt, fp, m).
          rbind (ebitmap_read m fp) (\<lambda>(cs, fp, m).
          rbind (mls_read_semantic_range_helper m fp) (\<lambda>(r, fp, m).
            Inr (\<lparr>rgr_stypes = st, rgr_ttypes = tt, rgr_tclasses = cs, rgr_trange = r\<rparr>, fp, m))))))"

definition range_trans_rule_read ::
  "mem \<Rightarrow> policy_file \<Rightarrow> errcode + range_trans_rule list \<times> policy_file \<times> mem" where
  "range_trans_rule_read m fp =
     as_fail (rbind (next_u32s fp 1) (\<lambda>(nel, fp). read_many range_trans_rule_entry (unat (nel ! 0)) m fp))"

section \<open>Scope indexes\<close>

definition scope_index_zero :: scope_index where
  "scope_index_zero =
     \<lparr>sc_commons = ebitmap_init, sc_classes = ebitmap_init, sc_roles = ebitmap_init, sc_types = ebitmap_init,
      sc_users = ebitmap_init, sc_bools = ebitmap_init, sc_sens = ebitmap_init, sc_cats = ebitmap_init,
      class_perms_map = [], class_perms_len = 0\<rparr>"

text \<open>The maps of the first kinds of symbols; the others stay empty.\<close>

definition scope_maps :: "ebitmap list \<Rightarrow> scope_index" where
  "scope_maps es =
     (let e = (\<lambda>i. if i < length es then es ! i else ebitmap_init)
      in scope_index_zero\<lparr>sc_commons := e 0, sc_classes := e 1, sc_roles := e 2, sc_types := e 3,
           sc_users := e 4, sc_bools := e 5, sc_sens := e 6, sc_cats := e 7\<rparr>)"

definition scope_index_read ::
  "nat \<Rightarrow> mem \<Rightarrow> policy_file \<Rightarrow> errcode + scope_index \<times> policy_file \<times> mem" where
  "scope_index_read num_scope_syms m fp =
     as_fail
       (rbind (read_many ebitmap_read num_scope_syms m fp) (\<lambda>(es, fp, m).
        rbind (next_u32s fp 1) (\<lambda>(buf, fp).
        let len = buf ! 0; s = (scope_maps es)\<lparr>class_perms_len := len\<rparr> in
        if is_saturated len \<or> exceeds_available_bytes fp (unat len) (4 * 3) then Inl EFAIL
        else if len = 0 then Inr (s, fp, m)
        else
          (case malloc m of
             None \<Rightarrow> Inl EFAIL
           | Some m \<Rightarrow>
               rbind (read_many ebitmap_read (unat len) m fp) (\<lambda>(cs, fp, m).
                 Inr (s\<lparr>class_perms_map := cs\<rparr>, fp, m))))))"

section \<open>Blocks and declarations\<close>

definition avrule_block_create :: "mem \<Rightarrow> (avrule_block \<times> mem) option" where
  "avrule_block_create m =
     map_option (\<lambda>m. (\<lparr>branch_list = [], block_enabled = None, block_flags = 0\<rparr>, m)) (malloc m)"

text \<open>The eight symbol tables have the small sizes of \<^verbatim>\<open>avrule_block.c\<close>.\<close>

definition avrule_decl_create :: "mem \<Rightarrow> u32 \<Rightarrow> (avrule_decl \<times> mem) option" where
  "avrule_decl_create m i =
     (case malloc m of
        None \<Rightarrow> None
      | Some m \<Rightarrow>
          (case rbind (symtab_init m 2) (\<lambda>(co, m). rbind (symtab_init m 4) (\<lambda>(cl, m).
                rbind (symtab_init m 8) (\<lambda>(ro, m). rbind (symtab_init m 32) (\<lambda>(ty, m).
                rbind (symtab_init m 16) (\<lambda>(us, m). rbind (symtab_init m 4) (\<lambda>(bo, m).
                rbind (symtab_init m 2) (\<lambda>(le, m). rbind (symtab_init m 2) (\<lambda>(ca, m).
                  Inr (\<lparr>decl_id = i, decl_enabled = 0, decl_cond_list = [], decl_avrules = [],
                        decl_role_tr_rules = [], decl_role_allow_rules = [], decl_range_tr_rules = [],
                        decl_required = scope_index_zero, decl_declared = scope_index_zero,
                        decl_filename_trans_rules = [], decl_commons = co, decl_classes = cl, decl_roles = ro,
                        decl_types = ty, decl_users = us, decl_bools = bo, decl_levels = le, decl_cats = ca,
                        decl_module_name = None\<rparr>, m))))))))) of
             Inl _ \<Rightarrow> None
           | Inr r \<Rightarrow> Some r))"

text \<open>
  One table of symbols: its counts, which have to pass \<open>chk\<close>, and its items. \<^verbatim>\<open>nprim\<close> is set
  after the items are read.
\<close>

definition read_symtab ::
  "(policy_file \<Rightarrow> u32 \<Rightarrow> u32 \<Rightarrow> bool)
     \<Rightarrow> (mem \<Rightarrow> (string, 'd) hashtab \<Rightarrow> policy_file \<Rightarrow> errcode + (string, 'd) hashtab \<times> policy_file \<times> mem)
     \<Rightarrow> mem \<Rightarrow> 'd symtab \<Rightarrow> policy_file \<Rightarrow> errcode + 'd symtab \<times> policy_file \<times> mem" where
  "read_symtab chk rd m s fp =
     rbind (next_u32s fp 2) (\<lambda>(buf, fp).
       if \<not> chk fp (buf ! 0) (buf ! 1) then Inl EFAIL
       else
         rbind (read_loop rd (unat (buf ! 1)) m (table s) fp) (\<lambda>(h, fp, m).
           Inr (s\<lparr>table := h, nprim := buf ! 0\<rparr>, fp, m)))"

text \<open>The loop over the kinds of symbols ends before \<open>n\<close>.\<close>

definition read_symtab_if ::
  "bool \<Rightarrow> (policy_file \<Rightarrow> u32 \<Rightarrow> u32 \<Rightarrow> bool)
     \<Rightarrow> (mem \<Rightarrow> (string, 'd) hashtab \<Rightarrow> policy_file \<Rightarrow> errcode + (string, 'd) hashtab \<times> policy_file \<times> mem)
     \<Rightarrow> mem \<Rightarrow> 'd symtab \<Rightarrow> policy_file \<Rightarrow> errcode + 'd symtab \<times> policy_file \<times> mem" where
  "read_symtab_if b chk rd m s fp = (if b then read_symtab chk rd m s fp else Inr (s, fp, m))"

definition decl_symtabs_read ::
  "policydb \<Rightarrow> nat \<Rightarrow> mem \<Rightarrow> avrule_decl \<Rightarrow> policy_file \<Rightarrow> errcode + avrule_decl \<times> policy_file \<times> mem" where
  "decl_symtabs_read p n m d fp =
     (let chk = (\<lambda>_ np _. \<not> is_saturated np) in
      rbind (read_symtab_if (0 < n) chk (common_read p) m (decl_commons d) fp) (\<lambda>(co, fp, m).
      rbind (read_symtab_if (1 < n) chk (class_read p) m (decl_classes d) fp) (\<lambda>(cl, fp, m).
      rbind (read_symtab_if (2 < n) chk (role_read p) m (decl_roles d) fp) (\<lambda>(ro, fp, m).
      rbind (read_symtab_if (3 < n) chk (type_read p) m (decl_types d) fp) (\<lambda>(ty, fp, m).
      rbind (read_symtab_if (4 < n) chk (user_read p) m (decl_users d) fp) (\<lambda>(us, fp, m).
      rbind (read_symtab_if (5 < n) chk (\<lambda>m. cond_read_bool m p) m (decl_bools d) fp) (\<lambda>(bo, fp, m).
      rbind (read_symtab_if (6 < n) chk (sens_read p) m (decl_levels d) fp) (\<lambda>(le, fp, m).
      rbind (read_symtab_if (7 < n) chk (cat_read p) m (decl_cats d) fp) (\<lambda>(ca, fp, m).
        Inr (d\<lparr>decl_commons := co, decl_classes := cl, decl_roles := ro, decl_types := ty, decl_users := us,
               decl_bools := bo, decl_levels := le, decl_cats := ca\<rparr>, fp, m))))))))))"

definition avrule_decl_read ::
  "nat \<Rightarrow> mem \<Rightarrow> policydb \<Rightarrow> avrule_decl \<Rightarrow> policy_file
     \<Rightarrow> errcode + avrule_decl \<times> policydb \<times> policy_file \<times> mem" where
  "avrule_decl_read num_scope_syms m p d fp =
     as_fail
       (rbind (next_u32s fp 2) (\<lambda>(buf, fp).
        rbind (cond_read_list m p fp) (\<lambda>(cl, p, fp, m).
        rbind (avrule_read_list p m fp) (\<lambda>(avs, fp, m).
        rbind (role_trans_rule_read p m fp) (\<lambda>(rts, fp, m).
        rbind (role_allow_rule_read m fp) (\<lambda>(ras, fp, m).
        rbind (if policyvers p \<ge> MOD_POLICYDB_VERSION_FILENAME_TRANS then filename_trans_rule_read p m fp
               else Inr (decl_filename_trans_rules d, fp, m)) (\<lambda>(fts, fp, m).
        rbind (if policyvers p \<ge> MOD_POLICYDB_VERSION_RANGETRANS then range_trans_rule_read m fp
               else Inr (decl_range_tr_rules d, fp, m)) (\<lambda>(rgs, fp, m).
        rbind (scope_index_read num_scope_syms m fp) (\<lambda>(req, fp, m).
        rbind (scope_index_read num_scope_syms m fp) (\<lambda>(dcl, fp, m).
        rbind (decl_symtabs_read p num_scope_syms m d fp) (\<lambda>(d, fp, m).
          Inr (d\<lparr>decl_id := buf ! 0, decl_enabled := buf ! 1, decl_cond_list := cl, decl_avrules := avs,
                 decl_role_tr_rules := rts, decl_role_allow_rules := ras, decl_range_tr_rules := rgs,
                 decl_required := req, decl_declared := dcl, decl_filename_trans_rules := fts\<rparr>,
               p, fp, m))))))))))))"

text \<open>A declaration is added to the block; at most one of them may be enabled.\<close>

definition block_decl_read ::
  "nat \<Rightarrow> mem \<Rightarrow> avrule_block \<times> policydb \<Rightarrow> policy_file
     \<Rightarrow> errcode + (avrule_block \<times> policydb) \<times> policy_file \<times> mem" where
  "block_decl_read n m st fp =
     (case st of (b, p) \<Rightarrow>
        (case avrule_decl_create m 0 of
           None \<Rightarrow> Inl EFAIL
         | Some (d, m) \<Rightarrow>
             rbind (avrule_decl_read n m p d fp) (\<lambda>(d, p, fp, m).
               if decl_enabled d \<noteq> 0 \<and> block_enabled b \<noteq> None then Inl EFAIL
               else
                 Inr ((b\<lparr>block_enabled := (if decl_enabled d \<noteq> 0 then Some (length (branch_list b))
                                           else block_enabled b),
                         branch_list := branch_list b @ [d]\<rparr>, p), fp, m))))"

definition block_read ::
  "nat \<Rightarrow> mem \<Rightarrow> avrule_block list \<times> policydb \<Rightarrow> policy_file
     \<Rightarrow> errcode + (avrule_block list \<times> policydb) \<times> policy_file \<times> mem" where
  "block_read n m st fp =
     (case st of (bs, p) \<Rightarrow>
        (case avrule_block_create m of
           None \<Rightarrow> Inl EFAIL
         | Some (b, m) \<Rightarrow>
             rbind (next_u32s fp 1) (\<lambda>(num_decls, fp).
             rbind (read_loop (block_decl_read n) (unat (num_decls ! 0)) m
                      (b\<lparr>block_flags := (if bs = [] then block_flags b else block_flags b OR AVRULE_OPTIONAL)\<rparr>, p)
                      fp) (\<lambda>((b, p), fp, m).
               Inr ((bs @ [b], p), fp, m)))))"

definition avrule_block_read ::
  "nat \<Rightarrow> mem \<Rightarrow> policydb \<Rightarrow> policy_file
     \<Rightarrow> errcode + (avrule_block list \<times> policydb) \<times> policy_file \<times> mem" where
  "avrule_block_read num_scope_syms m p fp =
     rbind (next_u32s fp 1) (\<lambda>(num_blocks, fp).
       read_loop (block_read num_scope_syms) (unat (num_blocks ! 0)) m ([], p) fp)"

section \<open>Scopes\<close>

definition sym_known :: "policydb \<Rightarrow> nat \<Rightarrow> string \<Rightarrow> bool" where
  "sym_known p symnum k \<longleftrightarrow>
     (if symnum = 0 then sym_search (table (p_commons p)) k \<noteq> None
      else if symnum = 1 then sym_search (table (p_classes p)) k \<noteq> None
      else if symnum = 2 then sym_search (table (p_roles p)) k \<noteq> None
      else if symnum = 3 then sym_search (table (p_types p)) k \<noteq> None
      else if symnum = 4 then sym_search (table (p_users p)) k \<noteq> None
      else if symnum = 5 then sym_search (table (p_bools p)) k \<noteq> None
      else if symnum = 6 then sym_search (table (p_levels p)) k \<noteq> None
      else sym_search (table (p_cats p)) k \<noteq> None)"

definition scope_read ::
  "nat \<Rightarrow> mem \<Rightarrow> policydb \<Rightarrow> policy_file \<Rightarrow> errcode + policydb \<times> policy_file \<times> mem" where
  "scope_read symnum m p fp =
     rbind (next_u32s fp 1) (\<lambda>(key_len, fp).
     rbind (read_str m fp (key_len ! 0)) (\<lambda>(k, fp, m).
     if \<not> sym_known p symnum k then Inl EFAIL
     else
       case malloc m of
         None \<Rightarrow> Inl EFAIL
       | Some m \<Rightarrow>
           rbind (next_u32s fp 2) (\<lambda>(buf, fp).
           if zero_or_saturated (buf ! 1) \<or> exceeds_available_bytes fp (unat (buf ! 1)) 4 then Inl EFAIL
           else
             case malloc m of
               None \<Rightarrow> Inl EFAIL
             | Some m \<Rightarrow>
                 rbind (next_u32s fp (unat (buf ! 1))) (\<lambda>(ids, fp).
                   if k = OBJECT_R \<and> symnum = SYM_ROLES then Inr (p, fp, m)
                   else
                     case arr (sym_scope p) symnum of
                       None \<Rightarrow> Inl UNDEF
                     | Some s \<Rightarrow>
                         rbind (sym_put (table s) k \<lparr>scope_kind = buf ! 0, decl_ids = ids\<rparr> fp m) (\<lambda>(h, fp, m).
                           Inr (p\<lparr>sym_scope := (sym_scope p)[symnum := s\<lparr>table := h\<rparr>]\<rparr>, fp, m))))))"

section \<open>Enabled symbols and permissions\<close>

text \<open>Some of the declarations of \<open>ids\<close> is enabled; a number outside the index is undefined.\<close>

fun some_decl_enabled :: "policydb \<Rightarrow> u32 list \<Rightarrow> errcode + bool" where
  "some_decl_enabled p [] = Inr False"
| "some_decl_enabled p (i # is) =
     (case arr (decl_val_to_struct p) (unat (i - 1)) of
        None \<Rightarrow> Inl UNDEF
      | Some (Some d) \<Rightarrow> if decl_enabled d \<noteq> 0 then Inr True else some_decl_enabled p is
      | Some None \<Rightarrow> some_decl_enabled p is)"

definition is_id_enabled :: "string \<Rightarrow> policydb \<Rightarrow> nat \<Rightarrow> errcode + bool" where
  "is_id_enabled ident p symbol_table =
     (case arr (sym_scope p) symbol_table of
        None \<Rightarrow> Inl UNDEF
      | Some s \<Rightarrow>
          (case sym_search (table s) ident of
             None \<Rightarrow> Inr False
           | Some sc \<Rightarrow>
               if scope_kind sc \<noteq> SCOPE_DECL then Inr False
               else if decl_ids sc = [] then Inr False
               else if symbol_table = SYM_ROLES \<or> symbol_table = SYM_USERS
               then some_decl_enabled p (decl_ids sc)
               else some_decl_enabled p [last (decl_ids sc)]))"

definition is_perm_existent :: "class_datum \<Rightarrow> string \<Rightarrow> bool" where
  "is_perm_existent c perm_id \<longleftrightarrow>
     sym_search (table (class_permissions c)) perm_id \<noteq> None \<or>
     (case comdatum c of
        None \<Rightarrow> False
      | Some com \<Rightarrow> sym_search (table (common_permissions com)) perm_id \<noteq> None)"

end
