(* ===== verification/Policydb_Index.thy ===== *)
theory Policydb_Index
  imports Module_IO Sidtab
begin

text \<open>
  The life of a policy database in \<^verbatim>\<open>src/policydb.c\<close>: its initialisation with the role
  \<^verbatim>\<open>object_r\<close> (\<^verbatim>\<open>policydb_init\<close>, \<^verbatim>\<open>symtab_insert\<close>), the indexes by value that are built from the
  symbol tables, and the expansion of the sets of roles, users and levels
  (\<^verbatim>\<open>role_set_expand\<close>, \<^verbatim>\<open>type_set_expand\<close> and \<^verbatim>\<open>mls_semantic_level_expand\<close> of \<^verbatim>\<open>src/expand.c\<close>)
  that fills the caches of roles and users.

  A datum is shared between its symbol table and the index by value; a callback that writes it
  changes both. Messages are not modelled, but their arguments are evaluated before they are
  printed: reading a name outside its array is undefined there as elsewhere.
\<close>

abbreviation (input) "ROLE_STAR \<equiv> 1"
abbreviation (input) "ROLE_COMP \<equiv> 2"
abbreviation (input) "ROLE_ROLE \<equiv> 0"
abbreviation (input) "ROLE_ATTRIB \<equiv> 1"
abbreviation (input) "TYPE_STAR \<equiv> 1"
abbreviation (input) "TYPE_COMP \<equiv> 2"
abbreviation (input) "TYPE_FLAGS_EXPAND_ATTR_TRUE \<equiv> 2"

section \<open>Traversal of tables\<close>

text \<open>\<^verbatim>\<open>hashtab_map\<close> with a callback that changes the state or fails.\<close>

fun map_entries :: "('k \<Rightarrow> 'd \<Rightarrow> 's \<Rightarrow> errcode + 's) \<Rightarrow> ('k \<times> 'd) list \<Rightarrow> 's \<Rightarrow> errcode + 's" where
  "map_entries f [] s = Inr s"
| "map_entries f ((k, d) # r) s = rbind (f k d s) (\<lambda>s. map_entries f r s)"

definition map_table :: "('k \<Rightarrow> 'd \<Rightarrow> 's \<Rightarrow> errcode + 's) \<Rightarrow> ('k, 'd) hashtab \<Rightarrow> 's \<Rightarrow> errcode + 's" where
  "map_table f h s =
     (case h of None \<Rightarrow> Inr s | Some h0 \<Rightarrow> map_entries f (concat (take (unat (hsize h0)) (htable h0))) s)"

text \<open>It is the traversal of \<open>Hashtab\<close> with the error kept in the state.\<close>

definition stop_on_error :: "('k \<Rightarrow> 'd \<Rightarrow> 's \<Rightarrow> errcode + 's) \<Rightarrow> 'k \<Rightarrow> 'd \<Rightarrow> errcode + 's \<Rightarrow> int \<times> (errcode + 's)" where
  "stop_on_error f k d st = (let r = rbind st (f k d) in ((case r of Inl _ \<Rightarrow> -1 | Inr _ \<Rightarrow> 0), r))"

lemma map_chain_entries: "snd (map_chain (stop_on_error f) c (Inr s)) = map_entries f c s"
proof (induction c arbitrary: s)
  case (Cons x c)
  obtain k d where x: "x = (k, d)" by (cases x)
  have "stop_on_error f k d (Inr s) = ((case f k d s of Inl _ \<Rightarrow> -1 | Inr _ \<Rightarrow> 0), f k d s)"
    by (simp add: stop_on_error_def Let_def)
  then show ?case by (cases "f k d s") (simp_all add: x Cons.IH)
qed simp

lemma map_table_hashtab_map: "map_table f h s = snd (hashtab_map (stop_on_error f) h (Inr s))"
  by (cases h) (simp_all add: map_table_def hashtab_map_def map_slots_concat map_chain_entries)

section \<open>Insertion of a symbol with its scope\<close>

definition add_i_to_a :: "mem \<Rightarrow> u32 \<Rightarrow> u32 list \<Rightarrow> errcode + u32 list \<times> mem" where
  "add_i_to_a m i a =
     (if of_nat (length a) = (0xFFFFFFFF :: u32) then Inl EFAIL
      else case malloc m of None \<Rightarrow> Inl EFAIL | Some m \<Rightarrow> Inr (a @ [i], m))"

text \<open>The status: 0, 1, -2, or another error.\<close>

datatype insert_status = Inserted | Present | Conflict | Failed errcode

text \<open>
  The scope of the symbol after the declaration \<open>id\<close> was added to it; \<open>both_regular\<close> says of the
  roles that the old and the new one are no attributes.
\<close>

definition scope_add ::
  "mem \<Rightarrow> scope_datum \<Rightarrow> u32 \<Rightarrow> u32 \<Rightarrow> insert_status \<Rightarrow> insert_status \<times> scope_datum \<times> mem" where
  "scope_add m sd scope i st =
     (if i \<in> set (decl_ids sd) then (st, sd, m)
      else case add_i_to_a m i (decl_ids sd) of
        Inl _ \<Rightarrow> (Failed ENOMEM, sd, m)
      | Inr (ids, m) \<Rightarrow>
          if scope_kind sd = SCOPE_DECL \<and> scope = SCOPE_REQ then
            (if length ids < 2 then (Failed EFAIL, sd\<lparr>decl_ids := ids\<rparr>, m)
             else (st, sd\<lparr>decl_ids := ids[length ids - 2 := ids ! (length ids - 1),
                                          length ids - 1 := ids ! (length ids - 2)]\<rparr>, m))
          else (st, sd\<lparr>decl_ids := ids\<rparr>, m))"

definition symtab_insert ::
  "mem \<Rightarrow> nat \<Rightarrow> 'd symtab \<Rightarrow> scope_datum symtab \<Rightarrow> string \<Rightarrow> 'd \<Rightarrow> ('d \<Rightarrow> u32 \<Rightarrow> 'd) option \<Rightarrow> ('d \<Rightarrow> bool)
     \<Rightarrow> u32 \<Rightarrow> u32 \<Rightarrow> insert_status \<times> 'd symtab \<times> scope_datum symtab \<times> mem" where
  "symtab_insert m symnum tab scs k d set_value regular scope i =
     (let d' = (case set_value of None \<Rightarrow> d | Some f \<Rightarrow> f d (nprim tab + 1)) in
      case hashtab_insert symhash symcmp m (table tab) k d' of
        (rc, h, m) \<Rightarrow>
          if rc \<noteq> None \<and> rc \<noteq> Some EEXIST then (Failed (the rc), tab\<lparr>table := h\<rparr>, scs, m)
          else
            (let st = (if rc = None then Inserted else Present);
                 tab = (if rc = None \<and> set_value \<noteq> None then tab\<lparr>table := h, nprim := nprim tab + 1\<rparr>
                        else tab\<lparr>table := h\<rparr>)
             in case sym_search (table scs) k of
                  None \<Rightarrow>
                    (case malloc m of
                       None \<Rightarrow> (Failed ENOMEM, tab, scs, m)
                     | Some m \<Rightarrow>
                         (case malloc m of
                            None \<Rightarrow> (Failed ENOMEM, tab, scs, m)
                          | Some m \<Rightarrow>
                              (let sd = \<lparr>scope_kind = scope, decl_ids = []\<rparr> in
                               case hashtab_insert symhash symcmp m (table scs) k sd of
                                 (Some err, h, m) \<Rightarrow> (Failed err, tab, scs\<lparr>table := h\<rparr>, m)
                               | (None, h, m) \<Rightarrow>
                                   (case scope_add m sd scope i st of
                                      (st, sd, m) \<Rightarrow> (st, tab, scs\<lparr>table := put_datum k sd h\<rparr>, m)))))
                | Some sd \<Rightarrow>
                    if scope_kind sd = SCOPE_DECL \<and> scope = SCOPE_DECL \<and>
                       (symnum \<noteq> SYM_ROLES \<and> symnum \<noteq> SYM_USERS \<or>
                        symnum = SYM_ROLES \<and> \<not> (regular (the (sym_search (table tab) k)) \<and> regular d))
                    then (Conflict, tab, scs, m)
                    else
                      (let sd = (if scope_kind sd = SCOPE_REQ \<and> scope = SCOPE_DECL
                                 then sd\<lparr>scope_kind := SCOPE_DECL\<rparr> else sd)
                       in case scope_add m sd scope i st of
                            (st, sd, m) \<Rightarrow> (st, tab, scs\<lparr>table := put_datum k sd (table scs)\<rparr>, m))))"

section \<open>Initialisation\<close>

definition role_datum_zero :: role_datum where
  "role_datum_zero =
     \<lparr>role_value = 0, dominates = ebitmap_init, role_types = type_set_init, role_cache = ebitmap_init,
      role_bounds = 0, role_flavor = 0, role_roles = ebitmap_init\<rparr>"

text \<open>The database after \<^verbatim>\<open>memset\<close>.\<close>

definition policydb_zero :: policydb where
  "policydb_zero =
     (let t = \<lparr>table = None, nprim = 0\<rparr>; av = \<lparr>avtable = None, avnel = 0, nslot = 0, avmask = 0\<rparr>
      in \<lparr>policy_type = 0, pol_name = None, pol_version = None, target_platform = 0,
      unsupported_format = 0, mls = False,
      p_commons = \<lparr>table = None, nprim = 0\<rparr>, p_classes = \<lparr>table = None, nprim = 0\<rparr>,
      p_roles = \<lparr>table = None, nprim = 0\<rparr>, p_types = \<lparr>table = None, nprim = 0\<rparr>,
      p_users = \<lparr>table = None, nprim = 0\<rparr>, p_bools = \<lparr>table = None, nprim = 0\<rparr>,
      p_levels = \<lparr>table = None, nprim = 0\<rparr>, p_cats = \<lparr>table = None, nprim = 0\<rparr>,
      p_common_val_to_name = [], p_class_val_to_name = [], p_role_val_to_name = [],
      p_type_val_to_name = [], p_user_val_to_name = [], p_bool_val_to_name = [],
      p_sens_val_to_name = [], p_cat_val_to_name = [],
      class_val_to_struct = [], role_val_to_struct = [], user_val_to_struct = [],
      type_val_to_struct = [], bool_val_to_struct = [],
      sym_scope = replicate 8 t, global_blocks = [], decl_val_to_struct = [],
      te_avtab = av, te_cond_avtab = av, cond_list = [], role_tr = [], role_allows = [],
      ocon_isid = [], ocon_fs = [], ocon_port = [], ocon_netif = [], ocon_node = [], ocon_fsuse = [],
      ocon_node6 = [], ocon_ibpkey = [], ocon_ibendport = [], genfs_list = [],
      range_tr = None, filename_trans = None, filename_trans_count = 0,
      type_attr_map = [], attr_type_map = [], policycaps = ebitmap_init, permissive_map = ebitmap_init,
      policyvers = 0, handle_unknown = 0, process_class = 0, dir_class = 0, process_trans = 0,
      process_trans_dyntrans = 0\<rparr>)"

text \<open>The three ways of \<^verbatim>\<open>roles_init\<close>: done, failed, or -EINVAL for another value than 1.\<close>

definition roles_init :: "mem \<Rightarrow> policydb \<Rightarrow> errcode + policydb \<times> mem" where
  "roles_init m p =
     (case malloc m of
        None \<Rightarrow> Inl ENOMEM
      | Some m \<Rightarrow>
          (case malloc m of
             None \<Rightarrow> Inl ENOMEM
           | Some m \<Rightarrow>
               (case arr (sym_scope p) SYM_ROLES of
                  None \<Rightarrow> Inl UNDEF
                | Some scs \<Rightarrow>
                    (case symtab_insert m SYM_ROLES (p_roles p) scs OBJECT_R role_datum_zero
                            (Some (\<lambda>d v. d\<lparr>role_value := v\<rparr>)) (\<lambda>d. role_flavor d = ROLE_ROLE)
                            (if policy_type p = POLICY_MOD then SCOPE_REQ else SCOPE_DECL) 1 of
                       (Inserted, tab, scs, m) \<Rightarrow>
                         if nprim tab \<noteq> OBJECT_R_VAL then Inl EINVAL
                         else Inr (p\<lparr>p_roles := tab, sym_scope := (sym_scope p)[SYM_ROLES := scs]\<rparr>, m)
                     | (Failed err, _) \<Rightarrow> Inl err
                     | _ \<Rightarrow> Inl EFAIL))))"

text \<open>The symbol tables of \<open>policydb_init\<close>, with the sizes of \<^verbatim>\<open>symtab_sizes\<close>.\<close>

definition init_symtabs :: "mem \<Rightarrow> policydb \<Rightarrow> errcode + policydb \<times> mem" where
  "init_symtabs m p =
     rbind (symtab_init m 2) (\<lambda>(co, m). rbind (symtab_init m 32) (\<lambda>(cl, m).
     rbind (symtab_init m 16) (\<lambda>(ro, m). rbind (symtab_init m 512) (\<lambda>(ty, m).
     rbind (symtab_init m 128) (\<lambda>(us, m). rbind (symtab_init m 16) (\<lambda>(bo, m).
     rbind (symtab_init m 16) (\<lambda>(le, m). rbind (symtab_init m 16) (\<lambda>(ca, m).
       Inr (p\<lparr>p_commons := co, p_classes := cl, p_roles := ro, p_types := ty, p_users := us,
              p_bools := bo, p_levels := le, p_cats := ca\<rparr>, m)))))))))"

fun init_scopes :: "u32 list \<Rightarrow> mem \<Rightarrow> scope_datum symtab list \<Rightarrow> errcode + scope_datum symtab list \<times> mem" where
  "init_scopes [] m scs = Inr (scs, m)"
| "init_scopes (sz # szs) m scs = rbind (symtab_init m sz) (\<lambda>(s, m). init_scopes szs m (scs @ [s]))"

definition symtab_sizes :: "u32 list" where
  "symtab_sizes = [2, 32, 16, 512, 128, 16, 16, 16]"

text \<open>
  The result: the status and the database, or \<open>None\<close> for the tables that were torn down at
  \<^verbatim>\<open>err\<close>. The scope tables and the first block do not set \<^verbatim>\<open>rc\<close>, so their failure is reported
  as success.
\<close>

definition policydb_init :: "mem \<Rightarrow> errcode option \<times> (policydb \<times> mem) option" where
  "policydb_init m =
     (case init_symtabs m policydb_zero of
        Inl err \<Rightarrow> (Some err, None)
      | Inr (p, m) \<Rightarrow>
          (case init_scopes symtab_sizes m [] of
             Inl _ \<Rightarrow> (None, None)
           | Inr (scs, m) \<Rightarrow>
               (case avrule_block_create m of
                  None \<Rightarrow> (None, None)
                | Some (b, m) \<Rightarrow>
                    (case avrule_decl_create m 1 of
                       None \<Rightarrow> (None, None)
                     | Some (d, m) \<Rightarrow>
                         (case roles_init m (p\<lparr>sym_scope := scs, global_blocks := [b\<lparr>branch_list := [d]\<rparr>],
                                                decl_val_to_struct := [], te_avtab := avtab_init (te_avtab p)\<rparr>) of
                            Inl err \<Rightarrow> (Some err, None)
                          | Inr (p, m) \<Rightarrow>
                              (let p = cond_policydb_init p in
                               case hashtab_create m 1024 of
                                 (None, _) \<Rightarrow> (Some ENOMEM, None)
                               | (Some ft, m) \<Rightarrow>
                                   (case hashtab_create m 256 of
                                      (None, _) \<Rightarrow> (Some ENOMEM, None)
                                    | (Some rt, m) \<Rightarrow>
                                        (None, Some (p\<lparr>filename_trans := Some ft, range_tr := Some rt,
                                                       policycaps := ebitmap_init,
                                                       permissive_map := ebitmap_init\<rparr>, m)))))))))"

section \<open>Type sets\<close>

definition type_set_or :: "mem \<Rightarrow> type_set \<Rightarrow> type_set \<Rightarrow> errcode + type_set \<times> mem" where
  "type_set_or m a b =
     as_fail
       (rbind (ebitmap_or m (ts_types a) (ts_types b)) (\<lambda>(ts, m).
        rbind (ebitmap_or m (negset a) (negset b)) (\<lambda>(ns, m).
          Inr (\<lparr>ts_types = ts, negset = ns, ts_flags = ts_flags a OR ts_flags b\<rparr>, m))))"

definition type_set_cpy :: "mem \<Rightarrow> type_set \<Rightarrow> errcode + type_set \<times> mem" where
  "type_set_cpy m src =
     as_fail
       (rbind (ebitmap_cpy m (ts_types src)) (\<lambda>(ts, m).
        rbind (ebitmap_cpy m (negset src)) (\<lambda>(ns, m).
          Inr (\<lparr>ts_types = ts, negset = ns, ts_flags = ts_flags src\<rparr>, m))))"

definition type_set_or_eq :: "mem \<Rightarrow> type_set \<Rightarrow> type_set \<Rightarrow> errcode + type_set \<times> mem" where
  "type_set_or_eq m dst other = rbind (type_set_or m dst other) (\<lambda>(tmp, m). type_set_cpy m tmp)"

section \<open>Expansion of sets\<close>

text \<open>A loop over bits that sets, skips or unites, threading a bitmap.\<close>

fun fold_bits ::
  "(mem \<Rightarrow> u32 \<Rightarrow> ebitmap \<Rightarrow> errcode + ebitmap \<times> mem) \<Rightarrow> mem \<Rightarrow> u32 list \<Rightarrow> ebitmap
     \<Rightarrow> errcode + ebitmap \<times> mem" where
  "fold_bits f m [] e = Inr (e, m)"
| "fold_bits f m (i # is) e = rbind (f m i e) (\<lambda>(e, m). fold_bits f m is e)"

abbreviation below :: "u32 \<Rightarrow> u32 list" where
  "below n \<equiv> map of_nat [0..<unat n]"

definition set_bit_step :: "mem \<Rightarrow> u32 \<Rightarrow> ebitmap \<Rightarrow> errcode + ebitmap \<times> mem" where
  "set_bit_step m i e = ebitmap_set_bit m e i True"

definition flip_bit_step :: "mem \<Rightarrow> u32 \<Rightarrow> ebitmap \<Rightarrow> errcode + ebitmap \<times> mem" where
  "flip_bit_step m i e = ebitmap_set_bit m e i (\<not> ebitmap_get_bit e i)"

definition map_ebitmap_step :: "u32 list \<Rightarrow> mem \<Rightarrow> u32 \<Rightarrow> ebitmap \<Rightarrow> errcode + ebitmap \<times> mem" where
  "map_ebitmap_step mp m i e =
     (case arr mp (unat i) of
        None \<Rightarrow> Inl UNDEF
      | Some v \<Rightarrow> if v = 0 then Inr (e, m) else ebitmap_set_bit m e (v - 1) True)"

definition map_ebitmap :: "mem \<Rightarrow> ebitmap \<Rightarrow> u32 list \<Rightarrow> errcode + ebitmap \<times> mem" where
  "map_ebitmap m src mp = as_fail (fold_bits (map_ebitmap_step mp) m (ebitmap_positive_bits src) ebitmap_init)"

text \<open>A role of the base module: an attribute stands for its roles.\<close>

definition base_role_step :: "policydb \<Rightarrow> mem \<Rightarrow> u32 \<Rightarrow> ebitmap \<Rightarrow> errcode + ebitmap \<times> mem" where
  "base_role_step p m i e =
     (case ptr_arr (role_val_to_struct p) (unat i) of
        None \<Rightarrow> Inl UNDEF
      | Some r \<Rightarrow>
          if role_flavor r = ROLE_ATTRIB then ebitmap_union m e (role_roles r)
          else ebitmap_set_bit m e i True)"

definition ebitmap_expand_roles :: "mem \<Rightarrow> policydb \<Rightarrow> ebitmap \<Rightarrow> errcode + ebitmap \<times> mem" where
  "ebitmap_expand_roles m p roles =
     as_fail
       (rbind (fold_bits (base_role_step p) m (ebitmap_positive_bits roles) ebitmap_init) (\<lambda>(tmp, m).
          ebitmap_cpy m tmp))"

text \<open>\<open>mp\<close> is \<^verbatim>\<open>base\<close> with \<^verbatim>\<open>rolemap\<close>, or \<open>None\<close> for the null pointers.\<close>

definition role_set_expand ::
  "mem \<Rightarrow> role_set \<Rightarrow> policydb \<Rightarrow> (policydb \<times> u32 list) option \<Rightarrow> errcode + ebitmap \<times> mem" where
  "role_set_expand m x p mp =
     as_fail
       (if rs_flags x AND ROLE_STAR \<noteq> 0 then fold_bits set_bit_step m (below (nprim (p_roles p))) ebitmap_init
        else
          rbind (case mp of
                   None \<Rightarrow> ebitmap_cpy m (rs_roles x)
                 | Some (base, rolemap) \<Rightarrow>
                     rbind (fold_bits (base_role_step base) m (ebitmap_positive_bits (rs_roles x)) ebitmap_init)
                       (\<lambda>(roles, m). map_ebitmap m roles rolemap)) (\<lambda>(mapped_roles, m).
          rbind (fold_bits set_bit_step m (ebitmap_positive_bits mapped_roles) ebitmap_init) (\<lambda>(r, m).
            if rs_flags x AND ROLE_COMP \<noteq> 0 then fold_bits flip_bit_step m (below (nprim (p_roles p))) r
            else Inr (r, m))))"

definition is_attr_datum :: "type_datum option \<Rightarrow> bool" where
  "is_attr_datum t = (case t of None \<Rightarrow> False | Some d \<Rightarrow> type_flavor d = TYPE_ATTRIB)"

text \<open>A type of the set: it has to be known, and an attribute is expanded.\<close>

definition type_step :: "policydb \<Rightarrow> bool \<Rightarrow> mem \<Rightarrow> u32 \<Rightarrow> ebitmap \<Rightarrow> errcode + ebitmap \<times> mem" where
  "type_step p expand m i e =
     (if i \<ge> nprim (p_types p) then Inl EFAIL
      else case arr (type_val_to_struct p) (unat i) of
        None \<Rightarrow> Inl UNDEF
      | Some None \<Rightarrow> Inl EFAIL
      | Some (Some t) \<Rightarrow>
          if type_flavor t = TYPE_ATTRIB \<and> (expand \<or> type_flags t AND TYPE_FLAGS_EXPAND_ATTR_TRUE \<noteq> 0)
          then ebitmap_union m e (type_types t)
          else ebitmap_set_bit m e i True)"

text \<open>A type of the negative set: the index is read without a test.\<close>

definition neg_type_step :: "policydb \<Rightarrow> mem \<Rightarrow> u32 \<Rightarrow> ebitmap \<Rightarrow> errcode + ebitmap \<times> mem" where
  "neg_type_step p m i e =
     (case arr (type_val_to_struct p) (unat i) of
        None \<Rightarrow> Inl UNDEF
      | Some t \<Rightarrow>
          if is_attr_datum t then ebitmap_union m e (type_types (the t))
          else ebitmap_set_bit m e i True)"

definition star_step :: "policydb \<Rightarrow> ebitmap \<Rightarrow> mem \<Rightarrow> u32 \<Rightarrow> ebitmap \<Rightarrow> errcode + ebitmap \<times> mem" where
  "star_step p neg m i e =
     (if ebitmap_get_bit neg i then Inr (e, m)
      else case arr (type_val_to_struct p) (unat i) of
        None \<Rightarrow> Inl UNDEF
      | Some t \<Rightarrow> if is_attr_datum t then Inr (e, m) else ebitmap_set_bit m e i True)"

definition positive_step :: "ebitmap \<Rightarrow> mem \<Rightarrow> u32 \<Rightarrow> ebitmap \<Rightarrow> errcode + ebitmap \<times> mem" where
  "positive_step neg m i e = (if \<not> ebitmap_get_bit neg i then ebitmap_set_bit m e i True else Inr (e, m))"

text \<open>\<^verbatim>\<open>assert\<close> fails on an attribute in the set.\<close>

definition comp_step :: "policydb \<Rightarrow> mem \<Rightarrow> u32 \<Rightarrow> ebitmap \<Rightarrow> errcode + ebitmap \<times> mem" where
  "comp_step p m i e =
     (case arr (type_val_to_struct p) (unat i) of
        None \<Rightarrow> Inl UNDEF
      | Some t \<Rightarrow>
          if is_attr_datum t then (if ebitmap_get_bit e i then Inl UNDEF else Inr (e, m))
          else flip_bit_step m i e)"

definition type_set_expand :: "mem \<Rightarrow> type_set \<Rightarrow> policydb \<Rightarrow> bool \<Rightarrow> errcode + ebitmap \<times> mem" where
  "type_set_expand m s p alwaysexpand =
     as_fail
       (let expand = (alwaysexpand \<or> \<not> ebitmap_is_empty (negset s) \<or> ts_flags s \<noteq> 0) in
        rbind (fold_bits (type_step p expand) m (ebitmap_positive_bits (ts_types s)) ebitmap_init) (\<lambda>(types, m).
        rbind (fold_bits (neg_type_step p) m (ebitmap_positive_bits (negset s)) ebitmap_init) (\<lambda>(neg, m).
          if ts_flags s AND TYPE_STAR \<noteq> 0 then
            fold_bits (star_step p neg) m (below (nprim (p_types p))) ebitmap_init
          else
            rbind (fold_bits (positive_step neg) m (ebitmap_positive_bits types) ebitmap_init) (\<lambda>(t, m).
              if ts_flags s AND TYPE_COMP \<noteq> 0 then fold_bits (comp_step p) m (below (nprim (p_types p))) t
              else Inr (t, m)))))"

section \<open>Expansion of semantic levels\<close>

text \<open>A name that is read for a message: outside the array it is undefined.\<close>

definition message_name :: "string option list \<Rightarrow> u32 \<Rightarrow> errcode + 'a" where
  "message_name ns i = (if unat i < length ns then Inl EFAIL else Inl UNDEF)"

fun expand_cat ::
  "policydb \<Rightarrow> ebitmap \<Rightarrow> mem \<Rightarrow> u32 \<Rightarrow> nat \<Rightarrow> ebitmap \<Rightarrow> errcode + ebitmap \<times> mem" where
  "expand_cat p permitted m i 0 e = Inr (e, m)"
| "expand_cat p permitted m i (Suc n) e =
     (if \<not> ebitmap_get_bit permitted i then message_name (p_cat_val_to_name p) i
      else
        rbind (ebitmap_set_bit m e i True) (\<lambda>(e, m). expand_cat p permitted m (i + 1) n e))"

fun expand_cats ::
  "policydb \<Rightarrow> ebitmap \<Rightarrow> mem \<Rightarrow> mls_semantic_cat list \<Rightarrow> ebitmap \<Rightarrow> errcode + ebitmap \<times> mem" where
  "expand_cats p permitted m [] e = Inr (e, m)"
| "expand_cats p permitted m (c # cs) e =
     (if scat_low c = 0 \<or> scat_low c > scat_high c then
        (if scat_low c > 0 \<and> \<not> unat (scat_low c - 1) < length (p_cat_val_to_name p) then Inl UNDEF
         else if scat_high c > 0 then message_name (p_cat_val_to_name p) (scat_high c - 1)
         else Inl EFAIL)
      else
        rbind (expand_cat p permitted m (scat_low c - 1) (unat (scat_high c) - unat (scat_low c - 1)) e)
          (\<lambda>(e, m). expand_cats p permitted m cs e))"

definition mls_semantic_level_expand :: "mem \<Rightarrow> mls_semantic_level \<Rightarrow> policydb \<Rightarrow> errcode + mls_level \<times> mem" where
  "mls_semantic_level_expand m sl p =
     (if \<not> mls p then Inr (mls_level_init, m)
      else if ssens sl = 0 then Inr (mls_level_init, m)
      else if ssens sl > nprim (p_levels p) then Inl EFAIL
      else case arr (p_sens_val_to_name p) (unat (ssens sl - 1)) of
        None \<Rightarrow> Inl UNDEF
      | Some None \<Rightarrow> Inl EFAIL
      | Some (Some name) \<Rightarrow>
          (case sym_search (table (p_levels p)) name of
             None \<Rightarrow> Inl EFAIL
           | Some levdatum \<Rightarrow>
               as_fail
                 (rbind (expand_cats p (cat (lev levdatum)) m (scat sl) ebitmap_init) (\<lambda>(c, m).
                    Inr (\<lparr>sens = ssens sl, cat = c\<rparr>, m)))))"

definition mls_semantic_range_expand :: "mem \<Rightarrow> mls_semantic_range \<Rightarrow> policydb \<Rightarrow> errcode + mls_range \<times> mem" where
  "mls_semantic_range_expand m sr p =
     rbind (mls_semantic_level_expand m (slow sr) p) (\<lambda>(l0, m).
     rbind (mls_semantic_level_expand m (shigh sr) p) (\<lambda>(l1, m).
       if \<not> mls_level_dom l1 l0 then Inl EFAIL else Inr (\<lparr>low = l0, high = l1\<rparr>, m)))"

section \<open>Caches of roles and users\<close>

definition policydb_role_cache :: "string \<Rightarrow> role_datum \<Rightarrow> policydb \<times> mem \<Rightarrow> errcode + policydb \<times> mem" where
  "policydb_role_cache k rd st =
     (case st of (p, m) \<Rightarrow>
        as_fail
          (rbind (type_set_expand m (role_types rd) p True) (\<lambda>(c, m).
           let r = rd\<lparr>role_cache := c\<rparr>
           in Inr (p\<lparr>p_roles := (p_roles p)\<lparr>table := put_datum k r (table (p_roles p))\<rparr>,
                     role_val_to_struct := (role_val_to_struct p)[unat (role_value r - 1) := Some r]\<rparr>, m))))"

definition policydb_user_cache :: "string \<Rightarrow> user_datum \<Rightarrow> policydb \<times> mem \<Rightarrow> errcode + policydb \<times> mem" where
  "policydb_user_cache k ud st =
     (case st of (p, m) \<Rightarrow>
        as_fail
          (rbind (role_set_expand m (user_roles ud) p None) (\<lambda>(c, m).
           rbind (if policy_type p \<noteq> POLICY_KERN \<and> policy_type p \<noteq> POLICY_MOD then
                    rbind (mls_semantic_range_expand m (user_range ud) p) (\<lambda>(r, m).
                    rbind (mls_semantic_level_expand m (dfltlevel ud) p) (\<lambda>(l, m).
                      Inr (ud\<lparr>user_cache := c, exp_range := r, exp_dfltlevel := l\<rparr>, m)))
                  else Inr (ud\<lparr>user_cache := c\<rparr>, m)) (\<lambda>(u, m).
             Inr (p\<lparr>p_users := (p_users p)\<lparr>table := put_datum k u (table (p_users p))\<rparr>,
                    user_val_to_struct := (user_val_to_struct p)[unat (user_value u - 1) := Some u]\<rparr>, m)))))"

section \<open>Indexes\<close>

text \<open>A name and the datum are entered at the value, which has to be valid and free.\<close>

definition index_free :: "u32 \<Rightarrow> u32 \<Rightarrow> string option list \<Rightarrow> errcode + nat" where
  "index_free v n arr_names =
     (if \<not> value_isvalid v n then Inl EINVAL
      else case arr arr_names (unat (v - 1)) of
        None \<Rightarrow> Inl UNDEF
      | Some (Some _) \<Rightarrow> Inl EINVAL
      | Some None \<Rightarrow> Inr (unat (v - 1)))"

definition common_index :: "string \<Rightarrow> common_datum \<Rightarrow> policydb \<Rightarrow> errcode + policydb" where
  "common_index k d p =
     rbind (index_free (common_value d) (nprim (p_commons p)) (p_common_val_to_name p)) (\<lambda>i.
       Inr (p\<lparr>p_common_val_to_name := (p_common_val_to_name p)[i := Some k]\<rparr>))"

definition class_index :: "string \<Rightarrow> class_datum \<Rightarrow> policydb \<Rightarrow> errcode + policydb" where
  "class_index k d p =
     rbind (index_free (class_value d) (nprim (p_classes p)) (p_class_val_to_name p)) (\<lambda>i.
       Inr (p\<lparr>p_class_val_to_name := (p_class_val_to_name p)[i := Some k],
              class_val_to_struct := (class_val_to_struct p)[i := Some d]\<rparr>))"

definition role_index :: "string \<Rightarrow> role_datum \<Rightarrow> policydb \<Rightarrow> errcode + policydb" where
  "role_index k d p =
     rbind (index_free (role_value d) (nprim (p_roles p)) (p_role_val_to_name p)) (\<lambda>i.
       Inr (p\<lparr>p_role_val_to_name := (p_role_val_to_name p)[i := Some k],
              role_val_to_struct := (role_val_to_struct p)[i := Some d]\<rparr>))"

definition type_index :: "string \<Rightarrow> type_datum \<Rightarrow> policydb \<Rightarrow> errcode + policydb" where
  "type_index k d p =
     (if primary d \<noteq> 0 then
        rbind (index_free (type_value d) (nprim (p_types p)) (p_type_val_to_name p)) (\<lambda>i.
          Inr (p\<lparr>p_type_val_to_name := (p_type_val_to_name p)[i := Some k],
                 type_val_to_struct := (type_val_to_struct p)[i := Some d]\<rparr>))
      else Inr p)"

definition user_index :: "string \<Rightarrow> user_datum \<Rightarrow> policydb \<Rightarrow> errcode + policydb" where
  "user_index k d p =
     rbind (index_free (user_value d) (nprim (p_users p)) (p_user_val_to_name p)) (\<lambda>i.
       Inr (p\<lparr>p_user_val_to_name := (p_user_val_to_name p)[i := Some k],
              user_val_to_struct := (user_val_to_struct p)[i := Some d]\<rparr>))"

definition sens_index :: "string \<Rightarrow> level_datum \<Rightarrow> policydb \<Rightarrow> errcode + policydb" where
  "sens_index k d p =
     (if lev_isalias d = 0 then
        rbind (index_free (sens (lev d)) (nprim (p_levels p)) (p_sens_val_to_name p)) (\<lambda>i.
          Inr (p\<lparr>p_sens_val_to_name := (p_sens_val_to_name p)[i := Some k]\<rparr>))
      else Inr p)"

definition cat_index :: "string \<Rightarrow> cat_datum \<Rightarrow> policydb \<Rightarrow> errcode + policydb" where
  "cat_index k d p =
     (if cat_isalias d = 0 then
        rbind (index_free (cat_value d) (nprim (p_cats p)) (p_cat_val_to_name p)) (\<lambda>i.
          Inr (p\<lparr>p_cat_val_to_name := (p_cat_val_to_name p)[i := Some k]\<rparr>))
      else Inr p)"

text \<open>\<^verbatim>\<open>calloc\<close> of an array of pointers.\<close>

definition null_array :: "mem \<Rightarrow> u32 \<Rightarrow> errcode + 'a option list \<times> mem" where
  "null_array m n = (case malloc m of None \<Rightarrow> Inl EFAIL | Some m \<Rightarrow> Inr (replicate (unat n) None, m))"

definition policydb_index_classes :: "mem \<Rightarrow> policydb \<Rightarrow> errcode + policydb \<times> mem" where
  "policydb_index_classes m p =
     as_fail
       (rbind (null_array m (nprim (p_commons p))) (\<lambda>(ns, m).
        rbind (map_table common_index (table (p_commons p)) (p\<lparr>p_common_val_to_name := ns\<rparr>)) (\<lambda>p.
        rbind (null_array m (nprim (p_classes p))) (\<lambda>(ss, m).
        rbind (null_array m (nprim (p_classes p))) (\<lambda>(ns, m).
        rbind (map_table class_index (table (p_classes p))
                 (p\<lparr>class_val_to_struct := ss, p_class_val_to_name := ns\<rparr>)) (\<lambda>p. Inr (p, m)))))))"

definition policydb_index_bools :: "mem \<Rightarrow> policydb \<Rightarrow> errcode + policydb \<times> mem" where
  "policydb_index_bools m p =
     as_fail
       (rbind (cond_init_bool_indexes m p) (\<lambda>(p, m).
        rbind (null_array m (nprim (p_bools p))) (\<lambda>(ns, m).
        rbind (map_table cond_index_bool (table (p_bools p)) (p\<lparr>p_bool_val_to_name := ns\<rparr>)) (\<lambda>p.
          Inr (p, m)))))"

fun index_decls :: "u32 \<Rightarrow> avrule_decl list \<Rightarrow> avrule_decl option list \<Rightarrow> errcode + avrule_decl option list" where
  "index_decls n [] a = Inr a"
| "index_decls n (d # ds) a =
     (if \<not> value_isvalid (decl_id d) n then Inl EFAIL
      else case arr a (unat (decl_id d - 1)) of
        None \<Rightarrow> Inl UNDEF
      | Some (Some _) \<Rightarrow> Inl EFAIL
      | Some None \<Rightarrow> index_decls n ds (a[unat (decl_id d - 1) := Some d]))"

definition policydb_index_decls :: "mem \<Rightarrow> policydb \<Rightarrow> errcode + policydb \<times> mem" where
  "policydb_index_decls m p =
     (let ds = concat (map branch_list (global_blocks p)); num_decls = of_nat (length ds) in
      rbind (null_array m num_decls) (\<lambda>(a, m).
      rbind (index_decls num_decls ds a) (\<lambda>a. Inr (p\<lparr>decl_val_to_struct := a\<rparr>, m))))"

text \<open>One kind of symbols of \<^verbatim>\<open>policydb_index_others\<close>: the array of names, then the table.\<close>

definition index_names ::
  "mem \<Rightarrow> u32 \<Rightarrow> (string option list \<Rightarrow> policydb \<Rightarrow> policydb) \<Rightarrow> (policydb \<Rightarrow> errcode + policydb)
     \<Rightarrow> policydb \<Rightarrow> errcode + policydb \<times> mem" where
  "index_names m n set_names index p =
     (if n = 0 then Inr (set_names [] p, m)
      else
        rbind (null_array m n) (\<lambda>(ns, m).
        rbind (index (set_names ns p)) (\<lambda>p. Inr (p, m))))"

definition policydb_index_others :: "mem \<Rightarrow> policydb \<Rightarrow> errcode + policydb \<times> mem" where
  "policydb_index_others m p =
     as_fail
       (rbind (null_array m (nprim (p_roles p))) (\<lambda>(rs, m).
        rbind (null_array m (nprim (p_users p))) (\<lambda>(us, m).
        rbind (null_array m (nprim (p_types p))) (\<lambda>(ts, m).
        rbind (cond_init_bool_indexes m
                 (p\<lparr>role_val_to_struct := rs, user_val_to_struct := us, type_val_to_struct := ts\<rparr>)) (\<lambda>(p, m).
        rbind (index_names m (nprim (p_roles p)) (\<lambda>a p. p\<lparr>p_role_val_to_name := a\<rparr>)
                 (map_table role_index (table (p_roles p))) p) (\<lambda>(p, m).
        rbind (index_names m (nprim (p_types p)) (\<lambda>a p. p\<lparr>p_type_val_to_name := a\<rparr>)
                 (map_table type_index (table (p_types p))) p) (\<lambda>(p, m).
        rbind (index_names m (nprim (p_users p)) (\<lambda>a p. p\<lparr>p_user_val_to_name := a\<rparr>)
                 (map_table user_index (table (p_users p))) p) (\<lambda>(p, m).
        rbind (index_names m (nprim (p_bools p)) (\<lambda>a p. p\<lparr>p_bool_val_to_name := a\<rparr>)
                 (map_table cond_index_bool (table (p_bools p))) p) (\<lambda>(p, m).
        rbind (index_names m (nprim (p_levels p)) (\<lambda>a p. p\<lparr>p_sens_val_to_name := a\<rparr>)
                 (map_table sens_index (table (p_levels p))) p) (\<lambda>(p, m).
        rbind (index_names m (nprim (p_cats p)) (\<lambda>a p. p\<lparr>p_cat_val_to_name := a\<rparr>)
                 (map_table cat_index (table (p_cats p))) p) (\<lambda>(p, m).
        rbind (map_table policydb_role_cache (table (p_roles p)) (p, m)) (\<lambda>(p, m).
          map_table policydb_user_cache (table (p_users p)) (p, m)))))))))))))"

definition policydb_reindex_users :: "mem \<Rightarrow> policydb \<Rightarrow> errcode + policydb \<times> mem" where
  "policydb_reindex_users m p =
     as_fail
       (rbind (null_array m (nprim (p_users p))) (\<lambda>(us, m).
        rbind (null_array m (nprim (p_users p))) (\<lambda>(ns, m).
        rbind (map_table user_index (table (p_users p))
                 (p\<lparr>user_val_to_struct := us, p_user_val_to_name := ns\<rparr>)) (\<lambda>p.
          map_table policydb_user_cache (table (p_users p)) (p, m)))))"

section \<open>Initial SIDs\<close>

fun load_isids :: "ocontext list \<Rightarrow> mem \<Rightarrow> sidtab \<Rightarrow> errcode + sidtab \<times> mem" where
  "load_isids [] m s = Inr (s, m)"
| "load_isids (c # cs) m s =
     rbind (sepol_sidtab_insert m s (sid0 c) (context0 c)) (\<lambda>(s, m). load_isids cs m s)"

definition policydb_load_isids :: "mem \<Rightarrow> policydb \<Rightarrow> errcode + sidtab \<times> mem" where
  "policydb_load_isids m p =
     as_fail (rbind (sepol_sidtab_init m) (\<lambda>(s, m). load_isids (ocon_isid p) m s))"

end
