(* ===== verification/Policydb_Read.thy ===== *)
theory Policydb_Read
  imports Policydb_Index
begin

text \<open>
  \<^verbatim>\<open>policydb_read\<close> of \<^verbatim>\<open>src/policydb.c\<close>: a policy is read from a file into an initialised
  database. The order is the order of the code: the header and the table of supported versions,
  the symbol tables, the rules (of a kernel policy, or the blocks and scopes of a module), the
  indexes, the objects that are labelled, the maps between types and attributes, and the
  validation of the result. A failure is -1 and gives the database up.
\<close>

abbreviation (input) "POLICYDB_VERSION_POLCAP \<equiv> 22"
abbreviation (input) "MOD_POLICYDB_VERSION_POLCAP \<equiv> 7"
abbreviation (input) "POLICYDB_MAGIC \<equiv> 0xf97cff8c"
abbreviation (input) "POLICYDB_MOD_MAGIC \<equiv> 0xf97cff8d"
abbreviation (input) "POLICYDB_STRING_MAX_LENGTH \<equiv> 32"
abbreviation (input) "POLICYDB_STRING \<equiv> ''SE Linux''"
abbreviation (input) "POLICYDB_XEN_STRING \<equiv> ''XenFlask''"
abbreviation (input) "POLICYDB_MOD_STRING \<equiv> ''SE Linux Module''"
abbreviation (input) "POLICYDB_CONFIG_MLS \<equiv> 1"
abbreviation (input) "POLICYDB_CONFIG_UNKNOWN_MASK \<equiv> 6"

section \<open>Supported versions\<close>

text \<open>Type, version, number of symbol tables, number of kinds of object contexts, target.\<close>

type_synonym policydb_compat_info = "u32 \<times> u32 \<times> u32 \<times> u32 \<times> int"

definition policydb_compat :: "policydb_compat_info list" where
  "policydb_compat =
    [(POLICY_KERN, 24, 8, 5, SEPOL_TARGET_XEN), (POLICY_KERN, 30, 8, 6, SEPOL_TARGET_XEN),
     (POLICY_KERN, 15, 5, 6, SEPOL_TARGET_SELINUX), (POLICY_KERN, 16, 6, 6, SEPOL_TARGET_SELINUX),
     (POLICY_KERN, 17, 6, 7, SEPOL_TARGET_SELINUX), (POLICY_KERN, 18, 6, 7, SEPOL_TARGET_SELINUX),
     (POLICY_KERN, 19, 8, 7, SEPOL_TARGET_SELINUX), (POLICY_KERN, 20, 8, 7, SEPOL_TARGET_SELINUX),
     (POLICY_KERN, 21, 8, 7, SEPOL_TARGET_SELINUX), (POLICY_KERN, 22, 8, 7, SEPOL_TARGET_SELINUX),
     (POLICY_KERN, 23, 8, 7, SEPOL_TARGET_SELINUX), (POLICY_KERN, 24, 8, 7, SEPOL_TARGET_SELINUX),
     (POLICY_KERN, 25, 8, 7, SEPOL_TARGET_SELINUX), (POLICY_KERN, 26, 8, 7, SEPOL_TARGET_SELINUX),
     (POLICY_KERN, 27, 8, 7, SEPOL_TARGET_SELINUX), (POLICY_KERN, 28, 8, 7, SEPOL_TARGET_SELINUX),
     (POLICY_KERN, 29, 8, 7, SEPOL_TARGET_SELINUX), (POLICY_KERN, 30, 8, 7, SEPOL_TARGET_SELINUX),
     (POLICY_KERN, 31, 8, 9, SEPOL_TARGET_SELINUX), (POLICY_KERN, 32, 8, 9, SEPOL_TARGET_SELINUX),
     (POLICY_KERN, 33, 8, 9, SEPOL_TARGET_SELINUX), (POLICY_KERN, 34, 8, 9, SEPOL_TARGET_SELINUX),
     (POLICY_BASE, 4, 8, 7, SEPOL_TARGET_SELINUX), (POLICY_BASE, 5, 8, 7, SEPOL_TARGET_SELINUX),
     (POLICY_BASE, 6, 8, 7, SEPOL_TARGET_SELINUX), (POLICY_BASE, 7, 8, 7, SEPOL_TARGET_SELINUX),
     (POLICY_BASE, 8, 8, 7, SEPOL_TARGET_SELINUX), (POLICY_BASE, 9, 8, 7, SEPOL_TARGET_SELINUX),
     (POLICY_BASE, 10, 8, 7, SEPOL_TARGET_SELINUX), (POLICY_BASE, 11, 8, 7, SEPOL_TARGET_SELINUX),
     (POLICY_BASE, 12, 8, 7, SEPOL_TARGET_SELINUX), (POLICY_BASE, 13, 8, 7, SEPOL_TARGET_SELINUX),
     (POLICY_BASE, 14, 8, 7, SEPOL_TARGET_SELINUX), (POLICY_BASE, 15, 8, 7, SEPOL_TARGET_SELINUX),
     (POLICY_BASE, 16, 8, 7, SEPOL_TARGET_SELINUX), (POLICY_BASE, 17, 8, 7, SEPOL_TARGET_SELINUX),
     (POLICY_BASE, 18, 8, 7, SEPOL_TARGET_SELINUX), (POLICY_BASE, 19, 8, 9, SEPOL_TARGET_SELINUX),
     (POLICY_BASE, 20, 8, 9, SEPOL_TARGET_SELINUX), (POLICY_BASE, 21, 8, 9, SEPOL_TARGET_SELINUX),
     (POLICY_BASE, 22, 8, 9, SEPOL_TARGET_SELINUX), (POLICY_MOD, 4, 8, 0, SEPOL_TARGET_SELINUX),
     (POLICY_MOD, 5, 8, 0, SEPOL_TARGET_SELINUX), (POLICY_MOD, 6, 8, 0, SEPOL_TARGET_SELINUX),
     (POLICY_MOD, 7, 8, 0, SEPOL_TARGET_SELINUX), (POLICY_MOD, 8, 8, 0, SEPOL_TARGET_SELINUX),
     (POLICY_MOD, 9, 8, 0, SEPOL_TARGET_SELINUX), (POLICY_MOD, 10, 8, 0, SEPOL_TARGET_SELINUX),
     (POLICY_MOD, 11, 8, 0, SEPOL_TARGET_SELINUX), (POLICY_MOD, 12, 8, 0, SEPOL_TARGET_SELINUX),
     (POLICY_MOD, 13, 8, 0, SEPOL_TARGET_SELINUX), (POLICY_MOD, 14, 8, 0, SEPOL_TARGET_SELINUX),
     (POLICY_MOD, 15, 8, 0, SEPOL_TARGET_SELINUX), (POLICY_MOD, 16, 8, 0, SEPOL_TARGET_SELINUX),
     (POLICY_MOD, 17, 8, 0, SEPOL_TARGET_SELINUX), (POLICY_MOD, 18, 8, 0, SEPOL_TARGET_SELINUX),
     (POLICY_MOD, 19, 8, 0, SEPOL_TARGET_SELINUX), (POLICY_MOD, 20, 8, 0, SEPOL_TARGET_SELINUX),
     (POLICY_MOD, 21, 8, 0, SEPOL_TARGET_SELINUX), (POLICY_MOD, 22, 8, 0, SEPOL_TARGET_SELINUX)]"

definition policydb_lookup_compat :: "u32 \<Rightarrow> u32 \<Rightarrow> int \<Rightarrow> policydb_compat_info option" where
  "policydb_lookup_compat version ptyp target =
     find (\<lambda>(t, v, _, _, tg). v = version \<and> t = ptyp \<and> tg = target) policydb_compat"

definition policydb_set_target_platform :: "policydb \<Rightarrow> int \<Rightarrow> errcode + policydb" where
  "policydb_set_target_platform p platform =
     (if platform = SEPOL_TARGET_SELINUX then Inr (p\<lparr>target_platform := SEPOL_TARGET_SELINUX\<rparr>)
      else if platform = SEPOL_TARGET_XEN then Inr (p\<lparr>target_platform := SEPOL_TARGET_XEN\<rparr>)
      else Inl EFAIL)"

section \<open>Header\<close>

text \<open>The magic number and the string, which tell the target of a kernel policy.\<close>

definition read_magic :: "mem \<Rightarrow> policydb \<Rightarrow> policy_file \<Rightarrow> errcode + (policydb \<times> bool) \<times> policy_file \<times> mem" where
  "read_magic m p fp =
     rbind (next_u32s fp 2) (\<lambda>(buf, fp).
     if buf ! 0 \<noteq> POLICYDB_MAGIC \<and> buf ! 0 \<noteq> POLICYDB_MOD_MAGIC then Inl EFAIL
     else if buf ! 1 = 0 \<or> buf ! 1 > POLICYDB_STRING_MAX_LENGTH then Inl EFAIL
     else
       case malloc m of
         None \<Rightarrow> Inl EFAIL
       | Some m \<Rightarrow>
           rbind (next_entry fp (unat (buf ! 1))) (\<lambda>(bs, fp).
           let s = c_string (bs @ [0]) in
           if buf ! 0 = POLICYDB_MAGIC then
             (if s = POLICYDB_STRING then
                rbind (policydb_set_target_platform p SEPOL_TARGET_SELINUX) (\<lambda>p. Inr ((p, True), fp, m))
              else if s = POLICYDB_XEN_STRING then
                rbind (policydb_set_target_platform p SEPOL_TARGET_XEN) (\<lambda>p. Inr ((p, True), fp, m))
              else Inl EFAIL)
           else if s \<noteq> POLICYDB_MOD_STRING then Inl EFAIL
           else Inr ((p, False), fp, m)))"

text \<open>
  The type of a module, the version and the configuration, with the version's entry of the
  table: the numbers of symbol tables and of kinds of object contexts.
\<close>

definition read_config ::
  "policydb \<Rightarrow> bool \<Rightarrow> policy_file \<Rightarrow> errcode + (policydb \<times> nat \<times> nat) \<times> policy_file" where
  "read_config p kern fp =
     rbind (next_u32s fp (if kern then 4 else 5)) (\<lambda>(buf, fp).
     let ptyp = (if kern then POLICY_KERN else buf ! 0);
         buf = (if kern then buf else tl buf);
         vers = buf ! 0
     in
       if \<not> kern \<and> ptyp \<noteq> POLICY_MOD \<and> ptyp \<noteq> POLICY_BASE then Inl EFAIL
       else if kern \<and> (vers < POLICYDB_VERSION_MIN \<or> vers > POLICYDB_VERSION_MAX) then Inl EFAIL
       else if \<not> kern \<and> (vers < MOD_POLICYDB_VERSION_MIN \<or> vers > MOD_POLICYDB_VERSION_MAX) then Inl EFAIL
       else
         (let p = p\<lparr>policy_type := ptyp, policyvers := vers, mls := (buf ! 1 AND POLICYDB_CONFIG_MLS \<noteq> 0),
                    handle_unknown := buf ! 1 AND POLICYDB_CONFIG_UNKNOWN_MASK\<rparr>
          in case policydb_lookup_compat vers ptyp (target_platform p) of
               None \<Rightarrow> Inl EFAIL
             | Some (_, _, sym_num, ocon_num, _) \<Rightarrow>
                 if buf ! 2 \<noteq> sym_num \<or> buf ! 3 \<noteq> ocon_num then Inl EFAIL
                 else Inr ((p, unat sym_num, unat ocon_num), fp)))"

definition read_module_name :: "mem \<Rightarrow> policydb \<Rightarrow> policy_file \<Rightarrow> errcode + policydb \<times> policy_file \<times> mem" where
  "read_module_name m p fp =
     (if policy_type p = POLICY_MOD then
        rbind (next_u32s fp 1) (\<lambda>(len, fp).
        rbind (read_str m fp (len ! 0)) (\<lambda>(name, fp, m).
        rbind (next_u32s fp 1) (\<lambda>(len, fp).
        rbind (read_str m fp (len ! 0)) (\<lambda>(vers, fp, m).
          Inr (p\<lparr>pol_name := Some name, pol_version := Some vers\<rparr>, fp, m)))))
      else Inr (p, fp, m))"

definition read_caps :: "mem \<Rightarrow> policydb \<Rightarrow> policy_file \<Rightarrow> errcode + policydb \<times> policy_file \<times> mem" where
  "read_caps m p fp =
     rbind (if policyvers p \<ge> POLICYDB_VERSION_POLCAP \<and> policy_type p = POLICY_KERN \<or>
               module_vers p MOD_POLICYDB_VERSION_POLCAP
            then ebitmap_read m fp else Inr (policycaps p, fp, m)) (\<lambda>(caps, fp, m).
     rbind (if policyvers p \<ge> POLICYDB_VERSION_PERMISSIVE \<and> policy_type p = POLICY_KERN
            then ebitmap_read m fp else Inr (permissive_map p, fp, m)) (\<lambda>(perm, fp, m).
       Inr (p\<lparr>policycaps := caps, permissive_map := perm\<rparr>, fp, m)))"

section \<open>Symbols\<close>

text \<open>What the counts of a symbol table have to satisfy.\<close>

definition sym_counts_ok :: "policy_file \<Rightarrow> u32 \<Rightarrow> u32 \<Rightarrow> bool" where
  "sym_counts_ok fp np n \<longleftrightarrow>
     \<not> (is_saturated np \<or> exceeds_available_bytes fp (unat np) (4 * 3)) \<and> \<not> (n \<noteq> 0 \<and> np = 0)"

text \<open>A class looks its common up in the database, so the tables are stored one by one.\<close>

definition read_symbols ::
  "nat \<Rightarrow> mem \<Rightarrow> policydb \<Rightarrow> policy_file \<Rightarrow> errcode + policydb \<times> policy_file \<times> mem" where
  "read_symbols n m p fp =
     rbind (read_symtab_if (0 < n) sym_counts_ok (common_read p) m (p_commons p) fp) (\<lambda>(s, fp, m).
     let p = p\<lparr>p_commons := s\<rparr> in
     rbind (read_symtab_if (1 < n) sym_counts_ok (class_read p) m (p_classes p) fp) (\<lambda>(s, fp, m).
     let p = p\<lparr>p_classes := s\<rparr> in
     rbind (read_symtab_if (2 < n) sym_counts_ok (role_read p) m (p_roles p) fp) (\<lambda>(s, fp, m).
     let p = p\<lparr>p_roles := s\<rparr> in
     rbind (read_symtab_if (3 < n) sym_counts_ok (type_read p) m (p_types p) fp) (\<lambda>(s, fp, m).
     let p = p\<lparr>p_types := s\<rparr> in
     rbind (read_symtab_if (4 < n) sym_counts_ok (user_read p) m (p_users p) fp) (\<lambda>(s, fp, m).
     let p = p\<lparr>p_users := s\<rparr> in
     rbind (read_symtab_if (5 < n) sym_counts_ok (\<lambda>m. cond_read_bool m p) m (p_bools p) fp) (\<lambda>(s, fp, m).
     let p = p\<lparr>p_bools := s\<rparr> in
     rbind (read_symtab_if (6 < n) sym_counts_ok (sens_read p) m (p_levels p) fp) (\<lambda>(s, fp, m).
     let p = p\<lparr>p_levels := s\<rparr> in
     rbind (read_symtab_if (7 < n) sym_counts_ok (cat_read p) m (p_cats p) fp) (\<lambda>(s, fp, m).
       Inr (p\<lparr>p_cats := s\<rparr>, fp, m)))))))))"

definition policydb_string_to_security_class :: "policydb \<Rightarrow> string \<Rightarrow> u16" where
  "policydb_string_to_security_class p class_name =
     (case sym_search (table (p_classes p)) class_name of None \<Rightarrow> 0 | Some c \<Rightarrow> ucast (class_value c))"

definition set_known_classes :: "policydb \<Rightarrow> policydb" where
  "set_known_classes p =
     (if target_platform p = SEPOL_TARGET_SELINUX then
        p\<lparr>process_class := policydb_string_to_security_class p ''process'',
          dir_class := policydb_string_to_security_class p ''dir''\<rparr>
      else if target_platform p = SEPOL_TARGET_XEN then
        p\<lparr>process_class := policydb_string_to_security_class p ''domain''\<rparr>
      else p)"

text \<open>The bit of a permission; a shift by the width or more is undefined.\<close>

definition shifted_perm :: "perm_datum \<Rightarrow> errcode + u32" where
  "shifted_perm d = (if unat (perm_value d - 1) < 32 then Inr (push_bit (unat (perm_value d - 1)) 1) else Inl UNDEF)"

definition policydb_string_to_av_perm :: "policydb \<Rightarrow> u16 \<Rightarrow> string \<Rightarrow> errcode + u32" where
  "policydb_string_to_av_perm p tclass perm_name =
     (if tclass = 0 \<or> ucast tclass > nprim (p_classes p) then Inr 0
      else case ptr_arr (class_val_to_struct p) (unat (tclass - 1)) of
        None \<Rightarrow> Inl UNDEF
      | Some c \<Rightarrow>
          (case sym_search (table (class_permissions c)) perm_name of
             Some d \<Rightarrow> shifted_perm d
           | None \<Rightarrow>
               (case comdatum c of
                  None \<Rightarrow> Inr 0
                | Some com \<Rightarrow>
                    (case sym_search (table (common_permissions com)) perm_name of
                       Some d \<Rightarrow> shifted_perm d
                     | None \<Rightarrow> Inr 0))))"

definition set_process_trans :: "policydb \<Rightarrow> errcode + policydb" where
  "set_process_trans p =
     (if target_platform p = SEPOL_TARGET_SELINUX \<or> target_platform p = SEPOL_TARGET_XEN then
        rbind (policydb_string_to_av_perm p (process_class p) ''transition'') (\<lambda>tr.
        rbind (policydb_string_to_av_perm p (process_class p) ''dyntransition'') (\<lambda>dyn.
          Inr (p\<lparr>process_trans := tr, process_trans_dyntrans := tr OR dyn\<rparr>)))
      else Inr p)"

section \<open>Rules\<close>

definition read_kernel_rules :: "mem \<Rightarrow> policydb \<Rightarrow> policy_file \<Rightarrow> errcode + policydb \<times> policy_file \<times> mem" where
  "read_kernel_rules m p fp =
     rbind (avtab_read m (te_avtab p) fp (policyvers p)) (\<lambda>(av, fp, m).
     let p = p\<lparr>te_avtab := av\<rparr> in
     rbind (if policyvers p \<ge> POLICYDB_VERSION_BOOL
            then rbind (cond_read_list m p fp) (\<lambda>(cl, p, fp, m). Inr (p\<lparr>cond_list := cl\<rparr>, fp, m))
            else Inr (p, fp, m)) (\<lambda>(p, fp, m).
     rbind (role_trans_read m p fp) (\<lambda>(p, fp, m).
     rbind (role_allow_read m p fp) (\<lambda>(p, fp, m).
       if policyvers p \<ge> POLICYDB_VERSION_FILENAME_TRANS then filename_trans_read m p fp
       else Inr (p, fp, m)))))"

fun read_scopes :: "nat list \<Rightarrow> mem \<Rightarrow> policydb \<Rightarrow> policy_file \<Rightarrow> errcode + policydb \<times> policy_file \<times> mem" where
  "read_scopes [] m p fp = Inr (p, fp, m)"
| "read_scopes (i # is) m p fp =
     rbind (next_u32s fp 1) (\<lambda>(nel, fp).
     rbind (read_loop (scope_read i) (unat (nel ! 0)) m p fp) (\<lambda>(p, fp, m). read_scopes is m p fp))"

definition read_module_rules ::
  "nat \<Rightarrow> mem \<Rightarrow> policydb \<Rightarrow> policy_file \<Rightarrow> errcode + policydb \<times> policy_file \<times> mem" where
  "read_module_rules sym_num m p fp =
     rbind (avrule_block_read sym_num m (p\<lparr>global_blocks := []\<rparr>) fp) (\<lambda>((bs, p), fp, m).
       if bs = [] then Inl EFAIL
       else read_scopes [0..<sym_num] m (p\<lparr>global_blocks := bs\<rparr>) fp)"

section \<open>Types and attributes\<close>

fun spread_attrs ::
  "nat \<Rightarrow> u32 \<Rightarrow> u32 list \<Rightarrow> mem \<Rightarrow> ebitmap list \<Rightarrow> errcode + ebitmap list \<times> mem" where
  "spread_attrs n i [] m atm = Inr (atm, m)"
| "spread_attrs n i (j # js) m atm =
     (if i = j then spread_attrs n i js m atm
      else if unat j \<ge> n then Inl EFAIL
      else
        rbind (ebitmap_set_bit m (atm ! unat j) i True) (\<lambda>(e, m).
          spread_attrs n i js m (atm[unat j := e])))"

text \<open>Round \<open>i\<close> of the loop that fills \<^verbatim>\<open>type_attr_map\<close> and \<^verbatim>\<open>attr_type_map\<close>.\<close>

definition type_map_read ::
  "policydb \<Rightarrow> nat \<Rightarrow> mem \<Rightarrow> ebitmap list \<times> ebitmap list \<Rightarrow> policy_file
     \<Rightarrow> errcode + (ebitmap list \<times> ebitmap list) \<times> policy_file \<times> mem" where
  "type_map_read p i m maps fp =
     (case maps of (tam, atm) \<Rightarrow>
        rbind (if policyvers p \<ge> POLICYDB_VERSION_AVTAB then
                 rbind (ebitmap_read m fp) (\<lambda>(e, fp, m).
                 rbind (spread_attrs (unat (nprim (p_types p))) (of_nat i) (ebitmap_positive_bits e) m atm) (\<lambda>(atm, m).
                   Inr ((tam[i := e], atm), fp, m)))
               else Inr ((tam, atm), fp, m)) (\<lambda>((tam, atm), fp, m).
        case arr (type_val_to_struct p) i of
          None \<Rightarrow> Inl UNDEF
        | Some None \<Rightarrow> Inr ((tam, atm), fp, m)
        | Some (Some t) \<Rightarrow>
            rbind (ebitmap_set_bit m (tam ! i) (of_nat i) True) (\<lambda>(e, m).
            if type_flavor t \<noteq> TYPE_ATTRIB then
              rbind (ebitmap_set_bit m (atm ! i) (of_nat i) True) (\<lambda>(e', m).
                Inr ((tam[i := e], atm[i := e']), fp, m))
            else Inr ((tam[i := e], atm), fp, m))))"

fun read_type_map_loop ::
  "policydb \<Rightarrow> nat list \<Rightarrow> mem \<Rightarrow> ebitmap list \<times> ebitmap list \<Rightarrow> policy_file
     \<Rightarrow> errcode + (ebitmap list \<times> ebitmap list) \<times> policy_file \<times> mem" where
  "read_type_map_loop p [] m maps fp = Inr (maps, fp, m)"
| "read_type_map_loop p (i # is) m maps fp =
     rbind (type_map_read p i m maps fp) (\<lambda>(maps, fp, m). read_type_map_loop p is m maps fp)"

definition read_type_maps :: "mem \<Rightarrow> policydb \<Rightarrow> policy_file \<Rightarrow> errcode + policydb \<times> policy_file \<times> mem" where
  "read_type_maps m p fp =
     (let n = unat (nprim (p_types p)) in
      case malloc m of
        None \<Rightarrow> Inl EFAIL
      | Some m \<Rightarrow>
          (case malloc m of
             None \<Rightarrow> Inl EFAIL
           | Some m \<Rightarrow>
               rbind (read_type_map_loop p [0..<n] m (replicate n ebitmap_init, replicate n ebitmap_init) fp)
                 (\<lambda>((tam, atm), fp, m). Inr (p\<lparr>type_attr_map := tam, attr_type_map := atm\<rparr>, fp, m))))"

section \<open>The whole policy\<close>

text \<open>From the indexes on.\<close>

definition finish_read ::
  "nat \<Rightarrow> mem \<Rightarrow> policydb \<Rightarrow> policy_file \<Rightarrow> errcode + policydb \<times> policy_file \<times> mem" where
  "finish_read ocon_num m p fp =
     rbind (policydb_index_decls m p) (\<lambda>(p, m).
     rbind (policydb_index_classes m p) (\<lambda>(p, m).
     rbind (set_process_trans p) (\<lambda>p.
     rbind (policydb_index_others m p) (\<lambda>(p, m).
     rbind (ocontext_read ocon_num m p fp) (\<lambda>(p, fp, m).
     rbind (genfs_read m p fp) (\<lambda>(p, fp, m).
     rbind (if policy_type p = POLICY_KERN \<and> policyvers p \<ge> POLICYDB_VERSION_MLS \<or>
               policy_type p = POLICY_BASE \<and> policyvers p \<ge> MOD_POLICYDB_VERSION_MLS \<and>
                 policyvers p < MOD_POLICYDB_VERSION_RANGETRANS
            then range_read m p fp else Inr (p, fp, m)) (\<lambda>(p, fp, m).
     rbind (if policy_type p = POLICY_KERN then read_type_maps m p fp else Inr (p, fp, m)) (\<lambda>(p, fp, m).
     rbind (policydb_validate m p) (\<lambda>_. Inr (p, fp, m))))))))))"

definition policydb_read :: "mem \<Rightarrow> policydb \<Rightarrow> policy_file \<Rightarrow> errcode + policydb \<times> policy_file \<times> mem" where
  "policydb_read m p fp =
     as_fail
       (rbind (read_magic m p fp) (\<lambda>((p, kern), fp, m).
        rbind (read_config p kern fp) (\<lambda>((p, sym_num, ocon_num), fp).
        rbind (read_module_name m p fp) (\<lambda>(p, fp, m).
        rbind (read_caps m p fp) (\<lambda>(p, fp, m).
        rbind (read_symbols sym_num m p fp) (\<lambda>(p, fp, m).
        let p = set_known_classes p in
        rbind (if kern then read_kernel_rules m p fp else read_module_rules sym_num m p fp) (\<lambda>(p, fp, m).
          finish_read ocon_num m p fp)))))))"

end
