(* ===== verification/Load_Policy.thy ===== *)
theory Load_Policy
  imports Reload Policydb_Read
begin

text \<open>
  \<^verbatim>\<open>sepol_load_policy\<close> of \<^verbatim>\<open>src/services.c\<close>: the bytes of the image are read into a new database by
  \<^verbatim>\<open>policydb_init\<close> and \<^verbatim>\<open>policydb_read\<close>, and the database is installed.
\<close>

text \<open>
  The new database, with the two failures of the code: -ENOMEM when the initialisation and
  -EINVAL when the reader fails. An initialisation that reports success without a database
  (\<^verbatim>\<open>policydb_init\<close> when the scope tables cannot be allocated) leaves one that was destroyed.
\<close>

definition read_image :: "mem \<Rightarrow> u8 list \<Rightarrow> errcode + policydb \<times> mem" where
  "read_image m bytes =
     (case policydb_init m of
        (Some _, _) \<Rightarrow> Inl ENOMEM
      | (None, None) \<Rightarrow> Inl UNDEF
      | (None, Some (p, m1)) \<Rightarrow>
          (case policydb_read m1 p (mem_file bytes) of
             Inl UNDEF \<Rightarrow> Inl UNDEF
           | Inl _ \<Rightarrow> Inl EINVAL
           | Inr (newp, _, m2) \<Rightarrow> Inr (newp, m2)))"

text \<open>
  The server afterwards is \<open>None\<close> when its policy has been freed: after a failed read the code runs
  \<^verbatim>\<open>policydb_destroy(&mypolicydb)\<close>, and \<open>policydb\<close> still points there. What a later call does with
  freed memory is undefined, so there is no state to go on from.
\<close>

definition sepol_load_policy ::
  "mem \<Rightarrow> u8 list \<Rightarrow> server \<Rightarrow> errcode option \<times> server option" where
  "sepol_load_policy m bytes sv =
     (case read_image m bytes of
        Inl ENOMEM \<Rightarrow> (Some ENOMEM, Some sv)
      | Inl err \<Rightarrow> (Some err, None)
      | Inr (newp, m1) \<Rightarrow> (case install_policy m1 newp sv of (rc, sv') \<Rightarrow> (rc, Some sv')))"

end
