(* ===== verification/Policydb_Read_Props.thy ===== *)
theory Policydb_Read_Props
  imports Policydb_Read Validate_Props
begin

text \<open>
  Properties of the policy reader: a database that \<^verbatim>\<open>policydb_read\<close> accepts, whatever the bytes, is
  \<open>checked\<close> (\<open>policydb_read_ok\<close>). Its symbol tables are well formed and its indexes agree with them,
  which the readers establish and the later ones keep, and the validator has accepted it.
  \<open>policydb_init_tables\<close> says that \<^verbatim>\<open>policydb_init\<close> makes a database to start from.
\<close>

section \<open>Symbol tables\<close>

definition wf_tab :: "(string, 'd) hashtab \<Rightarrow> bool" where
  "wf_tab h \<longleftrightarrow> (\<exists>h0. h = Some h0 \<and> sym.wf h0)"

lemma wf_symtab_tab: "wf_symtab s \<longleftrightarrow> wf_tab (table s)"
  by (simp add: wf_symtab_def wf_tab_def)

lemma insert_wf:
  assumes i: "hashtab_insert symhash symcmp m h k d = (st, h', m')" and "wf_tab h"
  shows "wf_tab h'"
proof -
  obtain h0 where h0: "h = Some h0" "sym.wf h0" using assms(2) by (auto simp: wf_tab_def)
  obtain h1 where h1: "h' = Some h1"
    using i by (auto simp: hashtab_insert_def h0 Let_def split: prod.splits sum.splits if_splits)
  from sym.insert_cases(1)[OF h0(2) i[unfolded h0 h1]] show ?thesis by (simp add: h1 wf_tab_def)
qed

lemma sym_put_wf: "sym_put h k d fp m = Inr (h', fp', m') \<Longrightarrow> wf_tab h \<Longrightarrow> wf_tab h'"
  by (auto simp: sym_put_def split: prod.splits option.splits dest: insert_wf)

lemma read_put_wf: "read_put rd m h fp = Inr (h', fp', m') \<Longrightarrow> wf_tab h \<Longrightarrow> wf_tab h'"
  by (auto simp: read_put_def rbind_eq_Inr dest: sym_put_wf)

lemma read_loop_inv:
  assumes "\<And>m s fp s' fp' m'. rd m s fp = Inr (s', fp', m') \<Longrightarrow> P s \<Longrightarrow> P s'"
  shows "read_loop rd n m s fp = Inr (s', fp', m') \<Longrightarrow> P s \<Longrightarrow> P s'"
proof (induction n arbitrary: m s fp)
  case (Suc n)
  then obtain s1 fp1 m1 where "rd m s fp = Inr (s1, fp1, m1)" "read_loop rd n m1 s1 fp1 = Inr (s', fp', m')"
    by (auto simp: rbind_eq_Inr)
  with Suc.IH assms Suc.prems(2) show ?case by blast
qed simp

lemma role_read_wf: "role_read p m h fp = Inr (h', fp', m') \<Longrightarrow> wf_tab h \<Longrightarrow> wf_tab h'"
  by (auto simp: role_read_def rbind_eq_Inr split: if_splits dest: sym_put_wf)

lemma put_case_wf:
  "(case hashtab_insert symhash symcmp m h k d of (Some _, _, _) \<Rightarrow> Inl EFAIL | (None, h', m) \<Rightarrow> Inr (h', fp :: policy_file, m)) = Inr (h1, fp', m') \<Longrightarrow>
     wf_tab h \<Longrightarrow> wf_tab h1"
  using sym_put_wf[of h k d fp m h1 fp' m'] by (simp add: sym_put_def)

lemma cond_read_bool_wf: "cond_read_bool m p h fp = Inr (h', fp', m') \<Longrightarrow> wf_tab h \<Longrightarrow> wf_tab h'"
  by (auto simp: cond_read_bool_def rbind_eq_Inr Let_def split: option.split_asm if_split_asm dest: put_case_wf)

lemma read_symtab_wf:
  assumes "\<And>m h fp h' fp' m'. rd m h fp = Inr (h', fp', m') \<Longrightarrow> wf_tab h \<Longrightarrow> wf_tab h'"
    and "read_symtab_if b chk rd m s fp = Inr (s', fp', m')" and "wf_symtab s"
  shows "wf_symtab s'"
proof (cases b)
  case True
  then obtain fp1 h n where "read_loop rd n m (table s) fp1 = Inr (h, fp', m')" "table s' = h"
    using assms(2) by (auto simp: read_symtab_if_def read_symtab_def rbind_eq_Inr split: if_split_asm)
  then show ?thesis using read_loop_inv[of rd wf_tab, OF assms(1)] assms(3) by (auto simp: wf_symtab_tab)
next
  case False
  with assms(2,3) show ?thesis by (simp add: read_symtab_if_def)
qed

text \<open>What holds of every result that is not an error.\<close>

definition on_ok :: "errcode + 'a \<Rightarrow> ('a \<Rightarrow> bool) \<Rightarrow> bool" where
  "on_ok r Q \<longleftrightarrow> (\<forall>x. r = Inr x \<longrightarrow> Q x)"

lemma on_ok_simps [simp]:
  "on_ok (Inl err) Q" "on_ok (Inr x) Q \<longleftrightarrow> Q x" "on_ok (as_fail r) Q \<longleftrightarrow> on_ok r Q"
  by (auto simp: on_ok_def)

lemma on_ok_rbind: "on_ok (rbind r f) Q \<longleftrightarrow> on_ok r (\<lambda>x. on_ok (f x) Q)"
  by (auto simp: on_ok_def rbind_eq_Inr)

lemma on_ok_any: "(\<And>x. on_ok (f x) Q) \<Longrightarrow> on_ok (rbind r f) Q"
  by (auto simp: on_ok_def rbind_eq_Inr)

lemma on_ok_step: "on_ok r I \<Longrightarrow> (\<And>x. I x \<Longrightarrow> on_ok (f x) Q) \<Longrightarrow> on_ok (rbind r f) Q"
  by (auto simp: on_ok_def rbind_eq_Inr)

lemma on_ok_seq: "on_ok r (\<lambda>(q, _). I q) \<Longrightarrow> (\<And>q y. I q \<Longrightarrow> on_ok (f (q, y)) Q) \<Longrightarrow> on_ok (rbind r f) Q"
  by (rule on_ok_step[where I = "\<lambda>(q, _). I q"]) auto

lemma on_okD: "on_ok r Q \<Longrightarrow> r = Inr x \<Longrightarrow> Q x"
  by (simp add: on_ok_def)

lemma on_ok_mono: "on_ok r Q \<Longrightarrow> (\<And>x. Q x \<Longrightarrow> Q' x) \<Longrightarrow> on_ok r Q'"
  by (simp add: on_ok_def)

section \<open>The parts of a database that the later readers keep\<close>

definition frame where
  "frame (p :: policydb) = ((p_commons p, p_classes p, p_roles p, p_types p, p_users p, p_bools p, p_levels p, p_cats p),
     (class_val_to_struct p, role_val_to_struct p, type_val_to_struct p, bool_val_to_struct p))"

lemma insertf_frame: "cond_insertf other k d (p, l, m) = Inr (p', l', m') \<Longrightarrow> frame p' = frame p"
  by (auto simp: cond_insertf_def Let_def frame_def split: option.split_asm if_split_asm list.split_asm)

lemma read_av_items_frame: "read_av_items n fp other st = Inr (fp', st') \<Longrightarrow> frame (fst st') = frame (fst st)"
proof (induction n arbitrary: fp st)
  case (Suc n)
  then obtain fp1 st1 where r: "avtab_read_item fp (policyvers (fst st)) (cond_insertf other) st = Inr (fp1, st1)"
    and n: "read_av_items n fp1 other st1 = Inr (fp', st')" by (auto simp: rbind_eq_Inr)
  have "frame (fst st1) = frame (fst st)"
    by (rule avtab_read_item_inv[OF _ r, where I = "\<lambda>s. frame (fst s) = frame (fst st)"])
       (auto dest: insertf_frame)
  with Suc.IH[OF n] show ?case by simp
qed simp

lemma av_list_frame: "cond_read_av_list m p fp other = Inr (fp', p', l, m') \<Longrightarrow> frame p' = frame p"
  by (auto simp: cond_read_av_list_def rbind_eq_Inr split: if_split_asm dest: read_av_items_frame)

lemma cond_read_node_frame: "cond_read_node m p fp = Inr (nd, p', fp', m') \<Longrightarrow> frame p' = frame p"
  by (auto simp: cond_read_node_def rbind_eq_Inr split: if_split_asm dest!: av_list_frame)

lemma read_nodes_list_frame: "read_nodes_list n m p fp = Inr (ns, p', fp', m') \<Longrightarrow> frame p' = frame p"
proof (induction n arbitrary: m p fp ns)
  case (Suc n)
  then show ?case by (fastforce simp: rbind_eq_Inr split: option.split_asm dest: cond_read_node_frame)
qed simp

lemma cond_read_list_frame: "cond_read_list m p fp = Inr (ns, p', fp', m') \<Longrightarrow> frame p' = frame p"
  by (auto simp: cond_read_list_def rbind_eq_Inr dest!: read_nodes_list_frame) (simp add: frame_def)

lemma role_trans_read_frame: "role_trans_read m p fp = Inr (p', fp', m') \<Longrightarrow> frame p' = frame p"
  by (auto simp: role_trans_read_def rbind_eq_Inr frame_def)

lemma role_allow_read_frame: "role_allow_read m p fp = Inr (p', fp', m') \<Longrightarrow> frame p' = frame p"
  by (auto simp: role_allow_read_def rbind_eq_Inr frame_def)

lemma ft_add_frame: "ft_add m p k ds i b = (r, p', m') \<Longrightarrow> frame p' = frame p"
  by (auto simp: ft_add_def Let_def frame_def split: sum.split_asm)

lemma filetrans_insert_frame:
  "policydb_filetrans_insert m p s t c nam al ot = (r, p', m') \<Longrightarrow> frame p' = frame p"
  by (auto simp: policydb_filetrans_insert_def Let_def split: sum.split_asm option.split_asm if_split_asm prod.split_asm
      dest!: ft_add_frame) (auto simp: frame_def)

lemma filename_trans_compat_frame: "filename_trans_read_one_compat m p fp = Inr (p', fp', m') \<Longrightarrow> frame p' = frame p"
  by (auto simp: filename_trans_read_one_compat_def rbind_eq_Inr split: if_split_asm prod.split_asm
      dest: filetrans_insert_frame)

lemma filename_trans_one_frame: "filename_trans_read_one m p fp = Inr (p', fp', m') \<Longrightarrow> frame p' = frame p"
proof -
  have "on_ok (filename_trans_read_one m p fp) (\<lambda>(q, _). frame q = frame p)"
    by (auto simp: filename_trans_read_one_def Let_def frame_def
        intro!: on_ok_any split: option.split prod.split)
  then show "filename_trans_read_one m p fp = Inr (p', fp', m') \<Longrightarrow> frame p' = frame p"
    by (auto dest: on_okD)
qed

text \<open>A loop over a state whose frame every round keeps.\<close>

lemma loop_frame_of:
  assumes "\<And>m s fp s' fp' m'. rd m s fp = Inr (s', fp', m') \<Longrightarrow> frame (g s') = frame (g s)"
    and "read_loop rd n m s fp = Inr (s', fp', m')"
  shows "frame (g s') = frame (g s)"
  by (rule read_loop_inv[where P = "\<lambda>q. frame (g q) = frame (g s)", OF _ assms(2)]) (use assms(1) in \<open>auto\<close>)

lemmas loop_frame = loop_frame_of[where g = "\<lambda>p. p"]

lemma filename_trans_loops:
  "read_loop filename_trans_read_one_compat n m p fp = Inr (p', fp', m') \<Longrightarrow> frame p' = frame p"
  "read_loop filename_trans_read_one n m p fp = Inr (p', fp', m') \<Longrightarrow> frame p' = frame p"
  by (rule loop_frame, erule filename_trans_compat_frame, assumption)
     (rule loop_frame, erule filename_trans_one_frame, assumption)

lemma filename_trans_read_frame: "filename_trans_read m p fp = Inr (p', fp', m') \<Longrightarrow> frame p' = frame p"
  by (cases "policyvers p < POLICYDB_VERSION_COMP_FTRANS")
     (auto simp: filename_trans_read_def rbind_eq_Inr dest!: filename_trans_loops)

lemma read_kernel_rules_frame: "read_kernel_rules m p fp = Inr (p', fp', m') \<Longrightarrow> frame p' = frame p"
  by (auto simp: read_kernel_rules_def rbind_eq_Inr Let_def split: if_split_asm
      dest!: cond_read_list_frame role_trans_read_frame role_allow_read_frame filename_trans_read_frame)
     (simp_all add: frame_def)

lemma avrule_decl_read_frame: "avrule_decl_read n m p d fp = Inr (d', p', fp', m') \<Longrightarrow> frame p' = frame p"
  by (auto simp: avrule_decl_read_def rbind_eq_Inr dest!: cond_read_list_frame)

lemma block_decl_read_frame:
  "block_decl_read n m st fp = Inr (st', fp', m') \<Longrightarrow> frame (snd st') = frame (snd st)"
  by (auto simp: block_decl_read_def rbind_eq_Inr split: option.split_asm prod.split_asm if_split_asm
      dest!: avrule_decl_read_frame)

lemma block_read_frame: "block_read n m st fp = Inr (st', fp', m') \<Longrightarrow> frame (snd st') = frame (snd st)"
proof -
  assume r: "block_read n m st fp = Inr (st', fp', m')"
  obtain bs p where st: "st = (bs, p)" by (cases st)
  from r obtain k m1 b fp1 b' p' where
    l: "read_loop (block_decl_read n) k m1 (b, p) fp1 = Inr ((b', p'), fp', m')" and "snd st' = p'"
    by (auto simp: block_read_def st rbind_eq_Inr split: option.split_asm)
  moreover have "frame (snd (b', p')) = frame (snd (b, p))"
    by (rule loop_frame_of[OF _ l]) (rule block_decl_read_frame)
  ultimately show ?thesis by (simp add: st)
qed

lemma avrule_block_read_frame: "avrule_block_read n m p fp = Inr ((bs, p'), fp', m') \<Longrightarrow> frame p' = frame p"
proof -
  assume "avrule_block_read n m p fp = Inr ((bs, p'), fp', m')"
  then obtain k fp1 where r: "read_loop (block_read n) k m ([], p) fp1 = Inr ((bs, p'), fp', m')"
    by (auto simp: avrule_block_read_def rbind_eq_Inr)
  have "frame (snd (bs, p')) = frame (snd ([] :: avrule_block list, p))"
    by (rule loop_frame_of[OF _ r]) (rule block_read_frame)
  then show ?thesis by simp
qed

lemma scope_read_frame: "scope_read i m p fp = Inr (p', fp', m') \<Longrightarrow> frame p' = frame p"
proof -
  have "on_ok (scope_read i m p fp) (\<lambda>(q, _). frame q = frame p)"
    by (auto simp: scope_read_def frame_def intro!: on_ok_any split: option.split)
  then show "scope_read i m p fp = Inr (p', fp', m') \<Longrightarrow> frame p' = frame p" by (auto dest: on_okD)
qed

lemma read_scopes_frame: "read_scopes is m p fp = Inr (p', fp', m') \<Longrightarrow> frame p' = frame p"
proof (induction "is" arbitrary: m p fp)
  case (Cons i "is")
  then obtain k fp1 p1 fp2 m2 where r: "read_loop (scope_read i) k m p fp1 = Inr (p1, fp2, m2)"
    and rest: "read_scopes is m2 p1 fp2 = Inr (p', fp', m')" by (auto simp: rbind_eq_Inr)
  have "frame p1 = frame p" by (rule loop_frame[OF _ r]) (rule scope_read_frame)
  with Cons.IH[OF rest] show ?case by simp
qed simp

lemma read_module_rules_frame: "read_module_rules n m p fp = Inr (p', fp', m') \<Longrightarrow> frame p' = frame p"
  by (auto simp: read_module_rules_def rbind_eq_Inr split: if_split_asm
      dest!: avrule_block_read_frame read_scopes_frame) (simp_all add: frame_def)

section \<open>The indexes\<close>

lemma map_entries_inv:
  assumes "\<And>k d s s'. (k, d) \<in> set es \<Longrightarrow> f k d s = Inr s' \<Longrightarrow> P s \<Longrightarrow> P s'"
  shows "map_entries f es s = Inr s' \<Longrightarrow> P s \<Longrightarrow> P s'"
  using assms
proof (induction f es s rule: map_entries.induct)
  case (2 f k d r s)
  then obtain x where x: "f k d s = Inr x" "map_entries f r x = Inr s'" by (auto simp: rbind_eq_Inr)
  moreover have "P x" using "2.prems"(2) "2.prems"(3)[of k d s x] x(1) by simp
  ultimately show ?case using "2.IH"[OF x(1)] "2.prems"(3) by (meson list.set_intros(2))
qed simp

lemma map_table_entries: "sym.wf h \<Longrightarrow> map_table f (Some h) s = map_entries f (entries h) s"
  by (simp add: map_table_def sym.wf_def sym.slots_ok_def entries_def)

lemma map_symtab_inv:
  assumes "wf_symtab t" and "\<And>k d s s'. sym_map t k = Some d \<Longrightarrow> f k d s = Inr s' \<Longrightarrow> P s \<Longrightarrow> P s'"
    and "map_table f (table t) s = Inr s'" and "P s"
  shows "P s'"
proof -
  obtain h where h: "table t = Some h" "sym.wf h" using assms(1) by (auto simp: wf_symtab_def)
  then have "map_entries f (entries h) s = Inr s'" using assms(3) by (simp add: map_table_entries)
  then show ?thesis
    by (rule map_entries_inv[rotated]) (use assms(2,4) h in \<open>auto simp: sym_map_def sym.wf_entries\<close>)
qed

text \<open>Writing a datum through its pointer is an update of the map.\<close>

lemma put_datum_ok:
  assumes "sym.wf h"
  obtains h' where "put_datum k d (Some h) = Some h'" "sym.wf h'"
    "sym.lookup h' = (if sym.lookup h k = None then sym.lookup h else (sym.lookup h)(k \<mapsto> d))"
proof
  let ?g = "\<lambda>(k', d'). if k' = k then (k', d) else (k', d')"
  let ?h' = "h\<lparr>htable := map (map ?g) (htable h)\<rparr>"
  show "put_datum k d (Some h) = Some ?h'" by (simp add: put_datum_def)
  have f: "fst (?g x) = fst x" for x by (cases x) auto
  have c: "sym.chain_ok (map ?g c) = sym.chain_ok c" for c
    by (simp add: sym.chain_ok_def sorted_wrt_map f)
  have l: "length (concat (map (map ?g) t)) = length (concat t)" for t by (induction t) auto
  show "sym.wf ?h'"
    using assms by (fastforce simp: sym.wf_def sym.slots_ok_def c entries_def l split: if_split_asm)
  have m: "map_of (map ?g c) k' = (if k' = k then map_option (\<lambda>_. d) (map_of c k) else map_of c k')" for c k'
    by (induction c) auto
  have "unat (symhash (hsize h) k') < length (htable h)" for k'
    using assms sym.hv_index[of "hsize h" k'] by (simp add: sym.wf_def sym.slots_ok_def)
  then have "sym.lookup ?h' k' = (if k' = k then map_option (\<lambda>_. d) (sym.lookup h k) else sym.lookup h k')" for k'
    by (simp add: sym.lookup_def m)
  then show "sym.lookup ?h' = (if sym.lookup h k = None then sym.lookup h else (sym.lookup h)(k \<mapsto> d))"
    by (auto simp: fun_eq_iff)
qed

lemma put_datum_symtab:
  assumes "wf_symtab t"
  shows "wf_symtab (t\<lparr>table := put_datum k d (table t)\<rparr>)"
    and "sym_map t k = Some d0 \<Longrightarrow> sym_map (t\<lparr>table := put_datum k d (table t)\<rparr>) = (sym_map t)(k \<mapsto> d)"
proof -
  obtain h where h: "table t = Some h" "sym.wf h" using assms by (auto simp: wf_symtab_def)
  obtain h' where h': "put_datum k d (Some h) = Some h'" "sym.wf h'"
    "sym.lookup h' = (if sym.lookup h k = None then sym.lookup h else (sym.lookup h)(k \<mapsto> d))"
    using put_datum_ok[OF h(2)] by blast
  show "wf_symtab (t\<lparr>table := put_datum k d (table t)\<rparr>)" by (simp add: wf_symtab_def h h')
  show "sym_map t k = Some d0 \<Longrightarrow> sym_map (t\<lparr>table := put_datum k d (table t)\<rparr>) = (sym_map t)(k \<mapsto> d)"
    by (simp add: sym_map_def h h')
qed

text \<open>The tables of a database are in use.\<close>

definition tables_ok :: "policydb \<Rightarrow> bool" where
  "tables_ok p \<longleftrightarrow> wf_symtab (p_commons p) \<and> wf_symtab (p_classes p) \<and> wf_symtab (p_roles p) \<and>
     wf_symtab (p_types p) \<and> wf_symtab (p_users p) \<and> wf_symtab (p_bools p) \<and> wf_symtab (p_levels p) \<and>
     wf_symtab (p_cats p)"

text \<open>
  The indexes agree with the tables. For the roles also their places are recorded, since their
  caches are filled in the table and in the index.
\<close>

definition role_slots :: "role_datum option list \<Rightarrow> role_datum symtab \<Rightarrow> bool" where
  "role_slots a t \<longleftrightarrow>
     (\<forall>i d. i < length a \<longrightarrow> a ! i = Some d \<longrightarrow> unat (role_value d - 1) = i \<and> (\<exists>k. sym_map t k = Some d))"

definition index_inv :: "policydb \<Rightarrow> bool" where
  "index_inv p \<longleftrightarrow> tables_ok p \<and> structs_in (class_val_to_struct p) (p_classes p) \<and>
     role_slots (role_val_to_struct p) (p_roles p) \<and> structs_in (type_val_to_struct p) (p_types p) \<and>
     structs_in (bool_val_to_struct p) (p_bools p)"

lemma index_inv_indexed: "index_inv p \<Longrightarrow> indexed p"
  unfolding index_inv_def indexed_def role_slots_def structs_in_def tables_ok_def
  by (auto simp: in_set_conv_nth)

lemma index_inv_frame: "frame p' = frame p \<Longrightarrow> index_inv p' = index_inv p"
  by (simp add: frame_def index_inv_def tables_ok_def)

lemma tables_ok_frame: "frame p' = frame p \<Longrightarrow> tables_ok p' = tables_ok p"
  by (simp add: frame_def tables_ok_def)

lemma structs_in_null [simp]: "structs_in (replicate n None) s \<longleftrightarrow> wf_symtab s"
  by (auto simp: structs_in_def)

lemma structs_in_enter:
  "structs_in a s \<Longrightarrow> sym_map s k = Some d \<Longrightarrow> structs_in (a[i := Some d]) s"
  using set_update_subset_insert[of a i "Some d"] by (fastforce simp: structs_in_def)

lemma role_slots_enter:
  "role_slots a t \<Longrightarrow> sym_map t k = Some d \<Longrightarrow> role_slots (a[unat (role_value d - 1) := Some d]) t"
  unfolding role_slots_def by (metis length_list_update nth_list_update_eq nth_list_update_neq option.inject)

lemma index_free_Inr: "index_free v n a = Inr i \<Longrightarrow> i = unat (v - 1)"
  by (auto simp: index_free_def split: if_split_asm option.split_asm)

lemma index_steps:
  assumes "index_inv p"
  shows "sym_map (p_roles p) k = Some r \<Longrightarrow> role_index k r p = Inr p' \<Longrightarrow> index_inv p'"
    and "sym_map (p_types p) k = Some t \<Longrightarrow> type_index k t p = Inr p' \<Longrightarrow> index_inv p'"
    and "sym_map (p_bools p) k = Some b \<Longrightarrow> cond_index_bool k b p = Inr p' \<Longrightarrow> index_inv p'"
    and "user_index k u p = Inr p' \<Longrightarrow> index_inv p'"
    and "sens_index k l p = Inr p' \<Longrightarrow> index_inv p'"
    and "cat_index k c p = Inr p' \<Longrightarrow> index_inv p'"
  using assms unfolding index_inv_def tables_ok_def
  by (auto simp: role_index_def type_index_def cond_index_bool_def user_index_def sens_index_def cat_index_def
      rbind_eq_Inr Let_def dest!: index_free_Inr intro: structs_in_enter role_slots_enter split: if_split_asm)

lemma null_array_Inr: "null_array m n = Inr (a, m') \<Longrightarrow> a = replicate (unat n) None"
  by (auto simp: null_array_def split: option.split_asm)

definition classes_inv :: "policydb \<Rightarrow> policydb \<Rightarrow> bool" where
  "classes_inv q p \<longleftrightarrow> fst (frame p) = fst (frame q) \<and> structs_in (class_val_to_struct p) (p_classes p)"

lemma index_classes_ok:
  assumes "policydb_index_classes m p = Inr (p', m')" and ok: "tables_ok p"
  shows "tables_ok p' \<and> structs_in (class_val_to_struct p') (p_classes p')"
proof -
  obtain p1 p2 ns ss ns' where
    c: "map_table common_index (table (p_commons p)) (p\<lparr>p_common_val_to_name := ns\<rparr>) = Inr p1"
    and cl: "map_table class_index (table (p_classes p1))
       (p1\<lparr>class_val_to_struct := replicate (unat (nprim (p_classes p1))) None, p_class_val_to_name := ns'\<rparr>) = Inr p'"
    using assms by (auto simp: policydb_index_classes_def rbind_eq_Inr dest!: null_array_Inr)
  let ?P = "\<lambda>q. fst (frame q) = fst (frame p)"
  have "?P p1"
    by (rule map_symtab_inv[OF _ _ c, where P = ?P])
       (use ok in \<open>auto simp: tables_ok_def common_index_def rbind_eq_Inr frame_def\<close>)
  then have ok1: "tables_ok p1" "fst (frame p1) = fst (frame p)" using ok by (simp_all add: frame_def tables_ok_def)
  have "classes_inv p p'"
    by (rule map_symtab_inv[OF _ _ cl, where P = "classes_inv p"])
       (use ok1 in \<open>auto simp: tables_ok_def class_index_def classes_inv_def frame_def rbind_eq_Inr intro: structs_in_enter\<close>)
  then show ?thesis using ok by (auto simp: classes_inv_def frame_def tables_ok_def)
qed

lemma index_names_inv:
  assumes "index_names m n set_names index p = Inr (p', m')" and "P p"
    and "\<And>a. P (set_names a p)" and "\<And>q q'. P q \<Longrightarrow> index q = Inr q' \<Longrightarrow> P q'"
  shows "P p'"
  using assms by (auto simp: index_names_def rbind_eq_Inr split: if_split_asm)

text \<open>Every round of the caches keeps the agreement: the datum changes in both places.\<close>

lemma role_cache_step:
  assumes inv: "index_inv p" and k: "sym_map (p_roles p) k = Some d"
    and r: "policydb_role_cache k d (p, m) = Inr (p', m')"
  shows "index_inv p' \<and> (\<exists>d'. sym_map (p_roles p') = (sym_map (p_roles p))(k \<mapsto> d')) \<and> p_users p' = p_users p"
proof -
  obtain c where p': "p' = p\<lparr>p_roles := (p_roles p)\<lparr>table := put_datum k (d\<lparr>role_cache := c\<rparr>) (table (p_roles p))\<rparr>,
      role_val_to_struct := (role_val_to_struct p)[unat (role_value d - 1) := Some (d\<lparr>role_cache := c\<rparr>)]\<rparr>"
    using r by (auto simp: policydb_role_cache_def rbind_eq_Inr Let_def)
  let ?d = "d\<lparr>role_cache := c\<rparr>"
  have w: "wf_symtab (p_roles p)" using inv by (simp add: index_inv_def tables_ok_def)
  note m = put_datum_symtab[OF w] put_datum_symtab(2)[OF w k]
  have "role_slots ((role_val_to_struct p)[unat (role_value d - 1) := Some ?d])
      (p_roles p\<lparr>table := put_datum k ?d (table (p_roles p))\<rparr>)"
    unfolding role_slots_def m(3)
  proof (intro allI impI)
    fix i e
    assume i: "i < length ((role_val_to_struct p)[unat (role_value d - 1) := Some ?d])"
      and e: "(role_val_to_struct p)[unat (role_value d - 1) := Some ?d] ! i = Some e"
    show "unat (role_value e - 1) = i \<and> (\<exists>k'. ((sym_map (p_roles p))(k \<mapsto> ?d)) k' = Some e)"
    proof (cases "i = unat (role_value d - 1)")
      case True
      with i e have "e = ?d" by simp
      with True show ?thesis by auto
    next
      case False
      with i e have "unat (role_value e - 1) = i" "\<exists>k'. sym_map (p_roles p) k' = Some e"
        using inv by (auto simp: index_inv_def role_slots_def)
      moreover have "e \<noteq> d" using calculation(1) False by auto
      ultimately show ?thesis using k by (metis fun_upd_other option.inject)
    qed
  qed
  then have "index_inv p'" using inv m(1) by (simp add: p' index_inv_def tables_ok_def)
  then show ?thesis using m(3) by (auto simp: p')
qed

lemma role_cache_entries:
  "map_entries policydb_role_cache es (p, m) = Inr (p', m') \<Longrightarrow> index_inv p \<Longrightarrow> distinct (map fst es) \<Longrightarrow>
     \<forall>(k, d) \<in> set es. sym_map (p_roles p) k = Some d \<Longrightarrow> index_inv p'"
proof (induction es arbitrary: p m)
  case (Cons x es)
  obtain k d where x: "x = (k, d)" by (cases x)
  obtain p1 m1 where s: "policydb_role_cache k d (p, m) = Inr (p1, m1)"
    and rest: "map_entries policydb_role_cache es (p1, m1) = Inr (p', m')"
    using Cons.prems(1) by (auto simp: x rbind_eq_Inr)
  have "sym_map (p_roles p) k = Some d" using Cons.prems(4) by (simp add: x)
  note st = role_cache_step[OF Cons.prems(2) this s]
  then have "\<forall>(k, d) \<in> set es. sym_map (p_roles p1) k = Some d"
    using Cons.prems(3,4) by (force simp: x)
  then show ?case using Cons.IH[OF rest] st Cons.prems(3) by simp
qed simp

lemma user_cache_step:
  assumes "policydb_user_cache k d (p, m) = Inr (p', m')" and inv: "index_inv p"
  shows "index_inv p'"
proof -
  obtain u where "p' = p\<lparr>p_users := (p_users p)\<lparr>table := put_datum k u (table (p_users p))\<rparr>,
      user_val_to_struct := (user_val_to_struct p)[unat (user_value u - 1) := Some u]\<rparr>"
    using assms(1) by (auto simp: policydb_user_cache_def rbind_eq_Inr)
  then show ?thesis using inv put_datum_symtab(1)[of "p_users p" k u] by (simp add: index_inv_def tables_ok_def)
qed

text \<open>One kind of symbols after the other, then the caches.\<close>

lemma index_kind:
  assumes t: "wf_symtab t"
    and names: "\<And>a. index_inv (set_names a p) \<and> fst (frame (set_names a p)) = fst (frame p)"
    and step: "\<And>k d q q'. sym_map t k = Some d \<Longrightarrow> index_inv q \<and> fst (frame q) = fst (frame p) \<Longrightarrow>
      f k d q = Inr q' \<Longrightarrow> index_inv q' \<and> fst (frame q') = fst (frame p)"
  shows "on_ok (index_names m n set_names (map_table f (table t)) p) (\<lambda>(q, _). index_inv q)"
proof -
  have "index_inv q'" if "map_table f (table t) (set_names a p) = Inr q'" for a q'
    using map_symtab_inv[OF t _ that, where P = "\<lambda>q. index_inv q \<and> fst (frame q) = fst (frame p)"] step names
    by blast
  then show ?thesis using names
    by (cases "null_array m n :: errcode + string option list \<times> mem") (auto simp: index_names_def on_ok_def rbind_eq_Inr)
qed

lemma index_steps_frame:
  "role_index k r p = Inr p' \<Longrightarrow> fst (frame p') = fst (frame p)"
  "type_index k t p = Inr p' \<Longrightarrow> fst (frame p') = fst (frame p)"
  "cond_index_bool k b p = Inr p' \<Longrightarrow> fst (frame p') = fst (frame p)"
  "user_index k u p = Inr p' \<Longrightarrow> fst (frame p') = fst (frame p)"
  "sens_index k l p = Inr p' \<Longrightarrow> fst (frame p') = fst (frame p)"
  "cat_index k c p = Inr p' \<Longrightarrow> fst (frame p') = fst (frame p)"
  by (auto simp: role_index_def type_index_def cond_index_bool_def user_index_def sens_index_def cat_index_def
      rbind_eq_Inr Let_def frame_def split: if_split_asm)

lemma index_inv_kinds:
  assumes "index_inv p"
  shows "on_ok (index_names m n (\<lambda>a p. p\<lparr>p_role_val_to_name := a\<rparr>) (map_table role_index (table (p_roles p))) p) (\<lambda>(q, _). index_inv q)"
    and "on_ok (index_names m n (\<lambda>a p. p\<lparr>p_type_val_to_name := a\<rparr>) (map_table type_index (table (p_types p))) p) (\<lambda>(q, _). index_inv q)"
    and "on_ok (index_names m n (\<lambda>a p. p\<lparr>p_user_val_to_name := a\<rparr>) (map_table user_index (table (p_users p))) p) (\<lambda>(q, _). index_inv q)"
    and "on_ok (index_names m n (\<lambda>a p. p\<lparr>p_bool_val_to_name := a\<rparr>) (map_table cond_index_bool (table (p_bools p))) p) (\<lambda>(q, _). index_inv q)"
    and "on_ok (index_names m n (\<lambda>a p. p\<lparr>p_sens_val_to_name := a\<rparr>) (map_table sens_index (table (p_levels p))) p) (\<lambda>(q, _). index_inv q)"
    and "on_ok (index_names m n (\<lambda>a p. p\<lparr>p_cat_val_to_name := a\<rparr>) (map_table cat_index (table (p_cats p))) p) (\<lambda>(q, _). index_inv q)"
proof -
  have w: "tables_ok p" using assms by (simp add: index_inv_def)
  have same: "p_roles q = p_roles p" "p_types q = p_types p" "p_bools q = p_bools p"
    if "fst (frame q) = fst (frame p)" for q
    using that by (simp_all add: frame_def)
  have names: "index_inv (p\<lparr>p_role_val_to_name := a\<rparr>) \<and> fst (frame (p\<lparr>p_role_val_to_name := a\<rparr>)) = fst (frame p)"
    "index_inv (p\<lparr>p_type_val_to_name := a\<rparr>) \<and> fst (frame (p\<lparr>p_type_val_to_name := a\<rparr>)) = fst (frame p)"
    "index_inv (p\<lparr>p_user_val_to_name := a\<rparr>) \<and> fst (frame (p\<lparr>p_user_val_to_name := a\<rparr>)) = fst (frame p)"
    "index_inv (p\<lparr>p_bool_val_to_name := a\<rparr>) \<and> fst (frame (p\<lparr>p_bool_val_to_name := a\<rparr>)) = fst (frame p)"
    "index_inv (p\<lparr>p_sens_val_to_name := a\<rparr>) \<and> fst (frame (p\<lparr>p_sens_val_to_name := a\<rparr>)) = fst (frame p)"
    "index_inv (p\<lparr>p_cat_val_to_name := a\<rparr>) \<and> fst (frame (p\<lparr>p_cat_val_to_name := a\<rparr>)) = fst (frame p)" for a
    using assms by (simp_all add: index_inv_def tables_ok_def frame_def)
  show "on_ok (index_names m n (\<lambda>a p. p\<lparr>p_role_val_to_name := a\<rparr>) (map_table role_index (table (p_roles p))) p) (\<lambda>(q, _). index_inv q)"
  proof (rule index_kind)
    fix k d q q' assume "sym_map (p_roles p) k = Some d" "index_inv q \<and> fst (frame q) = fst (frame p)" "role_index k d q = Inr q'"
    then show "index_inv q' \<and> fst (frame q') = fst (frame p)"
      using index_steps(1)[of q k d q'] index_steps_frame(1)[of k d q q'] same[of q] by simp
  qed (use w names in \<open>simp_all add: tables_ok_def\<close>)
  show "on_ok (index_names m n (\<lambda>a p. p\<lparr>p_type_val_to_name := a\<rparr>) (map_table type_index (table (p_types p))) p) (\<lambda>(q, _). index_inv q)"
  proof (rule index_kind)
    fix k d q q' assume "sym_map (p_types p) k = Some d" "index_inv q \<and> fst (frame q) = fst (frame p)" "type_index k d q = Inr q'"
    then show "index_inv q' \<and> fst (frame q') = fst (frame p)"
      using index_steps(2)[of q k d q'] index_steps_frame(2)[of k d q q'] same[of q] by simp
  qed (use w names in \<open>simp_all add: tables_ok_def\<close>)
  show "on_ok (index_names m n (\<lambda>a p. p\<lparr>p_user_val_to_name := a\<rparr>) (map_table user_index (table (p_users p))) p) (\<lambda>(q, _). index_inv q)"
  proof (rule index_kind)
    fix k d q q' assume "sym_map (p_users p) k = Some d" "index_inv q \<and> fst (frame q) = fst (frame p)" "user_index k d q = Inr q'"
    then show "index_inv q' \<and> fst (frame q') = fst (frame p)"
      using index_steps(4)[of q k d q'] index_steps_frame(4)[of k d q q'] same[of q] by simp
  qed (use w names in \<open>simp_all add: tables_ok_def\<close>)
  show "on_ok (index_names m n (\<lambda>a p. p\<lparr>p_bool_val_to_name := a\<rparr>) (map_table cond_index_bool (table (p_bools p))) p) (\<lambda>(q, _). index_inv q)"
  proof (rule index_kind)
    fix k d q q' assume "sym_map (p_bools p) k = Some d" "index_inv q \<and> fst (frame q) = fst (frame p)" "cond_index_bool k d q = Inr q'"
    then show "index_inv q' \<and> fst (frame q') = fst (frame p)"
      using index_steps(3)[of q k d q'] index_steps_frame(3)[of k d q q'] same[of q] by simp
  qed (use w names in \<open>simp_all add: tables_ok_def\<close>)
  show "on_ok (index_names m n (\<lambda>a p. p\<lparr>p_sens_val_to_name := a\<rparr>) (map_table sens_index (table (p_levels p))) p) (\<lambda>(q, _). index_inv q)"
  proof (rule index_kind)
    fix k d q q' assume "sym_map (p_levels p) k = Some d" "index_inv q \<and> fst (frame q) = fst (frame p)" "sens_index k d q = Inr q'"
    then show "index_inv q' \<and> fst (frame q') = fst (frame p)"
      using index_steps(5)[of q k d q'] index_steps_frame(5)[of k d q q'] same[of q] by simp
  qed (use w names in \<open>simp_all add: tables_ok_def\<close>)
  show "on_ok (index_names m n (\<lambda>a p. p\<lparr>p_cat_val_to_name := a\<rparr>) (map_table cat_index (table (p_cats p))) p) (\<lambda>(q, _). index_inv q)"
  proof (rule index_kind)
    fix k d q q' assume "sym_map (p_cats p) k = Some d" "index_inv q \<and> fst (frame q) = fst (frame p)" "cat_index k d q = Inr q'"
    then show "index_inv q' \<and> fst (frame q') = fst (frame p)"
      using index_steps(6)[of q k d q'] index_steps_frame(6)[of k d q q'] same[of q] by simp
  qed (use w names in \<open>simp_all add: tables_ok_def\<close>)
qed

lemma caches_ok:
  assumes "index_inv p"
  shows "on_ok (map_table policydb_role_cache (table (p_roles p)) (p, m)) (\<lambda>(q, _). index_inv q)"
    and "on_ok (map_table policydb_user_cache (table (p_users p)) (p, m)) (\<lambda>(q, _). index_inv q)"
proof -
  have w: "wf_symtab (p_roles p)" "wf_symtab (p_users p)" using assms by (simp_all add: index_inv_def tables_ok_def)
  then obtain h where h: "table (p_roles p) = Some h" "sym.wf h" by (auto simp: wf_symtab_def)
  then have e: "distinct (map fst (entries h))" "\<forall>(k, d) \<in> set (entries h). sym_map (p_roles p) k = Some d"
    by (auto simp: sym.entries_distinct sym_map_def sym.wf_entries)
  show "on_ok (map_table policydb_role_cache (table (p_roles p)) (p, m)) (\<lambda>(q, _). index_inv q)"
    using role_cache_entries[OF _ assms e] h by (auto simp: on_ok_def map_table_entries)
  have "index_inv (fst s)" if "map_table policydb_user_cache (table (p_users p)) (p, m) = Inr s" for s
    by (rule map_symtab_inv[OF w(2) _ that, where P = "\<lambda>s. index_inv (fst s)"])
       (use assms user_cache_step in auto)
  then show "on_ok (map_table policydb_user_cache (table (p_users p)) (p, m)) (\<lambda>(q, _). index_inv q)"
    by (auto simp: on_ok_def)
qed

lemma on_ok_null:
  "(\<And>m'. on_ok (f (replicate (unat n) None, m')) Q) \<Longrightarrow> on_ok (rbind (null_array m n) f) Q"
  by (auto simp: null_array_def split: option.split)

lemma bool_indexes_ok:
  assumes "tables_ok p" and "structs_in (class_val_to_struct p) (p_classes p)"
  shows "on_ok (cond_init_bool_indexes m (p\<lparr>role_val_to_struct := replicate i None,
       user_val_to_struct := replicate j None, type_val_to_struct := replicate k None\<rparr>)) (\<lambda>(q, _). index_inv q)"
  using assms by (auto simp: cond_init_bool_indexes_def index_inv_def tables_ok_def role_slots_def split: option.split)

lemma index_others_ok:
  assumes "tables_ok p" and "structs_in (class_val_to_struct p) (p_classes p)"
  shows "on_ok (policydb_index_others m p) (\<lambda>(q, _). index_inv q)"
  unfolding policydb_index_others_def on_ok_simps
  by ((rule on_ok_null, unfold prod.case)+, rule on_ok_seq[where I = index_inv], rule bool_indexes_ok[OF assms], unfold prod.case,
      (rule on_ok_seq[where I = index_inv], (rule index_inv_kinds caches_ok, assumption), unfold prod.case)+,
      rule caches_ok, assumption)

section \<open>The whole reader\<close>

lemma index_decls_frame: "policydb_index_decls m p = Inr (p', m') \<Longrightarrow> frame p' = frame p"
  by (auto simp: policydb_index_decls_def Let_def rbind_eq_Inr frame_def)

lemma set_process_trans_frame: "set_process_trans p = Inr p' \<Longrightarrow> frame p' = frame p"
  by (auto simp: set_process_trans_def rbind_eq_Inr frame_def split: if_split_asm)

lemma read_ocontexts_frame: "read_ocontexts rd is m p fp = Inr (p', fp', m') \<Longrightarrow> frame p' = frame p"
proof (induction "is" arbitrary: m p fp)
  case (Cons i "is")
  have "frame (set_ocontexts i cs p) = frame p" for cs by (simp add: set_ocontexts_def frame_def)
  then show ?case using Cons.prems by (auto simp: rbind_eq_Inr dest!: Cons.IH split: if_split_asm)
qed simp

lemma ocontext_read_frame: "ocontext_read n m p fp = Inr (p', fp', m') \<Longrightarrow> frame p' = frame p"
  by (auto simp: ocontext_read_def ocontext_read_selinux_def ocontext_read_xen_def split: if_split_asm
      dest: read_ocontexts_frame)

lemma genfs_item_frame: "genfs_item_read m p fp = Inr (p', fp', m') \<Longrightarrow> frame p' = frame p"
proof -
  have "on_ok (genfs_item_read m p fp) (\<lambda>(q, _). frame q = frame p)"
    by (auto simp: genfs_item_read_def frame_def intro!: on_ok_any split: option.split)
  then show "genfs_item_read m p fp = Inr (p', fp', m') \<Longrightarrow> frame p' = frame p" by (auto dest: on_okD)
qed

lemma genfs_read_frame: "genfs_read m p fp = Inr (p', fp', m') \<Longrightarrow> frame p' = frame p"
proof -
  assume "genfs_read m p fp = Inr (p', fp', m')"
  then obtain n fp1 where r: "read_loop genfs_item_read n m p fp1 = Inr (p', fp', m')"
    by (auto simp: genfs_read_def rbind_eq_Inr)
  show ?thesis by (rule loop_frame[OF _ r]) (rule genfs_item_frame)
qed

lemma set_global_ranges_frame: "set_global_ranges rs p = Inr p' \<Longrightarrow> frame p' = frame p"
  by (auto simp: set_global_ranges_def frame_def Let_def split: list.split_asm option.split_asm)

lemma range_entry_frame: "range_entry_read m st fp = Inr (st', fp', m') \<Longrightarrow> frame (fst st') = frame (fst st)"
proof -
  obtain p rs where st: "st = (p, rs)" by (cases st)
  have g: "on_ok (rbind (set_global_ranges rs q) f) Q"
    if "\<And>q'. frame q' = frame q \<Longrightarrow> on_ok (f q') Q" for rs q and f :: "policydb \<Rightarrow> errcode + 'a" and Q
    using that by (auto simp: on_ok_def rbind_eq_Inr dest: set_global_ranges_frame)
  have [simp]: "frame (p\<lparr>range_tr := h\<rparr>) = frame p" for h by (simp add: frame_def)
  have "on_ok (range_entry_read m st fp) (\<lambda>(st', _). frame (fst st') = frame (fst st))"
    unfolding st range_entry_read_def Let_def
    by (auto intro!: on_ok_any g split: option.split prod.split)
  then show "range_entry_read m st fp = Inr (st', fp', m') \<Longrightarrow> frame (fst st') = frame (fst st)"
    by (auto dest: on_okD)
qed

lemma range_read_frame: "range_read m p fp = Inr (p', fp', m') \<Longrightarrow> frame p' = frame p"
proof -
  assume "range_read m p fp = Inr (p', fp', m')"
  then obtain n fp1 rs where r: "read_loop range_entry_read n m (p, []) fp1 = Inr ((p', rs), fp', m')"
    by (auto simp: range_read_def rbind_eq_Inr)
  have "frame (fst (p', rs)) = frame (fst (p, [] :: range_trans_rule list))"
    by (rule loop_frame_of[OF _ r]) (rule range_entry_frame)
  then show ?thesis by simp
qed

lemma read_type_maps_frame: "read_type_maps m p fp = Inr (p', fp', m') \<Longrightarrow> frame p' = frame p"
  by (auto simp: read_type_maps_def Let_def rbind_eq_Inr frame_def split: option.split_asm)

text \<open>What holds between the steps of \<open>finish_read\<close>.\<close>

definition classes_indexed :: "policydb \<Rightarrow> bool" where
  "classes_indexed p \<longleftrightarrow> tables_ok p \<and> structs_in (class_val_to_struct p) (p_classes p)"

definition checked :: "policydb \<Rightarrow> bool" where
  "checked p \<longleftrightarrow> indexed p \<and> (\<exists>k. policydb_validate k p = Inr ())"

lemma finish_steps:
  "tables_ok p \<Longrightarrow> on_ok (policydb_index_decls m p) (\<lambda>(q, _). tables_ok q)"
  "tables_ok p \<Longrightarrow> on_ok (policydb_index_classes m p) (\<lambda>(q, _). classes_indexed q)"
  "classes_indexed p \<Longrightarrow> on_ok (set_process_trans p) classes_indexed"
  "classes_indexed p \<Longrightarrow> on_ok (policydb_index_others m p) (\<lambda>(q, _). index_inv q)"
  "index_inv p \<Longrightarrow> on_ok (ocontext_read n m p fp) (\<lambda>(q, _). index_inv q)"
  "index_inv p \<Longrightarrow> on_ok (genfs_read m p fp) (\<lambda>(q, _). index_inv q)"
  "index_inv p \<Longrightarrow> on_ok (if b then range_read m p fp else Inr (p, fp, m)) (\<lambda>(q, _). index_inv q)"
  "index_inv p \<Longrightarrow> on_ok (if b then read_type_maps m p fp else Inr (p, fp, m)) (\<lambda>(q, _). index_inv q)"
  "index_inv p \<Longrightarrow> on_ok (rbind (policydb_validate m p) (\<lambda>_. Inr (p, fp, m))) (\<lambda>(q, _). checked q)"
proof -
  show "tables_ok p \<Longrightarrow> on_ok (policydb_index_decls m p) (\<lambda>(q, _). tables_ok q)"
    using tables_ok_frame[OF index_decls_frame] by (auto simp: on_ok_def)
  show "tables_ok p \<Longrightarrow> on_ok (policydb_index_classes m p) (\<lambda>(q, _). classes_indexed q)"
    using index_classes_ok by (auto simp: on_ok_def classes_indexed_def)
  show "classes_indexed p \<Longrightarrow> on_ok (set_process_trans p) classes_indexed"
    using set_process_trans_frame[of p] by (fastforce simp: on_ok_def classes_indexed_def tables_ok_def frame_def)
  show "classes_indexed p \<Longrightarrow> on_ok (policydb_index_others m p) (\<lambda>(q, _). index_inv q)"
    using index_others_ok by (simp add: classes_indexed_def)
  show "index_inv p \<Longrightarrow> on_ok (ocontext_read n m p fp) (\<lambda>(q, _). index_inv q)"
    "index_inv p \<Longrightarrow> on_ok (genfs_read m p fp) (\<lambda>(q, _). index_inv q)"
    "index_inv p \<Longrightarrow> on_ok (if b then range_read m p fp else Inr (p, fp, m)) (\<lambda>(q, _). index_inv q)"
    "index_inv p \<Longrightarrow> on_ok (if b then read_type_maps m p fp else Inr (p, fp, m)) (\<lambda>(q, _). index_inv q)"
    using index_inv_frame[OF ocontext_read_frame] index_inv_frame[OF genfs_read_frame]
      index_inv_frame[OF range_read_frame] index_inv_frame[OF read_type_maps_frame]
    by (auto simp: on_ok_def)
  show "index_inv p \<Longrightarrow> on_ok (rbind (policydb_validate m p) (\<lambda>_. Inr (p, fp, m))) (\<lambda>(q, _). checked q)"
    using index_inv_indexed by (auto simp: on_ok_def rbind_eq_Inr checked_def)
qed

lemma finish_read_ok: "tables_ok p \<Longrightarrow> on_ok (finish_read n m p fp) (\<lambda>(q, _). checked q)"
  unfolding finish_read_def
  by (rule on_ok_seq, erule finish_steps, unfold prod.case, rule on_ok_seq, erule finish_steps, unfold prod.case,
      rule on_ok_step, erule finish_steps, rule on_ok_seq, erule finish_steps,
      (unfold prod.case split_paired_all, rule on_ok_seq, erule finish_steps)+, unfold prod.case split_paired_all, erule finish_steps)

text \<open>The rules leave the tables alone, so they are as \<open>read_symbols\<close> left them.\<close>

lemma read_rules_ok:
  "tables_ok p \<Longrightarrow> on_ok (if kern then read_kernel_rules m p fp else read_module_rules n m p fp) (\<lambda>(q, _). tables_ok q)"
  using tables_ok_frame[OF read_kernel_rules_frame] tables_ok_frame[OF read_module_rules_frame]
  by (auto simp: on_ok_def)

lemma header_frame:
  "on_ok (read_magic m p fp) (\<lambda>((q, _), _). frame q = frame p)"
  "on_ok (read_config p kern fp) (\<lambda>((q, _), _). frame q = frame p)"
  "on_ok (read_module_name m p fp) (\<lambda>(q, _). frame q = frame p)"
  "on_ok (read_caps m p fp) (\<lambda>(q, _). frame q = frame p)"
  "frame (set_known_classes p) = frame p"
  by (auto simp: read_magic_def read_config_def read_module_name_def read_caps_def set_known_classes_def
      policydb_set_target_platform_def Let_def frame_def intro!: on_ok_any split: option.split)

lemmas readers_put = common_read_def class_read_def type_read_def user_read_def sens_read_def cat_read_def

lemma read_symtab_ok:
  assumes "wf_symtab s" and "\<And>m h fp h' fp' m'. rd m h fp = Inr (h', fp', m') \<Longrightarrow> wf_tab h \<Longrightarrow> wf_tab h'"
  shows "on_ok (read_symtab_if b chk rd m s fp) (\<lambda>(s', _). wf_symtab s')"
  using read_symtab_wf[of rd, OF assms(2) _ assms(1)] by (auto simp: on_ok_def)

lemma read_symbols_ok: "tables_ok p \<Longrightarrow> on_ok (read_symbols n m p fp) (\<lambda>(q, _). tables_ok q)"
  unfolding read_symbols_def Let_def tables_ok_def readers_put
  by ((rule on_ok_seq, rule read_symtab_ok, simp, (erule read_put_wf | erule role_read_wf | erule cond_read_bool_wf),
       assumption, unfold split_paired_all prod.case)+, simp)

lemma policydb_read_ok:
  assumes "tables_ok p"
  shows "on_ok (policydb_read m p fp) (\<lambda>(q, _). checked q)"
proof -
  have ok: "tables_ok q" if "frame q = frame p" for q using tables_ok_frame[OF that] assms by simp
  have body: "on_ok (rbind (read_symbols n m q fp) (\<lambda>(p, fp, m).
        let p = set_known_classes p in
        rbind (if kern then read_kernel_rules m p fp else read_module_rules n m p fp) (\<lambda>(p, fp, m).
          finish_read k m p fp))) (\<lambda>(q, _). checked q)" if "frame q = frame p" for n m q fp kern k
  proof (rule on_ok_seq[where I = tables_ok])
    show "on_ok (read_symbols n m q fp) (\<lambda>(q, _). tables_ok q)" by (rule read_symbols_ok[OF ok[OF that]])
    fix q y assume "tables_ok q"
    then have t: "tables_ok (set_known_classes q)" using tables_ok_frame[OF header_frame(5)] by simp
    show "on_ok (case (q, y) of (p, fp, m) \<Rightarrow> let p = set_known_classes p in
        rbind (if kern then read_kernel_rules m p fp else read_module_rules n m p fp) (\<lambda>(p, fp, m).
          finish_read k m p fp)) (\<lambda>(q, _). checked q)"
      unfolding Let_def prod.case
      by (cases y, simp only: prod.case, rule on_ok_seq, rule read_rules_ok[OF t], unfold split_paired_all prod.case,
          erule finish_read_ok)
  qed
  show ?thesis
    unfolding policydb_read_def on_ok_simps
  proof (rule on_ok_step[OF header_frame(1)], unfold split_paired_all prod.case)
    fix q1 kern fp m assume f1: "frame q1 = frame p"
    show "on_ok (rbind (read_config q1 kern fp) (\<lambda>((p, sym_num, ocon_num), fp).
        rbind (read_module_name m p fp) (\<lambda>(p, fp, m). rbind (read_caps m p fp) (\<lambda>(p, fp, m).
        rbind (read_symbols sym_num m p fp) (\<lambda>(p, fp, m). let p = set_known_classes p in
        rbind (if kern then read_kernel_rules m p fp else read_module_rules sym_num m p fp) (\<lambda>(p, fp, m).
          finish_read ocon_num m p fp)))))) (\<lambda>(q, _). checked q)"
      by (rule on_ok_step[OF header_frame(2)], unfold split_paired_all prod.case,
          rule on_ok_step[OF header_frame(3)], unfold split_paired_all prod.case,
          rule on_ok_step[OF header_frame(4)], unfold split_paired_all prod.case,
          rule body) (simp add: f1)
  qed
qed

section \<open>Initialisation\<close>

lemma pow2_sizes: "pow2_size 2" "pow2_size 16" "pow2_size 32" "pow2_size 128" "pow2_size 512"
  using pow2_sizeI[of 1] pow2_sizeI[of 4] pow2_sizeI[of 5] pow2_sizeI[of 7] pow2_sizeI[of 9] by simp_all

lemma symtab_init_wf: "pow2_size sz \<Longrightarrow> on_ok (symtab_init m sz) (\<lambda>(s, _). wf_symtab s)"
  by (auto simp: on_ok_def dest: symtab_init_ok)

lemma init_symtabs_ok: "on_ok (init_symtabs m p) (\<lambda>(q, _). tables_ok q)"
  unfolding init_symtabs_def
  by ((rule on_ok_seq, rule symtab_init_wf, rule pow2_sizes, unfold split_paired_all prod.case)+,
      simp add: tables_ok_def)

lemma symtab_insert_table:
  "table (fst (snd (symtab_insert m sy tab scs k d f g sc i))) =
     fst (snd (hashtab_insert symhash symcmp m (table tab) k
       (case f of None \<Rightarrow> d | Some f \<Rightarrow> f d (nprim tab + 1))))"
  by (auto simp: symtab_insert_def Let_def split: prod.split option.split)

lemma symtab_insert_wf:
  assumes "symtab_insert m sy tab scs k d f g sc i = (st, tab', scs', m')" and "wf_symtab tab"
  shows "wf_symtab tab'"
  using symtab_insert_table[of m sy tab scs k d f g sc i] assms insert_wf[of m "table tab" k]
  by (metis fst_conv prod.collapse snd_conv wf_symtab_tab)

lemma roles_init_ok: "tables_ok p \<Longrightarrow> on_ok (roles_init m p) (\<lambda>(q, _). tables_ok q)"
  using symtab_insert_wf[of _ _ "p_roles p"]
  by (auto simp: roles_init_def tables_ok_def split: option.split prod.split insert_status.split)

lemma policydb_init_tables:
  assumes "policydb_init m = (None, Some (p, m'))"
  shows "tables_ok p"
proof -
  have i: "tables_ok p1" if "init_symtabs k q = Inr (p1, m1)" for k q p1 m1
    using init_symtabs_ok[of k q] that by (auto simp: on_ok_def)
  have r: "tables_ok p2" if "roles_init k (q\<lparr>sym_scope := a, global_blocks := b, decl_val_to_struct := c, te_avtab := d\<rparr>)
      = Inr (p2, m3)" "tables_ok q" for k q a b c d p2 m3
    using on_okD[OF roles_init_ok that(1)] that(2) by (simp add: tables_ok_def)
  obtain p2 where "tables_ok p2" "fst (frame p) = fst (frame p2)"
    using assms by (auto simp: policydb_init_def Let_def frame_def cond_policydb_init_def
        split: sum.split_asm option.split_asm prod.split_asm dest!: i dest: r)
  then show ?thesis by (simp add: tables_ok_def frame_def)
qed

end
