(* ===== verification/Load_Props.thy ===== *)
theory Load_Props
  imports Load_Policy Services_Props Policydb_Read_Props
begin

text \<open>
  Properties of \<^verbatim>\<open>sepol_load_policy\<close>: when the classes of two policies agree, what a load does to
  the SID table, and what each way of failing leaves behind.
\<close>

section \<open>Classes that did not change\<close>

text \<open>Every permission of the first table has the same value in the second.\<close>

definition same_perms :: "(string, perm_datum) hashtab \<Rightarrow> (string, perm_datum) hashtab \<Rightarrow> bool" where
  "same_perms h h2 \<longleftrightarrow>
     (\<forall>(k, d) \<in> set (visited_entries h). \<exists>d2. sym_search h2 k = Some d2 \<and> perm_value d2 = perm_value d)"

text \<open>
  Every class of the first policy is in the second, with the same value and permissions, and with
  a common of the same permissions if it has one.
\<close>

definition same_class :: "class_datum \<Rightarrow> class_datum \<Rightarrow> bool" where
  "same_class d d2 \<longleftrightarrow>
     class_value d2 = class_value d \<and>
     same_perms (table (class_permissions d)) (table (class_permissions d2)) \<and>
     (case (comdatum d, comdatum d2) of
        (None, None) \<Rightarrow> True
      | (Some c, Some c2) \<Rightarrow> same_perms (table (common_permissions c)) (table (common_permissions c2))
      | _ \<Rightarrow> False)"

definition classes_kept :: "policydb \<Rightarrow> policydb \<Rightarrow> bool" where
  "classes_kept p p2 \<longleftrightarrow>
     (\<forall>(k, d) \<in> set (visited_entries (table (p_classes p))).
        \<exists>d2. sym_search (table (p_classes p2)) k = Some d2 \<and> same_class d d2)"

lemma map_chain_zero:
  assumes "\<And>k d. snd (f k d ()) = ()"
  shows "fst (map_chain f xs ()) = 0 \<longleftrightarrow> (\<forall>(k, d) \<in> set xs. fst (f k d ()) = 0)"
  by (induction xs) (auto split: prod.splits)

lemma validate_perm_iff:
  "fst (validate_perm h2 k d ()) = 0 \<longleftrightarrow> (\<exists>d2. sym_search h2 k = Some d2 \<and> perm_value d2 = perm_value d)"
  by (auto simp: validate_perm_def split: option.splits)

lemma perms_kept_iff: "perms_kept h h2 \<longleftrightarrow> same_perms h h2"
  unfolding perms_kept_def hashtab_map_visited same_perms_def
  by (subst map_chain_zero) (simp_all add: validate_perm_iff)

lemma validate_class_iff:
  "fst (validate_class p2 k d ()) = 0 \<longleftrightarrow>
     (\<exists>d2. sym_search (table (p_classes p2)) k = Some d2 \<and> same_class d d2)"
  by (auto simp: validate_class_def perms_kept_iff same_class_def split: option.splits)

lemma classes_kept_iff:
  "fst (hashtab_map (validate_class p2) (table (p_classes p)) ()) = 0 \<longleftrightarrow> classes_kept p p2"
  unfolding hashtab_map_visited classes_kept_def
  by (subst map_chain_zero) (simp_all add: validate_class_iff)

section \<open>Failures\<close>

text \<open>Cloning reads the old table and changes nothing in it.\<close>

lemma clone_sid_keeps: "clone_sid i c st = (r, c', st') \<Longrightarrow> c' = c"
  by (auto simp: clone_sid_def split: prod.splits sum.splits)

lemma map_chain_keeps:
  assumes "\<And>i c st r c' st'. f i c st = (r, c', st') \<Longrightarrow> c' = c"
  shows "sid_map_chain f ns st = (r, ns', st') \<Longrightarrow> ns' = ns"
  by (induction ns arbitrary: st r ns' st') (auto split: prod.splits option.splits dest: assms)

lemma map_chains_keep:
  assumes "\<And>i c st r c' st'. f i c st = (r, c', st') \<Longrightarrow> c' = c"
  shows "sid_map_chains f cs st = (r, cs', st') \<Longrightarrow> cs' = cs"
proof (induction cs arbitrary: st r cs' st')
  case (Cons c cs)
  have "ns' = ns" if "sid_map_chain f ns s1 = (r1, ns', s2)" for ns s1 r1 ns' s2
    using map_chain_keeps[of f, OF assms that] by simp
  then show ?case using Cons by (fastforce split: prod.splits option.splits)
qed simp

lemma clone_keeps:
  assumes c: "sepol_sidtab_map clone_sid s st = (r, s', st')"
  shows "s' = s"
proof (cases "sid_htable s")
  case None
  then show ?thesis using c by (simp add: sepol_sidtab_map_def)
next
  case (Some t)
  obtain r1 t' s2 where m: "sid_map_chains clone_sid t st = (r1, t', s2)" by (metis prod.exhaust)
  have "t' = t" by (rule map_chains_keep[OF _ m]) (rule clone_sid_keeps)
  then show ?thesis using c m Some by (cases s) (simp add: sepol_sidtab_map_def)
qed

lemma install_policy_fails:
  assumes "install_policy m newp sv = (Some e, sv')"
  shows "if classes_kept (pdb sv) newp
    then e \<in> {ENOMEM, UNDEF} \<and> sv' = sv\<lparr>stab := (stab sv)\<lparr>shutdown := True\<rparr>\<rparr>
    else e = EINVAL \<and> sv' = sv"
  using assms
  by (auto simp: install_policy_def classes_kept_iff[symmetric] Let_def sepol_sidtab_shutdown_def
      split: prod.splits option.splits if_splits dest!: clone_keeps)

lemma install_policy_classes:
  "install_policy m newp sv = (None, sv') \<Longrightarrow> classes_kept (pdb sv) newp"
  by (auto simp: install_policy_def classes_kept_iff[symmetric] split: prod.splits if_splits)

text \<open>A table that is shut down gives no SID to a new context.\<close>

lemma shutdown_no_sid:
  assumes "wf_sidtab s" and "\<forall>i. sid_map s i \<noteq> Some c"
  shows "sepol_sidtab_context_to_sid m (s\<lparr>shutdown := True\<rparr>) c = Inl ENOMEM"
proof -
  have "wf_sidtab (s\<lparr>shutdown := True\<rparr>)" using assms(1) by (simp add: wf_sidtab_def)
  moreover have "sid_map (s\<lparr>shutdown := True\<rparr>) = sid_map s" by (simp add: sid_map_def fun_eq_iff)
  ultimately show ?thesis using context_to_sid_cases(2)[of "s\<lparr>shutdown := True\<rparr>" c m] assms(2) by simp
qed

section \<open>The image\<close>

lemma read_image_checked: "read_image m bytes = Inr (newp, k) \<Longrightarrow> checked newp"
  using on_okD[OF policydb_read_ok] policydb_init_tables
  by (fastforce simp: read_image_def split: prod.splits option.splits sum.splits errcode.splits)

end
