(* ===== verification/Load_Properties.thy ===== *)
theory Load_Properties
  imports Load_Props Example_Policy
begin

text \<open>
  The properties of reading and loading a policy, with an image of 204 bytes (a kernel policy of
  version 15 with a class, a type, a user and a rule) that is read in the witnesses.
\<close>

section \<open>Evaluation of the reader\<close>

lemma le_to_cpu_code [code]:
  "le_to_cpu [] = (0 :: 'a::len word)"
  "le_to_cpu (b # bs) = (ucast b + 256 * le_to_cpu bs :: 'a::len word)"
  by (simp_all add: le_to_cpu_def)

lemma exceeds_available_bytes_code [code]:
  "exceeds_available_bytes fp x r =
     (if ptype fp \<noteq> PF_USE_MEMORY then False
      else if int x * int r \<ge> 18446744073709551616 then True else x * r > plen fp)"
proof -
  have a: "(18446744073709551616 :: int) = int (2 ^ 64)" by simp
  have "(int x * int r \<ge> 18446744073709551616) = (x * r \<ge> 2 ^ 64)"
    by (simp only: a of_nat_mult[symmetric] of_nat_le_iff)
  then show ?thesis by (simp only: exceeds_available_bytes_def)
qed

text \<open>Conditionals and the propagation of errors as cases, so that only one branch is evaluated.\<close>

lemma if_as_case [code_unfold]: "(if b then x else y) = (case b of True \<Rightarrow> x | False \<Rightarrow> y)"
  by simp

declare rbind_def [code_unfold]

definition tiny_image :: "u8 list" where
  "tiny_image =
    [140, 255, 124, 249, 8, 0, 0, 0, 83, 69, 32, 76, 105, 110, 117, 120, 15, 0, 0, 0, 0, 0, 0, 0,
     5, 0, 0, 0, 6, 0, 0, 0, 0, 0, 0, 0, 0, 0, 0, 0, 1, 0, 0, 0, 1, 0, 0, 0, 1, 0, 0, 0, 0, 0, 0,
     0, 1, 0, 0, 0, 1, 0, 0, 0, 1, 0, 0, 0, 0, 0, 0, 0, 99, 1, 0, 0, 0, 1, 0, 0, 0, 112, 1, 0, 0,
     0, 0, 0, 0, 0, 1, 0, 0, 0, 1, 0, 0, 0, 1, 0, 0, 0, 1, 0, 0, 0, 1, 0, 0, 0, 116, 1, 0, 0, 0,
     1, 0, 0, 0, 1, 0, 0, 0, 1, 0, 0, 0, 117, 64, 0, 0, 0, 0, 0, 0, 0, 0, 0, 0, 0, 1, 0, 0, 0, 5,
     0, 0, 0, 1, 0, 0, 0, 1, 0, 0, 0, 1, 0, 0, 0, 1, 0, 0, 0, 1, 0, 0, 0, 0, 0, 0, 0, 0, 0, 0, 0,
     0, 0, 0, 0, 0, 0, 0, 0, 0, 0, 0, 0, 0, 0, 0, 0, 0, 0, 0, 0, 0, 0, 0, 0, 0, 0, 0, 0]"

text \<open>
  The policy in use before: the user \<open>u\<close> and the type \<open>t\<close> have other numbers, and a type is not in
  the image.
\<close>

definition old_policy :: policydb where
  "old_policy =
     demo\<lparr>mls := False,
       p_classes := one_slot 1 [(''c'', demo_class\<lparr>class_permissions := one_slot 1 [(''p'', \<lparr>perm_value = 1\<rparr>)]\<rparr>)],
       p_user_val_to_name := [None, Some ''u''], p_role_val_to_name := [Some ''object_r''],
       p_type_val_to_name := [Some ''gone'', Some ''t'']\<rparr>"

definition plain_context :: "u32 \<Rightarrow> u32 \<Rightarrow> context_struct" where
  "plain_context u t = context_init\<lparr>user := u, role := 1, type := t\<rparr>"

definition old_server :: server where
  "old_server = \<lparr>pdb = old_policy, stab = demo_sids [plain_context 2 2, plain_context 2 1]\<rparr>"

lemma tiny_init: "case policydb_init 100 of (None, Some _) \<Rightarrow> True | _ \<Rightarrow> False"
  by code_simp

lemma tiny_read:
  "case read_image 100 tiny_image of
     Inr (q, k) \<Rightarrow>
       0 < k \<and> policy_type q = POLICY_KERN \<and> class_ok q 1 \<and>
       ptr_arr (class_val_to_struct q) (unat (1 :: u16) - 1) \<noteq> None \<and> context_known q (plain_context 1 1) \<and>
       (case context_struct_compute_av 1 q (plain_context 1 1) (plain_context 1 1) 1 3 of
          Some (Inr (avd, reason)) \<Rightarrow> allowed avd = 1 \<and> reason = 1 | _ \<Rightarrow> False) \<and>
       (case install_policy k q old_server of
          (None, sv) \<Rightarrow> sid_map (stab sv) 1 = Some (plain_context 1 1) \<and> sid_map (stab sv) 2 = None
        | _ \<Rightarrow> False) \<and>
       fst (install_policy k q demo_server) = Some EINVAL
   | Inl _ \<Rightarrow> False"
  by code_simp

lemma tiny_read_scarce:
  "case read_image 94 tiny_image of
     Inr (q, k) \<Rightarrow> fst (install_policy k q old_server) = Some ENOMEM
   | Inl _ \<Rightarrow> False"
  by code_simp

section \<open>Reading a policy\<close>

text \<open>C26: a policy that is read is safe to use, whatever the bytes. If \<^verbatim>\<open>policydb_read\<close> accepts a
  file into a database that \<^verbatim>\<open>policydb_init\<close> made, then the indexes of the database agree with its
  symbol tables and \<^verbatim>\<open>policydb_validate\<close> has accepted it; in a kernel policy every conditional has a
  truth value (with booleans, version 16), and an access decision for a known class and known
  contexts that returns gives an access vector, never an error or a missing datum.\<close>

theorem read_policy_safe:
  assumes "policydb_init m = (None, Some (p, m1))" and "policydb_read m1 p fp = Inr (q, fp', m')"
  shows "indexed q \<and> (\<exists>k. policydb_validate k q = Inr ()) \<and>
    (policy_type q = POLICY_KERN \<longrightarrow>
       (POLICYDB_VERSION_BOOL \<le> policyvers q \<longrightarrow>
          (\<forall>c \<in> set (cond_list q). \<exists>v \<in> {0, 1}. cond_evaluate_expr q (expr c) = Inr v)) \<and>
       (class_ok q tclass \<and> ptr_arr (class_val_to_struct q) (unat tclass - 1) \<noteq> None \<and>
        context_known q s \<and> context_known q t \<and>
        context_struct_compute_av fuel q s t tclass requested = Some r \<longrightarrow>
          (\<exists>avd reason. r = Inr (avd, reason))))"
proof -
  have "checked q" using on_okD[OF policydb_read_ok[OF policydb_init_tables[OF assms(1)]] assms(2)] by simp
  then obtain k where ix: "indexed q" and v: "policydb_validate k q = Inr ()" by (auto simp: checked_def)
  show ?thesis
    using ix v validated_conditional[OF v _ _ ix]
      validated_decision[OF v _ ix, of tclass s t fuel requested r]
    by (auto simp: class_ok_def not_less)
qed

text \<open>What the image becomes, by name.\<close>

lemma tiny_policy:
  obtains p m1 q fp' k where
    "policydb_init 100 = (None, Some (p, m1))" "policydb_read m1 p (mem_file tiny_image) = Inr (q, fp', k)"
    "read_image 100 tiny_image = Inr (q, k)"
proof -
  obtain p m1 where i: "policydb_init 100 = (None, Some (p, m1))"
    using tiny_init by (auto split: prod.splits option.splits)
  obtain q k where r: "read_image 100 tiny_image = Inr (q, k)"
    using tiny_read by (cases "read_image 100 tiny_image") auto
  then obtain fp' where "policydb_read m1 p (mem_file tiny_image) = Inr (q, fp', k)"
    by (auto simp: read_image_def i split: sum.splits errcode.splits)
  then show ?thesis using that i r by blast
qed

theorem read_policy_safe_witness:
  "\<exists>q k avd reason. read_image 100 tiny_image = Inr (q, k) \<and> indexed q \<and> policy_type q = POLICY_KERN \<and>
     context_struct_compute_av 1 q (plain_context 1 1) (plain_context 1 1) 1 3 = Some (Inr (avd, reason))"
proof -
  obtain p m1 q fp' k where q: "policydb_init 100 = (None, Some (p, m1))"
    "policydb_read m1 p (mem_file tiny_image) = Inr (q, fp', k)" "read_image 100 tiny_image = Inr (q, k)"
    by (rule tiny_policy)
  obtain r where "context_struct_compute_av 1 q (plain_context 1 1) (plain_context 1 1) 1 3 = Some r"
    using tiny_read by (auto simp: q(3) simp del: context_struct_compute_av.simps split: option.splits)
  then show ?thesis
    using read_policy_safe[OF q(1,2), of 1 "plain_context 1 1" "plain_context 1 1" 1 3 r] tiny_read q(3)
    by (auto simp del: context_struct_compute_av.simps)
qed

section \<open>Loading a policy\<close>

text \<open>C2: loading a policy. When \<^verbatim>\<open>sepol_load_policy\<close> succeeds on an image (and the reader leaves
  memory for the new SID table), the server runs the policy that the image was read to, which is
  indexed and validated and has kept every class of the old one; its SID table is well formed and
  in service again, and every SID that is left maps to a context that is valid in the new policy
  and is the conversion (by name) of the context the same SID had before. SIDs whose context does
  not convert are gone, none is remapped.\<close>

theorem load_policy_converts:
  assumes "wf_sidtab (stab sv)" and "read_image m bytes = Inr (newp, k)" and "0 < k"
    and "sepol_load_policy m bytes sv = (None, Some sv')"
  shows "pdb sv' = newp \<and> indexed newp \<and> (\<exists>j. policydb_validate j newp = Inr ()) \<and>
    classes_kept (pdb sv) newp \<and> wf_sidtab (stab sv') \<and> \<not> shutdown (stab sv') \<and>
    (\<forall>i c'. sid_map (stab sv') i = Some c' \<longrightarrow> context_is_valid newp c' \<and>
      (\<exists>c m1 m2. sid_map (stab sv) i = Some c \<and> converted m1 (pdb sv) newp c = Inr (c', m2)))"
proof -
  have i: "install_policy k newp sv = (None, sv')"
    using assms(2,4) by (auto simp: sepol_load_policy_def split: prod.splits)
  show ?thesis
    using install_policy_ok[OF assms(1,3) i] install_policy_classes[OF i] read_image_checked[OF assms(2)]
    unfolding checked_def by blast
qed

lemma old_wf_sidtab: "wf_sidtab (stab old_server)"
proof -
  let ?t = "the (sid_htable (stab old_server))"
  have "sid_chains_ok ?t" "sid_nel (stab old_server) = of_nat (length (concat ?t))"
    "next_sid (stab old_server) = 3" "\<forall>n \<in> set (concat ?t). 0 < sid n \<and> sid n < 3"
    by code_simp+
  moreover have "sid_htable (stab old_server) \<noteq> None" by (simp add: old_server_def demo_sids_def)
  ultimately show ?thesis by (auto simp: wf_sidtab_def)
qed

theorem load_policy_converts_witness:
  "\<exists>q k sv'. read_image 100 tiny_image = Inr (q, k) \<and>
     sepol_load_policy 100 tiny_image old_server = (None, Some sv') \<and> pdb sv' = q \<and>
     sid_map (stab sv') 1 = Some (plain_context 1 1) \<and> context_is_valid q (plain_context 1 1) \<and>
     sid_map (stab sv') 2 = None"
proof -
  obtain p m1 q fp' k where q: "read_image 100 tiny_image = Inr (q, k)" by (rule tiny_policy)
  obtain sv' where i: "install_policy k q old_server = (None, sv')"
    and s: "sid_map (stab sv') 1 = Some (plain_context 1 1)" "sid_map (stab sv') 2 = None"
    using tiny_read by (cases "install_policy k q old_server") (auto simp: q split: option.splits)
  have k: "0 < k" using tiny_read by (simp add: q)
  have l: "sepol_load_policy 100 tiny_image old_server = (None, Some sv')"
    by (simp add: sepol_load_policy_def q i)
  show ?thesis using load_policy_converts[OF old_wf_sidtab q k l] q l s by blast
qed

text \<open>C32: what a failed load leaves behind. If the database cannot be initialised nothing has
  happened; if the image cannot be read, the active policy has been freed; if a class of the old
  policy changed, the load is refused and nothing has happened. In the other failures (memory runs
  out while the SIDs are cloned, or a conversion is undefined) every class is kept, the old policy
  and its SIDs stay, but the SID table is shut down: from then on a context without a SID gets
  -ENOMEM however much memory there is.\<close>

theorem load_policy_failures:
  assumes "sepol_load_policy m bytes sv = (Some e, res)" and "wf_sidtab (stab sv)"
  shows "case read_image m bytes of
      Inl err \<Rightarrow> e = err \<and> res = (if err = ENOMEM then Some sv else None)
    | Inr (newp, k) \<Rightarrow>
        if classes_kept (pdb sv) newp
        then e \<in> {ENOMEM, UNDEF} \<and> res = Some (sv\<lparr>stab := (stab sv)\<lparr>shutdown := True\<rparr>\<rparr>) \<and>
          (\<forall>c j. (\<forall>i. sid_map (stab sv) i \<noteq> Some c) \<longrightarrow>
             sepol_sidtab_context_to_sid j ((stab sv)\<lparr>shutdown := True\<rparr>) c = Inl ENOMEM)
        else e = EINVAL \<and> res = Some sv"
proof (cases "read_image m bytes")
  case (Inl err)
  then show ?thesis using assms(1) by (cases err) (auto simp: sepol_load_policy_def)
next
  case (Inr x)
  obtain newp k where x: "x = (newp, k)" by (cases x)
  obtain sv' where i: "install_policy k newp sv = (Some e, sv')" and res: "res = Some sv'"
    using assms(1) by (auto simp: sepol_load_policy_def Inr x split: prod.splits)
  show ?thesis
    using install_policy_fails[OF i] shutdown_no_sid[OF assms(2)] by (auto simp: Inr x res split: if_splits)
qed

lemma demo_wf_sidtab: "wf_sidtab (stab demo_server)"
proof -
  let ?t = "the (sid_htable (stab demo_server))"
  have "sid_chains_ok ?t" "sid_nel (stab demo_server) = of_nat (length (concat ?t))"
    "next_sid (stab demo_server) = 4" "\<forall>n \<in> set (concat ?t). 0 < sid n \<and> sid n < 4"
    by code_simp+
  moreover have "sid_htable (stab demo_server) \<noteq> None" by (simp add: demo_server_def demo_sids_def)
  ultimately show ?thesis unfolding wf_sidtab_def by auto
qed

lemma empty_image: "read_image 100 [] = Inl EINVAL"
  by code_simp

lemma no_sid: "sid_map (stab old_server) i \<noteq> Some (plain_context 2 9)"
proof -
  obtain t where t: "sid_htable (stab old_server) = Some t" using old_wf_sidtab by (auto simp: wf_sidtab_def)
  have "\<forall>n \<in> set (concat (the (sid_htable (stab old_server)))). con n \<noteq> plain_context 2 9" by code_simp
  then show ?thesis using sid_map_Some[OF old_wf_sidtab t, of i "plain_context 2 9"] t by force
qed

text \<open>A file that is too short, a class that is missing, and memory that ends while SIDs are cloned.\<close>

theorem load_policy_failures_witness:
  "sepol_load_policy 100 [] old_server = (Some EINVAL, None) \<and>
   (\<exists>q k. read_image 100 tiny_image = Inr (q, k) \<and> \<not> classes_kept demo q) \<and>
   (\<exists>sv'. sepol_load_policy 94 tiny_image old_server = (Some ENOMEM, Some sv') \<and> pdb sv' = old_policy \<and>
      sepol_sidtab_context_to_sid 1000 (stab sv') (plain_context 2 9) = Inl ENOMEM)"
proof (intro conjI)
  obtain res where "sepol_load_policy 100 [] old_server = (Some EINVAL, res)"
    by (simp add: sepol_load_policy_def empty_image)
  then show "sepol_load_policy 100 [] old_server = (Some EINVAL, None)"
    using load_policy_failures[of 100 "[]" old_server EINVAL res, OF _ old_wf_sidtab] by (simp add: empty_image)
next
  obtain p m1 q fp' k where q: "read_image 100 tiny_image = Inr (q, k)" by (rule tiny_policy)
  obtain sv' where "install_policy k q demo_server = (Some EINVAL, sv')"
    using tiny_read by (cases "install_policy k q demo_server") (auto simp: q)
  then have "sepol_load_policy 100 tiny_image demo_server = (Some EINVAL, Some sv')"
    by (simp add: sepol_load_policy_def q)
  from load_policy_failures[OF this demo_wf_sidtab]
  show "\<exists>q k. read_image 100 tiny_image = Inr (q, k) \<and> \<not> classes_kept demo q"
    by (auto simp: q demo_server_def)
next
  obtain q k where q: "read_image 94 tiny_image = Inr (q, k)"
    using tiny_read_scarce by (cases "read_image 94 tiny_image") auto
  obtain sv' where "install_policy k q old_server = (Some ENOMEM, sv')"
    using tiny_read_scarce by (cases "install_policy k q old_server") (auto simp: q)
  then have l: "sepol_load_policy 94 tiny_image old_server = (Some ENOMEM, Some sv')"
    by (simp add: sepol_load_policy_def q)
  from load_policy_failures[OF l old_wf_sidtab]
  have f: "sv' = old_server\<lparr>stab := (stab old_server)\<lparr>shutdown := True\<rparr>\<rparr>"
    "sepol_sidtab_context_to_sid 1000 ((stab old_server)\<lparr>shutdown := True\<rparr>) (plain_context 2 9) = Inl ENOMEM"
    using no_sid by (auto simp: q split: if_splits)
  then show "\<exists>sv'. sepol_load_policy 94 tiny_image old_server = (Some ENOMEM, Some sv') \<and> pdb sv' = old_policy \<and>
      sepol_sidtab_context_to_sid 1000 (stab sv') (plain_context 2 9) = Inl ENOMEM"
    using l by (auto simp: old_server_def)
qed

end
