(* ===== verification/Spec2Isabelle.thy ===== *)
theory Spec2Isabelle
  imports Container_Properties Access_Properties Mls_Properties Validate_Properties
    Optimize_Properties Assertion_Properties Hierarchy_Properties Load_Properties
begin

text \<open>
  A verification development for \<^bold>\<open>libsepol\<close>, the SELinux binary policy library. The library
  keeps a policy database (\<^verbatim>\<open>policydb_t\<close>) of symbol tables, type enforcement rules,
  conditionals, constraints and object contexts; its security server (\<^verbatim>\<open>src/services.c\<close>)
  answers access and labelling queries over security identifiers (SIDs) that a SID table maps
  to contexts.

  \<^bold>\<open>Theories and code.\<close>
  \<^item> \<open>Sepol_Prelude\<close>: widths of the C integers, error codes, allocation, array reads, facts on words.
  \<^item> \<open>Ebitmap\<close>, \<open>Ebitmap_Bits\<close>, \<open>Ebitmap_Ops\<close>, \<open>Ebitmap_Algebra\<close>, \<open>Ebitmap_Sets\<close>, \<open>Ebitmap_IO\<close>:
    \<^verbatim>\<open>src/ebitmap.c\<close>, \<^verbatim>\<open>ebitmap.h\<close> and \<^verbatim>\<open>ebitmap_write\<close> of \<^verbatim>\<open>src/write.c\<close>. The invariant is
    \<open>wf_ebitmap\<close>, the abstraction the set \<open>ebits\<close>; the lemmas show that each loop implements the
    operation on sets, and that reading and writing agree.
  \<^item> \<open>Policy_File\<close>: \<^verbatim>\<open>next_entry\<close>, \<^verbatim>\<open>put_entry\<close>, \<^verbatim>\<open>str_read\<close>, the checks of \<^verbatim>\<open>src/private.h\<close>.
  \<^item> \<open>Hashtab\<close>, \<open>Symtab\<close>: \<^verbatim>\<open>src/hashtab.c\<close> with the locale \<open>hashing\<close> for its two callbacks, and
    \<^verbatim>\<open>src/symtab.c\<close>, which interprets it. The tables are shown to be finite maps.
  \<^item> \<open>Avtab\<close>, \<open>Avtab_Props\<close>: \<^verbatim>\<open>src/avtab.c\<close>; the invariant \<open>wf_avtab\<close>, the multiset of rules
    \<open>av_nodes\<close>, and the locale \<open>rule_index\<close> for the users of the search loop.
  \<^item> \<open>Mls_Types\<close>, \<open>Mls\<close>, \<open>Mls_Props\<close>, \<open>Mls_Print\<close>: \<^verbatim>\<open>mls_types.h\<close>, \<^verbatim>\<open>context.h\<close> and \<^verbatim>\<open>src/mls.c\<close>:
    dominance, validity, computed ranges, printing and parsing.
  \<^item> \<open>Policydb\<close>: the data model of \<^verbatim>\<open>policydb.h\<close>, \<^verbatim>\<open>constraint.h\<close>, \<^verbatim>\<open>conditional.h\<close> and the range
    transition callbacks of \<^verbatim>\<open>src/policydb.c\<close>.
  \<^item> \<open>Codec\<close>: readers and writers of sequences of items, with the locale \<open>codec\<close> for a pair of
    a writer and a reader that undo each other. \<open>Rule_IO\<close>: type sets, role sets and module rules
    (\<^verbatim>\<open>avrule_t\<close>) as \<^verbatim>\<open>src/policydb.c\<close> reads and \<^verbatim>\<open>src/write.c\<close> writes them.
  \<^item> \<open>Conditional\<close>, \<open>Conditional_Props\<close>: \<^verbatim>\<open>src/conditional.c\<close>: evaluation, normalisation, switching
    of rules, the reader, access decisions.
  \<^item> \<open>Context\<close>: \<^verbatim>\<open>src/context.c\<close>, \<^verbatim>\<open>src/context_record.c\<close>. \<open>Sidtab\<close>: \<^verbatim>\<open>src/sidtab.c\<close>, with the
    locale \<open>sid_store\<close> for the promise of the SID allocator.
  \<^item> \<open>Constraints\<close>, \<open>Access\<close>, \<open>Services\<close>, \<open>Labels\<close>, \<open>Reload\<close>, \<open>Services_Props\<close>: \<^verbatim>\<open>src/services.c\<close>:
    constraint evaluation, access decisions, SID computation, object labelling, installing a policy.
  \<^item> \<open>Validate\<close>, \<open>Validate_Policy\<close>, \<open>Validate_Props\<close>: \<^verbatim>\<open>src/policydb_validate.c\<close>, the check every policy
    that is read must pass; the lemmas say what an accepted policy guarantees to the server.
  \<^item> \<open>Datum_IO\<close>, \<open>Object_IO\<close>, \<open>Module_IO\<close>, \<open>Policydb_Index\<close>, \<open>Policydb_Read\<close>: the binary reader of
    \<^verbatim>\<open>src/policydb.c\<close> from the header to the final validation: symbols, rules, object contexts,
    the blocks, declarations and scopes of modules, the indexes by value, and \<^verbatim>\<open>policydb_init\<close>;
    with the expansion of sets of roles, types and levels of \<^verbatim>\<open>src/expand.c\<close> that fills the
    caches of roles and users, and the blocks of \<^verbatim>\<open>src/avrule_block.c\<close>. \<open>Policydb_Read_Props\<close>: a
    database that is read is indexed and validated, whatever the bytes. \<open>Load_Policy\<close>, \<open>Load_Props\<close>:
    \<^verbatim>\<open>sepol_load_policy\<close> from the bytes of the image to the converted SID table, and its failures.
  \<^item> \<open>Optimize\<close>, \<open>Optimize_Props\<close>: \<^verbatim>\<open>src/optimize.c\<close>: the removal of rules that other rules cover; the
    lemmas follow the rules in force through every removal and show that they grant the same.
  \<^item> \<open>Assertion\<close>, \<open>Assertion_Props\<close>: \<^verbatim>\<open>src/assertion.c\<close>: the neverallow check finds and counts the
    rules that contradict an assertion; without such rules no access decision does.
  \<^item> \<open>Hierarchy\<close>, \<open>Hierarchy_Props\<close>: \<^verbatim>\<open>src/hierarchy.c\<close>: bounds from dotted names and the check that
    children stay within their parents; an accepted policy bounds the access decisions.
  \<^item> \<open>Example_Policy\<close>: a small policy on which the witnesses are evaluated.
    \<open>Container_Properties\<close>, \<open>Access_Properties\<close>, \<open>Mls_Properties\<close>, \<open>Validate_Properties\<close>,
    \<open>Optimize_Properties\<close>, \<open>Assertion_Properties\<close>, \<open>Hierarchy_Properties\<close>, \<open>Load_Properties\<close> and this
    theory hold the properties, each with its number, and the witnesses.

  \<^bold>\<open>State and effects.\<close> A C structure is a record and a linked list a list; an operation returns
  the changed structure. \<^verbatim>\<open>malloc\<close> draws on a budget \<open>mem\<close> that the operations return, so an
  out-of-memory path is a branch (the exception is named below). A result is \<open>Inl\<close> of an error code or \<open>Inr\<close> of the value;
  operations that change the state and then fail return the state beside the result. \<open>UNDEF\<close>
  marks what C leaves undefined (a null pointer followed, an index outside an array). 32-bit
  arithmetic wraps where the code's does. Rules that two structures point to have addresses
  (\<open>addr\<close>), which the lists of a conditional hold.

  \<^bold>\<open>Bounds.\<close> \<open>context_struct_compute_av\<close> counts the nested calls along the type bounds with fuel: any
  fuel above the rank of the source type gives the result (\<open>access_decision_returns\<close>), and no fuel is enough
  for a type that bounds itself (\<open>validated_bounds_cycle\<close>). All other loops are structural or have termination proofs.

  \<^bold>\<open>Not modelled.\<close> Log messages; the text of the reason buffers and, with it, the -ENOMEM that
  \<^verbatim>\<open>constraint_expr_eval_reason\<close> returns when a buffer cannot be allocated (its callers take this
  for a satisfied constraint), so access decisions have no memory budget; the destructors, which free
  memory only; the writers of symbols and objects in \<^verbatim>\<open>src/write.c\<close>; the module
  linker, the expander but for the expansion of sets, and the translators to text and CIL; the CIL compiler.
\<close>

section \<open>The security server\<close>

text \<open>C3: a readable context survives the round trip through its string: \<^verbatim>\<open>context_from_string\<close>
  applied to what \<^verbatim>\<open>context_to_string\<close> wrote (with its terminating NUL) gives back the same context.
  Readable is a valid context whose user, role and type (not an attribute) have names that the
  symbol tables map back to their numbers and that contain no colon and no NUL; with MLS also its
  sensitivities and categories have such names without the separators of ranges, and its category
  sets leave no gap between bitmap nodes where a run is printed (without this condition the round
  trip fails: C39). The MLS part has no NUL and fewer than 2 to the 31 characters, the string fewer
  than 2 to the 63, and the reader has the memory that it needs.\<close>

theorem context_text_roundtrip:
  assumes "readable p c" and "context_to_string m0 p c = Inr (s, len, m1)"
    and "mls_sid_to_context p c = Inr ms" and "length ms < 2147483648" and "NUL \<notin> set ms"
    and "length s < 2 ^ 63" and "read_budget c \<le> m"
  shows "\<exists>m'. context_from_string m p (s @ [NUL]) (of_nat (length s + 1)) = Inr (c, m')"
  using assms by (rule context_string_roundtrip)

lemma demo_readable: "readable demo (demo_context 2 1)"
proof -
  have n: "good_name (p_user_val_to_name demo) user_value (p_users demo) 1"
    "good_name (p_role_val_to_name demo) role_value (p_roles demo) 2"
    "good_name (p_type_val_to_name demo) type_value (p_types demo) 1"
    unfolding good_name_def
    by (rule conjI, code_simp, rule conjI, rule exI, rule conjI, code_simp, code_simp, code_simp)+
  have f: "\<forall>d. sym_search (table (p_types demo)) (nm (p_type_val_to_name demo) 0) = Some d \<longrightarrow>
      type_flavor d \<noteq> TYPE_ATTRIB"
  proof -
    have "sym_search (table (p_types demo)) (nm (p_type_val_to_name demo) 0) = Some (demo_type 1 0)" by code_simp
    then show ?thesis by (simp add: demo_type_def)
  qed
  have "mls demo" by code_simp
  then show ?thesis
    using n f demo_valid demo_printable[of 0]
    by (simp add: readable_def) (simp add: demo_context_def demo_range_def)
qed

theorem context_text_roundtrip_witness:
  "\<exists>m'. context_from_string 20 demo (''staff_u:staff_r:user_t:s0'' @ [NUL]) 26 = Inr (demo_context 2 1, m')"
proof -
  have "context_to_string 1 demo (demo_context 2 1) = Inr (''staff_u:staff_r:user_t:s0'', 26, 0)"
    "mls_sid_to_context demo (demo_context 2 1) = Inr '':s0''" by code_simp+
  moreover have "read_budget (demo_context 2 1) = 12"
    by (simp add: read_budget_def demo_context_def demo_range_def demo_level_def bits64_def ebitmap_init_def ebits_def)
  ultimately show ?thesis using context_text_roundtrip[OF demo_readable, of 1 _ 26 0 "'':s0''" 20] by simp
qed

text \<open>Every context that enters the server is valid: whatever string or record is parsed and
  whatever transition is computed, a context that is produced satisfies \<^verbatim>\<open>context_is_valid\<close>.\<close>

lemma contexts_valid:
  "(context_from_string m p buf len = Inr (c, m') \<longrightarrow> context_is_valid p c) \<and>
   (context_from_record m p rec = Inr (c, m') \<longrightarrow> context_is_valid p c) \<and>
   (new_context m p s t tclass spec = Inr (c, m') \<longrightarrow> context_is_valid p c)"
  using context_from_string_valid context_from_record_valid new_context_valid by blast

text \<open>C5: computing a SID (\<^verbatim>\<open>sepol_transition_sid\<close>, \<^verbatim>\<open>_member_sid\<close>, \<^verbatim>\<open>_change_sid\<close>) returns the SID
  of the new context of the pair, which is valid; the policy is unchanged, the SID table stays well
  formed and no SID changes its meaning.\<close>

theorem compute_sid_contract:
  assumes "wf_sidtab (stab sv)" and "sepol_compute_sid m sv ssid tsid tclass spec = Inr (i, sv', m')"
  shows "pdb sv' = pdb sv \<and> wf_sidtab (stab sv') \<and>
    (\<forall>j c. sid_map (stab sv) j = Some c \<longrightarrow> sid_map (stab sv') j = Some c) \<and>
    (\<exists>s t c m1 m2. find_sid sv ssid = Inr s \<and> find_sid sv tsid = Inr t \<and>
      new_context m1 (pdb sv) s t tclass spec = Inr (c, m2) \<and>
      sid_map (stab sv') i = Some c \<and> context_is_valid (pdb sv) c)"
  using compute_sid_ok[OF assms] unfolding sid_extends_def by blast

theorem compute_sid_contract_witness:
  "\<exists>sv' m'. sepol_transition_sid 10 demo_server 2 1 1 = Inr (2, sv', m') \<and> wf_sidtab (stab sv') \<and>
     sid_map (stab sv') 3 = sid_map (stab demo_server) 3"
proof -
  have "case sepol_transition_sid 10 demo_server 2 1 1 of Inr (i, sv, m) \<Rightarrow> i = 2 | _ \<Rightarrow> False"
    "sid_map (stab demo_server) 3 \<noteq> None"
    by code_simp+
  then obtain sv' m' where t: "sepol_transition_sid 10 demo_server 2 1 1 = Inr (2, sv', m')"
    by (auto split: sum.splits prod.splits)
  then show ?thesis
    using compute_sid_contract[OF demo_wf_sidtab t[unfolded sepol_transition_sid_def]]
      \<open>sid_map (stab demo_server) 3 \<noteq> None\<close> by auto
qed

text \<open>C25: the SID table assigns identifiers as a bijection grown on demand: the SID returned for a
  context maps to it and is not the null SID, a known context gets no new entry, a new context
  gets a SID that was free, everything else is unchanged, and asking again for the context after
  any further allocation that succeeds gives a SID with the same context.\<close>

theorem sid_allocation:
  assumes "wf_sidtab s" and "sepol_sidtab_context_to_sid m s c = Inr (i, s', m')"
  shows "wf_sidtab s' \<and> i \<noteq> 0 \<and> sid_map s' i = Some c \<and>
    sid_map s' = (if \<exists>j. sid_map s j = Some c then sid_map s else (sid_map s)(i \<mapsto> c)) \<and>
    ((\<nexists>j. sid_map s j = Some c) \<longrightarrow> sid_map s i = None) \<and>
    (\<forall>d k s2 m2. sepol_sidtab_context_to_sid m' s' d = Inr (k, s2, m2) \<and> d \<noteq> c \<longrightarrow> k \<noteq> i)"
  using context_to_sid_ok[OF assms] sids.alloc_distinct[OF assms] by metis

theorem sid_allocation_witness:
  "\<exists>i s' m'. sepol_sidtab_context_to_sid 10 (stab demo_server) (demo_context 1 2) = Inr (i, s', m') \<and>
     sid_map s' i = Some (demo_context 1 2) \<and> sid_map (stab demo_server) i = None"
proof -
  have "case sepol_sidtab_context_to_sid 10 (stab demo_server) (demo_context 1 2) of
      Inr (i, s', m') \<Rightarrow> sid_map (stab demo_server) i = None | _ \<Rightarrow> False"
    by code_simp
  then obtain i s' m' where a: "sepol_sidtab_context_to_sid 10 (stab demo_server) (demo_context 1 2) = Inr (i, s', m')"
    and n: "sid_map (stab demo_server) i = None"
    by (auto split: sum.splits prod.splits)
  then show ?thesis using sid_allocation[OF demo_wf_sidtab a] by blast
qed

text \<open>An unknown SID means the unlabeled context: \<^verbatim>\<open>sepol_sidtab_search\<close> returns the context of
  the SID if the table has it and otherwise the context of \<^verbatim>\<open>SECINITSID_UNLABELED\<close>.\<close>

lemma sid_search_unlabeled:
  assumes "wf_sidtab s"
  shows "sepol_sidtab_search s i =
    (case sid_map s i of Some c \<Rightarrow> Some c | None \<Rightarrow> sid_map s SECINITSID_UNLABELED)"
  using assms by (rule sidtab_search_eq)

text \<open>A transition is valid exactly when the class exists and every \<^verbatim>\<open>validatetrans\<close> rule of the
  class is granted for the old, new and task contexts.\<close>

lemma validate_transition_decides:
  "sepol_validate_transition sv o_sid n_sid t_sid tclass = Inr () \<longleftrightarrow>
     class_ok (pdb sv) tclass \<and>
     (\<exists>oc nc tc cl. find_sid sv o_sid = Inr oc \<and> find_sid sv n_sid = Inr nc \<and> find_sid sv t_sid = Inr tc \<and>
        ptr_arr (class_val_to_struct (pdb sv)) (unat tclass - 1) = Some cl \<and>
        (\<forall>c \<in> set (validatetrans cl). constraint_granted (pdb sv) oc nc (Some tc) c = Inr True))"
  by (rule validate_transition_iff)

text \<open>The label of a port is the context of the first entry whose protocol and range match,
  else the initial SID for ports; the SID table stays well formed and keeps every SID.\<close>

lemma port_label:
  assumes "wf_sidtab (stab sv)" and "\<forall>c \<in> set (ocon_port (pdb sv)). cache_ok (stab sv) c"
    and "sepol_port_sid m sv protocol prt = (Inr (i, m'), sv')"
  shows "((\<forall>c \<in> set (ocon_port (pdb sv)). \<not> port_matches protocol prt c) \<and> i = SECINITSID_PORT \<and> sv' = sv \<or>
    (\<exists>k < length (ocon_port (pdb sv)). port_matches protocol prt (ocon_port (pdb sv) ! k) \<and>
       (\<forall>j < k. \<not> port_matches protocol prt (ocon_port (pdb sv) ! j)) \<and>
       sid_map (stab sv') i = Some (context0 (ocon_port (pdb sv) ! k)))) \<and>
    wf_sidtab (stab sv') \<and> (\<forall>j c. sid_map (stab sv) j = Some c \<longrightarrow> sid_map (stab sv') j = Some c)"
  using ocon_lookup_one[OF assms(1,2) assms(3)[unfolded sepol_port_sid_def]] unfolding sid_extends_def by blast

text \<open>A path of a file system without labels gets the context of the longest matching prefix,
  provided the entries are sorted by decreasing length as the policy reader leaves them.\<close>

lemma genfs_longest_prefix:
  assumes "first_match (genfs_matches path sclass) cs = Some k"
    and "sorted_wrt (\<lambda>a b. case (ou a, ou b) of (OName x, OName y) \<Rightarrow> length y \<le> length x | _ \<Rightarrow> True) cs"
    and "c \<in> set cs" and "genfs_matches path sclass c" and "ou c = OName x"
  shows "\<exists>y. ou (cs ! k) = OName y \<and> length x \<le> length y \<and> take (length y) path = y"
  using assms by (rule genfs_longest)

text \<open>The context string \<^verbatim>\<open><<none>>\<close> makes \<^verbatim>\<open>context_from_string\<close> dereference a null record:
  \<^verbatim>\<open>sepol_context_from_string\<close> succeeds with a null pointer, which is passed on unchecked.\<close>

theorem none_context_undefined:
  assumes "1 \<le> m"
  shows "context_from_string m p (''<<none>>'' @ [NUL]) 9 = Inl UNDEF"
  using assms by (rule context_from_string_none)

end
